(* ===== verification/Prelude.thy ===== *)
theory Prelude
  imports Main "HOL-Library.List_Lexorder" "HOL-Library.Char_ord"
    "HOL-Library.Product_Lexorder"
begin

text \<open>
  What every component shares: the alphabet predicates behind the daemon's regular
  expressions, signed 64-bit integers with the wrap-around of Go written out, the first
  error of a sequence of checks, and small list operations that the Go code spells out as
  loops (membership, removal, first match, ordered rows of a table).

  Conventions. A Go \<open>string\<close> is a byte string, here a \<^typ>\<open>string\<close>. A \<open>time.Time\<close> is the
  number of nanoseconds since Go's zero time, so that \<open>IsZero\<close> is equality with 0, and a
  \<open>time.Duration\<close> is an \<^typ>\<open>int\<close>. A function that returns only an \<open>error\<close> returns an
  \<^typ>\<open>'e option\<close>; one that returns a value and an error returns a sum, \<^term>\<open>Inl\<close> for the
  error.
\<close>

named_theorems only_intros \<open>an operation does nothing beyond a class of calls\<close>
named_theorems wf_intros \<open>an operation keeps the stored groups well formed\<close>

type_synonym time = int
type_synonym duration = int

section \<open>Characters\<close>

definition lower_chars :: string where
  "lower_chars = ''abcdefghijklmnopqrstuvwxyz''"

definition upper_chars :: string where
  "upper_chars = ''ABCDEFGHIJKLMNOPQRSTUVWXYZ''"

definition digit_chars :: string where
  "digit_chars = ''0123456789''"

definition is_lower :: "char \<Rightarrow> bool" where
  "is_lower c \<longleftrightarrow> c \<in> set lower_chars"

definition is_digit :: "char \<Rightarrow> bool" where
  "is_digit c \<longleftrightarrow> c \<in> set digit_chars"

definition is_alpha :: "char \<Rightarrow> bool" where
  "is_alpha c \<longleftrightarrow> c \<in> set lower_chars \<or> c \<in> set upper_chars"

definition is_alnum :: "char \<Rightarrow> bool" where
  "is_alnum c \<longleftrightarrow> is_alpha c \<or> is_digit c"

lemmas char_class_defs =
  is_lower_def is_digit_def is_alpha_def is_alnum_def lower_chars_def upper_chars_def digit_chars_def

text \<open>
  The anchored expressions of the daemon have the shape \<open>^[first][rest]{lo,hi}$\<close>: one
  character of a first class, then between \<open>lo\<close> and \<open>hi\<close> characters of a second one.
\<close>

fun match_head_tail :: "(char \<Rightarrow> bool) \<Rightarrow> (char \<Rightarrow> bool) \<Rightarrow> nat \<Rightarrow> string \<Rightarrow> bool" where
  "match_head_tail p q hi [] = False"
| "match_head_tail p q hi (c # cs) \<longleftrightarrow> p c \<and> length cs \<le> hi \<and> list_all q cs"

definition match_class :: "(char \<Rightarrow> bool) \<Rightarrow> nat \<Rightarrow> nat \<Rightarrow> string \<Rightarrow> bool" where
  "match_class p lo hi s \<longleftrightarrow> lo \<le> length s \<and> length s \<le> hi \<and> list_all p s"

lemma match_head_tail_chars:
  "match_head_tail p q hi s \<Longrightarrow> c \<in> set s \<Longrightarrow> p c \<or> q c"
  by (cases s) (auto simp: list_all_iff)

lemma match_head_tail_length:
  "match_head_tail p q hi s \<Longrightarrow> 0 < length s \<and> length s \<le> Suc hi"
  by (cases s) auto

section \<open>Signed 64-bit integers\<close>

text \<open>An \<open>int64\<close> addition wraps around at \<open>2^63\<close>.\<close>

definition int64 :: "int \<Rightarrow> int" where
  "int64 x = (x + 2 ^ 63) mod 2 ^ 64 - 2 ^ 63"

definition max_int64 :: int where
  "max_int64 = 2 ^ 63 - 1"

lemma int64_id: "- (2 ^ 63) \<le> x \<Longrightarrow> x < 2 ^ 63 \<Longrightarrow> int64 x = x"
  by (simp add: int64_def)

lemma int64_range: "- (2 ^ 63) \<le> int64 x \<and> int64 x < 2 ^ 63"
proof -
  have "0 \<le> (x + 2 ^ 63) mod 2 ^ 64" and "(x + 2 ^ 63) mod 2 ^ 64 < 2 ^ 64"
    by simp_all
  then show ?thesis by (simp add: int64_def)
qed

lemma int64_Suc: "1 \<le> x \<Longrightarrow> x < max_int64 \<Longrightarrow> int64 (x + 1) = x + 1"
  by (simp add: int64_id max_int64_def)

lemma int64_max_wraps: "int64 (max_int64 + 1) = - (2 ^ 63)"
  by (simp add: int64_def max_int64_def)

section \<open>Decimal numbers\<close>

text \<open>\<open>%d\<close> and \<open>strconv.Itoa\<close>.\<close>

definition digit_char :: "nat \<Rightarrow> char" where
  "digit_char d = (if d < 10 then digit_chars ! d else CHR ''0'')"

fun show_nat :: "nat \<Rightarrow> string" where
  "show_nat n = (if n < 10 then [digit_char n] else show_nat (n div 10) @ [digit_char (n mod 10)])"

declare show_nat.simps [simp del]

definition show_int :: "int \<Rightarrow> string" where
  "show_int i = (if i < 0 then CHR ''-'' # show_nat (nat (- i)) else show_nat (nat i))"

lemma is_digit_digit_char: "is_digit (digit_char d)"
proof -
  have "digit_chars ! d \<in> set digit_chars" if "d < 10"
    using that by (intro nth_mem) (simp add: digit_chars_def)
  moreover have "CHR ''0'' \<in> set digit_chars" by (simp add: digit_chars_def)
  ultimately show ?thesis by (simp add: is_digit_def digit_char_def)
qed

lemma show_nat_digits: "show_nat n \<noteq> [] \<and> list_all is_digit (show_nat n)"
proof (induction n rule: show_nat.induct)
  case (1 n)
  then show ?case by (subst (1 2) show_nat.simps) (auto simp: is_digit_digit_char)
qed

section \<open>Sequences of checks\<close>

text \<open>The first failing check decides the error, as a chain of early returns does.\<close>

fun first_error :: "'e option list \<Rightarrow> 'e option" where
  "first_error [] = None"
| "first_error (None # cs) = first_error cs"
| "first_error (Some e # cs) = Some e"

lemma first_error_None [simp]: "first_error cs = None \<longleftrightarrow> (\<forall>c \<in> set cs. c = None)"
  by (induction cs rule: first_error.induct) auto

lemma first_error_Some: "first_error cs = Some e \<Longrightarrow> Some e \<in> set cs"
  by (induction cs rule: first_error.induct) auto

definition guard :: "bool \<Rightarrow> 'e \<Rightarrow> 'e option" where
  "guard ok e = (if ok then None else Some e)"

lemma guard_None [simp]: "guard ok e = None \<longleftrightarrow> ok"
  by (simp add: guard_def)

section \<open>Lists\<close>

text \<open>\<open>contains\<close> and \<open>without\<close> of the group package, as the loops they are.\<close>

fun contains :: "'a list \<Rightarrow> 'a \<Rightarrow> bool" where
  "contains [] x = False"
| "contains (v # s) x = (if v = x then True else contains s x)"

lemma contains_iff [simp]: "contains s x \<longleftrightarrow> x \<in> set s"
  by (induction s) auto

fun without :: "'a list \<Rightarrow> 'a \<Rightarrow> 'a list" where
  "without [] x = []"
| "without (v # s) x = (if v \<noteq> x then v # without s x else without s x)"

lemma set_without [simp]: "set (without s x) = set s - {x}"
  by (induction s) auto

lemma without_filter: "without s x = filter (\<lambda>v. v \<noteq> x) s"
  by (induction s) auto

lemma find_SomeD: "List.find P xs = Some x \<Longrightarrow> x \<in> set xs \<and> P x"
  by (induction xs) (auto split: if_splits)

lemma find_NoneD: "List.find P xs = None \<Longrightarrow> x \<in> set xs \<Longrightarrow> \<not> P x"
  by (induction xs) (auto split: if_splits)

lemma find_append: "List.find P (xs @ ys) = (case List.find P xs of None \<Rightarrow> List.find P ys | Some x \<Rightarrow> Some x)"
  by (induction xs) simp_all

lemma find_Some_conv: "(\<exists>x. List.find P xs = Some x) \<longleftrightarrow> (\<exists>x \<in> set xs. P x)"
  by (induction xs) auto

section \<open>Rows of a table\<close>

text \<open>
  A database table with a primary key is the list of its rows in the order of the key, the
  order every listing query asks for. \<open>upsert\<close> is \<open>INSERT ... ON CONFLICT DO UPDATE\<close>.
\<close>

fun upsert :: "('r \<Rightarrow> 'k::linorder) \<Rightarrow> 'r \<Rightarrow> 'r list \<Rightarrow> 'r list" where
  "upsert key r [] = [r]"
| "upsert key r (h # t) =
     (if key r = key h then r # t else if key r < key h then r # h # t else h # upsert key r t)"

definition row :: "('r \<Rightarrow> 'k) \<Rightarrow> 'r list \<Rightarrow> 'k \<Rightarrow> 'r option" where
  "row key t k = List.find (\<lambda>r. key r = k) t"

definition delete_row :: "('r \<Rightarrow> 'k) \<Rightarrow> 'k \<Rightarrow> 'r list \<Rightarrow> 'r list" where
  "delete_row key k t = filter (\<lambda>r. key r \<noteq> k) t"

lemma row_Nil [simp]: "row key [] k = None"
  by (simp add: row_def)

lemma row_Cons: "row key (r # t) k = (if key r = k then Some r else row key t k)"
  by (simp add: row_def)

lemma row_upsert: "row key (upsert key r t) k = (if k = key r then Some r else row key t k)"
  by (induction t) (auto simp: row_Cons)

lemma row_delete: "row key (delete_row key j t) k = (if k = j then None else row key t k)"
  by (induction t) (auto simp: row_Cons delete_row_def)

lemma row_key: "row key t k = Some r \<Longrightarrow> key r = k"
  by (induction t) (auto simp: row_Cons split: if_splits)

lemma row_in_set: "row key t k = Some r \<Longrightarrow> r \<in> set t"
  by (induction t) (auto simp: row_Cons split: if_splits)

lemma set_upsert: "set (upsert key r t) \<subseteq> insert r (set t)"
  by (induction t) auto

lemma set_delete_row: "set (delete_row key k t) \<subseteq> set t"
  by (simp add: delete_row_def)

definition ordered_rows :: "('r \<Rightarrow> 'k::linorder) \<Rightarrow> 'r list \<Rightarrow> bool" where
  "ordered_rows key t \<longleftrightarrow> sorted_wrt (<) (map key t)"

lemma ordered_rows_Nil [simp]: "ordered_rows key []"
  by (simp add: ordered_rows_def)

lemma ordered_upsert:
  assumes "ordered_rows key t" shows "ordered_rows key (upsert key r t)"
  using assms
proof (induction t)
  case Nil
  then show ?case by (simp add: ordered_rows_def)
next
  case (Cons h t)
  then have IH: "sorted_wrt (<) (map key (upsert key r t))"
    and lt: "\<And>x. x \<in> set t \<Longrightarrow> key h < key x" and srt: "sorted_wrt (<) (map key t)"
    by (auto simp: ordered_rows_def)
  show ?case
    using IH lt srt set_upsert [of key r t]
    by (auto simp: ordered_rows_def subset_iff dest: less_trans)
qed

lemma ordered_delete: "ordered_rows key t \<Longrightarrow> ordered_rows key (delete_row key k t)"
  by (induction t) (auto simp: ordered_rows_def delete_row_def)

lemma row_of_ordered:
  assumes "ordered_rows key t" and "r \<in> set t" shows "row key t (key r) = Some r"
  using assms by (induction t) (auto simp: ordered_rows_def row_Cons)

lemmas row_simps [simp] = row_upsert row_delete

end
