(* ===== verification/NetAddr.thy ===== *)
theory NetAddr
  imports Prelude
begin

text \<open>
  The part of Go's \<open>net\<close> and \<open>net/netip\<close> packages the daemon validates addresses with:
  \<open>net.ParseIP\<close> and \<open>net.ParseCIDR\<close> over IPv4 and IPv6 text, and the classification of an
  address. An address is its sixteen bytes, an IPv4 address in its IPv4-mapped form, as in Go.
  Every function is executable and total; \<^const>\<open>None\<close> is Go's error or nil.
\<close>

type_synonym ip = "nat list"

fun digit_val :: "char \<Rightarrow> nat option" where
  "digit_val c = map_of (zip digit_chars [0, 1, 2, 3, 4, 5, 6, 7, 8, 9]) c"

fun hex_val :: "char \<Rightarrow> nat option" where
  "hex_val c =
     (case digit_val c of Some d \<Rightarrow> Some d
      | None \<Rightarrow>
          (if c = CHR ''a'' \<or> c = CHR ''A'' then Some 10 else if c = CHR ''b'' \<or> c = CHR ''B'' then Some 11
           else if c = CHR ''c'' \<or> c = CHR ''C'' then Some 12 else if c = CHR ''d'' \<or> c = CHR ''D'' then Some 13
           else if c = CHR ''e'' \<or> c = CHR ''E'' then Some 14 else if c = CHR ''f'' \<or> c = CHR ''F'' then Some 15
           else None))"

lemma digit_val_le: "digit_val c = Some d \<Longrightarrow> d \<le> 9"
  by (auto simp: digit_chars_def split: if_splits)

lemma hex_val_le: "hex_val c = Some d \<Longrightarrow> d \<le> 15"
  using digit_val_le [of c] by (auto split: if_splits option.splits)

declare digit_val.simps [simp del] hex_val.simps [simp del]

section \<open>IPv4\<close>

text \<open>
  Four decimal fields of at most 255 without leading zeros, separated by single dots. The
  state of the loop is the fields read, the value of the current field and how many digits it
  has.
\<close>

fun ipv4_fields :: "nat list \<Rightarrow> nat \<Rightarrow> nat \<Rightarrow> string \<Rightarrow> nat list option" where
  "ipv4_fields done val digits [] =
     (if digits = 0 \<or> length done < 3 then None else Some (done @ [val]))"
| "ipv4_fields done val digits (c # s) =
     (case digit_val c of
        Some d \<Rightarrow>
          (if digits = 1 \<and> val = 0 then None
           else if 255 < val * 10 + d then None
           else ipv4_fields done (val * 10 + d) (Suc digits) s)
      | None \<Rightarrow>
          (if c = CHR ''.'' then
             (if digits = 0 \<or> s = [] \<or> length done = 3 then None
              else ipv4_fields (done @ [val]) 0 0 s)
           else None))"

definition parse_ipv4 :: "string \<Rightarrow> nat list option" where
  "parse_ipv4 s = ipv4_fields [] 0 0 s"

lemma ipv4_fields_shape:
  "ipv4_fields done val digits s = Some ip \<Longrightarrow> length done \<le> 3 \<Longrightarrow> val \<le> 255 \<Longrightarrow>
     (\<forall>b \<in> set done. b \<le> 255) \<Longrightarrow> length ip = 4 \<and> (\<forall>b \<in> set ip. b \<le> 255)"
proof (induction "done" val digits s rule: ipv4_fields.induct)
  case (1 "done" val digits)
  then show ?case by (simp split: if_splits) auto
next
  case (2 "done" val digits c s)
  show ?case
  proof (cases "digit_val c")
    case None
    note fields = "2.prems"(1) [unfolded ipv4_fields.simps None option.case]
    from fields have dot: "c = CHR ''.''" and rest: "\<not> (digits = 0 \<or> s = [] \<or> length done = 3)"
      by (auto split: if_splits)
    from fields dot rest have "ipv4_fields (done @ [val]) 0 0 s = Some ip" by simp
    moreover from rest "2.prems"(2) have "length (done @ [val]) \<le> 3" by simp
    moreover have "\<forall>b \<in> set (done @ [val]). b \<le> 255" using "2.prems"(3,4) by simp
    ultimately show ?thesis by (intro "2.IH"(1) [OF None dot rest]) simp_all
  next
    case (Some d)
    note fields = "2.prems"(1) [unfolded ipv4_fields.simps Some option.case]
    from fields have lead: "\<not> (digits = 1 \<and> val = 0)" and small: "\<not> 255 < val * 10 + d"
      by (auto split: if_splits)
    from fields lead small have "ipv4_fields done (val * 10 + d) (Suc digits) s = Some ip"
      by (simp split: if_splits)
    then show ?thesis
      by (rule "2.IH"(2) [OF Some lead small]) (use "2.prems"(2,4) small in simp_all)
  qed
qed

section \<open>IPv6\<close>

fun hex_group :: "nat \<Rightarrow> nat \<Rightarrow> string \<Rightarrow> (nat \<times> nat \<times> string) option" where
  "hex_group off acc [] = Some (off, acc, [])"
| "hex_group off acc (c # s) =
     (case hex_val c of
        None \<Rightarrow> Some (off, acc, c # s)
      | Some d \<Rightarrow> (if 3 < off then None else hex_group (Suc off) (acc * 16 + d) s))"

lemma hex_group_shrinks: "hex_group off acc s = Some (off', acc', s') \<Longrightarrow> length s' + off' = length s + off"
  by (induction off acc s rule: hex_group.induct) (auto split: option.splits if_splits)

text \<open>
  The loop of \<open>parseIPv6\<close>. \<open>bytes\<close> are the bytes read so far, \<open>ell\<close> is the position of
  \<open>::\<close>. It stops after sixteen bytes or at the end of the text and returns what is left.
\<close>

function ipv6_groups ::
  "nat list \<Rightarrow> nat option \<Rightarrow> string \<Rightarrow> (nat list \<times> nat option \<times> string) option" where
  "ipv6_groups bytes ell s =
     (if 16 \<le> length bytes then Some (bytes, ell, s)
      else case hex_group 0 0 s of
        None \<Rightarrow> None
      | Some (off, acc, s') \<Rightarrow>
          (if off = 0 then None
           else if s' \<noteq> [] \<and> hd s' = CHR ''.'' then
             (if ell = None \<and> length bytes \<noteq> 12 then None
              else if 16 < length bytes + 4 then None
              else case parse_ipv4 s of
                None \<Rightarrow> None
              | Some v4 \<Rightarrow> Some (bytes @ v4, ell, []))
           else
             (let bytes' = bytes @ [acc div 256, acc mod 256] in
              case s' of
                [] \<Rightarrow> Some (bytes', ell, [])
              | c # rest \<Rightarrow>
                  (if c \<noteq> CHR '':'' \<or> rest = [] then None
                   else if hd rest = CHR '':'' then
                     (if ell \<noteq> None then None
                      else if tl rest = [] then Some (bytes', Some (length bytes'), [])
                      else ipv6_groups bytes' (Some (length bytes')) (tl rest))
                   else ipv6_groups bytes' ell rest))))"
  by pat_completeness auto
termination
  by (relation "measure (\<lambda>(bytes, ell, s). length s)") (auto dest!: hex_group_shrinks)

declare ipv6_groups.simps [simp del]

text \<open>A zone is kept by \<open>netip.ParseAddr\<close> and refused by both callers.\<close>

definition parse_ipv6 :: "string \<Rightarrow> nat list option" where
  "parse_ipv6 s =
     (if contains s (CHR ''%'') then None
      else
        (let lead = (2 \<le> length s \<and> s ! 0 = CHR '':'' \<and> s ! 1 = CHR '':'');
             s' = (if lead then drop 2 s else s);
             ell = (if lead then Some 0 else None) in
         if lead \<and> s' = [] then Some (replicate 16 0)
         else case ipv6_groups [] ell s' of
           None \<Rightarrow> None
         | Some (bytes, e, rest) \<Rightarrow>
             (if rest \<noteq> [] then None
              else case e of
                None \<Rightarrow> (if length bytes < 16 then None else Some bytes)
              | Some i \<Rightarrow>
                  (if length bytes < 16
                   then Some (take i bytes @ replicate (16 - length bytes) 0 @ drop i bytes)
                   else None))))"

definition v4_mapped :: "nat list \<Rightarrow> ip" where
  "v4_mapped b = replicate 10 0 @ [255, 255] @ b"

text \<open>\<open>netip.ParseAddr\<close> looks for the first dot or colon.\<close>

fun addr_kind :: "string \<Rightarrow> char option" where
  "addr_kind [] = None"
| "addr_kind (c # s) =
     (if c = CHR ''.'' \<or> c = CHR '':'' \<or> c = CHR ''%'' then Some c else addr_kind s)"

definition parse_ip :: "string \<Rightarrow> ip option" where
  "parse_ip s =
     (case addr_kind s of
        None \<Rightarrow> None
      | Some c \<Rightarrow>
          (if c = CHR ''.'' then map_option v4_mapped (parse_ipv4 s)
           else if c = CHR '':'' then parse_ipv6 s else None))"

definition is_v4 :: "ip \<Rightarrow> bool" where
  "is_v4 ip \<longleftrightarrow> take 12 ip = replicate 10 0 @ [255, 255]"

section \<open>CIDR\<close>

text \<open>\<open>strings.Cut\<close> at the first separator.\<close>

fun cut_at :: "char \<Rightarrow> string \<Rightarrow> (string \<times> string) option" where
  "cut_at sep [] = None"
| "cut_at sep (c # s) =
     (if c = sep then Some ([], s) else map_option (\<lambda>(a, b). (c # a, b)) (cut_at sep s))"

fun decimal :: "nat \<Rightarrow> string \<Rightarrow> nat option" where
  "decimal n [] = Some n"
| "decimal n (c # s) =
     (case digit_val c of
        None \<Rightarrow> None
      | Some d \<Rightarrow> (if 16777215 \<le> n * 10 + d then None else decimal (n * 10 + d) s))"

text \<open>
  The address part of \<open>net.ParseCIDR\<close>. The bit length is that of the text: an IPv4-mapped
  IPv6 text may have up to 128 bits of mask.
\<close>

definition parse_cidr :: "string \<Rightarrow> (ip \<times> nat) option" where
  "parse_cidr s =
     (case cut_at (CHR ''/'') s of
        None \<Rightarrow> None
      | Some (addr, bits) \<Rightarrow>
          (case parse_ip addr of
             None \<Rightarrow> None
           | Some ip \<Rightarrow>
               (if bits = [] then None
                else case decimal 0 bits of
                  None \<Rightarrow> None
                | Some n \<Rightarrow>
                    (if (if addr_kind addr = Some (CHR ''.'') then 32 else 128) < n then None
                     else Some (ip, n)))))"

definition is_loopback :: "ip \<Rightarrow> bool" where
  "is_loopback ip \<longleftrightarrow> (if is_v4 ip then ip ! 12 = 127 else ip = replicate 15 0 @ [1])"

definition is_unspecified :: "ip \<Rightarrow> bool" where
  "is_unspecified ip \<longleftrightarrow> ip = v4_mapped [0, 0, 0, 0] \<or> ip = replicate 16 0"

definition is_multicast :: "ip \<Rightarrow> bool" where
  "is_multicast ip \<longleftrightarrow> (if is_v4 ip then ip ! 12 div 16 = 14 else ip ! 0 = 255)"

lemma parse_ipv4_shape: "parse_ipv4 s = Some b \<Longrightarrow> length b = 4 \<and> (\<forall>x \<in> set b. x \<le> 255)"
  unfolding parse_ipv4_def by (drule ipv4_fields_shape) simp_all

lemma is_v4_mapped [simp]: "is_v4 (v4_mapped b)"
  by (simp add: is_v4_def v4_mapped_def)

section \<open>The characters of an address\<close>

definition addr_char :: "char \<Rightarrow> bool" where
  "addr_char c \<longleftrightarrow> hex_val c \<noteq> None \<or> c = CHR ''.'' \<or> c = CHR '':''"

lemma digit_addr_char: "digit_val c = Some d \<Longrightarrow> addr_char c"
  by (simp add: addr_char_def hex_val.simps)

lemma hex_addr_char: "hex_val c = Some d \<Longrightarrow> addr_char c"
  by (simp add: addr_char_def)

lemma sep_addr_char [simp]: "addr_char (CHR ''.'')" "addr_char (CHR '':'')"
  by (simp_all add: addr_char_def)

lemma ipv4_fields_chars: "ipv4_fields done val digits s = Some ip \<Longrightarrow> list_all addr_char s"
proof (induction "done" val digits s rule: ipv4_fields.induct)
  case (2 "done" val digits c s)
  then show ?case
    by (cases "digit_val c") (auto intro: digit_addr_char split: if_splits)
qed simp

lemma hex_group_chars:
  "hex_group off acc s = Some (off', acc', s') \<Longrightarrow> \<exists>p. s = p @ s' \<and> list_all addr_char p"
proof (induction off acc s rule: hex_group.induct)
  case (2 off acc c s)
  show ?case
  proof (cases "hex_val c")
    case None
    with "2.prems" show ?thesis by auto
  next
    case (Some d)
    with "2.prems" have "hex_group (Suc off) (acc * 16 + d) s = Some (off', acc', s')" and o: "\<not> 3 < off"
      by (auto split: if_splits)
    with "2.IH" [OF Some o] obtain p where "s = p @ s'" "list_all addr_char p" by auto
    with Some show ?thesis by (intro exI [of _ "c # p"]) (simp add: hex_addr_char)
  qed
qed simp

lemma ipv6_groups_step:
  assumes "ipv6_groups bytes ell s = Some r" and "length bytes < 16"
  shows "parse_ipv4 s \<noteq> None \<or>
    (\<exists>off acc s'. hex_group 0 0 s = Some (off, acc, s') \<and> off \<noteq> 0 \<and>
       (s' = [] \<or> s' = [CHR '':'', CHR '':''] \<or>
        (\<exists>t bs e. (s' = CHR '':'' # t \<or> s' = CHR '':'' # CHR '':'' # t) \<and> ipv6_groups bs e t = Some r)))"
proof -
  obtain off acc s' where h: "hex_group 0 0 s = Some (off, acc, s')" "off \<noteq> 0"
    using assms by (subst (asm) ipv6_groups.simps) (auto split: option.splits if_splits)
  note step = assms(1) [unfolded ipv6_groups.simps [of bytes ell s] h(1)]
  show ?thesis
  proof (cases s')
    case Nil
    with h show ?thesis by blast
  next
    case (Cons c t)
    consider (dot) "c = CHR ''.''" | (end1) "c \<noteq> CHR ''.''" "t = []"
      | (go) d ds where "c \<noteq> CHR ''.''" "t = d # ds"
      by (cases t) auto
    then show ?thesis
    proof cases
      case dot
      with step Cons h assms(2) have "parse_ipv4 s \<noteq> None" by (auto split: option.splits if_splits)
      then show ?thesis by blast
    next
      case end1
      with step Cons h assms(2) show ?thesis by (simp add: Let_def split: if_splits)
    next
      case go
      with step Cons h(2) assms(2) have c: "c = CHR '':''" by (simp add: Let_def split: if_splits)
      show ?thesis
      proof (cases "d = CHR '':''")
        case True
        with step Cons h(2) assms(2) go c
        have "ds = [] \<or> (\<exists>bs e. ipv6_groups bs e ds = Some r)" by (simp add: Let_def split: if_splits) blast
        with h Cons go c True show ?thesis by blast
      next
        case False
        with step Cons h(2) assms(2) go c
        have "\<exists>bs e. ipv6_groups bs e t = Some r" by (simp add: Let_def split: if_splits) blast
        with h Cons c show ?thesis by blast
      qed
    qed
  qed
qed

lemma ipv6_groups_chars: "ipv6_groups bytes ell s = Some (bytes', ell', []) \<Longrightarrow> list_all addr_char s"
proof (induction s arbitrary: bytes ell rule: length_induct)
  case (1 s)
  show ?case
  proof (cases "16 \<le> length bytes")
    case True
    with "1.prems" show ?thesis by (simp add: ipv6_groups.simps)
  next
    case False
    then have "length bytes < 16" by simp
    note step = ipv6_groups_step [OF "1.prems" this]
    show ?thesis
    proof (cases "parse_ipv4 s \<noteq> None")
      case True
      then show ?thesis by (auto simp: parse_ipv4_def dest: ipv4_fields_chars)
    next
      case False
      with step obtain off acc s' where h: "hex_group 0 0 s = Some (off, acc, s')" "off \<noteq> 0" and
        s': "s' = [] \<or> s' = [CHR '':'', CHR '':''] \<or>
          (\<exists>t bs e. (s' = CHR '':'' # t \<or> s' = CHR '':'' # CHR '':'' # t) \<and>
             ipv6_groups bs e t = Some (bytes', ell', []))"
        by blast
      obtain p where p: "s = p @ s'" "list_all addr_char p" using hex_group_chars [OF h(1)] by blast
      from s' have "list_all addr_char s'"
      proof (elim disjE exE conjE)
        fix t bs e assume t: "s' = CHR '':'' # t" and r: "ipv6_groups bs e t = Some (bytes', ell', [])"
        have "length t < length s" using p t by simp
        with "1.IH" r have "list_all addr_char t" by blast
        with t show ?thesis by simp
      next
        fix t bs e assume t: "s' = CHR '':'' # CHR '':'' # t"
          and r: "ipv6_groups bs e t = Some (bytes', ell', [])"
        have "length t < length s" using p t by simp
        with "1.IH" r have "list_all addr_char t" by blast
        with t show ?thesis by simp
      qed simp_all
      with p show ?thesis by simp
    qed
  qed
qed

lemma parse_ip_chars:
  assumes "parse_ip s = Some ip" shows "list_all addr_char s"
proof -
  have six: "list_all addr_char s" if "parse_ipv6 s = Some ip"
  proof (cases "2 \<le> length s \<and> s ! 0 = CHR '':'' \<and> s ! 1 = CHR '':''")
    case True
    then obtain t where t: "s = CHR '':'' # CHR '':'' # t"
      by (cases s; cases "tl s") auto
    with that have "t = [] \<or> (\<exists>b e. ipv6_groups [] (Some 0) t = Some (b, e, []))"
      by (auto simp: parse_ipv6_def Let_def split: if_splits option.splits)
    with t show ?thesis by (auto dest: ipv6_groups_chars)
  next
    case False
    then have "\<exists>b e. ipv6_groups [] None s = Some (b, e, [])"
      using that unfolding parse_ipv6_def Let_def by (simp only: False if_False) (auto split: if_splits option.splits)
    then show ?thesis by (auto dest: ipv6_groups_chars)
  qed
  show ?thesis
    using assms six by (auto simp: parse_ip_def parse_ipv4_def dest: ipv4_fields_chars split: option.splits if_splits)
qed

section \<open>The text of an address\<close>

text \<open>\<open>net.IP.String\<close>: dotted for IPv4, else eight groups with the first longest run of zeros left out.\<close>

definition hex_char :: "nat \<Rightarrow> char" where
  "hex_char d = (if d < 10 then digit_char d else lower_chars ! (d - 10))"

fun show_hex :: "nat \<Rightarrow> string" where
  "show_hex n = (if n < 16 then [hex_char n] else show_hex (n div 16) @ [hex_char (n mod 16)])"

declare show_hex.simps [simp del]

fun groups_of :: "nat list \<Rightarrow> nat list" where
  "groups_of (a # b # s) = (a * 256 + b) # groups_of s"
| "groups_of s = []"

definition zeros_at :: "nat list \<Rightarrow> nat \<Rightarrow> nat" where
  "zeros_at gs i = length (takeWhile (\<lambda>g. g = 0) (drop i gs))"

fun longest_run :: "nat list \<Rightarrow> nat list \<Rightarrow> nat option \<Rightarrow> nat option" where
  "longest_run gs [] best = best"
| "longest_run gs (i # is) best =
     longest_run gs is
       (if 2 \<le> zeros_at gs i \<and> (case best of None \<Rightarrow> True | Some b \<Rightarrow> zeros_at gs b < zeros_at gs i)
        then Some i else best)"

fun joined_by :: "char \<Rightarrow> string list \<Rightarrow> string" where
  "joined_by d [] = []"
| "joined_by d [x] = x"
| "joined_by d (x # y # ys) = x @ d # joined_by d (y # ys)"

definition ip_text :: "ip \<Rightarrow> string" where
  "ip_text ip =
     (if is_v4 ip then joined_by (CHR ''.'') (map show_nat (drop 12 ip))
      else
        (let gs = groups_of ip in
         case longest_run gs [0..<8] None of
           None \<Rightarrow> joined_by (CHR '':'') (map show_hex gs)
         | Some i \<Rightarrow>
             joined_by (CHR '':'') (map show_hex (take i gs)) @ ''::'' @
             joined_by (CHR '':'') (map show_hex (drop (i + zeros_at gs i) gs))))"

end
