(* ===== verification/StorageGroups.thy ===== *)
theory StorageGroups
  imports NetAddr
begin

text \<open>
  Storage groups (\<open>internal/groups/groups.go\<close>, and the address check of \<open>address.go\<close>): the
  group record, its validation, the order of updates by epoch and version, the view a node
  decides on and \<open>Evaluate\<close>, which gives a node its role and says whether it may write.

  Topologies are strings, as in the code: a peer may send any. Messages shown to the operator
  are constructors of \<open>problem\<close> and \<open>gerr\<close>, with the values the code prints.
\<close>

section \<open>The group record\<close>

abbreviation Standalone :: string where "Standalone \<equiv> ''standalone''"
abbreviation Shared :: string where "Shared \<equiv> ''shared''"
abbreviation Replicated :: string where "Replicated \<equiv> ''replicated''"

record pool_ref =
  pName :: string
  pGUID :: string

record group =
  gName :: string
  gTopology :: string
  gPools :: "pool_ref list"
  gCandidates :: "string list"
  gOwner :: string
  gEpoch :: int
  gVersion :: int
  gUpdatedAt :: time
  gUpdatedBy :: string
  gIntervalSecs :: int
  gAutoFailover :: bool
  gAddress :: string
  gInterface :: string

text \<open>
  Every error of the package: the messages of \<open>Validate\<close>, those of the operations, the sentinel
  errors (\<open>Stale\<close> and \<open>NoRows\<close> among them), wrapping with a context, \<open>errors.Join\<close>, and the answer of a call that
  leaves the program (zpool, zfs, the database, another node).
\<close>

datatype invalid =
    InvalidGroupName string | InvalidTopology string | NoPools
  | AddressFormat string | AddressUnusable string | InvalidInterface string
  | InvalidPool string string | PoolTwice string
  | NoCandidates | StandaloneOneNode | NeedTwoCandidates | OwnerNotCandidate | EpochVersionStart

datatype refusal =
    GroupExists string | PoolNotImported string | PoolInGroup string string | NotMember string
  | NotOwnerMove | BadTarget | TargetInMaintenance | NoOtherNode | NoQuorum
  | AlreadyOwner | NotCandidate | OwnerOnline | OwnedBy string string | BeingMoved string
  | ChangeOnOwner string | NoMaintenanceTarget "string list" | StillOwned "string list"

datatype repl_refusal =
    NotReplicated | OwnerDoesNotReceive | NotOwnerSender int int | SenderNotOwner | EpochAhead int
  | Diverged int string | DivergedFull int | InvalidPoolOrSnapshot | PoolNotInGroup string string
  | OnlyOwnerReplicates | CannotKeep string | OwnerKeepsItsCopy | SplitsGoToOwner
  | SenderNotInGroup | InvalidSplit | DeleteOnOwner

datatype gerr =
    Invalid invalid
  | Refused refusal
  | ReplRefused repl_refusal
  | NoRows
  | Stale string int int int int
  | StaleRemoval int int
  | External string
  | Wrap string gerr
  | StaysImported string string gerr
  | Joined "gerr list"

text \<open>\<open>errors.Join\<close>: no error when every argument is nil.\<close>

definition join_errors :: "gerr list \<Rightarrow> gerr option" where
  "join_errors es = (if es = [] then None else Some (Joined es))"

lemma join_errors_None [simp]: "join_errors es = None \<longleftrightarrow> es = []"
  by (simp add: join_errors_def)

section \<open>Validation\<close>

definition group_name_ok :: "string \<Rightarrow> bool" where
  "group_name_ok = match_head_tail is_alnum (\<lambda>c. is_alnum c \<or> c \<in> set ''_-'') 63"

definition pool_name_ok :: "string \<Rightarrow> bool" where
  "pool_name_ok = match_head_tail is_alpha (\<lambda>c. is_alnum c \<or> c \<in> set ''_.:-'') 254"

definition guid_ok :: "string \<Rightarrow> bool" where
  "guid_ok = match_class is_digit 1 20"

definition iface_ok :: "string \<Rightarrow> bool" where
  "iface_ok = match_class (\<lambda>c. is_alnum c \<or> c \<in> set ''_.@-'') 1 15"

definition validAddress :: "string \<Rightarrow> string \<Rightarrow> gerr option" where
  "validAddress cidr iface =
     (if cidr = [] \<and> iface = [] then None
      else case parse_cidr cidr of
        None \<Rightarrow> Some (Invalid (AddressFormat cidr))
      | Some (ip, _) \<Rightarrow>
          (if is_loopback ip \<or> is_unspecified ip \<or> is_multicast ip then Some (Invalid (AddressUnusable cidr))
           else if \<not> iface_ok iface then Some (Invalid (InvalidInterface iface))
           else None))"

text \<open>The loop over the pools, with the names seen so far.\<close>

fun check_pools :: "string \<Rightarrow> string list \<Rightarrow> pool_ref list \<Rightarrow> gerr option" where
  "check_pools topology seen [] = None"
| "check_pools topology seen (p # ps) =
     (if \<not> pool_name_ok (pName p)
         \<or> \<not> (guid_ok (pGUID p) \<or> (topology = Replicated \<and> pGUID p = []))
      then Some (Invalid (InvalidPool (pName p) (pGUID p)))
      else if pName p \<in> set seen then Some (Invalid (PoolTwice (pName p)))
      else check_pools topology (pName p # seen) ps)"

definition IsCandidate :: "group \<Rightarrow> string \<Rightarrow> bool" where
  "IsCandidate g node = contains (gCandidates g) node"

fun has_pool_named :: "pool_ref list \<Rightarrow> string \<Rightarrow> bool" where
  "has_pool_named [] pool = False"
| "has_pool_named (p # ps) pool = (if pName p = pool then True else has_pool_named ps pool)"

definition HasPool :: "group \<Rightarrow> string \<Rightarrow> bool" where
  "HasPool g pool = has_pool_named (gPools g) pool"

definition Validate :: "group \<Rightarrow> gerr option" where
  "Validate g = first_error
     [guard (group_name_ok (gName g)) (Invalid (InvalidGroupName (gName g))),
      guard (gTopology g = Standalone \<or> gTopology g = Shared \<or> gTopology g = Replicated)
        (Invalid (InvalidTopology (gTopology g))),
      guard (gPools g \<noteq> []) (Invalid NoPools),
      validAddress (gAddress g) (gInterface g),
      check_pools (gTopology g) [] (gPools g),
      guard (gCandidates g \<noteq> []) (Invalid NoCandidates),
      guard (\<not> (gTopology g = Standalone \<and> length (gCandidates g) \<noteq> 1)) (Invalid StandaloneOneNode),
      guard (\<not> (gTopology g \<noteq> Standalone \<and> length (gCandidates g) < 2)) (Invalid NeedTwoCandidates),
      guard (IsCandidate g (gOwner g)) (Invalid OwnerNotCandidate),
      guard (\<not> (gEpoch g < 1 \<or> gVersion g < 1)) (Invalid EpochVersionStart)]"

lemma IsCandidate_iff [simp]: "IsCandidate g n \<longleftrightarrow> n \<in> set (gCandidates g)"
  by (simp add: IsCandidate_def)

lemma has_pool_named_iff [simp]: "has_pool_named ps pool \<longleftrightarrow> pool \<in> pName ` set ps"
  by (induction ps) auto

lemma HasPool_iff [simp]: "HasPool g pool \<longleftrightarrow> pool \<in> pName ` set (gPools g)"
  by (simp add: HasPool_def)

text \<open>What the checked loop establishes: every pool is well formed and no name is listed twice.\<close>

definition pool_ok :: "string \<Rightarrow> pool_ref \<Rightarrow> bool" where
  "pool_ok topology p \<longleftrightarrow>
     pool_name_ok (pName p) \<and> (guid_ok (pGUID p) \<or> (topology = Replicated \<and> pGUID p = []))"

lemma check_pools_None:
  "check_pools topology seen ps = None \<longleftrightarrow>
     (\<forall>p \<in> set ps. pool_ok topology p) \<and> distinct (map pName ps) \<and> set (map pName ps) \<inter> set seen = {}"
  by (induction topology seen ps rule: check_pools.induct) (auto simp: pool_ok_def)

text \<open>The specification of a well-formed group, as one conjunction.\<close>

definition wf_group :: "group \<Rightarrow> bool" where
  "wf_group g \<longleftrightarrow>
     group_name_ok (gName g) \<and> gTopology g \<in> {Standalone, Shared, Replicated} \<and>
     gPools g \<noteq> [] \<and> (\<forall>p \<in> set (gPools g). pool_ok (gTopology g) p) \<and>
     distinct (map pName (gPools g)) \<and> validAddress (gAddress g) (gInterface g) = None \<and>
     (if gTopology g = Standalone then length (gCandidates g) = 1 else 2 \<le> length (gCandidates g)) \<and>
     gOwner g \<in> set (gCandidates g) \<and> 1 \<le> gEpoch g \<and> 1 \<le> gVersion g"

lemma Validate_iff: "Validate g = None \<longleftrightarrow> wf_group g"
  by (auto simp: Validate_def wf_group_def check_pools_None not_less)

section \<open>Order of updates\<close>

definition Newer :: "group \<Rightarrow> group \<Rightarrow> bool" where
  "Newer g other =
     (if gEpoch g \<noteq> gEpoch other then gEpoch other < gEpoch g else gVersion other < gVersion g)"

text \<open>Epoch first, version second: a stamp with a linear order.\<close>

datatype stamp = Stamp (st_epoch: int) (st_version: int)

instantiation stamp :: linorder
begin

definition less_eq_stamp :: "stamp \<Rightarrow> stamp \<Rightarrow> bool" where
  "less_eq_stamp a b \<longleftrightarrow>
     st_epoch a < st_epoch b \<or> (st_epoch a = st_epoch b \<and> st_version a \<le> st_version b)"

definition less_stamp :: "stamp \<Rightarrow> stamp \<Rightarrow> bool" where
  "less_stamp a b \<longleftrightarrow>
     st_epoch a < st_epoch b \<or> (st_epoch a = st_epoch b \<and> st_version a < st_version b)"

instance
  by standard (auto simp: less_eq_stamp_def less_stamp_def intro: stamp.expand)

end

lemmas stamp_order_defs = less_eq_stamp_def less_stamp_def

definition stamp_of :: "group \<Rightarrow> stamp" where
  "stamp_of g = Stamp (gEpoch g) (gVersion g)"

lemma stamp_of_sel [simp]: "st_epoch (stamp_of g) = gEpoch g" "st_version (stamp_of g) = gVersion g"
  by (simp_all add: stamp_of_def)

lemma Newer_iff: "Newer g h \<longleftrightarrow> stamp_of h < stamp_of g"
  by (auto simp: Newer_def less_stamp_def)

lemma stamp_epoch_mono: "stamp_of g \<le> stamp_of h \<Longrightarrow> gEpoch g \<le> gEpoch h"
  by (auto simp: less_eq_stamp_def)

section \<open>What a node decides\<close>

datatype role = RoleOwner | RoleStandby | RoleOther

record view =
  vSelf :: string
  vQuorum :: bool
  vQuorate :: bool
  vImportedHere :: "string list"
  vOnline :: "string list"
  vAutoFailover :: bool
  vAutoFailoverReason :: string
  vFenceOK :: bool
  vFenceReason :: string
  vFenceDelay :: duration
  vChanging :: "string list"
  vMaintenance :: "string list"

datatype problem =
    NoQuorumMustNotWrite
  | PoolsMissing "string list"
  | SharedPoolsImported "string list"
  | ResourceProblem gerr
  | NotImportedBecause string
  | ReplicationFailed string string string
  | ReplicationRefused string string

record status =
  sRole :: role
  sCanWrite :: bool
  sProblems :: "problem list"
  sRelease :: "string list"
  sChanging :: bool

definition role_of :: "group \<Rightarrow> view \<Rightarrow> role" where
  "role_of g v =
     (if gOwner g = vSelf v then RoleOwner
      else if IsCandidate g (vSelf v) then RoleStandby else RoleOther)"

text \<open>The loop over the pools: the owner's missing ones, and shared ones to release.\<close>

fun pool_faults ::
  "role \<Rightarrow> string \<Rightarrow> string list \<Rightarrow> pool_ref list \<Rightarrow> string list \<times> string list" where
  "pool_faults r topology imported [] = ([], [])"
| "pool_faults r topology imported (p # ps) =
     (let (missing, release) = pool_faults r topology imported ps;
          here = pName p \<in> set imported in
      if r = RoleOwner \<and> \<not> here then (pName p # missing, release)
      else if r \<noteq> RoleOwner \<and> here \<and> topology = Shared then (missing, pName p # release)
      else (missing, release))"

definition Evaluate :: "group \<Rightarrow> view \<Rightarrow> status" where
  "Evaluate g v =
     (let r = role_of g v;
          no_quorum = (if r = RoleOwner \<and> vQuorum v \<and> \<not> vQuorate v then [NoQuorumMustNotWrite] else []) in
      if gName g \<in> set (vChanging v) then
        \<lparr>sRole = r, sCanWrite = False, sProblems = no_quorum, sRelease = [], sChanging = True\<rparr>
      else
        (let (missing, release) = pool_faults r (gTopology g) (vImportedHere v) (gPools g) in
         \<lparr>sRole = r,
          sCanWrite = (r = RoleOwner \<and> missing = [] \<and> (\<not> vQuorum v \<or> vQuorate v)),
          sProblems =
            (if r = RoleOwner \<and> missing \<noteq> [] then [PoolsMissing missing] else []) @ no_quorum @
            (if release \<noteq> [] then [SharedPoolsImported release] else []),
          sRelease = release,
          sChanging = False\<rparr>))"

lemma pool_faults_fst:
  "fst (pool_faults r topology imported ps) =
     (if r = RoleOwner then filter (\<lambda>n. n \<notin> set imported) (map pName ps) else [])"
  by (induction r topology imported ps rule: pool_faults.induct) (auto simp: Let_def split_beta)

lemma pool_faults_snd:
  "snd (pool_faults r topology imported ps) =
     (if r \<noteq> RoleOwner \<and> topology = Shared then filter (\<lambda>n. n \<in> set imported) (map pName ps) else [])"
  by (induction r topology imported ps rule: pool_faults.induct) (auto simp: Let_def split_beta)

lemma role_of_owner [simp]: "role_of g v = RoleOwner \<longleftrightarrow> gOwner g = vSelf v"
  by (simp add: role_of_def)

text \<open>\<open>Evaluate\<close> read as its five answers.\<close>

lemma Evaluate_role [simp]: "sRole (Evaluate g v) = role_of g v"
  by (simp add: Evaluate_def Let_def split_beta)

lemma Evaluate_changing [simp]: "sChanging (Evaluate g v) \<longleftrightarrow> gName g \<in> set (vChanging v)"
  by (simp add: Evaluate_def Let_def split_beta)

lemma Evaluate_release:
  "sRelease (Evaluate g v) =
     (if gName g \<notin> set (vChanging v) \<and> gOwner g \<noteq> vSelf v \<and> gTopology g = Shared
      then filter (\<lambda>n. n \<in> set (vImportedHere v)) (map pName (gPools g)) else [])"
  by (simp add: Evaluate_def Let_def split_beta pool_faults_snd)

lemma Evaluate_write:
  "sCanWrite (Evaluate g v) \<longleftrightarrow>
     gName g \<notin> set (vChanging v) \<and> gOwner g = vSelf v \<and>
     (\<forall>p \<in> set (gPools g). pName p \<in> set (vImportedHere v)) \<and> (vQuorum v \<longrightarrow> vQuorate v)"
  by (auto simp: Evaluate_def Let_def split_beta pool_faults_fst filter_empty_conv)

lemma Evaluate_problems:
  "sProblems (Evaluate g v) = [] \<longleftrightarrow>
     (gOwner g = vSelf v \<longrightarrow> (vQuorum v \<longrightarrow> vQuorate v) \<and>
        (gName g \<in> set (vChanging v) \<or> (\<forall>p \<in> set (gPools g). pName p \<in> set (vImportedHere v)))) \<and>
     sRelease (Evaluate g v) = []"
  by (auto simp: Evaluate_def Let_def split_beta pool_faults_fst pool_faults_snd filter_empty_conv)

section \<open>One writer\<close>

text \<open>
  A node may write the pools of a group exactly when it owns the group, no owner change is in
  progress here, every pool is imported here, and it is in the quorate partition of a cluster
  with quorum.
\<close>

theorem Evaluate_can_write:
  "sCanWrite (Evaluate g v) \<longleftrightarrow>
     gName g \<notin> set (vChanging v) \<and> gOwner g = vSelf v \<and>
     (\<forall>p \<in> set (gPools g). pName p \<in> set (vImportedHere v)) \<and> (\<not> vQuorum v \<or> vQuorate v)"
  using Evaluate_write by blast

end
