(* ===== verification/Node.thy ===== *)
theory Node
  imports StorageGroups
begin

text \<open>
  The state of one node's group manager (\<open>type Manager struct\<close> of \<open>internal/groups/ops.go\<close>
  with the database tables it owns) and the calls that leave the program.

  The program drives zpool, zfs, the database, docker, nvmet, ip and the other nodes. None of
  them is code of the repository: their answers are the fields of an environment, which may
  depend on everything the node has done before (the \<open>trace\<close> of calls) and is otherwise
  arbitrary. A failing database, a pool that cannot be exported or a member that does not
  answer is an environment. Each call is appended to the trace, so properties can speak of the
  order of effects. \<open>m.mu\<close> and \<open>m.fmu\<close> serialise the operations; what another goroutine does to
  the \<open>moving\<close> marks meanwhile is the environment's \<open>eMoving\<close>.
\<close>

section \<open>Resources of a group\<close>

record stack_def =
  sName :: string
  sYAML :: string

record export =
  xNQN :: string
  xZvol :: string
  xRest :: string

record resources =
  rStacks :: "stack_def list"
  rNVMe :: "export list"

record split_dataset =
  dName :: string
  dWritten :: int

record split_copy =
  cPool :: string
  cName :: string
  cUsed :: int
  cCreated :: time

section \<open>Calls\<close>

datatype zpool_op = ListPools | Import string | ImportForce string | Export string | Uncache string
  | SharedPools "string list"

datatype zfs_op = Snapshot string string | ListSnapshots string | DestroySnapshot string string
  | SetReadonly string bool | Written string string | DatasetCount string
  | Send string string string | SendEnd string string | Recv string
  | SplitSnapshot string string | SplitChanged string string | SplitSend string string string
  | SplitSendEnd string string | SplitRecv string string | SplitCreate string
  | SplitList string | SplitDestroy string string

datatype net_op = Push string group bool | Fetch string | FetchResources string string
  | RemoteSnapshots string string string | SendReplica string string string int string string
  | SendSplit string string string string string string | Fence string

datatype db_op = Query | PutGroup group | DeleteGroup string | StoreResources string resources
  | RecordRepl string string string string | AllowDiscard string string string | SetMaintenance bool

datatype res_op = LocalStacks | WriteStack stack_def | StackRunning string | StackUp string
  | StackDown string | LocalExports | SaveExports "export list" | ApplyExports "export list"
  | TryLock string | AddrPresent string string | AddrAdd string string | AddrDel string string
  | AddrAnnounce string string

datatype action = Zpool zpool_op | Zfs zfs_op | Net net_op | Db db_op | Res res_op | ActivateSoon

record peer_view =
  pvGroups :: "group list"
  pvImported :: "string list"
  pvHasImported :: bool
  pvMaintenance :: bool

record env =
  eSelf :: string
  eNow :: "action list \<Rightarrow> time"
  eResult :: "action list \<Rightarrow> action \<Rightarrow> gerr option"
  ePools :: "action list \<Rightarrow> (string \<times> string) list"
  eView :: "action list \<Rightarrow> view"
  eMembers :: "action list \<Rightarrow> string list"
  eMoving :: "action list \<Rightarrow> string \<Rightarrow> bool"
  eFetch :: "action list \<Rightarrow> string \<Rightarrow> peer_view"
  eFetchResources :: "action list \<Rightarrow> string \<Rightarrow> resources"
  eSnapshots :: "action list \<Rightarrow> string \<Rightarrow> string list"
  eRemoteSnapshots :: "action list \<Rightarrow> string \<Rightarrow> string \<Rightarrow> string list"
  eNumber :: "action list \<Rightarrow> int"
  eFlag :: "action list \<Rightarrow> bool"
  eChanged :: "action list \<Rightarrow> split_dataset list"
  eSplits :: "action list \<Rightarrow> string \<Rightarrow> split_copy list"
  eStacks :: "action list \<Rightarrow> stack_def list"
  eExports :: "action list \<Rightarrow> export list"
  eHash :: "export list \<Rightarrow> string"
  eHostname :: string
  eStamp :: "time \<Rightarrow> string"
  eFencing :: bool
  eWatchdog :: "action list \<Rightarrow> bool"
  eSharedFile :: bool
  eUncache :: bool

section \<open>State\<close>

datatype verdict = ANone | AWait | ATakeover | AImport

text \<open>Why a failover or import decision was taken; \<open>NoReason\<close> is the empty text.\<close>

datatype reason =
    NoReason
  | SelfInMaintenance | ReplicatedIsManual | AutoFailoverOff string | FencingMissing string
  | HigherPriorityTakesOver | TakingOverAt time | OwnerLeft | FencingFailed gerr | TakeoverFailed gerr
  | NotInQuorum | InUseBy string string | OthersConfirmed | WaitingFor "string list"
  | SilentInCluster string | ImportingAt time "string list" | SilentLeft "string list"
  | ImportFailed gerr

record decision =
  dAction :: verdict
  dReason :: reason
  dWaitUntil :: time

record repl_row =
  rrGroup :: string
  rrOut :: bool
  rrPeer :: string
  rrPool :: string
  rrSnapshot :: string
  rrOkAt :: "time option"
  rrError :: "gerr option"
  rrDiscardOK :: bool

record node =
  trace :: "action list"
  groups :: "group list"
  stored :: "string \<Rightarrow> resources"
  repl :: "repl_row list"
  maint :: bool
  moving :: "string list"
  lastPools :: "(string \<times> string) list option"
  lostSince :: "string \<rightharpoonup> time"
  decisions :: "string \<rightharpoonup> decision"
  resProblems :: "string \<Rightarrow> gerr list"
  exportsHash :: string
  absentSince :: "string \<rightharpoonup> time"
  ownerImport :: "string \<rightharpoonup> decision"
  uncached :: "string list"
  sharedList :: "string option"
  addrApplied :: "string \<rightharpoonup> string"
  peerMaint :: "string \<rightharpoonup> bool"

definition no_decision :: decision where
  "no_decision = \<lparr>dAction = ANone, dReason = NoReason, dWaitUntil = 0\<rparr>"

definition no_resources :: resources where
  "no_resources = \<lparr>rStacks = [], rNVMe = []\<rparr>"

section \<open>Calling\<close>

definition perform :: "env \<Rightarrow> action \<Rightarrow> node \<Rightarrow> gerr option \<times> node" where
  "perform E a s = (eResult E (trace s) a, s\<lparr>trace := trace s @ [a]\<rparr>)"

text \<open>\<open>importedPools\<close>: the listing, kept for the statuses.\<close>

definition importedPools :: "env \<Rightarrow> node \<Rightarrow> (gerr + (string \<times> string) list) \<times> node" where
  "importedPools E s =
     (case perform E (Zpool ListPools) s of
        (Some e, s') \<Rightarrow> (Inl e, s')
      | (None, s') \<Rightarrow> (Inr (ePools E (trace s)), s'\<lparr>lastPools := Some (ePools E (trace s))\<rparr>))"

definition setMoving :: "string \<Rightarrow> bool \<Rightarrow> node \<Rightarrow> node" where
  "setMoving name on s =
     (if on then s\<lparr>moving := name # without (moving s) name\<rparr>
      else s\<lparr>moving := without (moving s) name\<rparr>)"

definition isMoving :: "env \<Rightarrow> node \<Rightarrow> string \<Rightarrow> bool" where
  "isMoving E s name \<longleftrightarrow> name \<in> set (moving s) \<or> eMoving E (trace s) name"

section \<open>The table of groups\<close>

definition List_groups :: "env \<Rightarrow> node \<Rightarrow> (gerr + group list) \<times> node" where
  "List_groups E s =
     (case perform E (Db Query) s of (Some e, s') \<Rightarrow> (Inl e, s') | (None, s') \<Rightarrow> (Inr (groups s'), s'))"

definition Get :: "env \<Rightarrow> string \<Rightarrow> node \<Rightarrow> (gerr + group) \<times> node" where
  "Get E name s =
     (case perform E (Db Query) s of
        (Some e, s') \<Rightarrow> (Inl e, s')
      | (None, s') \<Rightarrow>
          (case row gName (groups s') name of None \<Rightarrow> (Inl NoRows, s') | Some g \<Rightarrow> (Inr g, s')))"

text \<open>\<open>put\<close> fills in the time and the default replication interval.\<close>

definition stored_form :: "time \<Rightarrow> group \<Rightarrow> group" where
  "stored_form now g =
     g\<lparr>gUpdatedAt := (if gUpdatedAt g = 0 then now else gUpdatedAt g),
       gIntervalSecs := (if gIntervalSecs g \<le> 0 then 300 else gIntervalSecs g)\<rparr>"

definition put :: "env \<Rightarrow> group \<Rightarrow> node \<Rightarrow> gerr option \<times> node" where
  "put E g s =
     (let g' = stored_form (eNow E (trace s)) g in
      case perform E (Db (PutGroup g')) s of
        (Some e, s') \<Rightarrow> (Some e, s')
      | (None, s') \<Rightarrow> (None, s'\<lparr>groups := upsert gName g' (groups s')\<rparr>))"

definition Remove :: "env \<Rightarrow> string \<Rightarrow> node \<Rightarrow> gerr option \<times> node" where
  "Remove E name s =
     (case perform E (Db (DeleteGroup name)) s of
        (Some e, s') \<Rightarrow> (Some e, s')
      | (None, s') \<Rightarrow> (None, s'\<lparr>groups := delete_row gName name (groups s')\<rparr>))"

text \<open>\<open>Accept\<close> stores an update that is newer than the stored copy, or unknown.\<close>

definition stale :: "group \<Rightarrow> group \<Rightarrow> gerr" where
  "stale g cur = Stale (gName g) (gEpoch g) (gVersion g) (gEpoch cur) (gVersion cur)"

definition Accept :: "env \<Rightarrow> group \<Rightarrow> node \<Rightarrow> gerr option \<times> node" where
  "Accept E g s =
     (case Validate g of
        Some e \<Rightarrow> (Some e, s)
      | None \<Rightarrow>
          (case Get E (gName g) s of
             (Inr cur, s') \<Rightarrow> (if \<not> Newer g cur then (Some (stale g cur), s') else put E g s')
           | (Inl e, s') \<Rightarrow> (if e = NoRows then put E g s' else (Some e, s'))))"

definition ForPool :: "env \<Rightarrow> string \<Rightarrow> node \<Rightarrow> (gerr + group option) \<times> node" where
  "ForPool E pool s =
     (case List_groups E s of
        (Inl e, s') \<Rightarrow> (Inl e, s')
      | (Inr gs, s') \<Rightarrow> (Inr (List.find (\<lambda>g. HasPool g pool) gs), s'))"

definition EpochForPool :: "env \<Rightarrow> string \<Rightarrow> node \<Rightarrow> int \<times> node" where
  "EpochForPool E pool s =
     (case ForPool E pool s of
        (Inr (Some g), s') \<Rightarrow> (gEpoch g, s')
      | (_, s') \<Rightarrow> (0, s'))"

section \<open>Views\<close>

definition inMaintenance :: "env \<Rightarrow> node \<Rightarrow> bool \<times> node" where
  "inMaintenance E s =
     (case perform E (Db Query) s of (Some e, s') \<Rightarrow> (False, s') | (None, s') \<Rightarrow> (maint s', s'))"

text \<open>A node is in the answer when it is known to be in maintenance.\<close>

definition in_maintenance_at :: "env \<Rightarrow> node \<Rightarrow> bool \<Rightarrow> string \<Rightarrow> bool" where
  "in_maintenance_at E s own n \<longleftrightarrow> peerMaint s n = Some True \<or> (own \<and> n = eSelf E)"

definition Maintenances :: "env \<Rightarrow> string list \<Rightarrow> node \<Rightarrow> string list \<times> node" where
  "Maintenances E universe s =
     (let (own, s') = inMaintenance E s in (filter (in_maintenance_at E s' own) universe, s'))"

text \<open>
  \<open>Maintenances\<close> returns a map; the model lists its true keys among the nodes it is asked
  about: every candidate of a stored group and this node itself.
\<close>

definition known_nodes :: "env \<Rightarrow> node \<Rightarrow> string list" where
  "known_nodes E s = eSelf E # concat (map gCandidates (groups s))"

definition viewWith :: "env \<Rightarrow> (string \<times> string) list \<Rightarrow> node \<Rightarrow> view \<times> node" where
  "viewWith E pools s =
     (let (mts, s') = Maintenances E (known_nodes E s) s in
      ((eView E (trace s))\<lparr>vSelf := eSelf E, vImportedHere := map fst pools,
         vMaintenance := mts, vChanging := moving s'\<rparr>, s'))"

definition currentView :: "env \<Rightarrow> node \<Rightarrow> (gerr + view) \<times> node" where
  "currentView E s =
     (case importedPools E s of
        (Inl e, s') \<Rightarrow> (Inl e, s')
      | (Inr pools, s') \<Rightarrow> (let (v, s'') = viewWith E pools s' in (Inr v, s'')))"

definition statusView :: "env \<Rightarrow> node \<Rightarrow> (gerr + view) \<times> node" where
  "statusView E s =
     (case currentView E s of
        (Inr v, s') \<Rightarrow> (Inr v, s')
      | (Inl e, s') \<Rightarrow>
          (case lastPools s' of
             None \<Rightarrow> (Inl e, s')
           | Some pools \<Rightarrow>
               (if moving s' = [] then (Inl e, s')
                else (let (v, s'') = viewWith E pools s' in (Inr v, s'')))))"

section \<open>What the calls leave unchanged\<close>

lemma perform_groups [simp]: "groups (snd (perform E a s)) = groups s"
  and perform_moving [simp]: "moving (snd (perform E a s)) = moving s"
  and perform_trace [simp]: "trace (snd (perform E a s)) = trace s @ [a]"
  and perform_fst: "fst (perform E a s) = eResult E (trace s) a"
  by (simp_all add: perform_def)

lemma performE:
  assumes "perform E a s = (r, s')"
  obtains "r = eResult E (trace s) a" and "s' = s\<lparr>trace := trace s @ [a]\<rparr>"
  using assms by (simp add: perform_def)

lemma setMoving_simps [simp]:
  "groups (setMoving n on s) = groups s" "trace (setMoving n on s) = trace s"
  "maint (setMoving n on s) = maint s" "set (moving (setMoving n True s)) = insert n (set (moving s))"
  "set (moving (setMoving n False s)) = set (moving s) - {n}"
  by (auto simp: setMoving_def)

lemma importedPools_frame [simp]:
  "groups (snd (importedPools E s)) = groups s" "moving (snd (importedPools E s)) = moving s"
  "trace (snd (importedPools E s)) = trace s @ [Zpool ListPools]"
  by (auto simp: importedPools_def perform_def split: option.splits)

lemma List_groups_frame [simp]:
  "groups (snd (List_groups E s)) = groups s" "moving (snd (List_groups E s)) = moving s"
  "trace (snd (List_groups E s)) = trace s @ [Db Query]"
  by (auto simp: List_groups_def perform_def split: option.splits)

lemma Get_frame [simp]:
  "groups (snd (Get E n s)) = groups s" "moving (snd (Get E n s)) = moving s"
  "trace (snd (Get E n s)) = trace s @ [Db Query]"
  by (auto simp: Get_def perform_def split: option.splits)

lemma Get_InrD: "Get E n s = (Inr g, s') \<Longrightarrow> row gName (groups s) n = Some g"
  by (auto simp: Get_def perform_def split: option.splits)

lemma Get_NoRowsD: "Get E n s = (Inl NoRows, s') \<Longrightarrow> eResult E (trace s) (Db Query) \<noteq> Some NoRows \<Longrightarrow>
    row gName (groups s) n = None"
  by (auto simp: Get_def perform_def split: option.splits)

lemma inMaintenance_frame [simp]:
  "groups (snd (inMaintenance E s)) = groups s" "moving (snd (inMaintenance E s)) = moving s"
  by (auto simp: inMaintenance_def perform_def split: option.splits)

lemma Maintenances_frame [simp]:
  "groups (snd (Maintenances E u s)) = groups s" "moving (snd (Maintenances E u s)) = moving s"
  by (auto simp: Maintenances_def split_beta)

lemma viewWith_frame [simp]:
  "groups (snd (viewWith E p s)) = groups s" "moving (snd (viewWith E p s)) = moving s"
  by (auto simp: viewWith_def split_beta Let_def)

lemma currentView_frame [simp]:
  "groups (snd (currentView E s)) = groups s" "moving (snd (currentView E s)) = moving s"
  using importedPools_frame [of E s]
  by (auto simp: currentView_def split_beta Let_def split: sum.splits prod.splits)

lemma viewWith_sel [simp]:
  "vSelf (fst (viewWith E p s)) = eSelf E" "vImportedHere (fst (viewWith E p s)) = map fst p"
  "vChanging (fst (viewWith E p s)) = moving s"
  by (simp_all add: viewWith_def split_beta Let_def)

lemma currentView_InrD:
  assumes "currentView E s = (Inr v, s')"
  shows "vSelf v = eSelf E" and "vChanging v = moving s"
    and "vImportedHere v = map fst (ePools E (trace s))"
proof -
  obtain pools t where p: "importedPools E s = (Inr pools, t)" and "viewWith E pools t = (v, s')"
    using assms by (auto simp: currentView_def Let_def split: prod.splits sum.splits)
  then have v: "v = fst (viewWith E pools t)" by simp
  from p have "pools = ePools E (trace s)" and "moving t = moving s"
    by (auto simp: importedPools_def perform_def split: option.splits)
  with v show "vSelf v = eSelf E" "vChanging v = moving s"
    "vImportedHere v = map fst (ePools E (trace s))" by simp_all
qed

section \<open>Stored groups\<close>

lemma stored_form_sel [simp]:
  "gName (stored_form now g) = gName g" "gTopology (stored_form now g) = gTopology g"
  "gPools (stored_form now g) = gPools g" "gCandidates (stored_form now g) = gCandidates g"
  "gOwner (stored_form now g) = gOwner g" "gEpoch (stored_form now g) = gEpoch g"
  "gVersion (stored_form now g) = gVersion g" "gAddress (stored_form now g) = gAddress g"
  "gInterface (stored_form now g) = gInterface g" "stamp_of (stored_form now g) = stamp_of g"
  by (simp_all add: stored_form_def stamp_of_def)

lemma wf_stored_form [simp]: "wf_group (stored_form now g) = wf_group g"
  by (simp add: wf_group_def)

text \<open>The invariant of the table: rows in the order of their names, each well formed.\<close>

definition wf_groups :: "group list \<Rightarrow> bool" where
  "wf_groups gs \<longleftrightarrow> ordered_rows gName gs \<and> (\<forall>g \<in> set gs. wf_group g)"

abbreviation wf_node :: "node \<Rightarrow> bool" where
  "wf_node s \<equiv> wf_groups (groups s)"

lemma wf_groups_upsert: "wf_groups gs \<Longrightarrow> wf_group g \<Longrightarrow> wf_groups (upsert gName g gs)"
  using set_upsert [of gName g gs] by (auto simp: wf_groups_def ordered_upsert)

lemma wf_groups_delete: "wf_groups gs \<Longrightarrow> wf_groups (delete_row gName n gs)"
  using set_delete_row [of gName n gs] by (auto simp: wf_groups_def ordered_delete)

lemma wf_groups_row: "wf_groups gs \<Longrightarrow> row gName gs n = Some g \<Longrightarrow> wf_group g"
  by (auto simp: wf_groups_def dest: row_in_set)

lemma put_cases:
  obtains (fault) e where "put E g s = (Some e, s\<lparr>trace := trace s @ [Db (PutGroup (stored_form (eNow E (trace s)) g))]\<rparr>)"
  | (ok) "put E g s = (None, s\<lparr>trace := trace s @ [Db (PutGroup (stored_form (eNow E (trace s)) g))],
       groups := upsert gName (stored_form (eNow E (trace s)) g) (groups s)\<rparr>)"
  by (cases "eResult E (trace s) (Db (PutGroup (stored_form (eNow E (trace s)) g)))")
    (auto simp: put_def perform_def Let_def)

lemma put_wf: "wf_node s \<Longrightarrow> wf_group g \<Longrightarrow> wf_node (snd (put E g s))"
  by (cases E g s rule: put_cases) (auto intro: wf_groups_upsert)

lemma put_moving [simp]: "moving (snd (put E g s)) = moving s"
  by (cases E g s rule: put_cases) auto

lemma put_row:
  "row gName (groups (snd (put E g s))) n =
     (if fst (put E g s) = None \<and> n = gName g then Some (stored_form (eNow E (trace s)) g)
      else row gName (groups s) n)"
  by (cases E g s rule: put_cases) auto

lemma Remove_wf: "wf_node s \<Longrightarrow> wf_node (snd (Remove E n s))"
  by (auto simp: Remove_def perform_def wf_groups_delete split: option.splits)

section \<open>Operations that only make certain calls\<close>

text \<open>
  From \<open>s\<close> to \<open>t\<close> the node made only calls of the class \<open>P\<close>, and its groups, owner changes
  in progress, maintenance flag and replication records are as they were. The rules of
  \<open>only_intros\<close> add one operation at the end.
\<close>

definition only :: "(action \<Rightarrow> bool) \<Rightarrow> node \<Rightarrow> node \<Rightarrow> bool" where
  "only P s t \<longleftrightarrow>
     groups t = groups s \<and> moving t = moving s \<and> maint t = maint s \<and> repl t = repl s \<and>
     (\<exists>acts. trace t = trace s @ acts \<and> list_all P acts)"

lemma only_refl [only_intros]: "only P s s"
  by (simp add: only_def)

lemma only_trans: "only P s t \<Longrightarrow> only P t u \<Longrightarrow> only P s u"
  by (auto simp: only_def)

lemma only_mono: "only P s t \<Longrightarrow> (\<And>a. P a \<Longrightarrow> Q a) \<Longrightarrow> only Q s t"
  by (auto simp: only_def list_all_iff)

lemma only_perform [only_intros]: "only P s t \<Longrightarrow> P a \<Longrightarrow> only P s (snd (perform E a t))"
  by (auto simp: only_def perform_def)

lemma only_fields [simp]:
  "only P s (t\<lparr>lastPools := x1\<rparr>) = only P s t" "only P s (t\<lparr>lostSince := x2\<rparr>) = only P s t"
  "only P s (t\<lparr>decisions := x3\<rparr>) = only P s t" "only P s (t\<lparr>resProblems := x4\<rparr>) = only P s t"
  "only P s (t\<lparr>exportsHash := x5\<rparr>) = only P s t" "only P s (t\<lparr>absentSince := x6\<rparr>) = only P s t"
  "only P s (t\<lparr>ownerImport := x7\<rparr>) = only P s t" "only P s (t\<lparr>uncached := x8\<rparr>) = only P s t"
  "only P s (t\<lparr>sharedList := x9\<rparr>) = only P s t" "only P s (t\<lparr>addrApplied := x10\<rparr>) = only P s t"
  "only P s (t\<lparr>peerMaint := x11\<rparr>) = only P s t" "only P s (t\<lparr>stored := x12\<rparr>) = only P s t"
  by (simp_all add: only_def)

lemma onlyD:
  assumes "only P s t"
  shows "groups t = groups s" and "moving t = moving s" and "maint t = maint s" and "repl t = repl s"
  using assms by (simp_all add: only_def)

lemma only_importedPools [only_intros]:
  "only P s t \<Longrightarrow> P (Zpool ListPools) \<Longrightarrow> only P s (snd (importedPools E t))"
  by (auto simp: importedPools_def split_beta split: option.splits intro: only_intros)

lemma only_List_groups [only_intros]:
  "only P s t \<Longrightarrow> P (Db Query) \<Longrightarrow> only P s (snd (List_groups E t))"
  by (auto simp: List_groups_def split_beta split: option.splits intro: only_intros)

lemma only_Get [only_intros]: "only P s t \<Longrightarrow> P (Db Query) \<Longrightarrow> only P s (snd (Get E n t))"
  by (auto simp: Get_def split_beta split: option.splits intro: only_intros)

lemma only_ForPool [only_intros]: "only P s t \<Longrightarrow> P (Db Query) \<Longrightarrow> only P s (snd (ForPool E n t))"
  by (auto simp: ForPool_def split_beta split: sum.splits intro: only_intros)

lemma only_viewWith [only_intros]:
  "only P s t \<Longrightarrow> P (Db Query) \<Longrightarrow> only P s (snd (viewWith E p t))"
  by (auto simp: viewWith_def Maintenances_def inMaintenance_def split_beta Let_def
      split: option.splits intro: only_intros)

lemma only_currentView [only_intros]:
  "only P s t \<Longrightarrow> P (Zpool ListPools) \<Longrightarrow> P (Db Query) \<Longrightarrow> only P s (snd (currentView E t))"
  by (auto simp: currentView_def split_beta Let_def split: sum.splits intro!: only_intros)

end
