(* ===== verification/Samples.thy ===== *)
theory Samples
  imports Node
begin

text \<open>
  Small concrete values on which the theorems are applied: a two-node shared group, the view
  of a node in a quorate cluster, and an environment in which every call succeeds.
\<close>

definition sample_group :: "string \<Rightarrow> int \<Rightarrow> group" where
  "sample_group owner epoch =
     \<lparr>gName = ''g'', gTopology = Shared, gPools = [\<lparr>pName = ''tank'', pGUID = ''7''\<rparr>],
      gCandidates = [''a'', ''b''], gOwner = owner, gEpoch = epoch, gVersion = 1, gUpdatedAt = 5,
      gUpdatedBy = owner, gIntervalSecs = 300, gAutoFailover = True, gAddress = [], gInterface = []\<rparr>"

definition sample_view :: "string \<Rightarrow> string list \<Rightarrow> string list \<Rightarrow> view" where
  "sample_view self imported online =
     \<lparr>vSelf = self, vQuorum = True, vQuorate = True, vImportedHere = imported, vOnline = online,
      vAutoFailover = True, vAutoFailoverReason = [], vFenceOK = True, vFenceReason = [],
      vFenceDelay = 60, vChanging = [], vMaintenance = []\<rparr>"

definition sample_peer :: peer_view where
  "sample_peer = \<lparr>pvGroups = [], pvImported = [], pvHasImported = True, pvMaintenance = False\<rparr>"

text \<open>\<open>faults\<close> says which calls fail.\<close>

definition sample_env :: "string \<Rightarrow> (string \<times> string) list \<Rightarrow> string list \<Rightarrow> (action \<Rightarrow> gerr option) \<Rightarrow> env" where
  "sample_env self pools online faults =
     \<lparr>eSelf = self, eNow = (\<lambda>tr. 1000), eResult = (\<lambda>tr. faults), ePools = (\<lambda>tr. pools),
      eView = (\<lambda>tr. sample_view self (map fst pools) online), eMembers = (\<lambda>tr. [''a'', ''b'']),
      eMoving = (\<lambda>tr n. False), eFetch = (\<lambda>tr n. sample_peer), eFetchResources = (\<lambda>tr n. no_resources),
      eSnapshots = (\<lambda>tr p. []), eRemoteSnapshots = (\<lambda>tr n p. []), eNumber = (\<lambda>tr. 0),
      eFlag = (\<lambda>tr. False), eChanged = (\<lambda>tr. []), eSplits = (\<lambda>tr p. []), eStacks = (\<lambda>tr. []),
      eExports = (\<lambda>tr. []), eHash = (\<lambda>xs. []), eHostname = self, eStamp = (\<lambda>t. ''20260101-000000''),
      eFencing = False, eWatchdog = (\<lambda>tr. False), eSharedFile = True, eUncache = True\<rparr>"

definition sample_node :: "group list \<Rightarrow> node" where
  "sample_node gs =
     \<lparr>trace = [], groups = gs, stored = (\<lambda>g. no_resources), repl = [], maint = False, moving = [],
      lastPools = None, lostSince = Map.empty, decisions = Map.empty, resProblems = (\<lambda>g. []),
      exportsHash = [], absentSince = Map.empty, ownerImport = Map.empty, uncached = [],
      sharedList = None, addrApplied = Map.empty, peerMaint = Map.empty\<rparr>"

lemma sample_group_sel [simp]:
  "gName (sample_group owner epoch) = ''g''" "gTopology (sample_group owner epoch) = Shared"
  "gPools (sample_group owner epoch) = [\<lparr>pName = ''tank'', pGUID = ''7''\<rparr>]"
  "gCandidates (sample_group owner epoch) = [''a'', ''b'']" "gOwner (sample_group owner epoch) = owner"
  "gEpoch (sample_group owner epoch) = epoch" "gVersion (sample_group owner epoch) = 1"
  "gAddress (sample_group owner epoch) = []" "gInterface (sample_group owner epoch) = []"
  by (simp_all add: sample_group_def)

lemma sample_view_sel [simp]:
  "vSelf (sample_view self imported online) = self" "vQuorum (sample_view self imported online) = True"
  "vQuorate (sample_view self imported online) = True"
  "vImportedHere (sample_view self imported online) = imported"
  "vOnline (sample_view self imported online) = online" "vAutoFailover (sample_view self imported online) = True"
  "vFenceOK (sample_view self imported online) = True" "vFenceDelay (sample_view self imported online) = 60"
  "vChanging (sample_view self imported online) = []" "vMaintenance (sample_view self imported online) = []"
  by (simp_all add: sample_view_def)

lemma sample_env_sel [simp]:
  "eSelf (sample_env self pools online faults) = self" "eNow (sample_env self pools online faults) tr = 1000"
  "eResult (sample_env self pools online faults) tr = faults" "ePools (sample_env self pools online faults) tr = pools"
  "eView (sample_env self pools online faults) tr = sample_view self (map fst pools) online"
  "eMembers (sample_env self pools online faults) tr = [''a'', ''b'']"
  "eMoving (sample_env self pools online faults) tr n = False"
  "eFetch (sample_env self pools online faults) tr n = sample_peer"
  "eFetchResources (sample_env self pools online faults) tr n = no_resources"
  "eStacks (sample_env self pools online faults) tr = []" "eExports (sample_env self pools online faults) tr = []"
  "eSnapshots (sample_env self pools online faults) tr p = []"
  "eRemoteSnapshots (sample_env self pools online faults) tr m p = []"
  "eNumber (sample_env self pools online faults) tr = 0" "eFlag (sample_env self pools online faults) tr = False"
  "eFencing (sample_env self pools online faults) = False" "eWatchdog (sample_env self pools online faults) tr = False"
  "eSplits (sample_env self pools online faults) tr p = []" "eChanged (sample_env self pools online faults) tr = []"
  "eSharedFile (sample_env self pools online faults) = True" "eUncache (sample_env self pools online faults) = True"
  by (simp_all add: sample_env_def)

lemma sample_node_sel [simp]:
  "trace (sample_node gs) = []" "groups (sample_node gs) = gs" "moving (sample_node gs) = []"
  "repl (sample_node gs) = []" "maint (sample_node gs) = False" "peerMaint (sample_node gs) = Map.empty"
  "addrApplied (sample_node gs) = Map.empty" "lastPools (sample_node gs) = None"
  "lostSince (sample_node gs) = Map.empty" "stored (sample_node gs) = (\<lambda>g. no_resources)"
  "decisions (sample_node gs) = Map.empty" "exportsHash (sample_node gs) = []"
  by (simp_all add: sample_node_def)

lemma sample_Validate [simp]:
  assumes "owner \<in> {''a'', ''b''}" and "1 \<le> epoch"
  shows "wf_group (sample_group owner epoch)"
  using assms
  by (auto simp: wf_group_def pool_ok_def group_name_ok_def pool_name_ok_def guid_ok_def
      validAddress_def match_class_def char_class_defs)

lemma wf_sample_node [simp]:
  "wf_node (sample_node [])"
  "owner \<in> {''a'', ''b''} \<Longrightarrow> 1 \<le> epoch \<Longrightarrow> wf_node (sample_node [sample_group owner epoch])"
  by (auto simp: wf_groups_def ordered_rows_def)

lemma Evaluate_can_write_witness:
  "sCanWrite (Evaluate (sample_group ''a'' 1) (sample_view ''a'' [''tank''] [''a'', ''b'']))"
  by (subst Evaluate_can_write) simp

end
