(* ===== verification/Activation.thy ===== *)
theory Activation
  imports Samples
begin

text \<open>
  What runs only on a group's owner (\<open>internal/groups/resources.go\<close> and \<open>address.go\<close>): the
  Docker stacks and NVMe-oF exports that use the group's pools, and its floating address.
  \<open>deactivate\<close> stops them before the pools are given up, \<open>materialize\<close> writes the published
  definitions on a node that becomes the owner, \<open>ActivateTick\<close> is the periodic pass that
  starts them where the node may write and stops them everywhere else.

  Two orders the code leaves open are fixed here: rows with equal keys in \<open>sort.Slice\<close> keep
  their order, and a map is listed by its keys.
\<close>

section \<open>Selecting the resources of a group\<close>

text \<open>
  The expression \<open>/mnt/([A-Za-z][A-Za-z0-9_.:-]*)\<close>, followed by a slash, white space, a quote or
  the end of the text, over a compose file: the class of the name and the terminators are
  disjoint, so the longest name is the only candidate at a position.
\<close>

definition pool_char :: "char \<Rightarrow> bool" where
  "pool_char c \<longleftrightarrow> is_alnum c \<or> c \<in> set ''_.:-''"

definition mnt_end :: "char \<Rightarrow> bool" where
  "mnt_end c \<longleftrightarrow> c = CHR ''/'' \<or> c = CHR '' '' \<or> c = CHR 0x09 \<or> c = CHR 0x0A \<or> c = CHR 0x0C
     \<or> c = CHR 0x0D \<or> c = CHR 0x22 \<or> c = CHR 0x27"

definition mnt_match :: "string \<Rightarrow> (string \<times> string) option" where
  "mnt_match s =
     (if take 5 s = ''/mnt/'' then
        (let name = takeWhile pool_char (drop 5 s); rest = dropWhile pool_char (drop 5 s) in
         if name = [] \<or> \<not> is_alpha (hd name) then None
         else case rest of [] \<Rightarrow> Some (name, []) | c # r \<Rightarrow> if mnt_end c then Some (name, r) else None)
      else None)"

lemma mnt_match_shrinks: "mnt_match s = Some (name, rest) \<Longrightarrow> length rest < length s"
proof -
  assume m: "mnt_match s = Some (name, rest)"
  have "length (dropWhile pool_char (drop 5 s)) \<le> length (drop 5 s)"
    by (rule length_dropWhile_le)
  moreover from m have "drop 5 s \<noteq> []" by (auto simp: mnt_match_def Let_def split: if_splits)
  then have "length (drop 5 s) < length s" by simp
  moreover from m have "length rest \<le> length (dropWhile pool_char (drop 5 s))"
    by (auto simp: mnt_match_def Let_def split: if_splits list.splits)
  ultimately show ?thesis by linarith
qed

function mnt_pools :: "string \<Rightarrow> string list" where
  "mnt_pools s =
     (case s of [] \<Rightarrow> []
      | c # cs \<Rightarrow>
          (case mnt_match s of Some (name, rest) \<Rightarrow> name # mnt_pools rest | None \<Rightarrow> mnt_pools cs))"
  by pat_completeness auto
termination
  by (relation "measure length") (auto dest: mnt_match_shrinks)

declare mnt_pools.simps [simp del]

definition stackPools :: "string \<Rightarrow> string list" where
  "stackPools yaml = sort (remdups (mnt_pools yaml))"

fun usesPool :: "group \<Rightarrow> string list \<Rightarrow> bool" where
  "usesPool g [] = False"
| "usesPool g (p # ps) = (if HasPool g p then True else usesPool g ps)"

definition zvolPool :: "string \<Rightarrow> string" where
  "zvolPool zvol =
     (let z = (if take 10 zvol = ''/dev/zvol/'' then drop 10 zvol else zvol) in
      case cut_at (CHR ''/'') z of Some (pool, _) \<Rightarrow> pool | None \<Rightarrow> z)"

definition filterResources :: "group \<Rightarrow> stack_def list \<Rightarrow> export list \<Rightarrow> resources" where
  "filterResources g stacks exports =
     \<lparr>rStacks = filter (\<lambda>s. usesPool g (stackPools (sYAML s))) stacks,
      rNVMe = filter (\<lambda>e. HasPool g (zvolPool (xZvol e))) exports\<rparr>"

lemma usesPool_iff [simp]: "usesPool g ps \<longleftrightarrow> (\<exists>p \<in> set ps. HasPool g p)"
  by (induction ps) (auto simp del: HasPool_iff)

section \<open>The exports a node applies\<close>

definition owner_of_pool :: "group list \<Rightarrow> string \<Rightarrow> group option" where
  "owner_of_pool gs pool = List.find (\<lambda>g. HasPool g pool) gs"

definition foreign_export :: "group list \<Rightarrow> string \<Rightarrow> export \<Rightarrow> bool" where
  "foreign_export gs self e \<longleftrightarrow>
     (case owner_of_pool gs (zvolPool (xZvol e)) of Some g \<Rightarrow> gOwner g \<noteq> self | None \<Rightarrow> False)"

text \<open>The exports of a group this node owns that its own list does not have, each NQN once.\<close>

fun missing_exports :: "string list \<Rightarrow> export list \<Rightarrow> export list" where
  "missing_exports seen [] = []"
| "missing_exports seen (e # es) =
     (if xNQN e \<in> set seen then missing_exports seen es else e # missing_exports (xNQN e # seen) es)"

definition appliedExports ::
  "export list \<Rightarrow> group list \<Rightarrow> string \<Rightarrow> (string \<Rightarrow> export list) \<Rightarrow> export list" where
  "appliedExports local gs self known =
     (let own = filter (\<lambda>e. \<not> foreign_export gs self e) local;
          theirs = concat (map (\<lambda>g. known (gName g)) (filter (\<lambda>g. gOwner g = self) gs)) in
      sort_key xNQN (own @ missing_exports (map xNQN own) theirs))"

lemma set_missing_exports: "set (missing_exports seen es) \<subseteq> set es"
  by (induction seen es rule: missing_exports.induct) auto

lemma missing_exports_nqns:
  "set seen \<union> xNQN ` set (missing_exports seen es) = set seen \<union> xNQN ` set es"
  by (induction seen es rule: missing_exports.induct) auto

lemma missing_exports_distinct:
  "distinct (map xNQN (missing_exports seen es)) \<and>
     xNQN ` set (missing_exports seen es) \<inter> set seen = {}"
  by (induction seen es rule: missing_exports.induct) auto

lemma set_appliedExports:
  "set (appliedExports local gs self known) \<subseteq>
     {e \<in> set local. \<not> foreign_export gs self e} \<union>
     (\<Union>g \<in> {g \<in> set gs. gOwner g = self}. set (known (gName g)))"
  using set_missing_exports
  by (fastforce simp: appliedExports_def Let_def)

section \<open>The floating address\<close>

definition ask :: "env \<Rightarrow> action \<Rightarrow> node \<Rightarrow> (gerr + bool) \<times> node" where
  "ask E a s =
     (case perform E a s of (Some e, s') \<Rightarrow> (Inl e, s') | (None, s') \<Rightarrow> (Inr (eFlag E (trace s)), s'))"

definition addr_key :: "group \<Rightarrow> string" where
  "addr_key g = gInterface g @ CHR ''|'' # gAddress g"

text \<open>The address put here before, when it is not the group's any more.\<close>

definition drop_previous :: "env \<Rightarrow> group \<Rightarrow> node \<Rightarrow> gerr list \<times> node" where
  "drop_previous E g s =
     (let prev = (case addrApplied s (gName g) of None \<Rightarrow> [] | Some k \<Rightarrow> k) in
      if prev \<noteq> [] \<and> prev \<noteq> addr_key g then
        (let (piface, pcidr) = (case cut_at (CHR ''|'') prev of None \<Rightarrow> ([], []) | Some ic \<Rightarrow> ic) in
         case ask E (Res (AddrPresent piface pcidr)) s of
           (Inr True, s') \<Rightarrow>
             (case perform E (Res (AddrDel piface pcidr)) s' of
                (Some e, s'') \<Rightarrow> ([e], s'') | (None, s'') \<Rightarrow> ([], s''))
         | (_, s') \<Rightarrow> ([], s'))
      else ([], s))"

definition holdAddress :: "env \<Rightarrow> group \<Rightarrow> bool \<Rightarrow> node \<Rightarrow> gerr option \<times> node" where
  "holdAddress E g hold s =
     (let (errs, s1) = drop_previous E g s;
          iface = gInterface g; cidr = gAddress g;
          applied = (if hold then Some (addr_key g) else None) in
      if cidr = [] then (join_errors errs, s1\<lparr>addrApplied := (addrApplied s1)(gName g := None)\<rparr>)
      else case ask E (Res (AddrPresent iface cidr)) s1 of
        (Inl e, s2) \<Rightarrow> (join_errors (errs @ [e]), s2)
      | (Inr present, s2) \<Rightarrow>
          (if hold \<and> \<not> present then
             (case perform E (Res (AddrAdd iface cidr)) s2 of
                (Some e, s3) \<Rightarrow> (join_errors (errs @ [e]), s3)
              | (None, s3) \<Rightarrow>
                  (case perform E (Res (AddrAnnounce iface cidr)) s3 of
                     (ann, s4) \<Rightarrow>
                       (join_errors (errs @ (case ann of None \<Rightarrow> [] | Some e \<Rightarrow> [e])),
                        s4\<lparr>addrApplied := (addrApplied s4)(gName g := applied)\<rparr>)))
           else if \<not> hold \<and> present then
             (case perform E (Res (AddrDel iface cidr)) s2 of
                (Some e, s3) \<Rightarrow> (join_errors (errs @ [e]), s3)
              | (None, s3) \<Rightarrow>
                  (join_errors errs, s3\<lparr>addrApplied := (addrApplied s3)(gName g := applied)\<rparr>))
           else (join_errors errs, s2\<lparr>addrApplied := (addrApplied s2)(gName g := applied)\<rparr>)))"

section \<open>Definitions of resources\<close>

definition local_stacks :: "env \<Rightarrow> node \<Rightarrow> (gerr + stack_def list) \<times> node" where
  "local_stacks E s =
     (case perform E (Res LocalStacks) s of
        (Some e, s') \<Rightarrow> (Inl e, s') | (None, s') \<Rightarrow> (Inr (eStacks E (trace s)), s'))"

definition local_exports :: "env \<Rightarrow> node \<Rightarrow> (gerr + export list) \<times> node" where
  "local_exports E s =
     (case perform E (Res LocalExports) s of
        (Some e, s') \<Rightarrow> (Inl e, s') | (None, s') \<Rightarrow> (Inr (eExports E (trace s)), s'))"

definition LocalResources :: "env \<Rightarrow> string \<Rightarrow> node \<Rightarrow> (gerr + resources) \<times> node" where
  "LocalResources E name s =
     (case Get E name s of
        (Inl e, s1) \<Rightarrow> (Inl e, s1)
      | (Inr g, s1) \<Rightarrow>
          (case local_stacks E s1 of
             (Inl e, s2) \<Rightarrow> (Inl e, s2)
           | (Inr stacks, s2) \<Rightarrow>
               (case local_exports E s2 of
                  (Inl e, s3) \<Rightarrow> (Inl e, s3)
                | (Inr exports, s3) \<Rightarrow> (Inr (filterResources g stacks exports), s3))))"

text \<open>
  \<open>storeResources\<close> replaces the rows of the group in one transaction; two rows with the same
  key violate the primary key and roll it back.
\<close>

definition keyed :: "resources \<Rightarrow> bool" where
  "keyed r \<longleftrightarrow> distinct (map sName (rStacks r)) \<and> distinct (map xNQN (rNVMe r))"

definition storeResources :: "env \<Rightarrow> string \<Rightarrow> resources \<Rightarrow> node \<Rightarrow> gerr option \<times> node" where
  "storeResources E name r s =
     (case perform E (Db (StoreResources name r)) s of
        (Some e, s') \<Rightarrow> (Some e, s')
      | (None, s') \<Rightarrow>
          (if \<not> keyed r then (Some (External ''duplicate key''), s')
           else (None, s'\<lparr>stored := (stored s')(name :=
                   \<lparr>rStacks = sort_key sName (rStacks r), rNVMe = sort_key xNQN (rNVMe r)\<rparr>)\<rparr>)))"

definition loadResources :: "env \<Rightarrow> string \<Rightarrow> node \<Rightarrow> (gerr + resources) \<times> node" where
  "loadResources E name s =
     (case perform E (Db Query) s of
        (Some e, s') \<Rightarrow> (Inl e, s') | (None, s') \<Rightarrow> (Inr (stored s' name), s'))"

definition merge_resources :: "resources \<Rightarrow> resources \<Rightarrow> resources" where
  "merge_resources published local =
     \<lparr>rStacks = rStacks published @
        filter (\<lambda>s. sName s \<notin> sName ` set (rStacks published)) (rStacks local),
      rNVMe = rNVMe published @
        filter (\<lambda>e. xNQN e \<notin> xNQN ` set (rNVMe published)) (rNVMe local)\<rparr>"

definition knownResources :: "env \<Rightarrow> group \<Rightarrow> node \<Rightarrow> (gerr + resources) \<times> node" where
  "knownResources E g s =
     (case LocalResources E (gName g) s of
        (Inl e, s1) \<Rightarrow> (Inl e, s1)
      | (Inr local, s1) \<Rightarrow>
          (if gOwner g = eSelf E then (Inr local, s1)
           else case loadResources E (gName g) s1 of
             (Inl e, s2) \<Rightarrow> (Inl e, s2)
           | (Inr published, s2) \<Rightarrow> (Inr (merge_resources published local), s2)))"

text \<open>The published exports of every group; one that cannot be read counts as none.\<close>

fun known_exports ::
  "env \<Rightarrow> group list \<Rightarrow> node \<Rightarrow> (string \<times> export list) list \<times> node" where
  "known_exports E [] s = ([], s)"
| "known_exports E (g # gs) s =
     (let (r, s1) = loadResources E (gName g) s;
          xs = (case r of Inl _ \<Rightarrow> [] | Inr res \<Rightarrow> rNVMe res);
          (rest, s2) = known_exports E gs s1 in
      ((gName g, xs) # rest, s2))"

definition export_lookup :: "(string \<times> export list) list \<Rightarrow> string \<Rightarrow> export list" where
  "export_lookup kn n = (case map_of (rev kn) n of None \<Rightarrow> [] | Some xs \<Rightarrow> xs)"

definition applyExports :: "env \<Rightarrow> node \<Rightarrow> gerr option \<times> node" where
  "applyExports E s =
     (case List_groups E s of
        (Inl e, s1) \<Rightarrow> (Some e, s1)
      | (Inr gs, s1) \<Rightarrow>
          (case local_exports E s1 of
             (Inl e, s2) \<Rightarrow> (Some e, s2)
           | (Inr local, s2) \<Rightarrow>
               (let (kn, s3) = known_exports E gs s2;
                    xs = appliedExports local gs (eSelf E) (export_lookup kn);
                    h = eHash E xs in
                if h = exportsHash s3 then (None, s3)
                else if xs = [] \<and> local = [] \<and> exportsHash s3 = [] then (None, s3\<lparr>exportsHash := h\<rparr>)
                else case perform E (Res (ApplyExports xs)) s3 of
                  (Some e, s4) \<Rightarrow> (Some (Wrap ''applying NVMe-oF exports'' e), s4)
                | (None, s4) \<Rightarrow> (None, s4\<lparr>exportsHash := h\<rparr>))))"

section \<open>Stopping and starting\<close>

text \<open>\<open>deactivate\<close> waits for the stack's lock; a stack whose state cannot be read is stopped.\<close>

fun stop_stacks :: "env \<Rightarrow> stack_def list \<Rightarrow> node \<Rightarrow> gerr list \<times> node" where
  "stop_stacks E [] s = ([], s)"
| "stop_stacks E (st # sts) s =
     (case ask E (Res (StackRunning (sName st))) s of
        (Inr False, s1) \<Rightarrow> stop_stacks E sts s1
      | (_, s1) \<Rightarrow>
          (let (r, s2) = perform E (Res (StackDown (sName st))) s1;
               (errs, s3) = stop_stacks E sts s2 in
           ((case r of None \<Rightarrow> errs | Some e \<Rightarrow> e # errs), s3)))"

definition deactivate :: "env \<Rightarrow> group \<Rightarrow> node \<Rightarrow> gerr option \<times> node" where
  "deactivate E g s =
     (case knownResources E g s of
        (Inl e, s1) \<Rightarrow> (Some e, s1)
      | (Inr r, s1) \<Rightarrow>
          (let (ha, s2) = holdAddress E g False s1;
               (errs, s3) = stop_stacks E (rStacks r) s2;
               errs1 = (case ha of None \<Rightarrow> errs | Some e \<Rightarrow> e # errs) in
           if rNVMe r \<noteq> [] then
             (let (ae, s4) = applyExports E s3 in
              (join_errors (errs1 @ (case ae of None \<Rightarrow> [] | Some e \<Rightarrow> [e])), s4))
           else (join_errors errs1, s3)))"

fun write_stacks :: "env \<Rightarrow> stack_def list \<Rightarrow> node \<Rightarrow> gerr list \<times> node" where
  "write_stacks E [] s = ([], s)"
| "write_stacks E (st # sts) s =
     (let (r, s1) = perform E (Res (WriteStack st)) s; (errs, s2) = write_stacks E sts s1 in
      ((case r of None \<Rightarrow> errs | Some e \<Rightarrow> Wrap (sName st) e # errs), s2))"

definition materialize :: "env \<Rightarrow> group \<Rightarrow> node \<Rightarrow> gerr option \<times> node" where
  "materialize E g s =
     (case loadResources E (gName g) s of
        (Inl e, s1) \<Rightarrow> (Some e, s1)
      | (Inr r, s1) \<Rightarrow>
          (let (errs, s2) = write_stacks E (rStacks r) s1 in
           if rNVMe r = [] then (join_errors errs, s2)
           else case local_exports E s2 of
             (Inl e, s3) \<Rightarrow> (join_errors (errs @ [e]), s3)
           | (Inr local, s3) \<Rightarrow>
               (let new = filter (\<lambda>e. xNQN e \<notin> xNQN ` set local) (rNVMe r) in
                if new = [] then (join_errors errs, s3)
                else case perform E (Res (SaveExports (local @ new))) s3 of
                  (None, s4) \<Rightarrow> (join_errors errs, s4)
                | (Some e, s4) \<Rightarrow> (join_errors (errs @ [e]), s4))))"

text \<open>
  The owner's part of \<open>ActivateTick\<close>. \<open>isMoving\<close> is read again before every stack: a planned
  move may start meanwhile, and a stack started while it did so is stopped again.
\<close>

fun start_stacks :: "env \<Rightarrow> string \<Rightarrow> stack_def list \<Rightarrow> node \<Rightarrow> gerr list \<times> node" where
  "start_stacks E name [] s = ([], s)"
| "start_stacks E name (st # sts) s =
     (if isMoving E s name then ([], s)
      else case ask E (Res (TryLock (sName st))) s of
        (Inr True, s1) \<Rightarrow>
          (case ask E (Res (StackRunning (sName st))) s1 of
             (Inr True, s2) \<Rightarrow> start_stacks E name sts s2
           | (_, s2) \<Rightarrow>
               (let (up, s3) = perform E (Res (StackUp (sName st))) s2;
                    s4 = (if isMoving E s3 name then snd (perform E (Res (StackDown (sName st))) s3) else s3);
                    (errs, s5) = start_stacks E name sts s4 in
                ((case up of None \<Rightarrow> errs | Some e \<Rightarrow> e # errs), s5)))
      | (_, s1) \<Rightarrow> start_stacks E name sts s1)"

text \<open>A candidate that is not the owner stops what runs, unless the stack is busy.\<close>

fun quiet_stacks :: "env \<Rightarrow> stack_def list \<Rightarrow> node \<Rightarrow> gerr list \<times> node" where
  "quiet_stacks E [] s = ([], s)"
| "quiet_stacks E (st # sts) s =
     (case ask E (Res (TryLock (sName st))) s of
        (Inr True, s1) \<Rightarrow>
          (case ask E (Res (StackRunning (sName st))) s1 of
             (Inr True, s2) \<Rightarrow>
               (let (r, s3) = perform E (Res (StackDown (sName st))) s2;
                    (errs, s4) = quiet_stacks E sts s3 in
                ((case r of None \<Rightarrow> errs | Some e \<Rightarrow> e # errs), s4))
           | (_, s2) \<Rightarrow> quiet_stacks E sts s2)
      | (_, s1) \<Rightarrow> quiet_stacks E sts s1)"

definition wrapped :: "string \<Rightarrow> gerr option \<Rightarrow> gerr list" where
  "wrapped what r = (case r of None \<Rightarrow> [] | Some e \<Rightarrow> [Wrap what e])"

definition set_problems :: "string \<Rightarrow> gerr list \<Rightarrow> node \<Rightarrow> node" where
  "set_problems name ps s = s\<lparr>resProblems := (resProblems s)(name := ps)\<rparr>"

definition serve_group :: "env \<Rightarrow> group \<Rightarrow> node \<Rightarrow> node" where
  "serve_group E g s =
     (let (ha, s1) = holdAddress E g True s;
          problems = wrapped ''floating address'' ha in
      if isMoving E s1 (gName g) then snd (holdAddress E g False s1)
      else case knownResources E g s1 of
        (Inl e, s2) \<Rightarrow> set_problems (gName g) (problems @ [e]) s2
      | (Inr r, s2) \<Rightarrow>
          (let (st, s3) = storeResources E (gName g) r s2;
               (errs, s4) = start_stacks E (gName g) (rStacks r) s3 in
           set_problems (gName g) (problems @ (case st of None \<Rightarrow> [] | Some e \<Rightarrow> [e]) @ errs) s4))"

definition activate_group :: "env \<Rightarrow> group \<Rightarrow> node \<Rightarrow> node" where
  "activate_group E g s =
     (if isMoving E s (gName g) then s
      else if gOwner g = eSelf E then
        (case currentView E s of
           (Inl e, s1) \<Rightarrow> s1
         | (Inr v, s1) \<Rightarrow>
             (if \<not> sCanWrite (Evaluate g v) then snd (holdAddress E g False s1)
              else if isMoving E s1 (gName g) then s1
              else serve_group E g s1))
      else if IsCandidate g (eSelf E) then
        (let (ha, s1) = holdAddress E g False s;
             (lr, s2) = loadResources E (gName g) s1;
             r = (case lr of Inl _ \<Rightarrow> no_resources | Inr x \<Rightarrow> x);
             (errs, s3) = quiet_stacks E (rStacks r) s2 in
         set_problems (gName g) (wrapped ''floating address'' ha @ errs) s3)
      else set_problems (gName g) [] s)"

fun activate_groups :: "env \<Rightarrow> group list \<Rightarrow> node \<Rightarrow> node" where
  "activate_groups E [] s = s"
| "activate_groups E (g # gs) s = activate_groups E gs (activate_group E g s)"

definition ActivateTick :: "env \<Rightarrow> node \<Rightarrow> node" where
  "ActivateTick E s =
     (case List_groups E s of
        (Inl e, s1) \<Rightarrow> s1
      | (Inr gs, s1) \<Rightarrow> snd (applyExports E (activate_groups E gs s1)))"

section \<open>What activation never touches\<close>

text \<open>
  None of this changes who owns a group, imports or exports a pool, or talks to another node:
  the calls are those of the class \<open>local_call\<close>.
\<close>

fun local_call :: "action \<Rightarrow> bool" where
  "local_call (Res r) = True"
| "local_call (Db Query) = True"
| "local_call (Db (StoreResources n r)) = True"
| "local_call (Zpool ListPools) = True"
| "local_call a = False"

lemma only_ask [only_intros]: "only P s t \<Longrightarrow> P a \<Longrightarrow> only P s (snd (ask E a t))"
  by (auto simp: ask_def split_beta split: option.splits intro: only_intros)

lemma only_holdAddress [only_intros]:
  assumes "only local_call s t" shows "only local_call s (snd (holdAddress E g h t))"
proof -
  have "only local_call s (snd (drop_previous E g t))"
    using assms by (auto simp: drop_previous_def split_beta Let_def
        split: option.splits sum.splits bool.splits intro!: only_intros)
  then show ?thesis
    by (auto simp: holdAddress_def split_beta Let_def split: option.splits sum.splits intro!: only_intros)
qed

lemma only_local_defs [only_intros]:
  assumes "only local_call s t"
  shows "only local_call s (snd (local_stacks E t))" "only local_call s (snd (local_exports E t))"
    "only local_call s (snd (loadResources E n t))" "only local_call s (snd (storeResources E n r t))"
  using assms
  by (auto simp: local_stacks_def local_exports_def loadResources_def storeResources_def split_beta
      split: option.splits intro!: only_intros)

lemma only_LocalResources [only_intros]:
  "only local_call s t \<Longrightarrow> only local_call s (snd (LocalResources E n t))"
  by (auto simp: LocalResources_def split_beta split: sum.splits intro!: only_intros)

lemma only_knownResources [only_intros]:
  "only local_call s t \<Longrightarrow> only local_call s (snd (knownResources E g t))"
  by (auto simp: knownResources_def split_beta split: sum.splits intro!: only_intros)

lemma only_known_exports [only_intros]:
  "only local_call s t \<Longrightarrow> only local_call s (snd (known_exports E gs t))"
  by (induction gs arbitrary: t) (auto simp: split_beta Let_def intro!: only_intros)

lemma only_applyExports [only_intros]:
  "only local_call s t \<Longrightarrow> only local_call s (snd (applyExports E t))"
  by (auto simp: applyExports_def split_beta Let_def split: sum.splits option.splits intro!: only_intros)

lemma only_stop_stacks [only_intros]:
  "only local_call s t \<Longrightarrow> only local_call s (snd (stop_stacks E sts t))"
proof (induction sts arbitrary: t)
  case Nil
  then show ?case by simp
next
  case (Cons st sts)
  show ?case
    using Cons.prems
    by (simp add: split_beta Let_def split: sum.split bool.split)
      (intro conjI impI allI Cons.IH only_intros; simp)
qed

lemma only_deactivate [only_intros]:
  "only local_call s t \<Longrightarrow> only local_call s (snd (deactivate E g t))"
  by (auto simp: deactivate_def split_beta Let_def split: sum.splits option.splits intro!: only_intros)

lemma only_write_stacks [only_intros]:
  "only local_call s t \<Longrightarrow> only local_call s (snd (write_stacks E sts t))"
proof (induction sts arbitrary: t)
  case Nil
  then show ?case by simp
next
  case (Cons st sts)
  show ?case
    using Cons.prems
    by (simp add: split_beta Let_def split: sum.split bool.split)
      (intro conjI impI allI Cons.IH only_intros; simp)
qed

lemma only_materialize [only_intros]:
  "only local_call s t \<Longrightarrow> only local_call s (snd (materialize E g t))"
  by (auto simp: materialize_def split_beta Let_def split: sum.splits option.splits intro!: only_intros)

lemma only_start_stacks [only_intros]:
  "only local_call s t \<Longrightarrow> only local_call s (snd (start_stacks E n sts t))"
proof (induction sts arbitrary: t)
  case Nil
  then show ?case by simp
next
  case (Cons st sts)
  show ?case
    using Cons.prems
    by (simp add: split_beta Let_def split: sum.split bool.split)
      (intro conjI impI allI Cons.IH only_intros; simp)
qed

lemma only_quiet_stacks [only_intros]:
  "only local_call s t \<Longrightarrow> only local_call s (snd (quiet_stacks E sts t))"
proof (induction sts arbitrary: t)
  case Nil
  then show ?case by simp
next
  case (Cons st sts)
  show ?case
    using Cons.prems
    by (simp add: split_beta Let_def split: sum.split bool.split)
      (intro conjI impI allI Cons.IH only_intros; simp)
qed

lemma only_set_problems [simp]: "only P s (set_problems n ps t) = only P s t"
  by (simp add: set_problems_def)

lemma only_serve_group [only_intros]:
  "only local_call s t \<Longrightarrow> only local_call s (serve_group E g t)"
  by (auto simp: serve_group_def split_beta Let_def split: sum.splits intro!: only_intros)

lemma only_activate_group [only_intros]:
  "only local_call s t \<Longrightarrow> only local_call s (activate_group E g t)"
  by (auto simp: activate_group_def split_beta Let_def split: sum.splits intro!: only_intros)

lemma only_activate_groups [only_intros]:
  "only local_call s t \<Longrightarrow> only local_call s (activate_groups E gs t)"
  by (induction gs arbitrary: t) (auto intro!: only_intros)

lemma only_ActivateTick: "only local_call s (ActivateTick E s)"
  by (auto simp: ActivateTick_def split_beta split: sum.splits intro!: only_intros)

text \<open>On the sample node there is nothing to stop.\<close>

lemma sample_deactivate:
  assumes "row gName (groups s) ''g'' = Some (sample_group ''a'' epoch)" and "addrApplied s = Map.empty"
  shows "deactivate (sample_env ''a'' pools online (\<lambda>a. None)) (sample_group ''a'' epoch) s =
     (None, s\<lparr>trace := trace s @ [Db Query, Res LocalStacks, Res LocalExports]\<rparr>)"
  using assms
  by (simp add: deactivate_def knownResources_def LocalResources_def Get_def perform_def local_stacks_def
      local_exports_def filterResources_def holdAddress_def drop_previous_def join_errors_def fun_upd_idem)

section \<open>What a node does not start\<close>

text \<open>Calls that start nothing: no stack comes up, no address is added or announced.\<close>

fun quiet_call :: "action \<Rightarrow> bool" where
  "quiet_call (Res (StackUp n)) = False"
| "quiet_call (Res (WriteStack st)) = False"
| "quiet_call (Res (SaveExports es)) = False"
| "quiet_call (Res (ApplyExports es)) = False"
| "quiet_call (Res (AddrAdd i c)) = False"
| "quiet_call (Res (AddrAnnounce i c)) = False"
| "quiet_call a = local_call a"

lemma quiet_drop_previous:
  "only quiet_call s t \<Longrightarrow> only quiet_call s (snd (drop_previous E g t))"
  by (auto simp: drop_previous_def split_beta Let_def
      split: option.splits sum.splits bool.splits intro!: only_intros)

lemma quiet_release_address:
  "only quiet_call s t \<Longrightarrow> only quiet_call s (snd (holdAddress E g False t))"
  using quiet_drop_previous [of s t E g]
  by (auto simp: holdAddress_def split_beta Let_def split: option.splits sum.splits intro!: only_intros)

lemma quiet_quiet_stacks:
  "only quiet_call s t \<Longrightarrow> only quiet_call s (snd (quiet_stacks E sts t))"
proof (induction sts arbitrary: t)
  case (Cons st sts)
  show ?case
    using Cons.prems
    by (simp add: split_beta Let_def split: sum.split bool.split)
      (intro conjI impI allI Cons.IH only_intros; simp)
qed simp

lemma quiet_loadResources:
  "only quiet_call s t \<Longrightarrow> only quiet_call s (snd (loadResources E n t))"
  by (auto simp: loadResources_def split_beta split: option.splits intro!: only_intros)

text \<open>
  A node starts nothing of a group it does not own, and nothing of a group it owns while it may
  not write (no quorum, a pool missing, an owner change): the pass only stops and releases.
\<close>

theorem activation_guarded:
  assumes "gOwner g \<noteq> eSelf E \<or> (\<forall>v s1. currentView E s = (Inr v, s1) \<longrightarrow> \<not> sCanWrite (Evaluate g v))"
  shows "only quiet_call s (activate_group E g s)"
proof (cases "gOwner g = eSelf E")
  case False
  then show ?thesis
    by (auto simp: activate_group_def split_beta Let_def
        intro!: only_intros quiet_release_address quiet_quiet_stacks quiet_loadResources)
next
  case True
  have view: "only quiet_call s (snd (currentView E s))" by (auto intro!: only_intros)
  show ?thesis
  proof (cases "currentView E s")
    case (Pair r s1)
    with True assms view show ?thesis
      by (cases r) (auto simp: activate_group_def intro!: only_intros quiet_release_address)
  qed
qed

lemma activation_guarded_witness:
  "only quiet_call (sample_node [])
     (activate_group (sample_env ''b'' [] [''a''] (\<lambda>a. None)) (sample_group ''a'' 1) (sample_node []))"
  by (rule activation_guarded) simp

end
