(* ===== verification/Replication.thy ===== *)
theory Replication
  imports Activation
begin

text \<open>
  Replicated groups (\<open>internal/groups/replicate.go\<close>): the owner snapshots its pools and streams
  them to every other candidate; a candidate receives only from the owner at the current epoch
  and refuses a stream that would roll back changes made to its own copy.
\<close>

section \<open>Pure helpers\<close>

text \<open>\<open>^dplane-[0-9]+-[0-9]+$\<close>\<close>

definition repl_snap_ok :: "string \<Rightarrow> bool" where
  "repl_snap_ok s \<longleftrightarrow>
     take 7 s = ''dplane-'' \<and>
     (case cut_at (CHR ''-'') (drop 7 s) of
        None \<Rightarrow> False
      | Some (a, b) \<Rightarrow> a \<noteq> [] \<and> list_all is_digit a \<and> b \<noteq> [] \<and> list_all is_digit b)"

definition unix_zero :: time where
  "unix_zero = 62135596800 * 1000000000"

definition snap_name :: "int \<Rightarrow> time \<Rightarrow> string" where
  "snap_name epoch now =
     ''dplane-'' @ show_int epoch @ CHR ''-'' # show_int ((now - unix_zero) div 1000000)"

text \<open>\<open>latestCommon\<close>: the newest snapshot of \<open>local\<close> (oldest first) that \<open>remote\<close> has; empty if none.\<close>

fun newest_in :: "string list \<Rightarrow> string list \<Rightarrow> string" where
  "newest_in [] remote = []"
| "newest_in (s # older) remote = (if s \<in> set remote then s else newest_in older remote)"

definition latestCommon :: "string list \<Rightarrow> string list \<Rightarrow> string" where
  "latestCommon local remote = newest_in (rev local) remote"

text \<open>\<open>pruneList\<close>: the loop over the index \<open>i\<close> of a list of \<open>n\<close> snapshots.\<close>

fun prune_from :: "nat \<Rightarrow> nat \<Rightarrow> nat \<Rightarrow> string list \<Rightarrow> string list \<Rightarrow> string list" where
  "prune_from i n keep needed [] = []"
| "prune_from i n keep needed (s # ss) =
     (if int n - int keep \<le> int i \<or> s \<in> set needed then prune_from (Suc i) n keep needed ss
      else s # prune_from (Suc i) n keep needed ss)"

definition pruneList :: "string list \<Rightarrow> nat \<Rightarrow> string list \<Rightarrow> string list" where
  "pruneList local keep needed = prune_from 0 (length local) keep needed local"

definition checkReceive ::
  "group \<Rightarrow> string \<Rightarrow> string \<Rightarrow> int \<Rightarrow> string \<Rightarrow> int \<Rightarrow> int \<Rightarrow> bool \<Rightarrow> repl_refusal option" where
  "checkReceive g self sender epoch base written datasets discardOK =
     (if gTopology g \<noteq> Replicated then Some NotReplicated
      else if gOwner g = self then Some OwnerDoesNotReceive
      else if epoch < gEpoch g then Some (NotOwnerSender epoch (gEpoch g))
      else if gEpoch g < epoch then Some (EpochAhead epoch)
      else if gOwner g \<noteq> sender then Some SenderNotOwner
      else if discardOK then None
      else if base \<noteq> [] \<and> 0 < written then Some (Diverged written base)
      else if base = [] \<and> 1 < datasets then Some (DivergedFull (datasets - 1))
      else None)"

section \<open>Records\<close>

definition same_direction :: "string \<Rightarrow> bool \<Rightarrow> string \<Rightarrow> string \<Rightarrow> repl_row \<Rightarrow> bool" where
  "same_direction grp out peer pool r \<longleftrightarrow>
     rrGroup r = grp \<and> rrOut r = out \<and> rrPeer r = peer \<and> rrPool r = pool"

definition new_repl_row :: "string \<Rightarrow> bool \<Rightarrow> string \<Rightarrow> string \<Rightarrow> repl_row" where
  "new_repl_row grp out peer pool =
     \<lparr>rrGroup = grp, rrOut = out, rrPeer = peer, rrPool = pool, rrSnapshot = [], rrOkAt = None,
      rrError = None, rrDiscardOK = False\<rparr>"

fun upsert_repl ::
  "string \<Rightarrow> bool \<Rightarrow> string \<Rightarrow> string \<Rightarrow> (repl_row \<Rightarrow> repl_row) \<Rightarrow> repl_row list \<Rightarrow> repl_row list" where
  "upsert_repl grp out peer pool f [] = [f (new_repl_row grp out peer pool)]"
| "upsert_repl grp out peer pool f (r # rs) =
     (if same_direction grp out peer pool r then f r # rs else r # upsert_repl grp out peer pool f rs)"

definition direction :: "bool \<Rightarrow> string" where
  "direction out = (if out then ''out'' else ''in'')"

definition recordRepl ::
  "env \<Rightarrow> string \<Rightarrow> bool \<Rightarrow> string \<Rightarrow> string \<Rightarrow> string \<Rightarrow> gerr option \<Rightarrow> node \<Rightarrow> node" where
  "recordRepl E grp out peer pool snap err s =
     (case perform E (Db (RecordRepl grp (direction out) peer pool)) s of
        (Some _, s') \<Rightarrow> s'
      | (None, s') \<Rightarrow>
          s'\<lparr>repl := upsert_repl grp out peer pool
              (case err of
                 Some e \<Rightarrow> (\<lambda>r. r\<lparr>rrError := Some e\<rparr>)
               | None \<Rightarrow> (\<lambda>r. r\<lparr>rrSnapshot := snap, rrOkAt := Some (eNow E (trace s)), rrError := None,
                               rrDiscardOK := False\<rparr>)) (repl s')\<rparr>)"

definition replStates :: "env \<Rightarrow> string \<Rightarrow> node \<Rightarrow> (gerr + repl_row list) \<times> node" where
  "replStates E grp s =
     (case perform E (Db Query) s of
        (Some e, s') \<Rightarrow> (Inl e, s')
      | (None, s') \<Rightarrow>
          (Inr (sort_key (\<lambda>r. (rrOut r, rrPeer r, rrPool r)) (filter (\<lambda>r. rrGroup r = grp) (repl s'))), s'))"

definition knownBy :: "env \<Rightarrow> string \<Rightarrow> string \<Rightarrow> string \<Rightarrow> node \<Rightarrow> string list \<times> node" where
  "knownBy E grp peer pool s =
     (case perform E (Db Query) s of
        (Some e, s') \<Rightarrow> ([], s')
      | (None, s') \<Rightarrow>
          (map rrSnapshot (filter (\<lambda>r. rrGroup r = grp \<and> rrPeer r = peer \<and> rrPool r = pool
              \<and> rrSnapshot r \<noteq> []) (repl s')), s'))"

section \<open>Sending\<close>

definition list_snapshots :: "env \<Rightarrow> string \<Rightarrow> node \<Rightarrow> (gerr + string list) \<times> node" where
  "list_snapshots E pool s =
     (case perform E (Zfs (ListSnapshots pool)) s of
        (Some e, s') \<Rightarrow> (Inl e, s') | (None, s') \<Rightarrow> (Inr (eSnapshots E (trace s) pool), s'))"

definition remote_snapshots ::
  "env \<Rightarrow> string \<Rightarrow> string \<Rightarrow> string \<Rightarrow> node \<Rightarrow> (gerr + string list) \<times> node" where
  "remote_snapshots E target grp pool s =
     (case perform E (Net (RemoteSnapshots target grp pool)) s of
        (Some e, s') \<Rightarrow> (Inl e, s')
      | (None, s') \<Rightarrow> (Inr (eRemoteSnapshots E (trace s) target pool), s'))"

definition sendOne ::
  "env \<Rightarrow> group \<Rightarrow> string \<Rightarrow> string \<Rightarrow> string list \<Rightarrow> string \<Rightarrow> node \<Rightarrow> (string \<times> gerr option) \<times> node" where
  "sendOne E g target pool local snap s =
     (case remote_snapshots E target (gName g) pool s of
        (Inl e, s1) \<Rightarrow> (([], Some (Wrap ''listing the snapshots of the copy'' e)), s1)
      | (Inr remote, s1) \<Rightarrow>
          (let base = latestCommon local remote in
           if base = snap then ((base, None), s1)
           else case perform E (Zfs (Send pool base snap)) s1 of
             (Some e, s2) \<Rightarrow> ((base, Some e), s2)
           | (None, s2) \<Rightarrow>
               (let (sent, s3) = perform E (Net (SendReplica target (gName g) pool (gEpoch g) base snap)) s2;
                    (waited, s4) = perform E (Zfs (SendEnd pool snap)) s3 in
                ((base, case sent of Some e \<Rightarrow> Some e | None \<Rightarrow> waited), s4))))"

text \<open>The loop over the targets: the errors, and the snapshots still needed as a base.\<close>

fun send_targets ::
  "env \<Rightarrow> group \<Rightarrow> string \<Rightarrow> string list \<Rightarrow> string \<Rightarrow> string list \<Rightarrow> node \<Rightarrow> (gerr list \<times> string list) \<times> node" where
  "send_targets E g pool local snap [] s = (([], []), s)"
| "send_targets E g pool local snap (t # ts) s =
     (let ((base, err), s1) = sendOne E g t pool local snap s;
          s2 = recordRepl E (gName g) True t pool snap err s1 in
      case err of
        None \<Rightarrow> send_targets E g pool local snap ts s2
      | Some e \<Rightarrow>
          (let (base', s3) = (if base = [] then
                  (let (kn, s') = knownBy E (gName g) t pool s2 in (latestCommon local kn, s'))
                else (base, s2));
               ((errs, needed), s4) = send_targets E g pool local snap ts s3 in
           ((Wrap t e # errs, (if base' = [] then needed else base' # needed)), s4)))"

fun destroy_all :: "env \<Rightarrow> string \<Rightarrow> string list \<Rightarrow> node \<Rightarrow> node" where
  "destroy_all E pool [] s = s"
| "destroy_all E pool (x # xs) s = destroy_all E pool xs (snd (perform E (Zfs (DestroySnapshot pool x)) s))"

definition replicate_pool ::
  "env \<Rightarrow> group \<Rightarrow> string list \<Rightarrow> pool_ref \<Rightarrow> node \<Rightarrow> gerr list \<times> node" where
  "replicate_pool E g targets p s =
     (let snap = snap_name (gEpoch g) (eNow E (trace s)) in
      case perform E (Zfs (Snapshot (pName p) snap)) s of
        (Some e, s1) \<Rightarrow> ([e], s1)
      | (None, s1) \<Rightarrow>
          (case list_snapshots E (pName p) s1 of
             (Inl e, s2) \<Rightarrow> ([e], s2)
           | (Inr local, s2) \<Rightarrow>
               (let ((errs, needed), s3) = send_targets E g (pName p) local snap targets s2 in
                (errs, destroy_all E (pName p) (pruneList local 3 (snap # needed)) s3))))"

fun replicate_pools :: "env \<Rightarrow> group \<Rightarrow> string list \<Rightarrow> pool_ref list \<Rightarrow> node \<Rightarrow> gerr list \<times> node" where
  "replicate_pools E g targets [] s = ([], s)"
| "replicate_pools E g targets (p # ps) s =
     (let (errs, s1) = replicate_pool E g targets p s;
          (rest, s2) = replicate_pools E g targets ps s1 in (errs @ rest, s2))"

definition replicate_group ::
  "env \<Rightarrow> group \<Rightarrow> string list option \<Rightarrow> node \<Rightarrow> gerr option \<times> node" where
  "replicate_group E g targets s =
     (if gTopology g \<noteq> Replicated \<or> gOwner g \<noteq> eSelf E then (Some (ReplRefused OnlyOwnerReplicates), s)
      else
        (let ts = (case targets of None \<Rightarrow> without (gCandidates g) (eSelf E) | Some ts \<Rightarrow> ts);
             (errs, s1) = replicate_pools E g ts (gPools g) s in (join_errors errs, s1)))"

definition ReplicateNow :: "env \<Rightarrow> string \<Rightarrow> node \<Rightarrow> gerr option \<times> node" where
  "ReplicateNow E name s =
     (case Get E name s of
        (Inl e, s1) \<Rightarrow> (Some e, s1) | (Inr g, s1) \<Rightarrow> replicate_group E g None s1)"

section \<open>Receiving\<close>

definition LocalSnapshots :: "env \<Rightarrow> string \<Rightarrow> string \<Rightarrow> node \<Rightarrow> (gerr + string list) \<times> node" where
  "LocalSnapshots E name pool s =
     (case Get E name s of
        (Inl e, s1) \<Rightarrow> (Inl e, s1)
      | (Inr g, s1) \<Rightarrow>
          (if \<not> HasPool g pool then (Inl (ReplRefused (PoolNotInGroup pool name)), s1)
           else list_snapshots E pool s1))"

definition ask_number :: "env \<Rightarrow> action \<Rightarrow> node \<Rightarrow> (gerr + int) \<times> node" where
  "ask_number E a s =
     (case perform E a s of (Some e, s') \<Rightarrow> (Inl e, s') | (None, s') \<Rightarrow> (Inr (eNumber E (trace s')), s'))"

definition discard_allowed :: "env \<Rightarrow> string \<Rightarrow> string \<Rightarrow> node \<Rightarrow> bool \<times> node" where
  "discard_allowed E grp pool s =
     (case perform E (Db Query) s of
        (Some e, s') \<Rightarrow> (False, s')
      | (None, s') \<Rightarrow>
          (list_ex (\<lambda>r. rrGroup r = grp \<and> \<not> rrOut r \<and> rrPool r = pool \<and> rrDiscardOK r) (repl s'), s'))"

text \<open>
  \<open>ReceiveReplica\<close>. Its first query counts what was written here since the base (an
  incremental stream) or the datasets of the copy (a full one); the other number is 0 or 1.
\<close>

definition ReceiveReplica ::
  "env \<Rightarrow> string \<Rightarrow> string \<Rightarrow> string \<Rightarrow> int \<Rightarrow> string \<Rightarrow> string \<Rightarrow> node \<Rightarrow> gerr option \<times> node" where
  "ReceiveReplica E sender name pool epoch base snap s =
     (case Get E name s of
        (Inl e, s1) \<Rightarrow> (Some e, s1)
      | (Inr g, s1) \<Rightarrow>
          (if \<not> HasPool g pool \<or> (base \<noteq> [] \<and> \<not> repl_snap_ok base) \<or> \<not> repl_snap_ok snap
           then (Some (ReplRefused InvalidPoolOrSnapshot), s1)
           else case ask_number E (Zfs (if base \<noteq> [] then Written pool base else DatasetCount pool)) s1 of
             (Inl e, s2) \<Rightarrow> (Some e, s2)
           | (Inr n, s2) \<Rightarrow>
               (let written = (if base \<noteq> [] then n else 0);
                    datasets = (if base \<noteq> [] then 1 else n);
                    (dok, s3) = discard_allowed E name pool s2 in
                case checkReceive g (eSelf E) sender epoch base written datasets dok of
                  Some r \<Rightarrow>
                    (Some (ReplRefused r), recordRepl E name False sender pool [] (Some (ReplRefused r)) s3)
                | None \<Rightarrow>
                    (case perform E (Zfs (Recv pool)) s3 of
                       (Some e, s4) \<Rightarrow> (Some e, recordRepl E name False sender pool [] (Some e) s4)
                     | (None, s4) \<Rightarrow> (None, recordRepl E name False sender pool snap None s4)))))"

section \<open>Facts about the helpers\<close>

lemma newest_in_prefix:
  "newest_in xs remote \<noteq> [] \<Longrightarrow>
     \<exists>us vs. xs = us @ newest_in xs remote # vs \<and> newest_in xs remote \<in> set remote \<and> set us \<inter> set remote = {}"
proof (induction xs)
  case Nil
  then show ?case by simp
next
  case (Cons x xs)
  show ?case
  proof (cases "x \<in> set remote")
    case True
    then show ?thesis by (intro exI [of _ "[]"] exI [of _ xs]) simp
  next
    case False
    with Cons obtain us vs where "xs = us @ newest_in xs remote # vs"
      "newest_in xs remote \<in> set remote" "set us \<inter> set remote = {}" by auto
    with False show ?thesis by (intro exI [of _ "x # us"] exI [of _ vs]) auto
  qed
qed

lemma newest_in_empty: "newest_in xs remote = [] \<Longrightarrow> x \<in> set xs \<Longrightarrow> [] \<notin> set xs \<Longrightarrow> x \<notin> set remote"
  by (induction xs) (auto split: if_splits)

lemma latestCommon_split:
  assumes "latestCommon local remote = b" and "b \<noteq> []"
  shows "\<exists>older newer. local = older @ b # newer \<and> b \<in> set remote \<and> set newer \<inter> set remote = {}"
proof -
  from assms obtain us vs where r: "rev local = us @ b # vs" "b \<in> set remote" "set us \<inter> set remote = {}"
    using newest_in_prefix [of "rev local" remote] by (auto simp: latestCommon_def)
  then have "local = rev vs @ b # rev us" by (metis append.assoc append_Cons append_Nil rev.simps(2) rev_append rev_rev_ident)
  with r show ?thesis by (intro exI [of _ "rev vs"] exI [of _ "rev us"]) simp
qed

lemma prune_from_eq:
  "prune_from i n keep needed ss =
     map snd (filter (\<lambda>(j, s). j + keep < n \<and> s \<notin> set needed) (enumerate i ss))"
  by (induction i n keep needed ss rule: prune_from.induct) (auto simp: not_le)

lemma prune_from_take:
  "prune_from i n keep needed ss = filter (\<lambda>s. s \<notin> set needed) (take (n - keep - i) ss)"
proof (induction i n keep needed ss rule: prune_from.induct)
  case (1 i n keep needed)
  then show ?case by simp
next
  case (2 i n keep needed s ss)
  show ?case
  proof (cases "i + keep < n")
    case True
    then have "n - keep - i = Suc (n - keep - Suc i)" by simp
    with True 2 show ?thesis by auto
  next
    case False
    then have "n - keep - i = 0" and "n - keep - Suc i = 0" by simp_all
    with False 2 show ?thesis by simp
  qed
qed

lemma pruneList_eq:
  "pruneList local keep needed = filter (\<lambda>s. s \<notin> set needed) (take (length local - keep) local)"
  by (simp add: pruneList_def prune_from_take)

lemma checkReceive_None:
  "checkReceive g self sender epoch base written datasets discardOK = None \<longleftrightarrow>
     gTopology g = Replicated \<and> gOwner g \<noteq> self \<and> epoch = gEpoch g \<and> gOwner g = sender \<and>
     (discardOK \<or> (if base \<noteq> [] then written \<le> 0 else datasets \<le> 1))"
  by (auto simp: checkReceive_def)

section \<open>What replication never touches\<close>

text \<open>Replication changes no group and imports or exports nothing; it does change its records.\<close>

definition same_groups :: "node \<Rightarrow> node \<Rightarrow> bool" where
  "same_groups s t \<longleftrightarrow> groups t = groups s \<and> moving t = moving s \<and> maint t = maint s"

lemma same_groups_refl [only_intros]: "same_groups s s"
  by (simp add: same_groups_def)

lemma same_groups_only: "only P t u \<Longrightarrow> same_groups s t \<Longrightarrow> same_groups s u"
  by (simp add: same_groups_def only_def)

lemma same_groups_perform [only_intros]: "same_groups s t \<Longrightarrow> same_groups s (snd (perform E a t))"
  by (simp add: same_groups_def perform_def)

lemma same_groups_repl [simp]: "same_groups s (t\<lparr>repl := r\<rparr>) = same_groups s t"
  by (simp add: same_groups_def)

lemma same_groups_calls [only_intros]:
  assumes "same_groups s t"
  shows "same_groups s (snd (Get E n t))" "same_groups s (snd (list_snapshots E pool t))"
    "same_groups s (snd (remote_snapshots E tg n pool t))" "same_groups s (snd (knownBy E n tg pool t))"
    "same_groups s (recordRepl E n out tg pool snap err t)" "same_groups s (snd (ask_number E a t))"
    "same_groups s (snd (discard_allowed E n pool t))"
  using assms
  by (auto simp: Get_def list_snapshots_def remote_snapshots_def knownBy_def recordRepl_def ask_number_def
      discard_allowed_def split_beta split: option.splits intro!: only_intros)

lemma same_groups_sendOne [only_intros]:
  "same_groups s t \<Longrightarrow> same_groups s (snd (sendOne E g tg pool loc snap t))"
  by (auto simp: sendOne_def split_beta Let_def split: sum.splits option.splits intro!: only_intros)

lemma same_groups_send_targets [only_intros]:
  "same_groups s t \<Longrightarrow> same_groups s (snd (send_targets E g pool loc snap ts t))"
proof (induction ts arbitrary: t)
  case Nil
  then show ?case by simp
next
  case (Cons x ts)
  show ?case
    using Cons.prems
    by (simp add: split_beta Let_def split: option.split)
      (intro conjI impI allI Cons.IH only_intros; simp)
qed

lemma same_groups_destroy_all [only_intros]:
  "same_groups s t \<Longrightarrow> same_groups s (destroy_all E pool xs t)"
  by (induction xs arbitrary: t) (auto intro!: only_intros)

lemma same_groups_replicate_pool [only_intros]:
  "same_groups s t \<Longrightarrow> same_groups s (snd (replicate_pool E g ts p t))"
  by (auto simp: replicate_pool_def split_beta Let_def split: sum.splits option.splits intro!: only_intros)

lemma same_groups_replicate_pools [only_intros]:
  "same_groups s t \<Longrightarrow> same_groups s (snd (replicate_pools E g ts ps t))"
proof (induction ps arbitrary: t)
  case Nil
  then show ?case by simp
next
  case (Cons p ps)
  show ?case
    using Cons.prems by (simp add: split_beta Let_def) (intro Cons.IH only_intros; simp)
qed

lemma same_groups_replicate [only_intros]:
  "same_groups s t \<Longrightarrow> same_groups s (snd (replicate_group E g ts t))"
  by (auto simp: replicate_group_def split_beta Let_def intro!: only_intros)

lemma same_groups_ReceiveReplica: "same_groups s (snd (ReceiveReplica E sender n pool ep base snap s))"
  by (auto simp: ReceiveReplica_def split_beta Let_def split: sum.splits option.splits intro!: only_intros)

section \<open>What the sender keeps\<close>

text \<open>
  The base of an incremental replication is the newest snapshot both sides have: no snapshot
  taken later is on the other side; there is no base exactly when the sides share nothing.
\<close>

theorem latestCommon_newest:
  assumes "[] \<notin> set local"
  shows "if latestCommon local remote = [] then set local \<inter> set remote = {}
     else \<exists>older newer. local = older @ latestCommon local remote # newer \<and>
       latestCommon local remote \<in> set remote \<and> set newer \<inter> set remote = {}"
proof (cases "latestCommon local remote = []")
  case True
  then show ?thesis using newest_in_empty [of "rev local" remote] assms by (auto simp: latestCommon_def)
next
  case False
  then show ?thesis using latestCommon_split [OF refl] by simp
qed

lemma latestCommon_newest_witness:
  "\<exists>older newer. [''s1'', ''s2'', ''s3''] = older @ latestCommon [''s1'', ''s2'', ''s3''] [''s0'', ''s2''] # newer \<and>
     latestCommon [''s1'', ''s2'', ''s3''] [''s0'', ''s2''] \<in> set [''s0'', ''s2''] \<and>
     set newer \<inter> set [''s0'', ''s2''] = {}"
proof -
  have "latestCommon [''s1'', ''s2'', ''s3''] [''s0'', ''s2''] \<noteq> []" by (simp add: latestCommon_def)
  then show ?thesis
    using latestCommon_newest [of "[''s1'', ''s2'', ''s3'']" "[''s0'', ''s2'']"] by simp
qed

text \<open>
  Pruning destroys a snapshot only if it is not among the newest that are kept and no copy needs
  it as its base; it destroys every other one.
\<close>

theorem pruneList_spec:
  assumes "distinct local"
  shows "x \<in> set (pruneList local keep needed) \<longleftrightarrow>
     x \<in> set local \<and> x \<notin> set needed \<and> x \<notin> set (drop (length local - keep) local)"
proof -
  let ?old = "take (length local - keep) local" and ?new = "drop (length local - keep) local"
  have "distinct (?old @ ?new)" using assms by simp
  then have "set ?old \<inter> set ?new = {}" unfolding distinct_append by blast
  moreover have "set local = set ?old \<union> set ?new" by (metis append_take_drop_id set_append)
  ultimately show ?thesis by (auto simp: pruneList_eq)
qed

lemma pruneList_spec_witness:
  "''s1'' \<in> set (pruneList [''s1'', ''s2'', ''s3'', ''s4'', ''s5''] 3 [''s2''])"
  by (subst pruneList_spec) simp_all

section \<open>Who may replace a copy\<close>

lemma repl_calls_trace:
  "trace (recordRepl E n out tg pool snap err s) = trace s @ [Db (RecordRepl n (direction out) tg pool)]"
  "trace (snd (ask_number E a s)) = trace s @ [a]"
  "trace (snd (discard_allowed E n pool s)) = trace s @ [Db Query]"
  by (auto simp: recordRepl_def ask_number_def discard_allowed_def perform_def split: option.splits)

lemma discard_allowed_row:
  "fst (discard_allowed E n pool s) \<Longrightarrow>
     \<exists>r \<in> set (repl s). rrGroup r = n \<and> \<not> rrOut r \<and> rrPool r = pool \<and> rrDiscardOK r"
  by (auto simp: discard_allowed_def perform_def list_ex_iff split: option.splits)

lemma repl_frames [simp]:
  "repl (snd (Get E n s)) = repl s" "repl (snd (ask_number E a s)) = repl s"
  "repl (snd (discard_allowed E n pool s)) = repl s" "repl (snd (perform E a s)) = repl s"
  by (auto simp: Get_def ask_number_def discard_allowed_def perform_def split: option.splits)

lemma Recv_reached:
  assumes "Zfs (Recv p) \<in> set (drop (length (trace s)) (trace (snd (ReceiveReplica E sender name pool epoch base snap s))))"
  obtains g n s1 s2 s3 dok where "Get E name s = (Inr g, s1)" and "HasPool g pool" and "repl_snap_ok snap"
    and "base = [] \<or> repl_snap_ok base" and "p = pool"
    and "ask_number E (Zfs (if base \<noteq> [] then Written pool base else DatasetCount pool)) s1 = (Inr n, s2)"
    and "discard_allowed E name pool s2 = (dok, s3)"
    and "checkReceive g (eSelf E) sender epoch base (if base \<noteq> [] then n else 0) (if base \<noteq> [] then 1 else n) dok = None"
proof -
  obtain r s1 where G: "Get E name s = (r, s1)" by fastforce
  have t1: "trace s1 = trace s @ [Db Query]" using Get_frame(3) [of E name s] G by simp
  show thesis
  proof (cases r)
    case (Inl e)
    with assms G t1 show thesis by (simp add: ReceiveReplica_def)
  next
    case (Inr g)
    let ?a = "Zfs (if base \<noteq> [] then Written pool base else DatasetCount pool)"
    obtain q s2 where A: "ask_number E ?a s1 = (q, s2)" by fastforce
    have t2: "trace s2 = trace s1 @ [?a]" using repl_calls_trace(2) [of E ?a s1] A by simp
    obtain dok s3 where D: "discard_allowed E name pool s2 = (dok, s3)" by fastforce
    have t3: "trace s3 = trace s2 @ [Db Query]" using repl_calls_trace(3) [of E name pool s2] D by simp
    show thesis
    proof (rule that [OF G [unfolded Inr]])
      show "HasPool g pool" "repl_snap_ok snap" "base = [] \<or> repl_snap_ok base"
        using assms G Inr t1 by (auto simp: ReceiveReplica_def simp del: HasPool_iff split: if_splits)
      from assms G Inr t1 A t2 D t3
      show "p = pool" "ask_number E ?a s1 = (Inr (case q of Inr n \<Rightarrow> n | Inl _ \<Rightarrow> 0), s2)"
        "discard_allowed E name pool s2 = (dok, s3)"
        "checkReceive g (eSelf E) sender epoch base (if base \<noteq> [] then (case q of Inr n \<Rightarrow> n | Inl _ \<Rightarrow> 0) else 0)
          (if base \<noteq> [] then 1 else (case q of Inr n \<Rightarrow> n | Inl _ \<Rightarrow> 0)) dok = None"
        by (auto simp: ReceiveReplica_def Let_def repl_calls_trace split_beta simp del: HasPool_iff
            split: if_splits sum.splits option.splits)
    qed
  qed
qed

text \<open>
  C4. A stream replaces a copy only when it comes from the owner of a replicated group at exactly the
  epoch stored here, this node is not the owner, and nothing is lost by it: the operator allowed
  discarding this copy, or zfs, asked in this call, answered that nothing was written to this pool since the
  base of the stream (an incremental one) or that the pool has no dataset of its own (a full one). The answer is the
  environment's number for the trace that ends in this question.
\<close>

theorem receive_authorised:
  assumes "Zfs (Recv p) \<in> set (drop (length (trace s))
      (trace (snd (ReceiveReplica E sender name pool epoch base snap s))))"
  shows "\<exists>g n. row gName (groups s) name = Some g \<and> p = pool \<and> HasPool g pool \<and>
     gTopology g = Replicated \<and> gOwner g = sender \<and> sender \<noteq> eSelf E \<and> epoch = gEpoch g \<and>
     repl_snap_ok snap \<and> (base = [] \<or> repl_snap_ok base) \<and>
     n = eNumber E (trace s @ [Db Query, Zfs (if base \<noteq> [] then Written pool base else DatasetCount pool)]) \<and>
     ((\<exists>r \<in> set (repl s). rrGroup r = name \<and> \<not> rrOut r \<and> rrPool r = pool \<and> rrDiscardOK r) \<or>
      (if base \<noteq> [] then n \<le> 0 else n \<le> 1))"
  using assms
proof (rule Recv_reached)
  fix g n s1 s2 s3 dok
  assume G: "Get E name s = (Inr g, s1)" and A: "ask_number E (Zfs (if base \<noteq> [] then Written pool base
      else DatasetCount pool)) s1 = (Inr n, s2)" and D: "discard_allowed E name pool s2 = (dok, s3)"
    and C: "checkReceive g (eSelf E) sender epoch base (if base \<noteq> [] then n else 0)
      (if base \<noteq> [] then 1 else n) dok = None"
    and ok: "HasPool g pool" "repl_snap_ok snap" "base = [] \<or> repl_snap_ok base" "p = pool"
  have t1: "trace s1 = trace s @ [Db Query]" and r1: "repl s1 = repl s"
    using Get_frame(3) [of E name s] repl_frames(1) [of E name s] G by simp_all
  have n: "n = eNumber E (trace s1 @ [Zfs (if base \<noteq> [] then Written pool base else DatasetCount pool)])"
    using A by (auto simp: ask_number_def perform_def split: option.splits)
  have r2: "repl s2 = repl s" using repl_frames(2) [of E _ s1] A r1 by (metis snd_conv)
  have "dok \<longrightarrow> (\<exists>r \<in> set (repl s). rrGroup r = name \<and> \<not> rrOut r \<and> rrPool r = pool \<and> rrDiscardOK r)"
    using discard_allowed_row [of E name pool s2] D r2 by simp
  with C [unfolded checkReceive_None] ok Get_InrD [OF G] n t1 show ?thesis
    by (auto split: if_splits)
qed

definition sample_copy :: "string \<Rightarrow> int \<Rightarrow> group" where
  "sample_copy owner epoch = (sample_group owner epoch)\<lparr>gTopology := Replicated, gPools := [\<lparr>pName = ''tank'', pGUID = []\<rparr>]\<rparr>"

lemma sample_copy_sel [simp]:
  "gName (sample_copy owner epoch) = ''g''" "gTopology (sample_copy owner epoch) = Replicated"
  "gPools (sample_copy owner epoch) = [\<lparr>pName = ''tank'', pGUID = []\<rparr>]" "gOwner (sample_copy owner epoch) = owner"
  "gEpoch (sample_copy owner epoch) = epoch" "gCandidates (sample_copy owner epoch) = [''a'', ''b'']"
  "gAddress (sample_copy owner epoch) = []" "gInterface (sample_copy owner epoch) = []"
  by (simp_all add: sample_copy_def)

lemma sample_snap [simp]: "repl_snap_ok ''dplane-1-7''"
  by (simp add: repl_snap_ok_def is_digit_def digit_chars_def)

lemma receive_authorised_witness:
  "\<exists>g. row gName (groups (sample_node [sample_copy ''a'' 1])) ''g'' = Some g \<and> gOwner g = ''a'' \<and> gEpoch g = 1"
  using receive_authorised [of "''tank''" "sample_node [sample_copy ''a'' 1]"
      "sample_env ''b'' [] [''a''] (\<lambda>a. None)" "''a''" "''g''" "''tank''" 1 "[]" "''dplane-1-7''"]
  by (simp add: ReceiveReplica_def Get_def perform_def row_Cons ask_number_def discard_allowed_def checkReceive_def
      recordRepl_def Let_def)

section \<open>A discard is not used up by another owner's stream\<close>

lemma upsert_repl_other:
  "r \<in> set rs \<Longrightarrow> \<not> same_direction n out peer pool r \<Longrightarrow> r \<in> set (upsert_repl n out peer pool f rs)"
  by (induction rs) auto

lemma recordRepl_other:
  "r \<in> set (repl s) \<Longrightarrow> \<not> same_direction n out peer pool r \<Longrightarrow> r \<in> set (repl (recordRepl E n out peer pool snap err s))"
  by (auto simp: recordRepl_def perform_def upsert_repl_other split: option.splits)

text \<open>
  Permission to discard is recorded for the owner at that time, but any owner's stream may use it
  and only a stream of that first owner uses it up: after an owner change the permission is still
  there after every stream of the new owner.
\<close>

theorem discard_outlives_owner_change:
  assumes "r \<in> set (repl s)" and "rrDiscardOK r" and "rrPeer r \<noteq> sender"
  shows "r \<in> set (repl (snd (ReceiveReplica E sender name pool epoch base snap s)))"
proof -
  have "\<not> same_direction name False sender pool r" using assms(3) by (simp add: same_direction_def)
  then show ?thesis using assms(1)
    by (simp add: ReceiveReplica_def split_beta Let_def recordRepl_other split: sum.split option.split)
qed

text \<open>Allowed for owner \<open>a\<close>; owner \<open>b\<close> replicates over local changes again and again.\<close>

lemma discard_outlives_owner_change_witness:
  "new_repl_row ''g'' False ''a'' ''tank''\<lparr>rrDiscardOK := True\<rparr> \<in>
     set (repl (snd (ReceiveReplica (sample_env ''c'' [] [''b''] (\<lambda>a. None)) ''b'' ''g'' ''tank'' 2 [] ''dplane-1-7''
       (sample_node [sample_copy ''b'' 2]\<lparr>repl := [new_repl_row ''g'' False ''a'' ''tank''\<lparr>rrDiscardOK := True\<rparr>]\<rparr>))))"
  by (rule discard_outlives_owner_change) (simp_all add: new_repl_row_def)

end
