(* ===== verification/Register.thy ===== *)
theory Register
  imports Prelude
begin

text \<open>
  Registers that accept updates by stamp: the contract between the tables of groups and the
  operations that offer them an update from another member. A monotone register never replaces
  a value by one that is not newer. A reliable one also takes every good update that is newer;
  then what it holds depends only on which updates were offered, not on their order or number.
\<close>

locale monotone_register =
  fixes offer :: "'u \<Rightarrow> 's \<Rightarrow> 's"
    and holds :: "'s \<Rightarrow> 'k \<Rightarrow> 'u option"
    and key :: "'u \<Rightarrow> 'k"
    and stamp :: "'u \<Rightarrow> 't::linorder"
  assumes other: "k \<noteq> key u \<Longrightarrow> holds (offer u s) k = holds s k"
    and result: "holds (offer u s) (key u) = holds s (key u) \<or>
       (\<exists>c. holds (offer u s) (key u) = Some c \<and> stamp c = stamp u)"
    and older: "holds s (key u) = Some c \<Longrightarrow> \<not> stamp c < stamp u \<Longrightarrow> holds (offer u s) (key u) = Some c"
begin

lemma offer_mono:
  assumes "holds s k = Some c"
  shows "\<exists>d. holds (offer u s) k = Some d \<and> stamp c \<le> stamp d"
proof (cases "k = key u")
  case True
  then show ?thesis using assms result [of u s] older [of s u c] by (cases "stamp c < stamp u") auto
qed (use assms other in auto)

lemma fold_mono:
  "holds s k = Some c \<Longrightarrow> \<exists>d. holds (fold offer us s) k = Some d \<and> stamp c \<le> stamp d"
proof (induction us arbitrary: s c)
  case (Cons u us)
  obtain d where d: "holds (offer u s) k = Some d" "stamp c \<le> stamp d" using offer_mono [OF Cons.prems] by blast
  obtain e where "holds (fold offer us (offer u s)) k = Some e" "stamp d \<le> stamp e" using Cons.IH [OF d(1)] by blast
  with d show ?case by auto
qed auto

end

locale reliable_register = monotone_register offer holds key stamp
  for offer :: "'u \<Rightarrow> 's \<Rightarrow> 's" and holds :: "'s \<Rightarrow> 'k \<Rightarrow> 'u option" and key :: "'u \<Rightarrow> 'k"
    and stamp :: "'u \<Rightarrow> 't::linorder" +
  fixes good :: "'u \<Rightarrow> bool"
    and core :: "'u \<Rightarrow> 'c"
  assumes newer: "good u \<Longrightarrow> (\<forall>c. holds s (key u) = Some c \<longrightarrow> stamp c < stamp u) \<Longrightarrow>
      \<exists>c. holds (offer u s) (key u) = Some c \<and> core c = core u"
    and core_stamp: "core c = core u \<Longrightarrow> stamp c = stamp u"
begin

text \<open>What a register holds after updates: the newest of them, or what it held before if that is no older.\<close>

definition newest :: "'u list \<Rightarrow> 's \<Rightarrow> 'k \<Rightarrow> 'u option \<Rightarrow> bool" where
  "newest us s k v \<longleftrightarrow>
     (case v of
        None \<Rightarrow> holds s k = None \<and> (\<forall>u \<in> set us. key u \<noteq> k)
      | Some c \<Rightarrow> (holds s k = Some c \<or> (\<exists>u \<in> set us. key u = k \<and> core c = core u)) \<and>
          (\<forall>u \<in> set us. key u = k \<longrightarrow> stamp u \<le> stamp c) \<and> (\<forall>d. holds s k = Some d \<longrightarrow> stamp d \<le> stamp c))"

lemma offer_newest:
  assumes "good u" shows "newest [u] s k (holds (offer u s) k)"
proof (cases "k = key u \<and> (\<forall>c. holds s k = Some c \<longrightarrow> stamp c < stamp u)")
  case True
  then obtain c where "holds (offer u s) k = Some c" "core c = core u" using newer [OF assms, of s] by auto
  then show ?thesis using True core_stamp [of c u] by (auto simp: newest_def)
next
  case False
  show ?thesis
  proof (cases "k = key u")
    case True
    with False obtain c where "holds s k = Some c" "\<not> stamp c < stamp u" by auto
    with True older [of s u c] show ?thesis by (auto simp: newest_def)
  qed (auto simp: newest_def other split: option.split)
qed

lemma newest_None: "newest us s k None \<longleftrightarrow> holds s k = None \<and> (\<forall>u \<in> set us. key u \<noteq> k)"
  by (simp add: newest_def)

lemma newest_Some:
  "newest us s k (Some c) \<longleftrightarrow>
     (holds s k = Some c \<or> (\<exists>u \<in> set us. key u = k \<and> core c = core u)) \<and>
     (\<forall>u \<in> set us. key u = k \<longrightarrow> stamp u \<le> stamp c) \<and> (\<forall>d. holds s k = Some d \<longrightarrow> stamp d \<le> stamp c)"
  by (simp add: newest_def)

lemma newest_trans:
  assumes st: "newest us s k (holds t k)" and tv: "newest vs t k v" shows "newest (us @ vs) s k v"
proof (cases v)
  case None
  with tv have t: "holds t k = None" and vs: "\<forall>u \<in> set vs. key u \<noteq> k" by (simp_all add: newest_None)
  from st [unfolded t newest_None] None vs show ?thesis by (auto simp: newest_None)
next
  case (Some d)
  show ?thesis
  proof (cases "holds t k")
    case None
    from st [unfolded None newest_None] tv [unfolded Some newest_Some] None
    show ?thesis unfolding Some newest_Some by auto
  next
    case (Some c)
    have le: "stamp c \<le> stamp d" using tv Some \<open>v = Some d\<close> by (simp add: newest_Some)
    from st [unfolded Some newest_Some] tv [unfolded \<open>v = Some d\<close> newest_Some Some] le
    have top: "\<forall>u \<in> set us. key u = k \<longrightarrow> stamp u \<le> stamp d" "\<forall>e. holds s k = Some e \<longrightarrow> stamp e \<le> stamp d"
      using order_trans [OF _ le] by blast+
    with st [unfolded Some newest_Some] tv [unfolded \<open>v = Some d\<close> newest_Some Some]
    show ?thesis unfolding \<open>v = Some d\<close> newest_Some set_append by (intro conjI) auto
  qed
qed

lemma fold_newest:
  "\<forall>u \<in> set us. good u \<Longrightarrow> newest us s k (holds (fold offer us s) k)"
proof (induction us arbitrary: s)
  case Nil
  then show ?case by (auto simp: newest_def split: option.split)
next
  case (Cons u us)
  then have "newest us (offer u s) k (holds (fold offer us (offer u s)) k)" by simp
  then show ?case using newest_trans [OF offer_newest [of u s k]] Cons.prems by simp
qed

lemma newest_empty_unique:
  assumes "holds s k = None" and "holds t k = None" and "set us = set vs"
    and "\<forall>u \<in> set us. \<forall>v \<in> set us. key u = key v \<longrightarrow> stamp u = stamp v \<longrightarrow> core u = core v"
    and "newest us s k x" and "newest vs t k y"
  shows "map_option core x = map_option core y"
proof (cases x)
  case None
  then have "\<forall>u \<in> set vs. key u \<noteq> k" using assms(3,5) by (simp add: newest_None)
  with assms(2,6) have "y = None" by (cases y) (auto simp: newest_Some)
  with None show ?thesis by simp
next
  case (Some c)
  note x = assms(5) [unfolded Some newest_Some assms(1)]
  then obtain u where u: "u \<in> set us" "key u = k" "core c = core u" by auto
  obtain d where y: "y = Some d"
    using u assms(3,6) by (cases y) (auto simp: newest_None)
  note y' = assms(6) [unfolded y newest_Some assms(2)]
  then obtain v where v: "v \<in> set us" "key v = k" "core d = core v" using assms(3) by auto
  have "stamp v \<le> stamp c" "stamp u \<le> stamp d" using x y' u v assms(3) by blast+
  then have st: "stamp u = stamp v" using core_stamp [OF u(3)] core_stamp [OF v(3)] by simp
  have "key u = key v" using u(2) v(2) by simp
  then have "core u = core v" using assms(4) [rule_format, OF u(1) v(1)] st by blast
  with u v Some y show ?thesis by simp
qed

text \<open>Two registers that were offered the same updates, in any order and number, agree.\<close>

lemma converge:
  assumes "\<forall>k. holds s k = None" and "\<forall>k. holds t k = None" and "set us = set vs"
    and "\<forall>u \<in> set us. good u"
    and "\<forall>u \<in> set us. \<forall>v \<in> set us. key u = key v \<longrightarrow> stamp u = stamp v \<longrightarrow> core u = core v"
  shows "map_option core (holds (fold offer us s) k) = map_option core (holds (fold offer vs t) k)"
  using newest_empty_unique [OF _ _ assms(3,5) fold_newest fold_newest] assms by simp

end

end
