(* ===== verification/Ownership.thy ===== *)
theory Ownership
  imports Replication Register
begin

text \<open>
  Changing the owner of a group on purpose (\<open>internal/groups/ops.go\<close>, \<open>replicate.go\<close>,
  \<open>address.go\<close>): creating and removing a group, moving it to another candidate, adopting an
  update from another member, and asking whether a pool may be written.
\<close>

section \<open>Writing a pool\<close>

datatype write_refusal =
    ReadFailed gerr | OwnerChanging string string | OwnedElsewhere string string int | Faulty "problem list"

definition CanWritePool :: "env \<Rightarrow> string \<Rightarrow> node \<Rightarrow> write_refusal option \<times> node" where
  "CanWritePool E pool s =
     (case ForPool E pool s of
        (Inl e, s1) \<Rightarrow> (Some (ReadFailed e), s1)
      | (Inr None, s1) \<Rightarrow> (None, s1)
      | (Inr (Some g), s1) \<Rightarrow>
          (case currentView E s1 of
             (Inl e, s2) \<Rightarrow> (Some (ReadFailed e), s2)
           | (Inr v, s2) \<Rightarrow>
               (let st = Evaluate g v in
                if sCanWrite st then (None, s2)
                else if sChanging st then (Some (OwnerChanging pool (gName g)), s2)
                else if sRole st \<noteq> RoleOwner then (Some (OwnedElsewhere pool (gName g) (gEpoch g)), s2)
                else (Some (Faulty (sProblems st)), s2))))"

section \<open>Telling the other candidates\<close>

fun push_to :: "env \<Rightarrow> group \<Rightarrow> string list \<Rightarrow> string list \<Rightarrow> node \<Rightarrow> gerr list \<times> node" where
  "push_to E g skip [] s = ([], s)"
| "push_to E g skip (n # ns) s =
     (if n = eSelf E \<or> contains skip n then push_to E g skip ns s
      else
        (let (r, s1) = perform E (Net (Push n g False)) s; (errs, s2) = push_to E g skip ns s1 in
         ((case r of None \<Rightarrow> errs | Some e \<Rightarrow> Wrap n e # errs), s2)))"

definition pushAll :: "env \<Rightarrow> group \<Rightarrow> string list \<Rightarrow> node \<Rightarrow> gerr list \<times> node" where
  "pushAll E g skip s = push_to E g skip (gCandidates g) s"

section \<open>Creating and removing\<close>

text \<open>The loop over the requested pools: each must be imported here and free.\<close>

fun claim_pools ::
  "env \<Rightarrow> string \<Rightarrow> (string \<times> string) list \<Rightarrow> string list \<Rightarrow> node \<Rightarrow> (gerr + pool_ref list) \<times> node" where
  "claim_pools E topology imported [] s = (Inr [], s)"
| "claim_pools E topology imported (p # ps) s =
     (case map_of imported p of
        None \<Rightarrow> (Inl (Refused (PoolNotImported p)), s)
      | Some guid \<Rightarrow>
          (let (other, s1) = ForPool E p s in
           case other of
             Inr (Some o') \<Rightarrow> (Inl (Refused (PoolInGroup p (gName o'))), s1)
           | _ \<Rightarrow>
               (case claim_pools E topology imported ps s1 of
                  (Inl e, s2) \<Rightarrow> (Inl e, s2)
                | (Inr refs, s2) \<Rightarrow>
                    (Inr (\<lparr>pName = p, pGUID = (if topology = Replicated then [] else guid)\<rparr> # refs), s2))))"

fun first_missing :: "string list \<Rightarrow> string list \<Rightarrow> string option" where
  "first_missing members [] = None"
| "first_missing members (c # cs) = (if \<not> contains members c then Some c else first_missing members cs)"

text \<open>
  From the validation on. The second result is the group, also with an error when it was stored
  here but not pushed everywhere.
\<close>

definition store_new :: "env \<Rightarrow> group \<Rightarrow> node \<Rightarrow> (gerr option \<times> group option) \<times> node" where
  "store_new E g s =
     (case Validate g of
        Some e \<Rightarrow> ((Some e, None), s)
      | None \<Rightarrow>
          (case (if gTopology g \<noteq> Standalone
                 then first_missing (eMembers E (trace s)) (gCandidates g) else None) of
             Some c \<Rightarrow> ((Some (Refused (NotMember c)), None), s)
           | None \<Rightarrow>
               (case put E g s of
                  (Some e, s1) \<Rightarrow> ((Some e, None), s1)
                | (None, s1) \<Rightarrow>
                    (let (errs, s2) = pushAll E g [] s1 in ((join_errors errs, Some g), s2)))))"

definition CreateWith ::
  "env \<Rightarrow> string \<Rightarrow> string \<Rightarrow> string list \<Rightarrow> string list \<Rightarrow> int \<Rightarrow> bool \<Rightarrow> node
     \<Rightarrow> (gerr option \<times> group option) \<times> node" where
  "CreateWith E name topology pools candidates intervalSecs autoFailover s =
     (case Get E name s of
        (Inr _, s1) \<Rightarrow> ((Some (Refused (GroupExists name)), None), s1)
      | (Inl _, s1) \<Rightarrow>
          (case importedPools E s1 of
             (Inl e, s2) \<Rightarrow> ((Some e, None), s2)
           | (Inr imported, s2) \<Rightarrow>
               (case claim_pools E topology imported pools s2 of
                  (Inl e, s3) \<Rightarrow> ((Some e, None), s3)
                | (Inr refs, s3) \<Rightarrow>
                    store_new E
                      \<lparr>gName = name, gTopology = topology, gPools = refs,
                       gCandidates = eSelf E # without candidates (eSelf E), gOwner = eSelf E,
                       gEpoch = 1, gVersion = 1, gUpdatedAt = eNow E (trace s2), gUpdatedBy = eSelf E,
                       gIntervalSecs = (if intervalSecs \<le> 0 then 300 else intervalSecs),
                       gAutoFailover = autoFailover, gAddress = [], gInterface = []\<rparr> s3)))"

fun push_removal :: "env \<Rightarrow> group \<Rightarrow> string list \<Rightarrow> node \<Rightarrow> gerr list \<times> node" where
  "push_removal E g [] s = ([], s)"
| "push_removal E g (n # ns) s =
     (if n \<noteq> eSelf E then
        (let (r, s1) = perform E (Net (Push n g True)) s; (errs, s2) = push_removal E g ns s1 in
         ((case r of None \<Rightarrow> errs | Some e \<Rightarrow> Wrap n e # errs), s2))
      else push_removal E g ns s)"

definition RemoveGroup :: "env \<Rightarrow> string \<Rightarrow> node \<Rightarrow> gerr option \<times> node" where
  "RemoveGroup E name s =
     (case Get E name s of
        (Inl e, s1) \<Rightarrow> (Some e, s1)
      | (Inr g, s1) \<Rightarrow>
          (let (errs, s2) = push_removal E g (gCandidates g) s1 in
           case Remove E name s2 of
             (Some e, s3) \<Rightarrow> (Some e, s3)
           | (None, s3) \<Rightarrow> (join_errors errs, s3)))"

section \<open>Moving\<close>

fun giveBack :: "env \<Rightarrow> pool_ref list \<Rightarrow> string \<Rightarrow> node \<Rightarrow> gerr list \<times> node" where
  "giveBack E [] at s = ([], s)"
| "giveBack E (p # ps) at s =
     (let (r, s1) = perform E (Zpool (Export (pName p))) s; (errs, s2) = giveBack E ps at s1 in
      ((case r of None \<Rightarrow> errs | Some e \<Rightarrow> StaysImported (pName p) at e # errs), s2))"

fun reimport :: "env \<Rightarrow> pool_ref list \<Rightarrow> node \<Rightarrow> gerr list \<times> node" where
  "reimport E [] s = ([], s)"
| "reimport E (p # ps) s =
     (let (r, s1) = perform E (Zpool (Import (pGUID p))) s; (errs, s2) = reimport E ps s1 in
      ((case r of None \<Rightarrow> errs | Some e \<Rightarrow> Wrap (pName p) e # errs), s2))"

text \<open>Exports until one fails; \<open>ex\<close> are the pools exported before.\<close>

fun export_pools ::
  "env \<Rightarrow> pool_ref list \<Rightarrow> pool_ref list \<Rightarrow> node
     \<Rightarrow> ((pool_ref \<times> gerr \<times> pool_ref list) + pool_ref list) \<times> node" where
  "export_pools E ex [] s = (Inr ex, s)"
| "export_pools E ex (p # ps) s =
     (case perform E (Zpool (Export (pName p))) s of
        (Some e, s1) \<Rightarrow> (Inl (p, e, ex), s1)
      | (None, s1) \<Rightarrow> export_pools E (ex @ [p]) ps s1)"

definition handed_to :: "env \<Rightarrow> string \<Rightarrow> group \<Rightarrow> node \<Rightarrow> group" where
  "handed_to E target g s =
     g\<lparr>gOwner := target, gEpoch := int64 (gEpoch g + 1), gUpdatedAt := eNow E (trace s),
       gUpdatedBy := eSelf E\<rparr>"

definition activate_soon :: "env \<Rightarrow> node \<Rightarrow> node" where
  "activate_soon E s = snd (perform E ActivateSoon s)"

text \<open>The target has taken over: store the new owner and tell the other candidates.\<close>

definition moved ::
  "env \<Rightarrow> group \<Rightarrow> string \<Rightarrow> node \<Rightarrow> (gerr + group \<times> gerr list) \<times> node" where
  "moved E ng target s =
     (case put E ng s of
        (Some e, s1) \<Rightarrow> (Inl e, s1)
      | (None, s1) \<Rightarrow> (let (warnings, s2) = pushAll E ng [target] s1 in (Inr (ng, warnings), s2)))"

fun make_writable :: "env \<Rightarrow> pool_ref list \<Rightarrow> node \<Rightarrow> node" where
  "make_writable E [] s = s"
| "make_writable E (p # ps) s = make_writable E ps (snd (perform E (Zfs (SetReadonly (pName p) False)) s))"

fun make_readonly :: "env \<Rightarrow> pool_ref list \<Rightarrow> node \<Rightarrow> (string \<times> gerr) option \<times> node" where
  "make_readonly E [] s = (None, s)"
| "make_readonly E (p # ps) s =
     (case perform E (Zfs (SetReadonly (pName p) True)) s of
        (Some e, s1) \<Rightarrow> (Some (pName p, e), s1) | (None, s1) \<Rightarrow> make_readonly E ps s1)"

definition moveReplicated ::
  "env \<Rightarrow> group \<Rightarrow> string \<Rightarrow> node \<Rightarrow> (gerr + group \<times> gerr list) \<times> node" where
  "moveReplicated E g target s =
     (case deactivate E g s of
        (Some e, s1) \<Rightarrow> (Inl (Wrap ''stopping the group'' e), activate_soon E s1)
      | (None, s1) \<Rightarrow>
          (case make_readonly E (gPools g) s1 of
             (Some (p, e), s2) \<Rightarrow> (Inl (Wrap p e), make_writable E (gPools g) s2)
           | (None, s2) \<Rightarrow>
               (case replicate_group E g (Some [target]) s2 of
                  (Some e, s3) \<Rightarrow> (Inl (Wrap ''final replication'' e), make_writable E (gPools g) s3)
                | (None, s3) \<Rightarrow>
                    (let ng = handed_to E target g s3 in
                     case perform E (Net (Push target ng False)) s3 of
                       (Some e, s4) \<Rightarrow>
                         (Inl (Wrap ''the target did not take over'' e), make_writable E (gPools g) s4)
                     | (None, s4) \<Rightarrow> moved E ng target s4))))"

definition moveShared ::
  "env \<Rightarrow> group \<Rightarrow> string \<Rightarrow> node \<Rightarrow> (gerr + group \<times> gerr list) \<times> node" where
  "moveShared E g target s =
     (if vQuorum (eView E (trace s)) \<and> \<not> vQuorate (eView E (trace s)) then (Inl (Refused NoQuorum), s)
      else case deactivate E g s of
        (Some e, s1) \<Rightarrow> (Inl (Wrap ''stopping the group'' e), activate_soon E s1)
      | (None, s1) \<Rightarrow>
          (case export_pools E [] (gPools g) s1 of
             (Inl (p, e, ex), s2) \<Rightarrow>
               (let (rerrs, s3) = reimport E ex s2 in
                (Inl (Joined (Wrap (pName p) e # rerrs)), s3))
           | (Inr ex, s2) \<Rightarrow>
               (let ng = handed_to E target g s2 in
                case perform E (Net (Push target ng False)) s2 of
                  (Some e, s3) \<Rightarrow>
                    (let (rerrs, s4) = reimport E ex s3 in
                     (Inl (Joined (Wrap ''the target did not take over'' e # rerrs)), s4))
                | (None, s3) \<Rightarrow> moved E ng target s3)))"

definition Move :: "env \<Rightarrow> string \<Rightarrow> string \<Rightarrow> node \<Rightarrow> (gerr + group \<times> gerr list) \<times> node" where
  "Move E name target s =
     (case Get E name s of
        (Inl e, s1) \<Rightarrow> (Inl (Wrap name e), s1)
      | (Inr g, s1) \<Rightarrow>
          (if gOwner g \<noteq> eSelf E then (Inl (Refused NotOwnerMove), s1)
           else if target = eSelf E \<or> \<not> IsCandidate g target then (Inl (Refused BadTarget), s1)
           else
             (let (mts, s2) = Maintenances E [target] s1 in
              if contains mts target then (Inl (Refused TargetInMaintenance), s2)
              else
                (let s3 = setMoving name True s2;
                     (r, s4) =
                       (if gTopology g = Shared then moveShared E g target s3
                        else if gTopology g = Replicated then moveReplicated E g target s3
                        else (Inl (Refused NoOtherNode), s3)) in
                 (r, setMoving name False s4)))))"

section \<open>Adopting\<close>

fun plan_adopt_pools ::
  "group \<Rightarrow> string \<Rightarrow> (string \<times> string) list \<Rightarrow> pool_ref list \<Rightarrow> pool_ref list \<times> string list" where
  "plan_adopt_pools g self imported [] = ([], [])"
| "plan_adopt_pools g self imported (p # ps) =
     (let (imports, exports) = plan_adopt_pools g self imported ps;
          here = (map_of imported (pName p) \<noteq> None) in
      if gOwner g = self \<and> \<not> here then (p # imports, exports)
      else if gOwner g \<noteq> self \<and> here \<and> gTopology g = Shared then (imports, pName p # exports)
      else (imports, exports))"

definition planAdopt ::
  "group \<Rightarrow> string \<Rightarrow> (string \<times> string) list \<Rightarrow> pool_ref list \<times> string list" where
  "planAdopt g self imported =
     (if gTopology g = Replicated then ([], []) else plan_adopt_pools g self imported (gPools g))"

fun import_pools ::
  "env \<Rightarrow> pool_ref list \<Rightarrow> pool_ref list \<Rightarrow> node
     \<Rightarrow> ((pool_ref \<times> gerr \<times> pool_ref list) + pool_ref list) \<times> node" where
  "import_pools E im [] s = (Inr im, s)"
| "import_pools E im (p # ps) s =
     (case perform E (Zpool (Import (pGUID p))) s of
        (Some e, s1) \<Rightarrow> (Inl (p, e, im), s1)
      | (None, s1) \<Rightarrow> import_pools E (im @ [p]) ps s1)"

fun release_pools :: "env \<Rightarrow> string list \<Rightarrow> node \<Rightarrow> gerr list \<times> node" where
  "release_pools E [] s = ([], s)"
| "release_pools E (n # ns) s =
     (let (r, s1) = perform E (Zpool (Export n)) s; (errs, s2) = release_pools E ns s1 in
      ((case r of None \<Rightarrow> errs | Some e \<Rightarrow> Wrap n e # errs), s2))"

fun set_readonly_copies ::
  "env \<Rightarrow> bool \<Rightarrow> (string \<times> string) list \<Rightarrow> pool_ref list \<Rightarrow> node \<Rightarrow> gerr list \<times> node" where
  "set_readonly_copies E ro imported [] s = ([], s)"
| "set_readonly_copies E ro imported (p # ps) s =
     (if map_of imported (pName p) = None then set_readonly_copies E ro imported ps s
      else
        (let (r, s1) = perform E (Zfs (SetReadonly (pName p) ro)) s;
             (errs, s2) = set_readonly_copies E ro imported ps s1 in
         ((case r of None \<Rightarrow> errs | Some e \<Rightarrow> Wrap (pName p) e # errs), s2)))"

definition apply_adoption ::
  "env \<Rightarrow> group \<Rightarrow> bool \<Rightarrow> (string \<times> string) list \<Rightarrow> node \<Rightarrow> gerr option \<times> node" where
  "apply_adoption E g becoming imported s =
     (let (imports, exports) = planAdopt g (eSelf E) imported in
      case import_pools E [] imports s of
        (Inl (p, e, im), s1) \<Rightarrow>
          (let (errs, s2) = giveBack E im ''the target'' s1 in
           (join_errors (Wrap (pName p) e # errs), s2))
      | (Inr im, s1) \<Rightarrow>
          (let (rel, s2) = release_pools E exports s1;
               (ro, s3) = (if gTopology g = Replicated
                  then set_readonly_copies E (gOwner g \<noteq> eSelf E) imported (gPools g) s2 else ([], s2)) in
           case put E g s3 of
             (Some e, s4) \<Rightarrow>
               (let (errs, s5) = giveBack E im ''the target'' s4 in (join_errors (e # errs), s5))
           | (None, s4) \<Rightarrow>
               (if becoming then
                  (let s5 = setMoving (gName g) False s4; (mr, s6) = materialize E g s5 in
                   (join_errors (rel @ ro), activate_soon E s6))
                else (join_errors (rel @ ro), s4))))"

definition adopt_newer :: "env \<Rightarrow> group \<Rightarrow> group option \<Rightarrow> node \<Rightarrow> gerr option \<times> node" where
  "adopt_newer E g cur s =
     (case Validate g of
        Some e \<Rightarrow> (Some e, s)
      | None \<Rightarrow>
          (case importedPools E s of
             (Inl e, s1) \<Rightarrow> (Some e, s1)
           | (Inr imported, s1) \<Rightarrow>
               (let leaving = (case cur of None \<Rightarrow> False
                      | Some c \<Rightarrow> gOwner c = eSelf E \<and> gOwner g \<noteq> eSelf E);
                    becoming = (gOwner g = eSelf E \<and>
                      (case cur of None \<Rightarrow> True | Some c \<Rightarrow> gOwner c \<noteq> eSelf E));
                    s2 = (if leaving then snd (deactivate E g (setMoving (gName g) True s1)) else s1);
                    s3 = (if becoming then setMoving (gName g) True s2 else s2);
                    (r, s4) = apply_adoption E g becoming imported s3 in
                (r, if leaving \<or> becoming then setMoving (gName g) False s4 else s4))))"

definition adopt :: "env \<Rightarrow> group \<Rightarrow> node \<Rightarrow> gerr option \<times> node" where
  "adopt E g s =
     (case Get E (gName g) s of
        (Inr cur, s1) \<Rightarrow>
          (if \<not> Newer g cur then
             (if gEpoch cur = gEpoch g \<and> gVersion cur = gVersion g then (None, s1)
              else (Some (stale g cur), s1))
           else adopt_newer E g (Some cur) s1)
      | (Inl e, s1) \<Rightarrow> (if e = NoRows then adopt_newer E g None s1 else (Some e, s1)))"

definition Receive :: "env \<Rightarrow> group \<Rightarrow> bool \<Rightarrow> node \<Rightarrow> gerr option \<times> node" where
  "Receive E g remove s =
     (if remove then
        (case Get E (gName g) s of
           (Inl e, s1) \<Rightarrow> (if e = NoRows then (None, s1) else (Some e, s1))
         | (Inr cur, s1) \<Rightarrow>
             (if gEpoch g < gEpoch cur then (Some (StaleRemoval (gEpoch g) (gEpoch cur)), s1)
              else Remove E (gName g) s1))
      else adopt E g s)"

section \<open>Changing the floating address\<close>

definition SetAddress :: "env \<Rightarrow> string \<Rightarrow> string \<Rightarrow> string \<Rightarrow> node \<Rightarrow> (gerr + group) \<times> node" where
  "SetAddress E name cidr iface s =
     (case validAddress cidr iface of
        Some e \<Rightarrow> (Inl e, s)
      | None \<Rightarrow>
          (case Get E name s of
             (Inl e, s1) \<Rightarrow> (Inl e, s1)
           | (Inr g, s1) \<Rightarrow>
               (if gOwner g \<noteq> eSelf E then (Inl (Refused (ChangeOnOwner name)), s1)
                else
                  (let ng = g\<lparr>gAddress := cidr, gInterface := iface, gVersion := int64 (gVersion g + 1),
                              gUpdatedAt := eNow E (trace s1), gUpdatedBy := eSelf E\<rparr> in
                   case put E ng s1 of
                     (Some e, s2) \<Rightarrow> (Inl e, s2)
                   | (None, s2) \<Rightarrow> Get E name (activate_soon E (snd (pushAll E ng [] s2)))))))"

section \<open>Frames\<close>

text \<open>Which operations leave the table of groups and the marks of owner changes alone.\<close>

lemma frame_activation [simp]:
  "groups (snd (deactivate E g s)) = groups s" "moving (snd (deactivate E g s)) = moving s"
  "groups (snd (materialize E g s)) = groups s" "moving (snd (materialize E g s)) = moving s"
  "groups (snd (ForPool E pool s)) = groups s" "moving (snd (ForPool E pool s)) = moving s"
  using onlyD [OF only_deactivate [OF only_refl, of s E g]]
    onlyD [OF only_materialize [OF only_refl, of s E g]]
    onlyD [OF only_ForPool [OF only_refl, of "\<lambda>_. True" s E pool]]
  by simp_all

lemma frame_replication [simp]:
  "groups (snd (replicate_group E g ts s)) = groups s" "moving (snd (replicate_group E g ts s)) = moving s"
  using same_groups_replicate [OF same_groups_refl, of s E g ts] by (simp_all add: same_groups_def)

lemma frame_activate_soon [simp]:
  "groups (activate_soon E s) = groups s" "moving (activate_soon E s) = moving s"
  by (simp_all add: activate_soon_def)

lemma frame_push_to [simp]:
  "groups (snd (push_to E g skip ns s)) = groups s" "moving (snd (push_to E g skip ns s)) = moving s"
  by (induction ns arbitrary: s) (auto simp: split_beta Let_def)

lemma frame_pushAll [simp]:
  "groups (snd (pushAll E g skip s)) = groups s" "moving (snd (pushAll E g skip s)) = moving s"
  by (simp_all add: pushAll_def)

lemma frame_push_removal [simp]:
  "groups (snd (push_removal E g ns s)) = groups s" "moving (snd (push_removal E g ns s)) = moving s"
  by (induction ns arbitrary: s) (auto simp: split_beta Let_def)

lemma frame_claim_pools [simp]:
  "groups (snd (claim_pools E topology imported ps s)) = groups s"
  "moving (snd (claim_pools E topology imported ps s)) = moving s"
proof -
  have "groups (snd (claim_pools E topology imported ps s)) = groups s \<and>
    moving (snd (claim_pools E topology imported ps s)) = moving s"
  proof (induction ps arbitrary: s)
    case (Cons p ps)
    show ?case using Cons.IH [of "snd (ForPool E p s)"]
      by (cases "claim_pools E topology imported ps (snd (ForPool E p s))")
        (simp add: split_beta Let_def split: option.splits sum.splits split del: if_split)
  qed simp
  then show "groups (snd (claim_pools E topology imported ps s)) = groups s"
    "moving (snd (claim_pools E topology imported ps s)) = moving s" by simp_all
qed

lemma frame_giveBack [simp]:
  "groups (snd (giveBack E ps at s)) = groups s" "moving (snd (giveBack E ps at s)) = moving s"
  by (induction ps arbitrary: s) (auto simp: split_beta Let_def)

lemma frame_reimport [simp]:
  "groups (snd (reimport E ps s)) = groups s" "moving (snd (reimport E ps s)) = moving s"
  by (induction ps arbitrary: s) (auto simp: split_beta Let_def)

lemma frame_export_pools [simp]:
  "groups (snd (export_pools E ex ps s)) = groups s" "moving (snd (export_pools E ex ps s)) = moving s"
  by (induction ps arbitrary: ex s) (auto simp: split_beta split: option.split)

lemma frame_import_pools [simp]:
  "groups (snd (import_pools E im ps s)) = groups s" "moving (snd (import_pools E im ps s)) = moving s"
  by (induction ps arbitrary: im s) (auto simp: split_beta split: option.split)

lemma frame_release_pools [simp]:
  "groups (snd (release_pools E ns s)) = groups s" "moving (snd (release_pools E ns s)) = moving s"
  by (induction ns arbitrary: s) (auto simp: split_beta Let_def)

lemma frame_set_readonly_copies [simp]:
  "groups (snd (set_readonly_copies E ro im ps s)) = groups s"
  "moving (snd (set_readonly_copies E ro im ps s)) = moving s"
  by (induction ps arbitrary: s) (auto simp: split_beta Let_def)

lemma frame_make_writable [simp]:
  "groups (make_writable E ps s) = groups s" "moving (make_writable E ps s) = moving s"
  by (induction ps arbitrary: s) auto

lemma frame_make_readonly [simp]:
  "groups (snd (make_readonly E ps s)) = groups s" "moving (snd (make_readonly E ps s)) = moving s"
  by (induction ps arbitrary: s) (auto simp: split_beta split: option.split)

section \<open>One row at a time\<close>

text \<open>
  Every operation here leaves the table as it is or writes one row. \<open>stores Q s t\<close> says that
  the table of \<open>t\<close> is that of \<open>s\<close>, possibly with one row of the kind \<open>Q\<close> written.
\<close>

definition stores :: "(group \<Rightarrow> bool) \<Rightarrow> node \<Rightarrow> node \<Rightarrow> bool" where
  "stores Q s t \<longleftrightarrow> groups t = groups s \<or> (\<exists>g. Q g \<and> groups t = upsert gName g (groups s))"

lemma stores_same: "groups t = groups s \<Longrightarrow> stores Q s t"
  by (simp add: stores_def)

lemma stores_setMoving [simp]: "stores Q s (setMoving n on t) = stores Q s t"
  by (simp add: stores_def)

lemma stores_cong: "groups s' = groups s \<Longrightarrow> groups t' = groups t \<Longrightarrow> stores Q s' t' = stores Q s t"
  by (simp add: stores_def)

lemma stores_put:
  assumes "groups s' = groups s" and "\<And>now. Q (stored_form now g)"
  shows "stores Q s (snd (put E g s'))"
  using assms by (cases E g s' rule: put_cases) (auto simp: stores_def)

lemma stores_mono: "stores Q s t \<Longrightarrow> (\<And>g. Q g \<Longrightarrow> Q' g) \<Longrightarrow> stores Q' s t"
  by (auto simp: stores_def)

lemma stores_wf:
  assumes "stores Q s t" and "\<And>g. Q g \<Longrightarrow> wf_group g" and "wf_node s"
  shows "wf_node t"
  using assms wf_groups_upsert [of "groups s"] by (auto simp: stores_def)

lemma stores_row:
  assumes "stores Q s t" and "row gName (groups t) n = Some h"
  shows "row gName (groups s) n = Some h \<or> (Q h \<and> gName h = n)"
  using assms by (auto simp: stores_def split: if_splits)

text \<open>No stored copy goes back: every stored group is still there, at the same stamp or a later one.\<close>

definition advances :: "node \<Rightarrow> node \<Rightarrow> bool" where
  "advances s t \<longleftrightarrow>
     (\<forall>n g. row gName (groups s) n = Some g \<longrightarrow>
        (\<exists>h. row gName (groups t) n = Some h \<and> stamp_of g \<le> stamp_of h))"

lemma advances_refl [simp]: "advances s s"
  by (auto simp: advances_def)

lemma advances_trans: "advances s t \<Longrightarrow> advances t u \<Longrightarrow> advances s u"
  unfolding advances_def by (meson order_trans)

lemma stores_advances:
  assumes "stores Q s t"
    and "\<And>g cur. Q g \<Longrightarrow> row gName (groups s) (gName g) = Some cur \<Longrightarrow> stamp_of cur \<le> stamp_of g"
  shows "advances s t"
  using assms by (auto simp: stores_def advances_def)

definition handed :: "string \<Rightarrow> group \<Rightarrow> group \<Rightarrow> bool" where
  "handed target g h \<longleftrightarrow>
     gName h = gName g \<and> gTopology h = gTopology g \<and> gPools h = gPools g \<and>
     gCandidates h = gCandidates g \<and> gOwner h = target \<and> gEpoch h = int64 (gEpoch g + 1) \<and>
     gVersion h = gVersion g \<and> gAddress h = gAddress g \<and> gInterface h = gInterface g"

lemma handed_handed_to [simp]: "handed target g (handed_to E target g s)"
  and handed_stored_form [simp]: "handed target g (stored_form now h) = handed target g h"
  by (simp_all add: handed_def handed_to_def)

lemma handed_wf:
  assumes "handed target g h" and "wf_group g" and "target \<in> set (gCandidates g)" and "gEpoch g < max_int64"
  shows "wf_group h"
  using assms by (auto simp: handed_def wf_group_def int64_Suc)

lemma handed_stamp:
  assumes "handed target g h" and "1 \<le> gEpoch g" and "gEpoch g < max_int64"
  shows "stamp_of g < stamp_of h"
  using assms by (auto simp: handed_def less_stamp_def int64_Suc)

lemma moved_stores: "groups s' = groups s \<Longrightarrow> handed target g ng \<Longrightarrow>
    stores (handed target g) s (snd (moved E ng target' s'))"
  using stores_put [of s' s "handed target g" ng E]
  by (auto simp: moved_def split_beta Let_def stores_def split: option.split)

lemma moveShared_stores: "stores (handed target g) s (snd (moveShared E g target s))"
  by (auto simp: moveShared_def split_beta Let_def stores_same split: option.split sum.split prod.split
      intro!: moved_stores)

lemma moveReplicated_stores: "stores (handed target g) s (snd (moveReplicated E g target s))"
  by (auto simp: moveReplicated_def split_beta Let_def stores_same split: option.split sum.split prod.split
      intro!: moved_stores)

section \<open>The table stays well formed\<close>

text \<open>
  A stored row is well formed but for its counters: \<open>Epoch\<close> and \<open>Version\<close> are int64, a move at
  the largest epoch wraps, and \<open>put\<close> does not validate. Everything else holds without exception.
\<close>

definition wf_shape :: "group \<Rightarrow> bool" where
  "wf_shape g \<longleftrightarrow> wf_group (g\<lparr>gEpoch := 1, gVersion := 1\<rparr>)"

definition table_ok :: "group list \<Rightarrow> bool" where
  "table_ok gs \<longleftrightarrow> ordered_rows gName gs \<and> (\<forall>g \<in> set gs. wf_shape g)"

lemma wf_group_shape: "wf_group g \<Longrightarrow> wf_shape g"
  by (simp add: wf_shape_def wf_group_def)

lemma wf_groups_table: "wf_groups gs \<Longrightarrow> table_ok gs"
  by (auto simp: wf_groups_def table_ok_def wf_group_shape)

lemma wf_shape_stored [simp]: "wf_shape (stored_form now g) = wf_shape g"
  by (simp add: wf_shape_def wf_group_def)

lemma wf_shape_handed: "handed target g h \<Longrightarrow> wf_shape g \<Longrightarrow> target \<in> set (gCandidates g) \<Longrightarrow> wf_shape h"
  by (auto simp: handed_def wf_shape_def wf_group_def)

lemma table_ok_upsert: "table_ok gs \<Longrightarrow> wf_shape g \<Longrightarrow> table_ok (upsert gName g gs)"
  using set_upsert [of gName g gs] by (auto simp: table_ok_def ordered_upsert)

lemma table_ok_delete: "table_ok gs \<Longrightarrow> table_ok (delete_row gName n gs)"
  using set_delete_row [of gName n gs] by (auto simp: table_ok_def ordered_delete)

lemma table_ok_row: "table_ok gs \<Longrightarrow> row gName gs n = Some g \<Longrightarrow> wf_shape g"
  by (auto simp: table_ok_def dest: row_in_set)

lemma table_ok_Get: "table_ok (groups s) \<Longrightarrow> Get E n s = (Inr g, s1) \<Longrightarrow> wf_shape g"
  by (auto dest: Get_InrD table_ok_row)

lemma table_ok_stores: "stores Q s t \<Longrightarrow> (\<And>g. Q g \<Longrightarrow> wf_shape g) \<Longrightarrow> table_ok (groups s) \<Longrightarrow> table_ok (groups t)"
  using table_ok_upsert [of "groups s"] by (auto simp: stores_def)

lemma table_ok_put: "table_ok (groups s) \<Longrightarrow> wf_shape g \<Longrightarrow> table_ok (groups (snd (put E g s)))"
  by (cases E g s rule: put_cases) (auto intro: table_ok_upsert)

lemma table_ok_Remove: "table_ok (groups s) \<Longrightarrow> table_ok (groups (snd (Remove E n s)))"
  by (auto simp: Remove_def perform_def table_ok_delete split: option.split)

lemma table_ok_Accept: "table_ok (groups s) \<Longrightarrow> table_ok (groups (snd (Accept E g s)))"
  by (auto simp: Accept_def split_beta Validate_iff intro!: table_ok_put wf_group_shape
      split: option.split sum.split)

lemma Get_groups: "Get E n s = (r, s1) \<Longrightarrow> groups s1 = groups s \<and> moving s1 = moving s"
  using Get_frame [of E n s] by simp

lemma table_ok_Move: assumes "table_ok (groups s)" shows "table_ok (groups (snd (Move E name target s)))"
proof (cases "Get E name s")
  case (Pair r s1)
  show ?thesis
  proof (cases r)
    case (Inl e)
    with Pair assms show ?thesis using Get_groups [OF Pair] by (simp add: Move_def)
  next
    case (Inr g)
    have g: "wf_shape g" using table_ok_Get [OF assms] Pair Inr by simp
    show ?thesis
    proof (cases "target \<in> set (gCandidates g)")
      case True
      note st = table_ok_stores [OF _ wf_shape_handed [OF _ g True]]
      show ?thesis using Pair Inr Get_groups [OF Pair] assms
        by (auto simp: Move_def split_beta Let_def intro: st moveShared_stores moveReplicated_stores)
    next
      case False
      with Pair Inr Get_groups [OF Pair] assms show ?thesis by (simp add: Move_def)
    qed
  qed
qed

lemma table_ok_store_new: "table_ok (groups s) \<Longrightarrow> table_ok (groups (snd (store_new E g s)))"
  unfolding store_new_def
  by (auto simp: split_beta Let_def Validate_iff intro!: table_ok_put wf_group_shape split: option.split)

lemma table_ok_CreateWith:
  "table_ok (groups s) \<Longrightarrow> table_ok (groups (snd (CreateWith E name topology pools cands secs af s)))"
  unfolding CreateWith_def by (simp add: split_beta table_ok_store_new split: sum.split)

lemma table_ok_RemoveGroup: "table_ok (groups s) \<Longrightarrow> table_ok (groups (snd (RemoveGroup E name s)))"
  unfolding RemoveGroup_def
  by (auto simp: split_beta Let_def intro!: table_ok_Remove split: option.split sum.split)

lemma table_ok_apply_adoption:
  "wf_shape g \<Longrightarrow> table_ok (groups s) \<Longrightarrow> table_ok (groups (snd (apply_adoption E g becoming imported s)))"
  unfolding apply_adoption_def
  by (auto simp: split_beta Let_def intro!: table_ok_put split: option.split sum.split)

lemma table_ok_adopt_newer:
  "table_ok (groups s) \<Longrightarrow> table_ok (groups (snd (adopt_newer E g cur s)))"
  unfolding adopt_newer_def
  by (auto simp: split_beta Let_def Validate_iff intro!: table_ok_apply_adoption wf_group_shape
      split: option.split sum.split)

lemma table_ok_adopt: "table_ok (groups s) \<Longrightarrow> table_ok (groups (snd (adopt E g s)))"
  unfolding adopt_def
  by (auto simp: split_beta intro!: table_ok_adopt_newer split: sum.split)

lemma table_ok_Receive: "table_ok (groups s) \<Longrightarrow> table_ok (groups (snd (Receive E g remove s)))"
  unfolding Receive_def
  by (auto simp: split_beta intro!: table_ok_adopt table_ok_Remove split: sum.split)

lemma table_ok_SetAddress:
  assumes "table_ok (groups s)" shows "table_ok (groups (snd (SetAddress E name cidr iface s)))"
proof (cases "Get E name s")
  case (Pair r s1)
  show ?thesis
  proof (cases "validAddress cidr iface = None \<and> (\<exists>g. r = Inr g)")
    case True
    then obtain g where r: "r = Inr g" by blast
    have "wf_shape g" using table_ok_Get [OF assms] Pair r by simp
    then have "wf_shape (g\<lparr>gAddress := cidr, gInterface := iface, gVersion := v, gUpdatedAt := t, gUpdatedBy := u\<rparr>)"
      for v t u using True by (auto simp: wf_shape_def wf_group_def split: if_splits)
    then show ?thesis using Pair r True Get_groups [OF Pair] assms
      by (auto simp: SetAddress_def split_beta Let_def intro!: table_ok_put split: option.split)
  next
    case False
    then show ?thesis using Pair Get_groups [OF Pair] assms
      by (auto simp: SetAddress_def split: option.split sum.split)
  qed
qed

section \<open>Adopting keeps the newest\<close>

text \<open>
  The database does not answer \<open>ErrNoRows\<close> for a row it has; every call succeeds; and a group
  without what \<open>put\<close> fills in.
\<close>

definition reads_rows :: "env \<Rightarrow> bool" where
  "reads_rows E \<longleftrightarrow> (\<forall>tr. eResult E tr (Db Query) \<noteq> Some NoRows)"

definition calm :: "env \<Rightarrow> bool" where
  "calm E \<longleftrightarrow> (\<forall>tr a. eResult E tr a = None)"

definition content :: "group \<Rightarrow> group" where
  "content g = g\<lparr>gUpdatedAt := 0, gIntervalSecs := (if gIntervalSecs g \<le> 0 then 300 else gIntervalSecs g)\<rparr>"

lemma content_stored [simp]: "content (stored_form now g) = content g"
  by (simp add: content_def stored_form_def)

lemma content_stamp: "content c = content u \<Longrightarrow> stamp_of c = stamp_of u"
proof -
  assume "content c = content u"
  then have "gEpoch (content c) = gEpoch (content u)" "gVersion (content c) = gVersion (content u)" by simp_all
  then show ?thesis by (simp add: content_def stamp_of_def)
qed

lemma calm_reads: "calm E \<Longrightarrow> reads_rows E"
  by (simp add: calm_def reads_rows_def)

lemma calm_perform: "calm E \<Longrightarrow> fst (perform E a s) = None"
  by (simp add: calm_def perform_def)

definition form_of :: "group \<Rightarrow> group \<Rightarrow> bool" where
  "form_of g h \<longleftrightarrow> (\<exists>now. h = stored_form now g)"

lemma stores_frames [simp]:
  "stores Q s (snd (materialize E g t)) = stores Q s t" "stores Q s (activate_soon E t) = stores Q s t"
  "stores Q s (snd (giveBack E ps at t)) = stores Q s t"
  by (simp_all add: stores_def)

lemma apply_adoption_stores:
  assumes "groups s' = groups s"
  shows "stores (form_of g) s (snd (apply_adoption E g becoming imported s'))"
proof -
  have "stores (form_of g) s (snd (put E g t))" if "groups t = groups s" for t
    using that by (rule stores_put) (auto simp: form_of_def)
  with assms show ?thesis
    by (simp add: apply_adoption_def split_beta Let_def stores_same split: option.split sum.split)
qed

lemma adopt_newer_stores:
  assumes "groups s' = groups s" shows "stores (form_of g) s (snd (adopt_newer E g cur s'))"
  using assms apply_adoption_stores [of _ s g E]
  by (simp add: adopt_newer_def split_beta Let_def stores_same split: option.split sum.split)

lemma adopt_stores: "stores (form_of g) s (snd (adopt E g s))"
  using adopt_newer_stores [of _ s g E]
  by (simp add: adopt_def split_beta stores_same split: sum.split)

lemma Get_reads:
  assumes "reads_rows E"
  shows "fst (Get E n s) = Inl NoRows \<Longrightarrow> row gName (groups s) n = None"
    and "fst (Get E n s) = Inr c \<Longrightarrow> row gName (groups s) n = Some c"
  using assms Get_NoRowsD [of E n s] Get_InrD [of E n s] by (metis prod.collapse reads_rows_def)+

lemma adopt_other: "n \<noteq> gName g \<Longrightarrow> row gName (groups (snd (adopt E g s))) n = row gName (groups s) n"
  using adopt_stores [of g s E] by (auto simp: stores_def form_of_def)

lemma adopt_older:
  assumes "reads_rows E" and "row gName (groups s) (gName g) = Some c" and "\<not> stamp_of c < stamp_of g"
  shows "groups (snd (adopt E g s)) = groups s"
proof (cases "fst (Get E (gName g) s)")
  case (Inl e)
  then have "e \<noteq> NoRows" using Get_reads(1) [OF assms(1)] assms(2) by force
  with Inl show ?thesis by (simp add: adopt_def split_beta)
next
  case (Inr d)
  then have "d = c" using Get_reads(2) [OF assms(1) Inr] assms(2) by simp
  with Inr assms(3) show ?thesis by (simp add: adopt_def split_beta Newer_iff)
qed

lemma adopt_result:
  "row gName (groups (snd (adopt E g s))) (gName g) = row gName (groups s) (gName g) \<or>
   (\<exists>c. row gName (groups (snd (adopt E g s))) (gName g) = Some c \<and> stamp_of c = stamp_of g)"
  using adopt_stores [of g s E] by (auto simp: stores_def form_of_def)

lemma calm_import_pools: "calm E \<Longrightarrow> \<exists>im'. fst (import_pools E im ps s) = Inr im'"
  by (induction ps arbitrary: im s) (auto simp: split_beta calm_perform split: option.split)

definition takes :: "group \<Rightarrow> node \<Rightarrow> node \<Rightarrow> bool" where
  "takes g s t \<longleftrightarrow> (\<exists>now. groups t = upsert gName (stored_form now g) (groups s))"

lemma takes_frames [simp]:
  "takes g s (setMoving n on t) = takes g s t" "takes g s (activate_soon E t) = takes g s t"
  "takes g s (snd (materialize E h t)) = takes g s t"
  by (simp_all add: takes_def)

lemma calm_put:
  assumes "calm E" shows "fst (put E g s) = None" and "groups s = groups s0 \<Longrightarrow> takes g s0 (snd (put E g s))"
  using assms by (cases E g s rule: put_cases; force simp: put_def Let_def perform_def calm_def takes_def)+

lemma calm_apply_adoption:
  assumes "calm E" and "groups s = groups s0"
  shows "takes g s0 (snd (apply_adoption E g becoming imported s))"
proof -
  let ?p = "planAdopt g (eSelf E) imported"
  obtain im where "fst (import_pools E [] (fst ?p) s) = Inr im" using calm_import_pools [OF assms(1)] by blast
  with assms show ?thesis
    by (simp add: apply_adoption_def split_beta Let_def calm_put)
qed

lemma adopt_newer_takes:
  assumes "calm E" and "wf_group g" and "groups s = groups s0"
  shows "takes g s0 (snd (adopt_newer E g cur s))"
proof -
  have V: "Validate g = None" using assms(2) by (simp add: Validate_iff)
  obtain pools where "fst (importedPools E s) = Inr pools"
    using assms(1) by (auto simp: importedPools_def perform_def calm_def)
  with V assms show ?thesis
    by (simp add: adopt_newer_def split_beta Let_def calm_apply_adoption)
qed

lemma adopt_takes:
  assumes "calm E" and "wf_group g"
    and "\<forall>c. row gName (groups s) (gName g) = Some c \<longrightarrow> stamp_of c < stamp_of g"
  shows "\<exists>c. row gName (groups (snd (adopt E g s))) (gName g) = Some c \<and> content c = content g"
proof -
  have "takes g s (snd (adopt E g s))"
  proof (cases "row gName (groups s) (gName g)")
    case None
    then have "fst (Get E (gName g) s) = Inl NoRows" using assms(1) by (simp add: Get_def perform_def calm_def)
    then show ?thesis using assms by (simp add: adopt_def split_beta adopt_newer_takes)
  next
    case (Some c)
    then have "fst (Get E (gName g) s) = Inr c" using assms(1) by (simp add: Get_def perform_def calm_def)
    then show ?thesis using assms Some by (simp add: adopt_def split_beta Newer_iff adopt_newer_takes)
  qed
  then show ?thesis by (auto simp: takes_def)
qed

section \<open>The contracts\<close>

text \<open>
  Any environment with a database that answers \<open>ErrNoRows\<close> for missing rows only, and any
  environment without its faults: the table of groups is a monotone register of the updates it is
  offered, and a reliable one when nothing fails.
\<close>

definition reading :: "env \<Rightarrow> env" where
  "reading E = E\<lparr>eResult := (\<lambda>tr a. if a = Db Query \<and> eResult E tr a = Some NoRows
      then Some (External []) else eResult E tr a)\<rparr>"

definition faultless :: "env \<Rightarrow> env" where
  "faultless E = E\<lparr>eResult := (\<lambda>tr a. None)\<rparr>"

lemma reads_reading [simp]: "reads_rows (reading E)"
  by (simp add: reads_rows_def reading_def)

lemma reading_id: "reads_rows E \<Longrightarrow> reading E = E"
  by (simp add: reading_def reads_rows_def fun_eq_iff if_distrib cong: if_cong)

lemma calm_faultless [simp]: "calm (faultless E)"
  by (simp add: calm_def faultless_def)

lemma faultless_self [simp]: "eSelf (faultless E) = eSelf E"
  by (simp add: faultless_def)

interpretation copy: monotone_register
  "\<lambda>g s. snd (adopt (reading E) g s)" "\<lambda>s. row gName (groups s)" gName stamp_of for E
  by unfold_locales (simp_all add: adopt_other adopt_result adopt_older)

interpretation synced: reliable_register
  "\<lambda>g s. snd (adopt (faultless E) g s)" "\<lambda>s. row gName (groups s)" gName stamp_of wf_group content for E
  by unfold_locales
    (auto simp: adopt_other adopt_result adopt_older adopt_takes calm_reads intro: content_stamp)

section \<open>The copies converge\<close>

lemma faultless_id: "calm E \<Longrightarrow> faultless E = E"
  by (simp add: faultless_def calm_def fun_eq_iff)

text \<open>
  C8. Two members that start without groups and are offered the same valid updates, each in its own order and any number
  of times, end with the same groups, when their calls succeed and two updates of one group with the same stamp (epoch
  and time of the update) carry the same content: whoever told them, and whatever each had to import or export.
\<close>

theorem copies_converge:
  assumes "calm E" and "calm E'" and "groups s = []" and "groups t = []"
    and "set us = set vs" and "\<forall>u \<in> set us. wf_group u"
    and "\<forall>u \<in> set us. \<forall>v \<in> set us. gName u = gName v \<longrightarrow> stamp_of u = stamp_of v \<longrightarrow> content u = content v"
  shows "map_option content (row gName (groups (fold (\<lambda>g s. snd (adopt E g s)) us s)) n) =
     map_option content (row gName (groups (fold (\<lambda>g s. snd (adopt E' g s)) vs t)) n)"
proof -
  have s: "synced.newest us s n (row gName (groups (fold (\<lambda>g s. snd (adopt (faultless E) g s)) us s)) n)"
    by (rule synced.fold_newest [OF assms(6)])
  have t: "synced.newest vs t n (row gName (groups (fold (\<lambda>g s. snd (adopt (faultless E') g s)) vs t)) n)"
    by (rule synced.fold_newest) (use assms(5,6) in blast)
  show ?thesis
    using synced.newest_empty_unique [OF _ _ assms(5,7) s t] assms(3,4)
    unfolding faultless_id [OF assms(1)] faultless_id [OF assms(2)] by simp
qed

lemma copies_converge_witness:
  "map_option content (row gName (groups (fold (\<lambda>g s. snd (adopt (sample_env ''a'' [] [] (\<lambda>a. None)) g s))
       [sample_group ''a'' 1, sample_group ''b'' 2] (sample_node []))) ''g'') =
   map_option content (row gName (groups (fold (\<lambda>g s. snd (adopt (sample_env ''b'' [] [] (\<lambda>a. None)) g s))
       [sample_group ''b'' 2, sample_group ''a'' 1, sample_group ''a'' 1] (sample_node []))) ''g'')"
  by (rule copies_converge) (auto simp: calm_def stamp_of_def)

section \<open>Outcome of a move\<close>

lemma moved_outcome:
  "(case fst (moved E ng tg s) of
      Inl e \<Rightarrow> groups (snd (moved E ng tg s)) = groups s
    | Inr (h, ws) \<Rightarrow> h = ng \<and> (\<exists>now. \<forall>n. row gName (groups (snd (moved E ng tg s))) n =
        (if n = gName ng then Some (stored_form now ng) else row gName (groups s) n)))"
  by (cases E ng s rule: put_cases) (auto simp: moved_def split_beta Let_def)

text \<open>A group that changed hands is the group it was but for its owner, its epoch and the marks of the update.\<close>

definition handed_over :: "string \<Rightarrow> group \<Rightarrow> group \<Rightarrow> bool" where
  "handed_over target g h \<longleftrightarrow>
     h = g\<lparr>gOwner := target, gEpoch := int64 (gEpoch g + 1), gUpdatedAt := gUpdatedAt h, gUpdatedBy := gUpdatedBy h\<rparr>"

lemma handed_over_handed_to [simp]: "handed_over target g (handed_to E target g s)"
  by (simp add: handed_over_def handed_to_def)

lemma handed_over_fields:
  "handed_over target g h \<Longrightarrow> gName h = gName g \<and> gOwner h = target \<and> gEpoch h = int64 (gEpoch g + 1)"
  unfolding handed_over_def by (erule ssubst) simp

text \<open>The row of the group is replaced by the group handed over, and no other row changes.\<close>

definition only_row :: "string \<Rightarrow> group \<Rightarrow> group list \<Rightarrow> group list \<Rightarrow> bool" where
  "only_row name h before after \<longleftrightarrow>
     (\<exists>now. \<forall>n. row gName after n = (if n = name then Some (stored_form now h) else row gName before n))"

definition move_outcome :: "string \<Rightarrow> group \<Rightarrow> node \<Rightarrow> (gerr + group \<times> gerr list) \<times> node \<Rightarrow> bool" where
  "move_outcome target g s rt \<longleftrightarrow>
     (case fst rt of
        Inl e \<Rightarrow> groups (snd rt) = groups s
      | Inr (h, ws) \<Rightarrow> handed_over target g h \<and> only_row (gName g) h (groups s) (groups (snd rt)))"

lemma move_outcome_cong: "groups s' = groups s \<Longrightarrow> move_outcome target g s' rt = move_outcome target g s rt"
  by (simp add: move_outcome_def split: sum.split)

lemma move_outcome_Inl [simp]: "move_outcome target g s (Inl e, t) \<longleftrightarrow> groups t = groups s"
  by (simp add: move_outcome_def)

lemma move_outcome_moved:
  assumes "handed_over target g ng" and "groups s' = groups s"
  shows "move_outcome target g s (moved E ng tg s')"
proof -
  have "gName ng = gName g" using handed_over_fields [OF assms(1)] by simp
  with moved_outcome [of E ng tg s'] assms show ?thesis
    by (auto simp: move_outcome_def only_row_def split: sum.splits)
qed

lemma moveShared_outcome: "move_outcome target g s (moveShared E g target s)"
  by (simp add: moveShared_def split_beta Let_def move_outcome_moved split: option.split sum.split)

lemma moveReplicated_outcome: "move_outcome target g s (moveReplicated E g target s)"
  by (simp add: moveReplicated_def split_beta Let_def move_outcome_moved split: option.split)

text \<open>
  C17. A move either succeeds, and then only because this node owned the group and the target is
  another candidate not known to be in maintenance: the group is handed over, with the target as its
  owner, the epoch raised by one, a new mark of who updated it and when, and everything else as it was;
  its row holds that group (with the default interval where it has none) and no other row changes. Or it
  fails and the stored groups are what they were. Either way the group is not marked as changing by this move any more.
\<close>

theorem Move_outcome:
  assumes "Move E name target s = (r, t)"
  shows "(case r of
      Inl e \<Rightarrow> groups t = groups s
    | Inr (h, ws) \<Rightarrow> \<exists>g. row gName (groups s) name = Some g \<and> gOwner g = eSelf E \<and> target \<noteq> eSelf E \<and>
        target \<in> set (gCandidates g) \<and> peerMaint s target \<noteq> Some True \<and> gTopology g \<noteq> Standalone \<and>
        handed_over target g h \<and> only_row name h (groups s) (groups t)) \<and>
     (name \<in> set (moving t) \<longrightarrow> groups t = groups s \<and> moving t = moving s)"
proof (cases "Get E name s")
  case (Pair q s1)
  show ?thesis
  proof (cases q)
    case (Inl e)
    with Pair assms show ?thesis using Get_groups [OF Pair] by (auto simp: Move_def)
  next
    case (Inr g)
    have row: "row gName (groups s) name = Some g" using Get_InrD Pair Inr by simp
    have pm: "peerMaint s1 = peerMaint s"
      using Pair by (auto simp: Get_def perform_def split: option.splits)
    have mt: "peerMaint s target = Some True \<Longrightarrow> target \<in> set (fst (Maintenances E [target] s1))"
      by (auto simp: Maintenances_def inMaintenance_def in_maintenance_at_def split_beta perform_def pm
          split: option.split)
    let ?s3 = "setMoving name True (snd (Maintenances E [target] s1))"
    have out: "move_outcome target g s (moveShared E g target ?s3)"
      "move_outcome target g s (moveReplicated E g target ?s3)"
      using moveShared_outcome [of target g ?s3 E] moveReplicated_outcome [of target g ?s3 E]
        move_outcome_cong [of ?s3 s] Get_groups [OF Pair] by simp_all
    have n: "gName g = name" using row_key row by metis
    show ?thesis
      using assms Pair Inr row mt out Get_groups [OF Pair] n
      by (auto simp: Move_def Let_def split_beta move_outcome_def split: if_splits sum.splits)
  qed
qed

lemma Move_outcome_witness:
  "\<exists>h ws t now. Move (sample_env ''a'' [(''tank'', ''7'')] [''a'', ''b''] (\<lambda>a. None)) ''g'' ''b''
      (sample_node [sample_group ''a'' 1]) = (Inr (h, ws), t) \<and>
    gOwner h = ''b'' \<and> gEpoch h = 2 \<and> row gName (groups t) ''g'' = Some (stored_form now h)"
proof -
  let ?E = "sample_env ''a'' [(''tank'', ''7'')] [''a'', ''b''] (\<lambda>a. None)"
  let ?s = "sample_node [sample_group ''a'' 1]"
  have "\<exists>h ws. fst (Move ?E ''g'' ''b'' ?s) = Inr (h, ws)"
    by (simp add: Move_def Get_def perform_def row_Cons Maintenances_def inMaintenance_def setMoving_def
        in_maintenance_at_def moveShared_def sample_deactivate moved_def put_def Let_def handed_to_def
        pushAll_def)
  then obtain h ws t where m: "Move ?E ''g'' ''b'' ?s = (Inr (h, ws), t)" by (metis prod.collapse)
  from Move_outcome [OF m] have "handed_over ''b'' (sample_group ''a'' 1) h"
    "only_row ''g'' h (groups ?s) (groups t)" by (auto simp: row_Cons)
  then obtain now where "gOwner h = ''b''" "gEpoch h = 2" "row gName (groups t) ''g'' = Some (stored_form now h)"
    using handed_over_fields [of "''b''" "sample_group ''a'' 1" h] by (auto simp: int64_def only_row_def)
  with m show ?thesis by blast
qed

end
