(* ===== verification/OwnerImport.thy ===== *)
theory OwnerImport
  imports Ownership
begin

text \<open>
  Importing the pools of a group this node owns (\<open>internal/groups/boot.go\<close>) and pulling the
  groups of the other members (\<open>SyncOnce\<close> of \<open>ops.go\<close>).

  The boot does not import a shared pool, so the owner's daemon does it once nobody else can be
  using the pool: \<open>planOwnerImport\<close> is the pure decision, \<open>reconcileOwned\<close> the pass that acts on
  it after every pull. The Go maps keyed by node or group are maps here; \<open>range peers\<close>, whose
  order Go does not fix, updates each key on its own.
\<close>

section \<open>Deciding\<close>

record peer_seen =
  psReached :: bool
  psImported :: "string list option"

definition unreached :: peer_seen where
  "unreached = \<lparr>psReached = False, psImported = None\<rparr>"

definition seen_of :: "(string \<rightharpoonup> peer_seen) \<Rightarrow> string \<Rightarrow> peer_seen" where
  "seen_of peers c = (case peers c of None \<Rightarrow> unreached | Some ps \<Rightarrow> ps)"

fun first_used :: "string list \<Rightarrow> pool_ref list \<Rightarrow> string option" where
  "first_used imported [] = None"
| "first_used imported (p # ps) =
     (if contains imported (pName p) then Some (pName p) else first_used imported ps)"

text \<open>The loop over the candidates: one that uses a pool, or those that did not answer.\<close>

fun ask_candidates ::
  "string \<Rightarrow> pool_ref list \<Rightarrow> (string \<rightharpoonup> peer_seen) \<Rightarrow> string list \<Rightarrow> (string \<times> string) + string list" where
  "ask_candidates self pools peers [] = Inr []"
| "ask_candidates self pools peers (c # cs) =
     (if c = self then ask_candidates self pools peers cs
      else if \<not> psReached (seen_of peers c) \<or> psImported (seen_of peers c) = None then
        (case ask_candidates self pools peers cs of Inl u \<Rightarrow> Inl u | Inr silent \<Rightarrow> Inr (c # silent))
      else
        (case first_used (the (psImported (seen_of peers c))) pools of
           Some p \<Rightarrow> Inl (c, p)
         | None \<Rightarrow> ask_candidates self pools peers cs))"

text \<open>When a silent candidate was first missed; the zero time counts as not yet.\<close>

definition absent_since :: "(string \<rightharpoonup> time) \<Rightarrow> time \<Rightarrow> string \<Rightarrow> time" where
  "absent_since absent now c =
     (case absent c of None \<Rightarrow> now | Some t \<Rightarrow> if t = 0 then now else t)"

fun latest_silent ::
  "string list \<Rightarrow> (string \<rightharpoonup> time) \<Rightarrow> time \<Rightarrow> string list \<Rightarrow> time \<Rightarrow> string + time" where
  "latest_silent online absent now [] latest = Inr latest"
| "latest_silent online absent now (c # cs) latest =
     (if contains online c then Inl c
      else latest_silent online absent now cs
        (if latest < absent_since absent now c then absent_since absent now c else latest))"

definition stay :: "reason \<Rightarrow> decision" where
  "stay r = \<lparr>dAction = ANone, dReason = r, dWaitUntil = 0\<rparr>"

definition planOwnerImport ::
  "group \<Rightarrow> view \<Rightarrow> (string \<rightharpoonup> peer_seen) \<Rightarrow> (string \<rightharpoonup> time) \<Rightarrow> time \<Rightarrow> decision" where
  "planOwnerImport g v peers absent now =
     (if gTopology g \<noteq> Shared \<or> gOwner g \<noteq> vSelf v then no_decision
      else if (\<forall>p \<in> set (gPools g). pName p \<in> set (vImportedHere v)) then no_decision
      else if vQuorum v \<and> \<not> vQuorate v then stay NotInQuorum
      else case ask_candidates (vSelf v) (gPools g) peers (gCandidates g) of
        Inl (c, p) \<Rightarrow> stay (InUseBy c p)
      | Inr [] \<Rightarrow> \<lparr>dAction = AImport, dReason = OthersConfirmed, dWaitUntil = 0\<rparr>
      | Inr silent \<Rightarrow>
          (if \<not> vQuorum v \<or> \<not> vFenceOK v then stay (WaitingFor silent)
           else case latest_silent (vOnline v) absent now silent 0 of
             Inl c \<Rightarrow> stay (SilentInCluster c)
           | Inr latest \<Rightarrow>
               (let until = latest + vFenceDelay v in
                if now < until
                then \<lparr>dAction = AWait, dReason = ImportingAt until silent, dWaitUntil = until\<rparr>
                else \<lparr>dAction = AImport, dReason = SilentLeft silent, dWaitUntil = 0\<rparr>)))"

section \<open>The passes\<close>

fun import_absent :: "env \<Rightarrow> (string \<times> string) list \<Rightarrow> pool_ref list \<Rightarrow> node \<Rightarrow> gerr option \<times> node" where
  "import_absent E imported [] s = (None, s)"
| "import_absent E imported (p # ps) s =
     (if map_of imported (pName p) \<noteq> None then import_absent E imported ps s
      else
        (case perform E (Zpool (ImportForce (pGUID p))) s of
           (Some e, s1) \<Rightarrow> (Some (Wrap (pName p) e), s1)
         | (None, s1) \<Rightarrow> import_absent E imported ps s1))"

definition importOwned :: "env \<Rightarrow> group \<Rightarrow> node \<Rightarrow> gerr option \<times> node" where
  "importOwned E g s =
     (case Get E (gName g) s of
        (Inl e, s1) \<Rightarrow> (Some e, s1)
      | (Inr cur, s1) \<Rightarrow>
          (if gOwner cur \<noteq> eSelf E then (Some (Refused (OwnedBy (gName g) (gOwner cur))), s1)
           else if isMoving E s1 (gName g) then (Some (Refused (BeingMoved (gName g))), s1)
           else
             (case importedPools E s1 of
                (Inl e, s2) \<Rightarrow> (Some e, s2)
              | (Inr imported, s2) \<Rightarrow> import_absent E imported (gPools cur) s2)))"

fun unseen :: "string list \<Rightarrow> string list \<Rightarrow> string list" where
  "unseen seen [] = []"
| "unseen seen (n # ns) =
     (if n \<noteq> [] \<and> \<not> contains seen n then n # unseen (n # seen) ns else unseen seen ns)"

definition sharedPoolNames :: "group list \<Rightarrow> string list" where
  "sharedPoolNames gs =
     sort (unseen [] (concat (map (\<lambda>g. if gTopology g \<noteq> Shared then [] else map pName (gPools g)) gs)))"

fun join_lines :: "string list \<Rightarrow> string" where
  "join_lines [] = []"
| "join_lines [x] = x"
| "join_lines (x # y # ys) = x @ CHR 0x0A # join_lines (y # ys)"

definition recordSharedPools :: "env \<Rightarrow> node \<Rightarrow> node" where
  "recordSharedPools E s =
     (if \<not> eSharedFile E then s
      else case List_groups E s of
        (Inl e, s1) \<Rightarrow> s1
      | (Inr gs, s1) \<Rightarrow>
          (let names = sharedPoolNames gs; key = join_lines names in
           if sharedList s1 = Some key then s1
           else case perform E (Zpool (SharedPools names)) s1 of
             (Some e, s2) \<Rightarrow> s2
           | (None, s2) \<Rightarrow> s2\<lparr>sharedList := Some key\<rparr>))"

definition uncache :: "env \<Rightarrow> string \<Rightarrow> node \<Rightarrow> node" where
  "uncache E pool s =
     (let already = contains (uncached s) pool;
          s1 = s\<lparr>uncached := pool # without (uncached s) pool\<rparr> in
      if already \<or> \<not> eUncache E then s1
      else case perform E (Zpool (Uncache pool)) s1 of
        (Some e, s2) \<Rightarrow> s2\<lparr>uncached := without (uncached s2) pool\<rparr>
      | (None, s2) \<Rightarrow> s2)"

fun uncache_imported :: "env \<Rightarrow> view \<Rightarrow> pool_ref list \<Rightarrow> node \<Rightarrow> node" where
  "uncache_imported E v [] s = s"
| "uncache_imported E v (p # ps) s =
     uncache_imported E v ps
       (if contains (vImportedHere v) (pName p) then uncache E (pName p) s else s)"

definition note_absent :: "(string \<rightharpoonup> peer_seen) \<Rightarrow> time \<Rightarrow> (string \<rightharpoonup> time) \<Rightarrow> (string \<rightharpoonup> time)" where
  "note_absent peers now absent =
     (\<lambda>n. case peers n of
        None \<Rightarrow> absent n
      | Some ps \<Rightarrow>
          (if psReached ps then None
           else case absent n of None \<Rightarrow> Some now | Some t \<Rightarrow> Some t))"

definition reconcile_group ::
  "env \<Rightarrow> view \<Rightarrow> (string \<rightharpoonup> peer_seen) \<Rightarrow> (string \<rightharpoonup> time) \<Rightarrow> time \<Rightarrow> group \<Rightarrow> node \<Rightarrow> node" where
  "reconcile_group E v peers absent now g s =
     (if gTopology g \<noteq> Shared \<or> gOwner g \<noteq> vSelf v \<or> isMoving E s (gName g) then s
      else
        (let s1 = uncache_imported E v (gPools g) s;
             d = planOwnerImport g v peers absent now;
             s2 = s1\<lparr>ownerImport := (ownerImport s1)(gName g \<mapsto> d)\<rparr> in
         if dAction d \<noteq> AImport then s2
         else case importOwned E g s2 of
           (Some e, s3) \<Rightarrow> s3\<lparr>ownerImport := (ownerImport s3)(gName g \<mapsto> stay (ImportFailed e))\<rparr>
         | (None, s3) \<Rightarrow>
             activate_soon E (s3\<lparr>ownerImport := (ownerImport s3)(gName g := None)\<rparr>)))"

fun reconcile_groups ::
  "env \<Rightarrow> view \<Rightarrow> (string \<rightharpoonup> peer_seen) \<Rightarrow> (string \<rightharpoonup> time) \<Rightarrow> time \<Rightarrow> group list \<Rightarrow> node \<Rightarrow> node" where
  "reconcile_groups E v peers absent now [] s = s"
| "reconcile_groups E v peers absent now (g # gs) s =
     reconcile_groups E v peers absent now gs (reconcile_group E v peers absent now g s)"

definition reconcileOwned :: "env \<Rightarrow> (string \<rightharpoonup> peer_seen) \<Rightarrow> node \<Rightarrow> node" where
  "reconcileOwned E peers s =
     (case List_groups E s of
        (Inl e, s1) \<Rightarrow> s1
      | (Inr gs, s1) \<Rightarrow>
          (case currentView E s1 of
             (Inl e, s2) \<Rightarrow> s2
           | (Inr v, s2) \<Rightarrow>
               (let now = eNow E (trace s2);
                    absent = note_absent peers now (absentSince s2) in
                reconcile_groups E v peers absent now gs (s2\<lparr>absentSince := absent\<rparr>))))"

text \<open>By hand: the first group of a shared pool decides.\<close>

definition names_pool :: "string \<Rightarrow> string \<Rightarrow> pool_ref \<Rightarrow> bool" where
  "names_pool guid name p \<longleftrightarrow> (guid \<noteq> [] \<and> pGUID p = guid) \<or> (name \<noteq> [] \<and> pName p = name)"

fun may_import_in :: "string \<Rightarrow> string \<Rightarrow> string \<Rightarrow> group list \<Rightarrow> gerr option" where
  "may_import_in self guid name [] = None"
| "may_import_in self guid name (g # gs) =
     (if gTopology g \<noteq> Shared then may_import_in self guid name gs
      else case List.find (names_pool guid name) (gPools g) of
        None \<Rightarrow> may_import_in self guid name gs
      | Some p \<Rightarrow> (if gOwner g \<noteq> self then Some (Refused (OwnedBy (pName p) (gName g))) else None))"

definition MayImport :: "env \<Rightarrow> string \<Rightarrow> string \<Rightarrow> node \<Rightarrow> gerr option \<times> node" where
  "MayImport E guid name s =
     (case List_groups E s of
        (Inl e, s1) \<Rightarrow> (Some e, s1)
      | (Inr gs, s1) \<Rightarrow> (may_import_in (eSelf E) guid name gs, s1))"

section \<open>Pulling\<close>

definition notePeerMaintenance :: "string \<Rightarrow> bool \<Rightarrow> node \<Rightarrow> node" where
  "notePeerMaintenance n on s = s\<lparr>peerMaint := (peerMaint s)(n \<mapsto> on)\<rparr>"

text \<open>\<open>errors.Is(err, ErrStale)\<close>: the error or one it wraps.\<close>

fun is_stale :: "gerr \<Rightarrow> bool" where
  "is_stale (Stale _ _ _ _ _) = True"
| "is_stale (StaleRemoval _ _) = True"
| "is_stale (Wrap _ e) = is_stale e"
| "is_stale (StaysImported _ _ e) = is_stale e"
| "is_stale (Joined es) = (\<exists>e \<in> set es. is_stale e)"
| "is_stale _ = False"

definition pull_resources :: "env \<Rightarrow> string \<Rightarrow> group \<Rightarrow> node \<Rightarrow> gerr list \<times> node" where
  "pull_resources E n g s =
     (if gOwner g = n \<and> IsCandidate g (eSelf E) then
        (case perform E (Net (FetchResources n (gName g))) s of
           (Some e, s1) \<Rightarrow> ([], s1)
         | (None, s1) \<Rightarrow>
             (case storeResources E (gName g) (eFetchResources E (trace s) (gName g)) s1 of
                (Some e, s2) \<Rightarrow> ([e], s2)
              | (None, s2) \<Rightarrow> ([], s2)))
      else ([], s))"

fun adopt_all :: "env \<Rightarrow> string \<Rightarrow> group list \<Rightarrow> node \<Rightarrow> gerr list \<times> node" where
  "adopt_all E n [] s = ([], s)"
| "adopt_all E n (g # gs) s =
     (let (r, s1) = adopt E g s;
          (res, s2) = pull_resources E n g s1;
          (errs, s3) = adopt_all E n gs s2 in
      ((case r of None \<Rightarrow> [] | Some e \<Rightarrow> if is_stale e then [] else [Wrap (gName g) (Wrap n e)]) @ res @ errs,
       s3))"

fun pull_members ::
  "env \<Rightarrow> string list \<Rightarrow> (string \<rightharpoonup> peer_seen) \<Rightarrow> node \<Rightarrow> gerr list \<times> (string \<rightharpoonup> peer_seen) \<times> node" where
  "pull_members E [] peers s = ([], peers, s)"
| "pull_members E (n # ns) peers s =
     (if n = eSelf E then pull_members E ns peers s
      else case perform E (Net (Fetch n)) s of
        (Some e, s1) \<Rightarrow> pull_members E ns (peers(n \<mapsto> unreached)) s1
      | (None, s1) \<Rightarrow>
          (let pv = eFetch E (trace s) n;
               s2 = notePeerMaintenance n (pvMaintenance pv) s1;
               ps = \<lparr>psReached = True,
                     psImported = (if pvHasImported pv then Some (pvImported pv) else None)\<rparr>;
               (errs, s3) = adopt_all E n (pvGroups pv) s2;
               (errs', peers', s4) = pull_members E ns (peers(n \<mapsto> ps)) s3 in
           (errs @ errs', peers', s4)))"

text \<open>Candidates that are no members count as not answering.\<close>

definition with_candidates ::
  "string \<Rightarrow> group list \<Rightarrow> (string \<rightharpoonup> peer_seen) \<Rightarrow> (string \<rightharpoonup> peer_seen)" where
  "with_candidates self gs peers =
     (\<lambda>c. if peers c = None \<and> c \<noteq> self \<and> (\<exists>g \<in> set gs. c \<in> set (gCandidates g))
          then Some unreached else peers c)"

definition SyncOnce :: "env \<Rightarrow> node \<Rightarrow> gerr option \<times> node" where
  "SyncOnce E s =
     (let (errs, peers, s1) = pull_members E (eMembers E (trace s)) Map.empty s;
          (r, s2) = List_groups E s1;
          peers' = (case r of Inl e \<Rightarrow> peers | Inr gs \<Rightarrow> with_candidates (eSelf E) gs peers);
          s3 = reconcileOwned E peers' (recordSharedPools E s2) in
      (join_errors errs, s3))"

section \<open>The decision is safe\<close>

text \<open>A candidate that answered and uses none of the pools; one that is gone for good.\<close>

definition answered_clear :: "group \<Rightarrow> (string \<rightharpoonup> peer_seen) \<Rightarrow> string \<Rightarrow> bool" where
  "answered_clear g peers c \<longleftrightarrow>
     (\<exists>imported. peers c = Some \<lparr>psReached = True, psImported = Some imported\<rparr> \<and>
        (\<forall>p \<in> set (gPools g). pName p \<notin> set imported))"

definition answered :: "(string \<rightharpoonup> peer_seen) \<Rightarrow> string \<Rightarrow> bool" where
  "answered peers c \<longleftrightarrow> psReached (seen_of peers c) \<and> psImported (seen_of peers c) \<noteq> None"

definition reset_by_now :: "view \<Rightarrow> (string \<rightharpoonup> time) \<Rightarrow> time \<Rightarrow> string \<Rightarrow> bool" where
  "reset_by_now v absent now c \<longleftrightarrow>
     vQuorum v \<and> vFenceOK v \<and> c \<notin> set (vOnline v) \<and> absent_since absent now c + vFenceDelay v \<le> now"

lemma first_used_None: "first_used imported ps = None \<longleftrightarrow> (\<forall>p \<in> set ps. pName p \<notin> set imported)"
  by (induction ps) auto

lemma answered_clear_iff:
  "answered_clear g peers c \<longleftrightarrow>
     answered peers c \<and> first_used (the (psImported (seen_of peers c))) (gPools g) = None"
  unfolding first_used_None answered_clear_def answered_def seen_of_def unreached_def
  by (cases "peers c") (auto, metis (full_types) old.unit.exhaust peer_seen.surjective)

lemma ask_candidates_Inr:
  "ask_candidates self (gPools g) peers cs = Inr silent \<Longrightarrow>
     silent = filter (\<lambda>c. c \<noteq> self \<and> \<not> answered peers c) cs \<and>
     (\<forall>c \<in> set cs. c \<noteq> self \<longrightarrow> answered peers c \<longrightarrow> answered_clear g peers c)"
proof (induction cs arbitrary: silent)
  case (Cons c cs)
  then show ?case
    by (auto simp: answered_clear_iff answered_def split: if_splits sum.splits option.splits)
qed simp

lemma ask_candidates_clear:
  "(\<forall>c \<in> set cs. c \<noteq> self \<longrightarrow> answered peers c \<longrightarrow> answered_clear g peers c) \<Longrightarrow>
   ask_candidates self (gPools g) peers cs = Inr (filter (\<lambda>c. c \<noteq> self \<and> \<not> answered peers c) cs)"
  by (induction cs) (auto simp: answered_clear_iff answered_def split: option.splits)

lemma latest_silent_Inr:
  "latest_silent online absent now cs latest = Inr t \<Longrightarrow>
     latest \<le> t \<and> (\<forall>c \<in> set cs. c \<notin> set online \<and> absent_since absent now c \<le> t) \<and>
     (t = latest \<or> (\<exists>c \<in> set cs. t = absent_since absent now c))"
  by (induction cs arbitrary: latest) (fastforce split: if_splits)+

lemma latest_silent_total:
  "\<forall>c \<in> set cs. c \<notin> set online \<Longrightarrow> \<exists>t. latest_silent online absent now cs latest = Inr t"
  by (induction cs arbitrary: latest) auto

lemma absent_since_pos:
  "0 < now \<Longrightarrow> \<forall>c t. absent c = Some t \<longrightarrow> 0 \<le> t \<Longrightarrow> 0 < absent_since absent now c"
  by (cases "absent c") (force simp: absent_since_def)+

lemma silent_due:
  assumes "0 < now" and "\<forall>c t. absent c = Some t \<longrightarrow> 0 \<le> t" and "c \<in> set cs"
  shows "(\<forall>c \<in> set cs. reset_by_now v absent now c) \<longleftrightarrow>
     vQuorum v \<and> vFenceOK v \<and>
     (case latest_silent (vOnline v) absent now cs 0 of
        Inl c \<Rightarrow> False | Inr t \<Rightarrow> t + vFenceDelay v \<le> now)"
proof (cases "latest_silent (vOnline v) absent now cs 0")
  case (Inl x)
  then have "\<exists>c \<in> set cs. c \<in> set (vOnline v)"
    using latest_silent_total [of cs "vOnline v" absent now 0] by force
  with Inl show ?thesis by (auto simp: reset_by_now_def)
next
  case (Inr t)
  have upper: "\<forall>c \<in> set cs. c \<notin> set (vOnline v) \<and> absent_since absent now c \<le> t"
    and "t = 0 \<or> (\<exists>c \<in> set cs. t = absent_since absent now c)"
    using latest_silent_Inr [OF Inr] by auto
  moreover have "t \<noteq> 0"
    using upper assms(3) absent_since_pos [OF assms(1,2), of c] by force
  ultimately show ?thesis using Inr assms(3) by (fastforce simp: reset_by_now_def)
qed

text \<open>
  The owner imports its pools exactly when some pool of the shared group is missing here, this
  node is not outside the quorate partition, and each other candidate either answered without
  having any pool of the group imported, or left the quorate partition so long ago that its
  watchdog has reset it.
\<close>

theorem planOwnerImport_iff:
  assumes "0 < now" and "\<forall>c t. absent c = Some t \<longrightarrow> 0 \<le> t"
  shows "dAction (planOwnerImport g v peers absent now) = AImport \<longleftrightarrow>
     gTopology g = Shared \<and> gOwner g = vSelf v \<and>
     (\<exists>p \<in> set (gPools g). pName p \<notin> set (vImportedHere v)) \<and> (vQuorum v \<longrightarrow> vQuorate v) \<and>
     (\<forall>c \<in> set (gCandidates g) - {vSelf v}.
        answered_clear g peers c \<or> (\<not> answered peers c \<and> reset_by_now v absent now c))"
  (is "_ \<longleftrightarrow> ?here \<and> ?owner \<and> ?missing \<and> ?quorate \<and> ?others")
proof (cases "ask_candidates (vSelf v) (gPools g) peers (gCandidates g)")
  case (Inl u)
  then have "\<not> ?others" using ask_candidates_clear [of "gCandidates g" "vSelf v" peers g] by auto
  with Inl show ?thesis by (cases u) (auto simp: planOwnerImport_def stay_def no_decision_def)
next
  case (Inr silent)
  then have others: "?others \<longleftrightarrow> (\<forall>c \<in> set silent. reset_by_now v absent now c)"
    using ask_candidates_Inr [OF Inr] by (auto simp: answered_clear_iff)
  show ?thesis
  proof (cases silent)
    case Nil
    with Inr show ?thesis
      unfolding others by (auto simp: planOwnerImport_def stay_def no_decision_def)
  next
    case (Cons c cs)
    then have "?others \<longleftrightarrow> vQuorum v \<and> vFenceOK v \<and>
       (case latest_silent (vOnline v) absent now silent 0 of
          Inl c \<Rightarrow> False | Inr t \<Rightarrow> t + vFenceDelay v \<le> now)"
      unfolding others using silent_due [OF assms, of c silent v] by simp
    with Inr Cons show ?thesis
      by (auto simp: planOwnerImport_def stay_def no_decision_def Let_def split: sum.split)
  qed
qed

text \<open>Two nodes, the other candidate absent and reset: the owner imports.\<close>

lemma planOwnerImport_iff_witness:
  "dAction (planOwnerImport
      \<lparr>gName = ''g'', gTopology = Shared, gPools = [\<lparr>pName = ''tank'', pGUID = ''7''\<rparr>],
       gCandidates = [''a'', ''b''], gOwner = ''a'', gEpoch = 1, gVersion = 1, gUpdatedAt = 5,
       gUpdatedBy = ''a'', gIntervalSecs = 300, gAutoFailover = True, gAddress = [], gInterface = []\<rparr>
      \<lparr>vSelf = ''a'', vQuorum = True, vQuorate = True, vImportedHere = [], vOnline = [''a''],
       vAutoFailover = True, vAutoFailoverReason = [], vFenceOK = True, vFenceReason = [],
       vFenceDelay = 60, vChanging = [], vMaintenance = []\<rparr>
      [''b'' \<mapsto> unreached] [''b'' \<mapsto> 100] 200) = AImport"
  by (subst planOwnerImport_iff)
    (auto simp: answered_clear_def answered_def seen_of_def unreached_def reset_by_now_def absent_since_def)

section \<open>The table of groups\<close>

lemma groups_import_absent [simp]: "groups (snd (import_absent E imported ps s)) = groups s"
  by (induction ps arbitrary: s) (auto simp: split_beta split: option.split)

lemma groups_importOwned [simp]: "groups (snd (importOwned E g s)) = groups s"
  by (simp add: importOwned_def split_beta split: sum.split)

lemma groups_recordSharedPools [simp]: "groups (recordSharedPools E s) = groups s"
  by (simp add: recordSharedPools_def split_beta Let_def split: sum.split option.split)

lemma groups_uncache [simp]: "groups (uncache E pool s) = groups s"
  by (simp add: uncache_def split_beta Let_def split: option.split)

lemma groups_uncache_imported [simp]: "groups (uncache_imported E v ps s) = groups s"
  by (induction ps arbitrary: s) simp_all

lemma groups_reconcile_group [simp]: "groups (reconcile_group E v peers absent now g s) = groups s"
  by (simp add: reconcile_group_def split_beta Let_def split: option.split)

lemma groups_reconcile_groups [simp]: "groups (reconcile_groups E v peers absent now gs s) = groups s"
  by (induction gs arbitrary: s) simp_all

lemma groups_reconcileOwned [simp]: "groups (reconcileOwned E peers s) = groups s"
  by (simp add: reconcileOwned_def split_beta Let_def split: sum.split)

lemma groups_storeResources [simp]: "groups (snd (storeResources E n r s)) = groups s"
  by (simp add: storeResources_def split_beta Let_def split: option.split)

lemma groups_pull_resources [simp]: "groups (snd (pull_resources E n g s)) = groups s"
  by (simp add: pull_resources_def split_beta split: option.split)

lemma table_ok_adopt_all: "table_ok (groups s) \<Longrightarrow> table_ok (groups (snd (adopt_all E n gs s)))"
  by (induction gs arbitrary: s) (simp_all add: split_beta Let_def table_ok_adopt)

lemma groups_notePeerMaintenance [simp]: "groups (notePeerMaintenance n on s) = groups s"
  by (simp add: notePeerMaintenance_def)

lemma table_ok_pull_members:
  "table_ok (groups s) \<Longrightarrow> table_ok (groups (snd (snd (pull_members E ns peers s))))"
proof (induction ns arbitrary: peers s)
  case (Cons n ns)
  show ?case
  proof (cases "eResult E (trace s) (Net (Fetch n))")
    case None
    with Cons show ?thesis by (simp add: split_beta Let_def perform_fst table_ok_adopt_all)
  next
    case (Some e)
    with Cons show ?thesis by (simp add: split_beta perform_fst)
  qed
qed simp

lemma table_ok_SyncOnce: "table_ok (groups s) \<Longrightarrow> table_ok (groups (snd (SyncOnce E s)))"
  by (simp add: SyncOnce_def split_beta Let_def table_ok_pull_members)

end
