(* ===== verification/Failover.thy ===== *)
theory Failover
  imports OwnerImport Samples
begin

text \<open>
  Taking a group over (\<open>internal/groups/failover.go\<close>): the pure decision \<open>planFailover\<close>, the
  periodic \<open>FailoverTick\<close> that tracks since when each owner is missing, the operator's
  \<open>Takeover\<close>, and the takeover itself, which raises the epoch.
\<close>

section \<open>Deciding\<close>

text \<open>The first candidate that could take over: online, not the owner, not in maintenance.\<close>

fun first_standby :: "group \<Rightarrow> view \<Rightarrow> string list \<Rightarrow> string option" where
  "first_standby g v [] = None"
| "first_standby g v (c # cs) =
     (if c = gOwner g \<or> \<not> contains (vOnline v) c \<or> contains (vMaintenance v) c
      then first_standby g v cs else Some c)"

definition planFailover :: "group \<Rightarrow> view \<Rightarrow> time \<Rightarrow> time \<Rightarrow> decision" where
  "planFailover g v lostSince0 now =
     (if gOwner g = vSelf v \<or> \<not> IsCandidate g (vSelf v) \<or> \<not> vQuorum v then no_decision
      else if contains (vOnline v) (gOwner g) then no_decision
      else if gTopology g = Standalone then no_decision
      else if contains (vMaintenance v) (vSelf v) then stay SelfInMaintenance
      else if gTopology g = Replicated \<and> \<not> gAutoFailover g then stay ReplicatedIsManual
      else if \<not> vAutoFailover v then stay (AutoFailoverOff (vAutoFailoverReason v))
      else if \<not> vFenceOK v then stay (FencingMissing (vFenceReason v))
      else if (case first_standby g v (gCandidates g) of None \<Rightarrow> False | Some c \<Rightarrow> c \<noteq> vSelf v)
      then stay HigherPriorityTakesOver
      else
        (let since = (if lostSince0 = 0 then now else lostSince0);
             until = since + vFenceDelay v in
         if now < until then \<lparr>dAction = AWait, dReason = TakingOverAt until, dWaitUntil = until\<rparr>
         else \<lparr>dAction = ATakeover, dReason = OwnerLeft, dWaitUntil = 0\<rparr>))"

section \<open>Taking over\<close>

text \<open>A replicated group: every copy must be imported here; it becomes writable.\<close>

fun open_copies :: "env \<Rightarrow> (string \<times> string) list \<Rightarrow> pool_ref list \<Rightarrow> node \<Rightarrow> gerr option \<times> node" where
  "open_copies E imported [] s = (None, s)"
| "open_copies E imported (p # ps) s =
     (if map_of imported (pName p) = None then (Some (Refused (PoolNotImported (pName p))), s)
      else case perform E (Zfs (SetReadonly (pName p) False)) s of
        (Some e, s1) \<Rightarrow> (Some e, s1)
      | (None, s1) \<Rightarrow> open_copies E imported ps s1)"

text \<open>A shared group: import what is not here; \<open>im\<close> are the pools imported before.\<close>

fun force_import ::
  "env \<Rightarrow> (string \<times> string) list \<Rightarrow> pool_ref list \<Rightarrow> pool_ref list \<Rightarrow> node
     \<Rightarrow> ((pool_ref \<times> gerr \<times> pool_ref list) + pool_ref list) \<times> node" where
  "force_import E imported im [] s = (Inr im, s)"
| "force_import E imported im (p # ps) s =
     (if map_of imported (pName p) \<noteq> None then force_import E imported im ps s
      else case perform E (Zpool (ImportForce (pGUID p))) s of
        (Some e, s1) \<Rightarrow> (Inl (p, e, im), s1)
      | (None, s1) \<Rightarrow> force_import E imported (im @ [p]) ps s1)"

text \<open>The common end: store the raised epoch, start the group here, tell the others.\<close>

definition took_over :: "env \<Rightarrow> group \<Rightarrow> node \<Rightarrow> gerr option \<times> node" where
  "took_over E g s =
     (let ng = handed_to E (eSelf E) g s in
      case put E ng s of
        (Some e, s1) \<Rightarrow> (Some e, s1)
      | (None, s1) \<Rightarrow>
          (let s2 = setMoving (gName g) False s1;
               (mr, s3) = materialize E ng s2;
               (warnings, s4) = pushAll E ng [gOwner g] (activate_soon E s3) in
           (None, s4)))"

definition take_pools :: "env \<Rightarrow> group \<Rightarrow> (string \<times> string) list \<Rightarrow> node \<Rightarrow> gerr option \<times> node" where
  "take_pools E g imported s =
     (if gTopology g = Replicated then open_copies E imported (gPools g) s
      else case force_import E imported [] (gPools g) s of
        (Inl (p, e, im), s1) \<Rightarrow>
          (let (errs, s2) = giveBack E im ''this node'' s1 in
           (join_errors (Wrap (pName p) e # errs), s2))
      | (Inr im, s1) \<Rightarrow> (None, s1))"

definition takeover :: "env \<Rightarrow> string \<Rightarrow> node \<Rightarrow> gerr option \<times> node" where
  "takeover E name s =
     (case Get E name s of
        (Inl e, s1) \<Rightarrow> (Some e, s1)
      | (Inr g, s1) \<Rightarrow>
          (let s2 = setMoving name True s1;
               (r, s5) =
                 (case importedPools E s2 of
                    (Inl e, s3) \<Rightarrow> (Some e, s3)
                  | (Inr imported, s3) \<Rightarrow>
                      (case take_pools E g imported s3 of
                         (Some e, s4) \<Rightarrow> (Some e, s4)
                       | (None, s4) \<Rightarrow> took_over E g s4)) in
           (r, setMoving name False s5)))"

definition Takeover :: "env \<Rightarrow> string \<Rightarrow> node \<Rightarrow> (gerr + group) \<times> node" where
  "Takeover E name s =
     (case Get E name s of
        (Inl e, s1) \<Rightarrow> (Inl e, s1)
      | (Inr g, s1) \<Rightarrow>
          (case currentView E s1 of
             (Inl e, s2) \<Rightarrow> (Inl e, s2)
           | (Inr v, s2) \<Rightarrow>
               (if gOwner g = vSelf v then
                  (if (\<forall>p \<in> set (gPools g). pName p \<in> set (vImportedHere v)) \<or> gTopology g \<noteq> Shared
                   then (Inl (Refused AlreadyOwner), s2)
                   else case importOwned E g s2 of
                     (Some e, s3) \<Rightarrow> (Inl e, s3)
                   | (None, s3) \<Rightarrow> Get E name (activate_soon E s3))
                else if \<not> IsCandidate g (vSelf v) then (Inl (Refused NotCandidate), s2)
                else if vQuorum v \<and> contains (vOnline v) (gOwner g) then (Inl (Refused OwnerOnline), s2)
                else case takeover E name s2 of
                  (Some e, s3) \<Rightarrow> (Inl e, s3)
                | (None, s3) \<Rightarrow> Get E name s3)))"

section \<open>The periodic pass\<close>

definition track_owner :: "view \<Rightarrow> time \<Rightarrow> group \<Rightarrow> (string \<rightharpoonup> time) \<Rightarrow> (string \<rightharpoonup> time)" where
  "track_owner v now g lost =
     (if gOwner g = vSelf v \<or> contains (vOnline v) (gOwner g) \<or> \<not> vQuorum v then lost(gName g := None)
      else if lost (gName g) = None then lost(gName g \<mapsto> now) else lost)"

fun decide_groups :: "view \<Rightarrow> time \<Rightarrow> group list \<Rightarrow> node \<Rightarrow> group list \<times> node" where
  "decide_groups v now [] s = ([], s)"
| "decide_groups v now (g # gs) s =
     (let lost = track_owner v now g (lostSince s);
          d = planFailover g v (case lost (gName g) of None \<Rightarrow> 0 | Some t \<Rightarrow> t) now;
          (todo, s1) = decide_groups v now gs
            (s\<lparr>lostSince := lost, decisions := (decisions s)(gName g \<mapsto> d)\<rparr>) in
      (if dAction d = ATakeover then g # todo else todo, s1))"

definition attempt :: "env \<Rightarrow> group \<Rightarrow> node \<Rightarrow> node" where
  "attempt E g s =
     (case takeover E (gName g) s of
        (Some e, s1) \<Rightarrow> s1\<lparr>decisions := (decisions s1)(gName g \<mapsto> stay (TakeoverFailed e))\<rparr>
      | (None, s1) \<Rightarrow> s1)"

definition fail_over :: "env \<Rightarrow> group \<Rightarrow> node \<Rightarrow> node" where
  "fail_over E g s =
     (if \<not> eFencing E then attempt E g s
      else case perform E (Net (Fence (gOwner g))) s of
        (Some e, s1) \<Rightarrow>
          (if \<not> eWatchdog E (trace s1)
           then s1\<lparr>decisions := (decisions s1)(gName g \<mapsto> stay (FencingFailed e))\<rparr>
           else attempt E g s1)
      | (None, s1) \<Rightarrow> attempt E g s1)"

fun fail_over_all :: "env \<Rightarrow> group list \<Rightarrow> node \<Rightarrow> node" where
  "fail_over_all E [] s = s"
| "fail_over_all E (g # gs) s = fail_over_all E gs (fail_over E g s)"

definition FailoverTick :: "env \<Rightarrow> node \<Rightarrow> node" where
  "FailoverTick E s =
     (case List_groups E s of
        (Inl e, s1) \<Rightarrow> s1
      | (Inr gs, s1) \<Rightarrow>
          (case currentView E s1 of
             (Inl e, s2) \<Rightarrow> s2
           | (Inr v, s2) \<Rightarrow>
               (let (todo, s3) = decide_groups v (eNow E (trace s2)) gs s2 in fail_over_all E todo s3)))"

section \<open>The decision\<close>

definition eligible :: "group \<Rightarrow> view \<Rightarrow> string \<Rightarrow> bool" where
  "eligible g v c \<longleftrightarrow> c \<noteq> gOwner g \<and> c \<in> set (vOnline v) \<and> c \<notin> set (vMaintenance v)"

lemma first_standby_find: "first_standby g v cs = List.find (eligible g v) cs"
  by (induction cs) (auto simp: eligible_def)

text \<open>
  A node takes a group over automatically exactly when the owner is missing from a cluster with
  quorum, this node is an available candidate and no candidate of higher priority could do it,
  failover is allowed for the group and in the cluster, fencing works, and the owner has been
  missing for the fencing delay.
\<close>

theorem planFailover_iff:
  "dAction (planFailover g v lost now) = ATakeover \<longleftrightarrow>
     gOwner g \<noteq> vSelf v \<and> vSelf v \<in> set (gCandidates g) \<and> vQuorum v \<and> gOwner g \<notin> set (vOnline v) \<and>
     gTopology g \<noteq> Standalone \<and> vSelf v \<notin> set (vMaintenance v) \<and>
     (gTopology g = Replicated \<longrightarrow> gAutoFailover g) \<and> vAutoFailover v \<and> vFenceOK v \<and>
     List.find (eligible g v) (gCandidates g) \<in> {None, Some (vSelf v)} \<and>
     (if lost = 0 then now else lost) + vFenceDelay v \<le> now"
  by (auto simp: planFailover_def no_decision_def stay_def Let_def first_standby_find split: option.split)

lemma planFailover_iff_witness:
  "dAction (planFailover (sample_group ''a'' 3) (sample_view ''b'' [] [''b'']) 100 160) = ATakeover"
  by (subst planFailover_iff) (simp add: eligible_def)

lemma takeover_candidate:
  assumes "dAction (planFailover g v lost now) = ATakeover"
  shows "gOwner g \<noteq> vSelf v" and "vSelf v \<in> set (gCandidates g)" and "gOwner g \<notin> set (vOnline v)"
    and "vSelf v \<in> set (vOnline v) \<Longrightarrow> List.find (eligible g v) (gCandidates g) = Some (vSelf v)"
proof -
  show "gOwner g \<noteq> vSelf v" "vSelf v \<in> set (gCandidates g)" "gOwner g \<notin> set (vOnline v)"
    using assms by (auto simp: planFailover_def no_decision_def split: if_splits)
  assume "vSelf v \<in> set (vOnline v)"
  moreover have "vSelf v \<notin> set (vMaintenance v)"
    using assms by (auto simp: planFailover_def no_decision_def stay_def split: if_splits)
  ultimately have "eligible g v (vSelf v)" using \<open>gOwner g \<noteq> vSelf v\<close> by (simp add: eligible_def)
  then have "List.find (eligible g v) (gCandidates g) \<noteq> None"
    using \<open>vSelf v \<in> set (gCandidates g)\<close> by (auto simp: find_None_iff)
  with assms show "List.find (eligible g v) (gCandidates g) = Some (vSelf v)"
    by (auto simp: planFailover_def no_decision_def stay_def first_standby_find split: if_splits option.splits)
qed

text \<open>
  C1. At most one node takes over: two nodes of a partition that agree on who is online and who is
  in maintenance never both decide to take the same group over, whatever each knows of the rest.
\<close>

theorem failover_unique:
  assumes "dAction (planFailover g v lost now) = ATakeover"
    and "dAction (planFailover g v' lost' now') = ATakeover"
    and "vOnline v = vOnline v'" and "vMaintenance v = vMaintenance v'"
    and "vSelf v \<in> set (vOnline v)" and "vSelf v' \<in> set (vOnline v)"
  shows "vSelf v = vSelf v'"
proof -
  have "eligible g v = eligible g v'" using assms(3,4) by (auto simp: eligible_def fun_eq_iff)
  with takeover_candidate(4) [OF assms(1,5)] takeover_candidate(4) [OF assms(2)] assms(3,6)
  show ?thesis by simp
qed

lemma failover_unique_witness:
  "vSelf (sample_view ''b'' [] [''b'', ''c'']) = vSelf (sample_view ''b'' [''x''] [''b'', ''c''])"
  by (rule failover_unique [of "sample_group ''a'' 3" _ 100 160 _ 90 170])
    (simp_all add: planFailover_def no_decision_def stay_def)

section \<open>The table of groups\<close>

lemma groups_open_copies [simp]: "groups (snd (open_copies E imported ps s)) = groups s"
  by (induction ps arbitrary: s) (auto simp: split_beta split: option.split)

lemma groups_force_import [simp]: "groups (snd (force_import E imported im ps s)) = groups s"
  by (induction ps arbitrary: im s) (auto simp: split_beta split: option.split)

lemma groups_take_pools [simp]: "groups (snd (take_pools E g imported s)) = groups s"
  by (simp add: take_pools_def split_beta Let_def split: sum.split)

lemma took_over_stores:
  "groups s' = groups s \<Longrightarrow> stores (handed (eSelf E) g) s (snd (took_over E g s'))"
  using stores_put [of s' s "handed (eSelf E) g" "handed_to E (eSelf E) g s'" E]
  by (auto simp: took_over_def split_beta Let_def stores_def split: option.split)

lemma takeover_stores:
  assumes "Get E name s = (Inr g, s1)"
  shows "stores (handed (eSelf E) g) s (snd (takeover E name s))"
  using Get_groups [OF assms]
  by (auto simp: takeover_def assms split_beta Let_def stores_same intro: took_over_stores
      split: sum.split option.split)

text \<open>A takeover of a group this node is no candidate of would break the row; \<open>takeover\<close> is guarded.\<close>

lemma table_ok_takeover:
  assumes "table_ok (groups s)"
    and "\<And>g. row gName (groups s) name = Some g \<Longrightarrow> eSelf E \<in> set (gCandidates g)"
  shows "table_ok (groups (snd (takeover E name s)))"
proof (cases "Get E name s")
  case (Pair r s1)
  show ?thesis
  proof (cases r)
    case (Inl e)
    with Pair assms(1) Get_groups [OF Pair] show ?thesis by (simp add: takeover_def)
  next
    case (Inr g)
    then have G: "Get E name s = (Inr g, s1)" using Pair by simp
    show ?thesis
      using takeover_stores [OF G]
      by (rule table_ok_stores)
        (use wf_shape_handed table_ok_Get [OF assms(1) G] assms(2) Get_InrD [OF G] assms(1) in blast)+
  qed
qed

lemma takeover_candidates:
  assumes "row gName (groups (snd (takeover E name s))) n = Some h"
  shows "\<exists>g. row gName (groups s) n = Some g \<and> gCandidates g = gCandidates h"
proof (cases "Get E name s")
  case (Pair r s1)
  show ?thesis
  proof (cases r)
    case (Inl e)
    with Pair assms Get_groups [OF Pair] show ?thesis by (simp add: takeover_def)
  next
    case (Inr g)
    then have G: "Get E name s = (Inr g, s1)" using Pair by simp
    show ?thesis
      using stores_row [OF takeover_stores [OF G] assms] Get_InrD [OF G] row_key
      by (metis handed_def)
  qed
qed

lemma groups_decide_groups [simp]: "groups (snd (decide_groups v now gs s)) = groups s"
  by (induction gs arbitrary: s) (simp_all add: Let_def split_beta)

lemma decide_groups_todo:
  "g \<in> set (fst (decide_groups v now gs s)) \<Longrightarrow> g \<in> set gs \<and> vSelf v \<in> set (gCandidates g)"
proof (induction gs arbitrary: s)
  case (Cons x xs)
  then show ?case by (auto simp: Let_def split_beta dest: takeover_candidate(2) split: if_splits)
qed simp

text \<open>Every stored group of this name has this node among its candidates.\<close>

definition candidate_in :: "env \<Rightarrow> node \<Rightarrow> string \<Rightarrow> bool" where
  "candidate_in E s name \<longleftrightarrow> (\<forall>g. row gName (groups s) name = Some g \<longrightarrow> eSelf E \<in> set (gCandidates g))"

lemma candidate_in_takeover: "candidate_in E s n \<Longrightarrow> candidate_in E (snd (takeover E name s)) n"
  unfolding candidate_in_def by (metis takeover_candidates)

lemma attempt_ok:
  "table_ok (groups s) \<Longrightarrow> candidate_in E s (gName g) \<Longrightarrow> table_ok (groups (attempt E g s))"
  "candidate_in E s n \<Longrightarrow> candidate_in E (attempt E g s) n"
proof -
  have *: "groups (attempt E g s) = groups (snd (takeover E (gName g) s))"
    by (simp add: attempt_def split_beta split: option.split)
  show "table_ok (groups s) \<Longrightarrow> candidate_in E s (gName g) \<Longrightarrow> table_ok (groups (attempt E g s))"
    unfolding * candidate_in_def by (rule table_ok_takeover) auto
  show "candidate_in E s n \<Longrightarrow> candidate_in E (attempt E g s) n"
    using candidate_in_takeover [of E s n "gName g"] unfolding candidate_in_def * .
qed

lemma fail_over_ok:
  "table_ok (groups s) \<Longrightarrow> candidate_in E s (gName g) \<Longrightarrow> table_ok (groups (fail_over E g s))"
  "candidate_in E s n \<Longrightarrow> candidate_in E (fail_over E g s) n"
proof -
  have c: "candidate_in E (snd (perform E a s)) m = candidate_in E s m" for a m
    by (simp add: candidate_in_def)
  show "table_ok (groups s) \<Longrightarrow> candidate_in E s (gName g) \<Longrightarrow> table_ok (groups (fail_over E g s))"
    by (simp add: fail_over_def split_beta attempt_ok c split: option.split)
  show "candidate_in E s n \<Longrightarrow> candidate_in E (fail_over E g s) n"
    by (simp add: fail_over_def split_beta attempt_ok c split: option.split)
      (simp add: candidate_in_def)
qed

lemma fail_over_all_ok:
  "table_ok (groups s) \<Longrightarrow> \<forall>g \<in> set gs. candidate_in E s (gName g) \<Longrightarrow>
     table_ok (groups (fail_over_all E gs s))"
  by (induction gs arbitrary: s) (simp_all add: fail_over_ok)

lemma table_ok_FailoverTick:
  assumes "table_ok (groups s)" shows "table_ok (groups (FailoverTick E s))"
proof (cases "List_groups E s")
  case (Pair r s1)
  have s1: "groups s1 = groups s" using List_groups_frame(1) [of E s] Pair by simp
  show ?thesis
  proof (cases "(\<exists>gs. r = Inr gs) \<and> (\<exists>v. fst (currentView E s1) = Inr v)")
    case True
    then obtain gs v s2 where r: "r = Inr gs" and v: "currentView E s1 = (Inr v, s2)"
      by (metis eq_fst_iff)
    have gs: "gs = groups s" using Pair r by (auto simp: List_groups_def perform_def split: option.splits)
    have s2: "groups s2 = groups s" using currentView_frame(1) [of E s1] v s1 by simp
    let ?d = "decide_groups v (eNow E (trace s2)) gs s2"
    have "\<forall>g \<in> set (fst ?d). candidate_in E (snd ?d) (gName g)"
      using decide_groups_todo [of _ v _ gs s2] currentView_InrD(1) [OF v] assms
      by (fastforce simp: candidate_in_def gs s2 table_ok_def dest: row_of_ordered)
    then show ?thesis
      using fail_over_all_ok [of "snd ?d" "fst ?d" E] assms s2
      by (simp add: FailoverTick_def Pair r v split_beta)
  next
    case False
    then show ?thesis using Pair s1 assms currentView_frame(1) [of E s1]
      by (auto simp: FailoverTick_def split_beta Let_def split: sum.splits)
  qed
qed

lemma table_ok_Takeover:
  assumes "table_ok (groups s)" shows "table_ok (groups (snd (Takeover E name s)))"
proof (cases "Get E name s")
  case (Pair r s1)
  show ?thesis
  proof (cases "(\<exists>g. r = Inr g) \<and> (\<exists>v. fst (currentView E s1) = Inr v)")
    case True
    then obtain g v s2 where r: "r = Inr g" and v: "currentView E s1 = (Inr v, s2)"
      by (metis eq_fst_iff)
    have s2: "groups s2 = groups s" using currentView_frame(1) [of E s1] v Get_groups [OF Pair] by simp
    have row: "row gName (groups s) name = Some g" using Get_InrD Pair r by simp
    show ?thesis
      using table_ok_takeover [of s2 name E] currentView_InrD(1) [OF v] assms s2 row
      by (simp add: Takeover_def Pair r v split_beta split: option.split)
  next
    case False
    then show ?thesis using Pair Get_groups [OF Pair] assms currentView_frame(1) [of E s1]
      by (auto simp: Takeover_def split_beta split: sum.splits)
  qed
qed

section \<open>A takeover that cannot be recorded\<close>

text \<open>
  When the new owner cannot be stored, the takeover fails with that error and the stored groups
  stay as they were, but the last call it makes is that write: the pools it imported with force
  (or the copies it made writable) are not given back, while the stored owner is another node.
\<close>

theorem takeover_not_recorded:
  assumes "fst (Get E name s) = Inr g"
    and "fst (importedPools E (setMoving name True (snd (Get E name s)))) = Inr imported"
    and "take_pools E g imported (snd (importedPools E (setMoving name True (snd (Get E name s))))) = (None, t)"
    and "eResult E (trace t) (Db (PutGroup (stored_form (eNow E (trace t)) (handed_to E (eSelf E) g t)))) = Some e"
  shows "\<exists>u. takeover E name s = (Some e, u) \<and> groups u = groups s \<and>
     trace u = trace t @ [Db (PutGroup (stored_form (eNow E (trace t)) (handed_to E (eSelf E) g t)))]"
proof -
  have t: "groups t = groups s" using assms(3) groups_take_pools [of E g imported] by (metis snd_conv
        importedPools_frame(1) setMoving_simps(1) Get_frame(1))
  have "put E (handed_to E (eSelf E) g t) t =
      (Some e, t\<lparr>trace := trace t @ [Db (PutGroup (stored_form (eNow E (trace t)) (handed_to E (eSelf E) g t)))]\<rparr>)"
    using assms(4) by (simp add: put_def perform_def Let_def)
  with assms(1-3) t show ?thesis by (simp add: takeover_def took_over_def split_beta Let_def)
qed

lemma takeover_not_recorded_witness:
  "\<exists>u. takeover (sample_env ''b'' [] [''b''] (\<lambda>a. case a of Db (PutGroup h) \<Rightarrow> Some (External ''disk full'') | _ \<Rightarrow> None))
      ''g'' (sample_node [sample_group ''a'' 1]) = (Some (External ''disk full''), u) \<and>
     groups u = [sample_group ''a'' 1] \<and> Zpool (ImportForce ''7'') \<in> set (trace u) \<and>
     (\<forall>p. Zpool (Export p) \<notin> set (trace u))"
proof -
  let ?E = "sample_env ''b'' [] [''b''] (\<lambda>a. case a of Db (PutGroup h) \<Rightarrow> Some (External ''disk full'') | _ \<Rightarrow> None)"
  let ?s = "sample_node [sample_group ''a'' 1]" and ?g = "sample_group ''a'' 1"
  let ?t = "?s\<lparr>trace := [Db Query, Zpool ListPools, Zpool (ImportForce ''7'')], moving := [''g''], lastPools := Some []\<rparr>"
  have "\<exists>u. takeover ?E ''g'' ?s = (Some (External ''disk full''), u) \<and> groups u = groups ?s \<and>
     trace u = trace ?t @ [Db (PutGroup (stored_form (eNow ?E (trace ?t)) (handed_to ?E (eSelf ?E) ?g ?t)))]"
    by (rule takeover_not_recorded [of ?E "''g''" ?s ?g "[]" ?t])
      (simp_all add: Get_def perform_def row_Cons importedPools_def setMoving_def take_pools_def)
  then show ?thesis by auto
qed

section \<open>Outcome of a takeover\<close>

definition takeover_left :: "env \<Rightarrow> group \<Rightarrow> node \<Rightarrow> gerr option \<times> node \<Rightarrow> bool" where
  "takeover_left E g s rt \<longleftrightarrow>
     (case fst rt of
        Some e \<Rightarrow> groups (snd rt) = groups s
      | None \<Rightarrow> \<exists>h. handed_over (eSelf E) g h \<and> only_row (gName g) h (groups s) (groups (snd rt)))"

lemma takeover_left_Some [simp]: "takeover_left E g s (Some e, t) \<longleftrightarrow> groups t = groups s"
  by (simp add: takeover_left_def)

lemma took_over_left:
  assumes "groups s' = groups s" shows "takeover_left E g s (took_over E g s')"
proof -
  let ?h = "handed_to E (eSelf E) g s'"
  have "gName ?h = gName g" by (simp add: handed_to_def)
  with assms show ?thesis
    by (cases E ?h s' rule: put_cases)
      (auto simp: took_over_def takeover_left_def only_row_def split_beta Let_def intro!: exI [of _ ?h])
qed

text \<open>
  A takeover that succeeds stores the group with this node as its owner and the epoch raised by
  one, everything else as it was; one that fails leaves every stored group as it was. Either way
  the group is not left marked as changing.
\<close>

theorem takeover_outcome:
  assumes "takeover E name s = (r, t)" and "fst (Get E name s) = Inr g"
  shows "(case r of
      Some e \<Rightarrow> groups t = groups s
    | None \<Rightarrow> \<exists>h. handed_over (eSelf E) g h \<and> only_row name h (groups s) (groups t)) \<and>
    name \<notin> set (moving t)"
proof -
  have n: "gName g = name"
    using assms(2) Get_InrD [of E name s g "snd (Get E name s)"] row_key by (metis prod.collapse)
  let ?s2 = "setMoving name True (snd (Get E name s))"
  let ?x = "case importedPools E ?s2 of
      (Inl e, s3) \<Rightarrow> (Some e, s3)
    | (Inr imported, s3) \<Rightarrow>
        (case take_pools E g imported s3 of (Some e, s4) \<Rightarrow> (Some e, s4) | (None, s4) \<Rightarrow> took_over E g s4)"
  have x: "takeover_left E g s ?x"
    by (simp add: split_beta took_over_left split: sum.split option.split)
  have "r = fst ?x" "t = setMoving name False (snd ?x)"
    using assms by (simp_all add: takeover_def split_beta Let_def)
  with x n show ?thesis by (simp add: takeover_left_def split: option.splits)
qed

lemma takeover_outcome_witness:
  "\<exists>t h now. takeover (sample_env ''b'' [] [''b''] (\<lambda>a. None)) ''g'' (sample_node [sample_group ''a'' 1]) = (None, t) \<and>
     row gName (groups t) ''g'' = Some (stored_form now h) \<and> gOwner h = ''b'' \<and> gEpoch h = 2"
proof -
  let ?E = "sample_env ''b'' [] [''b''] (\<lambda>a. None)" and ?s = "sample_node [sample_group ''a'' 1]"
  have G: "fst (Get ?E ''g'' ?s) = Inr (sample_group ''a'' 1)" by (simp add: Get_def perform_def row_Cons)
  have "fst (takeover ?E ''g'' ?s) = None"
    by (simp add: takeover_def Get_def perform_def row_Cons importedPools_def setMoving_def take_pools_def
        took_over_def put_def Let_def split_beta)
  then obtain t where t: "takeover ?E ''g'' ?s = (None, t)" by (metis prod.collapse)
  from takeover_outcome [OF t G] obtain h where "handed_over ''b'' (sample_group ''a'' 1) h"
    "only_row ''g'' h (groups ?s) (groups t)" by auto
  then obtain now where "gOwner h = ''b''" "gEpoch h = 2" "row gName (groups t) ''g'' = Some (stored_form now h)"
    using handed_over_fields [of "''b''" "sample_group ''a'' 1" h] by (auto simp: int64_def only_row_def)
  with t show ?thesis by blast
qed

end
