(* ===== verification/Maintenance.thy ===== *)
theory Maintenance
  imports Failover
begin

text \<open>
  Maintenance mode (\<open>internal/groups/maintenance.go\<close>): where each owned group goes, setting the
  flag before anything moves, and leaving. The texts an administrator gives (reason, by) and
  the time shown with them do not influence anything and are not kept.
\<close>

datatype move_result = Planned | Stays | MoveFailed | Moved
datatype move_detail = NoDetail | StandaloneStays | NoCandidateOnline | Because gerr

record maintenance_move =
  mvGroup :: string
  mvTarget :: string
  mvResult :: move_result
  mvDetail :: move_detail

fun first_target :: "view \<Rightarrow> string list \<Rightarrow> string option" where
  "first_target v [] = None"
| "first_target v (c # cs) =
     (if c = vSelf v \<or> contains (vMaintenance v) c then first_target v cs
      else if vQuorum v \<and> \<not> contains (vOnline v) c then first_target v cs
      else Some c)"

fun planMaintenance :: "group list \<Rightarrow> view \<Rightarrow> maintenance_move list \<times> bool" where
  "planMaintenance [] v = ([], True)"
| "planMaintenance (g # gs) v =
     (let (moves, ok) = planMaintenance gs v in
      if gOwner g \<noteq> vSelf v then (moves, ok)
      else if gTopology g = Standalone then
        (\<lparr>mvGroup = gName g, mvTarget = [], mvResult = Stays, mvDetail = StandaloneStays\<rparr> # moves, ok)
      else case first_target v (gCandidates g) of
        None \<Rightarrow>
          (\<lparr>mvGroup = gName g, mvTarget = [], mvResult = MoveFailed, mvDetail = NoCandidateOnline\<rparr> # moves, False)
      | Some c \<Rightarrow>
          (if c = [] then
             (\<lparr>mvGroup = gName g, mvTarget = [], mvResult = MoveFailed, mvDetail = NoCandidateOnline\<rparr> # moves, False)
           else (\<lparr>mvGroup = gName g, mvTarget = c, mvResult = Planned, mvDetail = NoDetail\<rparr> # moves, ok)))"

definition setMaintenance :: "env \<Rightarrow> bool \<Rightarrow> node \<Rightarrow> gerr option \<times> node" where
  "setMaintenance E on s =
     (case perform E (Db (SetMaintenance on)) s of
        (Some e, s1) \<Rightarrow> (Some e, s1) | (None, s1) \<Rightarrow> (None, s1\<lparr>maint := on\<rparr>))"

fun move_away :: "env \<Rightarrow> maintenance_move list \<Rightarrow> node \<Rightarrow> maintenance_move list \<times> node" where
  "move_away E [] s = ([], s)"
| "move_away E (mv # mvs) s =
     (if mvResult mv \<noteq> Planned then (let (rest, s1) = move_away E mvs s in (mv # rest, s1))
      else case Move E (mvGroup mv) (mvTarget mv) s of
        (Inl e, s1) \<Rightarrow>
          (let (rest, s2) = move_away E mvs s1 in
           (mv\<lparr>mvResult := MoveFailed, mvDetail := Because e\<rparr> # rest, s2))
      | (Inr r, s1) \<Rightarrow>
          (let (rest, s2) = move_away E mvs s1 in (mv\<lparr>mvResult := Moved\<rparr> # rest, s2)))"

definition failed_groups :: "maintenance_move list \<Rightarrow> string list" where
  "failed_groups moves = map mvGroup (filter (\<lambda>mv. mvResult mv = MoveFailed) moves)"

definition EnterMaintenance :: "env \<Rightarrow> node \<Rightarrow> (maintenance_move list \<times> gerr option) \<times> node" where
  "EnterMaintenance E s =
     (case List_groups E s of
        (Inl e, s1) \<Rightarrow> (([], Some e), s1)
      | (Inr gs, s1) \<Rightarrow>
          (case currentView E s1 of
             (Inl e, s2) \<Rightarrow> (([], Some e), s2)
           | (Inr v, s2) \<Rightarrow>
               (let (moves, ok) = planMaintenance gs v in
                if \<not> ok then ((moves, Some (Refused (NoMaintenanceTarget (failed_groups moves)))), s2)
                else case setMaintenance E True s2 of
                  (Some e, s3) \<Rightarrow> (([], Some e), s3)
                | (None, s3) \<Rightarrow>
                    (let (done', s4) = move_away E moves s3 in
                     ((done', if failed_groups done' = [] then None
                              else Some (Refused (StillOwned (failed_groups done')))), s4)))))"

definition ExitMaintenance :: "env \<Rightarrow> node \<Rightarrow> gerr option \<times> node" where
  "ExitMaintenance E s = setMaintenance E False s"

section \<open>The plan\<close>

definition good_target :: "view \<Rightarrow> string \<Rightarrow> bool" where
  "good_target v c \<longleftrightarrow> c \<noteq> vSelf v \<and> c \<notin> set (vMaintenance v) \<and> (vQuorum v \<longrightarrow> c \<in> set (vOnline v))"

lemma first_target_find: "first_target v cs = List.find (good_target v) cs"
  by (induction cs) (auto simp: good_target_def)

definition to_move :: "view \<Rightarrow> group \<Rightarrow> bool" where
  "to_move v g \<longleftrightarrow> gOwner g = vSelf v \<and> gTopology g \<noteq> Standalone"

lemma find_good_target:
  "List.find (good_target v) cs = Some c \<Longrightarrow> good_target v c \<and> c \<in> set cs"
  by (auto simp: find_Some_iff)

lemma planMaintenance_ok:
  assumes "\<forall>g \<in> set gs. [] \<notin> set (gCandidates g)"
  shows "snd (planMaintenance gs v) \<longleftrightarrow>
     (\<forall>g \<in> set gs. to_move v g \<longrightarrow> (\<exists>c \<in> set (gCandidates g). good_target v c))"
  using assms
  by (induction gs)
    (auto simp: Let_def split_beta to_move_def first_target_find find_None_iff
      split: option.split dest: find_good_target)

lemma planMaintenance_planned:
  assumes "mv \<in> set (fst (planMaintenance gs v))" and "mvResult mv = Planned"
  shows "\<exists>g \<in> set gs. to_move v g \<and> mvGroup mv = gName g \<and> mvTarget mv \<in> set (gCandidates g) \<and>
     good_target v (mvTarget mv)"
  using assms
  by (induction gs)
    (auto simp: Let_def split_beta to_move_def first_target_find
      split: option.splits if_splits dest!: find_good_target)

section \<open>The table of groups\<close>

lemma groups_setMaintenance [simp]: "groups (snd (setMaintenance E on s)) = groups s"
  by (simp add: setMaintenance_def split_beta split: option.split)

lemma table_ok_move_away: "table_ok (groups s) \<Longrightarrow> table_ok (groups (snd (move_away E mvs s)))"
  by (induction mvs arbitrary: s) (simp_all add: split_beta Let_def table_ok_Move split: sum.split)

lemma table_ok_EnterMaintenance: "table_ok (groups s) \<Longrightarrow> table_ok (groups (snd (EnterMaintenance E s)))"
  by (simp add: EnterMaintenance_def split_beta Let_def table_ok_move_away split: sum.split option.split)

lemma groups_ExitMaintenance [simp]: "groups (snd (ExitMaintenance E s)) = groups s"
  by (simp add: ExitMaintenance_def)

text \<open>
  Entering maintenance is planned exactly when every shared or replicated group this node owns
  has a candidate that is another node, online (in a cluster with quorum) and not itself in
  maintenance; and each planned move takes such a group to such a candidate.
\<close>

theorem planMaintenance_spec:
  assumes "\<forall>g \<in> set gs. [] \<notin> set (gCandidates g)"
  shows "(snd (planMaintenance gs v) \<longleftrightarrow>
      (\<forall>g \<in> set gs. to_move v g \<longrightarrow> (\<exists>c \<in> set (gCandidates g). good_target v c))) \<and>
    (\<forall>mv \<in> set (fst (planMaintenance gs v)). mvResult mv = Planned \<longrightarrow>
      (\<exists>g \<in> set gs. to_move v g \<and> mvGroup mv = gName g \<and> mvTarget mv \<in> set (gCandidates g) \<and>
         good_target v (mvTarget mv)))"
  using planMaintenance_ok [OF assms] planMaintenance_planned by blast

lemma planMaintenance_spec_witness:
  "snd (planMaintenance [sample_group ''a'' 1] (sample_view ''a'' [''tank''] [''a'', ''b'']))"
  using planMaintenance_spec [of "[sample_group ''a'' 1]" "sample_view ''a'' [''tank''] [''a'', ''b'']"]
  by (simp add: good_target_def)

end
