(* ===== verification/GoText.thy ===== *)
theory GoText
  imports NetAddr
begin

text \<open>
  The functions of Go's \<open>strings\<close> and \<open>strconv\<close> the program uses, on strings of bytes: prefixes,
  splitting, fields, trimming, lower case and integers. White space and letters are those of ASCII.
\<close>

section \<open>Prefixes and pieces\<close>

definition has_prefix :: "string \<Rightarrow> string \<Rightarrow> bool" where
  "has_prefix s p \<longleftrightarrow> take (length p) s = p"

definition has_suffix :: "string \<Rightarrow> string \<Rightarrow> bool" where
  "has_suffix s p = has_prefix (rev s) (rev p)"

definition trim_prefix :: "string \<Rightarrow> string \<Rightarrow> string" where
  "trim_prefix s p = (if has_prefix s p then drop (length p) s else s)"

fun contains_text :: "string \<Rightarrow> string \<Rightarrow> bool" where
  "contains_text [] p \<longleftrightarrow> p = []"
| "contains_text (c # cs) p \<longleftrightarrow> has_prefix (c # cs) p \<or> contains_text cs p"

text \<open>\<open>strings.Split\<close> on one character.\<close>

fun split_at :: "char \<Rightarrow> string \<Rightarrow> string list" where
  "split_at d [] = [[]]"
| "split_at d (c # cs) =
     (if c = d then [] # split_at d cs
      else case split_at d cs of [] \<Rightarrow> [[c]] | w # ws \<Rightarrow> (c # w) # ws)"

fun join_with :: "string \<Rightarrow> string list \<Rightarrow> string" where
  "join_with sep [] = []"
| "join_with sep [x] = x"
| "join_with sep (x # y # ys) = x @ sep @ join_with sep (y # ys)"

definition newline :: char where
  "newline = CHR 0x0A"

definition to_lower :: "char \<Rightarrow> char" where
  "to_lower c = (if c \<in> set upper_chars then char_of (of_char c + (32::nat)) else c)"

section \<open>White space\<close>

definition is_space :: "char \<Rightarrow> bool" where
  "is_space c \<longleftrightarrow> c \<in> set [CHR 0x09, CHR 0x0A, CHR 0x0B, CHR 0x0C, CHR 0x0D, CHR '' '']"

definition trim_space :: "string \<Rightarrow> string" where
  "trim_space s = rev (dropWhile is_space (rev (dropWhile is_space s)))"

text \<open>\<open>strings.Fields\<close>: the second argument is the field being read.\<close>

fun words_from :: "string \<Rightarrow> string \<Rightarrow> string list" where
  "words_from [] w = (if w = [] then [] else [w])"
| "words_from (c # cs) w =
     (if is_space c then (if w = [] then words_from cs [] else w # words_from cs [])
      else words_from cs (w @ [c]))"

definition words_of :: "string \<Rightarrow> string list" where
  "words_of s = words_from s []"

lemma words_from_word:
  "\<forall>c \<in> set v. \<not> is_space c \<Longrightarrow> words_from (v @ s) w = words_from s (w @ v)"
  by (induction v arbitrary: w) auto

definition no_space :: "string \<Rightarrow> bool" where
  "no_space w \<longleftrightarrow> w \<noteq> [] \<and> (\<forall>c \<in> set w. \<not> is_space c)"

text \<open>Words joined by single spaces are its fields again.\<close>

lemma words_of_join: "\<forall>w \<in> set ws. no_space w \<Longrightarrow> words_of (join_with '' '' ws) = ws"
proof (induction ws)
  case (Cons x ws)
  have sp: "is_space (CHR '' '')" by (simp add: is_space_def)
  show ?case
  proof (cases ws)
    case Nil
    with Cons.prems words_from_word [of x "[]" "[]"] show ?thesis by (simp add: words_of_def no_space_def)
  next
    case (Cons y ys)
    with Cons.prems Cons.IH words_from_word [of x "'' '' @ join_with '' '' ws" "[]"] sp
    show ?thesis by (simp add: words_of_def no_space_def)
  qed
qed (simp add: words_of_def)

section \<open>Integers\<close>

text \<open>
  \<open>strconv.Atoi\<close> with its two results: the value (0 for a malformed number, the bound for one
  out of range) and whether it is an error.
\<close>

fun digits_value :: "nat \<Rightarrow> string \<Rightarrow> nat option" where
  "digits_value acc [] = Some acc"
| "digits_value acc (c # cs) = (case digit_val c of None \<Rightarrow> None | Some d \<Rightarrow> digits_value (10 * acc + d) cs)"

definition unsigned :: "string \<Rightarrow> nat option" where
  "unsigned s = (if s = [] then None else digits_value 0 s)"

definition sign_split :: "string \<Rightarrow> bool \<times> string" where
  "sign_split s =
     (case s of
        [] \<Rightarrow> (False, [])
      | c # cs \<Rightarrow> (if c = CHR ''-'' then (True, cs) else if c = CHR ''+'' then (False, cs) else (False, s)))"

definition Atoi :: "string \<Rightarrow> int \<times> bool" where
  "Atoi s =
     (case sign_split s of (neg, ds) \<Rightarrow>
        (case unsigned ds of
           None \<Rightarrow> (0, True)
         | Some n \<Rightarrow>
             (if neg then (if max_int64 + 1 < int n then (- max_int64 - 1, True) else (- int n, False))
              else (if max_int64 < int n then (max_int64, True) else (int n, False)))))"

text \<open>\<open>strconv.ParseUint(s, base, 63)\<close> for the bases 10 and 16.\<close>

fun based_value :: "(char \<Rightarrow> nat option) \<Rightarrow> nat \<Rightarrow> nat \<Rightarrow> string \<Rightarrow> nat option" where
  "based_value dv b acc [] = Some acc"
| "based_value dv b acc (c # cs) =
     (case dv c of None \<Rightarrow> None | Some d \<Rightarrow> based_value dv b (b * acc + d) cs)"

definition parse_uint63 :: "(char \<Rightarrow> nat option) \<Rightarrow> nat \<Rightarrow> string \<Rightarrow> int option" where
  "parse_uint63 dv b s =
     (if s = [] then None
      else case based_value dv b 0 s of
        None \<Rightarrow> None
      | Some n \<Rightarrow> if max_int64 < int n then None else Some (int n))"

lemma digit_val_char: "d < 10 \<Longrightarrow> digit_val (digit_char d) = Some d"
proof -
  have "\<forall>d \<in> set [0..<10]. digit_val (digit_char d) = Some d"
    by (simp add: upt_rec digit_val.simps digit_char_def digit_chars_def)
  then show "d < 10 \<Longrightarrow> digit_val (digit_char d) = Some d" by simp
qed

lemma digits_value_append:
  "digits_value acc (xs @ ys) = (case digits_value acc xs of None \<Rightarrow> None | Some a \<Rightarrow> digits_value a ys)"
  by (induction xs arbitrary: acc) (auto split: option.split)

lemma digits_value_show: "digits_value 0 (show_nat n) = Some n"
proof (induction n rule: show_nat.induct)
  case (1 n)
  then show ?case
    by (subst show_nat.simps) (auto simp: digits_value_append digit_val_char)
qed

lemma show_nat_not_Nil: "show_nat n \<noteq> []"
  by (subst show_nat.simps) simp

lemma unsigned_show: "unsigned (show_nat n) = Some n"
  by (simp add: unsigned_def show_nat_not_Nil digits_value_show)

lemma digit_no_space: "is_digit c \<Longrightarrow> \<not> is_space c"
  by (auto simp: is_digit_def digit_chars_def is_space_def)

section \<open>Lines\<close>

definition one_line :: "string \<Rightarrow> bool" where
  "one_line s \<longleftrightarrow> newline \<notin> set s"

lemma split_at_piece: "d \<notin> set w \<Longrightarrow> split_at d (w @ d # s) = w # split_at d s"
  by (induction w) auto

lemma split_at_whole: "d \<notin> set w \<Longrightarrow> split_at d w = [w]"
  by (induction w) auto

lemma split_at_lines:
  "\<forall>l \<in> set ls. one_line l \<Longrightarrow> split_at newline (concat (map (\<lambda>l. l @ [newline]) ls)) = ls @ [[]]"
  by (induction ls) (simp_all add: one_line_def split_at_piece)

lemma one_line_append [simp]: "one_line (x @ y) \<longleftrightarrow> one_line x \<and> one_line y"
  by (auto simp: one_line_def)

lemma one_line_Cons [simp]: "one_line (c # y) \<longleftrightarrow> c \<noteq> newline \<and> one_line y"
  by (auto simp: one_line_def)

lemma one_line_Nil [simp]: "one_line []"
  by (simp add: one_line_def)

lemma one_lineI: "list_all P s \<Longrightarrow> \<not> P newline \<Longrightarrow> one_line s"
  by (auto simp: one_line_def list_all_iff)

lemma newline_class: "\<not> is_digit newline" "\<not> is_alnum newline" "\<not> addr_char newline"
  by (simp_all add: newline_def is_digit_def is_alnum_def is_alpha_def lower_chars_def upper_chars_def
      digit_chars_def addr_char_def hex_val.simps digit_val.simps)

lemma one_line_show: "one_line (show_int i)"
proof -
  have "one_line (show_nat n)" for n using show_nat_digits [of n] newline_class(1) by (auto intro: one_lineI)
  then show ?thesis by (simp add: show_int_def newline_def)
qed

lemma one_line_address: "parse_ip a = Some ip \<Longrightarrow> one_line a"
  by (rule one_lineI [OF parse_ip_chars newline_class(3)])

lemma one_line_match: "match_head_tail p q hi s \<Longrightarrow> \<not> p newline \<Longrightarrow> \<not> q newline \<Longrightarrow> one_line s"
  by (auto simp: one_line_def dest: match_head_tail_chars)

section \<open>The first field\<close>

lemma words_from_open: "w \<noteq> [] \<Longrightarrow> \<exists>v vs. words_from s w = (w @ v) # vs"
proof (induction s arbitrary: w)
  case (Cons c s)
  show ?case
  proof (cases "is_space c")
    case True
    with Cons.prems show ?thesis by simp
  next
    case False
    with Cons.IH [of "w @ [c]"] show ?thesis by auto
  qed
qed simp

lemma words_of_hd: "words_of (c # s) = w # ws \<Longrightarrow> \<not> is_space c \<Longrightarrow> w \<noteq> [] \<and> hd w = c"
  using words_from_open [of "[c]" s] by (auto simp: words_of_def)

lemma trim_space_hd: "trim_space s = c # cs \<Longrightarrow> \<not> is_space c"
proof -
  assume t: "trim_space s = c # cs"
  define u where "u = dropWhile is_space s"
  have "\<exists>v. u = c # v"
  proof -
    have "rev (dropWhile is_space (rev u)) = c # cs" using t by (simp add: trim_space_def u_def)
    then have "dropWhile is_space (rev u) = rev cs @ [c]" by (metis rev.simps(2) rev_rev_ident)
    then have "rev u = takeWhile is_space (rev u) @ rev cs @ [c]" by (metis takeWhile_dropWhile_id)
    then show ?thesis by (metis rev_append rev_singleton_conv append_Cons rev_rev_ident append_Nil)
  qed
  then show ?thesis using hd_dropWhile [of is_space s] unfolding u_def by (metis list.distinct(1) list.sel(1))
qed

lemma Atoi_show: "0 \<le> i \<Longrightarrow> i \<le> max_int64 \<Longrightarrow> Atoi (show_int i) = (i, False)"
proof -
  assume i: "0 \<le> i" "i \<le> max_int64"
  obtain c cs where s: "show_nat (nat i) = c # cs" by (cases "show_nat (nat i)") (auto simp: show_nat_not_Nil)
  have "is_digit c" using show_nat_digits [of "nat i"] s by simp
  then have "c \<noteq> CHR ''-''" "c \<noteq> CHR ''+''" by (auto simp: is_digit_def digit_chars_def)
  with i s show "Atoi (show_int i) = (i, False)"
    using unsigned_show [of "nat i"] by (simp add: Atoi_def show_int_def sign_split_def)
qed

end
