(* ===== verification/Copies.thy ===== *)
theory Copies
  imports Ownership GoText
begin

text \<open>
  Keeping the copies of a replicated group (\<open>internal/groups/replicate.go\<close>, \<open>split.go\<close>): the
  periodic replication, the test of a replication path, and what happens to a copy that has
  changes the owner does not have. Discarding it (\<open>DiscardDivergent\<close>) first sends the changes to
  the owner, which keeps them as a separate copy.
\<close>

section \<open>Periodic replication\<close>

text \<open>When \<open>target\<close> last had every pool: the oldest of its last successes, 0 if there is none.\<close>

fun oldest_success :: "string \<Rightarrow> repl_row list \<Rightarrow> time \<Rightarrow> time" where
  "oldest_success target [] oldest = oldest"
| "oldest_success target (r # rs) oldest =
     (case rrOkAt r of
        Some t \<Rightarrow>
          (if rrOut r \<and> rrPeer r = target \<and> (oldest = 0 \<or> t < oldest)
           then oldest_success target rs t else oldest_success target rs oldest)
      | None \<Rightarrow> oldest_success target rs oldest)"

definition due :: "group \<Rightarrow> repl_row list \<Rightarrow> time \<Rightarrow> string \<Rightarrow> bool" where
  "due g states now target \<longleftrightarrow>
     gIntervalSecs g * 1000000000 \<le> now - oldest_success target states 0"

definition replicate_due :: "env \<Rightarrow> group \<Rightarrow> node \<Rightarrow> node" where
  "replicate_due E g s =
     (if gTopology g \<noteq> Replicated \<or> gOwner g \<noteq> eSelf E then s
      else case CanWritePool E (pName (hd (gPools g))) s of
        (Some _, s1) \<Rightarrow> s1
      | (None, s1) \<Rightarrow>
          (let (r, s2) = replStates E (gName g) s1;
               states = (case r of Inl _ \<Rightarrow> [] | Inr rs \<Rightarrow> rs);
               ts = filter (due g states (eNow E (trace s2))) (without (gCandidates g) (eSelf E)) in
           if ts = [] then s2 else snd (replicate_group E g (Some ts) s2)))"

fun replicate_all :: "env \<Rightarrow> group list \<Rightarrow> node \<Rightarrow> node" where
  "replicate_all E [] s = s"
| "replicate_all E (g # gs) s = replicate_all E gs (replicate_due E g s)"

definition ReplicateTick :: "env \<Rightarrow> node \<Rightarrow> node" where
  "ReplicateTick E s =
     (case List_groups E s of (Inl e, s1) \<Rightarrow> s1 | (Inr gs, s1) \<Rightarrow> replicate_all E gs s1)"

section \<open>Testing replication\<close>

datatype check_detail = CopyUnreadable gerr | LocalUnlisted gerr | NoSnapshotYet | IncrementalFrom string
  | SharesNone | NotTheOwner

record replication_check =
  ckTarget :: string
  ckPool :: string
  ckOK :: bool
  ckDetail :: check_detail

definition check_copy ::
  "env \<Rightarrow> group \<Rightarrow> string \<Rightarrow> (gerr + string list) \<Rightarrow> string \<Rightarrow> node \<Rightarrow> replication_check \<times> node" where
  "check_copy E g pool local target s =
     (let (remote, s1) = remote_snapshots E target (gName g) pool s;
          (ok, detail) =
            (case remote of
               Inl e \<Rightarrow> (False, CopyUnreadable e)
             | Inr rs \<Rightarrow>
                 (case local of
                    Inl e \<Rightarrow> (False, LocalUnlisted e)
                  | Inr ls \<Rightarrow>
                      (if rs = [] then (True, NoSnapshotYet)
                       else if latestCommon ls rs \<noteq> [] then (True, IncrementalFrom (latestCommon ls rs))
                       else if gOwner g = eSelf E then (False, SharesNone)
                       else (True, NotTheOwner)))) in
      (\<lparr>ckTarget = target, ckPool = pool, ckOK = ok, ckDetail = detail\<rparr>, s1))"

fun check_targets ::
  "env \<Rightarrow> group \<Rightarrow> string \<Rightarrow> (gerr + string list) \<Rightarrow> string list \<Rightarrow> node \<Rightarrow> replication_check list \<times> node" where
  "check_targets E g pool local [] s = ([], s)"
| "check_targets E g pool local (t # ts) s =
     (let (c, s1) = check_copy E g pool local t s; (cs, s2) = check_targets E g pool local ts s1 in
      (c # cs, s2))"

fun check_pool_copies :: "env \<Rightarrow> group \<Rightarrow> pool_ref list \<Rightarrow> node \<Rightarrow> replication_check list \<times> node" where
  "check_pool_copies E g [] s = ([], s)"
| "check_pool_copies E g (p # ps) s =
     (let (local, s1) = list_snapshots E (pName p) s;
          (cs, s2) = check_targets E g (pName p) local (without (gCandidates g) (eSelf E)) s1;
          (rest, s3) = check_pool_copies E g ps s2 in
      (cs @ rest, s3))"

definition TestReplication :: "env \<Rightarrow> string \<Rightarrow> node \<Rightarrow> (gerr + replication_check list) \<times> node" where
  "TestReplication E name s =
     (case Get E name s of
        (Inl e, s1) \<Rightarrow> (Inl e, s1)
      | (Inr g, s1) \<Rightarrow>
          (if gTopology g \<noteq> Replicated then (Inl (ReplRefused NotReplicated), s1)
           else (let (cs, s2) = check_pool_copies E g (gPools g) s1 in (Inr cs, s2))))"

section \<open>Names of kept copies\<close>

definition node_char :: "char \<Rightarrow> bool" where
  "node_char c \<longleftrightarrow> is_lower c \<or> is_digit c \<or> c = CHR ''-''"

text \<open>A run of other characters becomes one dash; the flag says that the run has begun.\<close>

fun dash_runs :: "bool \<Rightarrow> string \<Rightarrow> string" where
  "dash_runs run [] = []"
| "dash_runs run (c # cs) =
     (if node_char c then c # dash_runs False cs
      else if run then dash_runs True cs else CHR ''-'' # dash_runs True cs)"

definition trim_dashes :: "string \<Rightarrow> string" where
  "trim_dashes s = rev (dropWhile (\<lambda>c. c = CHR ''-'') (rev (dropWhile (\<lambda>c. c = CHR ''-'') s)))"

definition node_part :: "string \<Rightarrow> string" where
  "node_part host =
     (let n = take 32 (trim_dashes (dash_runs False (map to_lower host))) in
      if n = [] then ''node'' else n)"

definition splitName :: "string \<Rightarrow> string \<Rightarrow> string" where
  "splitName stamp host = ''dplane-split-'' @ stamp @ ''-from-'' @ node_part host"

text \<open>\<open>^dplane-split-[0-9]{8}-[0-9]{6}-from-[a-z0-9][a-z0-9-]{0,31}$\<close>, a piece at a time.\<close>

definition split_stamp_ok :: "string \<Rightarrow> bool" where
  "split_stamp_ok s \<longleftrightarrow>
     length s = 15 \<and> list_all is_digit (take 8 s) \<and> s ! 8 = CHR ''-'' \<and> list_all is_digit (drop 9 s)"

definition split_name_ok :: "string \<Rightarrow> bool" where
  "split_name_ok s \<longleftrightarrow>
     take 13 s = ''dplane-split-'' \<and> split_stamp_ok (take 15 (drop 13 s)) \<and>
     take 6 (drop 28 s) = ''-from-'' \<and>
     match_head_tail (\<lambda>c. is_lower c \<or> is_digit c) node_char 31 (drop 34 s)"

definition rel_char :: "char \<Rightarrow> bool" where
  "rel_char c \<longleftrightarrow> is_alnum c \<or> c \<in> set ''_.:-''"

definition validRel :: "string \<Rightarrow> bool" where
  "validRel rel \<longleftrightarrow>
     hd (split_at (CHR ''/'') rel) = [] \<and>
     list_all (\<lambda>c. c \<noteq> [] \<and> list_all rel_char c) (tl (split_at (CHR ''/'') rel)) \<and>
     list_all (\<lambda>c. c \<noteq> ''.'' \<and> c \<noteq> ''..'') (tl (split_at (CHR ''/'') rel))"

definition first_component :: "string \<Rightarrow> string" where
  "first_component s = (case cut_at (CHR ''/'') s of None \<Rightarrow> s | Some (a, _) \<Rightarrow> a)"

definition to_keep_one :: "string \<Rightarrow> split_dataset \<Rightarrow> bool" where
  "to_keep_one pool d \<longleftrightarrow>
     (let rel = trim_prefix (dName d) pool in
      \<not> (dName d \<noteq> pool \<and> \<not> has_prefix rel ''/'') \<and>
      \<not> split_name_ok (first_component (trim_prefix rel ''/'')) \<and> dWritten d \<noteq> 0)"

definition toKeep :: "string \<Rightarrow> split_dataset list \<Rightarrow> split_dataset list" where
  "toKeep pool ds = sort_key dName (filter (to_keep_one pool) ds)"

section \<open>Keeping and discarding\<close>

definition sendSplit ::
  "env \<Rightarrow> group \<Rightarrow> string \<Rightarrow> string \<Rightarrow> string \<Rightarrow> string \<Rightarrow> string \<Rightarrow> string \<Rightarrow> node \<Rightarrow> gerr option \<times> node" where
  "sendSplit E g pool name rel ds base snap s =
     (case perform E (Zfs (SplitSend ds base snap)) s of
        (Some e, s1) \<Rightarrow> (Some e, s1)
      | (None, s1) \<Rightarrow>
          (let (sent, s2) = perform E (Net (SendSplit (gOwner g) (gName g) pool name rel base)) s1;
               (waited, s3) = perform E (Zfs (SplitSendEnd ds snap)) s2 in
           (case sent of Some e \<Rightarrow> Some e | None \<Rightarrow> waited, s3)))"

fun send_kept ::
  "env \<Rightarrow> group \<Rightarrow> string \<Rightarrow> string \<Rightarrow> string \<Rightarrow> string \<Rightarrow> split_dataset list \<Rightarrow> node \<Rightarrow> gerr option \<times> node" where
  "send_kept E g pool name base snap [] s = (None, s)"
| "send_kept E g pool name base snap (d # ds) s =
     (case sendSplit E g pool name (trim_prefix (dName d) pool) (dName d)
         (if dWritten d < 0 then [] else base) snap s of
        (Some e, s1) \<Rightarrow> (Some (Wrap (dName d) (ReplRefused (CannotKeep pool))), s1)
      | (None, s1) \<Rightarrow> send_kept E g pool name base snap ds s1)"

text \<open>The name of the kept copy, or the empty name when nothing had changed.\<close>

definition keep_changed ::
  "env \<Rightarrow> group \<Rightarrow> string \<Rightarrow> string \<Rightarrow> split_dataset list \<Rightarrow> node \<Rightarrow> (gerr + string) \<times> node" where
  "keep_changed E g pool base keep s =
     (if keep = [] then (Inr [], s)
      else
        (let stamp = eStamp E (eNow E (trace s));
             name = splitName stamp (eHostname E); snap = ''split-'' @ stamp in
         case perform E (Zfs (SplitSnapshot pool snap)) s of
           (Some e, s1) \<Rightarrow> (Inl e, s1)
         | (None, s1) \<Rightarrow>
             (case send_kept E g pool name base snap keep s1 of
                (Some e, s2) \<Rightarrow> (Inl e, s2) | (None, s2) \<Rightarrow> (Inr name, s2))))"

definition keepDivergent :: "env \<Rightarrow> group \<Rightarrow> string \<Rightarrow> node \<Rightarrow> (gerr + string) \<times> node" where
  "keepDivergent E g pool s =
     (case list_snapshots E pool s of
        (Inl e, s1) \<Rightarrow> (Inl e, s1)
      | (Inr local, s1) \<Rightarrow>
          (if local = [] then (Inl (ReplRefused (CannotKeep pool)), s1)
           else case remote_snapshots E (gOwner g) (gName g) pool s1 of
             (Inl e, s2) \<Rightarrow> (Inl (ReplRefused (CannotKeep pool)), s2)
           | (Inr remote, s2) \<Rightarrow>
               (let base = latestCommon local remote in
                if base = [] then (Inl (ReplRefused (CannotKeep pool)), s2)
                else case perform E (Zfs (SplitChanged pool base)) s2 of
                  (Some e, s3) \<Rightarrow> (Inl e, s3)
                | (None, s3) \<Rightarrow> keep_changed E g pool base (toKeep pool (eChanged E (trace s2))) s3)))"

fun keep_pools :: "env \<Rightarrow> group \<Rightarrow> pool_ref list \<Rightarrow> node \<Rightarrow> (string list \<times> gerr option) \<times> node" where
  "keep_pools E g [] s = (([], None), s)"
| "keep_pools E g (p # ps) s =
     (case keepDivergent E g (pName p) s of
        (Inl e, s1) \<Rightarrow> (([], Some e), s1)
      | (Inr name, s1) \<Rightarrow>
          (let ((kept, err), s2) = keep_pools E g ps s1 in
           ((if name = [] then kept else (pName p @ CHR ''/'' # name) # kept, err), s2)))"

fun allow_discard :: "env \<Rightarrow> group \<Rightarrow> pool_ref list \<Rightarrow> node \<Rightarrow> gerr option \<times> node" where
  "allow_discard E g [] s = (None, s)"
| "allow_discard E g (p # ps) s =
     (case perform E (Db (AllowDiscard (gName g) (gOwner g) (pName p))) s of
        (Some e, s1) \<Rightarrow> (Some e, s1)
      | (None, s1) \<Rightarrow>
          allow_discard E g ps
            (s1\<lparr>repl := upsert_repl (gName g) False (gOwner g) (pName p)
                 (\<lambda>r. r\<lparr>rrDiscardOK := True\<rparr>) (repl s1)\<rparr>))"

definition DiscardDivergent :: "env \<Rightarrow> string \<Rightarrow> bool \<Rightarrow> node \<Rightarrow> (string list \<times> gerr option) \<times> node" where
  "DiscardDivergent E name keep s =
     (case Get E name s of
        (Inl e, s1) \<Rightarrow> (([], Some e), s1)
      | (Inr g, s1) \<Rightarrow>
          (if gOwner g = eSelf E then (([], Some (ReplRefused OwnerKeepsItsCopy)), s1)
           else
             (let ((kept, err), s2) =
                (if keep \<and> gTopology g = Replicated then keep_pools E g (gPools g) s1 else (([], None), s1)) in
              case err of
                Some e \<Rightarrow> ((kept, Some e), s2)
              | None \<Rightarrow> (let (r, s3) = allow_discard E g (gPools g) s2 in ((kept, r), s3)))))"

section \<open>On the owner\<close>

text \<open>The path up to its last slash.\<close>

definition parent_path :: "string \<Rightarrow> string" where
  "parent_path s = rev (tl (dropWhile (\<lambda>c. c \<noteq> CHR ''/'') (rev s)))"

definition ReceiveSplit ::
  "env \<Rightarrow> string \<Rightarrow> string \<Rightarrow> string \<Rightarrow> string \<Rightarrow> string \<Rightarrow> string \<Rightarrow> node \<Rightarrow> gerr option \<times> node" where
  "ReceiveSplit E sender grp pool name rel base s =
     (case Get E grp s of
        (Inl e, s1) \<Rightarrow> (Some e, s1)
      | (Inr g, s1) \<Rightarrow>
          (if gTopology g \<noteq> Replicated then (Some (ReplRefused NotReplicated), s1)
           else if gOwner g \<noteq> eSelf E then (Some (ReplRefused SplitsGoToOwner), s1)
           else if \<not> IsCandidate g sender \<or> sender = eSelf E then (Some (ReplRefused SenderNotInGroup), s1)
           else if \<not> HasPool g pool \<or> \<not> split_name_ok name \<or> \<not> validRel rel
                  \<or> (base \<noteq> [] \<and> \<not> repl_snap_ok base)
           then (Some (ReplRefused InvalidSplit), s1)
           else
             (let target = pool @ CHR ''/'' # name @ rel;
                  parent = parent_path target;
                  (r, s2) = (if parent \<noteq> pool then perform E (Zfs (SplitCreate parent)) s1 else (None, s1)) in
              case r of
                Some e \<Rightarrow> (Some e, s2)
              | None \<Rightarrow>
                  perform E (Zfs (SplitRecv target (if base \<noteq> [] then pool @ rel @ CHR ''@'' # base else []))) s2)))"

fun list_splits :: "env \<Rightarrow> pool_ref list \<Rightarrow> node \<Rightarrow> split_copy list \<times> node" where
  "list_splits E [] s = ([], s)"
| "list_splits E (p # ps) s =
     (case perform E (Zfs (SplitList (pName p))) s of
        (Some e, s1) \<Rightarrow> list_splits E ps s1
      | (None, s1) \<Rightarrow>
          (let (rest, s2) = list_splits E ps s1 in (eSplits E (trace s) (pName p) @ rest, s2)))"

definition Splits :: "env \<Rightarrow> group \<Rightarrow> node \<Rightarrow> split_copy list \<times> node" where
  "Splits E g s = (if gTopology g \<noteq> Replicated then ([], s) else list_splits E (gPools g) s)"

definition DeleteSplit :: "env \<Rightarrow> string \<Rightarrow> string \<Rightarrow> string \<Rightarrow> node \<Rightarrow> gerr option \<times> node" where
  "DeleteSplit E grp pool name s =
     (case Get E grp s of
        (Inl e, s1) \<Rightarrow> (Some e, s1)
      | (Inr g, s1) \<Rightarrow>
          (if gOwner g \<noteq> eSelf E then (Some (ReplRefused DeleteOnOwner), s1)
           else if \<not> HasPool g pool \<or> \<not> split_name_ok name then (Some (ReplRefused InvalidSplit), s1)
           else perform E (Zfs (SplitDestroy pool name)) s1))"

section \<open>The table of groups\<close>

lemma groups_repl_calls [simp]:
  "groups (snd (remote_snapshots E t n pool s)) = groups s" "groups (snd (list_snapshots E pool s)) = groups s"
  "groups (snd (replStates E n s)) = groups s"
  by (simp_all add: remote_snapshots_def list_snapshots_def replStates_def split_beta split: option.split)

lemma groups_CanWritePool [simp]: "groups (snd (CanWritePool E pool s)) = groups s"
  by (simp add: CanWritePool_def split_beta Let_def split: sum.split option.split)

lemma groups_replicate_due [simp]: "groups (replicate_due E g s) = groups s"
  by (simp add: replicate_due_def split_beta Let_def split: option.split)

lemma groups_replicate_all [simp]: "groups (replicate_all E gs s) = groups s"
  by (induction gs arbitrary: s) simp_all

lemma groups_ReplicateTick [simp]: "groups (ReplicateTick E s) = groups s"
  by (simp add: ReplicateTick_def split_beta split: sum.split)

lemma groups_check_copy [simp]: "groups (snd (check_copy E g pool local t s)) = groups s"
  by (simp add: check_copy_def split_beta Let_def)

lemma groups_check_targets [simp]: "groups (snd (check_targets E g pool local ts s)) = groups s"
  by (induction ts arbitrary: s) (simp_all add: split_beta Let_def)

lemma groups_check_pool_copies [simp]: "groups (snd (check_pool_copies E g ps s)) = groups s"
  by (induction ps arbitrary: s) (simp_all add: split_beta Let_def)

lemma groups_TestReplication [simp]: "groups (snd (TestReplication E n s)) = groups s"
  by (simp add: TestReplication_def split_beta split: sum.split)

lemma frame_sendSplit [simp]:
  "groups (snd (sendSplit E g pool n rel ds base snap s)) = groups s"
  "repl (snd (sendSplit E g pool n rel ds base snap s)) = repl s"
  by (simp_all add: sendSplit_def split_beta Let_def perform_def split: option.split)

lemma frame_send_kept [simp]:
  "groups (snd (send_kept E g pool n base snap ds s)) = groups s"
  "repl (snd (send_kept E g pool n base snap ds s)) = repl s"
  by (induction ds arbitrary: s) (simp_all add: split_beta Let_def split: option.split)

lemma frame_keepDivergent [simp]:
  "groups (snd (keepDivergent E g pool s)) = groups s" "repl (snd (keepDivergent E g pool s)) = repl s"
  by (simp_all add: keepDivergent_def keep_changed_def list_snapshots_def remote_snapshots_def split_beta
      Let_def perform_def split: sum.split option.split)

lemma frame_keep_pools [simp]:
  "groups (snd (keep_pools E g ps s)) = groups s" "repl (snd (keep_pools E g ps s)) = repl s"
  by (induction ps arbitrary: s) (simp_all add: split_beta Let_def split: sum.split)

lemma groups_allow_discard [simp]: "groups (snd (allow_discard E g ps s)) = groups s"
  by (induction ps arbitrary: s) (simp_all add: split_beta split: option.split)

lemma groups_DiscardDivergent [simp]: "groups (snd (DiscardDivergent E n keep s)) = groups s"
  by (simp add: DiscardDivergent_def split_beta Let_def split: sum.split option.split)

lemma groups_ReceiveSplit [simp]: "groups (snd (ReceiveSplit E sender n pool name rel base s)) = groups s"
  by (simp add: ReceiveSplit_def split_beta Let_def split: sum.split option.split)

lemma groups_DeleteSplit [simp]: "groups (snd (DeleteSplit E n pool name s)) = groups s"
  by (simp add: DeleteSplit_def split_beta split: sum.split)

section \<open>Names sent are names accepted\<close>

lemma node_char_lower [simp]: "node_char (CHR ''-'')"
  by (simp add: node_char_def)

lemma dash_runs_chars: "list_all node_char (dash_runs run s)"
  by (induction run s rule: dash_runs.induct) simp_all

lemma list_all_dropWhile: "list_all P xs \<Longrightarrow> list_all P (dropWhile Q xs)"
  by (metis list_all_iff set_dropWhileD)

lemma list_all_rev: "list_all P (rev xs) = list_all P xs"
  by (simp add: list_all_iff)

lemma trim_dashes_chars: "list_all P s \<Longrightarrow> list_all P (trim_dashes s)"
  by (simp add: trim_dashes_def list_all_rev list_all_dropWhile)

lemma hd_trim_dashes:
  assumes "trim_dashes s \<noteq> []" shows "hd (trim_dashes s) \<noteq> CHR ''-''"
proof -
  let ?d = "dropWhile (\<lambda>c. c = CHR ''-'') s" and ?dash = "\<lambda>c. c = CHR ''-''"
  have "?d \<noteq> []"
  proof
    assume d: "?d = []"
    have "trim_dashes s = []" unfolding trim_dashes_def d by (simp only: rev.simps dropWhile.simps)
    with assms show False ..
  qed
  then have h: "hd ?d \<noteq> CHR ''-''" by (rule hd_dropWhile)
  obtain ds where ds: "?d = trim_dashes s @ ds"
    using takeWhile_dropWhile_id [of ?dash "rev ?d"] unfolding trim_dashes_def
    by (metis rev_append rev_rev_ident)
  with h assms show ?thesis by (cases "trim_dashes s") simp_all
qed

lemma node_part_ok:
  "match_head_tail (\<lambda>c. is_lower c \<or> is_digit c) node_char 31 (node_part host)"
proof -
  let ?n = "take 32 (trim_dashes (dash_runs False (map to_lower host)))"
  have all: "list_all node_char ?n"
    using trim_dashes_chars [OF dash_runs_chars, of False "map to_lower host"]
    by (metis list_all_append append_take_drop_id)
  show ?thesis
  proof (cases ?n)
    case Nil
    then show ?thesis
      by (simp add: node_part_def Let_def node_char_def is_lower_def is_digit_def lower_chars_def digit_chars_def)
  next
    case (Cons c cs)
    then have "trim_dashes (dash_runs False (map to_lower host)) \<noteq> []" by auto
    from hd_trim_dashes [OF this] have "hd ?n \<noteq> CHR ''-''" by (simp add: hd_take)
    then have "c \<noteq> CHR ''-''" by (simp add: Cons)
    moreover have "length (c # cs) \<le> 32" by (simp flip: Cons)
    then have "length cs \<le> 31" by simp
    ultimately show ?thesis using all Cons by (auto simp: node_part_def Let_def node_char_def list_all_iff)
  qed
qed

text \<open>
  The name under which a node offers its divergent changes is accepted by the owner, whatever
  the host is called: it has the form the owner checks.
\<close>

theorem splitName_accepted:
  assumes "split_stamp_ok stamp"
  shows "split_name_ok (splitName stamp host)"
proof -
  have "length stamp = 15" using assms by (simp add: split_stamp_ok_def)
  with assms node_part_ok [of host] show ?thesis
    by (simp add: split_name_ok_def splitName_def)
qed

lemma splitName_accepted_witness:
  "split_name_ok (splitName ''20260102-030405'' ''NAS 01.local'')"
  by (rule splitName_accepted) (simp add: split_stamp_ok_def is_digit_def digit_chars_def)

section \<open>Nothing is discarded before it is kept\<close>

text \<open>
  When the operator wants the changes kept, discarding is allowed for no pool unless the changes
  of every pool were kept first: if keeping fails for one, the call fails with that error and the
  records of replication are unchanged.
\<close>

theorem discard_keeps_first:
  assumes "fst (Get E name s) = Inr g" and "gOwner g \<noteq> eSelf E" and "gTopology g = Replicated"
    and "keep_pools E g (gPools g) (snd (Get E name s)) = ((kept, Some e), t)"
  shows "DiscardDivergent E name True s = ((kept, Some e), t) \<and> repl t = repl s \<and> groups t = groups s"
proof -
  have "repl t = repl s" "groups t = groups s"
    using frame_keep_pools [of E g "gPools g" "snd (Get E name s)"] assms(4) by simp_all
  with assms show ?thesis by (simp add: DiscardDivergent_def split_beta)
qed

lemma discard_keeps_first_witness:
  "\<exists>kept e t. DiscardDivergent (sample_env ''b'' [] [] (\<lambda>a. None)) ''g'' True (sample_node [sample_copy ''a'' 1])
      = ((kept, Some e), t) \<and> repl t = []"
proof -
  let ?E = "sample_env ''b'' [] [] (\<lambda>a. None)" and ?s = "sample_node [sample_copy ''a'' 1]"
  have "keep_pools ?E (sample_copy ''a'' 1) (gPools (sample_copy ''a'' 1)) (snd (Get ?E ''g'' ?s)) =
      (([], Some (ReplRefused (CannotKeep ''tank''))), ?s\<lparr>trace := [Db Query, Zfs (ListSnapshots ''tank'')]\<rparr>)"
    by (simp add: Get_def perform_def row_Cons keepDivergent_def list_snapshots_def)
  from discard_keeps_first [OF _ _ _ this] show ?thesis
    by (simp add: Get_def perform_def row_Cons)
qed

end
