(* ===== verification/Ordering.thy ===== *)
theory Ordering
  imports Maintenance Copies
begin

text \<open>
  The order of effects. \<open>guarded P s t\<close> says that every call made between \<open>s\<close> and \<open>t\<close> was allowed
  by \<open>P\<close> given what had been called before. With it: a group is offered to its next owner only
  after every pool was exported here, and a node records itself as the owner only after it
  imported every pool.
\<close>

section \<open>Calls allowed by the past\<close>

definition guarded :: "(action list \<Rightarrow> action \<Rightarrow> bool) \<Rightarrow> node \<Rightarrow> node \<Rightarrow> bool" where
  "guarded P s t \<longleftrightarrow>
     (\<exists>acts. trace t = trace s @ acts \<and>
        (\<forall>us a vs. acts = us @ a # vs \<longrightarrow> P (trace s @ us) a))"

definition calls :: "(action \<Rightarrow> bool) \<Rightarrow> node \<Rightarrow> node \<Rightarrow> bool" where
  "calls Q s t \<longleftrightarrow> (\<exists>acts. trace t = trace s @ acts \<and> list_all Q acts)"

text \<open>A condition on the past that stays true.\<close>

definition stable :: "(action list \<Rightarrow> bool) \<Rightarrow> bool" where
  "stable C \<longleftrightarrow> (\<forall>tr later. C tr \<longrightarrow> C (tr @ later))"

lemma guarded_refl: "guarded P s s"
  by (simp add: guarded_def)

lemma guarded_trans:
  assumes "guarded P s t" and "guarded P t u" shows "guarded P s u"
proof -
  obtain xs ys where t: "trace t = trace s @ xs" and u: "trace u = (trace s @ xs) @ ys"
    and x: "\<forall>us a vs. xs = us @ a # vs \<longrightarrow> P (trace s @ us) a"
    and y: "\<forall>us a vs. ys = us @ a # vs \<longrightarrow> P ((trace s @ xs) @ us) a"
    using assms unfolding guarded_def by metis
  have "P (trace s @ us) a" if e: "xs @ ys = us @ a # vs" for us a vs
  proof (cases "length us < length xs")
    case True
    have "us = take (length us) (us @ a # vs)" by simp
    also have "\<dots> = take (length us) xs" using True by (simp flip: e)
    finally have us: "take (length us) xs = us" by simp
    have "a = (us @ a # vs) ! length us" by simp
    also have "\<dots> = xs ! length us" using True by (simp flip: e add: nth_append)
    finally have "xs = us @ a # drop (Suc (length us)) xs" using id_take_nth_drop [OF True] us by simp
    then show ?thesis using x by blast
  next
    case False
    then obtain ws where ws: "us = xs @ ws" using e by (auto simp: append_eq_append_conv2)
    with e have "ys = ws @ a # vs" by simp
    with y ws show ?thesis by auto
  qed
  then show ?thesis unfolding guarded_def by (intro exI [of _ "xs @ ys"]) (simp add: u)
qed

lemma guarded_perform:
  assumes "guarded P s t" and "P (trace t) a" shows "guarded P s (snd (perform E a t))"
proof -
  have "guarded P t (snd (perform E a t))"
    unfolding guarded_def using assms(2) by (auto simp: Cons_eq_append_conv)
  with assms(1) show ?thesis by (rule guarded_trans)
qed

lemma guarded_calls:
  assumes "guarded P s t" and "calls Q t u" and "C (trace t)" and "stable C"
    and "\<And>tr a. C tr \<Longrightarrow> Q a \<Longrightarrow> P tr a"
  shows "guarded P s u"
proof -
  obtain acts where u: "trace u = trace t @ acts" "list_all Q acts" using assms(2) by (auto simp: calls_def)
  have "P (trace t @ us) a" if "acts = us @ a # vs" for us a vs
    using that u assms(3,4,5) by (auto simp: stable_def)
  with u have "guarded P t u" unfolding guarded_def by blast
  with assms(1) show ?thesis by (rule guarded_trans)
qed

lemma calls_only: "only Q s t \<Longrightarrow> calls Q s t"
  by (simp add: only_def calls_def)

lemma guarded_only:
  assumes "guarded P s t" and "only Q t u" and "\<And>tr a. Q a \<Longrightarrow> P tr a" shows "guarded P s u"
  by (rule guarded_calls [OF assms(1) calls_only [OF assms(2)], of "\<lambda>_. True"])
    (simp_all add: stable_def assms(3))

lemma guarded_setMoving [simp]: "guarded P s (setMoving n on t) = guarded P s t"
  by (simp add: guarded_def)

lemma guardedD:
  assumes "guarded P s t" and "trace t = pre @ a # post" and "length (trace s) \<le> length pre"
  shows "P pre a"
proof -
  obtain acts where acts: "trace t = trace s @ acts" "\<forall>us a vs. acts = us @ a # vs \<longrightarrow> P (trace s @ us) a"
    using assms(1) by (auto simp: guarded_def)
  with assms(2,3) obtain us where "pre = trace s @ us" "acts = us @ a # post"
    by (auto simp: append_eq_append_conv2)
  with acts(2) show ?thesis by blast
qed

text \<open>\<open>a\<close> was called before, and succeeded.\<close>

definition done_in :: "env \<Rightarrow> action list \<Rightarrow> action \<Rightarrow> bool" where
  "done_in E tr a \<longleftrightarrow> (\<exists>i < length tr. tr ! i = a \<and> eResult E (take i tr) a = None)"

lemma done_in_append: "done_in E tr a \<Longrightarrow> done_in E (tr @ later) a"
  unfolding done_in_def by (force simp: nth_append)

lemma done_in_perform: "fst (perform E a s) = None \<Longrightarrow> done_in E (trace (snd (perform E a s))) a"
  by (force simp: done_in_def perform_def)

lemma stable_done_all: "stable (\<lambda>tr. \<forall>x \<in> A. done_in E tr (f x))"
  by (simp add: stable_def done_in_append)

section \<open>A move exports before it hands over\<close>

definition export_first :: "env \<Rightarrow> group \<Rightarrow> action list \<Rightarrow> action \<Rightarrow> bool" where
  "export_first E g tr a \<longleftrightarrow>
     (case a of
        Net (Push n h rm) \<Rightarrow> \<forall>p \<in> set (gPools g). done_in E tr (Zpool (Export (pName p)))
      | _ \<Rightarrow> True)"

definition exported :: "env \<Rightarrow> pool_ref list \<Rightarrow> action list \<Rightarrow> bool" where
  "exported E ps tr \<longleftrightarrow> (\<forall>p \<in> set ps. done_in E tr (Zpool (Export (pName p))))"

lemma stable_exported: "stable (exported E ps)"
  by (simp add: stable_def exported_def done_in_append)

lemma export_first_other [simp]:
  "export_first E g tr (Zpool z)" "export_first E g tr (Db d)" "export_first E g tr (Res r)"
  "export_first E g tr (Zfs f)" "export_first E g tr ActivateSoon"
  by (simp_all add: export_first_def)

lemma export_first_local: "local_call a \<Longrightarrow> export_first E g tr a"
  by (cases a rule: local_call.cases) simp_all

lemma export_first_exported: "exported E (gPools g) tr \<Longrightarrow> export_first E g tr a"
  by (auto simp: export_first_def exported_def split: action.split net_op.split)

lemma exported_more: "exported E ps tr \<Longrightarrow> exported E ps (tr @ later)"
  by (simp add: exported_def done_in_append)

lemma export_pools_guarded:
  assumes "guarded (export_first E g) s t" and "exported E ex (trace t)"
  shows "guarded (export_first E g) s (snd (export_pools E ex ps t)) \<and>
    (\<forall>ex'. fst (export_pools E ex ps t) = Inr ex' \<longrightarrow>
       exported E (ex @ ps) (trace (snd (export_pools E ex ps t))))"
  using assms
proof (induction ps arbitrary: ex t)
  case (Cons p ps)
  let ?a = "Zpool (Export (pName p))" and ?t = "snd (perform E (Zpool (Export (pName p))) t)"
  have g: "guarded (export_first E g) s ?t" using Cons.prems by (simp add: guarded_perform)
  show ?case
  proof (cases "fst (perform E ?a t)")
    case None
    then have "exported E (ex @ [p]) (trace ?t)"
      using Cons.prems(2) done_in_perform [OF None] by (auto simp: exported_def done_in_append)
    from Cons.IH [OF g this] None show ?thesis by (simp add: split_beta)
  next
    case (Some e)
    with g show ?thesis by (simp add: split_beta)
  qed
qed simp

lemma calls_refl: "calls Q s s"
  by (simp add: calls_def)

lemma calls_perform: "calls Q s t \<Longrightarrow> Q a \<Longrightarrow> calls Q s (snd (perform E a t))"
  by (auto simp: calls_def)

lemma calls_put: "calls Q s t \<Longrightarrow> (\<And>h. Q (Db (PutGroup h))) \<Longrightarrow> calls Q s (snd (put E g t))"
  by (cases E g t rule: put_cases) (auto simp: calls_def)

lemma calls_push_to: "calls Q s t \<Longrightarrow> (\<And>n. Q (Net (Push n g False))) \<Longrightarrow> calls Q s (snd (push_to E g skip ns t))"
  by (induction ns arbitrary: t) (simp_all add: split_beta Let_def calls_perform)

lemma calls_reimport: "calls Q s t \<Longrightarrow> (\<And>p. Q (Zpool (Import p))) \<Longrightarrow> calls Q s (snd (reimport E ps t))"
  by (induction ps arbitrary: t) (simp_all add: split_beta Let_def calls_perform)

lemma calls_moved: "calls (\<lambda>_. True) s t \<Longrightarrow> calls (\<lambda>_. True) s (snd (moved E ng target t))"
  by (simp add: moved_def pushAll_def split_beta Let_def calls_put calls_push_to split: option.split)

lemma guarded_exported:
  assumes "guarded (export_first E g) s t" and "exported E (gPools g) (trace t)" and "calls (\<lambda>_. True) t u"
  shows "guarded (export_first E g) s u"
  by (rule guarded_calls [OF assms(1,3) assms(2) stable_exported]) (simp add: export_first_exported)

lemma moveShared_guarded: "guarded (export_first E g) s (snd (moveShared E g target s))"
proof -
  have d: "guarded (export_first E g) s (snd (deactivate E g s))"
    using guarded_only [OF guarded_refl only_deactivate [OF only_refl]] export_first_local by blast
  let ?d = "snd (deactivate E g s)" and ?x = "export_pools E [] (gPools g) (snd (deactivate E g s))"
  have x: "guarded (export_first E g) s (snd ?x)"
    and all: "fst ?x = Inr ex \<Longrightarrow> exported E (gPools g) (trace (snd ?x))" for ex
    using export_pools_guarded [OF d, of "[]" "gPools g"] by (auto simp: exported_def)
  have soon: "guarded (export_first E g) s (activate_soon E ?d)"
    using d by (simp add: activate_soon_def guarded_perform)
  have re: "guarded (export_first E g) s (snd (reimport E ps (snd ?x)))" for ps
    by (rule guarded_calls [OF x calls_reimport [OF calls_refl, where Q = "\<lambda>a. \<exists>p. a = Zpool (Import p)"],
          where C = "\<lambda>_. True"])
      (auto simp: stable_def)
  show ?thesis
  proof (cases "fst ?x")
    case (Inl u)
    with d x re soon show ?thesis
      by (auto simp: moveShared_def split_beta Let_def guarded_refl split: option.split)
  next
    case (Inr ex)
    let ?p = "snd (perform E (Net (Push target (handed_to E target g (snd ?x)) False)) (snd ?x))"
    have p: "calls (\<lambda>_. True) (snd ?x) ?p" by (simp add: calls_perform calls_refl)
    have "guarded (export_first E g) s (snd (reimport E ps ?p))"
      "guarded (export_first E g) s (snd (moved E ng tg ?p))" for ps ng tg
      using guarded_exported [OF x all [OF Inr]] calls_reimport [OF p] calls_moved [OF p] by simp_all
    with Inr soon show ?thesis
      by (auto simp: moveShared_def split_beta Let_def guarded_refl split: option.split)
  qed
qed

text \<open>
  C2. Moving a shared group, this node offers it to another member (the target or any other
  candidate) only after it exported every pool of the group, successfully: no two nodes have the
  pools imported because of a move.
\<close>

theorem move_exports_first:
  assumes "row gName (groups s) name = Some g" and "gTopology g = Shared"
    and "trace (snd (Move E name target s)) = pre @ Net (Push n h rm) # post"
    and "length (trace s) \<le> length pre"
  shows "\<forall>p \<in> set (gPools g). done_in E pre (Zpool (Export (pName p)))"
proof -
  have G: "guarded (export_first E g) s (snd (Get E name s))" "\<And>t. guarded (export_first E g) s t \<Longrightarrow>
      guarded (export_first E g) s (snd (Maintenances E u t))" for u
    by (auto simp: Get_def Maintenances_def inMaintenance_def split_beta guarded_perform guarded_refl
        split: option.splits)
  have "guarded (export_first E g) s (snd (Move E name target s))"
  proof (cases "fst (Get E name s)")
    case (Inl e)
    with G show ?thesis by (simp add: Move_def split_beta)
  next
    case (Inr g')
    then have "g' = g" using Get_InrD [of E name s g' "snd (Get E name s)"] assms(1) by (simp add: prod_eq_iff)
    with Inr assms(2) G show ?thesis
      by (auto simp: Move_def split_beta Let_def intro: guarded_trans [OF _ moveShared_guarded])
  qed
  from guardedD [OF this assms(3,4)] show ?thesis by (simp add: export_first_def)
qed

lemma move_exports_first_witness:
  "\<exists>pre n h rm post. trace (snd (Move (sample_env ''a'' [(''tank'', ''7'')] [''a'', ''b''] (\<lambda>a. None)) ''g'' ''b''
       (sample_node [sample_group ''a'' 1]))) = pre @ Net (Push n h rm) # post \<and>
     (\<forall>p \<in> set (gPools (sample_group ''a'' 1)).
        done_in (sample_env ''a'' [(''tank'', ''7'')] [''a'', ''b''] (\<lambda>a. None)) pre (Zpool (Export (pName p))))"
proof -
  let ?E = "sample_env ''a'' [(''tank'', ''7'')] [''a'', ''b''] (\<lambda>a. None)"
  let ?s = "sample_node [sample_group ''a'' 1]"
  have "Net (Push ''b'' (handed_to ?E ''b'' (sample_group ''a'' 1) ?s) False) \<in> set (trace (snd (Move ?E ''g'' ''b'' ?s)))"
    by (simp add: Move_def Get_def perform_def row_Cons Maintenances_def inMaintenance_def setMoving_def
        in_maintenance_at_def moveShared_def sample_deactivate moved_def put_def Let_def handed_to_def
        pushAll_def)
  then obtain pre post n h rm where t: "trace (snd (Move ?E ''g'' ''b'' ?s)) = pre @ Net (Push n h rm) # post"
    by (meson split_list)
  then have "\<forall>p \<in> set (gPools (sample_group ''a'' 1)). done_in ?E pre (Zpool (Export (pName p)))"
    by (intro move_exports_first [of ?s "''g''" _ ?E "''b''" pre n h rm post]) (simp_all add: row_Cons)
  with t show ?thesis by blast
qed

section \<open>An owner imports before it says so\<close>

definition import_first :: "env \<Rightarrow> group \<Rightarrow> action list \<Rightarrow> action \<Rightarrow> bool" where
  "import_first E g tr a \<longleftrightarrow>
     (case a of
        Db (PutGroup h) \<Rightarrow>
          \<forall>p \<in> set (gPools g).
            (\<exists>i < length tr. tr ! i = Zpool ListPools \<and> pName p \<in> fst ` set (ePools E (take i tr))) \<or>
            done_in E tr (Zpool (Import (pGUID p)))
      | _ \<Rightarrow> True)"

definition present :: "env \<Rightarrow> pool_ref list \<Rightarrow> action list \<Rightarrow> bool" where
  "present E ps tr \<longleftrightarrow>
     (\<forall>p \<in> set ps.
        (\<exists>i < length tr. tr ! i = Zpool ListPools \<and> pName p \<in> fst ` set (ePools E (take i tr))) \<or>
        done_in E tr (Zpool (Import (pGUID p))))"

lemma listed_later:
  assumes "i < length tr" and "tr ! i = Zpool ListPools \<and> n \<in> fst ` set (ePools E (take i tr))"
  shows "\<exists>i < length (tr @ later). (tr @ later) ! i = Zpool ListPools \<and>
     n \<in> fst ` set (ePools E (take i (tr @ later)))"
  using assms by (intro exI [of _ i]) (simp add: nth_append)

lemma present_later: "present E ps tr \<Longrightarrow> present E ps (tr @ later)"
  unfolding present_def using done_in_append listed_later by metis

lemma stable_present: "stable (present E ps)"
  by (simp add: stable_def present_later)

lemma import_first_other [simp]:
  "import_first E g tr (Zpool z)" "import_first E g tr (Net d)" "import_first E g tr (Res r)"
  "import_first E g tr (Zfs f)" "import_first E g tr ActivateSoon" "import_first E g tr (Db Query)"
  "import_first E g tr (Db (StoreResources n x))"
  by (simp_all add: import_first_def)

lemma import_first_local: "local_call a \<Longrightarrow> import_first E g tr a"
  by (cases a rule: local_call.cases) simp_all

lemma import_first_present: "present E (gPools g) tr \<Longrightarrow> import_first E g tr a"
  by (auto simp: import_first_def present_def split: action.split db_op.split)

lemma import_pools_guarded:
  assumes "guarded (import_first E g) s t"
    and "\<forall>p \<in> set all. p \<in> set ps \<or> present E [p] (trace t)"
  shows "guarded (import_first E g) s (snd (import_pools E im ps t)) \<and>
    (\<forall>im'. fst (import_pools E im ps t) = Inr im' \<longrightarrow> present E all (trace (snd (import_pools E im ps t))))"
  using assms
proof (induction ps arbitrary: im t)
  case Nil
  then show ?case by (auto simp: present_def)
next
  case (Cons p ps)
  let ?a = "Zpool (Import (pGUID p))" and ?t = "snd (perform E (Zpool (Import (pGUID p))) t)"
  have g: "guarded (import_first E g) s ?t" using Cons.prems by (simp add: guarded_perform)
  show ?case
  proof (cases "fst (perform E ?a t)")
    case None
    then have "present E [p] (trace ?t)" using done_in_perform [OF None] by (simp add: present_def)
    moreover have "present E [q] (trace t) \<Longrightarrow> present E [q] (trace ?t)" for q using present_later by simp
    ultimately have "\<forall>q \<in> set all. q \<in> set ps \<or> present E [q] (trace ?t)" using Cons.prems(2) by auto
    from Cons.IH [OF g this] None show ?thesis by (simp add: split_beta)
  next
    case (Some e)
    with g show ?thesis by (simp add: split_beta)
  qed
qed

lemma calls_release: "calls (\<lambda>_. True) s t \<Longrightarrow> calls (\<lambda>_. True) s (snd (release_pools E ns t))"
  by (induction ns arbitrary: t) (simp_all add: split_beta Let_def calls_perform)

lemma calls_readonly: "calls (\<lambda>_. True) s t \<Longrightarrow> calls (\<lambda>_. True) s (snd (set_readonly_copies E ro im ps t))"
  by (induction ps arbitrary: t) (simp_all add: split_beta Let_def calls_perform)

lemma calls_giveBack:
  "calls Q s t \<Longrightarrow> (\<And>p. Q (Zpool (Export p))) \<Longrightarrow> calls Q s (snd (giveBack E ps at t))"
  by (induction ps arbitrary: t) (simp_all add: split_beta Let_def calls_perform)

lemma calls_materialize: "calls (\<lambda>_. True) s t \<Longrightarrow> calls (\<lambda>_. True) s (snd (materialize E g t))"
  using calls_only [OF only_materialize [OF only_refl, of t E g]] by (auto simp: calls_def list_all_iff)

lemma calls_setMoving [simp]: "calls Q s (setMoving n on t) = calls Q s t"
  by (simp add: calls_def)

lemma calls_activate_soon: "calls (\<lambda>_. True) s t \<Longrightarrow> calls (\<lambda>_. True) s (activate_soon E t)"
  by (simp add: activate_soon_def calls_perform)

lemma planAdopt_imports:
  assumes "gTopology g \<noteq> Replicated" and "gOwner g = self" and "p \<in> set (gPools g)"
  shows "p \<in> set (fst (planAdopt g self imported)) \<or> pName p \<in> fst ` set imported"
proof -
  have "p \<in> set ps \<Longrightarrow> p \<in> set (fst (plan_adopt_pools g self imported ps)) \<or> pName p \<in> fst ` set imported" for ps
    using assms(2) by (induction ps) (auto simp: split_beta Let_def map_of_eq_None_iff)
  with assms show ?thesis by (simp add: planAdopt_def)
qed

lemma apply_adoption_guarded:
  assumes "guarded (import_first E g) s t" and "gTopology g \<noteq> Replicated" and "gOwner g = eSelf E"
    and "\<forall>p \<in> set (gPools g). pName p \<in> fst ` set imported \<longrightarrow> present E [p] (trace t)"
  shows "guarded (import_first E g) s (snd (apply_adoption E g becoming imported t))"
proof -
  let ?x = "import_pools E [] (fst (planAdopt g (eSelf E) imported)) t"
  have x: "guarded (import_first E g) s (snd ?x)"
    and all: "\<And>im. fst ?x = Inr im \<Longrightarrow> present E (gPools g) (trace (snd ?x))"
    using import_pools_guarded [OF assms(1), of "gPools g" "fst (planAdopt g (eSelf E) imported)" "[]"]
      planAdopt_imports [OF assms(2,3)] assms(4) by blast+
  show ?thesis
  proof (cases "fst ?x")
    case (Inl u)
    have "guarded (import_first E g) s (snd (giveBack E ps at (snd ?x)))" for ps at
      by (rule guarded_calls [OF x calls_giveBack [OF calls_refl, where Q = "\<lambda>a. \<exists>p. a = Zpool (Export p)"],
            where C = "\<lambda>_. True"])
        (auto simp: stable_def)
    with Inl show ?thesis by (simp add: apply_adoption_def split_beta Let_def split: sum.split)
  next
    case (Inr im)
    then have "calls (\<lambda>_. True) (snd ?x) (snd (apply_adoption E g becoming imported t))"
      by (simp add: apply_adoption_def split_beta Let_def calls_giveBack calls_put calls_release
          calls_readonly calls_materialize calls_activate_soon calls_refl split: option.split)
    from guarded_calls [OF x this all [OF Inr] stable_present] show ?thesis
      by (simp add: import_first_present)
  qed
qed

lemma importedPools_present:
  assumes "fst (importedPools E s) = Inr imported" and "pName p \<in> fst ` set imported"
  shows "present E [p] (trace (snd (importedPools E s)))"
proof -
  have "imported = ePools E (trace s)"
    using assms(1) by (auto simp: importedPools_def split_beta split: option.splits)
  with assms(2) have "\<exists>i < length (trace s @ [Zpool ListPools]). (trace s @ [Zpool ListPools]) ! i = Zpool ListPools \<and>
      pName p \<in> fst ` set (ePools E (take i (trace s @ [Zpool ListPools])))"
    by (intro exI [of _ "length (trace s)"]) simp
  then show ?thesis by (simp add: present_def)
qed

lemma adopt_newer_guarded:
  assumes "guarded (import_first E g) s t" and "gTopology g \<noteq> Replicated" and "gOwner g = eSelf E"
  shows "guarded (import_first E g) s (snd (adopt_newer E g cur t))"
proof -
  have i: "guarded (import_first E g) s (snd (importedPools E t))"
    using assms(1) guarded_perform [OF assms(1), of "Zpool ListPools" E]
    by (auto simp: importedPools_def split_beta guarded_def split: option.split)
  show ?thesis
  proof (cases "fst (importedPools E t)")
    case (Inl e)
    with i assms(1) show ?thesis by (simp add: adopt_newer_def split_beta split: option.split)
  next
    case (Inr imported)
    have "guarded (import_first E g) s (snd (apply_adoption E g becoming imported (setMoving n True (snd (importedPools E t)))))"
      "guarded (import_first E g) s (snd (apply_adoption E g becoming imported (snd (importedPools E t))))"
      for becoming n
      using apply_adoption_guarded [OF _ assms(2,3)] i importedPools_present [OF Inr] by simp_all
    with Inr assms(1,3) show ?thesis
      by (simp add: adopt_newer_def split_beta Let_def split: option.split)
  qed
qed

text \<open>
  C6. A node that is told to be the owner of a shared or standalone group records itself as the owner
  only when every pool of the group is imported here: it was listed as imported during this
  operation, or the import succeeded before the record was written. A failed import changes nothing.
\<close>

theorem adopt_imports_first:
  assumes "gTopology g \<noteq> Replicated" and "gOwner g = eSelf E"
    and "trace (snd (adopt E g s)) = pre @ Db (PutGroup h) # post" and "length (trace s) \<le> length pre"
  shows "\<forall>p \<in> set (gPools g).
     (\<exists>i < length pre. pre ! i = Zpool ListPools \<and> pName p \<in> fst ` set (ePools E (take i pre))) \<or>
     done_in E pre (Zpool (Import (pGUID p)))"
proof -
  have "guarded (import_first E g) s (snd (Get E n s))" for n
    by (auto simp: Get_def split_beta guarded_perform guarded_refl split: option.splits)
  then have "guarded (import_first E g) s (snd (adopt E g s))"
    using adopt_newer_guarded [OF _ assms(1,2)] by (simp add: adopt_def split_beta split: sum.split)
  from guardedD [OF this assms(3,4)] show ?thesis by (simp add: import_first_def)
qed

lemma adopt_imports_first_witness:
  "\<exists>pre h post. trace (snd (adopt (sample_env ''b'' [] [''a'', ''b''] (\<lambda>a. None)) (sample_group ''b'' 2)
       (sample_node []))) = pre @ Db (PutGroup h) # post \<and>
     done_in (sample_env ''b'' [] [''a'', ''b''] (\<lambda>a. None)) pre (Zpool (Import ''7''))"
proof -
  let ?E = "sample_env ''b'' [] [''a'', ''b''] (\<lambda>a. None)" and ?g = "sample_group ''b'' 2"
  have V: "Validate ?g = None" by (simp add: Validate_iff)
  have "Db (PutGroup (stored_form 1000 ?g)) \<in> set (trace (snd (adopt ?E ?g (sample_node []))))"
    by (simp add: adopt_def adopt_newer_def V Get_def perform_def importedPools_def apply_adoption_def Let_def
        planAdopt_def put_def materialize_def loadResources_def no_resources_def setMoving_def activate_soon_def)
  then obtain pre post where t: "trace (snd (adopt ?E ?g (sample_node []))) = pre @ Db (PutGroup (stored_form 1000 ?g)) # post"
    by (meson split_list)
  have "\<forall>p \<in> set (gPools ?g).
     (\<exists>i < length pre. pre ! i = Zpool ListPools \<and> pName p \<in> fst ` set (ePools ?E (take i pre))) \<or>
     done_in ?E pre (Zpool (Import (pGUID p)))"
    by (rule adopt_imports_first [OF _ _ t]) simp_all
  with t show ?thesis by auto
qed

end
