(* ===== verification/Manager.thy ===== *)
theory Manager
  imports Ordering
begin

text \<open>
  Everything a node's group manager is asked to do, as one step of the node: the HTTP handlers of
  an administrator, the updates and streams of other members, and the periodic passes. A node that
  starts with an empty table and runs any sequence of requests, each in any environment, keeps the
  invariants.
\<close>

section \<open>Requests\<close>

datatype request =
    ReqCreate string string "string list" "string list" int bool
  | ReqRemove string
  | ReqMove string string
  | ReqAddress string string string
  | ReqTakeover string
  | ReqReceive group bool
  | ReqSync
  | ReqFailover
  | ReqActivate
  | ReqReplicate
  | ReqReplicateNow string
  | ReqTest string
  | ReqStream string string string int string string
  | ReqDiscard string bool
  | ReqSplit string string string string string string
  | ReqDeleteSplit string string string
  | ReqEnter
  | ReqExit

fun exec :: "env \<Rightarrow> request \<Rightarrow> node \<Rightarrow> node" where
  "exec E (ReqCreate name topology pools cands secs af) s = snd (CreateWith E name topology pools cands secs af s)"
| "exec E (ReqRemove name) s = snd (RemoveGroup E name s)"
| "exec E (ReqMove name target) s = snd (Move E name target s)"
| "exec E (ReqAddress name cidr iface) s = snd (SetAddress E name cidr iface s)"
| "exec E (ReqTakeover name) s = snd (Takeover E name s)"
| "exec E (ReqReceive g rm) s = snd (Receive E g rm s)"
| "exec E ReqSync s = snd (SyncOnce E s)"
| "exec E ReqFailover s = FailoverTick E s"
| "exec E ReqActivate s = ActivateTick E s"
| "exec E ReqReplicate s = ReplicateTick E s"
| "exec E (ReqReplicateNow name) s = snd (ReplicateNow E name s)"
| "exec E (ReqTest name) s = snd (TestReplication E name s)"
| "exec E (ReqStream sender name pool epoch base snap) s = snd (ReceiveReplica E sender name pool epoch base snap s)"
| "exec E (ReqDiscard name keep) s = snd (DiscardDivergent E name keep s)"
| "exec E (ReqSplit sender grp pool name rel base) s = snd (ReceiveSplit E sender grp pool name rel base s)"
| "exec E (ReqDeleteSplit grp pool name) s = snd (DeleteSplit E grp pool name s)"
| "exec E ReqEnter s = snd (EnterMaintenance E s)"
| "exec E ReqExit s = snd (ExitMaintenance E s)"

text \<open>The states of the node named \<open>self\<close>; the environment may change with every request.\<close>

inductive reachable :: "string \<Rightarrow> node \<Rightarrow> bool" where
  start: "groups s = [] \<Longrightarrow> moving s = [] \<Longrightarrow> reachable self s"
| step: "reachable self s \<Longrightarrow> eSelf E = self \<Longrightarrow> reachable self (exec E r s)"

inductive_cases reachableE: "reachable self s"

lemma groups_ActivateTick [simp]: "groups (ActivateTick E s) = groups s"
  using onlyD(1) [OF only_ActivateTick] .

lemma groups_ReplicateNow [simp]: "groups (snd (ReplicateNow E n s)) = groups s"
  by (simp add: ReplicateNow_def split_beta split: sum.split)

lemma groups_ReceiveReplica [simp]: "groups (snd (ReceiveReplica E sender n pool ep base snap s)) = groups s"
  using same_groups_ReceiveReplica [of s E sender n pool ep base snap] by (simp add: same_groups_def)

lemmas table_ok_requests = table_ok_CreateWith table_ok_RemoveGroup table_ok_Move table_ok_SetAddress
  table_ok_Takeover table_ok_Receive table_ok_SyncOnce table_ok_FailoverTick table_ok_EnterMaintenance

lemma table_ok_exec: "table_ok (groups s) \<Longrightarrow> table_ok (groups (exec E r s))"
  by (cases r) (simp_all add: table_ok_requests)

text \<open>
  C14. Whatever a node is asked and whatever fails, its table of groups stays well formed: each name
  once, in order; every group with a valid name, topology, address and pools, enough candidates,
  and an owner that is one of them.
\<close>

theorem reachable_table_ok:
  assumes "reachable self s"
  shows "table_ok (groups s)"
  using assms by (induction rule: reachable.induct) (simp_all add: table_ok_exec, simp add: table_ok_def)

lemma reachable_table_ok_witness:
  "table_ok (groups (exec (sample_env ''b'' [] [''a''] (\<lambda>a. None)) (ReqReceive (sample_group ''b'' 2) False) (sample_node [])))"
  by (rule reachable_table_ok [of "''b''"], rule reachable.step, rule reachable.start) simp_all

section \<open>Pulling never goes back\<close>

definition no_older :: "node \<Rightarrow> node \<Rightarrow> bool" where
  "no_older s t \<longleftrightarrow>
     (\<forall>n g. row gName (groups s) n = Some g \<longrightarrow>
        (\<exists>h. row gName (groups t) n = Some h \<and> stamp_of g \<le> stamp_of h))"

lemma no_older_trans: "no_older s t \<Longrightarrow> no_older t u \<Longrightarrow> no_older s u"
  unfolding no_older_def by (meson order_trans)

lemma no_older_groups: "groups t = groups s \<Longrightarrow> no_older s t"
  by (auto simp: no_older_def)

lemma no_older_adopt: "reads_rows E \<Longrightarrow> no_older s (snd (adopt E g s))"
  using copy.offer_mono [of s _ _ E g] by (simp add: no_older_def reading_id)

lemma no_older_adopt_all: "reads_rows E \<Longrightarrow> no_older s (snd (adopt_all E n gs s))"
proof (induction gs arbitrary: s)
  case (Cons g gs)
  let ?t = "snd (pull_resources E n g (snd (adopt E g s)))"
  have "no_older s ?t"
    using no_older_trans [OF no_older_adopt [OF Cons.prems] no_older_groups] by simp
  from no_older_trans [OF this Cons.IH [OF Cons.prems]] show ?case by (simp add: split_beta Let_def)
qed (simp add: no_older_groups)

lemma no_older_pull_members: "reads_rows E \<Longrightarrow> no_older s (snd (snd (pull_members E ns peers s)))"
proof (induction ns arbitrary: peers s)
  case (Cons n ns)
  let ?f = "snd (perform E (Net (Fetch n)) s)"
  have f: "no_older s ?f" by (simp add: no_older_groups)
  have "no_older s (snd (adopt_all E n gs (notePeerMaintenance n on ?f)))" for gs on
    by (rule no_older_trans [OF _ no_older_adopt_all [OF Cons.prems]]) (simp add: no_older_groups)
  then have "no_older s (snd (snd (pull_members E ns ps (snd (adopt_all E n gs (notePeerMaintenance n on ?f))))))"
    for gs on ps by (rule no_older_trans [OF _ Cons.IH [OF Cons.prems]])
  then show ?case
    using Cons no_older_trans [OF f] by (simp add: split_beta Let_def split: option.split)
qed (simp add: no_older_groups)

text \<open>
  Pulling the groups of the members never replaces a stored group by an older one and never
  loses one, whatever the members report and whichever calls fail.
\<close>

theorem sync_never_goes_back:
  assumes "reads_rows E" and "row gName (groups s) n = Some g"
  shows "\<exists>h. row gName (groups (snd (SyncOnce E s))) n = Some h \<and> stamp_of g \<le> stamp_of h"
proof -
  have "no_older s (snd (SyncOnce E s))"
    using no_older_trans [OF no_older_pull_members [OF assms(1)] no_older_groups]
    by (simp add: SyncOnce_def split_beta Let_def)
  with assms(2) show ?thesis by (simp add: no_older_def)
qed

lemma sync_never_goes_back_witness:
  "\<exists>h. row gName (groups (snd (SyncOnce (sample_env ''a'' [] [''a'', ''b''] (\<lambda>a. None))
       (sample_node [sample_group ''b'' 3])))) ''g'' = Some h \<and> stamp_of (sample_group ''b'' 3) \<le> stamp_of h"
  by (rule sync_never_goes_back) (simp_all add: reads_rows_def row_Cons)

section \<open>Maintenance is announced first\<close>

lemma calls_any_trans: "calls (\<lambda>_. True) s t \<Longrightarrow> calls (\<lambda>_. True) t u \<Longrightarrow> calls (\<lambda>_. True) s u"
  by (auto simp: calls_def list_all_iff)

lemma calls_any_only: "only Q s t \<Longrightarrow> calls (\<lambda>_. True) s t"
  by (auto simp: only_def calls_def list_all_iff)

lemma calls_repl:
  assumes "calls (\<lambda>_. True) s t"
  shows "calls (\<lambda>_. True) s (recordRepl E n out tg pool snap err t)"
    "calls (\<lambda>_. True) s (snd (remote_snapshots E tg n pool t))" "calls (\<lambda>_. True) s (snd (list_snapshots E pool t))"
    "calls (\<lambda>_. True) s (snd (knownBy E n tg pool t))"
  using assms by (auto simp: calls_def recordRepl_def remote_snapshots_def list_snapshots_def knownBy_def perform_def
      list_all_iff split: option.splits)

lemma calls_sendOne: "calls (\<lambda>_. True) s t \<Longrightarrow> calls (\<lambda>_. True) s (snd (sendOne E g tg pool loc snap t))"
  by (auto simp: sendOne_def split_beta Let_def calls_repl calls_perform split: sum.split option.split)

lemma calls_send_targets:
  "calls (\<lambda>_. True) s t \<Longrightarrow> calls (\<lambda>_. True) s (snd (send_targets E g pool loc snap ts t))"
proof (induction ts arbitrary: t)
  case (Cons x ts)
  show ?case using Cons.prems
    by (simp add: split_beta Let_def split: option.split)
      (intro conjI impI allI Cons.IH calls_repl calls_sendOne; simp)
qed simp

lemma calls_destroy_all: "calls (\<lambda>_. True) s t \<Longrightarrow> calls (\<lambda>_. True) s (destroy_all E pool xs t)"
  by (induction xs arbitrary: t) (simp_all add: calls_perform)

lemma calls_replicate_pool: "calls (\<lambda>_. True) s t \<Longrightarrow> calls (\<lambda>_. True) s (snd (replicate_pool E g ts p t))"
  by (simp add: replicate_pool_def split_beta Let_def calls_repl calls_perform calls_send_targets
      calls_destroy_all split: sum.split option.split)

lemma calls_replicate_pools: "calls (\<lambda>_. True) s t \<Longrightarrow> calls (\<lambda>_. True) s (snd (replicate_pools E g ts ps t))"
  by (induction ps arbitrary: t) (simp_all add: split_beta Let_def calls_replicate_pool)

lemma calls_replicate: "calls (\<lambda>_. True) s t \<Longrightarrow> calls (\<lambda>_. True) s (snd (replicate_group E g ts t))"
  by (simp add: replicate_group_def split_beta Let_def calls_replicate_pools)

lemma calls_make:
  "calls (\<lambda>_. True) s t \<Longrightarrow> calls (\<lambda>_. True) s (make_writable E ps t)"
  "calls (\<lambda>_. True) s t \<Longrightarrow> calls (\<lambda>_. True) s (snd (make_readonly E ps t))"
  by (induction ps arbitrary: t) (simp_all add: split_beta calls_perform split: option.split)

lemma calls_deactivate: "calls (\<lambda>_. True) s t \<Longrightarrow> calls (\<lambda>_. True) s (snd (deactivate E g t))"
  by (rule calls_any_trans [OF _ calls_any_only [OF only_deactivate [OF only_refl]]])

lemma calls_export_pools: "calls (\<lambda>_. True) s t \<Longrightarrow> calls (\<lambda>_. True) s (snd (export_pools E ex ps t))"
  by (induction ps arbitrary: ex t) (simp_all add: split_beta calls_perform split: option.split)

lemma calls_moves:
  assumes "calls (\<lambda>_. True) s t"
  shows "calls (\<lambda>_. True) s (snd (moveShared E g target t))"
    "calls (\<lambda>_. True) s (snd (moveReplicated E g target t))"
  using assms
  by (simp_all add: moveShared_def moveReplicated_def split_beta Let_def calls_deactivate calls_export_pools
      calls_activate_soon calls_reimport calls_moved calls_perform calls_make calls_replicate
      split: option.split sum.split)

lemma calls_Move: "calls (\<lambda>_. True) s t \<Longrightarrow> calls (\<lambda>_. True) s (snd (Move E name target t))"
proof -
  assume s: "calls (\<lambda>_. True) s t"
  have "calls (\<lambda>_. True) s (snd (Get E name t))"
    "calls (\<lambda>_. True) s (snd (Maintenances E u (snd (Get E name t))))" for u
    using s by (auto simp: Get_def Maintenances_def inMaintenance_def split_beta calls_perform split: option.splits)
  then show ?thesis by (simp add: Move_def split_beta Let_def calls_moves split: sum.split)
qed

lemma calls_move_away: "calls (\<lambda>_. True) s t \<Longrightarrow> calls (\<lambda>_. True) s (snd (move_away E mvs t))"
  by (induction mvs arbitrary: t) (simp_all add: split_beta Let_def calls_Move split: sum.split)

text \<open>The calls that read, and the one that sets the flag.\<close>

definition flag_first :: "env \<Rightarrow> action list \<Rightarrow> action \<Rightarrow> bool" where
  "flag_first E tr a \<longleftrightarrow>
     a \<in> {Db Query, Zpool ListPools, Db (SetMaintenance True)} \<or> done_in E tr (Db (SetMaintenance True))"

lemma flag_first_enter: "guarded (flag_first E) s (snd (EnterMaintenance E s))"
proof -
  let ?Q = "\<lambda>a. a \<in> {Db Query, Zpool ListPools}"
  have l: "only ?Q s (snd (List_groups E s))"
    and v: "only ?Q s (snd (currentView E (snd (List_groups E s))))"
    by (intro only_currentView only_List_groups only_refl; simp)+
  let ?v = "snd (currentView E (snd (List_groups E s)))"
  have gl: "guarded (flag_first E) s (snd (List_groups E s))"
    by (rule guarded_only [OF guarded_refl l]) (auto simp: flag_first_def)
  have gv: "guarded (flag_first E) s ?v"
    by (rule guarded_only [OF guarded_refl v]) (auto simp: flag_first_def)
  let ?m = "snd (setMaintenance E True ?v)"
  have m: "guarded (flag_first E) s ?m"
    using guarded_perform [OF gv, of "Db (SetMaintenance True)" E]
    by (auto simp: setMaintenance_def split_beta flag_first_def guarded_def split: option.split)
  have d: "fst (setMaintenance E True ?v) = None \<Longrightarrow> done_in E (trace ?m) (Db (SetMaintenance True))"
    using done_in_perform [of E "Db (SetMaintenance True)" ?v]
    by (auto simp: setMaintenance_def split_beta split: option.splits)
  have a: "guarded (flag_first E) s (snd (move_away E mvs ?m))"
    if "fst (setMaintenance E True ?v) = None" for mvs
    by (rule guarded_calls [OF m calls_move_away [OF calls_refl],
          where C = "\<lambda>tr. done_in E tr (Db (SetMaintenance True))"])
      (use d [OF that] in \<open>auto simp: stable_def done_in_append flag_first_def\<close>)
  show ?thesis
    using gl gv m a by (simp add: EnterMaintenance_def split_beta Let_def split: sum.split option.split)
qed

text \<open>
  A node that enters maintenance announces it before anything moves: until the flag is stored it
  only reads, so no group can be sent back to it while it hands its own groups over.
\<close>

theorem maintenance_flag_first:
  assumes "trace (snd (EnterMaintenance E s)) = pre @ a # post" and "length (trace s) \<le> length pre"
    and "a \<notin> {Db Query, Zpool ListPools, Db (SetMaintenance True)}"
  shows "done_in E pre (Db (SetMaintenance True))"
  using guardedD [OF flag_first_enter assms(1,2)] assms(3) by (auto simp: flag_first_def)

lemma maintenance_flag_first_witness:
  "\<exists>pre post. trace (snd (EnterMaintenance (sample_env ''a'' [(''tank'', ''7'')] [''a'', ''b''] (\<lambda>a. None))
      (sample_node [sample_group ''a'' 1]))) = pre @ Zpool (Export ''tank'') # post \<and>
    done_in (sample_env ''a'' [(''tank'', ''7'')] [''a'', ''b''] (\<lambda>a. None)) pre (Db (SetMaintenance True))"
proof -
  let ?E = "sample_env ''a'' [(''tank'', ''7'')] [''a'', ''b''] (\<lambda>a. None)"
  let ?s = "sample_node [sample_group ''a'' 1]"
  have "Zpool (Export ''tank'') \<in> set (trace (snd (EnterMaintenance ?E ?s)))"
    by (simp add: EnterMaintenance_def List_groups_def perform_def currentView_def importedPools_def viewWith_def
        Maintenances_def inMaintenance_def in_maintenance_at_def known_nodes_def setMaintenance_def Let_def
        Move_def Get_def row_Cons setMoving_def moveShared_def sample_deactivate moved_def put_def handed_to_def
        pushAll_def)
  then obtain pre post where t: "trace (snd (EnterMaintenance ?E ?s)) = pre @ Zpool (Export ''tank'') # post"
    by (meson split_list)
  have "done_in ?E pre (Db (SetMaintenance True))"
    by (rule maintenance_flag_first [OF t]) simp_all
  with t show ?thesis by blast
qed

end
