(* ===== verification/Quorum.thy ===== *)
theory Quorum
  imports GoText
begin

text \<open>
  Cluster membership and votes (\<open>internal/quorum/conf.go\<close>, \<open>status.go\<close>, and the state the rest of the
  daemon reads from \<open>manager.go\<close>): the cluster definition and its validation, the votes it gives,
  the output of \<open>corosync-quorumtool\<close>, and what follows from both, among it the coordinator.
\<close>

section \<open>The cluster definition\<close>

record cluster_node =
  cnID :: int
  cnName :: string
  cnAddr :: string
  cnKey :: string
  cnVoter :: bool

record qdevice =
  qdHost :: string
  qdPort :: int
  qdAlgorithm :: string

record cluster =
  clName :: string
  clNodes :: "cluster_node list"
  clDevice :: "qdevice option"
  clTokens :: "string \<rightharpoonup> string"

datatype qerr =
    BadClusterName string | TooFewNodes | MixedFamilies | BadNodeID int | NotAnIP string string
  | AddressTwice string | BadNodeName string | VoterPaired string
  | BadHost string | BadPort int | BadAlgorithm string
  | NotInCluster | InCluster | AlreadyMember string | NotAMember string | RemoveElsewhere
  | InvalidCode | NameTaken string | AddressTaken string string | NoAddress string
  | NoConfiguration | BadKey | NotPEM | QCall string | QWrap string qerr | QJoined "qerr list"

definition cluster_name_ok :: "string \<Rightarrow> bool" where
  "cluster_name_ok = match_head_tail is_alnum (\<lambda>c. is_alnum c \<or> c \<in> set ''_-'') 31"

definition cluster_host_ok :: "string \<Rightarrow> bool" where
  "cluster_host_ok = match_head_tail is_alnum (\<lambda>c. is_alnum c \<or> c \<in> set ''.-'') 252"

fun count_nodes :: "(cluster_node \<Rightarrow> bool) \<Rightarrow> cluster_node list \<Rightarrow> int" where
  "count_nodes P [] = 0"
| "count_nodes P (n # ns) = (if P n then 1 else 0) + count_nodes P ns"

definition DPlaneNodes :: "cluster \<Rightarrow> int" where
  "DPlaneNodes c = count_nodes (\<lambda>n. \<not> cnVoter n) (clNodes c)"

definition addr_v4 :: "string \<Rightarrow> bool" where
  "addr_v4 a = (case parse_ip a of None \<Rightarrow> False | Some ip \<Rightarrow> is_v4 ip)"

text \<open>The second loop, with the ids and addresses seen.\<close>

fun check_nodes :: "int list \<Rightarrow> string list \<Rightarrow> cluster_node list \<Rightarrow> qerr option" where
  "check_nodes ids addrs [] = None"
| "check_nodes ids addrs (n # ns) =
     (if cnID n < 1 \<or> contains ids (cnID n) then Some (BadNodeID (cnID n))
      else if parse_ip (cnAddr n) = None then Some (NotAnIP (cnName n) (cnAddr n))
      else if contains addrs (cnAddr n) then Some (AddressTwice (cnAddr n))
      else if \<not> cluster_name_ok (cnName n) then Some (BadNodeName (cnName n))
      else if cnVoter n \<and> cnKey n \<noteq> [] then Some (VoterPaired (cnName n))
      else check_nodes (cnID n # ids) (cnAddr n # addrs) ns)"

definition check_device :: "qdevice option \<Rightarrow> qerr option" where
  "check_device q =
     (case q of
        None \<Rightarrow> None
      | Some d \<Rightarrow>
          (if \<not> cluster_host_ok (qdHost d) then Some (BadHost (qdHost d))
           else if qdPort d < 0 \<or> 65535 < qdPort d then Some (BadPort (qdPort d))
           else if qdAlgorithm d \<noteq> ''ffsplit'' \<and> qdAlgorithm d \<noteq> ''lms'' then Some (BadAlgorithm (qdAlgorithm d))
           else None))"

definition ValidateCluster :: "cluster \<Rightarrow> qerr option" where
  "ValidateCluster c =
     (let v4 = count_nodes (\<lambda>n. addr_v4 (cnAddr n)) (clNodes c) in
      first_error
       [guard (cluster_name_ok (clName c)) (BadClusterName (clName c)),
        guard (\<not> DPlaneNodes c < 2) TooFewNodes,
        guard (\<not> (v4 \<noteq> 0 \<and> v4 \<noteq> int (length (clNodes c)))) MixedFamilies,
        check_nodes [] [] (clNodes c),
        check_device (clDevice c)])"

section \<open>Votes\<close>

definition DefaultAlgorithm :: "nat \<Rightarrow> string" where
  "DefaultAlgorithm nodes = (if nodes mod 2 = 0 then ''ffsplit'' else ''lms'')"

definition qdeviceVotes :: "cluster \<Rightarrow> int" where
  "qdeviceVotes c =
     (case clDevice c of
        Some d \<Rightarrow> if qdAlgorithm d = ''lms'' then int (length (clNodes c)) - 1 else 1
      | None \<Rightarrow> 1)"

definition ExpectedVotes :: "cluster \<Rightarrow> int" where
  "ExpectedVotes c = int (length (clNodes c)) + (if clDevice c \<noteq> None then qdeviceVotes c else 0)"

section \<open>corosync.conf\<close>

definition text_lines :: "string list \<Rightarrow> string" where
  "text_lines ls = concat (map (\<lambda>l. l @ [newline]) ls)"

definition render_node :: "cluster_node \<Rightarrow> string list" where
  "render_node n =
     [''  node {'', ''    nodeid: '' @ show_int (cnID n), ''    name: '' @ cnName n,
      ''    ring0_addr: '' @ cnAddr n, ''  }'']"

definition render_quorum :: "cluster \<Rightarrow> string list" where
  "render_quorum c =
     [''quorum {'', ''  provider: corosync_votequorum''] @
     (case clDevice c of
        Some q \<Rightarrow>
          [''  device {'', ''    model: net'', ''    votes: '' @ show_int (qdeviceVotes c), ''    net {'',
           ''      tls: on'', ''      host: '' @ qdHost q] @
          (if qdPort q \<noteq> 0 \<and> qdPort q \<noteq> 5403 then [''      port: '' @ show_int (qdPort q)] else []) @
          [''      algorithm: '' @ qdAlgorithm q, ''    }'', ''  }'']
      | None \<Rightarrow> (if length (clNodes c) = 2 then [''  two_node: 1''] else [])) @
     [''}'', '''']"

definition Render :: "cluster \<Rightarrow> string" where
  "Render c = text_lines
     ([''# Written by dplaned (System > High Availability). Changes made here are overwritten.'',
       ''totem {'', ''  version: 2'', ''  cluster_name: '' @ clName c, ''  transport: knet'',
       ''  crypto_cipher: aes256'', ''  crypto_hash: sha256'', ''}'', '''', ''nodelist {''] @
      concat (map render_node (clNodes c)) @ [''}'', ''''] @ render_quorum c @
      [''logging {'', ''  to_syslog: yes'', ''  to_stderr: no'', ''}''])"

section \<open>Live state\<close>

record membership =
  mbID :: int
  mbVotes :: int
  mbQdevice :: string
  mbName :: string
  mbLocal :: bool

record live =
  lvRunning :: bool
  lvQuorate :: bool
  lvNodes :: int
  lvLocalID :: int
  lvExpected :: int
  lvTotal :: int
  lvQuorum :: int
  lvFlags :: "string list"
  lvMembers :: "membership list"
  lvDeviceVotes :: int
  lvDeviceAlive :: bool
  lvRingSeq :: int

definition HasFlag :: "live \<Rightarrow> string \<Rightarrow> bool" where
  "HasFlag st f = contains (lvFlags st) f"

definition atoi :: "string \<Rightarrow> int" where
  "atoi s = fst (Atoi (trim_space s))"

definition atoiPrefix :: "string \<Rightarrow> int" where
  "atoiPrefix s = (case words_of s of [] \<Rightarrow> 0 | f # _ \<Rightarrow> atoi f)"

definition isQdeviceFlags :: "string \<Rightarrow> bool" where
  "isQdeviceFlags s = list_all
     (\<lambda>p. p \<in> set [''A'', ''V'', ''NV'', ''NA'', ''MW'', ''NMW'', ''NR'']) (split_at (CHR '','') s)"

definition parseRingSeq :: "string \<Rightarrow> int" where
  "parseRingSeq s0 =
     (let s = trim_space s0 in
      case cut_at (CHR ''.'') s of
        Some (_, seq) \<Rightarrow> (case parse_uint63 hex_val 16 seq of None \<Rightarrow> 0 | Some n \<Rightarrow> n)
      | None \<Rightarrow>
          (case cut_at (CHR ''/'') s of
             Some (_, seq) \<Rightarrow> (case parse_uint63 digit_val 10 seq of None \<Rightarrow> 0 | Some n \<Rightarrow> n)
           | None \<Rightarrow> 0))"

definition parseMember :: "string \<Rightarrow> bool \<Rightarrow> membership option" where
  "parseMember line qdeviceCol =
     (let f = words_of line in
      if length f < 3 then None
      else case Atoi (f ! 0) of
        (_, True) \<Rightarrow> None
      | (id', False) \<Rightarrow>
          (let rest = drop 2 f;
               flagged = qdeviceCol \<and> 1 < length rest \<and> isQdeviceFlags (hd rest);
               rest1 = (if flagged then tl rest else rest);
               here = (rest1 \<noteq> [] \<and> List.last rest1 = ''(local)'');
               rest2 = (if here then butlast rest1 else rest1) in
           Some \<lparr>mbID = id', mbVotes = atoi (f ! 1), mbQdevice = (if flagged then hd rest else []),
                 mbName = join_with '' '' rest2, mbLocal = here\<rparr>))"

text \<open>One \<open>key: value\<close> line above the membership table.\<close>

definition read_field :: "string \<Rightarrow> live \<Rightarrow> live" where
  "read_field trimmed st =
     (case cut_at (CHR '':'') trimmed of
        None \<Rightarrow> st
      | Some (key, val0) \<Rightarrow>
          (let val = trim_space val0; k = trim_space key in
           if k = ''Quorate'' then st\<lparr>lvQuorate := (map to_lower val = ''yes'')\<rparr>
           else if k = ''Nodes'' then st\<lparr>lvNodes := atoi val\<rparr>
           else if k = ''Node ID'' then st\<lparr>lvLocalID := atoiPrefix val\<rparr>
           else if k = ''Expected votes'' then st\<lparr>lvExpected := atoi val\<rparr>
           else if k = ''Total votes'' then st\<lparr>lvTotal := atoi val\<rparr>
           else if k = ''Quorum'' then st\<lparr>lvQuorum := atoiPrefix val\<rparr>
           else if k = ''Flags'' then st\<lparr>lvFlags := words_of val\<rparr>
           else if k = ''Ring ID'' then st\<lparr>lvRingSeq := parseRingSeq val\<rparr>
           else st))"

text \<open>The loop over the lines; \<open>table\<close> is whether the membership table has begun, with its columns.\<close>

fun read_lines :: "bool option \<Rightarrow> string list \<Rightarrow> live \<Rightarrow> live" where
  "read_lines table [] st = st"
| "read_lines table (l # ls) st =
     (let trimmed = trim_space l in
      if trimmed = [] then read_lines table ls st
      else if has_prefix trimmed ''Nodeid'' \<and> contains_text trimmed ''Votes''
      then read_lines (Some (contains_text trimmed ''Qdevice'')) ls st
      else case table of
        Some col \<Rightarrow>
          (case parseMember trimmed col of
             None \<Rightarrow> read_lines table ls st
           | Some m \<Rightarrow>
               (if mbID m = 0 \<and> has_prefix (map to_lower (mbName m)) ''qdevice''
                then read_lines table ls (st\<lparr>lvDeviceVotes := mbVotes m\<rparr>)
                else read_lines table ls (st\<lparr>lvMembers := lvMembers st @ [m]\<rparr>)))
      | None \<Rightarrow> read_lines table ls (read_field trimmed st))"

definition no_live :: live where
  "no_live = \<lparr>lvRunning = False, lvQuorate = False, lvNodes = 0, lvLocalID = 0, lvExpected = 0, lvTotal = 0,
     lvQuorum = 0, lvFlags = [], lvMembers = [], lvDeviceVotes = 0, lvDeviceAlive = False, lvRingSeq = 0\<rparr>"

definition ParseQuorumtool :: "string \<Rightarrow> live" where
  "ParseQuorumtool out =
     (let st = read_lines None (split_at newline out)
            (no_live\<lparr>lvRunning := contains_text out ''Quorum information''\<rparr>) in
      st\<lparr>lvDeviceAlive := HasFlag st ''Qdevice'' \<and> 0 < lvDeviceVotes st\<rparr>)"

section \<open>What follows from both\<close>

definition settled :: "cluster \<Rightarrow> live \<Rightarrow> bool" where
  "settled c st =
     (if \<not> lvRunning st \<or> \<not> lvQuorate st \<or> lvExpected st \<noteq> ExpectedVotes c then False
      else clDevice c = None \<or> lvDeviceAlive st)"

text \<open>The configured node of a line of the table: the first that matches.\<close>

definition same_member :: "membership \<Rightarrow> cluster_node \<Rightarrow> bool" where
  "same_member m n \<longleftrightarrow> mbID m = cnID n \<or> mbName m = cnName n \<or> mbName m = cnAddr n"

fun onlineKeys :: "cluster \<Rightarrow> membership list \<Rightarrow> string list" where
  "onlineKeys c [] = []"
| "onlineKeys c (m # ms) =
     (case List.find (same_member m) (clNodes c) of
        Some n \<Rightarrow> if cnKey n \<noteq> [] then cnKey n # onlineKeys c ms else onlineKeys c ms
      | None \<Rightarrow> onlineKeys c ms)"

fun best_coordinator :: "cluster \<Rightarrow> membership list \<Rightarrow> int \<Rightarrow> string \<Rightarrow> string" where
  "best_coordinator c [] best key = key"
| "best_coordinator c (m # ms) best key =
     (case List.find (same_member m) (clNodes c) of
        Some n \<Rightarrow>
          (if \<not> cnVoter n \<and> cnKey n \<noteq> [] \<and> (key = [] \<or> cnID n < best)
           then best_coordinator c ms (cnID n) (cnKey n) else best_coordinator c ms best key)
      | None \<Rightarrow> best_coordinator c ms best key)"

definition coordinator :: "cluster \<Rightarrow> live \<Rightarrow> string \<times> int" where
  "coordinator c st =
     (if \<not> lvRunning st \<or> \<not> lvQuorate st then ([], 0)
      else (let key = best_coordinator c (lvMembers st) 0 [] in
            if key = [] then ([], 0) else (key, lvRingSeq st)))"

datatype no_failover = FailoverAllowed | NoThirdVote | ConfigurationChanging | OutsideQuorum | NoCluster

record info =
  inConfigured :: bool
  inQuorate :: bool
  inExpected :: int
  inAutoFailover :: bool
  inReason :: no_failover
  inReconfiguring :: bool
  inOnline :: "string list"
  inCoordinator :: string
  inTerm :: int

text \<open>
  \<open>Info\<close>: the third argument is the end of the reconfiguration window; the second result is the
  end of the window afterwards (0: over).
\<close>

definition Info :: "cluster option \<Rightarrow> live \<Rightarrow> time \<Rightarrow> time \<Rightarrow> info \<times> time" where
  "Info cfg st until now =
     (case cfg of
        None \<Rightarrow>
          (\<lparr>inConfigured = False, inQuorate = False, inExpected = 0, inAutoFailover = False, inReason = NoCluster,
            inReconfiguring = False, inOnline = [], inCoordinator = [], inTerm = 0\<rparr>, until)
      | Some c \<Rightarrow>
          (let until' = (if now < until \<and> settled c st then 0 else until);
               reconf = (now < until');
               quorate = (lvRunning st \<and> lvQuorate st);
               expected = (if ExpectedVotes c < lvExpected st then lvExpected st else ExpectedVotes c);
               reason = (if expected < 3 then NoThirdVote else if reconf then ConfigurationChanging
                         else if \<not> quorate then OutsideQuorum else FailoverAllowed);
               (coord, term) = coordinator c st in
           (\<lparr>inConfigured = True, inQuorate = quorate, inExpected = expected,
             inAutoFailover = (reason = FailoverAllowed), inReason = reason, inReconfiguring = reconf,
             inOnline = onlineKeys c (lvMembers st), inCoordinator = coord, inTerm = term\<rparr>, until')))"

section \<open>The coordinator\<close>

text \<open>The DPlaneOS nodes of the cluster that the membership table names.\<close>

definition present_nodes :: "cluster \<Rightarrow> membership list \<Rightarrow> cluster_node set" where
  "present_nodes c ms =
     {n. (\<exists>m \<in> set ms. List.find (same_member m) (clNodes c) = Some n) \<and> \<not> cnVoter n \<and> cnKey n \<noteq> []}"

lemma present_Nil [simp]: "present_nodes c [] = {}"
  by (simp add: present_nodes_def)

lemma present_Cons:
  "present_nodes c (m # ms) =
     (case List.find (same_member m) (clNodes c) of
        Some n \<Rightarrow> if \<not> cnVoter n \<and> cnKey n \<noteq> [] then insert n (present_nodes c ms) else present_nodes c ms
      | None \<Rightarrow> present_nodes c ms)"
  by (auto simp: present_nodes_def split: option.split)

lemma present_in_cluster: "n \<in> present_nodes c ms \<Longrightarrow> n \<in> set (clNodes c)"
  by (auto simp: present_nodes_def dest: find_SomeD)

text \<open>What the loop has found: the start value if nothing lies below it, else the key of the least id.\<close>

definition least_of :: "cluster_node set \<Rightarrow> int \<Rightarrow> string \<Rightarrow> string \<Rightarrow> bool" where
  "least_of N best key r \<longleftrightarrow>
     (r = key \<and> (\<forall>n \<in> N. key \<noteq> [] \<and> best \<le> cnID n)) \<or>
     (\<exists>n \<in> N. r = cnKey n \<and> (key = [] \<or> cnID n < best) \<and> (\<forall>n' \<in> N. cnID n \<le> cnID n'))"

lemma best_coordinator_least: "least_of (present_nodes c ms) best key (best_coordinator c ms best key)"
proof (induction ms arbitrary: best key)
  case Nil
  then show ?case by (simp add: least_of_def)
next
  case (Cons m ms)
  show ?case
  proof (cases "List.find (same_member m) (clNodes c)")
    case None
    with Cons.IH [of best key] show ?thesis by (simp add: present_Cons)
  next
    case (Some n)
    consider (skip) "cnVoter n \<or> cnKey n = []"
      | (better) "\<not> cnVoter n" "cnKey n \<noteq> []" "key = [] \<or> cnID n < best"
      | (worse) "\<not> cnVoter n" "cnKey n \<noteq> []" "key \<noteq> []" "best \<le> cnID n"
      by force
    then show ?thesis
    proof cases
      case skip
      with Some Cons.IH [of best key] show ?thesis by (auto simp: present_Cons)
    next
      case better
      with Some have eq: "best_coordinator c (m # ms) best key = best_coordinator c ms (cnID n) (cnKey n)"
        "present_nodes c (m # ms) = insert n (present_nodes c ms)" by (simp_all add: present_Cons)
      show ?thesis using Cons.IH [of "cnID n" "cnKey n"] better unfolding eq by (fastforce simp: least_of_def)
    next
      case worse
      with Some have eq: "best_coordinator c (m # ms) best key = best_coordinator c ms best key"
        "present_nodes c (m # ms) = insert n (present_nodes c ms)" by (simp_all add: present_Cons)
      show ?thesis using Cons.IH [of best key] worse unfolding eq by (fastforce simp: least_of_def)
    qed
  qed
qed

lemma check_nodes_ids:
  "check_nodes ids addrs ns = None \<Longrightarrow>
     distinct (map cnID ns) \<and> (\<forall>n \<in> set ns. 1 \<le> cnID n \<and> cnID n \<notin> set ids)"
  by (induction ids addrs ns rule: check_nodes.induct) (auto split: if_splits)

lemma ValidateCluster_nodes: "ValidateCluster c = None \<Longrightarrow> check_nodes [] [] (clNodes c) = None"
  by (simp add: ValidateCluster_def Let_def)

lemma valid_ids:
  assumes "ValidateCluster c = None" and "n \<in> set (clNodes c)" and "n' \<in> set (clNodes c)" and "cnID n = cnID n'"
  shows "n = n'"
  using check_nodes_ids [OF ValidateCluster_nodes [OF assms(1)]] assms(2-4) by (auto simp: distinct_map dest: inj_onD)

lemma coordinator_of_least:
  assumes "lvRunning st" and "lvQuorate st"
  shows "if present_nodes c (lvMembers st) = {} then coordinator c st = ([], 0)
         else \<exists>n \<in> present_nodes c (lvMembers st). coordinator c st = (cnKey n, lvRingSeq st) \<and>
                (\<forall>n' \<in> present_nodes c (lvMembers st). cnID n \<le> cnID n')"
proof -
  let ?N = "present_nodes c (lvMembers st)"
  have key: "n \<in> ?N \<Longrightarrow> cnKey n \<noteq> []" for n by (simp add: present_nodes_def)
  have l: "least_of ?N 0 [] (best_coordinator c (lvMembers st) 0 [])" by (rule best_coordinator_least)
  show ?thesis
  proof (cases "?N = {}")
    case True
    with l have "best_coordinator c (lvMembers st) 0 [] = []" by (auto simp: least_of_def)
    with True assms show ?thesis by (simp add: coordinator_def)
  next
    case False
    with l obtain n where n: "n \<in> ?N" "best_coordinator c (lvMembers st) 0 [] = cnKey n"
        "\<forall>n' \<in> ?N. cnID n \<le> cnID n'"
      by (auto simp: least_of_def)
    with key [of n] assms have "coordinator c st = (cnKey n, lvRingSeq st)" by (simp add: coordinator_def)
    with False n show ?thesis by auto
  qed
qed

text \<open>
  In a quorate partition the coordinator is the DPlaneOS node with the least corosync id among
  the members that the table names, its term is the ring sequence, and there is none exactly when no
  such node is present.
\<close>

theorem coordinator_least:
  assumes "lvRunning st" and "lvQuorate st"
  shows "if present_nodes c (lvMembers st) = {} then coordinator c st = ([], 0)
         else \<exists>n \<in> present_nodes c (lvMembers st). coordinator c st = (cnKey n, lvRingSeq st) \<and>
                (\<forall>n' \<in> present_nodes c (lvMembers st). cnID n \<le> cnID n')"
  using assms by (rule coordinator_of_least)

text \<open>A cluster of two nodes with a third vote, and what its nodes see of each other.\<close>

definition sample_cluster :: cluster where
  "sample_cluster =
     \<lparr>clName = ''c'',
      clNodes = [\<lparr>cnID = 1, cnName = ''a'', cnAddr = ''10.0.0.1'', cnKey = ''ka'', cnVoter = False\<rparr>,
                 \<lparr>cnID = 2, cnName = ''b'', cnAddr = ''10.0.0.2'', cnKey = ''kb'', cnVoter = False\<rparr>],
      clDevice = Some \<lparr>qdHost = ''w'', qdPort = 0, qdAlgorithm = ''ffsplit''\<rparr>, clTokens = Map.empty\<rparr>"

definition sample_live :: "int \<Rightarrow> membership list \<Rightarrow> live" where
  "sample_live here ms =
     no_live\<lparr>lvRunning := True, lvQuorate := True, lvLocalID := here, lvExpected := 3, lvMembers := ms, lvRingSeq := 7\<rparr>"

definition seen :: "int \<Rightarrow> string \<Rightarrow> bool \<Rightarrow> membership" where
  "seen i n here = \<lparr>mbID = i, mbVotes = 1, mbQdevice = [], mbName = n, mbLocal = here\<rparr>"

lemma sample_cluster_valid: "ValidateCluster sample_cluster = None"
  by code_simp

lemma sample_cluster_device:
  "clDevice sample_cluster = Some \<lparr>qdHost = ''w'', qdPort = 0, qdAlgorithm = ''ffsplit''\<rparr>"
  by (simp add: sample_cluster_def)

lemma coordinator_least_witness:
  "\<exists>n \<in> present_nodes sample_cluster [seen 2 ''b'' True, seen 1 ''a'' False].
     coordinator sample_cluster (sample_live 2 [seen 2 ''b'' True, seen 1 ''a'' False]) = (cnKey n, 7)"
  using coordinator_least [of "sample_live 2 [seen 2 ''b'' True, seen 1 ''a'' False]" sample_cluster]
  by (auto simp: sample_live_def present_nodes_def sample_cluster_def seen_def same_member_def split: if_splits)

text \<open>
  Two nodes that see the same members (in any order; each marks another line as its own) with
  the same ring name the same coordinator and term.
\<close>

theorem coordinator_agreed:
  assumes "ValidateCluster c = None" and "lvRunning st" and "lvQuorate st" and "lvRunning st'" and "lvQuorate st'"
    and "(\<lambda>m. (mbID m, mbName m)) ` set (lvMembers st) = (\<lambda>m. (mbID m, mbName m)) ` set (lvMembers st')"
    and "lvRingSeq st = lvRingSeq st'"
  shows "coordinator c st = coordinator c st'"
proof -
  have same: "same_member m = same_member m'" if "mbID m = mbID m'" "mbName m = mbName m'" for m m'
    using that by (simp add: same_member_def fun_eq_iff)
  have sub: "present_nodes c ms \<subseteq> present_nodes c ms'"
    if "(\<lambda>m. (mbID m, mbName m)) ` set ms \<subseteq> (\<lambda>m. (mbID m, mbName m)) ` set ms'" for ms ms'
  proof
    fix n assume n: "n \<in> present_nodes c ms"
    then obtain m where m: "m \<in> set ms" "List.find (same_member m) (clNodes c) = Some n"
      by (auto simp: present_nodes_def)
    have "(mbID m, mbName m) \<in> (\<lambda>m. (mbID m, mbName m)) ` set ms'" by (rule subsetD [OF that]) (use m(1) in blast)
    then obtain m' where "m' \<in> set ms'" "mbID m = mbID m'" "mbName m = mbName m'" by blast
    with m n same [of m m'] show "n \<in> present_nodes c ms'" by (auto simp: present_nodes_def)
  qed
  have eq: "present_nodes c (lvMembers st) = present_nodes c (lvMembers st')"
    by (intro equalityI sub equalityD1 [OF assms(6)] equalityD2 [OF assms(6)])
  show ?thesis
  proof (cases "present_nodes c (lvMembers st) = {}")
    case True
    then show ?thesis
      using coordinator_of_least [OF assms(2,3), of c] coordinator_of_least [OF assms(4,5), of c] eq by simp
  next
    case False
    obtain n where n: "n \<in> present_nodes c (lvMembers st)" "coordinator c st = (cnKey n, lvRingSeq st)"
        "\<forall>n' \<in> present_nodes c (lvMembers st). cnID n \<le> cnID n'"
      using coordinator_of_least [OF assms(2,3), of c] False by auto
    obtain n2 where n2: "n2 \<in> present_nodes c (lvMembers st)" "coordinator c st' = (cnKey n2, lvRingSeq st')"
        "\<forall>n' \<in> present_nodes c (lvMembers st). cnID n2 \<le> cnID n'"
      using coordinator_of_least [OF assms(4,5), of c] False eq by auto
    have "cnID n = cnID n2" using n(1,3) n2(1,3) by (simp add: order_antisym)
    then have "n = n2" using valid_ids [OF assms(1)] present_in_cluster n(1) n2(1) by blast
    with n(2) n2(2) assms(7) show ?thesis by simp
  qed
qed

lemma coordinator_agreed_witness:
  "coordinator sample_cluster (sample_live 1 [seen 1 ''a'' True, seen 2 ''b'' False]) =
   coordinator sample_cluster (sample_live 2 [seen 2 ''b'' True, seen 1 ''a'' False])"
  by (rule coordinator_agreed [OF sample_cluster_valid]) (auto simp: sample_live_def seen_def)

section \<open>Votes and automatic failover\<close>

text \<open>
  Corosync's votequorum (documented in \<open>votequorum(5)\<close>): a partition \<open>P\<close> (node ids) counts a vote for
  each of its nodes and those of the device if the device chose it; it is quorate with more than half
  of the expected votes, and under \<open>two_node\<close> with one vote.
\<close>

definition two_node :: "cluster \<Rightarrow> bool" where
  "two_node c \<longleftrightarrow> ''  two_node: 1'' \<in> set (render_quorum c)"

definition votes_in :: "cluster \<Rightarrow> int list \<Rightarrow> bool \<Rightarrow> int" where
  "votes_in c P device =
     count_nodes (\<lambda>n. contains P (cnID n)) (clNodes c) + (if device \<and> clDevice c \<noteq> None then qdeviceVotes c else 0)"

definition quorate_part :: "cluster \<Rightarrow> int list \<Rightarrow> bool \<Rightarrow> bool" where
  "quorate_part c P device \<longleftrightarrow>
     (if two_node c then 1 \<le> votes_in c P device else ExpectedVotes c < 2 * votes_in c P device)"

lemma two_node_iff: "two_node c \<longleftrightarrow> clDevice c = None \<and> length (clNodes c) = 2"
proof -
  have dev: "''  two_node: 1'' \<noteq> ''      host: '' @ h" "''  two_node: 1'' \<noteq> ''    votes: '' @ h"
    "''  two_node: 1'' \<noteq> ''      port: '' @ h" "''  two_node: 1'' \<noteq> ''      algorithm: '' @ h" for h
    by simp_all
  show ?thesis by (auto simp: two_node_def render_quorum_def dev split: option.split)
qed

lemma count_nodes_le: "0 \<le> count_nodes P ns \<and> count_nodes P ns \<le> int (length ns)"
  by (induction ns) auto

lemma count_nodes_disjoint:
  "set P \<inter> set Q = {} \<Longrightarrow>
     count_nodes (\<lambda>n. contains P (cnID n)) ns + count_nodes (\<lambda>n. contains Q (cnID n)) ns \<le> int (length ns)"
  by (induction ns) auto

lemma Expected_ge_3: "3 \<le> ExpectedVotes c \<Longrightarrow> \<not> two_node c \<and> 0 \<le> qdeviceVotes c"
  by (auto simp: two_node_iff ExpectedVotes_def qdeviceVotes_def split: option.splits if_splits)

text \<open>With three votes or more two partitions never both have quorum.\<close>

lemma votes_exclusive:
  assumes "3 \<le> ExpectedVotes c" and "set P \<inter> set Q = {}" and "\<not> (dp \<and> dq)"
  shows "\<not> (quorate_part c P dp \<and> quorate_part c Q dq)"
  using Expected_ge_3 [OF assms(1)] count_nodes_disjoint [OF assms(2), of "clNodes c"] assms(3)
  by (auto simp: quorate_part_def votes_in_def ExpectedVotes_def split: if_splits)

lemma Info_auto:
  assumes "inAutoFailover (fst (Info (Some c) st until now))"
  shows "lvRunning st" and "lvQuorate st" and "3 \<le> max (ExpectedVotes c) (lvExpected st)"
    and "now < until \<Longrightarrow> settled c st"
  using assms by (auto simp: Info_def Let_def split_beta split: if_splits)

text \<open>
  C7. A node that corosync runs with the configured votes and that reports automatic failover as
  possible is in the only partition that can have quorum: of two disjoint partitions, of which at
  most one holds the third vote, not both are quorate.
\<close>

theorem auto_failover_exclusive:
  assumes "inAutoFailover (fst (Info (Some c) st until now))" and "lvExpected st = ExpectedVotes c"
    and "set P \<inter> set Q = {}" and "\<not> (dp \<and> dq)"
  shows "lvQuorate st \<and> \<not> (quorate_part c P dp \<and> quorate_part c Q dq)"
  using votes_exclusive [OF _ assms(3,4), of c] Info_auto [OF assms(1)] assms(2) by simp

lemma auto_failover_exclusive_witness:
  "\<not> (quorate_part sample_cluster [1] True \<and> quorate_part sample_cluster [2] False)"
  using auto_failover_exclusive [of sample_cluster "sample_live 1 [seen 1 ''a'' True, seen 2 ''b'' False]" 0 10
      "[1]" "[2]" True False]
  by (simp add: Info_def Let_def split_beta sample_live_def no_live_def sample_cluster_def ExpectedVotes_def
      qdeviceVotes_def)

text \<open>
  Two nodes without a third vote: corosync runs with \<open>two_node\<close>, each half of a split stays
  quorate, and no node reports automatic failover as possible while corosync runs that configuration.
\<close>

theorem two_nodes_manual:
  assumes "clDevice c = None" and "length (clNodes c) = 2" and "P = [cnID (hd (clNodes c))]"
    and "Q = [cnID (List.last (clNodes c))]" and "lvExpected st \<le> ExpectedVotes c"
  shows "quorate_part c P False \<and> quorate_part c Q False \<and> \<not> inAutoFailover (fst (Info (Some c) st until now))"
proof -
  obtain a b where ns: "clNodes c = [a, b]"
    using assms(2) by (auto simp: numeral_2_eq_2 length_Suc_conv)
  have "two_node c" using assms(1,2) by (simp add: two_node_iff)
  then have "quorate_part c P False \<and> quorate_part c Q False"
    using assms(1,3,4) ns by (simp add: quorate_part_def votes_in_def)
  moreover have "ExpectedVotes c = 2" using assms(1) ns by (simp add: ExpectedVotes_def)
  ultimately show ?thesis using assms(5) Info_auto(3) [of c st until now] by auto
qed

lemma two_nodes_manual_witness:
  "\<not> inAutoFailover (fst (Info (Some (sample_cluster\<lparr>clDevice := None\<rparr>)) ((sample_live 1 [])\<lparr>lvExpected := 2\<rparr>) 0 10))"
  using two_nodes_manual [of "sample_cluster\<lparr>clDevice := None\<rparr>" "[1]" "[2]" "(sample_live 1 [])\<lparr>lvExpected := 2\<rparr>" 0 10]
  by (simp add: sample_cluster_def ExpectedVotes_def)

text \<open>
  C26. The algorithm the program chooses for the third vote: with an even number \<open>n\<close> of nodes a
  partition with the third vote needs half of the nodes and one without it more than half; with an odd
  number a single node with the third vote has quorum, and without it only all nodes together have.
\<close>

theorem third_vote_quorum:
  assumes "clDevice c = Some d" and "qdAlgorithm d = DefaultAlgorithm (length (clNodes c))"
    and "n = int (length (clNodes c))" and "k = count_nodes (\<lambda>m. contains P (cnID m)) (clNodes c)"
  shows "(quorate_part c P True \<longleftrightarrow> (if even n then n \<le> 2 * k else 1 \<le> k)) \<and>
         (quorate_part c P False \<longleftrightarrow> (if even n then n < 2 * k else n \<le> k))"
proof -
  have nt: "\<not> two_node c" using assms(1) by (simp add: two_node_iff)
  have ev: "even n \<longleftrightarrow> length (clNodes c) mod 2 = 0"
    using assms(3) by (simp flip: even_iff_mod_2_eq_zero)
  have ex: "ExpectedVotes c = (if even n then n + 1 else 2 * n - 1)"
    and dv: "qdeviceVotes c = (if even n then 1 else n - 1)"
    using assms(1-3) ev by (auto simp: ExpectedVotes_def qdeviceVotes_def DefaultAlgorithm_def)
  have "quorate_part c P True \<longleftrightarrow> (if even n then n \<le> 2 * k else 1 \<le> k)"
    using nt ex dv assms(1,4) by (auto simp: quorate_part_def votes_in_def)
  moreover have "quorate_part c P False \<longleftrightarrow> (if even n then n < 2 * k else n \<le> k)"
    using nt ex dv assms(1,4) by (auto simp: quorate_part_def votes_in_def elim!: evenE)
  ultimately show ?thesis by simp
qed

lemma third_vote_quorum_witness:
  "quorate_part sample_cluster [1] True \<and> \<not> quorate_part sample_cluster [1] False"
proof -
  have "clDevice sample_cluster = Some \<lparr>qdHost = ''w'', qdPort = 0, qdAlgorithm = ''ffsplit''\<rparr>"
    and "qdAlgorithm \<lparr>qdHost = ''w'', qdPort = 0, qdAlgorithm = ''ffsplit''\<rparr> =
         DefaultAlgorithm (length (clNodes sample_cluster))"
    and "2 = int (length (clNodes sample_cluster))"
    and "1 = count_nodes (\<lambda>m. contains [1] (cnID m)) (clNodes sample_cluster)"
    by (simp_all add: sample_cluster_def DefaultAlgorithm_def)
  from third_vote_quorum [OF this] show ?thesis by simp
qed

text \<open>
  The larger of the configured and the live number of votes decides: a node whose corosync still
  runs the former two-node configuration (its files could not be written after the new configuration was
  saved) reports automatic failover as possible, though both halves of a split are quorate.
\<close>

lemma auto_failover_while_two_node:
  "ValidateCluster sample_cluster = None \<and>
   inAutoFailover (fst (Info (Some sample_cluster)
     ((sample_live 1 [seen 1 ''a'' True])\<lparr>lvExpected := 2, lvFlags := [''2Node'', ''Quorate'']\<rparr>) 0 10)) \<and>
   quorate_part (sample_cluster\<lparr>clDevice := None\<rparr>) [1] False \<and>
   quorate_part (sample_cluster\<lparr>clDevice := None\<rparr>) [2] False"
  using sample_cluster_valid
  by (simp add: Info_def Let_def split_beta sample_live_def no_live_def sample_cluster_def ExpectedVotes_def
      qdeviceVotes_def quorate_part_def two_node_iff votes_in_def)

section \<open>What corosync reads and what the program reads back\<close>

definition conf_lines :: "cluster \<Rightarrow> string list" where
  "conf_lines c =
     [''# Written by dplaned (System > High Availability). Changes made here are overwritten.'',
      ''totem {'', ''  version: 2'', ''  cluster_name: '' @ clName c, ''  transport: knet'',
      ''  crypto_cipher: aes256'', ''  crypto_hash: sha256'', ''}'', '''', ''nodelist {''] @
     concat (map render_node (clNodes c)) @ [''}'', ''''] @ render_quorum c @
     [''logging {'', ''  to_syslog: yes'', ''  to_stderr: no'', ''}'']"

lemma valid_nodes:
  "check_nodes ids addrs ns = None \<Longrightarrow>
     \<forall>n \<in> set ns. cluster_name_ok (cnName n) \<and> parse_ip (cnAddr n) \<noteq> None \<and> (cnVoter n \<longrightarrow> cnKey n = [])"
  by (induction ids addrs ns rule: check_nodes.induct) (auto split: if_splits)

lemma one_line_name: "cluster_name_ok n \<Longrightarrow> one_line n"
  unfolding cluster_name_ok_def by (erule one_line_match) (simp_all add: newline_class, simp add: newline_def)

lemma one_line_host: "cluster_host_ok n \<Longrightarrow> one_line n"
  unfolding cluster_host_ok_def by (erule one_line_match) (simp_all add: newline_class, simp add: newline_def)

lemma render_node_lines:
  assumes "cluster_name_ok (cnName n)" and "parse_ip (cnAddr n) \<noteq> None" and "l \<in> set (render_node n)"
  shows "one_line l"
  using assms one_line_show [of "cnID n"] by (auto simp: render_node_def one_line_name one_line_address) (auto simp: newline_def)

lemma render_quorum_lines:
  assumes "check_device (clDevice c) = None" and "l \<in> set (render_quorum c)" shows "one_line l"
proof (cases "clDevice c")
  case None
  with assms(2) show ?thesis by (auto simp: render_quorum_def newline_def split: if_splits)
next
  case (Some d)
  with assms(1) have "cluster_host_ok (qdHost d)" "qdAlgorithm d = ''ffsplit'' \<or> qdAlgorithm d = ''lms''"
    by (auto simp: check_device_def split: if_splits)
  then have "one_line (qdHost d)" "one_line (qdAlgorithm d)" by (auto simp: one_line_host newline_def)
  with Some assms(2) one_line_show show ?thesis
    by (auto simp: render_quorum_def newline_def split: if_splits)
qed

lemma conf_one_line:
  assumes "ValidateCluster c = None" shows "\<forall>l \<in> set (conf_lines c). one_line l"
proof
  fix l assume "l \<in> set (conf_lines c)"
  then consider (fixed) "l \<in> set [''# Written by dplaned (System > High Availability). Changes made here are overwritten.'',
      ''totem {'', ''  version: 2'', ''  transport: knet'', ''  crypto_cipher: aes256'', ''  crypto_hash: sha256'',
      ''}'', '''', ''nodelist {'', ''logging {'', ''  to_syslog: yes'', ''  to_stderr: no'']"
    | (name) "l = ''  cluster_name: '' @ clName c"
    | (node) n where "n \<in> set (clNodes c)" "l \<in> set (render_node n)" | (quorum) "l \<in> set (render_quorum c)"
    unfolding conf_lines_def by fastforce
  then show "one_line l"
  proof cases
    case fixed
    then show ?thesis by (auto simp: newline_def)
  next
    case name
    with assms have "one_line (clName c)" by (simp add: ValidateCluster_def Let_def one_line_name)
    with name show ?thesis by (simp add: newline_def)
  next
    case node
    with valid_nodes [OF ValidateCluster_nodes [OF assms]] show ?thesis by (blast intro: render_node_lines)
  next
    case quorum
    with assms show ?thesis by (auto simp: ValidateCluster_def Let_def intro: render_quorum_lines)
  qed
qed

text \<open>
  C33. No value of a valid cluster can add a line to \<open>corosync.conf\<close>: the file's lines are exactly those
  of the layout, one block per node with its id, name and address.
\<close>

theorem Render_lines:
  assumes "ValidateCluster c = None" shows "split_at newline (Render c) = conf_lines c @ [[]]"
  using split_at_lines [OF conf_one_line [OF assms]]
  unfolding Render_def text_lines_def conf_lines_def .

lemma Render_lines_witness:
  "split_at newline (Render sample_cluster) = conf_lines sample_cluster @ [[]]"
  by (rule Render_lines [OF sample_cluster_valid])

text \<open>
  The row of a member as \<open>corosync-quorumtool\<close> prints it: id, votes, the flags of the third vote
  when that column is shown, the name, and a mark on the node itself.
\<close>

definition row_words :: "membership \<Rightarrow> string list" where
  "row_words m =
     [show_int (mbID m), show_int (mbVotes m)] @ (if mbQdevice m = [] then [] else [mbQdevice m]) @
     [mbName m] @ (if mbLocal m then [''(local)''] else [])"

definition printable :: "bool \<Rightarrow> membership \<Rightarrow> bool" where
  "printable col m \<longleftrightarrow>
     1 \<le> mbID m \<and> mbID m \<le> max_int64 \<and> 0 \<le> mbVotes m \<and> mbVotes m \<le> max_int64 \<and>
     (if col then mbQdevice m \<noteq> [] \<and> isQdeviceFlags (mbQdevice m) else mbQdevice m = []) \<and>
     mbName m \<noteq> ''(local)''"

lemma show_no_space: "0 \<le> i \<Longrightarrow> list_all is_digit (show_int i) \<and> show_int i \<noteq> []"
  using show_nat_digits by (simp add: show_int_def)

lemma drop_no_space: "\<forall>c \<in> set t. \<not> is_space c \<Longrightarrow> dropWhile is_space t = t"
  by (cases t) simp_all

lemma trim_no_space: "\<forall>c \<in> set s. \<not> is_space c \<Longrightarrow> trim_space s = s"
  by (simp add: trim_space_def drop_no_space)

lemma atoi_show: "0 \<le> i \<Longrightarrow> i \<le> max_int64 \<Longrightarrow> atoi (show_int i) = i"
  using trim_no_space [of "show_int i"] show_no_space [of i]
  by (simp add: atoi_def Atoi_show digit_no_space list_all_iff)

lemma parseMember_row:
  assumes "words_of line = row_words m" and "printable col m" shows "parseMember line col = Some m"
  using assms by (cases m) (auto simp: parseMember_def row_words_def printable_def Atoi_show atoi_show Let_def
      split: if_splits)

lemma digit_not_N: "is_digit c \<Longrightarrow> c \<noteq> CHR ''N''"
  by (auto simp: is_digit_def digit_chars_def)

text \<open>
  Reading the membership table gives back the members it shows, in order, each with its id, votes,
  flags and name and with the mark of the node itself, whatever the spacing of the rows.
\<close>

theorem read_table:
  assumes "list_all2 (\<lambda>l m. words_of (trim_space l) = row_words m) ls ms" and "\<forall>m \<in> set ms. printable col m"
  shows "read_lines (Some col) ls st = st\<lparr>lvMembers := lvMembers st @ ms\<rparr>"
  using assms
proof (induction ls ms arbitrary: st rule: list_all2_induct)
  case (Cons l ls m ms)
  let ?t = "trim_space l"
  have p: "printable col m" and pm: "parseMember ?t col = Some m"
    using Cons.prems Cons.hyps(1) parseMember_row by auto
  have id: "0 \<le> mbID m" "mbID m \<noteq> 0" using p by (simp_all add: printable_def)
  from Cons.hyps(1) obtain ws where w: "words_of ?t = show_int (mbID m) # ws" by (simp add: row_words_def)
  have ne: "?t \<noteq> []" using w by (auto simp: words_of_def)
  then obtain c cs where t: "?t = c # cs" by (cases ?t) auto
  have "hd (show_int (mbID m)) = c" "show_int (mbID m) \<noteq> []"
    using words_of_hd w t trim_space_hd [OF t] by auto
  with show_no_space [OF id(1)] have "c \<noteq> CHR ''N''" using digit_not_N by (auto simp: neq_Nil_conv)
  then have "\<not> has_prefix ?t ''Nodeid''" using t by (simp add: has_prefix_def)
  with pm ne id have "read_lines (Some col) (l # ls) st =
      read_lines (Some col) ls (st\<lparr>lvMembers := lvMembers st @ [m]\<rparr>)"
    by (simp add: Let_def)
  with Cons.IH [of "st\<lparr>lvMembers := lvMembers st @ [m]\<rparr>"] Cons.prems show ?case by simp
qed simp

lemma read_table_witness:
  "read_lines (Some True) [''         1          1    A,V,NMW a (local)'', ''  2  1  NR  b''] no_live =
     no_live\<lparr>lvMembers :=
       [\<lparr>mbID = 1, mbVotes = 1, mbQdevice = ''A,V,NMW'', mbName = ''a'', mbLocal = True\<rparr>,
        \<lparr>mbID = 2, mbVotes = 1, mbQdevice = ''NR'', mbName = ''b'', mbLocal = False\<rparr>]\<rparr>"
  by (subst read_table [where ms =
       "[\<lparr>mbID = 1, mbVotes = 1, mbQdevice = ''A,V,NMW'', mbName = ''a'', mbLocal = True\<rparr>,
         \<lparr>mbID = 2, mbVotes = 1, mbQdevice = ''NR'', mbName = ''b'', mbLocal = False\<rparr>]"]) code_simp+

end
