(* ===== verification/QuorumOps.thy ===== *)
theory QuorumOps
  imports Quorum
begin

text \<open>
  The cluster operations (\<open>internal/quorum/manager.go\<close>, \<open>members.go\<close>): what a node saves, writes to
  corosync's files, tells the other members and hands out when the cluster forms, changes or dissolves.

  The database, systemd, corosync's tools, the files of the certificate tools and the other members
  are the answers of an environment, which may depend on every earlier call. \<open>opMu\<close> serialises the
  operations. A key travels as base64: \<open>upKey\<close> is what the receiver decodes, \<open>None\<close> for text that is not
  base64; likewise the certificate bundle \<open>upP12\<close>, whose outer \<open>None\<close> is an empty text. \<open>time.Now\<close> and the database's \<open>NOW()\<close> are one clock.
\<close>

section \<open>State and calls\<close>

record update =
  upConfig :: "cluster option"
  upKey :: "string option"
  upCA :: string
  upP12 :: "string option option"
  upRemove :: bool

record voter_answer =
  vaCluster :: string
  vaConf :: string
  vaKey :: string
  vaToken :: string
  vaNodes :: "string list"

record enrollment =
  enHash :: string
  enExpires :: time
  enCA :: string
  enUsed :: "time option"

datatype qcall =
    LoadRow | SaveRow cluster string | DeleteRow
  | PushTo cluster_node update
  | ReadAuthkey | WriteAuthkey string | WriteConf string | RemoveConf | RemoveAuthkey
  | WriteFlag | RemoveFlag | RemoveStore
  | Systemctl string string | Reload | Certutil string
  | ReadFile string | WriteOther string string | RemoveOther string
  | RandomBytes | ExpireCodes | InsertCode string time | SetCodeCA string string | FindCode string | UseCode string

record qenv =
  qResult :: "qcall list \<Rightarrow> qcall \<Rightarrow> qerr option"
  qFile :: "qcall list \<Rightarrow> string \<Rightarrow> string"
  qRandom :: "qcall list \<Rightarrow> string"
  qNow :: "qcall list \<Rightarrow> time"
  qHash :: "string \<Rightarrow> string"

record qnode =
  qTrace :: "qcall list"
  qRow :: "(cluster \<times> string) option"
  qAuthkey :: "string option"
  qConf :: "string option"
  qFlag :: bool
  qUntil :: time
  qCodes :: "enrollment list"

definition qperform :: "qenv \<Rightarrow> qcall \<Rightarrow> qnode \<Rightarrow> qerr option \<times> qnode" where
  "qperform E a s = (qResult E (qTrace s) a, s\<lparr>qTrace := qTrace s @ [a]\<rparr>)"

text \<open>A call whose success changes the state, and calls in order up to the first that fails.\<close>

definition qdo :: "qenv \<Rightarrow> qcall \<Rightarrow> (qnode \<Rightarrow> qnode) \<Rightarrow> qnode \<Rightarrow> qerr option \<times> qnode" where
  "qdo E a f s =
     (case qperform E a s of (Some e, s1) \<Rightarrow> (Some e, s1) | (None, s1) \<Rightarrow> (None, f s1))"

fun qseq :: "qenv \<Rightarrow> qcall list \<Rightarrow> qnode \<Rightarrow> qerr option \<times> qnode" where
  "qseq E [] s = (None, s)"
| "qseq E (a # as) s =
     (case qperform E a s of (Some e, s1) \<Rightarrow> (Some e, s1) | (None, s1) \<Rightarrow> qseq E as s1)"

definition Load :: "qenv \<Rightarrow> qnode \<Rightarrow> (qerr + (cluster \<times> string) option) \<times> qnode" where
  "Load E s =
     (case qperform E LoadRow s of (Some e, s1) \<Rightarrow> (Inl e, s1) | (None, s1) \<Rightarrow> (Inr (qRow s1), s1))"

definition save :: "qenv \<Rightarrow> cluster \<Rightarrow> string \<Rightarrow> qnode \<Rightarrow> qerr option \<times> qnode" where
  "save E c key s = qdo E (SaveRow c key) (\<lambda>t. t\<lparr>qRow := Some (c, key)\<rparr>) s"

section \<open>Files and units\<close>

definition unitActive :: "qenv \<Rightarrow> string \<Rightarrow> qnode \<Rightarrow> bool \<times> qnode" where
  "unitActive E unit s =
     (case qperform E (Systemctl ''is-active'' unit) s of (r, s1) \<Rightarrow> (r = None, s1))"

definition second :: int where
  "second = 1000000000"

definition ReconfigWindow :: duration where
  "ReconfigWindow = 60 * second"

definition markReconfiguring :: "qenv \<Rightarrow> qnode \<Rightarrow> qnode" where
  "markReconfiguring E s = s\<lparr>qUntil := qNow E (qTrace s) + ReconfigWindow\<rparr>"

definition twoNode :: "cluster option \<Rightarrow> bool" where
  "twoNode c = (case c of None \<Rightarrow> False | Some c \<Rightarrow> clDevice c = None \<and> length (clNodes c) = 2)"

definition members_removed :: "cluster option \<Rightarrow> cluster \<Rightarrow> bool" where
  "members_removed prev c =
     (case prev of
        None \<Rightarrow> False
      | Some p \<Rightarrow> list_ex (\<lambda>n. \<not> contains (map cnID (clNodes c)) (cnID n)) (clNodes p))"

definition needs_restart :: "qenv \<Rightarrow> cluster option \<Rightarrow> cluster \<Rightarrow> string \<Rightarrow> string \<Rightarrow> qnode \<Rightarrow> bool \<times> qnode" where
  "needs_restart E prev c oldKey key s =
     (if prev = None \<or> members_removed prev c \<or> twoNode prev \<noteq> twoNode (Some c) \<or> oldKey \<noteq> key then (True, s)
      else (case unitActive E ''dplaneos-corosync'' s of (active, s1) \<Rightarrow> (\<not> active, s1)))"

definition start_device :: "qenv \<Rightarrow> cluster \<Rightarrow> qnode \<Rightarrow> qerr option \<times> qnode" where
  "start_device E c s =
     (if clDevice c \<noteq> None then
        (case qdo E WriteFlag (\<lambda>t. t\<lparr>qFlag := True\<rparr>) s of
           (Some e, s1) \<Rightarrow> (Some e, s1)
         | (None, s1) \<Rightarrow> qperform E (Systemctl ''restart'' ''dplaneos-qdevice'') s1)
      else
        (case qdo E RemoveFlag (\<lambda>t. t\<lparr>qFlag := False\<rparr>) s of
           (_, s1) \<Rightarrow>
             (case unitActive E ''dplaneos-qdevice'' s1 of
                (True, s2) \<Rightarrow> qperform E (Systemctl ''stop'' ''dplaneos-qdevice'') s2
              | (False, s2) \<Rightarrow> (None, s2))))"

definition restart_corosync :: "qenv \<Rightarrow> qnode \<Rightarrow> qerr option \<times> qnode" where
  "restart_corosync E s = qperform E (Systemctl ''restart'' ''dplaneos-corosync'') (markReconfiguring E s)"

definition activate :: "qenv \<Rightarrow> bool \<Rightarrow> qnode \<Rightarrow> qerr option \<times> qnode" where
  "activate E restart s =
     (if restart then restart_corosync E s
      else (case qperform E Reload s of
        (None, s1) \<Rightarrow> (None, s1)
      | (Some _, s1) \<Rightarrow> restart_corosync E s1))"

definition applyConfig :: "qenv \<Rightarrow> cluster option \<Rightarrow> cluster \<Rightarrow> string \<Rightarrow> qnode \<Rightarrow> qerr option \<times> qnode" where
  "applyConfig E prev c key s =
     (case ValidateCluster c of
        Some e \<Rightarrow> (Some e, s)
      | None \<Rightarrow>
          (case qperform E ReadAuthkey s of
             (r, s1) \<Rightarrow>
               (let oldKey = (if r = None then (case qAuthkey s1 of None \<Rightarrow> [] | Some k \<Rightarrow> k) else []) in
                case qdo E (WriteAuthkey key) (\<lambda>t. t\<lparr>qAuthkey := Some key\<rparr>) s1 of
                  (Some e, s2) \<Rightarrow> (Some (QWrap ''authkey'' e), s2)
                | (None, s2) \<Rightarrow>
                    (case qdo E (WriteConf (Render c)) (\<lambda>t. t\<lparr>qConf := Some (Render c)\<rparr>) s2 of
                       (Some e, s3) \<Rightarrow> (Some (QWrap ''corosync.conf'' e), s3)
                     | (None, s3) \<Rightarrow>
                         (case needs_restart E prev c oldKey key s3 of
                            (restart, s4) \<Rightarrow>
                              (case activate E restart s4 of
                                 (Some e, s5) \<Rightarrow> (Some e, s5)
                               | (None, s5) \<Rightarrow> start_device E c s5))))))"

fun stop_units :: "qenv \<Rightarrow> string list \<Rightarrow> qnode \<Rightarrow> qerr list \<times> qnode" where
  "stop_units E [] s = ([], s)"
| "stop_units E (u # us) s =
     (case unitActive E u s of
        (False, s1) \<Rightarrow> stop_units E us s1
      | (True, s1) \<Rightarrow>
          (case qperform E (Systemctl ''stop'' u) s1 of
             (r, s2) \<Rightarrow> (case stop_units E us s2 of
                          (es, s3) \<Rightarrow> ((case r of None \<Rightarrow> es | Some e \<Rightarrow> e # es), s3))))"

definition errs_of :: "qerr option list \<Rightarrow> qerr list" where
  "errs_of rs = concat (map (\<lambda>r. case r of None \<Rightarrow> [] | Some e \<Rightarrow> [e]) rs)"

definition joined :: "qerr list \<Rightarrow> qerr option" where
  "joined es = (if es = [] then None else Some (QJoined es))"

text \<open>A file that does not exist is no error: removing it is the environment's success.\<close>

definition removeAll :: "qenv \<Rightarrow> qnode \<Rightarrow> qerr option \<times> qnode" where
  "removeAll E s =
     (case stop_units E [''dplaneos-qdevice'', ''dplaneos-corosync''] s of
        (es, s1) \<Rightarrow>
          (case qdo E RemoveFlag (\<lambda>t. t\<lparr>qFlag := False\<rparr>) s1 of
             (r1, s2) \<Rightarrow>
               (case qdo E RemoveConf (\<lambda>t. t\<lparr>qConf := None\<rparr>) s2 of
                  (r2, s3) \<Rightarrow>
                    (case qdo E RemoveAuthkey (\<lambda>t. t\<lparr>qAuthkey := None\<rparr>) s3 of
                       (r3, s4) \<Rightarrow>
                         (case qperform E RemoveStore s4 of
                            (_, s5) \<Rightarrow> (joined (es @ errs_of [r1, r2, r3]), s5))))))"

section \<open>Certificates of the third vote\<close>

definition nodeInitCA :: "qenv \<Rightarrow> string \<Rightarrow> qnode \<Rightarrow> qerr option \<times> qnode" where
  "nodeInitCA E ca s =
     qseq E [RemoveOther ''nssdb'', WriteOther ''qnetd-cacert.crt'' ca, Certutil ''-i'', ReadFile ''cert9.db''] s"

definition produced :: "qenv \<Rightarrow> string \<Rightarrow> qnode \<Rightarrow> (qerr + string) \<times> qnode" where
  "produced E path s =
     (case qperform E (ReadFile path) s of
        (Some e, s1) \<Rightarrow> (Inl (QCall path), s1)
      | (None, s1) \<Rightarrow>
          (let b = qFile E (qTrace s1) path in (if b = [] then Inl (QCall path) else Inr b, s1)))"

definition nodeCSR :: "qenv \<Rightarrow> string \<Rightarrow> qnode \<Rightarrow> (qerr + string) \<times> qnode" where
  "nodeCSR E name s =
     (case qperform E (RemoveOther ''qdevice-net-node.crq'') s of
        (_, s1) \<Rightarrow>
          (case qperform E (Certutil (''-r -n '' @ name)) s1 of
             (Some e, s2) \<Rightarrow> (Inl e, s2)
           | (None, s2) \<Rightarrow> produced E ''qdevice-net-node.crq'' s2))"

definition nodeImportSigned :: "qenv \<Rightarrow> string \<Rightarrow> string \<Rightarrow> qnode \<Rightarrow> (qerr + string) \<times> qnode" where
  "nodeImportSigned E name cert s =
     (case qperform E (WriteOther (''cluster-'' @ name @ ''.crt'') cert) s of
        (Some e, s1) \<Rightarrow> (Inl e, s1)
      | (None, s1) \<Rightarrow>
          (case qperform E (RemoveOther ''qdevice-net-node.p12'') s1 of
             (_, s2) \<Rightarrow>
               (case qperform E (Certutil ''-M'') s2 of
                  (Some e, s3) \<Rightarrow> (Inl e, s3)
                | (None, s3) \<Rightarrow> produced E ''qdevice-net-node.p12'' s3)))"

definition nodeImportP12 :: "qenv \<Rightarrow> string \<Rightarrow> string \<Rightarrow> qnode \<Rightarrow> qerr option \<times> qnode" where
  "nodeImportP12 E ca p12 s =
     (case nodeInitCA E ca s of
        (Some e, s1) \<Rightarrow> (Some e, s1)
      | (None, s1) \<Rightarrow>
          (case qseq E [WriteOther ''qdevice-net-node.p12'' p12, Certutil ''-m''] s1 of
             (Some e, s2) \<Rightarrow> (Some e, s2)
           | (None, s2) \<Rightarrow>
               (case produced E ''key4.db'' s2 of (Inl e, s3) \<Rightarrow> (Some e, s3) | (Inr _, s3) \<Rightarrow> (None, s3))))"

definition qdeviceBundle :: "qenv \<Rightarrow> qnode \<Rightarrow> (qerr + string \<times> string) \<times> qnode" where
  "qdeviceBundle E s =
     (case qperform E (ReadFile ''qnetd-cacert.crt'') s of
        (Some e, s1) \<Rightarrow> (Inl e, s1)
      | (None, s1) \<Rightarrow>
          (let ca = qFile E (qTrace s1) ''qnetd-cacert.crt'' in
           case produced E ''nssdb/qdevice-net-node.p12'' s1 of
             (Inr b, s2) \<Rightarrow> (Inr (ca, b), s2)
           | (Inl _, s2) \<Rightarrow>
               (case produced E ''xfer/qdevice-net-node.p12'' s2 of
                  (Inr b, s3) \<Rightarrow> (Inr (ca, b), s3)
                | (Inl _, s3) \<Rightarrow> (Inl (QCall ''certificate''), s3))))"

section \<open>Members\<close>

definition Members :: "cluster \<Rightarrow> string \<Rightarrow> cluster_node list" where
  "Members c self = filter (\<lambda>n. \<not> cnVoter n \<and> cnKey n \<noteq> [] \<and> cnKey n \<noteq> self) (clNodes c)"

fun highest :: "int \<Rightarrow> cluster_node list \<Rightarrow> int" where
  "highest k [] = k"
| "highest k (n # ns) = highest (if k < cnID n then cnID n else k) ns"

definition nextID :: "cluster \<Rightarrow> int" where
  "nextID c = int64 (highest 0 (clNodes c) + 1)"

definition config_update :: "cluster \<Rightarrow> string \<Rightarrow> update" where
  "config_update c key = \<lparr>upConfig = Some c, upKey = Some key, upCA = [], upP12 = None, upRemove = False\<rparr>"

definition remove_update :: update where
  "remove_update = \<lparr>upConfig = None, upKey = Some [], upCA = [], upP12 = None, upRemove = True\<rparr>"

fun push_all :: "qenv \<Rightarrow> (cluster_node \<Rightarrow> update) \<Rightarrow> cluster_node list \<Rightarrow> qnode \<Rightarrow> qerr option \<times> qnode" where
  "push_all E u [] s = (None, s)"
| "push_all E u (n # ns) s =
     (case qperform E (PushTo n (u n)) s of
        (Some e, s1) \<Rightarrow> (Some (QWrap (cnName n) e), s1)
      | (None, s1) \<Rightarrow> push_all E u ns s1)"

definition save_apply :: "qenv \<Rightarrow> cluster option \<Rightarrow> cluster \<Rightarrow> string \<Rightarrow> qnode \<Rightarrow> qerr option \<times> qnode" where
  "save_apply E prev c key s =
     (case save E c key s of
        (Some e, s1) \<Rightarrow> (Some e, s1)
      | (None, s1) \<Rightarrow> applyConfig E prev c key s1)"

definition distribute ::
  "qenv \<Rightarrow> cluster option \<Rightarrow> cluster \<Rightarrow> string \<Rightarrow> string \<Rightarrow> (cluster_node \<Rightarrow> update) \<Rightarrow> qnode \<Rightarrow> qerr option \<times> qnode" where
  "distribute E prev c key self u s =
     (case push_all E u (Members c self) s of
        (Some e, s1) \<Rightarrow> (Some e, s1)
      | (None, s1) \<Rightarrow> save_apply E prev c key s1)"

section \<open>Cluster operations\<close>

text \<open>The cluster name and the key are what \<open>crypto/rand\<close> gives.\<close>

definition Form :: "qenv \<Rightarrow> cluster_node \<Rightarrow> cluster_node \<Rightarrow> qnode \<Rightarrow> (cluster option \<times> qerr option) \<times> qnode" where
  "Form E self peer s =
     (case Load E s of
        (Inl e, s1) \<Rightarrow> ((None, Some e), s1)
      | (Inr (Some _), s1) \<Rightarrow> ((None, Some InCluster), s1)
      | (Inr None, s1) \<Rightarrow>
          (let p = peer\<lparr>cnID := 2\<rparr>;
               c = \<lparr>clName = ''dplane-'' @ qRandom E (qTrace s1), clNodes = [self\<lparr>cnID := 1\<rparr>, p], clDevice = None,
                    clTokens = Map.empty\<rparr> in
           case ValidateCluster c of
             Some e \<Rightarrow> ((None, Some e), s1)
           | None \<Rightarrow>
               (case qperform E RandomBytes s1 of
                  (Some e, s2) \<Rightarrow> ((None, Some e), s2)
                | (None, s2) \<Rightarrow>
                    (let key = qRandom E (qTrace s2) in
                     case qperform E (PushTo p (config_update c key)) s2 of
                       (Some e, s3) \<Rightarrow> ((None, Some (QWrap (cnName p) e)), s3)
                     | (None, s3) \<Rightarrow>
                         (case save E c key s3 of
                            (Some e, s4) \<Rightarrow> ((None, Some e), s4)
                          | (None, s4) \<Rightarrow>
                              (case applyConfig E None c key s4 of (r, s5) \<Rightarrow> ((Some c, r), s5)))))))"

definition import_bundle :: "qenv \<Rightarrow> update \<Rightarrow> qnode \<Rightarrow> qerr option \<times> qnode" where
  "import_bundle E u s =
     (case upP12 u of
        None \<Rightarrow> (None, s)
      | Some None \<Rightarrow> (Some BadKey, s)
      | Some (Some p12) \<Rightarrow> nodeImportP12 E (upCA u) p12 s)"

definition ReceiveUpdate :: "qenv \<Rightarrow> update \<Rightarrow> qnode \<Rightarrow> qerr option \<times> qnode" where
  "ReceiveUpdate E u s =
     (if upRemove u then
        (case qdo E DeleteRow (\<lambda>t. t\<lparr>qRow := None\<rparr>) s of
           (Some e, s1) \<Rightarrow> (Some e, s1)
         | (None, s1) \<Rightarrow> removeAll E s1)
      else case upConfig u of
        None \<Rightarrow> (Some NoConfiguration, s)
      | Some c \<Rightarrow>
          (case ValidateCluster c of
             Some e \<Rightarrow> (Some e, s)
           | None \<Rightarrow>
               (case upKey u of
                  None \<Rightarrow> (Some BadKey, s)
                | Some key \<Rightarrow>
                    (if length key < 128 then (Some BadKey, s)
                     else case import_bundle E u s of
                       (Some e, s1) \<Rightarrow> (Some e, s1)
                     | (None, s1) \<Rightarrow>
                         (case Load E s1 of
                            (Inl e, s2) \<Rightarrow> (Some e, s2)
                          | (Inr prev, s2) \<Rightarrow> save_apply E (map_option fst prev) c key s2)))))"

fun tell_removed :: "qenv \<Rightarrow> cluster_node list \<Rightarrow> qnode \<Rightarrow> qerr list \<times> qnode" where
  "tell_removed E [] s = ([], s)"
| "tell_removed E (n # ns) s =
     (case qperform E (PushTo n remove_update) s of
        (r, s1) \<Rightarrow> (case tell_removed E ns s1 of
                     (es, s2) \<Rightarrow> ((case r of None \<Rightarrow> es | Some e \<Rightarrow> QWrap (cnName n) e # es), s2)))"

definition Dissolve :: "qenv \<Rightarrow> string \<Rightarrow> qnode \<Rightarrow> qerr option \<times> qnode" where
  "Dissolve E self s =
     (case Load E s of
        (Inl e, s1) \<Rightarrow> (Some e, s1)
      | (Inr r, s1) \<Rightarrow>
          (case (case r of
                   None \<Rightarrow> ([], s1)
                 | Some (c, key) \<Rightarrow>
                     (case tell_removed E (Members c self) s1 of
                        (es, s2) \<Rightarrow> (es @ map (\<lambda>n. QCall (''voter '' @ cnName n)) (filter cnVoter (clNodes c)), s2))) of
             (es, s2) \<Rightarrow>
               (case qdo E DeleteRow (\<lambda>t. t\<lparr>qRow := None\<rparr>) s2 of
                  (Some e, s3) \<Rightarrow> (Some e, s3)
                | (None, s3) \<Rightarrow>
                    (case removeAll E s3 of (r, s4) \<Rightarrow> (joined (es @ errs_of [r]), s4)))))"

text \<open>The stored cluster, or the error of an operation on a node outside any.\<close>

definition LoadMember :: "qenv \<Rightarrow> qnode \<Rightarrow> (qerr + cluster \<times> string) \<times> qnode" where
  "LoadMember E s =
     (case Load E s of
        (Inr (Some ck), s1) \<Rightarrow> (Inr ck, s1)
      | (_, s1) \<Rightarrow> (Inl NotInCluster, s1))"

definition RemoveThirdVote :: "qenv \<Rightarrow> string \<Rightarrow> qnode \<Rightarrow> qerr option \<times> qnode" where
  "RemoveThirdVote E self s =
     (case LoadMember E s of
        (Inl e, s1) \<Rightarrow> (Some e, s1)
      | (Inr (prev, key), s1) \<Rightarrow>
          (let c = prev\<lparr>clDevice := None\<rparr> in
           distribute E (Some prev) c key self (\<lambda>n. config_update c key) s1))"

definition follow_count :: "cluster \<Rightarrow> cluster" where
  "follow_count c =
     c\<lparr>clDevice := map_option (\<lambda>q. q\<lparr>qdAlgorithm := DefaultAlgorithm (length (clNodes c))\<rparr>) (clDevice c)\<rparr>"

definition join_update :: "cluster \<Rightarrow> string \<Rightarrow> string \<Rightarrow> string \<times> string \<Rightarrow> cluster_node \<Rightarrow> update" where
  "join_update c key newKey bundle m =
     (if cnKey m = newKey \<and> clDevice c \<noteq> None
      then (config_update c key)\<lparr>upCA := fst bundle, upP12 := Some (Some (snd bundle))\<rparr> else config_update c key)"

definition bundle_if_needed :: "qenv \<Rightarrow> cluster \<Rightarrow> qnode \<Rightarrow> (qerr + string \<times> string) \<times> qnode" where
  "bundle_if_needed E c s = (if clDevice c \<noteq> None then qdeviceBundle E s else (Inr ([], []), s))"

definition AddNode :: "qenv \<Rightarrow> string \<Rightarrow> cluster_node \<Rightarrow> qnode \<Rightarrow> (cluster option \<times> qerr option) \<times> qnode" where
  "AddNode E self n s =
     (case LoadMember E s of
        (Inl e, s1) \<Rightarrow> ((None, Some e), s1)
      | (Inr (prev, key), s1) \<Rightarrow>
          (if list_ex (\<lambda>m. cnKey m = cnKey n) (clNodes prev) then ((None, Some (AlreadyMember (cnName n))), s1)
           else
             (let c = follow_count (prev\<lparr>clNodes := clNodes prev @ [n\<lparr>cnID := nextID prev, cnVoter := False\<rparr>]\<rparr>) in
              case ValidateCluster c of
                Some e \<Rightarrow> ((None, Some e), s1)
              | None \<Rightarrow>
                  (case bundle_if_needed E c s1 of
                     (Inl e, s2) \<Rightarrow> ((None, Some e), s2)
                   | (Inr bundle, s2) \<Rightarrow>
                       (case distribute E (Some prev) c key self (join_update c key (cnKey n) bundle) s2 of
                          (r, s3) \<Rightarrow> ((Some c, r), s3))))))"

fun last_named :: "string \<Rightarrow> cluster_node option \<Rightarrow> cluster_node list \<Rightarrow> cluster_node option" where
  "last_named name gone [] = gone"
| "last_named name gone (n # ns) = last_named name (if cnName n = name then Some n else gone) ns"

definition without_member :: "string \<Rightarrow> cluster \<Rightarrow> cluster" where
  "without_member name c =
     follow_count (c\<lparr>clNodes := filter (\<lambda>n. cnName n \<noteq> name) (clNodes c), clTokens := (clTokens c)(name := None)\<rparr>)"

text \<open>The member that leaves is told; its answer does not matter.\<close>

definition tell_leaving :: "qenv \<Rightarrow> cluster_node \<Rightarrow> qnode \<Rightarrow> qnode" where
  "tell_leaving E gone s =
     (if \<not> cnVoter gone \<and> cnKey gone \<noteq> [] then snd (qperform E (PushTo gone remove_update) s) else s)"

definition RemoveNode :: "qenv \<Rightarrow> string \<Rightarrow> string \<Rightarrow> qnode \<Rightarrow> (cluster option \<times> qerr option) \<times> qnode" where
  "RemoveNode E self name s =
     (case LoadMember E s of
        (Inl e, s1) \<Rightarrow> ((None, Some e), s1)
      | (Inr (prev, key), s1) \<Rightarrow>
          (case last_named name None (clNodes prev) of
             None \<Rightarrow> ((None, Some (NotAMember name)), s1)
           | Some gone \<Rightarrow>
               (if cnKey gone = self then ((None, Some RemoveElsewhere), s1)
                else
                  (let c = without_member name prev in
                   case ValidateCluster c of
                     Some e \<Rightarrow> ((None, Some (QWrap ''dissolve'' e)), s1)
                   | None \<Rightarrow>
                       (case distribute E (Some prev) c key self (\<lambda>n. config_update c key) (tell_leaving E gone s1) of
                          (r, s3) \<Rightarrow> ((Some c, r), s3))))))"

section \<open>Codes, voters and the third vote\<close>

definition usable :: "qenv \<Rightarrow> string \<Rightarrow> time \<Rightarrow> enrollment \<Rightarrow> bool" where
  "usable E code now r \<longleftrightarrow> enHash r = qHash E code \<and> enUsed r = None \<and> now < enExpires r"

text \<open>\<open>CreateEnrollCode\<close>: the insertion fails when the hash is already there (the primary key).\<close>

definition CreateEnrollCode :: "qenv \<Rightarrow> qnode \<Rightarrow> (qerr + string \<times> time) \<times> qnode" where
  "CreateEnrollCode E s =
     (case Load E s of
        (Inl e, s1) \<Rightarrow> (Inl e, s1)
      | (Inr None, s1) \<Rightarrow> (Inl (QCall ''form a cluster first''), s1)
      | (Inr (Some _), s1) \<Rightarrow>
          (let code = ''dpq_'' @ qRandom E (qTrace s1);
               now = qNow E (qTrace s1); exp = now + 30 * 60 * second in
           case qdo E ExpireCodes
                  (\<lambda>t. t\<lparr>qCodes := filter (\<lambda>r. \<not> enExpires r < now - 24 * 60 * 60 * second) (qCodes t)\<rparr>) s1 of
             (_, s2) \<Rightarrow>
               (if list_ex (\<lambda>r. enHash r = qHash E code) (qCodes s2) then (Inl (QCall ''duplicate code''), s2)
                else case qdo E (InsertCode (qHash E code) exp)
                       (\<lambda>t. t\<lparr>qCodes := \<lparr>enHash = qHash E code, enExpires = exp, enCA = [], enUsed = None\<rparr> # qCodes t\<rparr>) s2 of
                  (Some e, s3) \<Rightarrow> (Inl e, s3)
                | (None, s3) \<Rightarrow> (Inr (code, exp), s3))))"

definition update_codes :: "(enrollment \<Rightarrow> bool) \<Rightarrow> (enrollment \<Rightarrow> enrollment) \<Rightarrow> qnode \<Rightarrow> qnode" where
  "update_codes P f s = s\<lparr>qCodes := map (\<lambda>r. if P r then f r else r) (qCodes s)\<rparr>"

definition EnrollCA :: "qenv \<Rightarrow> string \<Rightarrow> string \<Rightarrow> qnode \<Rightarrow> (qerr + string \<times> string) \<times> qnode" where
  "EnrollCA E code ca s =
     (if \<not> contains_text ca ''BEGIN CERTIFICATE'' then (Inl NotPEM, s)
      else
        (let now = qNow E (qTrace s); hits = filter (usable E code now) (qCodes s) in
         case qdo E (SetCodeCA (qHash E code) ca) (update_codes (usable E code now) (\<lambda>r. r\<lparr>enCA := ca\<rparr>)) s of
           (Some e, s1) \<Rightarrow> (Inl e, s1)
         | (None, s1) \<Rightarrow>
             (if length hits \<noteq> 1 then (Inl InvalidCode, s1)
              else case LoadMember E s1 of
                (Inl e, s2) \<Rightarrow> (Inl e, s2)
              | (Inr (c, _), s2) \<Rightarrow>
                  (case nodeInitCA E ca s2 of
                     (Some e, s3) \<Rightarrow> (Inl e, s3)
                   | (None, s3) \<Rightarrow>
                       (case nodeCSR E (clName c) s3 of
                          (Inl e, s4) \<Rightarrow> (Inl e, s4)
                        | (Inr csr, s4) \<Rightarrow> (Inr (clName c, csr), s4))))))"

text \<open>The row of a code that can be used now.\<close>

definition findCode :: "qenv \<Rightarrow> string \<Rightarrow> qnode \<Rightarrow> (qerr + enrollment option) \<times> qnode" where
  "findCode E code s =
     (let now = qNow E (qTrace s); r = List.find (usable E code now) (qCodes s) in
      case qperform E (FindCode (qHash E code)) s of (Some e, s1) \<Rightarrow> (Inl e, s1) | (None, s1) \<Rightarrow> (Inr r, s1))"

definition useCode :: "qenv \<Rightarrow> string \<Rightarrow> qnode \<Rightarrow> qerr option \<times> qnode" where
  "useCode E code s =
     (let now = qNow E (qTrace s) in
      qdo E (UseCode (qHash E code))
        (update_codes (\<lambda>r. enHash r = qHash E code) (\<lambda>r. r\<lparr>enUsed := Some now\<rparr>)) s)"

definition vote_update :: "cluster \<Rightarrow> string \<Rightarrow> string \<Rightarrow> string \<Rightarrow> update" where
  "vote_update c key ca p12 = (config_update c key)\<lparr>upCA := ca, upP12 := Some (Some p12)\<rparr>"

definition EnrollCert ::
  "qenv \<Rightarrow> string \<Rightarrow> string \<Rightarrow> string \<Rightarrow> string \<Rightarrow> qnode \<Rightarrow> (cluster option \<times> qerr option) \<times> qnode" where
  "EnrollCert E code cert addr self s =
     (case findCode E code s of
        (Inl e, s1) \<Rightarrow> ((None, Some e), s1)
      | (Inr None, s1) \<Rightarrow> ((None, Some InvalidCode), s1)
      | (Inr (Some r), s1) \<Rightarrow>
          (if enCA r = [] then ((None, Some InvalidCode), s1)
           else if \<not> cluster_host_ok addr then ((None, Some (BadHost addr)), s1)
           else case LoadMember E s1 of
             (Inl e, s2) \<Rightarrow> ((None, Some e), s2)
           | (Inr (prev, key), s2) \<Rightarrow>
               (case nodeImportSigned E (clName prev) cert s2 of
                  (Inl e, s3) \<Rightarrow> ((None, Some e), s3)
                | (Inr p12, s3) \<Rightarrow>
                    (let c = prev\<lparr>clDevice := Some \<lparr>qdHost = addr, qdPort = 0,
                                     qdAlgorithm = DefaultAlgorithm (length (clNodes prev))\<rparr>\<rparr> in
                     case ValidateCluster c of
                       Some e \<Rightarrow> ((None, Some e), s3)
                     | None \<Rightarrow>
                         (case push_all E (\<lambda>n. vote_update c key (enCA r) p12) (Members c self) s3 of
                            (Some e, s4) \<Rightarrow> ((None, Some e), s4)
                          | (None, s4) \<Rightarrow>
                              (case save E c key s4 of
                                 (Some e, s5) \<Rightarrow> ((None, Some e), s5)
                               | (None, s5) \<Rightarrow>
                                   (case useCode E code s5 of
                                      (Some e, s6) \<Rightarrow> ((None, Some e), s6)
                                    | (None, s6) \<Rightarrow>
                                        (case applyConfig E (Some prev) c key s6 of
                                           (r, s7) \<Rightarrow> ((Some c, r), s7)))))))))"

definition voterJoin :: "cluster \<Rightarrow> string \<Rightarrow> string \<Rightarrow> voter_answer" where
  "voterJoin c key token =
     \<lparr>vaCluster = clName c, vaConf = Render c, vaKey = key, vaToken = token,
      vaNodes = map cnAddr (filter (\<lambda>n. \<not> cnVoter n) (clNodes c))\<rparr>"

text \<open>\<open>enc\<close> is the base64 form of the key.\<close>

definition Text :: "(string \<Rightarrow> string) \<Rightarrow> voter_answer \<Rightarrow> string" where
  "Text enc j =
     ''cluster: '' @ vaCluster j @ [newline] @
     (if vaToken j \<noteq> [] then ''token: '' @ vaToken j @ [newline] else []) @
     ''nodes: '' @ join_with '' '' (vaNodes j) @ [newline] @
     ''authkey: '' @ enc (vaKey j) @ [newline] @ ''---'' @ [newline] @ vaConf j"

definition voterAddr :: "cluster \<Rightarrow> string \<Rightarrow> string \<Rightarrow> qerr + string" where
  "voterAddr c addr4 addr6 =
     (let wantV4 = (case clNodes c of
                      [] \<Rightarrow> True
                    | n # _ \<Rightarrow> (case parse_ip (cnAddr n) of None \<Rightarrow> True | Some ip \<Rightarrow> is_v4 ip));
          pick = (if wantV4 then addr4 else addr6);
          family = (if wantV4 then ''IPv4'' else ''IPv6'') in
      case parse_ip pick of
        None \<Rightarrow> Inl (NoAddress family)
      | Some ip \<Rightarrow> if is_v4 ip \<noteq> wantV4 then Inl (NoAddress family) else Inr (ip_text ip))"

fun voter_clash :: "string \<Rightarrow> string \<Rightarrow> cluster_node list \<Rightarrow> qerr option" where
  "voter_clash name addr [] = None"
| "voter_clash name addr (n # ns) =
     (if cnName n = name then Some (NameTaken name)
      else if cnAddr n = addr then Some (AddressTaken addr (cnName n)) else voter_clash name addr ns)"

definition with_voter :: "qenv \<Rightarrow> string \<Rightarrow> string \<Rightarrow> string \<Rightarrow> cluster \<Rightarrow> cluster" where
  "with_voter E name addr token c =
     follow_count (c\<lparr>clNodes := clNodes c @ [\<lparr>cnID = nextID c, cnName = name, cnAddr = addr, cnKey = [], cnVoter = True\<rparr>],
                     clTokens := (clTokens c)(name \<mapsto> qHash E token)\<rparr>)"

definition EnrollVoter ::
  "qenv \<Rightarrow> string \<Rightarrow> string \<Rightarrow> string \<Rightarrow> string \<Rightarrow> string \<Rightarrow> qnode \<Rightarrow> (qerr + voter_answer) \<times> qnode" where
  "EnrollVoter E code name0 addr4 addr6 self s =
     (case findCode E code s of
        (Inl e, s1) \<Rightarrow> (Inl e, s1)
      | (Inr None, s1) \<Rightarrow> (Inl InvalidCode, s1)
      | (Inr (Some _), s1) \<Rightarrow>
          (case LoadMember E s1 of
             (Inl e, s2) \<Rightarrow> (Inl e, s2)
           | (Inr (prev, key), s2) \<Rightarrow>
               (let name = map to_lower (trim_space name0) in
                case voterAddr prev addr4 addr6 of
                  Inl e \<Rightarrow> (Inl e, s2)
                | Inr addr \<Rightarrow>
                    (case voter_clash name addr (clNodes prev) of
                       Some e \<Rightarrow> (Inl e, s2)
                     | None \<Rightarrow>
                         (let token = ''dpv_'' @ qRandom E (qTrace s2); c = with_voter E name addr token prev in
                          case ValidateCluster c of
                            Some e \<Rightarrow> (Inl e, s2)
                          | None \<Rightarrow>
                              (case distribute E (Some prev) c key self (\<lambda>n. config_update c key) s2 of
                                 (Some e, s3) \<Rightarrow> (Inl e, s3)
                               | (None, s3) \<Rightarrow>
                                   (case useCode E code s3 of
                                      (Some e, s4) \<Rightarrow> (Inl e, s4)
                                    | (None, s4) \<Rightarrow> (Inr (voterJoin c key token), s4))))))))"

definition VoterConfig :: "qenv \<Rightarrow> string \<Rightarrow> string \<Rightarrow> qnode \<Rightarrow> (qerr + voter_answer) \<times> qnode" where
  "VoterConfig E name token s =
     (case LoadMember E s of
        (Inl e, s1) \<Rightarrow> (Inl e, s1)
      | (Inr (c, key), s1) \<Rightarrow>
          (case clTokens c name of
             None \<Rightarrow> (Inl InvalidCode, s1)
           | Some want \<Rightarrow>
               (if token = [] \<or> qHash E token \<noteq> want then (Inl InvalidCode, s1)
                else (Inr (voterJoin c key []), s1))))"

section \<open>What is saved and written is valid\<close>

definition valid_row :: "(cluster \<times> string) option \<Rightarrow> bool" where
  "valid_row r \<longleftrightarrow> (\<forall>c k. r = Some (c, k) \<longrightarrow> ValidateCluster c = None)"

definition valid_conf :: "string option \<Rightarrow> bool" where
  "valid_conf f \<longleftrightarrow> (\<forall>t. f = Some t \<longrightarrow> (\<exists>c. ValidateCluster c = None \<and> t = Render c))"

definition quorum_wf :: "qnode \<Rightarrow> bool" where
  "quorum_wf s \<longleftrightarrow> valid_row (qRow s) \<and> valid_conf (qConf s)"

lemma qperform_fields [simp]:
  "qRow (snd (qperform E a s)) = qRow s" "qConf (snd (qperform E a s)) = qConf s"
  "qAuthkey (snd (qperform E a s)) = qAuthkey s" "qFlag (snd (qperform E a s)) = qFlag s"
  "qUntil (snd (qperform E a s)) = qUntil s" "qCodes (snd (qperform E a s)) = qCodes s"
  "qTrace (snd (qperform E a s)) = qTrace s @ [a]" "fst (qperform E a s) = qResult E (qTrace s) a"
  by (simp_all add: qperform_def)

lemma quorum_wf_perform [simp]: "quorum_wf (snd (qperform E a s)) = quorum_wf s"
  by (simp add: quorum_wf_def)

lemma snd_qdo:
  "snd (qdo E a f s) = (if qResult E (qTrace s) a = None then f (snd (qperform E a s)) else snd (qperform E a s))"
  by (simp add: qdo_def qperform_def split: option.split)

lemma fst_qdo [simp]: "fst (qdo E a f s) = qResult E (qTrace s) a"
  by (simp add: qdo_def qperform_def split: option.split)

lemma quorum_wf_qdo: "(\<And>t. quorum_wf t \<Longrightarrow> quorum_wf (f t)) \<Longrightarrow> quorum_wf s \<Longrightarrow> quorum_wf (snd (qdo E a f s))"
  by (simp add: snd_qdo)

lemma quorum_wf_qseq [simp]: "quorum_wf (snd (qseq E as s)) = quorum_wf s"
  by (induction "as" arbitrary: s) (simp_all add: split_beta split: option.split)

lemma quorum_wf_Load [simp]: "quorum_wf (snd (Load E s)) = quorum_wf s"
  by (simp add: Load_def split_beta split: option.split)

lemma quorum_wf_unitActive [simp]: "quorum_wf (snd (unitActive E u s)) = quorum_wf s"
  by (simp add: unitActive_def split_beta)

lemma quorum_wf_fields [simp]:
  "quorum_wf (s\<lparr>qFlag := b\<rparr>) = quorum_wf s" "quorum_wf (s\<lparr>qAuthkey := k\<rparr>) = quorum_wf s"
  "quorum_wf (s\<lparr>qUntil := u\<rparr>) = quorum_wf s" "quorum_wf (s\<lparr>qCodes := cs\<rparr>) = quorum_wf s"
  by (simp_all add: quorum_wf_def)

lemma quorum_wf_qdo_fields [simp]:
  "quorum_wf (snd (qdo E a (\<lambda>t. t\<lparr>qFlag := b\<rparr>) s)) = quorum_wf s"
  "quorum_wf (snd (qdo E a (\<lambda>t. t\<lparr>qAuthkey := k\<rparr>) s)) = quorum_wf s"
  by (simp_all add: snd_qdo)

lemma quorum_wf_drop:
  "quorum_wf s \<Longrightarrow> quorum_wf (snd (qdo E a (\<lambda>t. t\<lparr>qConf := None\<rparr>) s))"
  "quorum_wf s \<Longrightarrow> quorum_wf (snd (qdo E a (\<lambda>t. t\<lparr>qRow := None\<rparr>) s))"
  by (simp_all add: snd_qdo quorum_wf_def valid_row_def valid_conf_def)

lemma quorum_wf_save: "quorum_wf s \<Longrightarrow> ValidateCluster c = None \<Longrightarrow> quorum_wf (snd (save E c key s))"
  by (simp add: save_def snd_qdo quorum_wf_def valid_row_def)

lemma quorum_wf_conf:
  "quorum_wf s \<Longrightarrow> ValidateCluster c = None \<Longrightarrow>
     quorum_wf (snd (qdo E (WriteConf (Render c)) (\<lambda>t. t\<lparr>qConf := Some (Render c)\<rparr>) s))"
  by (auto simp: snd_qdo quorum_wf_def valid_conf_def)

lemma quorum_wf_units [simp]:
  "quorum_wf (snd (needs_restart E prev c k k' s)) = quorum_wf s"
  "quorum_wf (snd (start_device E c s)) = quorum_wf s" "quorum_wf (snd (restart_corosync E s)) = quorum_wf s"
  "quorum_wf (snd (activate E r s)) = quorum_wf s"
  by (simp_all add: needs_restart_def start_device_def restart_corosync_def markReconfiguring_def activate_def
      split_beta split: option.split bool.split)

lemma quorum_wf_apply: "quorum_wf s \<Longrightarrow> quorum_wf (snd (applyConfig E prev c key s))"
  by (auto simp: applyConfig_def split_beta Let_def quorum_wf_conf split: option.split)

lemma quorum_wf_stop [simp]: "quorum_wf (snd (stop_units E us s)) = quorum_wf s"
  by (induction us arbitrary: s) (simp_all add: split_beta split: option.split bool.split)

lemma quorum_wf_removeAll: "quorum_wf s \<Longrightarrow> quorum_wf (snd (removeAll E s))"
  by (simp add: removeAll_def split_beta quorum_wf_drop del: stop_units.simps)

lemma quorum_wf_certs [simp]:
  "quorum_wf (snd (nodeInitCA E ca s)) = quorum_wf s" "quorum_wf (snd (produced E p s)) = quorum_wf s"
  "quorum_wf (snd (nodeCSR E n s)) = quorum_wf s" "quorum_wf (snd (nodeImportSigned E n x s)) = quorum_wf s"
  "quorum_wf (snd (nodeImportP12 E ca x s)) = quorum_wf s" "quorum_wf (snd (qdeviceBundle E s)) = quorum_wf s"
  "quorum_wf (snd (import_bundle E u s)) = quorum_wf s" "quorum_wf (snd (bundle_if_needed E c s)) = quorum_wf s"
  by (simp_all add: nodeInitCA_def produced_def nodeCSR_def nodeImportSigned_def nodeImportP12_def qdeviceBundle_def
      import_bundle_def bundle_if_needed_def Let_def split_beta split: option.split sum.split)

lemma quorum_wf_push [simp]: "quorum_wf (snd (push_all E u ns s)) = quorum_wf s"
  by (induction ns arbitrary: s) (simp_all add: split_beta split: option.split)

lemma quorum_wf_tell [simp]: "quorum_wf (snd (tell_removed E ns s)) = quorum_wf s"
  by (induction ns arbitrary: s) (simp_all add: split_beta split: option.split)

lemma quorum_wf_save_apply:
  "quorum_wf s \<Longrightarrow> ValidateCluster c = None \<Longrightarrow> quorum_wf (snd (save_apply E prev c key s))"
  using quorum_wf_save [of s c E key]
  by (auto simp: save_apply_def split_beta intro: quorum_wf_apply split: option.split)

lemma quorum_wf_distribute:
  "quorum_wf s \<Longrightarrow> ValidateCluster c = None \<Longrightarrow> quorum_wf (snd (distribute E prev c key self u s))"
  by (auto simp: distribute_def split_beta intro: quorum_wf_save_apply split: option.split)

lemma quorum_wf_LoadMember [simp]: "quorum_wf (snd (LoadMember E s)) = quorum_wf s"
  using quorum_wf_Load [of E s] by (simp add: LoadMember_def split_beta split: sum.split option.split)

lemma LoadMember_row: "LoadMember E s = (Inr (c, key), t) \<Longrightarrow> qRow s = Some (c, key)"
  by (auto simp: LoadMember_def Load_def qperform_def split: option.splits sum.splits)

lemma valid_without_device: "ValidateCluster c = None \<Longrightarrow> ValidateCluster (c\<lparr>clDevice := None\<rparr>) = None"
  by (simp add: ValidateCluster_def Let_def DPlaneNodes_def check_device_def)

lemma quorum_wf_codes [simp]:
  "quorum_wf (snd (findCode E code s)) = quorum_wf s" "quorum_wf (snd (useCode E code s)) = quorum_wf s"
  by (simp_all add: findCode_def useCode_def Let_def split_beta snd_qdo update_codes_def split: option.split)

lemma quorum_wf_Form: "quorum_wf s \<Longrightarrow> quorum_wf (snd (Form E self peer s))"
  by (auto simp: Form_def Let_def split_beta intro!: quorum_wf_apply quorum_wf_save split: sum.split option.split)

lemma quorum_wf_ReceiveUpdate: "quorum_wf s \<Longrightarrow> quorum_wf (snd (ReceiveUpdate E u s))"
  by (auto simp: ReceiveUpdate_def split_beta intro!: quorum_wf_removeAll quorum_wf_drop quorum_wf_save_apply
      split: sum.split option.split)

lemma quorum_wf_Dissolve: "quorum_wf s \<Longrightarrow> quorum_wf (snd (Dissolve E self s))"
  by (auto simp: Dissolve_def split_beta intro!: quorum_wf_removeAll quorum_wf_drop split: sum.split option.split)

lemma quorum_wf_RemoveThirdVote: "quorum_wf s \<Longrightarrow> quorum_wf (snd (RemoveThirdVote E self s))"
proof -
  assume s: "quorum_wf s"
  show ?thesis
  proof (cases "LoadMember E s")
    case (Pair r t)
    have t: "quorum_wf t" using quorum_wf_LoadMember [of E s] s Pair by simp
    show ?thesis
    proof (cases r)
      case (Inr ck)
      obtain c k where ck: "ck = (c, k)" by force
      then have "ValidateCluster c = None" using LoadMember_row s Pair Inr by (auto simp: quorum_wf_def valid_row_def)
      then show ?thesis using Pair Inr ck t
        by (simp add: RemoveThirdVote_def Let_def quorum_wf_distribute valid_without_device)
    qed (simp add: RemoveThirdVote_def Pair t)
  qed
qed

lemma quorum_wf_AddNode: "quorum_wf s \<Longrightarrow> quorum_wf (snd (AddNode E self n s))"
  by (auto simp: AddNode_def Let_def split_beta intro!: quorum_wf_distribute split: sum.split option.split)

lemma quorum_wf_leaving [simp]: "quorum_wf (tell_leaving E n s) = quorum_wf s"
  by (simp add: tell_leaving_def)

lemma quorum_wf_RemoveNode: "quorum_wf s \<Longrightarrow> quorum_wf (snd (RemoveNode E self name s))"
  by (auto simp: RemoveNode_def Let_def split_beta intro!: quorum_wf_distribute split: sum.split option.split)

lemma quorum_wf_EnrollVoter: "quorum_wf s \<Longrightarrow> quorum_wf (snd (EnrollVoter E code n a4 a6 self s))"
  by (auto simp: EnrollVoter_def Let_def split_beta intro!: quorum_wf_distribute split: sum.split option.split)

lemma quorum_wf_EnrollCert: "quorum_wf s \<Longrightarrow> quorum_wf (snd (EnrollCert E code cert addr self s))"
  by (auto simp: EnrollCert_def Let_def split_beta intro!: quorum_wf_apply quorum_wf_save split: sum.split option.split)

text \<open>The requests a node serves, each in an environment of its own.\<close>

datatype qrequest =
    ReqForm cluster_node cluster_node | ReqReceive update | ReqDissolve string | ReqRemoveThirdVote string
  | ReqAddNode string cluster_node | ReqRemoveNode string string | ReqCode
  | ReqEnrollCA string string | ReqEnrollCert string string string string
  | ReqEnrollVoter string string string string string | ReqVoterConfig string string

fun serve :: "qenv \<Rightarrow> qrequest \<Rightarrow> qnode \<Rightarrow> qnode" where
  "serve E (ReqForm self peer) s = snd (Form E self peer s)"
| "serve E (ReqReceive u) s = snd (ReceiveUpdate E u s)"
| "serve E (ReqDissolve self) s = snd (Dissolve E self s)"
| "serve E (ReqRemoveThirdVote self) s = snd (RemoveThirdVote E self s)"
| "serve E (ReqAddNode self n) s = snd (AddNode E self n s)"
| "serve E (ReqRemoveNode self name) s = snd (RemoveNode E self name s)"
| "serve E ReqCode s = snd (CreateEnrollCode E s)"
| "serve E (ReqEnrollCA code ca) s = snd (EnrollCA E code ca s)"
| "serve E (ReqEnrollCert code cert addr self) s = snd (EnrollCert E code cert addr self s)"
| "serve E (ReqEnrollVoter code name a4 a6 self) s = snd (EnrollVoter E code name a4 a6 self s)"
| "serve E (ReqVoterConfig name token) s = snd (VoterConfig E name token s)"

fun serve_all :: "(qenv \<times> qrequest) list \<Rightarrow> qnode \<Rightarrow> qnode" where
  "serve_all [] s = s"
| "serve_all ((E, r) # rs) s = serve_all rs (serve E r s)"

lemma quorum_wf_EnrollCA [simp]: "quorum_wf (snd (EnrollCA E code ca s)) = quorum_wf s"
  by (simp add: EnrollCA_def Let_def split_beta snd_qdo update_codes_def split: sum.split option.split)

lemma quorum_wf_code [simp]: "quorum_wf (snd (CreateEnrollCode E s)) = quorum_wf s"
  using quorum_wf_Load [of E s]
  by (simp add: CreateEnrollCode_def Let_def split_beta snd_qdo split: sum.split option.split)

lemma quorum_wf_VoterConfig [simp]: "quorum_wf (snd (VoterConfig E n tok s)) = quorum_wf s"
  using quorum_wf_LoadMember [of E s] by (simp add: VoterConfig_def split_beta split: sum.split option.split)

lemma quorum_wf_serve: "quorum_wf s \<Longrightarrow> quorum_wf (serve E r s)"
  by (cases r) (simp_all add: quorum_wf_Form quorum_wf_ReceiveUpdate quorum_wf_Dissolve quorum_wf_RemoveThirdVote
      quorum_wf_AddNode quorum_wf_RemoveNode quorum_wf_EnrollVoter quorum_wf_EnrollCert)

text \<open>
  C15. Whatever requests a node serves, whichever calls fail, the cluster it has saved is valid and
  its \<open>corosync.conf\<close> is the rendering of a valid cluster.
\<close>

theorem served_valid:
  assumes "quorum_wf s" shows "quorum_wf (serve_all rs s)"
  using assms by (induction rs s rule: serve_all.induct) (simp_all add: quorum_wf_serve)

definition calm_quorum :: qenv where
  "calm_quorum =
     \<lparr>qResult = (\<lambda>tr a. None), qFile = (\<lambda>tr p. ''x''), qRandom = (\<lambda>tr. ''c0ffee''), qNow = (\<lambda>tr. 1000),
      qHash = (\<lambda>t. ''#'' @ t)\<rparr>"

lemma calm_quorum_sel [simp]:
  "qResult calm_quorum tr a = None" "qFile calm_quorum tr p = ''x''" "qNow calm_quorum tr = 1000"
  "qHash calm_quorum t = ''#'' @ t"
  by (simp_all add: calm_quorum_def)

definition quorum_start :: qnode where
  "quorum_start =
     \<lparr>qTrace = [], qRow = None, qAuthkey = None, qConf = None, qFlag = False, qUntil = 0, qCodes = []\<rparr>"

lemma served_valid_witness:
  "quorum_wf (serve_all
     [(calm_quorum, ReqForm (hd (clNodes sample_cluster)) (List.last (clNodes sample_cluster))), (calm_quorum, ReqCode)]
     quorum_start)"
  by (rule served_valid) (simp add: quorum_start_def quorum_wf_def valid_row_def valid_conf_def)

section \<open>A change of the cluster\<close>

text \<open>\<open>n\<close> confirmed the update \<open>u\<close>.\<close>

definition told :: "qenv \<Rightarrow> qcall list \<Rightarrow> cluster_node \<Rightarrow> update \<Rightarrow> bool" where
  "told E tr n u \<longleftrightarrow> (\<exists>i < length tr. tr ! i = PushTo n u \<and> qResult E (take i tr) (PushTo n u) = None)"

lemma told_append: "told E tr n u \<Longrightarrow> told E (tr @ acts) n u"
  unfolding told_def by (force simp: nth_append)

lemma told_now: "qResult E tr (PushTo n u) = None \<Longrightarrow> told E (tr @ [PushTo n u]) n u"
  unfolding told_def by (intro exI [of _ "length tr"]) simp

text \<open>What a group of calls leaves alone: everything but the trace.\<close>

definition same_state :: "qnode \<Rightarrow> qnode \<Rightarrow> bool" where
  "same_state s t \<longleftrightarrow> (\<exists>acts. t = s\<lparr>qTrace := qTrace s @ acts\<rparr>)"

lemma same_state_refl [simp]: "same_state s s"
  unfolding same_state_def by (intro exI [of _ "[]"]) simp

lemma same_state_trans: "same_state s t \<Longrightarrow> same_state t u \<Longrightarrow> same_state s u"
  by (force simp: same_state_def)

lemma same_state_perform [simp]: "same_state s (snd (qperform E a s))"
  by (auto simp: same_state_def qperform_def)

lemma same_state_perform_after: "same_state s t \<Longrightarrow> same_state s (snd (qperform E a t))"
  by (erule same_state_trans) simp

lemma same_stateD:
  assumes "same_state s t"
  shows "qRow t = qRow s" "qConf t = qConf s" "qAuthkey t = qAuthkey s" "qFlag t = qFlag s" "qUntil t = qUntil s"
    "qCodes t = qCodes s" "\<exists>acts. qTrace t = qTrace s @ acts"
  using assms by (auto simp: same_state_def)

lemma push_all_same: "same_state s (snd (push_all E u ns s))"
proof (induction ns arbitrary: s)
  case (Cons n ns)
  show ?case
    using same_state_trans [OF same_state_perform Cons.IH [of "snd (qperform E (PushTo n (u n)) s)"]]
    by (simp add: split_beta split: option.split)
qed simp

lemma push_all_told:
  "fst (push_all E u ns s) = None \<Longrightarrow> \<forall>n \<in> set ns. told E (qTrace (snd (push_all E u ns s))) n (u n)"
proof (induction ns arbitrary: s)
  case (Cons n ns)
  let ?s1 = "snd (qperform E (PushTo n (u n)) s)"
  from Cons.prems have r: "qResult E (qTrace s) (PushTo n (u n)) = None" and ok: "fst (push_all E u ns ?s1) = None"
    by (simp_all add: split_beta split: option.splits)
  obtain acts where "qTrace (snd (push_all E u ns ?s1)) = qTrace ?s1 @ acts"
    using same_stateD(7) [OF push_all_same] by blast
  with told_append [OF told_now [OF r]] have "told E (qTrace (snd (push_all E u ns ?s1))) n (u n)" by simp
  with Cons.IH [OF ok] r show ?case by (simp add: split_beta)
qed simp

lemma unitActive_same: "same_state s (snd (unitActive E u s))"
  by (simp add: unitActive_def split_beta)

lemma needs_restart_same: "same_state s (snd (needs_restart E prev c k k' s))"
  by (simp add: needs_restart_def unitActive_def split_beta)

lemma needs_restartI:
  "prev = None \<or> members_removed prev c \<or> twoNode prev \<noteq> twoNode (Some c) \<or> k \<noteq> k' \<Longrightarrow>
     needs_restart E prev c k k' s = (True, s)"
  by (auto simp: needs_restart_def)

lemma start_device_state:
  "qRow (snd (start_device E c s)) = qRow s" "qConf (snd (start_device E c s)) = qConf s"
  "qAuthkey (snd (start_device E c s)) = qAuthkey s" "qUntil (snd (start_device E c s)) = qUntil s"
  "qCodes (snd (start_device E c s)) = qCodes s" "\<exists>acts. qTrace (snd (start_device E c s)) = qTrace s @ acts"
  by (simp_all add: start_device_def unitActive_def split_beta snd_qdo split: option.split bool.split)

lemma start_device_flag: "fst (start_device E c s) = None \<Longrightarrow> clDevice c \<noteq> None \<Longrightarrow> qFlag (snd (start_device E c s))"
  by (auto simp: start_device_def split_beta snd_qdo split: option.splits)

lemma activate_state:
  "qRow (snd (activate E r s)) = qRow s" "qConf (snd (activate E r s)) = qConf s"
  "qAuthkey (snd (activate E r s)) = qAuthkey s" "qCodes (snd (activate E r s)) = qCodes s"
  "\<exists>acts. qTrace (snd (activate E r s)) = qTrace s @ acts"
  by (simp_all add: activate_def restart_corosync_def markReconfiguring_def split_beta split: option.split)

text \<open>Corosync was restarted since \<open>s\<close> and the window opened then.\<close>

definition restarted :: "qenv \<Rightarrow> qnode \<Rightarrow> qnode \<Rightarrow> bool" where
  "restarted E s t \<longleftrightarrow>
     (\<exists>pre post. qTrace t = qTrace s @ pre @ Systemctl ''restart'' ''dplaneos-corosync'' # post \<and>
        qUntil t = qNow E (qTrace s @ pre) + ReconfigWindow)"

lemma activate_restarts:
  "restarted E s (snd (activate E True s))"
  unfolding restarted_def by (intro exI [of _ "[]"]) (simp add: activate_def restart_corosync_def markReconfiguring_def)

lemma activate_reload:
  assumes "fst (activate E False s) = None"
  shows "restarted E s (snd (activate E False s)) \<or> qUntil (snd (activate E False s)) = qUntil s"
proof (cases "qResult E (qTrace s) Reload")
  case None
  then show ?thesis by (simp add: activate_def split_beta)
next
  case (Some e)
  then show ?thesis
    unfolding restarted_def
    by (intro disjI1 exI [of _ "[Reload]"] exI [of _ "[]"])
      (simp add: activate_def restart_corosync_def markReconfiguring_def split_beta)
qed

lemma restarted_later:
  assumes "restarted E t u" and "qTrace t = qTrace s @ acts" and "qTrace v = qTrace u @ acts'" and "qUntil v = qUntil u"
  shows "restarted E s v"
proof -
  obtain pre post where "qTrace u = qTrace t @ pre @ Systemctl ''restart'' ''dplaneos-corosync'' # post"
    "qUntil u = qNow E (qTrace t @ pre) + ReconfigWindow"
    using assms(1) by (auto simp: restarted_def)
  with assms(2-4) show ?thesis
    unfolding restarted_def by (intro exI [of _ "acts @ pre"] exI [of _ "post @ acts'"]) simp
qed

text \<open>A successful \<open>apply\<close>, step by step: the state before the units are touched and after.\<close>

lemma applyConfig_steps:
  assumes "fst (applyConfig E prev c key s) = None"
  obtains old t r where "ValidateCluster c = None"
    and "old = (if qResult E (qTrace s) ReadAuthkey = None then case qAuthkey s of None \<Rightarrow> [] | Some k \<Rightarrow> k else [])"
    and "qRow t = qRow s" and "qConf t = Some (Render c)" and "qAuthkey t = Some key" and "qUntil t = qUntil s"
    and "qCodes t = qCodes s" and "\<exists>acts. qTrace t = qTrace s @ acts"
    and "r = fst (needs_restart E prev c old key t)"
    and "fst (activate E r (snd (needs_restart E prev c old key t))) = None"
    and "fst (start_device E c (snd (activate E r (snd (needs_restart E prev c old key t))))) = None"
    and "snd (applyConfig E prev c key s) =
         snd (start_device E c (snd (activate E r (snd (needs_restart E prev c old key t)))))"
proof -
  define s1 where "s1 = snd (qperform E ReadAuthkey s)"
  define s2 where "s2 = snd (qdo E (WriteAuthkey key) (\<lambda>t. t\<lparr>qAuthkey := Some key\<rparr>) s1)"
  define t where "t = snd (qdo E (WriteConf (Render c)) (\<lambda>t. t\<lparr>qConf := Some (Render c)\<rparr>) s2)"
  define old where
    "old = (if qResult E (qTrace s) ReadAuthkey = None then case qAuthkey s of None \<Rightarrow> [] | Some k \<Rightarrow> k else [])"
  from assms have v: "ValidateCluster c = None" by (auto simp: applyConfig_def split: option.splits)
  from assms v have w1: "qResult E (qTrace s1) (WriteAuthkey key) = None"
    by (auto simp: applyConfig_def split_beta Let_def s1_def split: option.splits)
  from assms v w1 have w2: "qResult E (qTrace s2) (WriteConf (Render c)) = None"
    by (auto simp: applyConfig_def split_beta Let_def s1_def s2_def split: option.splits)
  have f: "qRow t = qRow s" "qConf t = Some (Render c)" "qAuthkey t = Some key" "qUntil t = qUntil s"
    "qCodes t = qCodes s" "\<exists>acts. qTrace t = qTrace s @ acts"
    using w1 w2 by (simp_all add: t_def s2_def s1_def snd_qdo)
  have eq: "applyConfig E prev c key s =
      (case needs_restart E prev c old key t of
         (restart, s4) \<Rightarrow>
           (case activate E restart s4 of (Some e, s5) \<Rightarrow> (Some e, s5) | (None, s5) \<Rightarrow> start_device E c s5))"
    using v w1 w2
    by (simp add: applyConfig_def split_beta Let_def old_def s1_def s2_def t_def cong: option.case_cong)
  let ?r = "fst (needs_restart E prev c old key t)"
  have a: "fst (activate E ?r (snd (needs_restart E prev c old key t))) = None"
    using assms unfolding eq by (auto simp: split_beta split: option.splits)
  with assms eq have "fst (start_device E c (snd (activate E ?r (snd (needs_restart E prev c old key t))))) = None"
    and "snd (applyConfig E prev c key s) =
         snd (start_device E c (snd (activate E ?r (snd (needs_restart E prev c old key t)))))"
    by (simp_all add: split_beta)
  with that [OF v old_def f refl a] show thesis by blast
qed

lemma applyConfig_ok:
  assumes "fst (applyConfig E prev c key s) = None"
  shows "qRow (snd (applyConfig E prev c key s)) = qRow s"
    and "qConf (snd (applyConfig E prev c key s)) = Some (Render c)"
    and "qAuthkey (snd (applyConfig E prev c key s)) = Some key"
    and "clDevice c \<noteq> None \<longrightarrow> qFlag (snd (applyConfig E prev c key s))"
    and "\<exists>acts. qTrace (snd (applyConfig E prev c key s)) = qTrace s @ acts"
proof -
  obtain old t r where s: "qRow t = qRow s" "qConf t = Some (Render c)" "qAuthkey t = Some key"
      "\<exists>acts. qTrace t = qTrace s @ acts"
    and d: "fst (start_device E c (snd (activate E r (snd (needs_restart E prev c old key t))))) = None"
    and e: "snd (applyConfig E prev c key s) =
         snd (start_device E c (snd (activate E r (snd (needs_restart E prev c old key t)))))"
    using applyConfig_steps [OF assms] by metis
  note n = same_stateD [OF needs_restart_same, of E prev c old key t]
  show "qRow (snd (applyConfig E prev c key s)) = qRow s"
    "qConf (snd (applyConfig E prev c key s)) = Some (Render c)"
    "qAuthkey (snd (applyConfig E prev c key s)) = Some key"
    using s n by (simp_all add: e start_device_state activate_state)
  show "clDevice c \<noteq> None \<longrightarrow> qFlag (snd (applyConfig E prev c key s))"
    using start_device_flag [OF d] e by auto
  show "\<exists>acts. qTrace (snd (applyConfig E prev c key s)) = qTrace s @ acts"
    using s(4) n(7) activate_state(5) [of E r "snd (needs_restart E prev c old key t)"]
      start_device_state(6) [of E c "snd (activate E r (snd (needs_restart E prev c old key t)))"]
    by (auto simp: e)
qed

text \<open>
  C24. A successful application writes the file and the key, and restarts corosync (opening the window
  in which a loss of quorum does not count) unless the members all stay, \<open>two_node\<close> does not change,
  the key is the one on disk and the running corosync accepted a reload.
\<close>

theorem apply_restarts:
  assumes "fst (applyConfig E prev c key s) = None"
  shows "qConf (snd (applyConfig E prev c key s)) = Some (Render c) \<and>
    qAuthkey (snd (applyConfig E prev c key s)) = Some key \<and>
    (restarted E s (snd (applyConfig E prev c key s)) \<or>
     (prev \<noteq> None \<and> \<not> members_removed prev c \<and> twoNode prev = twoNode (Some c) \<and>
      (qAuthkey s = Some key \<or> key = []) \<and> qUntil (snd (applyConfig E prev c key s)) = qUntil s))"
proof -
  obtain old t r where
    old: "old = (if qResult E (qTrace s) ReadAuthkey = None then case qAuthkey s of None \<Rightarrow> [] | Some k \<Rightarrow> k else [])"
    and t: "qUntil t = qUntil s" "\<exists>acts. qTrace t = qTrace s @ acts"
    and r: "r = fst (needs_restart E prev c old key t)"
    and a: "fst (activate E r (snd (needs_restart E prev c old key t))) = None"
    and e: "snd (applyConfig E prev c key s) =
         snd (start_device E c (snd (activate E r (snd (needs_restart E prev c old key t)))))"
    using applyConfig_steps [OF assms] by metis
  let ?n = "snd (needs_restart E prev c old key t)"
  let ?u = "snd (activate E r ?n)"
  note n = same_stateD [OF needs_restart_same, of E prev c old key t]
  obtain acts where acts: "qTrace ?n = qTrace s @ acts" using t(2) n(7) by auto
  obtain acts' where acts': "qTrace (snd (start_device E c ?u)) = qTrace ?u @ acts'"
    using start_device_state(6) by blast
  have later: "restarted E s (snd (applyConfig E prev c key s))" if "restarted E ?n ?u"
    unfolding e by (rule restarted_later [OF that acts acts']) (simp add: start_device_state)
  have "restarted E s (snd (applyConfig E prev c key s)) \<or>
     (prev \<noteq> None \<and> \<not> members_removed prev c \<and> twoNode prev = twoNode (Some c) \<and>
      (qAuthkey s = Some key \<or> key = []) \<and> qUntil (snd (applyConfig E prev c key s)) = qUntil s)"
  proof (cases r)
    case True
    with activate_restarts [of E ?n] later show ?thesis by simp
  next
    case False
    with r have keep: "prev \<noteq> None \<and> \<not> members_removed prev c \<and> twoNode prev = twoNode (Some c) \<and> old = key"
      using needs_restartI [of prev c old key E t] by fastforce
    then have "qAuthkey s = Some key \<or> key = []" using old by (auto split: if_splits option.splits)
    moreover from False a have "restarted E ?n ?u \<or> qUntil ?u = qUntil ?n"
      using activate_reload [of E ?n] by auto
    ultimately show ?thesis using keep later n(5) t(1) by (auto simp: e start_device_state)
  qed
  then show ?thesis using applyConfig_ok(2,3) [OF assms] by simp
qed

lemma apply_restarts_witness:
  "restarted calm_quorum quorum_start (snd (applyConfig calm_quorum None sample_cluster ''k'' quorum_start))"
proof -
  have "fst (applyConfig calm_quorum None sample_cluster ''k'' quorum_start) = None"
    by (simp add: applyConfig_def sample_cluster_valid split_beta needs_restart_def activate_def
        restart_corosync_def start_device_def sample_cluster_device)
  from apply_restarts [OF this] show ?thesis by simp
qed

section \<open>Nothing is saved that a member did not confirm\<close>

text \<open>The row and the codes are as they were; only calls were added.\<close>

definition keeps_row :: "qnode \<Rightarrow> qnode \<Rightarrow> bool" where
  "keeps_row s t \<longleftrightarrow> qRow t = qRow s \<and> qCodes t = qCodes s \<and> (\<exists>acts. qTrace t = qTrace s @ acts)"

lemma keeps_row_refl [simp]: "keeps_row s s"
  by (simp add: keeps_row_def)

lemma keeps_row_trans: "keeps_row s t \<Longrightarrow> keeps_row t u \<Longrightarrow> keeps_row s u"
  by (auto simp: keeps_row_def)

lemma keeps_row_same: "same_state s t \<Longrightarrow> keeps_row s t"
  by (auto simp: keeps_row_def dest: same_stateD)

lemma keeps_row_perform [simp]: "keeps_row s (snd (qperform E a t)) = keeps_row s t"
  if "keeps_row s t" using that by (auto simp: keeps_row_def)

lemma keeps_row_units:
  "keeps_row s (snd (needs_restart E prev c k k' s))" "keeps_row s (snd (activate E r s))"
  "keeps_row s (snd (start_device E c s))"
  using start_device_state [of E c s] activate_state [of E r s]
  by (simp_all add: keeps_row_same needs_restart_same) (simp_all add: keeps_row_def)

lemma keeps_row_write:
  "keeps_row s (snd (qdo E a (\<lambda>t. t\<lparr>qAuthkey := k\<rparr>) s))" "keeps_row s (snd (qdo E a (\<lambda>t. t\<lparr>qConf := f\<rparr>) s))"
  by (simp_all add: keeps_row_def snd_qdo)

lemma keeps_row_applyConfig: "keeps_row s (snd (applyConfig E prev c key s))"
proof -
  have 1: "keeps_row s (snd (qperform E ReadAuthkey s))" by simp
  have 2: "keeps_row s (snd (qdo E a (\<lambda>t. t\<lparr>qAuthkey := k\<rparr>) (snd (qperform E ReadAuthkey s))))" for a k
    by (rule keeps_row_trans [OF 1 keeps_row_write(1)])
  have 3: "keeps_row s (snd (qdo E b (\<lambda>t. t\<lparr>qConf := f\<rparr>) (snd (qdo E a (\<lambda>t. t\<lparr>qAuthkey := k\<rparr>)
      (snd (qperform E ReadAuthkey s))))))" for a b k f
    by (rule keeps_row_trans [OF 2 keeps_row_write(2)])
  have 4: "keeps_row s t \<Longrightarrow> keeps_row s (snd (needs_restart E prev c x y t))" for t x y
    by (erule keeps_row_trans) (rule keeps_row_units)
  have 5: "keeps_row s t \<Longrightarrow> keeps_row s (snd (activate E r t))" for t r
    by (erule keeps_row_trans) (rule keeps_row_units)
  have 6: "keeps_row s t \<Longrightarrow> keeps_row s (snd (start_device E c t))" for t
    by (erule keeps_row_trans) (rule keeps_row_units)
  show ?thesis
    unfolding applyConfig_def split_beta Let_def using 2 3
    by (auto split: option.split intro!: 4 5 6)
qed

text \<open>What the operations that share \<open>push_all\<close>, \<open>save\<close> and \<open>apply\<close> do to the row.\<close>

lemma save_keeps_codes: "qCodes (snd (save E c key s)) = qCodes s"
  by (simp add: save_def snd_qdo)

lemma save_trace: "qTrace (snd (save E c key s)) = qTrace s @ [SaveRow c key]"
  by (simp add: save_def snd_qdo)

lemma save_row: "qRow (snd (save E c key s)) = (if fst (save E c key s) = None then Some (c, key) else qRow s)"
  by (simp add: save_def snd_qdo)

lemma save_apply_row:
  "qRow (snd (save_apply E prev c key s)) = qRow s \<or> qRow (snd (save_apply E prev c key s)) = Some (c, key)"
  "qCodes (snd (save_apply E prev c key s)) = qCodes s"
  "\<exists>acts. qTrace (snd (save_apply E prev c key s)) = qTrace s @ acts"
  using keeps_row_applyConfig [of "snd (save E c key s)" E prev c key]
  by (auto simp: save_apply_def split_beta keeps_row_def save_keeps_codes save_trace save_row split: option.split)

definition confirmed :: "qenv \<Rightarrow> cluster \<Rightarrow> string \<Rightarrow> string \<Rightarrow> qcall list \<Rightarrow> bool" where
  "confirmed E c key self tr \<longleftrightarrow>
     (\<forall>n \<in> set (Members c self). \<exists>u. told E tr n u \<and> upConfig u = Some c \<and> upKey u = Some key)"

lemma confirmed_append: "confirmed E c key self tr \<Longrightarrow> confirmed E c key self (tr @ acts)"
  unfolding confirmed_def by (meson told_append)

lemma push_all_confirmed:
  assumes "fst (push_all E u (Members c self) s) = None" and "\<And>n. upConfig (u n) = Some c \<and> upKey (u n) = Some key"
  shows "confirmed E c key self (qTrace (snd (push_all E u (Members c self) s)))"
  unfolding confirmed_def using push_all_told [OF assms(1)] assms(2) by blast

lemma distribute_row:
  assumes "\<And>n. upConfig (u n) = Some c \<and> upKey (u n) = Some key"
  shows "qRow (snd (distribute E prev c key self u s)) = qRow s \<or>
     (qRow (snd (distribute E prev c key self u s)) = Some (c, key) \<and>
      confirmed E c key self (qTrace (snd (distribute E prev c key self u s))))"
    and "qCodes (snd (distribute E prev c key self u s)) = qCodes s"
    and "\<exists>acts. qTrace (snd (distribute E prev c key self u s)) = qTrace s @ acts"
proof -
  let ?p = "push_all E u (Members c self) s"
  note p = same_stateD [OF push_all_same, of E u "Members c self" s]
  note sa = save_apply_row [of E prev c key "snd ?p"]
  show "qCodes (snd (distribute E prev c key self u s)) = qCodes s"
    "\<exists>acts. qTrace (snd (distribute E prev c key self u s)) = qTrace s @ acts"
    using p sa by (auto simp: distribute_def split_beta split: option.split)
  show "qRow (snd (distribute E prev c key self u s)) = qRow s \<or>
     (qRow (snd (distribute E prev c key self u s)) = Some (c, key) \<and>
      confirmed E c key self (qTrace (snd (distribute E prev c key self u s))))"
  proof (cases "fst ?p")
    case None
    from sa(3) obtain acts where "qTrace (snd (save_apply E prev c key (snd ?p))) = qTrace (snd ?p) @ acts" by blast
    with confirmed_append [OF push_all_confirmed [OF None assms]] sa(1) None p(1) show ?thesis
      by (auto simp: distribute_def split_beta)
  next
    case (Some e)
    with p(1) show ?thesis by (simp add: distribute_def split_beta)
  qed
qed

lemma config_update_fields [simp]:
  "upConfig (config_update c key) = Some c" "upKey (config_update c key) = Some key"
  "upConfig (join_update c key k b m) = Some c" "upKey (join_update c key k b m) = Some key"
  "upConfig (vote_update c key ca p12) = Some c" "upKey (vote_update c key ca p12) = Some key"
  by (simp_all add: config_update_def join_update_def vote_update_def)

lemma distribute_ok:
  assumes "fst (distribute E prev c key self u s) = None"
  shows "qRow (snd (distribute E prev c key self u s)) = Some (c, key)"
    and "qConf (snd (distribute E prev c key self u s)) = Some (Render c)"
    and "qAuthkey (snd (distribute E prev c key self u s)) = Some key"
proof -
  let ?p = "snd (push_all E u (Members c self) s)"
  from assms have s: "fst (save E c key ?p) = None" and a: "fst (applyConfig E prev c key (snd (save E c key ?p))) = None"
    by (auto simp: distribute_def save_apply_def split_beta split: option.splits)
  have "snd (distribute E prev c key self u s) = snd (applyConfig E prev c key (snd (save E c key ?p)))"
    using assms s by (auto simp: distribute_def save_apply_def split_beta split: option.splits)
  with applyConfig_ok [OF a] s show
    "qRow (snd (distribute E prev c key self u s)) = Some (c, key)"
    "qConf (snd (distribute E prev c key self u s)) = Some (Render c)"
    "qAuthkey (snd (distribute E prev c key self u s)) = Some key"
    by (simp_all add: save_row)
qed

lemma same_state_load: "same_state s (snd (Load E s))"
  by (simp add: Load_def split_beta split: option.split)

lemma same_state_LoadMember: "same_state s (snd (LoadMember E s))"
  using same_state_load [of s E] by (simp add: LoadMember_def split_beta split: sum.split option.split)

lemma same_state_produced: "same_state s (snd (produced E p s))"
  by (simp add: produced_def Let_def split_beta split: option.split)

lemma same_state_bundle: "same_state s (snd (bundle_if_needed E c s))"
  unfolding bundle_if_needed_def qdeviceBundle_def split_beta Let_def
  by (auto split: option.split sum.split intro!: same_state_trans [OF _ same_state_produced])

lemma same_state_import: "same_state s (snd (nodeImportSigned E n x s))"
  unfolding nodeImportSigned_def split_beta
  by (auto split: option.split intro!: same_state_trans [OF _ same_state_produced] same_state_perform_after)

lemma same_state_findCode: "same_state s (snd (findCode E code s))"
  by (simp add: findCode_def Let_def split_beta split: option.split)

definition default_algorithm :: "cluster \<Rightarrow> bool" where
  "default_algorithm c \<longleftrightarrow> (\<forall>d. clDevice c = Some d \<longrightarrow> qdAlgorithm d = DefaultAlgorithm (length (clNodes c)))"

lemma follow_count_default: "default_algorithm (follow_count c)"
  by (auto simp: default_algorithm_def follow_count_def)

text \<open>The row is as it was, or holds a cluster that every other DPlaneOS node has confirmed.\<close>

definition agreed_change :: "qenv \<Rightarrow> string \<Rightarrow> qnode \<Rightarrow> qnode \<Rightarrow> bool" where
  "agreed_change E self s t \<longleftrightarrow>
     qRow t = qRow s \<or>
     (\<exists>c key. qRow t = Some (c, key) \<and> confirmed E c key self (qTrace t) \<and> default_algorithm c)"

lemma agreed_same: "same_state s t \<Longrightarrow> agreed_change E self s t"
  by (simp add: agreed_change_def same_stateD)

lemma agreed_after: "same_state s t \<Longrightarrow> agreed_change E self t u \<Longrightarrow> agreed_change E self s u"
  by (auto simp: agreed_change_def dest: same_stateD)

lemma agreed_distribute:
  assumes "\<And>n. upConfig (u n) = Some c \<and> upKey (u n) = Some key" and "default_algorithm c"
  shows "agreed_change E self s (snd (distribute E prev c key self u s))"
  using distribute_row(1) [of u c key E prev self s] assms by (auto simp: agreed_change_def)

lemma agreed_AddNode: "agreed_change E self s (snd (AddNode E self n s))"
proof -
  note l = same_state_LoadMember [of s E]
  note b = same_state_trans [OF l same_state_bundle]
  show ?thesis
    unfolding AddNode_def split_beta Let_def
    by (auto split: option.split sum.split intro!: agreed_same [OF l] agreed_same [OF b] agreed_after [OF b]
        agreed_distribute follow_count_default)
qed

lemma same_state_leaving: "same_state s (tell_leaving E n s)"
  by (simp add: tell_leaving_def)

lemma agreed_RemoveNode: "agreed_change E self s (snd (RemoveNode E self name s))"
proof -
  note l = same_state_LoadMember [of s E]
  note p = same_state_trans [OF l same_state_leaving]
  show ?thesis
    unfolding RemoveNode_def split_beta Let_def
    by (auto split: option.split sum.split intro!: agreed_same [OF l] agreed_after [OF p]
        agreed_distribute simp: without_member_def follow_count_default)
qed

lemma agreed_RemoveThirdVote: "agreed_change E self s (snd (RemoveThirdVote E self s))"
proof -
  note l = same_state_LoadMember [of s E]
  show ?thesis
    unfolding RemoveThirdVote_def split_beta Let_def
    by (auto split: sum.split intro!: agreed_same [OF l] agreed_after [OF l]
        agreed_distribute simp: default_algorithm_def)
qed

lemma useCode_state:
  "qRow (snd (useCode E code s)) = qRow s" "qTrace (snd (useCode E code s)) = qTrace s @ [UseCode (qHash E code)]"
  by (simp_all add: useCode_def Let_def snd_qdo update_codes_def)

lemma agreed_useCode: "agreed_change E self s t \<Longrightarrow> agreed_change E self s (snd (useCode E code t))"
  using confirmed_append by (fastforce simp: agreed_change_def useCode_state)

lemma agreed_apply: "agreed_change E self s t \<Longrightarrow> agreed_change E self s (snd (applyConfig E prev c key t))"
proof -
  assume "agreed_change E self s t"
  moreover obtain acts where "qTrace (snd (applyConfig E prev c key t)) = qTrace t @ acts"
      "qRow (snd (applyConfig E prev c key t)) = qRow t"
    using keeps_row_applyConfig [of t E prev c key] by (auto simp: keeps_row_def)
  ultimately show ?thesis using confirmed_append by (auto simp: agreed_change_def)
qed

lemma agreed_EnrollVoter: "agreed_change E self s (snd (EnrollVoter E code n a4 a6 self s))"
proof -
  note f = same_state_findCode [of s E code]
  note l = same_state_trans [OF f same_state_LoadMember]
  show ?thesis
    unfolding EnrollVoter_def split_beta Let_def
    by (auto split: option.split sum.split intro!: agreed_same [OF f] agreed_same [OF l] agreed_useCode agreed_after [OF l]
        agreed_distribute simp: with_voter_def follow_count_default)
qed

lemma agreed_EnrollCert: "agreed_change E self s (snd (EnrollCert E code cert addr self s))"
proof -
  note f = same_state_findCode [of s E code]
  note l = same_state_trans [OF f same_state_LoadMember]
  note i = same_state_trans [OF l same_state_import]
  have p: "same_state s (snd (push_all E v ns t))" if "same_state s t" for t v ns
    using that push_all_same by (rule same_state_trans)
  have sv: "agreed_change E self s (snd (save E c key (snd (push_all E (\<lambda>n. vote_update c key ca p12) (Members c self) t))))"
    if t: "same_state s t" and ok: "fst (push_all E (\<lambda>n. vote_update c key ca p12) (Members c self) t) = None"
      and alg: "default_algorithm c" for c key ca p12 t
  proof -
    have "confirmed E c key self (qTrace (snd (push_all E (\<lambda>n. vote_update c key ca p12) (Members c self) t)))"
      by (rule push_all_confirmed [OF ok]) simp
    then have "confirmed E c key self
        (qTrace (snd (save E c key (snd (push_all E (\<lambda>n. vote_update c key ca p12) (Members c self) t)))))"
      unfolding save_trace by (rule confirmed_append)
    with alg same_stateD(1) [OF p [OF t]] show ?thesis by (auto simp: agreed_change_def save_row)
  qed
  show ?thesis
    unfolding EnrollCert_def split_beta Let_def
    by (auto split: option.split sum.split intro!: agreed_same [OF f] agreed_same [OF l] agreed_same [OF i]
        agreed_same [OF p [OF i]] sv [OF i] agreed_useCode agreed_apply simp: default_algorithm_def)
qed

text \<open>The requests that change a cluster, and the node that serves them.\<close>

fun change_by :: "qrequest \<Rightarrow> string option" where
  "change_by (ReqRemoveThirdVote self) = Some self"
| "change_by (ReqAddNode self n) = Some self"
| "change_by (ReqRemoveNode self name) = Some self"
| "change_by (ReqEnrollCert code cert addr self) = Some self"
| "change_by (ReqEnrollVoter code name a4 a6 self) = Some self"
| "change_by _ = None"

text \<open>
  C12. A change of the cluster (a node or voter added, a member removed, the third vote added or
  removed) is saved on the node that makes it only after every other DPlaneOS node of the new cluster
  confirmed the new configuration and key; and with a third vote its algorithm fits the number of nodes.
\<close>

theorem change_confirmed:
  assumes "change_by r = Some self" and "qRow (serve E r s) = Some (c, key)" and "qRow (serve E r s) \<noteq> qRow s"
  shows "(\<forall>n \<in> set (Members c self). \<exists>u. told E (qTrace (serve E r s)) n u \<and> upConfig u = Some c \<and> upKey u = Some key) \<and>
         (\<forall>d. clDevice c = Some d \<longrightarrow> qdAlgorithm d = DefaultAlgorithm (length (clNodes c)))"
proof -
  have "agreed_change E self s (serve E r s)"
    using assms(1) agreed_AddNode agreed_RemoveNode agreed_RemoveThirdVote agreed_EnrollVoter agreed_EnrollCert
    by (cases r) auto
  with assms(2,3) show ?thesis by (auto simp: agreed_change_def confirmed_def default_algorithm_def)
qed

definition sample_member :: qnode where
  "sample_member = quorum_start\<lparr>qRow := Some (sample_cluster, ''k''), qAuthkey := Some ''k''\<rparr>"

lemma LoadMember_sample:
  "qResult E = (\<lambda>tr a. None) \<Longrightarrow> qRow s = Some (c, key) \<Longrightarrow>
     LoadMember E s = (Inr (c, key), s\<lparr>qTrace := qTrace s @ [LoadRow]\<rparr>)"
  by (simp add: LoadMember_def Load_def qperform_def)

lemma calm_results: "qResult calm_quorum = (\<lambda>tr a. None)"
  by (simp add: calm_quorum_def)

lemma push_all_calm: "fst (push_all calm_quorum u ns s) = None"
  by (induction ns arbitrary: s) (simp_all add: split_beta)

lemma applyConfig_calm: "ValidateCluster c = None \<Longrightarrow> fst (applyConfig calm_quorum prev c key s) = None"
  by (simp add: applyConfig_def split_beta Let_def activate_def restart_corosync_def start_device_def
      split: option.split bool.split)

lemma distribute_calm:
  "ValidateCluster c = None \<Longrightarrow> fst (distribute calm_quorum prev c key self u s) = None"
  by (simp add: distribute_def save_apply_def split_beta push_all_calm applyConfig_calm save_def)

lemma change_confirmed_witness:
  "\<exists>u. told calm_quorum (qTrace (serve calm_quorum (ReqRemoveThirdVote ''ka'') sample_member))
        \<lparr>cnID = 2, cnName = ''b'', cnAddr = ''10.0.0.2'', cnKey = ''kb'', cnVoter = False\<rparr> u \<and>
       upKey u = Some ''k''"
proof -
  let ?c = "sample_cluster\<lparr>clDevice := None\<rparr>"
  let ?t = "serve calm_quorum (ReqRemoveThirdVote ''ka'') sample_member"
  have "qRow ?t = Some (?c, ''k'')"
    using distribute_ok(1) [OF distribute_calm [OF valid_without_device [OF sample_cluster_valid]]]
    by (simp add: RemoveThirdVote_def LoadMember_sample [OF calm_results] sample_member_def Let_def)
  moreover have "?c \<noteq> sample_cluster" using sample_cluster_device by (metis cluster.select_convs(3) cluster.surjective
      cluster.update_convs(3) option.distinct(1))
  ultimately have "\<forall>n \<in> set (Members ?c ''ka''). \<exists>u. told calm_quorum (qTrace ?t) n u \<and> upConfig u = Some ?c \<and>
      upKey u = Some ''k''"
    using change_confirmed [of "ReqRemoveThirdVote ''ka''" "''ka''" calm_quorum sample_member ?c "''k''"]
    by (simp add: sample_member_def)
  then show ?thesis by (auto simp: Members_def sample_cluster_def)
qed

section \<open>A node is added\<close>

text \<open>
  C33. \<open>AddNode\<close> without an error: the stored cluster is the former one with the node at the end, under
  an id above every other, never as a voter; the file corosync reads is its rendering, and a node that
  is already a member (by its key) is refused.
\<close>

theorem AddNode_outcome:
  assumes "fst (AddNode E self n s) = (Some c, None)"
  shows "\<exists>prev key. qRow s = Some (prev, key) \<and>
     (\<forall>m \<in> set (clNodes prev). cnKey m \<noteq> cnKey n) \<and>
     clNodes c = clNodes prev @ [n\<lparr>cnID := nextID prev, cnVoter := False\<rparr>] \<and>
     ValidateCluster c = None \<and>
     qRow (snd (AddNode E self n s)) = Some (c, key) \<and>
     qConf (snd (AddNode E self n s)) = Some (Render c) \<and>
     qAuthkey (snd (AddNode E self n s)) = Some key"
proof -
  obtain prev key where l: "LoadMember E s = (Inr (prev, key), snd (LoadMember E s))"
    using assms by (cases "LoadMember E s") (auto simp: AddNode_def split: sum.splits)
  define c' where "c' = follow_count (prev\<lparr>clNodes := clNodes prev @ [n\<lparr>cnID := nextID prev, cnVoter := False\<rparr>]\<rparr>)"
  have fresh: "\<not> list_ex (\<lambda>m. cnKey m = cnKey n) (clNodes prev)"
    using assms by (subst (asm) AddNode_def, subst (asm) l) (auto split: if_splits)
  have ok: "ValidateCluster c' = None"
    using assms fresh unfolding AddNode_def by (subst (asm) l) (auto simp: c'_def Let_def split: option.splits)
  obtain b where b: "fst (bundle_if_needed E c' (snd (LoadMember E s))) = Inr b"
    using assms fresh ok unfolding AddNode_def
    by (subst (asm) l) (auto simp: c'_def Let_def split_beta split: sum.splits)
  let ?d = "distribute E (Some prev) c' key self (join_update c' key (cnKey n) b)
      (snd (bundle_if_needed E c' (snd (LoadMember E s))))"
  have eq: "AddNode E self n s = ((Some c', fst ?d), snd ?d)"
    using fresh ok b unfolding AddNode_def by (subst l) (simp add: c'_def Let_def split_beta)
  have p: "(Some c', fst ?d) = (Some c, None)" using assms by (simp only: eq fst_conv)
  have d: "fst ?d = None" by (rule Pair_inject [OF p])
  from p have c: "c = c'" by simp
  have "clNodes c' = clNodes prev @ [n\<lparr>cnID := nextID prev, cnVoter := False\<rparr>]"
    by (simp add: c'_def follow_count_def)
  with LoadMember_row [OF l] fresh ok c distribute_ok [OF d] eq show ?thesis
    by (auto simp: list_ex_iff)
qed

lemma AddNode_outcome_witness:
  "\<exists>c key. qRow (snd (AddNode calm_quorum ''ka''
       \<lparr>cnID = 0, cnName = ''d'', cnAddr = ''10.0.0.4'', cnKey = ''kd'', cnVoter = False\<rparr> sample_member)) = Some (c, key) \<and>
     map cnID (clNodes c) = [1, 2, 3]"
proof -
  let ?n = "\<lparr>cnID = 0, cnName = ''d'', cnAddr = ''10.0.0.4'', cnKey = ''kd'', cnVoter = False\<rparr>"
  let ?c = "follow_count (sample_cluster\<lparr>clNodes := clNodes sample_cluster @ [?n\<lparr>cnID := nextID sample_cluster, cnVoter := False\<rparr>]\<rparr>)"
  have v: "ValidateCluster ?c = None" by code_simp
  have b: "fst (bundle_if_needed calm_quorum ?c t) = Inr (''x'', ''x'')" for t
    by (simp add: bundle_if_needed_def qdeviceBundle_def produced_def split_beta Let_def follow_count_def
        sample_cluster_device)
  have "fst (AddNode calm_quorum ''ka'' ?n sample_member) = (Some ?c, None)"
    using v b distribute_calm [OF v]
    by (simp add: AddNode_def LoadMember_sample [OF calm_results] sample_member_def Let_def split_beta
        sample_cluster_def [unfolded list_ex_iff])
  from AddNode_outcome [OF this] show ?thesis by (auto simp: sample_member_def sample_cluster_def nextID_def int64_def)
qed

section \<open>A code is used once\<close>

definition spent :: "string \<Rightarrow> qnode \<Rightarrow> bool" where
  "spent h s \<longleftrightarrow> (\<forall>r \<in> set (qCodes s). enHash r = h \<longrightarrow> enUsed r \<noteq> None)"

lemma spent_codes: "qCodes t = qCodes s \<Longrightarrow> spent h t = spent h s"
  by (simp add: spent_def)

lemma same_codes: "same_state s t \<Longrightarrow> qCodes t = qCodes s"
  by (simp add: same_stateD)

lemma same_state_qseq: "same_state s (snd (qseq E as s))"
proof (induction "as" arbitrary: s)
  case (Cons a "as")
  from same_state_trans [OF same_state_perform Cons.IH] show ?case by (simp add: split_beta split: option.split)
qed simp

lemma codes_calls [simp]:
  "qCodes (snd (Load E s)) = qCodes s" "qCodes (snd (LoadMember E s)) = qCodes s"
  "qCodes (snd (bundle_if_needed E c s)) = qCodes s" "qCodes (snd (nodeImportSigned E n x s)) = qCodes s"
  "qCodes (snd (findCode E code s)) = qCodes s" "qCodes (snd (push_all E u ns s)) = qCodes s"
  "qCodes (snd (qseq E as s)) = qCodes s" "qCodes (snd (produced E p s)) = qCodes s"
  "qCodes (tell_leaving E gone s) = qCodes s" "qCodes (snd (unitActive E v s)) = qCodes s"
  by (simp_all add: same_codes [OF same_state_load] same_codes [OF same_state_LoadMember]
      same_codes [OF same_state_bundle] same_codes [OF same_state_import] same_codes [OF same_state_findCode]
      same_codes [OF push_all_same] same_codes [OF same_state_qseq] same_codes [OF same_state_produced]
      same_codes [OF same_state_leaving] same_codes [OF unitActive_same])

lemma codes_more [simp]:
  "qCodes (snd (nodeInitCA E ca s)) = qCodes s" "qCodes (snd (nodeCSR E n s)) = qCodes s"
  "qCodes (snd (nodeImportP12 E ca x s)) = qCodes s" "qCodes (snd (import_bundle E w s)) = qCodes s"
  "qCodes (snd (applyConfig E prev c key s)) = qCodes s" "qCodes (snd (save E c key s)) = qCodes s"
  "qCodes (snd (save_apply E prev c key s)) = qCodes s"
  using keeps_row_applyConfig [of s E prev c key]
  by (simp_all add: nodeInitCA_def nodeCSR_def nodeImportP12_def import_bundle_def split_beta keeps_row_def
      save_keeps_codes save_apply_row(2) split: option.split sum.split)

lemma codes_distribute [simp]: "qCodes (snd (distribute E prev c key self u s)) = qCodes s"
  by (simp add: distribute_def split_beta save_apply_row(2) split: option.split)

lemma codes_qdo [simp]:
  "qCodes (snd (qdo E a (\<lambda>t. t\<lparr>qFlag := b\<rparr>) s)) = qCodes s" "qCodes (snd (qdo E a (\<lambda>t. t\<lparr>qConf := f\<rparr>) s)) = qCodes s"
  "qCodes (snd (qdo E a (\<lambda>t. t\<lparr>qAuthkey := k\<rparr>) s)) = qCodes s" "qCodes (snd (qdo E a (\<lambda>t. t\<lparr>qRow := r\<rparr>) s)) = qCodes s"
  by (simp_all add: snd_qdo)

lemma codes_stop [simp]: "qCodes (snd (stop_units E us s)) = qCodes s"
  by (induction us arbitrary: s) (simp_all add: split_beta split: option.split bool.split)

lemma codes_tell [simp]: "qCodes (snd (tell_removed E ns s)) = qCodes s"
  by (induction ns arbitrary: s) (simp_all add: split_beta split: option.split)

lemma codes_removeAll [simp]: "qCodes (snd (removeAll E s)) = qCodes s"
  by (simp add: removeAll_def split_beta del: stop_units.simps)

lemma codes_kept:
  "qCodes (snd (Form E here peer s)) = qCodes s" "qCodes (snd (ReceiveUpdate E w s)) = qCodes s"
  "qCodes (snd (Dissolve E self s)) = qCodes s" "qCodes (snd (RemoveThirdVote E self s)) = qCodes s"
  "qCodes (snd (AddNode E self n s)) = qCodes s" "qCodes (snd (RemoveNode E self name s)) = qCodes s"
  "qCodes (snd (VoterConfig E name tok s)) = qCodes s"
  by (simp_all add: Form_def ReceiveUpdate_def Dissolve_def RemoveThirdVote_def AddNode_def RemoveNode_def VoterConfig_def
      Let_def split_beta split: option.split sum.split)

lemmas spent_kept [simp] =
  codes_calls [THEN spent_codes] codes_more [THEN spent_codes] codes_distribute [THEN spent_codes]

lemma spent_update:
  assumes "spent h s" and "\<And>r. enHash (f r) = enHash r" and "\<And>r. enUsed r \<noteq> None \<Longrightarrow> enUsed (f r) \<noteq> None"
  shows "spent h (update_codes P f s)"
  unfolding spent_def
proof (intro ballI impI)
  fix r' assume "r' \<in> set (qCodes (update_codes P f s))" and h: "enHash r' = h"
  then obtain r where r: "r \<in> set (qCodes s)" "r' = (if P r then f r else r)"
    by (auto simp: update_codes_def)
  with h assms(2) have "enHash r = h" by (simp split: if_splits)
  with assms(1) r(1) have "enUsed r \<noteq> None" by (simp add: spent_def)
  with r(2) assms(3) show "enUsed r' \<noteq> None" by simp
qed

lemma spent_perform [simp]: "spent h (snd (qperform E a s)) = spent h s"
  by (simp add: spent_def)

lemma spent_useCode: "spent h s \<Longrightarrow> spent h (snd (useCode E code s))"
  by (simp add: useCode_def Let_def snd_qdo spent_update)

lemma useCode_spends: "fst (useCode E code s) = None \<Longrightarrow> spent (qHash E code) (snd (useCode E code s))"
  by (auto simp: spent_def useCode_def Let_def snd_qdo update_codes_def)

lemma spent_EnrollCA: "spent h s \<Longrightarrow> spent h (snd (EnrollCA E code ca s))"
proof -
  assume "spent h s"
  then have u: "spent h (snd (qdo E (SetCodeCA (qHash E code) ca)
      (update_codes (usable E code (qNow E (qTrace s))) (\<lambda>r. r\<lparr>enCA := ca\<rparr>)) s))"
    by (simp add: snd_qdo spent_update)
  then show ?thesis
    using \<open>spent h s\<close> by (simp add: EnrollCA_def Let_def split_beta split: option.split sum.split)
qed

lemma spent_EnrollVoter: "spent h s \<Longrightarrow> spent h (snd (EnrollVoter E code n a4 a6 self s))"
  by (auto simp: EnrollVoter_def Let_def split_beta intro!: spent_useCode split: option.split sum.split)

lemma spent_EnrollCert: "spent h s \<Longrightarrow> spent h (snd (EnrollCert E code cert addr self s))"
  by (auto simp: EnrollCert_def Let_def split_beta intro!: spent_useCode split: option.split sum.split)

lemma spent_serve: "spent h s \<Longrightarrow> r \<noteq> ReqCode \<Longrightarrow> spent h (serve E r s)"
  by (cases r) (simp_all add: codes_kept [THEN spent_codes] spent_EnrollCA spent_EnrollVoter spent_EnrollCert)

lemma spent_serve_all: "spent h s \<Longrightarrow> ReqCode \<notin> snd ` set rs \<Longrightarrow> spent h (serve_all rs s)"
  by (induction rs s rule: serve_all.induct) (auto simp: spent_serve)

lemma spent_findCode: "spent (qHash E code) s \<Longrightarrow> fst (findCode E code s) = Inr r \<Longrightarrow> r = None"
proof -
  assume s: "spent (qHash E code) s" and f: "fst (findCode E code s) = Inr r"
  have "List.find (usable E code now) (qCodes s) = None" for now
    using s by (auto simp: find_None_iff spent_def usable_def)
  with f show "r = None" by (auto simp: findCode_def Let_def split_beta split: option.splits)
qed

lemma EnrollVoter_spends:
  "fst (EnrollVoter E code name a4 a6 self s) = Inr j \<Longrightarrow>
     spent (qHash E code) (snd (EnrollVoter E code name a4 a6 self s))"
  using useCode_spends by (auto simp: EnrollVoter_def Let_def split_beta split: option.splits sum.splits)

text \<open>
  A code that admitted a voter admits nobody again: after any further requests but the creation of
  a code, an enrollment with it is refused and changes nothing that is stored.
\<close>

theorem code_admits_once:
  assumes "fst (EnrollVoter E code name a4 a6 self s) = Inr j"
    and "ReqCode \<notin> snd ` set rs" and "qHash E' code = qHash E code"
    and "t = serve_all rs (snd (EnrollVoter E code name a4 a6 self s))"
  shows "(\<exists>e. fst (EnrollVoter E' code name' b4 b6 self' t) = Inl e) \<and>
         qRow (snd (EnrollVoter E' code name' b4 b6 self' t)) = qRow t \<and>
         (\<exists>e. fst (EnrollCert E' code cert addr self' t) = (None, Some e)) \<and>
         qRow (snd (EnrollCert E' code cert addr self' t)) = qRow t"
proof -
  have "spent (qHash E code) (snd (EnrollVoter E code name a4 a6 self s))" by (rule EnrollVoter_spends [OF assms(1)])
  then have "spent (qHash E' code) t" using assms(2-4) spent_serve_all by simp
  then consider e where "fst (findCode E' code t) = Inl e" | "fst (findCode E' code t) = Inr None"
    using spent_findCode by (cases "fst (findCode E' code t)") blast+
  then show ?thesis
    using same_stateD(1) [OF same_state_findCode, of E' code t]
    by cases (simp_all add: EnrollVoter_def EnrollCert_def split_beta)
qed

definition sample_coded :: qnode where
  "sample_coded = sample_member\<lparr>qCodes := [\<lparr>enHash = ''#x'', enExpires = 5000, enCA = [], enUsed = None\<rparr>]\<rparr>"

lemma code_admits_once_witness:
  "\<exists>t e. fst (EnrollVoter calm_quorum ''x'' ''w'' ''10.0.0.8'' [] ''ka'' t) = Inl e \<and> spent ''#x'' t"
proof -
  let ?c = "with_voter calm_quorum ''v'' ''10.0.0.9'' ''dpv_c0ffee'' sample_cluster"
  let ?t = "snd (EnrollVoter calm_quorum ''x'' '' V'' ''10.0.0.9'' [] ''ka'' sample_coded)"
  have v: "ValidateCluster ?c = None" by code_simp
  have f: "fst (findCode calm_quorum ''x'' sample_coded) = Inr (Some (hd (qCodes sample_coded)))"
    by (simp add: findCode_def Let_def split_beta sample_coded_def usable_def calm_quorum_def)
  have l: "fst (LoadMember calm_quorum (snd (findCode calm_quorum ''x'' sample_coded))) = Inr (sample_cluster, ''k'')"
    by (simp add: LoadMember_sample [OF calm_results] same_stateD(1) [OF same_state_findCode] sample_coded_def sample_member_def)
  have a: "voterAddr sample_cluster ''10.0.0.9'' [] = Inr ''10.0.0.9''" by code_simp
  have n: "map to_lower (trim_space '' V'') = ''v''" by code_simp
  have k: "voter_clash ''v'' ''10.0.0.9'' (clNodes sample_cluster) = None" by code_simp
  have r: "qRandom calm_quorum tr = ''c0ffee''" for tr by (simp add: calm_quorum_def)
  have "\<exists>j. fst (EnrollVoter calm_quorum ''x'' '' V'' ''10.0.0.9'' [] ''ka'' sample_coded) = Inr j"
    using v distribute_calm [OF v]
    by (simp add: EnrollVoter_def split_beta f l a n k r Let_def useCode_def)
  then obtain j where j: "fst (EnrollVoter calm_quorum ''x'' '' V'' ''10.0.0.9'' [] ''ka'' sample_coded) = Inr j" by blast
  from EnrollVoter_spends [OF j] have "spent ''#x'' ?t" by simp
  moreover have "\<exists>e. fst (EnrollVoter calm_quorum ''x'' ''w'' ''10.0.0.8'' [] ''ka'' ?t) = Inl e"
    using code_admits_once [OF j, of "[]" calm_quorum ?t "''w''" "''10.0.0.8''" "[]" "''ka''"] by simp
  ultimately show ?thesis by blast
qed

section \<open>A member is removed\<close>

text \<open>
  C34. \<open>RemoveNode\<close> without an error: the stored cluster is the former one without the nodes of that name
  and without the name's pull token, still valid, and never without the node that was asked.
\<close>

theorem RemoveNode_outcome:
  assumes "fst (RemoveNode E self name s) = (Some c, None)"
  shows "\<exists>prev key gone. qRow s = Some (prev, key) \<and> gone \<in> set (clNodes prev) \<and> cnName gone = name \<and>
     cnKey gone \<noteq> self \<and> clNodes c = filter (\<lambda>n. cnName n \<noteq> name) (clNodes prev) \<and> clTokens c name = None \<and>
     ValidateCluster c = None \<and>
     qRow (snd (RemoveNode E self name s)) = Some (c, key) \<and>
     qConf (snd (RemoveNode E self name s)) = Some (Render c)"
proof -
  obtain prev key where l: "LoadMember E s = (Inr (prev, key), snd (LoadMember E s))"
    using assms by (cases "LoadMember E s") (auto simp: RemoveNode_def split: sum.splits)
  obtain gone where g: "last_named name None (clNodes prev) = Some gone"
    using assms by (subst (asm) RemoveNode_def, subst (asm) l) (auto split: option.splits)
  have named: "last_named name x ns = Some n \<Longrightarrow> x = Some n \<or> (n \<in> set ns \<and> cnName n = name)" for x ns n
    by (induction name x ns rule: last_named.induct) (auto split: if_splits)
  have k: "cnKey gone \<noteq> self"
    using assms g by (subst (asm) RemoveNode_def, subst (asm) l) (auto split: if_splits)
  have v: "ValidateCluster (without_member name prev) = None"
    using assms g k unfolding RemoveNode_def by (subst (asm) l) (auto simp: Let_def split: option.splits)
  let ?c = "without_member name prev"
  let ?d = "distribute E (Some prev) ?c key self (\<lambda>n. config_update ?c key) (tell_leaving E gone (snd (LoadMember E s)))"
  have eq: "RemoveNode E self name s = ((Some ?c, fst ?d), snd ?d)"
    using g k v unfolding RemoveNode_def by (subst l) (simp add: Let_def split_beta)
  have p: "(Some ?c, fst ?d) = (Some c, None)" using assms by (simp only: eq fst_conv)
  have d: "fst ?d = None" by (rule Pair_inject [OF p])
  have c: "c = ?c" using p by simp
  have "clNodes ?c = filter (\<lambda>n. cnName n \<noteq> name) (clNodes prev)" "clTokens ?c name = None"
    by (simp_all add: without_member_def follow_count_def)
  with LoadMember_row [OF l] named [OF g] k v c distribute_ok(1,2) [OF d] eq show ?thesis by auto
qed

text \<open>
  Two nodes may carry one name (\<open>Validate\<close> compares ids and addresses only): removing it drops both, and
  only the last one is told to leave.
\<close>

definition twin_cluster :: cluster where
  "twin_cluster = sample_cluster\<lparr>clNodes :=
     [\<lparr>cnID = 1, cnName = ''a'', cnAddr = ''10.0.0.1'', cnKey = ''ka'', cnVoter = False\<rparr>,
      \<lparr>cnID = 2, cnName = ''b'', cnAddr = ''10.0.0.2'', cnKey = ''kb'', cnVoter = False\<rparr>,
      \<lparr>cnID = 3, cnName = ''b'', cnAddr = ''10.0.0.3'', cnKey = ''kc'', cnVoter = False\<rparr>,
      \<lparr>cnID = 4, cnName = ''d'', cnAddr = ''10.0.0.4'', cnKey = ''kd'', cnVoter = False\<rparr>], clDevice := None\<rparr>"

definition twin_member :: qnode where
  "twin_member = quorum_start\<lparr>qRow := Some (twin_cluster, ''k''), qAuthkey := Some ''k''\<rparr>"

lemma twin_result:
  "fst (RemoveNode calm_quorum ''ka'' ''b'' twin_member) = (Some (without_member ''b'' twin_cluster), None)"
proof -
  have v: "ValidateCluster (without_member ''b'' twin_cluster) = None" by code_simp
  have g: "last_named ''b'' None (clNodes twin_cluster) = Some (clNodes twin_cluster ! 2)" by code_simp
  have k: "cnKey (clNodes twin_cluster ! 2) = ''kc''" by code_simp
  show ?thesis
    using v g k distribute_calm [OF v]
    by (simp add: RemoveNode_def LoadMember_sample [OF calm_results] twin_member_def Let_def split_beta)
qed

lemma RemoveNode_outcome_witness:
  "\<exists>c key. qRow (snd (RemoveNode calm_quorum ''ka'' ''b'' twin_member)) = Some (c, key) \<and>
     map cnID (clNodes c) = [1, 4]"
  using RemoveNode_outcome [OF twin_result] by (auto simp: twin_member_def twin_cluster_def)

lemma RemoveNode_drops_twins:
  "ValidateCluster twin_cluster = None \<and>
   map cnName (clNodes (without_member ''b'' twin_cluster)) = [''a'', ''d''] \<and>
   last_named ''b'' None (clNodes twin_cluster) =
     Some \<lparr>cnID = 3, cnName = ''b'', cnAddr = ''10.0.0.3'', cnKey = ''kc'', cnVoter = False\<rparr> \<and>
   \<not> list_ex (\<lambda>n. cnID n = 2) (Members (without_member ''b'' twin_cluster) ''ka'')"
  by code_simp

end
