(* ===== verification/Watchdog.thy ===== *)
theory Watchdog
  imports Failover Quorum
begin

text \<open>
  Self-fencing and power fencing (\<open>internal/ha\<close>, \<open>CurrentFencing\<close> and \<open>PowerFence\<close> of
  \<open>internal/handlers/protection.go\<close>): the keeper that resets the watchdog while the node may run, the
  delay other nodes wait before they take over, and powering an owner off. With it the timing argument
  between the two sides: the watchdog of an owner that lost quorum has fired when another node takes over.

  The database rows, the random delay, the BMC and the PDU are inputs. What the watchdog device does
  with the writes is that of the kernel's documented interface (\<open>expires\<close>).
\<close>

section \<open>Configuration\<close>

definition seconds :: "int \<Rightarrow> duration" where
  "seconds n = int64 (n * 1000000000)"

record watchdog_config =
  wdEnable :: bool
  wdDevice :: string
  wdTimeout :: int
  wdPet :: int

definition watchdog_defaults :: watchdog_config where
  "watchdog_defaults = \<lparr>wdEnable = False, wdDevice = ''/dev/watchdog'', wdTimeout = 30, wdPet = 10\<rparr>"

text \<open>The stored row, \<open>None\<close> when the query fails or there is none; the result's flag is the error.\<close>

definition GetWatchdogConfig :: "watchdog_config option \<Rightarrow> watchdog_config \<times> bool" where
  "GetWatchdogConfig wrow =
     (case wrow of
        None \<Rightarrow> (watchdog_defaults, True)
      | Some r \<Rightarrow>
          (\<lparr>wdEnable = wdEnable r,
            wdDevice = (if wdDevice r \<noteq> [] then wdDevice r else ''/dev/watchdog''),
            wdTimeout = (if 0 < wdTimeout r then wdTimeout r else 30),
            wdPet = (if 0 < wdPet r then wdPet r else 10)\<rparr>, False))"

definition SaveWatchdogConfig :: "watchdog_config \<Rightarrow> watchdog_config" where
  "SaveWatchdogConfig c =
     \<lparr>wdEnable = wdEnable c,
      wdDevice = (if wdDevice c = [] then ''/dev/watchdog'' else wdDevice c),
      wdTimeout = (if wdTimeout c \<le> 0 then 30 else wdTimeout c),
      wdPet = (if wdPet c \<le> 0 then 10 else wdPet c)\<rparr>"

text \<open>The handler's checks in front of it; the second part is the refusal.\<close>

datatype watchdog_refusal = TimeoutTooShort | PetTooLong

definition checked_watchdog :: "watchdog_config \<Rightarrow> watchdog_refusal + watchdog_config" where
  "checked_watchdog c0 =
     (let c = SaveWatchdogConfig c0 in
      if wdEnable c \<and> wdTimeout c < 10 then Inl TimeoutTooShort
      else if wdEnable c \<and> wdTimeout c < wdPet c * 2 then Inl PetTooLong
      else Inr (SaveWatchdogConfig c))"

record fencing_config =
  fcEnable :: bool
  fcIP :: string
  fcUser :: string
  fcPasswordFile :: string
  fcJitter :: int
  fcTolerance :: int

definition clamp_tolerance :: "int \<Rightarrow> int" where
  "clamp_tolerance t = max 0 (min 50 t)"

definition GetFencingConfig :: "fencing_config option \<Rightarrow> fencing_config" where
  "GetFencingConfig wrow =
     (case wrow of
        None \<Rightarrow> \<lparr>fcEnable = False, fcIP = [], fcUser = [], fcPasswordFile = [], fcJitter = 0, fcTolerance = 0\<rparr>
      | Some r \<Rightarrow> r\<lparr>fcTolerance := clamp_tolerance (fcTolerance r)\<rparr>)"

definition SaveFencingConfig :: "fencing_config \<Rightarrow> fencing_config" where
  "SaveFencingConfig c =
     (let c1 = (if fcJitter c < 0 then c\<lparr>fcJitter := 0\<rparr> else c);
          c2 = (if 30000 < fcJitter c1 then c1\<lparr>fcJitter := 30000\<rparr> else c1) in
      c2\<lparr>fcTolerance := clamp_tolerance (fcTolerance c2)\<rparr>)"

record pdu_config =
  puEnable :: bool
  puURL :: string
  puMethod :: string
  puUser :: string
  puPasswordFile :: string
  puTimeout :: int
  puExpected :: int

definition SavePDUConfig :: "pdu_config \<Rightarrow> pdu_config" where
  "SavePDUConfig c =
     (let m = map (\<lambda>ch. if is_lower ch then char_of (of_char ch - (32::nat)) else ch) (puMethod c);
          m1 = (if m \<noteq> ''GET'' \<and> m \<noteq> ''POST'' then ''GET'' else m) in
      c\<lparr>puMethod := m1, puTimeout := (if puTimeout c \<le> 0 then 10 else puTimeout c)\<rparr>)"

section \<open>What other nodes rely on\<close>

record fencing =
  fnWatchdog :: bool
  fnPower :: bool
  fnOK :: bool
  fnDelay :: duration

definition fencingMargin :: duration where
  "fencingMargin = seconds 15"

definition CurrentFencing :: "watchdog_config option \<Rightarrow> fencing_config option \<Rightarrow> pdu_config option \<Rightarrow> fencing" where
  "CurrentFencing wrow frow prow =
     (let wd = fst (GetWatchdogConfig wrow);
          power = fcEnable (GetFencingConfig frow) \<or> (case prow of None \<Rightarrow> False | Some p \<Rightarrow> puEnable p) in
      if wdEnable wd then
        \<lparr>fnWatchdog = True, fnPower = power, fnOK = True, fnDelay = seconds (wdTimeout wd) + fencingMargin\<rparr>
      else if power then \<lparr>fnWatchdog = False, fnPower = power, fnOK = True, fnDelay = fencingMargin\<rparr>
      else \<lparr>fnWatchdog = False, fnPower = power, fnOK = False, fnDelay = 0\<rparr>)"

text \<open>The view of the group manager, as \<open>main\<close> builds it from the quorum state and the fencing.\<close>

definition quorum_view :: "info \<Rightarrow> fencing \<Rightarrow> view \<Rightarrow> view" where
  "quorum_view i f v =
     v\<lparr>vQuorum := inConfigured i, vQuorate := inQuorate i \<or> inReconfiguring i, vOnline := inOnline i,
       vAutoFailover := inAutoFailover i, vFenceOK := fnOK f, vFenceDelay := fnDelay f\<rparr>"

section \<open>The keeper\<close>

record external_quorum =
  xqConfigured :: bool
  xqQuorate :: bool
  xqReconfiguring :: bool

definition external :: "info \<Rightarrow> external_quorum" where
  "external i = \<lparr>xqConfigured = inConfigured i, xqQuorate = inQuorate i, xqReconfiguring = inReconfiguring i\<rparr>"

datatype device_event = DevOpen | DevPet | DevMagicClose | DevClose

text \<open>\<open>kpFile\<close>: the device is open; \<open>kpLog\<close>: what was done to it, latest last.\<close>

record keeper =
  kpArmed :: bool
  kpOpened :: bool
  kpTimeout :: int
  kpFile :: bool
  kpLog :: "(time \<times> device_event) list"

definition on_device :: "time \<Rightarrow> device_event \<Rightarrow> keeper \<Rightarrow> keeper" where
  "on_device now e k = (if kpFile k then k\<lparr>kpLog := kpLog k @ [(now, e)]\<rparr> else k)"

definition openWatchdog :: "bool \<Rightarrow> time \<Rightarrow> keeper \<Rightarrow> bool \<times> keeper" where
  "openWatchdog works now k =
     (if kpFile k then (True, k)
      else if works then (True, k\<lparr>kpFile := True, kpLog := kpLog k @ [(now, DevOpen)]\<rparr>)
      else (False, k))"

definition petWatchdog :: "time \<Rightarrow> keeper \<Rightarrow> keeper" where
  "petWatchdog now k = on_device now DevPet k"

definition shutdownWatchdog :: "time \<Rightarrow> keeper \<Rightarrow> keeper" where
  "shutdownWatchdog now k = (on_device now DevMagicClose k)\<lparr>kpFile := False\<rparr>"

definition closeWatchdog :: "time \<Rightarrow> keeper \<Rightarrow> keeper" where
  "closeWatchdog now k = (on_device now DevClose k)\<lparr>kpFile := False\<rparr>"

text \<open>The interval between two ticks.\<close>

definition pet_interval :: "watchdog_config \<Rightarrow> duration" where
  "pet_interval c =
     (if seconds (wdPet c) \<le> 0 \<or> seconds (wdTimeout c) div 2 \<le> seconds (wdPet c)
      then seconds (wdTimeout c) div 3 else seconds (wdPet c))"

definition StartKeeper :: "watchdog_config option \<Rightarrow> bool \<Rightarrow> time \<Rightarrow> keeper \<Rightarrow> keeper" where
  "StartKeeper wrow works now k =
     (case GetWatchdogConfig wrow of
        (_, True) \<Rightarrow> k
      | (c, False) \<Rightarrow>
          (if \<not> wdEnable c then k
           else case openWatchdog works now k of
             (False, k1) \<Rightarrow> k1
           | (True, k1) \<Rightarrow> k1\<lparr>kpOpened := True, kpTimeout := wdTimeout c\<rparr>))"

definition mayRun :: "external_quorum \<Rightarrow> bool \<Rightarrow> bool" where
  "mayRun q owns = (if \<not> xqConfigured q \<or> xqQuorate q \<or> xqReconfiguring q then True else \<not> owns)"

definition setArmed :: "bool \<Rightarrow> keeper \<Rightarrow> keeper" where
  "setArmed on k = k\<lparr>kpArmed := on\<rparr>"

definition tick :: "external_quorum \<Rightarrow> bool \<Rightarrow> time \<Rightarrow> keeper \<Rightarrow> keeper" where
  "tick q owns now k =
     (if mayRun q owns then petWatchdog now (setArmed False k) else setArmed True k)"

definition fenceRelevant :: "external_quorum \<Rightarrow> bool \<Rightarrow> bool" where
  "fenceRelevant q owns = (if \<not> xqConfigured q then False else owns)"

definition StopKeeper :: "external_quorum \<Rightarrow> bool \<Rightarrow> time \<Rightarrow> keeper \<Rightarrow> keeper" where
  "StopKeeper q owns now k =
     (if \<not> kpOpened k then k
      else
        (let k1 = k\<lparr>kpOpened := False\<rparr> in
         if kpArmed k \<or> fenceRelevant q owns then closeWatchdog now k1 else shutdownWatchdog now k1))"

definition RestartKeeper :: "watchdog_config option \<Rightarrow> bool \<Rightarrow> time \<Rightarrow> keeper \<Rightarrow> keeper" where
  "RestartKeeper wrow works now k =
     StartKeeper wrow works now
       (if kpOpened k then shutdownWatchdog now (k\<lparr>kpOpened := False\<rparr>) else k)"

section \<open>Power fencing\<close>

text \<open>One round of the status loop: the command is refused, fails, or prints an answer.\<close>

datatype poll = PollRefused | PollFailed | PollAnswer string

datatype fence_error =
    FencingDisabled | NoPassword | CommandRefused | PowerOffFailed | NotConfirmed
  | BadURL | RequestFailed | UnexpectedStatus int

fun poll_status :: "poll list \<Rightarrow> fence_error option" where
  "poll_status [] = Some NotConfirmed"
| "poll_status (PollRefused # ps) = Some CommandRefused"
| "poll_status (PollFailed # ps) = poll_status ps"
| "poll_status (PollAnswer out # ps) =
     (if contains_text (map to_lower (trim_space out)) ''is off'' then None else poll_status ps)"

text \<open>\<open>draw\<close>: what \<open>crypto/rand\<close> gives below the bound; \<open>None\<close> if it fails.\<close>

definition stonithJitter :: "int \<Rightarrow> (int \<Rightarrow> int option) \<Rightarrow> int" where
  "stonithJitter maxMs draw =
     (if maxMs \<le> 0 then 0 else case draw maxMs of None \<Rightarrow> maxMs | Some n \<Rightarrow> n)"

definition jitter_bound :: "fencing_config \<Rightarrow> int" where
  "jitter_bound c = (if fcJitter c = 0 then 3000 else fcJitter c)"

record bmc =
  bmPassword :: "string option"
  bmAllowed :: bool
  bmPowerOff :: bool
  bmPolls :: "poll list"

definition ExecuteFencing :: "fencing_config \<Rightarrow> bmc \<Rightarrow> fence_error option" where
  "ExecuteFencing c b =
     (if \<not> fcEnable c then Some FencingDisabled
      else if bmPassword b = None then Some NoPassword
      else if \<not> bmAllowed b then Some CommandRefused
      else if \<not> bmPowerOff b then Some PowerOffFailed
      else poll_status (bmPolls b))"

record pdu =
  pdPassword :: "string option"
  pdRequest :: bool
  pdStatus :: "int option"

definition ExecutePDUFencing :: "pdu_config \<Rightarrow> pdu \<Rightarrow> fence_error option" where
  "ExecutePDUFencing c p =
     (if puPasswordFile c \<noteq> [] \<and> pdPassword p = None then Some NoPassword
      else if \<not> pdRequest p then Some BadURL
      else case pdStatus p of
        None \<Rightarrow> Some RequestFailed
      | Some st \<Rightarrow>
          (if puExpected c \<noteq> 0 \<and> st \<noteq> puExpected c then Some (UnexpectedStatus st)
           else if puExpected c = 0 \<and> (st < 200 \<or> 300 \<le> st) then Some (UnexpectedStatus st) else None))"

definition PowerFence :: "fencing_config option \<Rightarrow> pdu_config option \<Rightarrow> bmc \<Rightarrow> pdu \<Rightarrow> fence_error option" where
  "PowerFence frow prow b p =
     (if fcEnable (GetFencingConfig frow) then ExecuteFencing (GetFencingConfig frow) b
      else case prow of
        None \<Rightarrow> None
      | Some c \<Rightarrow> if puEnable c then ExecutePDUFencing c p else None)"

section \<open>The device\<close>

text \<open>
  The kernel's interface: opening and writing (re)start a countdown of \<open>d\<close>, the magic close ends it, a
  plain close leaves it running; the node is reset when it has run out. The result is when it runs out.
\<close>

fun expires_from :: "duration \<Rightarrow> time option \<Rightarrow> (time \<times> device_event) list \<Rightarrow> time option" where
  "expires_from d due [] = due"
| "expires_from d due ((t, e) # es) =
     expires_from d (case e of DevOpen \<Rightarrow> Some (t + d) | DevPet \<Rightarrow> Some (t + d) | DevMagicClose \<Rightarrow> None | DevClose \<Rightarrow> due) es"

definition expires :: "duration \<Rightarrow> keeper \<Rightarrow> time option" where
  "expires d k = expires_from d None (kpLog k)"

lemma expires_from_snoc:
  "expires_from d due (es @ [(t, e)]) =
     (case e of DevOpen \<Rightarrow> Some (t + d) | DevPet \<Rightarrow> Some (t + d) | DevMagicClose \<Rightarrow> None
      | DevClose \<Rightarrow> expires_from d due es)"
  by (induction d due es rule: expires_from.induct) (simp_all split: device_event.split)

lemma expires_from_bound:
  "expires_from d due es = Some x \<Longrightarrow> \<forall>(t, e) \<in> set es. t \<le> L \<Longrightarrow>
     (\<And>y. due = Some y \<Longrightarrow> y \<le> L + d) \<Longrightarrow> x \<le> L + d"
proof (induction d due es rule: expires_from.induct)
  case (2 d due t e es)
  show ?case
    by (rule "2.IH") (use "2.prems" in \<open>auto split: device_event.splits\<close>)
qed simp

text \<open>Ticks with what each of them sees.\<close>

fun ticks :: "(time \<times> external_quorum \<times> bool) list \<Rightarrow> keeper \<Rightarrow> keeper" where
  "ticks [] k = k"
| "ticks ((t, q, owns) # ts) k = ticks ts (tick q owns t k)"

definition isolated_owner :: "external_quorum \<Rightarrow> bool \<Rightarrow> bool" where
  "isolated_owner q owns \<longleftrightarrow> xqConfigured q \<and> \<not> xqQuorate q \<and> \<not> xqReconfiguring q \<and> owns"

lemma mayRun_isolated: "mayRun q owns \<longleftrightarrow> \<not> isolated_owner q owns"
  by (auto simp: mayRun_def isolated_owner_def)

lemma ticks_isolated:
  "\<forall>(t, q, owns) \<in> set ts. isolated_owner q owns \<Longrightarrow> kpLog (ticks ts k) = kpLog k"
  by (induction ts k rule: ticks.induct) (auto simp: tick_def mayRun_isolated setArmed_def)

section \<open>Reset before takeover\<close>

lemma seconds_plain: "0 \<le> n \<Longrightarrow> n \<le> 9000000000 \<Longrightarrow> seconds n = n * 1000000000"
  by (simp add: seconds_def int64_id)

lemma takeover_time: "dAction (planFailover g v since now) = ATakeover \<Longrightarrow> since \<noteq> 0 \<Longrightarrow> since + vFenceDelay v \<le> now"
  by (auto simp: planFailover_def Let_def no_decision_def stay_def split: if_splits)

text \<open>
  C3. The watchdog of an owner that lost quorum has run out by the time another node decides to take its group over,
  provided that it was counting down, last fed no later than the time \<open>lost\<close>; that from then on every tick of the owner's keeper finds it outside the quorum and the keeper is
  neither restarted nor reconfigured; that the other node noticed the loss at \<open>since\<close>, at most the fencing margin
  before \<open>lost\<close>; that it waits by the watchdog settings, and that their timeout is not below the one the owner's
  device runs with.
\<close>

theorem reset_before_takeover:
  assumes "expires (seconds d) k = Some due" and "\<forall>(t, e) \<in> set (kpLog k). t \<le> lost"
    and "\<forall>(t, q, owns) \<in> set ts. isolated_owner q owns"
    and "vFenceDelay v = fnDelay (CurrentFencing wrow frow prow)" and "fnWatchdog (CurrentFencing wrow frow prow)"
    and "0 \<le> d" and "d \<le> wdTimeout (fst (GetWatchdogConfig wrow))" and "wdTimeout (fst (GetWatchdogConfig wrow)) \<le> 9000000000"
    and "dAction (planFailover g v since now) = ATakeover" and "since \<noteq> 0" and "lost \<le> since + fencingMargin"
  shows "expires (seconds d) (ticks ts k) = Some due \<and> due \<le> now"
proof -
  let ?T = "wdTimeout (fst (GetWatchdogConfig wrow))"
  have "expires (seconds d) (ticks ts k) = Some due"
    using assms(1) ticks_isolated [OF assms(3)] by (simp add: expires_def)
  moreover have "due \<le> lost + seconds d"
    using expires_from_bound [OF assms(1) [unfolded expires_def] assms(2)] by simp
  moreover have "vFenceDelay v = seconds ?T + fencingMargin"
    using assms(4,5) by (auto simp: CurrentFencing_def Let_def split: if_splits)
  moreover have "seconds d \<le> seconds ?T" using assms(6-8) by (simp add: seconds_plain)
  ultimately show ?thesis using takeover_time [OF assms(9,10)] assms(11) by simp
qed

definition sample_watchdog :: watchdog_config where
  "sample_watchdog = \<lparr>wdEnable = True, wdDevice = [], wdTimeout = 30, wdPet = 10\<rparr>"

definition sample_keeper :: keeper where
  "sample_keeper = ticks [(seconds 10, \<lparr>xqConfigured = True, xqQuorate = True, xqReconfiguring = False\<rparr>, True)]
     (StartKeeper (Some sample_watchdog) True 0
       \<lparr>kpArmed = False, kpOpened = False, kpTimeout = 0, kpFile = False, kpLog = []\<rparr>)"

lemma sample_keeper_state:
  "sample_keeper = \<lparr>kpArmed = False, kpOpened = True, kpTimeout = 30, kpFile = True,
     kpLog = [(0, DevOpen), (seconds 10, DevPet)]\<rparr>"
  by (simp add: sample_keeper_def StartKeeper_def GetWatchdogConfig_def sample_watchdog_def openWatchdog_def tick_def
      mayRun_def petWatchdog_def on_device_def setArmed_def)

definition sample_cut :: external_quorum where
  "sample_cut = \<lparr>xqConfigured = True, xqQuorate = False, xqReconfiguring = False\<rparr>"

lemma reset_before_takeover_witness:
  "\<exists>due \<le> seconds 60. expires (seconds 30) (ticks [(seconds 20, sample_cut, True)] sample_keeper) = Some due"
proof -
  let ?v = "(sample_view ''b'' [] [''b''])\<lparr>vFenceDelay := seconds 45\<rparr>"
  have f: "CurrentFencing (Some sample_watchdog) None None =
      \<lparr>fnWatchdog = True, fnPower = False, fnOK = True, fnDelay = seconds 45\<rparr>"
    by (simp add: CurrentFencing_def GetWatchdogConfig_def sample_watchdog_def GetFencingConfig_def
        fencingMargin_def seconds_plain)
  have w: "wdTimeout (fst (GetWatchdogConfig (Some sample_watchdog))) = 30"
    by (simp add: GetWatchdogConfig_def sample_watchdog_def)
  have t: "dAction (planFailover (sample_group ''a'' 3) ?v (seconds 12) (seconds 60)) = ATakeover"
    by (simp add: planFailover_def IsCandidate_def sample_view_def sample_group_def seconds_plain Let_def)
  have "expires (seconds 30) (ticks [(seconds 20, sample_cut, True)] sample_keeper) = Some (seconds 40) \<and>
      seconds 40 \<le> seconds 60"
    by (rule reset_before_takeover [where lost = "seconds 15" and wrow = "Some sample_watchdog" and frow = None
          and prow = None, OF _ _ _ _ _ _ _ _ t])
      (simp_all add: f sample_keeper_state expires_def seconds_plain isolated_owner_def sample_cut_def
        fencingMargin_def w)
  then show ?thesis by blast
qed

text \<open>
  Stopping the daemon disarms the device exactly when no other node relies on the reset: a storage
  owner in a cluster, or a node already cut off, is still reset when its countdown ends.
\<close>

theorem stop_keeps_countdown:
  assumes "kpOpened k" and "kpFile k"
  shows "expires d (StopKeeper q owns now k) =
     (if kpArmed k \<or> (xqConfigured q \<and> owns) then expires d k else None)"
  using assms
  by (simp add: StopKeeper_def closeWatchdog_def shutdownWatchdog_def on_device_def Let_def fenceRelevant_def
      expires_def expires_from_snoc)

lemma stop_keeps_countdown_witness:
  "expires (seconds 30) (StopKeeper sample_cut True (seconds 20) sample_keeper) = Some (seconds 40)"
  using stop_keeps_countdown [of sample_keeper "seconds 30" sample_cut True "seconds 20"]
  by (simp add: sample_keeper_state sample_cut_def expires_def seconds_plain)

text \<open>
  C36. Saving the watchdog configuration on a node that was already cut off restarts its countdown
  (\<open>Restart\<close> closes the device with the magic close): the node is reset after the time at which another
  node has taken its group over.
\<close>

theorem restart_postpones_reset:
  "let k = ticks [(seconds 20, sample_cut, True)] sample_keeper;
       k' = ticks [(seconds 40, sample_cut, True)] (RestartKeeper (Some sample_watchdog) True (seconds 39) k);
       v = (sample_view ''b'' [] [''b''])\<lparr>vFenceDelay := fnDelay (CurrentFencing (Some sample_watchdog) None None)\<rparr> in
   kpArmed k \<and> expires (seconds 30) k = Some (seconds 40) \<and>
   expires (seconds 30) k' = Some (seconds 69) \<and>
   dAction (planFailover (sample_group ''a'' 3) v (seconds 15) (seconds 60)) = ATakeover"
  by (simp add: sample_keeper_state sample_cut_def tick_def mayRun_def setArmed_def expires_def seconds_plain
      RestartKeeper_def StartKeeper_def shutdownWatchdog_def on_device_def openWatchdog_def GetWatchdogConfig_def
      sample_watchdog_def CurrentFencing_def GetFencingConfig_def fencingMargin_def planFailover_def IsCandidate_def
      sample_view_def sample_group_def Let_def)

text \<open>
  During the window after a restart of corosync a cut-off owner keeps resetting its watchdog and
  keeps its write access, while a node of the other partition, whose own window ended when it was
  settled, takes the group over after the fencing delay, before the window of the owner is over.
\<close>

theorem window_outlasts_delay:
  "let cut = (sample_live 1 [seen 1 ''a'' True])\<lparr>lvQuorate := False\<rparr>;
       here = fst (Info (Some sample_cluster) cut (seconds 61) (seconds 60));
       f = CurrentFencing (Some sample_watchdog) None None;
       there = fst (Info (Some sample_cluster)
         ((sample_live 2 [seen 2 ''b'' True])\<lparr>lvDeviceAlive := True\<rparr>) (seconds 61) (seconds 60));
       k = tick (external here) True (seconds 60) sample_keeper in
   \<not> inQuorate here \<and> vQuorate (quorum_view here f (sample_view ''ka'' [] [])) \<and>
   expires (seconds 30) k = Some (seconds 90) \<and>
   inAutoFailover there \<and>
   dAction (planFailover ((sample_group ''ka'' 3)\<lparr>gCandidates := [''ka'', ''kb'']\<rparr>)
     (quorum_view there f (sample_view ''kb'' [] [])) (seconds 10) (seconds 60)) = ATakeover"
proof -
  let ?cut = "(sample_live 1 [seen 1 ''a'' True])\<lparr>lvQuorate := False\<rparr>"
  let ?here = "fst (Info (Some sample_cluster) ?cut (seconds 61) (seconds 60))"
  let ?f = "CurrentFencing (Some sample_watchdog) None None"
  let ?there = "fst (Info (Some sample_cluster)
      ((sample_live 2 [seen 2 ''b'' True])\<lparr>lvDeviceAlive := True\<rparr>) (seconds 61) (seconds 60))"
  have h: "inConfigured ?here" "\<not> inQuorate ?here" "inReconfiguring ?here"
    by (simp_all add: Info_def Let_def split_beta settled_def sample_live_def no_live_def seconds_plain)
  have e: "ExpectedVotes sample_cluster = 3"
    by (simp add: ExpectedVotes_def qdeviceVotes_def sample_cluster_def)
  have t: "inConfigured ?there" "inQuorate ?there" "inAutoFailover ?there" "inOnline ?there = [''kb'']"
    by (simp_all add: Info_def Let_def split_beta settled_def e sample_live_def no_live_def seconds_plain)
      (simp add: sample_cluster_def seen_def same_member_def)
  have f: "?f = \<lparr>fnWatchdog = True, fnPower = False, fnOK = True, fnDelay = seconds 45\<rparr>"
    by (simp add: CurrentFencing_def GetWatchdogConfig_def sample_watchdog_def GetFencingConfig_def
        fencingMargin_def seconds_plain)
  have "expires (seconds 30) (tick (external ?here) True (seconds 60) sample_keeper) = Some (seconds 90)"
    using h by (simp add: tick_def mayRun_def external_def petWatchdog_def on_device_def setArmed_def
        sample_keeper_state expires_def seconds_plain)
  moreover have "dAction (planFailover ((sample_group ''ka'' 3)\<lparr>gCandidates := [''ka'', ''kb'']\<rparr>)
     (quorum_view ?there ?f (sample_view ''kb'' [] [])) (seconds 10) (seconds 60)) = ATakeover"
    using t by (simp add: f planFailover_def IsCandidate_def quorum_view_def sample_view_def sample_group_def
        seconds_plain Let_def)
  ultimately show ?thesis using h t by (simp add: Let_def quorum_view_def)
qed

section \<open>An owner is powered off, or the attempt fails\<close>

lemma poll_status_None:
  "poll_status ps = None \<Longrightarrow> \<exists>out. PollAnswer out \<in> set ps \<and> contains_text (map to_lower (trim_space out)) ''is off''"
  by (induction ps rule: poll_status.induct) (auto split: if_splits)

text \<open>
  Power fencing that is configured succeeds only with a confirmation: the BMC accepted the command and
  later answered that the chassis is off, or the PDU answered with the expected status.
\<close>

theorem PowerFence_confirmed:
  assumes "PowerFence frow prow b p = None" and "fnPower (CurrentFencing wrow frow prow)"
  shows "(bmPowerOff b \<and> (\<exists>out. PollAnswer out \<in> set (bmPolls b) \<and>
            contains_text (map to_lower (trim_space out)) ''is off'')) \<or>
         (\<exists>c st. prow = Some c \<and> pdStatus p = Some st \<and>
            (if puExpected c = 0 then 200 \<le> st \<and> st < 300 else st = puExpected c))"
proof (cases "fcEnable (GetFencingConfig frow)")
  case True
  with assms(1) have "bmPowerOff b" "poll_status (bmPolls b) = None"
    by (auto simp: PowerFence_def ExecuteFencing_def split: if_splits)
  with poll_status_None show ?thesis by blast
next
  case False
  then obtain c where c: "prow = Some c" "puEnable c"
    using assms(2) by (auto simp: CurrentFencing_def Let_def split: if_splits option.splits)
  with False assms(1) have "ExecutePDUFencing c p = None" by (simp add: PowerFence_def)
  then obtain st where "pdStatus p = Some st" "if puExpected c = 0 then 200 \<le> st \<and> st < 300 else st = puExpected c"
    by (cases "pdStatus p") (auto simp: ExecutePDUFencing_def split: if_splits)
  with c(1) show ?thesis by blast
qed

definition sample_bmc :: bmc where
  "sample_bmc = \<lparr>bmPassword = Some ''x'', bmAllowed = True, bmPowerOff = True,
     bmPolls = [PollFailed, PollAnswer ''Chassis Power is on'', PollAnswer ''Chassis Power is off'']\<rparr>"

definition sample_fencing :: fencing_config where
  "sample_fencing = \<lparr>fcEnable = True, fcIP = ''10.0.0.9'', fcUser = ''u'', fcPasswordFile = ''f'', fcJitter = 0, fcTolerance = 10\<rparr>"

lemma PowerFence_confirmed_witness:
  "\<exists>out. PollAnswer out \<in> set (bmPolls sample_bmc) \<and> contains_text (map to_lower (trim_space out)) ''is off''"
proof -
  have "PowerFence (Some sample_fencing) None sample_bmc \<lparr>pdPassword = None, pdRequest = False, pdStatus = None\<rparr> = None"
    by code_simp
  from PowerFence_confirmed [OF this, of None] show ?thesis
    by (simp add: CurrentFencing_def GetFencingConfig_def sample_fencing_def Let_def)
qed

text \<open>
  The random delay before an owner is powered off is never negative and never above 30 seconds, for
  whatever configuration was saved.
\<close>

theorem jitter_bounds:
  assumes "\<And>m n. 0 < m \<Longrightarrow> draw m = Some n \<Longrightarrow> 0 \<le> n \<and> n < m"
  shows "0 \<le> stonithJitter (jitter_bound (GetFencingConfig (Some (SaveFencingConfig c)))) draw \<and>
         stonithJitter (jitter_bound (GetFencingConfig (Some (SaveFencingConfig c)))) draw \<le> 30000"
proof -
  define m where "m = jitter_bound (GetFencingConfig (Some (SaveFencingConfig c)))"
  have m: "0 \<le> m \<and> m \<le> 30000"
    by (simp add: m_def jitter_bound_def GetFencingConfig_def SaveFencingConfig_def Let_def)
  have "0 \<le> stonithJitter m draw \<and> stonithJitter m draw \<le> 30000"
  proof (cases "draw m")
    case None
    with m show ?thesis by (simp add: stonithJitter_def)
  next
    case (Some n)
    with m assms [of m n] show ?thesis by (auto simp: stonithJitter_def)
  qed
  then show ?thesis by (simp add: m_def)
qed

lemma jitter_bounds_witness:
  "stonithJitter (jitter_bound (GetFencingConfig (Some (SaveFencingConfig (sample_fencing\<lparr>fcJitter := 99999\<rparr>)))))
     (\<lambda>m. Some (m - 1)) \<le> 30000"
  by (rule conjunct2 [OF jitter_bounds]) simp

end
