(* ===== verification/ConfigMerge.thy ===== *)
theory ConfigMerge
  imports Prelude
begin

text \<open>
  Comparing the configuration histories of two nodes (\<open>internal/configstore/merge.go\<close> and the rules of
  \<open>policy.go\<close>): the ancestry of revisions, the action for a pair of heads, the default winner of a conflict.

  A payload is a JSON value in the normal form of \<open>normalize\<close> (what it is after a database round trip), so
  \<open>samePayload\<close> is equality; \<open>None\<close> is a deleted resource.
\<close>

section \<open>Resources and revisions\<close>

datatype json = JNull | JBool bool | JNumber int | JString string | JList "json list" | JObject "(string \<times> json) list"

record resource =
  rsKind :: string
  rsKey :: string
  rsScope :: string
  rsScopeID :: string
  rsPayload :: "json option"

record revision = resource +
  rvID :: int
  rvBaseRow :: "int option"
  rvUID :: string
  rvBase :: string
  rvMerge :: string
  rvEpoch :: int
  rvOrigin :: string
  rvNode :: string
  rvAuthor :: string
  rvNote :: string

definition resource_of :: "revision \<Rightarrow> resource" where
  "resource_of r = \<lparr>rsKind = rsKind r, rsKey = rsKey r, rsScope = rsScope r, rsScopeID = rsScopeID r, rsPayload = rsPayload r\<rparr>"

abbreviation ScopeNode :: string where "ScopeNode \<equiv> ''node''"
abbreviation ScopeGroup :: string where "ScopeGroup \<equiv> ''group''"
abbreviation ScopeCluster :: string where "ScopeCluster \<equiv> ''cluster''"

text \<open>Two revisions of the same resource (\<open>Resource.ID\<close>).\<close>

definition res_id :: "('a resource_scheme) \<Rightarrow> string \<times> string" where
  "res_id r = (rsKind r, rsKey r)"

definition samePayload :: "json option \<Rightarrow> json option \<Rightarrow> bool" where
  "samePayload a b = (a = b)"

section \<open>Ancestry\<close>

text \<open>The parents of every known revision; a later entry replaces an earlier one.\<close>

type_synonym ancestry = "(string \<times> string \<times> string) list"

definition Add :: "ancestry \<Rightarrow> revision \<Rightarrow> ancestry" where
  "Add a r = (rvUID r, rvBase r, rvMerge r) # a"

definition known_uids :: "ancestry \<Rightarrow> string list" where
  "known_uids a = map fst a"

text \<open>The breadth-first walk: \<open>seen\<close> are the revisions whose parents were queued.\<close>

function walk :: "ancestry \<Rightarrow> string \<Rightarrow> string list \<Rightarrow> string list \<Rightarrow> bool" where
  "walk a x seen [] = False"
| "walk a x seen (u # queue) =
     (if u = x then True
      else if u = [] \<or> contains seen u then walk a x seen queue
      else case map_of a u of
        None \<Rightarrow> walk a x (u # seen) queue
      | Some (b, m) \<Rightarrow> walk a x (u # seen) (queue @ [b, m]))"
  by pat_completeness auto

definition unseen_parents :: "ancestry \<Rightarrow> string list \<Rightarrow> nat" where
  "unseen_parents a seen = card (fst ` set a - set seen)"

lemma unseen_less:
  assumes "map_of a u = Some p" and "\<not> contains seen u"
  shows "unseen_parents a (u # seen) < unseen_parents a seen"
proof -
  have "u \<in> fst ` set a - set seen" using assms by (force dest: map_of_SomeD)
  then have "fst ` set a - set (u # seen) \<subset> fst ` set a - set seen" by auto
  then show ?thesis unfolding unseen_parents_def by (intro psubset_card_mono) simp_all
qed

lemma unseen_le: "unseen_parents a (u # seen) \<le> unseen_parents a seen"
  unfolding unseen_parents_def by (rule card_mono) auto

termination walk
proof (relation "measures [\<lambda>(a, x, seen, queue). unseen_parents a seen, \<lambda>(a, x, seen, queue). length queue]",
    goal_cases)
  case (3 a x seen u queue)
  then show ?case using unseen_le [of a u seen] by auto
qed (auto simp: unseen_less)

declare walk.simps [simp del]

definition IsAncestor :: "ancestry \<Rightarrow> string \<Rightarrow> string \<Rightarrow> bool" where
  "IsAncestor a x desc = (if x = [] \<or> desc = [] then False else walk a x [] [desc])"

section \<open>The action for a pair of heads\<close>

datatype merge_action = MergeNone | MergeFastForward | MergeRecord | MergeConverged | MergeConflict

definition Classify :: "revision option \<Rightarrow> revision option \<Rightarrow> ancestry \<Rightarrow> merge_action" where
  "Classify local remote a =
     (case remote of
        None \<Rightarrow> MergeNone
      | Some r \<Rightarrow>
          (case local of
             None \<Rightarrow> if rsPayload r = None then MergeRecord else MergeFastForward
           | Some l \<Rightarrow>
               (if rvUID l = rvUID r \<or> IsAncestor a (rvUID r) (rvUID l) then MergeNone
                else
                  (let same = samePayload (rsPayload l) (rsPayload r) in
                   if IsAncestor a (rvUID l) (rvUID r) then (if same then MergeRecord else MergeFastForward)
                   else if same then MergeConverged else MergeConflict))))"

section \<open>The default winner\<close>

datatype winner = WinnerNone | WinnerLocal | WinnerRemote

definition DefaultWinner :: "revision \<Rightarrow> revision \<Rightarrow> winner" where
  "DefaultWinner l r =
     (if rsScope l \<noteq> rsScope r \<or> rvEpoch l = rvEpoch r then WinnerNone
      else if rsScope l \<noteq> ScopeGroup \<and> rsScope l \<noteq> ScopeCluster then WinnerNone
      else if rvEpoch r < rvEpoch l then WinnerLocal else WinnerRemote)"

section \<open>The walk finds exactly the ancestors\<close>

text \<open>\<open>p\<close> is a parent of the known revision \<open>u\<close>.\<close>

definition parent :: "ancestry \<Rightarrow> string \<Rightarrow> string \<Rightarrow> bool" where
  "parent a u p \<longleftrightarrow> u \<noteq> [] \<and> (\<exists>b m. map_of a u = Some (b, m) \<and> (p = b \<or> p = m))"

definition ancestor :: "ancestry \<Rightarrow> string \<Rightarrow> string \<Rightarrow> bool" where
  "ancestor a x u \<longleftrightarrow> x \<noteq> [] \<and> (parent a)\<^sup>*\<^sup>* u x"

text \<open>
  The walk's invariant: the parents of every revision seen are seen or queued. What it finds is
  reachable from the queue, and what is reachable from the queue is found.
\<close>

lemma walk_sound: "walk a x seen queue \<Longrightarrow> \<exists>u \<in> set queue. (parent a)\<^sup>*\<^sup>* u x"
proof (induction a x seen queue rule: walk.induct)
  case (2 a x seen u queue)
  show ?case
  proof (cases "u = x")
    case True
    then show ?thesis by auto
  next
    case ux: False
    show ?thesis
    proof (cases "u = [] \<or> contains seen u")
      case True
      with "2.prems" ux have "walk a x seen queue" by (simp add: walk.simps)
      with "2.IH"(1) [OF ux True] show ?thesis by auto
    next
      case new: False
      show ?thesis
      proof (cases "map_of a u")
        case None
        with "2.prems" ux new have "walk a x (u # seen) queue" by (simp add: walk.simps)
        with "2.IH"(2) [OF ux new None] show ?thesis by auto
      next
        case (Some bm)
        obtain b m where bm: "bm = (b, m)" by force
        with Some "2.prems" ux new have "walk a x (u # seen) (queue @ [b, m])" by (simp add: walk.simps)
        with "2.IH"(3) [OF ux new Some bm [symmetric]] obtain v where v: "v \<in> set (queue @ [b, m])" "(parent a)\<^sup>*\<^sup>* v x" by blast
        have "parent a u b" "parent a u m" using Some bm new by (auto simp: parent_def)
        with v show ?thesis by (auto intro: converse_rtranclp_into_rtranclp)
      qed
    qed
  qed
qed (simp add: walk.simps)

definition closed :: "ancestry \<Rightarrow> string list \<Rightarrow> string list \<Rightarrow> bool" where
  "closed a seen queue \<longleftrightarrow> (\<forall>u \<in> set seen. \<forall>p. parent a u p \<longrightarrow> p = [] \<or> p \<in> set seen \<or> p \<in> set queue)"

lemma from_empty: "(parent a)\<^sup>*\<^sup>* [] x \<Longrightarrow> x = []"
  by (erule converse_rtranclpE) (simp_all add: parent_def)

lemma closed_reach:
  assumes "closed a seen queue" and "(parent a)\<^sup>*\<^sup>* u x" and "u \<in> set seen" and "x \<notin> set seen" and "x \<noteq> []"
  shows "\<exists>v \<in> set queue. (parent a)\<^sup>*\<^sup>* v x"
  using assms(2,3)
proof (induction rule: converse_rtranclp_induct)
  case base
  with assms(4) show ?case by simp
next
  case (step y z)
  then have "z = [] \<or> z \<in> set seen \<or> z \<in> set queue" using assms(1) unfolding closed_def by blast
  moreover have "z \<noteq> []" using step(2) assms(5) from_empty by blast
  ultimately show ?case using step by blast
qed

lemma walk_complete:
  "closed a seen queue \<Longrightarrow> x \<noteq> [] \<Longrightarrow> x \<notin> set seen \<Longrightarrow> \<exists>u \<in> set queue. (parent a)\<^sup>*\<^sup>* u x \<Longrightarrow> walk a x seen queue"
proof (induction a x seen queue rule: walk.induct)
  case (2 a x seen u queue)
  obtain w where w: "w \<in> set (u # queue)" "(parent a)\<^sup>*\<^sup>* w x" using "2.prems"(4) by blast
  have move: "\<exists>v \<in> set q. (parent a)\<^sup>*\<^sup>* v x"
    if "closed a s q" "x \<notin> set s" "u \<in> set s \<or> u = []" "set queue \<subseteq> set q" for s q
    using that w closed_reach [OF that(1) w(2) _ that(2) "2.prems"(2)] from_empty "2.prems"(2) by auto
  show ?case
  proof (cases "u = x")
    case True
    then show ?thesis by (simp add: walk.simps)
  next
    case ux: False
    show ?thesis
    proof (cases "u = [] \<or> contains seen u")
      case True
      have c: "closed a seen queue" using "2.prems"(1) True by (auto simp: closed_def)
      have "walk a x seen queue"
        by (rule "2.IH"(1) [OF ux True c "2.prems"(2,3) move [OF c "2.prems"(3)]]) (use True in auto)
      then show ?thesis using ux True by (simp add: walk.simps)
    next
      case new: False
      have x: "x \<notin> set (u # seen)" using ux "2.prems"(3) by simp
      show ?thesis
      proof (cases "map_of a u")
        case None
        then have c: "closed a (u # seen) queue" using "2.prems"(1) by (auto simp: closed_def parent_def)
        have "walk a x (u # seen) queue"
          by (rule "2.IH"(2) [OF ux new None c "2.prems"(2) x move [OF c x]]) auto
        then show ?thesis using ux new None by (simp add: walk.simps)
      next
        case (Some bm)
        obtain b m where bm: "bm = (b, m)" by force
        have c: "closed a (u # seen) (queue @ [b, m])"
          using "2.prems"(1) Some bm by (auto simp: closed_def parent_def)
        have "walk a x (u # seen) (queue @ [b, m])"
          by (rule "2.IH"(3) [OF ux new Some bm [symmetric] c "2.prems"(2) x move [OF c x]]) auto
        then show ?thesis using ux new Some bm by (simp add: walk.simps)
      qed
    qed
  qed
qed simp

lemma IsAncestor_ancestor: "IsAncestor a x u \<longleftrightarrow> u \<noteq> [] \<and> ancestor a x u"
  using walk_sound [of a x "[]" "[u]"] walk_complete [of a "[]" "[u]" x]
  by (auto simp: IsAncestor_def ancestor_def closed_def)

text \<open>
  C37. \<open>IsAncestor\<close> ends and answers exactly whether a revision is another one or reachable from it over
  base and merge parents of known revisions, for any ancestry (also one with cycles).
\<close>

theorem IsAncestor_iff:
  "IsAncestor a x u \<longleftrightarrow> u \<noteq> [] \<and> x \<noteq> [] \<and> (parent a)\<^sup>*\<^sup>* u x"
  by (simp add: IsAncestor_ancestor ancestor_def)

lemma ancestor_trans: "ancestor a x y \<Longrightarrow> ancestor a y z \<Longrightarrow> ancestor a x z"
  by (auto simp: ancestor_def)

text \<open>
  Two nodes that know the same ancestry never both apply the other's version or both ignore it: the
  verdicts on a pair of heads mirror each other (an older head is caught up exactly where the newer one
  is ahead, a conflict or a convergence is one on both), unless the ancestry has a cycle.
\<close>

theorem Classify_mirror:
  assumes "rvUID l \<noteq> rvUID r" and "rvUID l \<noteq> []" and "rvUID r \<noteq> []"
    and "\<not> (IsAncestor a (rvUID l) (rvUID r) \<and> IsAncestor a (rvUID r) (rvUID l))"
  shows "(Classify (Some l) (Some r) a = MergeNone \<longleftrightarrow>
            Classify (Some r) (Some l) a \<in> {MergeFastForward, MergeRecord}) \<and>
         (Classify (Some l) (Some r) a = MergeConflict \<longleftrightarrow> Classify (Some r) (Some l) a = MergeConflict) \<and>
         (Classify (Some l) (Some r) a = MergeConverged \<longleftrightarrow> Classify (Some r) (Some l) a = MergeConverged)"
  using assms by (auto simp: Classify_def Let_def samePayload_def)

definition sample_rev :: "string \<Rightarrow> string \<Rightarrow> string \<Rightarrow> int \<Rightarrow> string \<Rightarrow> revision" where
  "sample_rev uid base merge epoch v =
     \<lparr>rsKind = ''dataset'', rsKey = ''tank/d'', rsScope = ''group'', rsScopeID = ''tank'', rsPayload = Some (JString v),
      rvID = 1, rvBaseRow = None, rvUID = uid, rvBase = base, rvMerge = merge, rvEpoch = epoch, rvOrigin = ''gui'',
      rvNode = ''n'', rvAuthor = [], rvNote = []\<rparr>"

lemma Classify_mirror_witness:
  "Classify (Some (sample_rev ''2'' ''1'' [] 3 ''x'')) (Some (sample_rev ''1'' [] [] 2 ''y''))
     [(''1'', [], []), (''2'', ''1'', [])] = MergeNone"
proof -
  let ?a = "[(''1'', [], []), (''2'', ''1'', [])] :: ancestry"
  have "\<not> IsAncestor ?a ''2'' ''1''" by code_simp
  moreover have "Classify (Some (sample_rev ''1'' [] [] 2 ''y'')) (Some (sample_rev ''2'' ''1'' [] 3 ''x'')) ?a = MergeFastForward"
    by code_simp
  ultimately show ?thesis
    using Classify_mirror [of "sample_rev ''2'' ''1'' [] 3 ''x''" "sample_rev ''1'' [] [] 2 ''y''" ?a]
    by (simp add: sample_rev_def)
qed

text \<open>
  The default rule gives the two nodes of a conflict mirrored verdicts from the revisions alone, and a
  winner exactly for a resource of a group or of the cluster whose versions carry different authority;
  it is the one with the higher epoch or term.
\<close>

theorem DefaultWinner_mirror:
  "(DefaultWinner l r = WinnerLocal \<longleftrightarrow> DefaultWinner r l = WinnerRemote) \<and>
   (DefaultWinner l r = WinnerNone \<longleftrightarrow> DefaultWinner r l = WinnerNone) \<and>
   (DefaultWinner l r = WinnerLocal \<longleftrightarrow>
      rsScope l = rsScope r \<and> rsScope l \<in> {ScopeGroup, ScopeCluster} \<and> rvEpoch r < rvEpoch l)"
  by (auto simp: DefaultWinner_def)

end
