(* ===== verification/ConfigSync.thy ===== *)
theory ConfigSync
  imports ConfigMerge
begin

text \<open>
  Merging the configuration of a peer (\<open>internal/configstore/sync.go\<close>, \<open>store.go\<close>, \<open>policy.go\<close>): what a node
  records from its live configuration, the revisions it received, and \<open>evaluate\<close>, which brings the newest
  revision of every resource of a peer together with this node's.

  The database, the live system, the engine that applies a resource and the ids the database draws are
  the answers of an environment, which may depend on every earlier call. The locks serialise the
  operations. The texts stored for the operator are not modelled, nor is the order of the rows that
  \<open>ORDER BY\<close> gives under a locale other than C.
\<close>

section \<open>State and calls\<close>

datatype pstatus = Pending | Adopted | Superseded | InConflict | Waiting | Blocked | Converging

record peer_rev =
  pvRev :: revision
  pvPeer :: string
  pvStatus :: pstatus

record proposal =
  prPeer :: string
  prRev :: revision
  prWinner :: string
  prOpen :: bool

record conflict =
  cfPeer :: string
  cfRes :: "string \<times> string"
  cfLocal :: string
  cfRemote :: string
  cfAuto :: string
  cfOpen :: bool

datatype cerr =
    SecretChanged | MaterialUnavailable | DuplicateUID string | CFailed string
  | NotWriter | ConfigBusy | NoLongerOpen | NoRecord | RemoteGone | BadChoice | PoolNotImported string
  | ConflictOpen | UserDeleted string | ProposalClosed | SameNode | InvalidToken | UnknownPeer | WrongNode string
  | Incomplete

datatype ccall =
    ReadLive | ReadLog | ReadHeads | ReadAncestry | ReadNodeID | ReadPeerRev string
  | RecordTx "resource list" | Insert revision | SetStatus string pstatus | CloseConflict string "string \<times> string"
  | KeepProposal string revision string | OpenConflict string "string \<times> string" string string string
  | ApplyRemote string resource | SupersedePending string | StoreRev string revision | CommitAll
  | ReadConflict nat | CountConflicts "string \<times> string" | ReadProposal nat | LoadPeers | ResolveConflict nat | DropProposal string | CloseProposal nat
  | FetchPages string int | UpdatePeer string | SavePeer string | ForgetPeer string | SetSetting string string
  | CleanTokens | InsertToken string | UseToken string | TellLeaving string

record cenv =
  cResult :: "ccall list \<Rightarrow> ccall \<Rightarrow> cerr option"
  cLive :: "ccall list \<Rightarrow> resource list"
  cPools :: "ccall list \<Rightarrow> string list"
  cUID :: "ccall list \<Rightarrow> nat \<Rightarrow> string"
  cEpochPool :: "ccall list \<Rightarrow> string \<Rightarrow> int"
  cTerm :: "ccall list \<Rightarrow> int"
  cAuto :: "ccall list \<Rightarrow> string \<Rightarrow> bool"
  cBusy :: "ccall list \<Rightarrow> bool"
  cWriter :: "ccall list \<Rightarrow> bool"
  cUsers :: "ccall list \<Rightarrow> string list"
  cEdited :: "resource \<Rightarrow> json option \<Rightarrow> cerr + json option"
  cSelf :: string
  cNode :: string

record csync =
  cTrace :: "ccall list"
  cLog :: "revision list"
  cPeerRevs :: "peer_rev list"
  cProposals :: "proposal list"
  cConflicts :: "conflict list"

definition cperform :: "cenv \<Rightarrow> ccall \<Rightarrow> csync \<Rightarrow> cerr option \<times> csync" where
  "cperform E a s = (cResult E (cTrace s) a, s\<lparr>cTrace := cTrace s @ [a]\<rparr>)"

definition cdo :: "cenv \<Rightarrow> ccall \<Rightarrow> (csync \<Rightarrow> csync) \<Rightarrow> csync \<Rightarrow> cerr option \<times> csync" where
  "cdo E a f s = (case cperform E a s of (Some e, t) \<Rightarrow> (Some e, t) | (None, t) \<Rightarrow> (None, f t))"

section \<open>The log\<close>

text \<open>\<open>Latest\<close>: the newest revision of a resource (the log is in the order of the row ids).\<close>

definition latest :: "revision list \<Rightarrow> string \<times> string \<Rightarrow> revision option" where
  "latest lg k = List.find (\<lambda>r. res_id r = k) (rev lg)"

definition SyncKinds :: "string list" where
  "SyncKinds = [''dataset'', ''share'', ''nfs'', ''user'', ''group'', ''replication'', ''settings'', ''ldap'', ''acme'', ''certificate'']"

definition capturedKinds :: "string list" where
  "capturedKinds = [''dataset'', ''share'', ''nfs'', ''stack'', ''system'', ''settings'', ''user'', ''group'', ''replication'',
     ''ldap'', ''acme'', ''certificate'', ''smart_task'', ''nvme_fabric'']"

definition epochFor :: "cenv \<Rightarrow> ccall list \<Rightarrow> string \<Rightarrow> string \<Rightarrow> int" where
  "epochFor E tr scope scopeID =
     (if scope = ScopeGroup \<and> scopeID \<noteq> [] then cEpochPool E tr scopeID
      else if scope = ScopeCluster then cTerm E tr else 0)"

definition staleWriter :: "cenv \<Rightarrow> ccall list \<Rightarrow> revision \<Rightarrow> bool" where
  "staleWriter E tr r =
     (if rsScope r \<noteq> ScopeGroup \<or> rvEpoch r = 0 then False
      else rvEpoch r < epochFor E tr (rsScope r) (rsScopeID r))"

definition next_id :: "revision list \<Rightarrow> int" where
  "next_id lg = int (length lg) + 1"

section \<open>Recording this node's configuration\<close>

text \<open>\<open>changesAgainst\<close>: new or changed resources, and captured ones that are gone (not out of view).\<close>

definition changed :: "(string \<times> string \<Rightarrow> revision option) \<Rightarrow> resource \<Rightarrow> bool" where
  "changed lt r =
     (case lt (res_id r) of
        None \<Rightarrow> True
      | Some p \<Rightarrow> \<not> samePayload (rsPayload p) (rsPayload r) \<or> rsScope p \<noteq> rsScope r \<or> rsScopeID p \<noteq> rsScopeID r)"

definition gone :: "resource list \<Rightarrow> string list \<Rightarrow> revision \<Rightarrow> bool" where
  "gone current imported p =
     (if contains (map res_id current) (res_id p) \<or> \<not> contains capturedKinds (rsKind p) \<or> rsPayload p = None then False
      else \<not> (rsScope p = ScopeGroup \<and> \<not> contains imported (rsScopeID p)))"

text \<open>The heads of the log, in the order in which their resources first appear.\<close>

definition heads_of_log :: "revision list \<Rightarrow> revision list" where
  "heads_of_log lg = map (\<lambda>k. the (latest lg k)) (remdups (map res_id lg))"

definition changesAgainst :: "resource list \<Rightarrow> revision list \<Rightarrow> string list \<Rightarrow> resource list" where
  "changesAgainst current lg imported =
     filter (changed (latest lg)) current @
     map (\<lambda>p. (resource_of p)\<lparr>rsPayload := None\<rparr>) (filter (gone current imported) (heads_of_log lg))"

definition new_revision :: "cenv \<Rightarrow> ccall list \<Rightarrow> revision list \<Rightarrow> string \<Rightarrow> int \<Rightarrow> nat \<Rightarrow> resource \<Rightarrow> revision" where
  "new_revision E tr lg origin id0 i c =
     \<lparr>rsKind = rsKind c, rsKey = rsKey c, rsScope = rsScope c, rsScopeID = rsScopeID c, rsPayload = rsPayload c,
      rvID = id0 + int i, rvBaseRow = map_option rvID (latest lg (res_id c)), rvUID = cUID E tr i,
      rvBase = (case latest lg (res_id c) of None \<Rightarrow> [] | Some p \<Rightarrow> rvUID p), rvMerge = [],
      rvEpoch = epochFor E tr (rsScope c) (rsScopeID c), rvOrigin = origin, rvNode = cNode E, rvAuthor = [], rvNote = []\<rparr>"

text \<open>One transaction: all changes of a changeset, or none.\<close>

definition record_changes :: "cenv \<Rightarrow> resource list \<Rightarrow> string \<Rightarrow> csync \<Rightarrow> cerr option \<times> csync" where
  "record_changes E cs origin s =
     (if cs = [] then (None, s)
      else cdo E (RecordTx cs)
        (\<lambda>t. t\<lparr>cLog := cLog s @ map (\<lambda>(i, c). new_revision E (cTrace s) (cLog s) origin (next_id (cLog s)) i c)
                              (enumerate 0 cs)\<rparr>) s)"

definition captureLocked :: "cenv \<Rightarrow> string \<Rightarrow> csync \<Rightarrow> cerr option \<times> csync" where
  "captureLocked E origin s =
     (case cperform E ReadLive s of
        (Some e, s1) \<Rightarrow> (Some e, s1)
      | (None, s1) \<Rightarrow>
          (case cperform E ReadLog s1 of
             (Some e, s2) \<Rightarrow> (Some e, s2)
           | (None, s2) \<Rightarrow>
               record_changes E (changesAgainst (cLive E (cTrace s1)) (cLog s2) (cPools E (cTrace s1)))
                 (if cLog s2 = [] then ''baseline'' else origin) s2))"

text \<open>The row as it is stored: ids and authority are filled in where the revision has none.\<close>

definition stamped :: "cenv \<Rightarrow> revision \<Rightarrow> revision option \<Rightarrow> csync \<Rightarrow> revision" where
  "stamped E r local s =
     r\<lparr>rvID := next_id (cLog s), rvBaseRow := map_option rvID local,
       rvUID := (if rvUID r = [] then cUID E (cTrace s) 0 else rvUID r),
       rvNode := (if rvNode r = [] then cNode E else rvNode r),
       rvEpoch := (if rvEpoch r = 0 \<and> rvOrigin r \<noteq> ''peer''
                   then epochFor E (cTrace s) (rsScope r) (rsScopeID r) else rvEpoch r)\<rparr>"

definition insertRevision :: "cenv \<Rightarrow> revision \<Rightarrow> revision option \<Rightarrow> csync \<Rightarrow> cerr option \<times> csync" where
  "insertRevision E r local s =
     (let r1 = stamped E r local s in
      if list_ex (\<lambda>x. rvUID x = rvUID r1) (cLog s) then (Some (DuplicateUID (rvUID r1)), s)
      else cdo E (Insert r1) (\<lambda>t. t\<lparr>cLog := cLog t @ [r1]\<rparr>) s)"

section \<open>Received revisions\<close>

definition receivable :: "revision \<Rightarrow> bool" where
  "receivable r \<longleftrightarrow> contains SyncKinds (rsKind r) \<and> rsScope r \<noteq> ScopeNode \<and> rvUID r \<noteq> []"

definition store_one :: "string \<Rightarrow> revision \<Rightarrow> csync \<Rightarrow> csync" where
  "store_one p r s =
     (if list_ex (\<lambda>x. rvUID (pvRev x) = rvUID r) (cPeerRevs s) then s
      else s\<lparr>cPeerRevs := cPeerRevs s @
        [\<lparr>pvRev = r, pvPeer = p,
          pvStatus = (if list_ex (\<lambda>x. rvUID x = rvUID r) (cLog s) then Adopted else Pending)\<rparr>]\<rparr>)"

text \<open>The second result: whether anything was added.\<close>

fun storeReceived :: "cenv \<Rightarrow> string \<Rightarrow> revision list \<Rightarrow> csync \<Rightarrow> (cerr option \<times> bool) \<times> csync" where
  "storeReceived E p [] s = ((None, False), s)"
| "storeReceived E p (r # rs) s =
     (if \<not> receivable r then storeReceived E p rs s
      else case cdo E (StoreRev p r) (store_one p r) s of
        (Some e, s1) \<Rightarrow> ((Some e, False), s1)
      | (None, s1) \<Rightarrow>
          (case storeReceived E p rs s1 of
             ((r', added), s2) \<Rightarrow> ((r', added \<or> length (cPeerRevs s1) \<noteq> length (cPeerRevs s)), s2)))"

definition loadAncestry :: "csync \<Rightarrow> ancestry" where
  "loadAncestry s = foldl Add [] (cLog s @ map pvRev (cPeerRevs s))"

definition setPeerStatus :: "cenv \<Rightarrow> string \<Rightarrow> pstatus \<Rightarrow> csync \<Rightarrow> csync" where
  "setPeerStatus E uid st s =
     snd (cdo E (SetStatus uid st)
       (\<lambda>t. t\<lparr>cPeerRevs := map (\<lambda>x. if rvUID (pvRev x) = uid then x\<lparr>pvStatus := st\<rparr> else x) (cPeerRevs t)\<rparr>) s)"

definition closeConflict :: "cenv \<Rightarrow> string \<Rightarrow> string \<times> string \<Rightarrow> csync \<Rightarrow> csync" where
  "closeConflict E p k s =
     snd (cdo E (CloseConflict p k)
       (\<lambda>t. t\<lparr>cConflicts := map (\<lambda>c. if cfPeer c = p \<and> cfRes c = k then c\<lparr>cfOpen := False\<rparr> else c) (cConflicts t)\<rparr>) s)"

text \<open>The origins of the repository and the fleet are kept, others become \<open>peer\<close>.\<close>

definition adoptRev :: "cenv \<Rightarrow> revision \<Rightarrow> revision option \<Rightarrow> csync \<Rightarrow> cerr option \<times> csync" where
  "adoptRev E r local s =
     insertRevision E
       (r\<lparr>rvOrigin := (if rvOrigin r = ''git'' \<or> rvOrigin r = ''overlay'' then rvOrigin r else ''peer'')\<rparr>) local s"

section \<open>Conflicts\<close>

definition merge_revision :: "revision \<Rightarrow> revision \<Rightarrow> revision" where
  "merge_revision l r =
     \<lparr>rsKind = rsKind l, rsKey = rsKey l, rsScope = rsScope l, rsScopeID = rsScopeID l, rsPayload = rsPayload l,
      rvID = 0, rvBaseRow = None, rvUID = [], rvBase = rvUID l, rvMerge = rvUID r, rvEpoch = 0, rvOrigin = ''merge'',
      rvNode = [], rvAuthor = [], rvNote = []\<rparr>"

definition keepAsProposal :: "cenv \<Rightarrow> string \<Rightarrow> revision \<Rightarrow> string \<Rightarrow> csync \<Rightarrow> cerr option \<times> csync" where
  "keepAsProposal E p lost winnerUID s =
     cdo E (KeepProposal p lost winnerUID)
       (\<lambda>t. if list_ex (\<lambda>x. rvUID (prRev x) = rvUID lost) (cProposals t)
            then t\<lparr>cProposals := map (\<lambda>x. if rvUID (prRev x) = rvUID lost then x\<lparr>prWinner := winnerUID\<rparr> else x) (cProposals t)\<rparr>
            else t\<lparr>cProposals := cProposals t @ [\<lparr>prPeer = p, prRev = lost, prWinner = winnerUID, prOpen = True\<rparr>]\<rparr>) s"

definition put_conflict :: "conflict \<Rightarrow> conflict list \<Rightarrow> conflict list" where
  "put_conflict c cs =
     (if list_ex (\<lambda>x. cfOpen x \<and> cfPeer x = cfPeer c \<and> cfRes x = cfRes c) cs
      then map (\<lambda>x. if cfOpen x \<and> cfPeer x = cfPeer c \<and> cfRes x = cfRes c then c else x) cs
      else cs @ [c])"

definition openConflict :: "cenv \<Rightarrow> string \<Rightarrow> revision \<Rightarrow> revision \<Rightarrow> string \<Rightarrow> csync \<Rightarrow> cerr option \<times> csync" where
  "openConflict E p l r auto s =
     (case cdo E (OpenConflict p (res_id r) (rvUID l) (rvUID r) auto)
        (\<lambda>t. t\<lparr>cConflicts := put_conflict
           \<lparr>cfPeer = p, cfRes = res_id r, cfLocal = rvUID l, cfRemote = rvUID r, cfAuto = auto, cfOpen = True\<rparr> (cConflicts t)\<rparr>) s of
        (Some e, s1) \<Rightarrow> (Some e, s1)
      | (None, s1) \<Rightarrow> (None, setPeerStatus E (rvUID r) InConflict s1))"

definition conflict_winner :: "cenv \<Rightarrow> string \<Rightarrow> revision \<Rightarrow> revision \<Rightarrow> csync \<Rightarrow> winner" where
  "conflict_winner E p l r s =
     (if p \<noteq> ''git'' \<and> cAuto E (cTrace s) (rsScope r) then DefaultWinner l r else WinnerNone)"

definition settleConflict :: "cenv \<Rightarrow> string \<Rightarrow> revision \<Rightarrow> revision \<Rightarrow> csync \<Rightarrow> cerr option \<times> csync" where
  "settleConflict E p l r s =
     (case conflict_winner E p l r s of
        WinnerLocal \<Rightarrow>
          (case insertRevision E (merge_revision l r) (Some l) s of
             (Some e, s1) \<Rightarrow> (Some e, s1)
           | (None, s1) \<Rightarrow> (None, closeConflict E p (res_id r) (setPeerStatus E (rvUID r) Superseded s1)))
      | WinnerRemote \<Rightarrow>
          (case keepAsProposal E p l (rvUID r) s of
             (Some e, s1) \<Rightarrow> (Some e, s1)
           | (None, s1) \<Rightarrow> openConflict E p l r p s1)
      | WinnerNone \<Rightarrow> openConflict E p l r [] s)"

text \<open>
  The walk of \<open>keepIfOverruled\<close>: the other parent of the first merge met that has this node's head as
  a parent (\<open>Some []\<close> is no such merge).
\<close>

function overruling :: "ancestry \<Rightarrow> string \<Rightarrow> string list \<Rightarrow> string list \<Rightarrow> string option" where
  "overruling a luid seen [] = None"
| "overruling a luid seen (u # queue) =
     (if u = [] \<or> u = luid \<or> contains seen u then overruling a luid seen queue
      else case map_of a u of
        None \<Rightarrow> overruling a luid (u # seen) queue
      | Some (b, m) \<Rightarrow>
          (let other = (if luid = b then m else if luid = m then b else []) in
           if other \<noteq> [] then Some other else overruling a luid (u # seen) (queue @ [b, m])))"
  by pat_completeness auto
termination overruling
proof (relation "measures [\<lambda>(a, x, seen, queue). unseen_parents a seen, \<lambda>(a, x, seen, queue). length queue]",
    goal_cases)
  case (3 a x seen u queue)
  then show ?case using unseen_le [of a u seen] by auto
qed (auto simp: unseen_less)

declare overruling.simps [simp del]

definition peerRevisionByUID :: "csync \<Rightarrow> string \<Rightarrow> revision option" where
  "peerRevisionByUID s uid = map_option pvRev (List.find (\<lambda>x. rvUID (pvRev x) = uid) (cPeerRevs s))"

definition keepIfOverruled :: "cenv \<Rightarrow> string \<Rightarrow> revision \<Rightarrow> revision \<Rightarrow> ancestry \<Rightarrow> csync \<Rightarrow> cerr option \<times> csync" where
  "keepIfOverruled E p l r a s =
     (if p = ''git'' \<or> \<not> cAuto E (cTrace s) (rsScope l) then (None, s)
      else case overruling a (rvUID l) [] [rvUID r] of
        None \<Rightarrow> (None, s)
      | Some other \<Rightarrow>
          (case cperform E (ReadPeerRev other) s of
             (Some e, s1) \<Rightarrow> (Some e, s1)
           | (None, s1) \<Rightarrow>
               (case peerRevisionByUID s1 other of
                  None \<Rightarrow> (None, s1)
                | Some w \<Rightarrow>
                    (if DefaultWinner l w = WinnerRemote then keepAsProposal E p l (rvUID w) s1 else (None, s1)))))"

section \<open>Merging the head of a resource\<close>

type_synonym head_result = "(cerr option \<times> bool) \<times> csync"

text \<open>The second result: whether the live system was changed.\<close>

definition adopted :: "cenv \<Rightarrow> string \<Rightarrow> revision \<Rightarrow> revision option \<Rightarrow> csync \<Rightarrow> cerr option \<times> csync" where
  "adopted E p r local s =
     (case adoptRev E r local s of
        (Some e, s1) \<Rightarrow> (Some e, s1)
      | (None, s1) \<Rightarrow> (None, closeConflict E p (res_id r) (setPeerStatus E (rvUID r) Adopted s1)))"

definition fast_forward :: "cenv \<Rightarrow> string \<Rightarrow> string list \<Rightarrow> ancestry \<Rightarrow> revision option \<Rightarrow> revision \<Rightarrow> csync \<Rightarrow> head_result" where
  "fast_forward E p imported a local r s =
     (if rsScope r = ScopeGroup \<and> rsScopeID r \<noteq> [] \<and> \<not> contains imported (rsScopeID r)
      then ((None, False), setPeerStatus E (rvUID r) Waiting s)
      else case (case local of None \<Rightarrow> (None, s) | Some l \<Rightarrow> keepIfOverruled E p l r a s) of
        (Some e, s1) \<Rightarrow> ((Some e, False), s1)
      | (None, s1) \<Rightarrow>
          (case cperform E (ApplyRemote p (resource_of r)) s1 of
             (Some SecretChanged, s2) \<Rightarrow> ((None, False), setPeerStatus E (rvUID r) Waiting s2)
           | (Some MaterialUnavailable, s2) \<Rightarrow> ((None, False), setPeerStatus E (rvUID r) Waiting s2)
           | (Some e, s2) \<Rightarrow> ((None, False), setPeerStatus E (rvUID r) Blocked s2)
           | (None, s2) \<Rightarrow>
               (case adopted E p r local s2 of
                  (Some e, s3) \<Rightarrow> ((Some e, False), s3)
                | (None, s3) \<Rightarrow> (case cperform E ReadLive s3 of (e, s4) \<Rightarrow> ((e, True), s4)))))"

definition converge :: "cenv \<Rightarrow> string \<Rightarrow> revision \<Rightarrow> revision \<Rightarrow> csync \<Rightarrow> cerr option \<times> csync" where
  "converge E p l r s =
     (if p < cSelf E then (None, setPeerStatus E (rvUID r) Converging s)
      else case insertRevision E (merge_revision l r) (Some l) s of
        (Some e, s1) \<Rightarrow> (Some e, s1)
      | (None, s1) \<Rightarrow> (None, closeConflict E p (res_id r) (setPeerStatus E (rvUID r) Adopted s1)))"

definition merge_head ::
  "cenv \<Rightarrow> string \<Rightarrow> string list \<Rightarrow> ancestry \<Rightarrow> revision option \<Rightarrow> revision \<Rightarrow> csync \<Rightarrow> head_result" where
  "merge_head E p imported a local r s =
     (let action = Classify local (Some r) a in
      if staleWriter E (cTrace s) r then
        (if action = MergeConflict \<and> cAuto E (cTrace s) (rsScope r) \<and> DefaultWinner (the local) r = WinnerLocal
         then (case settleConflict E p (the local) r s of (e, s1) \<Rightarrow> ((e, False), s1))
         else ((None, False), setPeerStatus E (rvUID r) Blocked s))
      else case action of
        MergeNone \<Rightarrow> ((None, False), closeConflict E p (res_id r) (setPeerStatus E (rvUID r) Superseded s))
      | MergeRecord \<Rightarrow> (case adopted E p r local s of (e, s1) \<Rightarrow> ((e, False), s1))
      | MergeFastForward \<Rightarrow> fast_forward E p imported a local r s
      | MergeConverged \<Rightarrow> (case converge E p (the local) r s of (e, s1) \<Rightarrow> ((e, False), s1))
      | MergeConflict \<Rightarrow> (case settleConflict E p (the local) r s of (e, s1) \<Rightarrow> ((e, False), s1)))"

text \<open>The first error ends the loop; what was merged before it stays.\<close>

fun merge_heads ::
  "cenv \<Rightarrow> string \<Rightarrow> string list \<Rightarrow> ancestry \<Rightarrow> (string \<times> string \<Rightarrow> revision option) \<Rightarrow> peer_rev list \<Rightarrow> csync \<Rightarrow> head_result" where
  "merge_heads E p imported a lt [] s = ((None, False), s)"
| "merge_heads E p imported a lt (h # hs) s =
     (if pvStatus h = Adopted \<or> pvStatus h = Superseded then merge_heads E p imported a lt hs s
      else case merge_head E p imported a (lt (res_id (pvRev h))) (pvRev h) s of
        ((Some e, x), s1) \<Rightarrow> ((Some e, x), s1)
      | ((None, x), s1) \<Rightarrow>
          (case merge_heads E p imported a lt hs s1 of ((e, y), s2) \<Rightarrow> ((e, x \<or> y), s2)))"

section \<open>The newest revision of every resource of a peer\<close>

definition newest_of :: "peer_rev list \<Rightarrow> string \<times> string \<Rightarrow> peer_rev option" where
  "newest_of xs k =
     foldl (\<lambda>m x. if res_id (pvRev x) = k \<and> (case m of None \<Rightarrow> True | Some y \<Rightarrow> rvID (pvRev y) < rvID (pvRev x)) then Some x else m)
       None xs"

definition peer_heads :: "csync \<Rightarrow> string \<Rightarrow> peer_rev list" where
  "peer_heads s p =
     (let xs = filter (\<lambda>x. pvPeer x = p) (cPeerRevs s) in
      List.map_filter (newest_of xs) (sort (remdups (map (\<lambda>x. res_id (pvRev x)) xs))))"

definition supersede_pending :: "cenv \<Rightarrow> string \<Rightarrow> csync \<Rightarrow> cerr option \<times> csync" where
  "supersede_pending E p s =
     cdo E (SupersedePending p)
       (\<lambda>t. t\<lparr>cPeerRevs := map (\<lambda>x. if pvPeer x = p \<and> pvStatus x = Pending then x\<lparr>pvStatus := Superseded\<rparr> else x)
                                (cPeerRevs t)\<rparr>) s"

text \<open>The reads one after the other; the first that fails ends them.\<close>

fun cperform_all :: "cenv \<Rightarrow> ccall list \<Rightarrow> csync \<Rightarrow> cerr option \<times> csync" where
  "cperform_all E [] s = (None, s)"
| "cperform_all E (a # as) s =
     (case cperform E a s of (Some e, s1) \<Rightarrow> (Some e, s1) | (None, s1) \<Rightarrow> cperform_all E as s1)"

definition evaluate :: "cenv \<Rightarrow> string \<Rightarrow> csync \<Rightarrow> cerr option \<times> csync" where
  "evaluate E p s =
     (if cBusy E (cTrace s) then (None, s)
      else case captureLocked E ''detected'' s of
        (Some e, s1) \<Rightarrow> (Some e, s1)
      | (None, s1) \<Rightarrow>
          (case cperform_all E [ReadHeads, ReadLog, ReadAncestry, ReadLive, ReadNodeID] s1 of
             (Some e, s2) \<Rightarrow> (Some e, s2)
           | (None, s2) \<Rightarrow>
               (case merge_heads E p (cPools E (cTrace s1 @ [ReadHeads, ReadLog, ReadAncestry])) (loadAncestry s1) (latest (cLog s1))
                       (peer_heads s1 p) s2 of
                  ((Some e, x), s3) \<Rightarrow> (Some e, s3)
                | ((None, x), s3) \<Rightarrow>
                    (case supersede_pending E p s3 of
                       (Some e, s4) \<Rightarrow> (Some e, s4)
                     | (None, s4) \<Rightarrow> (None, if x then snd (cperform E CommitAll s4) else s4)))))"

end
