(* ===== verification/ConfigHistory.thy ===== *)
theory ConfigHistory
  imports ConfigSync
begin

text \<open>
  What merging a peer's configuration does to the history of a node: nothing recorded is lost, a former
  owner's version is never applied, and both nodes of a conflict end with the winner's version.
\<close>

section \<open>Nothing recorded is lost\<close>

text \<open>The revisions a node knows, and their parents.\<close>

definition received :: "csync \<Rightarrow> revision list" where
  "received s = map pvRev (cPeerRevs s)"

lemma received_updates [simp]:
  "received (s\<lparr>cTrace := tr\<rparr>) = received s" "received (s\<lparr>cLog := lg\<rparr>) = received s"
  "received (s\<lparr>cConflicts := cs\<rparr>) = received s" "received (s\<lparr>cProposals := ps\<rparr>) = received s"
  by (simp_all add: received_def)

definition known :: "csync \<Rightarrow> revision set" where
  "known s = set (cLog s) \<union> set (received s)"

definition parent_row :: "revision set \<Rightarrow> string \<Rightarrow> string \<Rightarrow> bool" where
  "parent_row R u p \<longleftrightarrow> (\<exists>r \<in> R. rvUID r = u \<and> (p = rvBase r \<or> p = rvMerge r))"

definition descends :: "csync \<Rightarrow> revision \<Rightarrow> revision \<Rightarrow> bool" where
  "descends t l n \<longleftrightarrow> (parent_row (known t))\<^sup>*\<^sup>* (rvUID n) (rvUID l)"

text \<open>No revision disappears, and the new head of a resource is built on the old one.\<close>

definition evolves :: "csync \<Rightarrow> csync \<Rightarrow> bool" where
  "evolves s t \<longleftrightarrow> known s \<subseteq> known t \<and>
     (\<forall>k l. latest (cLog s) k = Some l \<longrightarrow> (\<exists>n. latest (cLog t) k = Some n \<and> descends t l n))"

lemma parent_row_mono: "R \<subseteq> S \<Longrightarrow> (parent_row R)\<^sup>*\<^sup>* u p \<Longrightarrow> (parent_row S)\<^sup>*\<^sup>* u p"
  by (erule rtranclp_mono [THEN predicate2D, rotated]) (unfold parent_row_def, blast)

lemma descends_refl [simp]: "descends t l l"
  by (simp add: descends_def)

lemma evolves_latest: "evolves s t \<Longrightarrow> latest (cLog s) k = Some l \<Longrightarrow> \<exists>n. latest (cLog t) k = Some n \<and> descends t l n"
  unfolding evolves_def by blast

lemma evolvesI:
  "known s \<subseteq> known t \<Longrightarrow> (\<And>k l. latest (cLog s) k = Some l \<Longrightarrow> \<exists>n. latest (cLog t) k = Some n \<and> descends t l n) \<Longrightarrow>
   evolves s t"
  unfolding evolves_def by blast

lemma evolves_trans:
  assumes "evolves s t" and "evolves t u"
  shows "evolves s u"
proof -
  have k: "known t \<subseteq> known u" using assms(2) by (simp add: evolves_def)
  have "\<exists>n. latest (cLog u) x = Some n \<and> descends u l n" if l: "latest (cLog s) x = Some l" for x l
  proof -
    obtain m where m: "latest (cLog t) x = Some m" "descends t l m" using evolves_latest [OF assms(1) l] by blast
    obtain n where n: "latest (cLog u) x = Some n" "descends u m n" using evolves_latest [OF assms(2) m(1)] by blast
    have "descends u l m" using m(2) parent_row_mono [OF k] by (simp add: descends_def)
    then show ?thesis using n by (auto simp: descends_def intro: rtranclp_trans)
  qed
  moreover have "known s \<subseteq> known u" using assms by (auto simp: evolves_def)
  ultimately show ?thesis by (intro evolvesI) auto
qed

text \<open>An operation that leaves the log and the received revisions.\<close>

lemma evolves_same: "cLog t = cLog s \<Longrightarrow> set (received s) \<subseteq> set (received t) \<Longrightarrow> evolves s t"
  by (auto simp: evolves_def known_def)

lemma latest_append:
  "latest (lg @ new) k = (case latest new k of None \<Rightarrow> latest lg k | Some n \<Rightarrow> Some n)"
  by (simp add: latest_def find_append split: option.split)

lemma latest_Some: "latest lg k = Some n \<Longrightarrow> n \<in> set lg \<and> res_id n = k"
  by (auto simp: latest_def dest: find_SomeD)

text \<open>An operation that appends revisions built on the heads of their resources.\<close>

lemma evolves_append:
  assumes log: "cLog t = cLog s @ new" and peers: "set (received s) \<subseteq> set (received t)"
    and built: "\<And>n l. n \<in> set new \<Longrightarrow> latest (cLog s) (res_id n) = Some l \<Longrightarrow> descends t l n"
  shows "evolves s t"
proof -
  have "known s \<subseteq> known t" using log peers by (auto simp: known_def)
  moreover have "\<exists>n. latest (cLog t) k = Some n \<and> descends t l n" if l: "latest (cLog s) k = Some l" for k l
  proof (cases "latest new k")
    case None
    then show ?thesis using l by (simp add: log latest_append)
  next
    case (Some n)
    then show ?thesis using latest_Some [OF Some] built [of n l] l by (auto simp: log latest_append)
  qed
  ultimately show ?thesis by (rule evolvesI)
qed

lemma descends_base: "n \<in> known t \<Longrightarrow> rvBase n = rvUID l \<Longrightarrow> descends t l n"
  unfolding descends_def parent_row_def by (intro r_into_rtranclp) auto

subsection \<open>What single calls do to the log\<close>

lemma cperform_keeps: "cperform E a s = (e, t) \<Longrightarrow> cLog t = cLog s \<and> received t = received s \<and> cProposals t = cProposals s"
  by (auto simp: received_def cperform_def)

lemma cperform_all_keeps: "cperform_all E as s = (e, t) \<Longrightarrow> cLog t = cLog s \<and> received t = received s \<and> cProposals t = cProposals s"
proof (induction as arbitrary: s)
  case (Cons a as)
  then show ?case by (auto split: prod.splits option.splits dest: cperform_keeps)
qed simp

lemma setPeerStatus_keeps:
  "cLog (setPeerStatus E uid st s) = cLog s" "cProposals (setPeerStatus E uid st s) = cProposals s"
  "received (setPeerStatus E uid st s) = received s"
  by (auto simp: received_def setPeerStatus_def cdo_def cperform_def split: option.splits prod.splits)

lemma closeConflict_keeps:
  "cLog (closeConflict E p k s) = cLog s" "cProposals (closeConflict E p k s) = cProposals s"
  "received (closeConflict E p k s) = received s"
  by (auto simp: received_def closeConflict_def cdo_def cperform_def split: option.splits prod.splits)

lemmas calls_keep [simp] = setPeerStatus_keeps closeConflict_keeps

lemma insertRevision_cases:
  assumes "insertRevision E r local s = (e, t)"
  obtains (failed) e' where "e = Some e'" "cLog t = cLog s" "received t = received s" "cProposals t = cProposals s"
  | (stored) "e = None" "cLog t = cLog s @ [stamped E r local s]" "received t = received s" "cProposals t = cProposals s"
  using assms
  by (cases e) (auto simp: received_def insertRevision_def Let_def cdo_def cperform_def split: if_splits option.splits)

lemma keepAsProposal_keeps: "keepAsProposal E p l w s = (e, t) \<Longrightarrow> cLog t = cLog s \<and> received t = received s"
  by (auto simp: received_def keepAsProposal_def cdo_def cperform_def split: if_splits option.splits)

lemma openConflict_keeps:
  "openConflict E p l r x s = (e, t) \<Longrightarrow>
   cLog t = cLog s \<and> received t = received s \<and> cProposals t = cProposals s"
  by (auto simp: openConflict_def cdo_def cperform_def split: if_splits option.splits prod.splits)

lemma keepIfOverruled_keeps: "keepIfOverruled E p l r a s = (e, t) \<Longrightarrow> cLog t = cLog s \<and> received t = received s"
  by (auto simp: keepIfOverruled_def split: if_splits option.splits prod.splits
        dest!: cperform_keeps keepAsProposal_keeps)

text \<open>What a merge appends: at most one revision of the resource, a merge or the peer's revision.\<close>

definition merged :: "revision \<Rightarrow> revision \<Rightarrow> revision \<Rightarrow> bool" where
  "merged l r n \<longleftrightarrow> res_id n = res_id l \<and> rvBase n = rvUID l \<and> rvMerge n = rvUID r \<and> rsPayload n = rsPayload l"

definition taken :: "revision \<Rightarrow> revision \<Rightarrow> bool" where
  "taken r n \<longleftrightarrow> resource_of n = resource_of r \<and> (rvUID r \<noteq> [] \<longrightarrow> rvUID n = rvUID r) \<and> rvBase n = rvBase r \<and> rvMerge n = rvMerge r"

definition appends :: "csync \<Rightarrow> csync \<Rightarrow> (revision \<Rightarrow> bool) \<Rightarrow> bool" where
  "appends s t P \<longleftrightarrow> received t = received s \<and> (cLog t = cLog s \<or> (\<exists>n. cLog t = cLog s @ [n] \<and> P n))"

lemma stamped_merge: "merged l r (stamped E (merge_revision l r) local s)"
  by (simp add: merged_def stamped_def merge_revision_def res_id_def)

lemma adoptRev_appends: "adoptRev E r local s = (e, t) \<Longrightarrow> appends s t (taken r)"
  unfolding adoptRev_def
  by (erule insertRevision_cases)
    (auto simp: appends_def taken_def stamped_def resource_of_def)

lemma merge_appends: "insertRevision E (merge_revision l r) local s = (e, t) \<Longrightarrow> appends s t (merged l r)"
  by (erule insertRevision_cases) (auto simp: appends_def stamped_merge)

lemma adopted_appends: "adopted E p r local s = (e, t) \<Longrightarrow> appends s t (taken r)"
  unfolding adopted_def
  by (auto split: prod.splits option.splits dest!: adoptRev_appends simp: appends_def)

lemma settleConflict_appends: "settleConflict E p l r s = (e, t) \<Longrightarrow> appends s t (merged l r)"
  unfolding settleConflict_def
  by (auto split: winner.splits prod.splits option.splits
        dest!: merge_appends openConflict_keeps keepAsProposal_keeps simp: appends_def)

lemma converge_appends: "converge E p l r s = (e, t) \<Longrightarrow> appends s t (merged l r)"
  unfolding converge_def
  by (auto split: if_splits prod.splits option.splits dest!: merge_appends simp: appends_def)

definition built_on :: "ancestry \<Rightarrow> revision option \<Rightarrow> revision \<Rightarrow> revision \<Rightarrow> bool" where
  "built_on a local r n \<longleftrightarrow>
     (case local of None \<Rightarrow> resource_of n = resource_of r
      | Some l \<Rightarrow> merged l r n \<or> taken r n \<and> IsAncestor a (rvUID l) (rvUID r))"

lemma Classify_local: "Classify local (Some r) a \<in> {MergeConverged, MergeConflict} \<Longrightarrow> local \<noteq> None"
  by (auto simp: Classify_def split: option.splits if_splits)

lemma Classify_ahead:
  "Classify local (Some r) a \<in> {MergeRecord, MergeFastForward} \<Longrightarrow> local = Some l \<Longrightarrow> IsAncestor a (rvUID l) (rvUID r)"
  by (auto simp: Classify_def Let_def split: option.splits if_splits)

lemma taken_built:
  "Classify local (Some r) a \<in> {MergeRecord, MergeFastForward} \<Longrightarrow> taken r n \<Longrightarrow> built_on a local r n"
  using Classify_ahead [of local r a] by (cases local) (auto simp: built_on_def taken_def)

lemma appends_mono: "appends s t P \<Longrightarrow> (\<And>n. P n \<Longrightarrow> Q n) \<Longrightarrow> appends s t Q"
  by (auto simp: appends_def)

lemma appends_status [simp]:
  "appends s (setPeerStatus E uid st s) P" "appends s (closeConflict E p k (setPeerStatus E uid st s)) P"
  by (simp_all add: appends_def)

lemma appends_none: "cLog t = cLog s \<Longrightarrow> received t = received s \<Longrightarrow> appends s t P"
  by (simp add: appends_def)

lemma appends_after: "cLog s' = cLog s \<Longrightarrow> received s' = received s \<Longrightarrow> appends s' t P \<Longrightarrow> appends s t P"
  by (simp add: appends_def)

lemma fast_forward_appends:
  "fast_forward E p imported a local r s = ((e, x), t) \<Longrightarrow> appends s t (taken r)"
  unfolding fast_forward_def
  by (auto split: if_splits prod.splits option.splits cerr.splits
        dest!: cperform_keeps adopted_appends keepIfOverruled_keeps simp: appends_def)

lemma merge_head_appends:
  assumes "merge_head E p imported a local r s = ((e, x), t)"
  shows "appends s t (built_on a local r)"
proof -
  have m: "appends s t (built_on a local r)"
    if "appends s t (merged l r)" "local = Some l" for l
    by (rule appends_mono [OF that(1)]) (simp add: built_on_def that(2))
  have k: "appends s t (built_on a local r)"
    if "appends s t (taken r)" "Classify local (Some r) a \<in> {MergeRecord, MergeFastForward}"
    by (rule appends_mono [OF that(1)]) (rule taken_built [OF that(2)])
  show ?thesis
    using assms Classify_local [of local r a] m k
    by (cases "Classify local (Some r) a")
      (auto simp: merge_head_def Let_def split: if_splits prod.splits
        dest!: settleConflict_appends adopted_appends fast_forward_appends converge_appends)
qed

subsection \<open>Merging a peer's heads\<close>

lemma foldl_Add: "foldl Add a rs = rev (map (\<lambda>r. (rvUID r, rvBase r, rvMerge r)) rs) @ a"
  by (induction rs arbitrary: a) (simp_all add: Add_def)

lemma set_loadAncestry: "set (loadAncestry s) = (\<lambda>r. (rvUID r, rvBase r, rvMerge r)) ` known s"
  by (simp add: loadAncestry_def foldl_Add known_def received_def image_Un image_image Un_commute)

lemma loadAncestry_parent: "parent (loadAncestry s) u p \<Longrightarrow> parent_row (known s) u p"
  unfolding parent_def parent_row_def by (fastforce dest: map_of_SomeD simp: set_loadAncestry)

lemma loadAncestry_path:
  assumes "IsAncestor (loadAncestry s0) x u" and "known s0 \<subseteq> known t"
  shows "(parent_row (known t))\<^sup>*\<^sup>* u x"
proof -
  have "(parent (loadAncestry s0))\<^sup>*\<^sup>* u x" using assms(1) by (simp add: IsAncestor_iff)
  then have "(parent_row (known s0))\<^sup>*\<^sup>* u x"
    by (rule rtranclp_mono [THEN predicate2D, rotated]) (use loadAncestry_parent in blast)
  then show ?thesis by (rule parent_row_mono [OF assms(2)])
qed

lemma appends_known: "appends s t P \<Longrightarrow> known s \<subseteq> known t"
  by (auto simp: appends_def known_def)

lemma res_id_resource: "resource_of n = resource_of r \<Longrightarrow> res_id n = res_id r"
  by (simp add: resource_of_def res_id_def)

lemma built_on_id: "built_on a local r n \<Longrightarrow> (\<And>l. local = Some l \<Longrightarrow> res_id l = res_id r) \<Longrightarrow> res_id n = res_id r"
  by (cases local) (auto simp: built_on_def merged_def taken_def dest: res_id_resource)

lemma built_descends:
  assumes n: "built_on (loadAncestry s0) (Some l) r n" "n \<in> known t" and k: "known s0 \<subseteq> known t"
  shows "descends t l n"
proof (cases "merged l r n")
  case True
  then show ?thesis using descends_base [OF n(2)] by (simp add: merged_def)
next
  case False
  then have t: "taken r n" and a: "IsAncestor (loadAncestry s0) (rvUID l) (rvUID r)" using n(1) by (auto simp: built_on_def)
  have "rvUID n = rvUID r" using t a by (auto simp: taken_def IsAncestor_iff)
  then show ?thesis using loadAncestry_path [OF a k] by (simp add: descends_def)
qed

lemma appends_evolves:
  assumes ap: "appends s t (built_on (loadAncestry s0) (latest (cLog s) (res_id r)) r)" and k: "known s0 \<subseteq> known s"
  shows "evolves s t" and "k' \<noteq> res_id r \<Longrightarrow> latest (cLog t) k' = latest (cLog s) k'"
proof -
  let ?new = "if cLog t = cLog s then [] else [last (cLog t)]"
  have log: "cLog t = cLog s @ ?new" using ap by (auto simp: appends_def)
  have rc: "received t = received s" using ap by (simp add: appends_def)
  have n: "built_on (loadAncestry s0) (latest (cLog s) (res_id r)) r n" "res_id n = res_id r" if "n \<in> set ?new" for n
    using ap that built_on_id [of "loadAncestry s0" "latest (cLog s) (res_id r)" r n] latest_Some
    by (auto simp: appends_def split: if_splits)
  show "evolves s t"
  proof (rule evolves_append [OF log])
    fix x l
    assume x: "x \<in> set ?new" and l: "latest (cLog s) (res_id x) = Some l"
    have "x \<in> known t" using x ap by (auto simp: appends_def known_def split: if_splits)
    then show "descends t l x"
      using n [OF x] l k appends_known [OF ap] by (intro built_descends [of s0 l r]) auto
  qed (simp add: rc)
  assume "k' \<noteq> res_id r"
  then have "latest ?new k' = None" using n by (cases "latest ?new k'") (auto dest: latest_Some)
  then show "latest (cLog t) k' = latest (cLog s) k'" by (subst log) (simp add: latest_append)
qed

lemma merge_heads_evolves:
  "merge_heads E p imported (loadAncestry s0) lt hs s = ((e, x), t) \<Longrightarrow> known s0 \<subseteq> known s \<Longrightarrow>
   distinct (map (\<lambda>h. res_id (pvRev h)) hs) \<Longrightarrow>
   (\<And>h. h \<in> set hs \<Longrightarrow> latest (cLog s) (res_id (pvRev h)) = lt (res_id (pvRev h))) \<Longrightarrow> evolves s t"
proof (induction hs arbitrary: s e x t)
  case Nil
  then show ?case by (simp add: evolves_same)
next
  case (Cons h hs)
  let ?r = "pvRev h"
  show ?case
  proof (cases "pvStatus h = Adopted \<or> pvStatus h = Superseded")
    case True
    then show ?thesis using Cons.IH [of s e x t] Cons.prems by simp
  next
    case False
    obtain e1 x1 s1 where m: "merge_head E p imported (loadAncestry s0) (lt (res_id ?r)) ?r s = ((e1, x1), s1)"
      by (metis prod.exhaust)
    then have ap: "appends s s1 (built_on (loadAncestry s0) (latest (cLog s) (res_id ?r)) ?r)"
      using merge_head_appends Cons.prems(4) by simp
    note ev = appends_evolves [OF ap Cons.prems(2)]
    show ?thesis
    proof (cases e1)
      case (Some e')
      then show ?thesis using Cons.prems(1) False m ev(1) by simp
    next
      case None
      obtain e2 x2 s2 where r: "merge_heads E p imported (loadAncestry s0) lt hs s1 = ((e2, x2), s2)"
        by (metis prod.exhaust)
      have "evolves s1 s2"
      proof (rule Cons.IH [OF r])
        show "known s0 \<subseteq> known s1" using Cons.prems(2) appends_known [OF ap] by blast
        show "distinct (map (\<lambda>h. res_id (pvRev h)) hs)" using Cons.prems(3) by simp
        fix h'
        assume h': "h' \<in> set hs"
        then have "res_id (pvRev h') \<in> (\<lambda>h. res_id (pvRev h)) ` set hs" by (rule imageI)
        then have "res_id (pvRev h') \<noteq> res_id ?r" using Cons.prems(3) by auto
        then show "latest (cLog s1) (res_id (pvRev h')) = lt (res_id (pvRev h'))"
          using ev(2) Cons.prems(4) h' by simp
      qed
      then show ?thesis using Cons.prems(1) False m None r evolves_trans [OF ev(1)] by simp
    qed
  qed
qed

subsection \<open>Capture and evaluation\<close>

lemma new_revision_fields:
  "res_id (new_revision E tr lg origin id0 i c) = res_id c"
  "latest lg (res_id c) = Some l \<Longrightarrow> rvBase (new_revision E tr lg origin id0 i c) = rvUID l"
  by (simp_all add: new_revision_def res_id_def)

lemma record_changes_evolves:
  assumes "record_changes E cs origin s = (e, t)"
  shows "evolves s t" and "received t = received s"
proof -
  let ?new = "map (\<lambda>(i, c). new_revision E (cTrace s) (cLog s) origin (next_id (cLog s)) i c) (enumerate 0 cs)"
  consider "cLog t = cLog s" "received t = received s" | "cLog t = cLog s @ ?new" "received t = received s"
    using assms by (auto simp: record_changes_def cdo_def cperform_def split: if_splits option.splits)
  then have "evolves s t \<and> received t = received s"
  proof cases
    case 1
    then show ?thesis by (simp add: evolves_same)
  next
    case 2
    have "evolves s t"
    proof (rule evolves_append [OF 2(1)])
      fix n l
      assume n: "n \<in> set ?new" and l: "latest (cLog s) (res_id n) = Some l"
      from n obtain i c where c: "n = new_revision E (cTrace s) (cLog s) origin (next_id (cLog s)) i c" by auto
      have "rvBase n = rvUID l" using l by (simp add: c new_revision_fields)
      moreover have "n \<in> known t" using n 2(1) by (simp add: known_def)
      ultimately show "descends t l n" by (rule descends_base [rotated])
    qed (simp add: 2(2))
    then show ?thesis using 2(2) by simp
  qed
  then show "evolves s t" "received t = received s" by simp_all
qed

lemma capture_evolves:
  assumes "captureLocked E origin s = (e, t)"
  shows "evolves s t" and "received t = received s"
proof -
  have run: "evolves s t \<and> received t = received s"
    if "record_changes E cs o' s2 = (e, t)" "cLog s2 = cLog s" "received s2 = received s" for cs o' s2
    using record_changes_evolves [OF that(1)] that(2,3) evolves_trans [of s s2 t] by (simp add: evolves_same)
  have "evolves s t \<and> received t = received s"
    using assms by (auto simp: captureLocked_def split: prod.splits option.splits dest!: cperform_keeps dest: run simp: evolves_same)
  then show "evolves s t" "received t = received s" by simp_all
qed

lemma newest_of_id: "newest_of xs k = Some x \<Longrightarrow> x \<in> set xs \<and> res_id (pvRev x) = k"
proof -
  have "foldl (\<lambda>m x. if res_id (pvRev x) = k \<and> (case m of None \<Rightarrow> True | Some y \<Rightarrow> rvID (pvRev y) < rvID (pvRev x)) then Some x else m)
          m ys = Some x \<Longrightarrow> set ys \<subseteq> set xs \<Longrightarrow> (\<forall>y. m = Some y \<longrightarrow> y \<in> set xs \<and> res_id (pvRev y) = k) \<Longrightarrow>
        x \<in> set xs \<and> res_id (pvRev x) = k" for m ys
    by (induction ys arbitrary: m) (auto split: if_splits)
  then show "newest_of xs k = Some x \<Longrightarrow> x \<in> set xs \<and> res_id (pvRev x) = k" unfolding newest_of_def by blast
qed

lemma map_filter_keys:
  "(\<And>k x. f k = Some x \<Longrightarrow> g x = k) \<Longrightarrow> distinct ks \<Longrightarrow>
   distinct (map g (List.map_filter f ks)) \<and> set (map g (List.map_filter f ks)) \<subseteq> set ks"
  by (induction ks) (auto simp: List.map_filter_simps split: option.split)

lemma peer_heads_distinct: "distinct (map (\<lambda>h. res_id (pvRev h)) (peer_heads s p))"
  unfolding peer_heads_def Let_def
  by (rule map_filter_keys [THEN conjunct1]) (auto dest: newest_of_id)

lemma supersede_keeps: "supersede_pending E p s = (e, t) \<Longrightarrow> cLog t = cLog s \<and> received t = received s"
  by (auto simp: supersede_pending_def cdo_def cperform_def received_def split: option.splits)

lemma supersede_evolves: "supersede_pending E p s = (e, t) \<Longrightarrow> evolves s t"
  by (auto dest!: supersede_keeps intro: evolves_same)

lemma evolves_keeps: "cLog t = cLog s \<and> received t = received s \<and> x \<Longrightarrow> evolves s t"
  by (simp add: evolves_same)

lemma evaluate_evolves:
  assumes "evaluate E p s = (e, t)"
  shows "evolves s t"
proof (cases "cBusy E (cTrace s)")
  case True
  then show ?thesis using assms by (simp add: evaluate_def evolves_same)
next
  case busy: False
  obtain e1 s1 where c: "captureLocked E ''detected'' s = (e1, s1)" by force
  note ev1 = capture_evolves(1) [OF c]
  show ?thesis
  proof (cases e1)
    case (Some x)
    then show ?thesis using assms busy c ev1 by (simp add: evaluate_def)
  next
    case None
    obtain e2 s2 where r: "cperform_all E [ReadHeads, ReadLog, ReadAncestry, ReadLive, ReadNodeID] s1 = (e2, s2)" by (metis prod.exhaust)
    note same = cperform_all_keeps [OF r]
    have ev2: "evolves s s2" by (rule evolves_trans [OF ev1 evolves_keeps [OF same]])
    show ?thesis
    proof (cases e2)
      case (Some x)
      then show ?thesis using assms busy c None r ev2 by (simp add: evaluate_def del: cperform_all.simps)
    next
      case none2: None
      let ?im = "cPools E (cTrace s1 @ [ReadHeads, ReadLog, ReadAncestry])"
      obtain e3 x s3 where m:
        "merge_heads E p ?im (loadAncestry s1) (latest (cLog s1)) (peer_heads s1 p) s2 = ((e3, x), s3)" by (metis prod.exhaust)
      have "evolves s2 s3"
        by (rule merge_heads_evolves [OF m _ peer_heads_distinct]) (use same in \<open>simp_all add: known_def\<close>)
      then have ev3: "evolves s s3" by (rule evolves_trans [OF ev2])
      have fin: "evolves s (snd (cperform E CommitAll u))" if "evolves s u" for u
        by (rule evolves_trans [OF that]) (simp add: cperform_def evolves_same)
      show ?thesis
        using assms busy c None r none2 m ev3 supersede_evolves [of E p s3] fin evolves_trans [OF ev3]
        by (auto simp: evaluate_def simp del: cperform_all.simps split: option.splits prod.splits if_splits)
    qed
  qed
qed

text \<open>
  Bringing a peer's configuration in never loses what a node has recorded: whatever the database,
  the engine or the live system answer, and also when it ends early, every resource that had a newest
  revision has one afterwards, and that one is the same or reaches it over recorded parents (it was made
  on top of it, merged it, or is a peer's revision that was).
\<close>

theorem evaluate_descends:
  assumes "evaluate E p s = (e, t)" and "latest (cLog s) k = Some l"
  shows "\<exists>n. latest (cLog t) k = Some n \<and> descends t l n"
  using evolves_latest [OF evaluate_evolves [OF assms(1)] assms(2)] .

section \<open>Two nodes settle a conflict\<close>

definition proposed :: "csync \<Rightarrow> string list" where
  "proposed s = map (\<lambda>x. rvUID (prRev x)) (cProposals s)"

definition offered :: "csync \<Rightarrow> revision \<Rightarrow> bool" where
  "offered s l \<longleftrightarrow> contains (proposed s) (rvUID l)"

lemma keepAsProposal_uids:
  assumes "keepAsProposal E p l w s = (e, t)"
  shows "proposed t = proposed s \<or> proposed t = proposed s @ [rvUID l]"
    and "e = None \<Longrightarrow> offered t l"
proof -
  have old: "rvUID l \<in> set (proposed s)" if "list_ex (\<lambda>x. rvUID (prRev x) = rvUID l) (cProposals s)"
    using that by (auto simp: proposed_def list_ex_iff image_iff) (metis)
  have upd: "proposed (u\<lparr>cProposals := map (\<lambda>x. if c x then x\<lparr>prWinner := w\<rparr> else x) (cProposals s)\<rparr>) = proposed s" for u c
    by (auto simp: proposed_def)
  have new: "proposed (u\<lparr>cProposals := cProposals s @ [x]\<rparr>) = proposed s @ [rvUID (prRev x)]" for u x
    by (simp add: proposed_def)
  have tr: "proposed (s\<lparr>cTrace := x\<rparr>) = proposed s" for x by (simp add: proposed_def)
  have "(proposed t = proposed s \<or> proposed t = proposed s @ [rvUID l]) \<and> (e = None \<longrightarrow> offered t l)"
    using assms old
    by (auto simp: keepAsProposal_def cdo_def cperform_def offered_def upd new tr split: if_splits option.splits)
  then show "proposed t = proposed s \<or> proposed t = proposed s @ [rvUID l]" "e = None \<Longrightarrow> offered t l" by simp_all
qed

lemma keepAsProposal_stays: "keepAsProposal E p l w s = (e, t) \<Longrightarrow> offered s k \<Longrightarrow> offered t k"
  using keepAsProposal_uids(1) [of E p l w s e t] by (auto simp: offered_def)

lemma offered_same: "cProposals t = cProposals s \<Longrightarrow> offered t k = offered s k"
  by (simp add: offered_def proposed_def)

lemma keepIfOverruled_stays: "keepIfOverruled E p l r a s = (e, t) \<Longrightarrow> offered s k \<Longrightarrow> offered t k"
  by (auto simp: keepIfOverruled_def split: if_splits option.splits prod.splits
        dest!: cperform_keeps keepAsProposal_stays dest: offered_same [THEN iffD2])

lemma adopted_stays:
  assumes "adopted E p r local s = (None, t)"
  shows "\<exists>n. cLog t = cLog s @ [n] \<and> taken r n \<and> cProposals t = cProposals s"
proof -
  obtain s1 where a: "adoptRev E r local s = (None, s1)"
    and t: "t = closeConflict E p (res_id r) (setPeerStatus E (rvUID r) Adopted s1)"
    using assms by (auto simp: adopted_def split: prod.splits option.splits)
  from a have "\<exists>n. cLog s1 = cLog s @ [n] \<and> taken r n \<and> cProposals s1 = cProposals s"
    unfolding adoptRev_def by (rule insertRevision_cases) (auto simp: taken_def stamped_def resource_of_def)
  then show ?thesis by (simp add: t)
qed

lemma adopted_proposals: "adopted E p r local s = (e, t) \<Longrightarrow> cProposals t = cProposals s"
  unfolding adopted_def adoptRev_def
  by (auto split: prod.splits option.splits elim!: insertRevision_cases)

lemma latest_last: "res_id n = k \<Longrightarrow> latest (lg @ [n]) k = Some n"
  by (simp add: latest_def)

text \<open>The node whose version wins records the merge; the other one keeps its change and waits.\<close>

lemma settle_wins:
  assumes "settleConflict E p l r s = (None, t)" and "p \<noteq> ''git''" "cAuto E (cTrace s) (rsScope r)"
    and "DefaultWinner l r = WinnerLocal"
  shows "\<exists>m. cLog t = cLog s @ [m] \<and> merged l r m"
proof -
  obtain s1 where i: "insertRevision E (merge_revision l r) (Some l) s = (None, s1)"
    and t: "cLog t = cLog s1"
    using assms by (auto simp: settleConflict_def conflict_winner_def split: prod.splits option.splits)
  from i show ?thesis unfolding t by (rule insertRevision_cases) (auto simp: stamped_merge)
qed

lemma settle_loses:
  assumes "settleConflict E p l r s = (None, t)" and "p \<noteq> ''git''" "cAuto E (cTrace s) (rsScope r)"
    and "DefaultWinner l r = WinnerRemote"
  shows "cLog t = cLog s" and "offered t l"
proof -
  obtain s1 where k: "keepAsProposal E p l (rvUID r) s = (None, s1)" and o: "openConflict E p l r p s1 = (None, t)"
    using assms by (auto simp: settleConflict_def conflict_winner_def split: prod.splits option.splits)
  show "cLog t = cLog s" using keepAsProposal_keeps [OF k] openConflict_keeps [OF o] by simp
  show "offered t l" using keepAsProposal_uids(2) [OF k] offered_same [of t s1] openConflict_keeps [OF o] by simp
qed

text \<open>The merge reaches the losing node: it takes it over, whatever order the reads ran in.\<close>

definition may_apply :: "cenv \<Rightarrow> string \<Rightarrow> string list \<Rightarrow> revision \<Rightarrow> bool" where
  "may_apply E p imported m \<longleftrightarrow> (\<forall>tr. \<not> staleWriter E tr m \<and> cResult E tr (ApplyRemote p (resource_of m)) = None) \<and>
     (rsScope m = ScopeGroup \<longrightarrow> rsScopeID m = [] \<or> contains imported (rsScopeID m))"

lemma ahead_of_merge:
  assumes "map_of a (rvUID m) = Some (b, rvUID r)" and "rvUID m \<noteq> []" "rvUID r \<noteq> []"
    and "\<not> IsAncestor a (rvUID m) (rvUID r)"
  shows "Classify (Some r) (Some m) a \<in> {MergeRecord, MergeFastForward}"
proof -
  have "parent a (rvUID m) (rvUID r)" using assms(1,2) by (simp add: parent_def)
  then have "IsAncestor a (rvUID r) (rvUID m)" using assms(2,3) by (simp add: IsAncestor_iff r_into_rtranclp)
  moreover have "rvUID r \<noteq> rvUID m" using assms by (metis IsAncestor_iff rtranclp.rtrancl_refl)
  ultimately show ?thesis using assms(4) by (simp add: Classify_def Let_def)
qed

lemma fast_forward_takes:
  assumes "fast_forward E p imported a (Some r) m s = ((None, x), t)" and "may_apply E p imported m"
  shows "\<exists>n. cLog t = cLog s @ [n] \<and> taken m n" and "offered s k \<Longrightarrow> offered t k"
    and "keepIfOverruled E p r m a s = (None, s1) \<Longrightarrow> offered s1 k \<Longrightarrow> offered t k"
proof -
  obtain s2 where k: "keepIfOverruled E p r m a s = (None, s2)"
    using assms by (auto simp: fast_forward_def may_apply_def split: prod.splits option.splits if_splits)
  let ?s3 = "s2\<lparr>cTrace := cTrace s2 @ [ApplyRemote p (resource_of m)]\<rparr>"
  obtain s4 where a: "adopted E p m (Some r) ?s3 = (None, s4)"
    and t: "cLog t = cLog s4" "cProposals t = cProposals s4"
    using assms k
    by (auto simp: fast_forward_def may_apply_def cperform_def split: prod.splits option.splits if_splits)
  show "\<exists>n. cLog t = cLog s @ [n] \<and> taken m n"
    using adopted_stays [OF a] keepIfOverruled_keeps [OF k] t by auto
  have "cProposals t = cProposals s2" using adopted_stays [OF a] t by auto
  then have stays: "offered s2 k \<Longrightarrow> offered t k" using offered_same [of t s2] by simp
  then show "offered s k \<Longrightarrow> offered t k" using keepIfOverruled_stays [OF k] by simp
  show "keepIfOverruled E p r m a s = (None, s1) \<Longrightarrow> offered s1 k \<Longrightarrow> offered t k" using k stays by simp
qed

lemma merge_head_takes:
  assumes "merge_head E p imported a (Some r) m s = ((None, x), t)" and "may_apply E p imported m"
    and "Classify (Some r) (Some m) a \<in> {MergeRecord, MergeFastForward}"
  shows "\<exists>n. cLog t = cLog s @ [n] \<and> taken m n" and "offered s k \<Longrightarrow> offered t k"
proof -
  have "(\<exists>n. cLog t = cLog s @ [n] \<and> taken m n) \<and> (offered s k \<longrightarrow> offered t k)"
  proof (cases "Classify (Some r) (Some m) a = MergeRecord")
    case True
    then have "adopted E p m (Some r) s = (None, t)"
      using assms by (auto simp: merge_head_def may_apply_def split: prod.splits)
    from adopted_stays [OF this] show ?thesis using offered_same [of t s] by auto
  next
    case False
    then have "fast_forward E p imported a (Some r) m s = ((None, x), t)"
      using assms by (auto simp: merge_head_def may_apply_def)
    then show ?thesis using fast_forward_takes [OF _ assms(2)] by blast
  qed
  then show "\<exists>n. cLog t = cLog s @ [n] \<and> taken m n" "offered s k \<Longrightarrow> offered t k" by simp_all
qed

text \<open>
  C9. Two nodes changed a resource apart and the default rule gives the first node the win. The first
  one records the merge of both versions, the second one keeps its head and its change as a proposal.
  Once the second one has received that merge and may apply it, both have a head of the same identity
  and the winner's payload, and the second node's change is still among its proposals.
\<close>

theorem conflict_converges:
  assumes win: "DefaultWinner l r = WinnerLocal" and same: "res_id l = res_id r"
    and peers: "pA \<noteq> ''git''" "pB \<noteq> ''git''" "cAuto EA (cTrace sA) (rsScope r)" "cAuto EB (cTrace sB) (rsScope l)"
    and A: "settleConflict EA pB l r sA = (None, tA)" and B: "settleConflict EB pA r l sB = (None, tB)"
    and m: "latest (cLog tA) (res_id l) = Some m" "rvUID m \<noteq> []" "rvUID r \<noteq> []"
    and a: "map_of a (rvUID m) = Some (rvBase m, rvMerge m)" "\<not> IsAncestor a (rvUID m) (rvUID r)"
    and merge: "merge_head EB pA imported a (Some r) m tB = ((None, x), uB)" "may_apply EB pA imported m"
  shows "\<exists>n. latest (cLog uB) (res_id l) = Some n \<and> rvUID n = rvUID m \<and> rsPayload n = rsPayload l \<and>
           rsPayload m = rsPayload l \<and> rvBase m = rvUID l \<and> rvMerge m = rvUID r \<and> offered uB r"
proof -
  obtain m' where m': "cLog tA = cLog sA @ [m']" "merged l r m'" using settle_wins [OF A peers(2,3) win] by blast
  then have mm: "m = m'" using m(1) latest_last [of m' "res_id l"] by (auto simp: merged_def)
  have lose: "DefaultWinner r l = WinnerRemote" using win DefaultWinner_mirror [of l r] by simp
  have "map_of a (rvUID m) = Some (rvBase m, rvUID r)" using a(1) m'(2) mm by (simp add: merged_def)
  note cl = ahead_of_merge [OF this m(2,3) a(2)]
  obtain n where n: "cLog uB = cLog tB @ [n]" "taken m n" using merge_head_takes(1) [OF merge cl] by blast
  have "offered uB r" by (rule merge_head_takes(2) [OF merge cl settle_loses(2) [OF B peers(1,4) lose]])
  moreover have "resource_of n = resource_of m" "rvUID n = rvUID m" using n(2) m(2) by (simp_all add: taken_def)
  moreover have "res_id n = res_id l" using res_id_resource [OF calculation(2)] m'(2) mm by (simp add: merged_def)
  ultimately show ?thesis
    using n latest_last [of n "res_id l" "cLog tB"] m'(2) mm by (auto simp: merged_def resource_of_def)
qed

text \<open>
  The other order: the first node settles before the second has seen the conflict. The walk finds the
  merge first, and the overruled change becomes a proposal before anything is applied.
\<close>

lemma overruling_merge:
  assumes "map_of a um = Some (ul, ur)" and "um \<noteq> []" "um \<noteq> ur" "ul \<noteq> ur" "ul \<noteq> []"
  shows "overruling a ur [] [um] = Some ul"
  using assms by (auto simp: overruling.simps Let_def)

text \<open>
  When a node is brought forward over a merge in which the default rule decided against its own
  version, its version is among its proposals whenever its head has changed: a change is never replaced
  without a trace, provided the version that won was received.
\<close>

theorem overruled_is_offered:
  assumes "map_of a (rvUID m) = Some (rvUID l, rvUID r)" and "rvUID m \<noteq> []" "rvUID r \<noteq> []" "rvUID l \<noteq> []" "rvUID l \<noteq> rvUID r"
    and "\<not> IsAncestor a (rvUID m) (rvUID r)" and "p \<noteq> ''git''" "cAuto E (cTrace s) (rsScope r)"
    and "peerRevisionByUID s (rvUID l) = Some l" and "DefaultWinner r l = WinnerRemote"
    and "rsPayload m \<noteq> rsPayload r"
    and "merge_head E p imported a (Some r) m s = ((e, x), t)" and "cLog t \<noteq> cLog s"
  shows "offered t r"
proof -
  have "rvUID m \<noteq> rvUID r" using assms(2,3,6) by (auto simp: IsAncestor_iff)
  note o = overruling_merge [OF assms(1,2) this assms(5,4)]
  have "Classify (Some r) (Some m) a = MergeFastForward"
    using ahead_of_merge [OF assms(1,2,3,6)] assms(11)
    by (auto simp: Classify_def Let_def samePayload_def split: if_splits)
  moreover have "\<not> staleWriter E (cTrace s) m"
    using assms(12,13) calculation by (auto simp: merge_head_def split: if_splits)
  ultimately have ff: "fast_forward E p imported a (Some r) m s = ((e, x), t)" using assms(12) by (simp add: merge_head_def)
  obtain e1 s1 where k: "keepIfOverruled E p r m a s = (e1, s1)" by force
  have keep: "cLog s1 = cLog s" using keepIfOverruled_keeps [OF k] by simp
  have none: "e1 = None" using ff assms(13) k keep by (auto simp: fast_forward_def split: if_splits option.splits)
  have "\<exists>s2. keepAsProposal E p r (rvUID l) s2 = (None, s1)"
    using k none assms(7-10) o
    by (auto simp: keepIfOverruled_def peerRevisionByUID_def cperform_def split: if_splits option.splits)
  then have off: "offered s1 r" using keepAsProposal_uids(2) by blast
  have "cProposals t = cProposals s1"
    using ff k none assms(13) keep
    by (auto simp: fast_forward_def split: if_splits option.splits prod.splits cerr.splits
          dest!: cperform_keeps adopted_proposals)
  then show ?thesis using off by (simp add: offered_def proposed_def)
qed

section \<open>Equal states\<close>

text \<open>
  When both nodes reached the same state on their own, exactly one of them records the merge that
  joins the two histories (the one with the lower id), so the histories are not merged twice and crosswise.
\<close>

theorem converge_once:
  assumes "cSelf EA = idA" "cSelf EB = idB" "idA \<noteq> idB"
    and "converge EA idB l r sA = (None, tA)" and "converge EB idA r l sB = (None, tB)"
  shows "(cLog tA = cLog sA) \<noteq> (cLog tB = cLog sB) \<and>
         (idA < idB \<longrightarrow> (\<exists>m. cLog tA = cLog sA @ [m] \<and> merged l r m)) \<and>
         (idB < idA \<longrightarrow> (\<exists>m. cLog tB = cLog sB @ [m] \<and> merged r l m))"
proof -
  have one: "if p < cSelf E then cLog t = cLog s else \<exists>m. cLog t = cLog s @ [m] \<and> merged l' r' m"
    if "converge E p l' r' s = (None, t)" for E p l' r' s t
    using that unfolding converge_def
    by (auto split: prod.splits option.splits elim!: insertRevision_cases simp: stamped_merge)
  show ?thesis
    using one [OF assms(4)] one [OF assms(5)] assms(1-3) linorder_less_linear [of idA idB]
    by (auto split: if_splits dest: order.asym)
qed

section \<open>A revision of the fleet or the repository that passes through a peer\<close>

text \<open>
  C39. A revision that keeps the origin \<open>git\<close> or \<open>overlay\<close> on every node and was written without authority
  (0) is not taken over as it was written: the node that adopts it stores it under its own epoch or
  coordinator term. The same revision then carries different authority on two nodes.
\<close>

theorem adopt_restamps:
  assumes "adoptRev E r local s = (None, t)" and "rvOrigin r \<in> {''git'', ''overlay''}" and "rvEpoch r = 0" "rvUID r \<noteq> []"
  shows "\<exists>n. cLog t = cLog s @ [n] \<and> rvUID n = rvUID r \<and> rvEpoch n = epochFor E (cTrace s) (rsScope r) (rsScopeID r)"
  using assms unfolding adoptRev_def
  by (auto elim!: insertRevision_cases simp: stamped_def)

section \<open>What reaches the live system\<close>

text \<open>An extension of the call trace in which every remote version applied meets a condition.\<close>

definition quiet :: "ccall \<Rightarrow> bool" where
  "quiet c \<longleftrightarrow> (\<forall>p r. c \<noteq> ApplyRemote p r)"

definition extends :: "(ccall list \<Rightarrow> string \<Rightarrow> resource \<Rightarrow> bool) \<Rightarrow> csync \<Rightarrow> csync \<Rightarrow> bool" where
  "extends Q s t \<longleftrightarrow>
     (\<exists>tr. cTrace t = cTrace s @ tr \<and> (\<forall>u p r v. tr = u @ ApplyRemote p r # v \<longrightarrow> Q (cTrace s @ u) p r))"

definition silent :: "csync \<Rightarrow> csync \<Rightarrow> bool" where
  "silent s t \<longleftrightarrow> (\<exists>tr. cTrace t = cTrace s @ tr \<and> list_all quiet tr)"

lemma silent_extends: "silent s t \<Longrightarrow> extends Q s t"
  by (auto simp: silent_def extends_def quiet_def)

lemma silent_refl: "cTrace t = cTrace s \<Longrightarrow> silent s t"
  by (simp add: silent_def)

lemma silent_trans: "silent s t \<Longrightarrow> silent t u \<Longrightarrow> silent s u"
  by (force simp: silent_def)

lemma extends_trans:
  assumes "extends Q s t" and "extends Q t w"
  shows "extends Q s w"
proof -
  obtain x where x: "cTrace t = cTrace s @ x" "\<And>u p r v. x = u @ ApplyRemote p r # v \<Longrightarrow> Q (cTrace s @ u) p r"
    using assms(1) by (auto simp: extends_def)
  obtain y where y: "cTrace w = cTrace t @ y" "\<And>u p r v. y = u @ ApplyRemote p r # v \<Longrightarrow> Q (cTrace t @ u) p r"
    using assms(2) by (auto simp: extends_def)
  have "Q (cTrace s @ u) p r" if e: "x @ y = u @ ApplyRemote p r # v" for u p r v
  proof (cases "length u < length x")
    case True
    then have "u = take (length u) x" using e by (metis append_eq_append_conv_if less_imp_le_nat not_le)
    moreover have "x ! length u = ApplyRemote p r" using e True by (metis nth_append nth_append_length)
    ultimately have "x = u @ ApplyRemote p r # drop (Suc (length u)) x" using True by (metis id_take_nth_drop)
    then show ?thesis by (rule x(2))
  next
    case False
    then obtain u' where u': "u = x @ u'" "y = u' @ ApplyRemote p r # v"
      using e by (auto simp: append_eq_append_conv2 Cons_eq_append_conv)
    then show ?thesis using y(2) [OF u'(2)] by (simp add: x(1))
  qed
  then show ?thesis by (auto simp: extends_def x(1) y(1))
qed

lemma silent_cperform: "cperform E c s = (e, t) \<Longrightarrow> quiet c \<Longrightarrow> silent s t"
  by (auto simp: cperform_def silent_def)

lemma silent_cdo: "cdo E c f s = (e, t) \<Longrightarrow> quiet c \<Longrightarrow> (\<And>u. cTrace (f u) = cTrace u) \<Longrightarrow> silent s t"
  by (auto simp: cdo_def cperform_def silent_def split: option.splits)

lemma quiet_simps [simp]:
  "quiet ReadLive" "quiet ReadLog" "quiet ReadHeads" "quiet ReadAncestry" "quiet ReadNodeID" "quiet (ReadPeerRev u)"
  "quiet (RecordTx cs)" "quiet (Insert r)" "quiet (SetStatus u st)" "quiet (CloseConflict p k)" "quiet (KeepProposal p r u)"
  "quiet (OpenConflict p k u v w)" "quiet (SupersedePending p)" "quiet CommitAll"
  "quiet (ReadConflict i)" "quiet (CountConflicts k)" "quiet (ReadProposal i)" "quiet LoadPeers" "quiet (ResolveConflict i)" "quiet (DropProposal u)"
  "quiet (CloseProposal i)" "quiet (StoreRev p r)"
  by (simp_all add: quiet_def)

named_theorems silent_intros \<open>operations that apply nothing to the live system\<close>

lemma silent_setPeerStatus [simp]: "silent s (setPeerStatus E uid st s)"
  by (auto simp: setPeerStatus_def cdo_def cperform_def silent_def split: option.splits)

lemma silent_closeConflict [simp]: "silent s (closeConflict E p k s)"
  by (auto simp: closeConflict_def cdo_def cperform_def silent_def split: option.splits)

lemma silent_close_set [simp]: "silent s (closeConflict E p k (setPeerStatus E uid st s))"
  by (rule silent_trans [OF silent_setPeerStatus silent_closeConflict])

lemma silent_insert [silent_intros]: "insertRevision E r local s = (e, t) \<Longrightarrow> silent s t"
  by (auto simp: insertRevision_def Let_def split: if_splits intro: silent_refl silent_cdo)

lemma silent_keep [silent_intros]: "keepAsProposal E p l w s = (e, t) \<Longrightarrow> silent s t"
  unfolding keepAsProposal_def by (erule silent_cdo) auto

lemma silent_open [silent_intros]: "openConflict E p l r x s = (e, t) \<Longrightarrow> silent s t"
  unfolding openConflict_def
  by (auto split: prod.splits option.splits intro: silent_cdo silent_trans [OF silent_cdo silent_setPeerStatus])

lemma silent_adopt [silent_intros]: "adopted E p r local s = (e, t) \<Longrightarrow> silent s t"
  unfolding adopted_def adoptRev_def
  by (auto split: prod.splits option.splits intro: silent_insert silent_trans [OF silent_insert silent_close_set])

lemma silent_settle [silent_intros]: "settleConflict E p l r s = (e, t) \<Longrightarrow> silent s t"
  unfolding settleConflict_def
  by (auto split: winner.splits prod.splits option.splits
        intro: silent_open silent_keep silent_insert silent_trans [OF silent_insert silent_close_set] silent_trans [OF silent_keep silent_open])

lemma silent_converge [silent_intros]: "converge E p l r s = (e, t) \<Longrightarrow> silent s t"
  unfolding converge_def
  by (auto split: if_splits prod.splits option.splits intro: silent_insert silent_trans [OF silent_insert silent_close_set])

lemma silent_overruled [silent_intros]: "keepIfOverruled E p l r a s = (e, t) \<Longrightarrow> silent s t"
  unfolding keepIfOverruled_def
  by (auto split: if_splits option.splits prod.splits
        intro: silent_refl silent_cperform silent_trans [OF silent_cperform silent_keep])

lemma silent_record [silent_intros]: "record_changes E cs origin s = (e, t) \<Longrightarrow> silent s t"
  unfolding record_changes_def by (auto split: if_splits intro: silent_refl silent_cdo)

lemma silent_capture [silent_intros]:
  assumes "captureLocked E origin s = (e, t)"
  shows "silent s t"
proof -
  have r: "silent s s1" if "cperform E ReadLive s = (e1, s1)" for e1 s1 by (rule silent_cperform [OF that]) simp
  have l: "silent s1 s2" if "cperform E ReadLog s1 = (e2, s2)" for s1 e2 s2 by (rule silent_cperform [OF that]) simp
  show ?thesis
    using assms by (auto simp: captureLocked_def split: prod.splits option.splits intro: r silent_trans [OF r l]
        silent_trans [OF silent_trans [OF r l] silent_record])
qed

lemma silent_reads: "cperform_all E as s = (e, t) \<Longrightarrow> list_all quiet as \<Longrightarrow> silent s t"
proof (induction as arbitrary: s)
  case (Cons a as)
  obtain e1 s1 where c: "cperform E a s = (e1, s1)" by force
  have "silent s s1" by (rule silent_cperform [OF c]) (use Cons.prems in simp)
  then show ?case using Cons c by (cases e1) (auto intro: silent_trans)
qed (simp add: silent_refl)

lemma silent_supersede [silent_intros]: "supersede_pending E p s = (e, t) \<Longrightarrow> silent s t"
  unfolding supersede_pending_def by (erule silent_cdo) auto

text \<open>A version may be applied: the peer's newest, ahead of this node's, in view and not a former owner's.\<close>

definition permitted ::
  "cenv \<Rightarrow> string \<Rightarrow> string list \<Rightarrow> ancestry \<Rightarrow> (string \<times> string \<Rightarrow> revision option) \<Rightarrow> peer_rev list \<Rightarrow>
   ccall list \<Rightarrow> string \<Rightarrow> resource \<Rightarrow> bool" where
  "permitted E p imported a lt hs tr q res \<longleftrightarrow> q = p \<and>
     (\<exists>h \<in> set hs. res = resource_of (pvRev h) \<and> Classify (lt (res_id (pvRev h))) (Some (pvRev h)) a = MergeFastForward \<and>
        (rsScope (pvRev h) = ScopeGroup \<longrightarrow> rsScopeID (pvRev h) = [] \<or> contains imported (rsScopeID (pvRev h))) \<and>
        (\<exists>u v. tr = u @ v \<and> list_all quiet v \<and> \<not> staleWriter E u (pvRev h)))"

lemma merge_head_permitted:
  assumes "merge_head E p imported a (lt (res_id (pvRev h))) (pvRev h) s = ((e, x), t)" and h: "h \<in> set hs"
  shows "extends (permitted E p imported a lt hs) s t"
proof -
  let ?r = "pvRev h" and ?l = "lt (res_id (pvRev h))"
  show ?thesis
  proof (cases "\<not> staleWriter E (cTrace s) ?r \<and> Classify ?l (Some ?r) a = MergeFastForward")
    case False
    then show ?thesis
      using assms(1)
      by (intro silent_extends)
        (auto simp: merge_head_def Let_def split: if_splits prod.splits merge_action.splits intro: silent_intros)
  next
    case True
    then have ff: "fast_forward E p imported a ?l ?r s = ((e, x), t)" using assms(1) by (simp add: merge_head_def)
    obtain e1 s1 where k: "(case ?l of None \<Rightarrow> (None, s) | Some l \<Rightarrow> keepIfOverruled E p l ?r a s) = (e1, s1)" by force
    have q1: "silent s s1" using k by (auto split: option.splits intro: silent_refl silent_overruled)
    then obtain v where v: "cTrace s1 = cTrace s @ v" "list_all quiet v" by (auto simp: silent_def)
    let ?s2 = "s1\<lparr>cTrace := cTrace s1 @ [ApplyRemote p (resource_of ?r)]\<rparr>"
    consider (out) "silent s t"
      | (applies) "rsScope ?r = ScopeGroup \<longrightarrow> rsScopeID ?r = [] \<or> contains imported (rsScopeID ?r)" "silent ?s2 t"
    proof (cases "rsScope ?r = ScopeGroup \<and> rsScopeID ?r \<noteq> [] \<and> \<not> contains imported (rsScopeID ?r) \<or> e1 \<noteq> None")
      case True
      then have "silent s t" using ff k q1 by (auto simp: fast_forward_def split: if_splits)
      then show ?thesis by (rule that(1))
    next
      case False
      then have ff2: "(case (cResult E (cTrace s1) (ApplyRemote p (resource_of ?r)), ?s2) of
             (Some SecretChanged, s2) \<Rightarrow> ((None, False), setPeerStatus E (rvUID ?r) Waiting s2)
           | (Some MaterialUnavailable, s2) \<Rightarrow> ((None, False), setPeerStatus E (rvUID ?r) Waiting s2)
           | (Some e, s2) \<Rightarrow> ((None, False), setPeerStatus E (rvUID ?r) Blocked s2)
           | (None, s2) \<Rightarrow>
               (case adopted E p ?r ?l s2 of
                  (Some e, s3) \<Rightarrow> ((Some e, False), s3)
                | (None, s3) \<Rightarrow> (case cperform E ReadLive s3 of (e, s4) \<Rightarrow> ((e, True), s4)))) = ((e, x), t)"
        using ff k by (auto simp: fast_forward_def cperform_def split: if_splits)
      obtain e3 s3 where ad: "adopted E p ?r ?l ?s2 = (e3, s3)" by force
      have "silent ?s2 t"
      proof (cases "cResult E (cTrace s1) (ApplyRemote p (resource_of ?r))")
        case None
        then show ?thesis
          using ff2 ad silent_adopt [OF ad] silent_trans [OF silent_adopt [OF ad] silent_cperform [of E ReadLive s3 e t]]
          by (cases e3) (auto split: prod.splits)
      next
        case (Some er)
        then show ?thesis using ff2 by (cases er) auto
      qed
      then show ?thesis using False by (intro that(2)) auto
    qed
    then show ?thesis
    proof cases
      case out
      then show ?thesis by (rule silent_extends)
    next
      case applies
      have "permitted E p imported a lt hs (cTrace s1) p (resource_of ?r)"
        using True h v applies(1) by (auto simp: permitted_def)
      then have "extends (permitted E p imported a lt hs) s1 ?s2"
        by (auto simp: extends_def Cons_eq_append_conv)
      then show ?thesis
        using silent_extends [OF q1] silent_extends [OF applies(2)] by (blast intro: extends_trans)
    qed
  qed
qed

lemma merge_heads_permitted:
  "merge_heads E p imported a lt xs s = ((e, x), t) \<Longrightarrow> set xs \<subseteq> set hs \<Longrightarrow> extends (permitted E p imported a lt hs) s t"
proof (induction xs arbitrary: s e x t)
  case Nil
  then show ?case by (auto intro: silent_extends silent_refl)
next
  case (Cons h xs)
  show ?case
  proof (cases "pvStatus h = Adopted \<or> pvStatus h = Superseded")
    case True
    then show ?thesis using Cons.IH [of s e x t] Cons.prems by simp
  next
    case False
    obtain e1 x1 s1 where m: "merge_head E p imported a (lt (res_id (pvRev h))) (pvRev h) s = ((e1, x1), s1)"
      by (metis prod.exhaust)
    have ext: "extends (permitted E p imported a lt hs) s s1"
      by (rule merge_head_permitted [where lt = lt and h = h, OF m]) (use Cons.prems(2) in simp)
    obtain e2 x2 s2 where r: "merge_heads E p imported a lt xs s1 = ((e2, x2), s2)" by (metis prod.exhaust)
    then show ?thesis
      using Cons.prems False m ext extends_trans [OF ext Cons.IH [OF r]] by (cases e1) auto
  qed
qed

text \<open>
  C16. While a node evaluates what a peer sent (without the operator: resolving a conflict and applying a proposal are
  separate), the live system is changed only for a peer's newest version of a resource that is ahead of this node's
  head, never over a change this node made on its own; on a pool in view; and, if the version is stamped with an
  epoch of the pool's group, not below the epoch this node knows at that moment (a version without a stamp passes).
  Nothing is applied when recording this node's own state failed.
\<close>

theorem evaluate_applies:
  assumes "evaluate E p s = (e, t)" and "cTrace t = cTrace s @ u @ ApplyRemote q res # v"
  shows "\<exists>s1. captureLocked E ''detected'' s = (None, s1) \<and>
           permitted E p (cPools E (cTrace s1 @ [ReadHeads, ReadLog, ReadAncestry])) (loadAncestry s1) (latest (cLog s1))
             (peer_heads s1 p) (cTrace s @ u) q res"
proof -
  have no: "\<not> silent s t" using assms(2) by (auto simp: silent_def quiet_def)
  then have busy: "\<not> cBusy E (cTrace s)" using assms(1) silent_refl [of s s] by (auto simp: evaluate_def)
  obtain e1 s1 where c: "captureLocked E ''detected'' s = (e1, s1)" by force
  note q1 = silent_capture [OF c]
  have n1: "e1 = None" using assms(1) busy c q1 no by (cases e1) (auto simp: evaluate_def)
  let ?reads = "[ReadHeads, ReadLog, ReadAncestry, ReadLive, ReadNodeID]"
  obtain e2 s2 where r: "cperform_all E ?reads s1 = (e2, s2)" by (metis prod.exhaust)
  have q2: "silent s s2" by (rule silent_trans [OF q1 silent_reads [OF r]]) simp
  have n2: "e2 = None" using assms(1) busy c n1 r q2 no by (cases e2) (auto simp: evaluate_def simp del: cperform_all.simps)
  let ?im = "cPools E (cTrace s1 @ [ReadHeads, ReadLog, ReadAncestry])"
  let ?Q = "permitted E p ?im (loadAncestry s1) (latest (cLog s1)) (peer_heads s1 p)"
  obtain e3 x s3 where m: "merge_heads E p ?im (loadAncestry s1) (latest (cLog s1)) (peer_heads s1 p) s2 = ((e3, x), s3)"
    by (metis prod.exhaust)
  have q3: "extends ?Q s s3"
    by (rule extends_trans [OF silent_extends [OF q2] merge_heads_permitted [OF m order.refl]])
  have fin: "silent s3 (snd (cperform E CommitAll s4))" if "silent s3 s4" for s4
    by (rule silent_trans [OF that silent_cperform [of E CommitAll s4 "fst (cperform E CommitAll s4)"]]) simp_all
  have "silent s3 t"
    using assms(1) busy c n1 r n2 m silent_supersede [of E p s3] fin
    by (auto simp: evaluate_def silent_refl simp del: cperform_all.simps split: option.splits prod.splits if_splits)
  then have "extends ?Q s t" using extends_trans [OF q3 silent_extends] by blast
  then have "?Q (cTrace s @ u) q res" using assms(2) by (auto simp: extends_def)
  then show ?thesis using c n1 by auto
qed

section \<open>A run\<close>

text \<open>Two nodes hold version \<open>1\<close> of a dataset; the peer has made version \<open>2\<close> on top of it.\<close>

definition sample_cenv :: "string \<Rightarrow> cenv" where
  "sample_cenv self =
     \<lparr>cResult = \<lambda>tr c. None, cLive = \<lambda>tr. [resource_of (sample_rev ''1'' [] [] 2 ''x'')], cPools = \<lambda>tr. [''tank''],
      cUID = \<lambda>tr i. ''u'' @ show_nat (length tr + i), cEpochPool = \<lambda>tr p. 2, cTerm = \<lambda>tr. 1, cAuto = \<lambda>tr sc. True,
      cBusy = \<lambda>tr. False, cWriter = \<lambda>tr. True, cUsers = \<lambda>tr. [], cEdited = \<lambda>r v. Inr v, cSelf = self, cNode = self\<rparr>"

definition sample_csync :: "revision \<Rightarrow> revision list \<Rightarrow> csync" where
  "sample_csync l rs =
     \<lparr>cTrace = [], cLog = [l], cPeerRevs = map (\<lambda>r. \<lparr>pvRev = r, pvPeer = ''b'', pvStatus = Pending\<rparr>) rs,
      cProposals = [], cConflicts = []\<rparr>"

lemmas sample_sync_defs = sample_cenv_def sample_csync_def sample_rev_def

lemma evaluate_descends_witness:
  "\<exists>n. latest (cLog (snd (evaluate (sample_cenv ''a'') ''b'' (sample_csync (sample_rev ''1'' [] [] 2 ''x'') [sample_rev ''2'' ''1'' [] 2 ''y'']))))
          (''dataset'', ''tank/d'') = Some n \<and> rvUID n = ''2''"
proof -
  let ?s = "sample_csync (sample_rev ''1'' [] [] 2 ''x'') [sample_rev ''2'' ''1'' [] 2 ''y'']"
  let ?t = "snd (evaluate (sample_cenv ''a'') ''b'' ?s)"
  have e: "evaluate (sample_cenv ''a'') ''b'' ?s = (fst (evaluate (sample_cenv ''a'') ''b'' ?s), ?t)" by simp
  have l: "latest (cLog ?s) (''dataset'', ''tank/d'') = Some (sample_rev ''1'' [] [] 2 ''x'')" by code_simp
  obtain n where n: "latest (cLog ?t) (''dataset'', ''tank/d'') = Some n"
    using evaluate_descends [OF e l] by blast
  moreover have "map_option rvUID (latest (cLog ?t) (''dataset'', ''tank/d'')) = Some ''2''" by code_simp
  ultimately show ?thesis by simp
qed

lemma evaluate_applies_witness:
  "\<exists>s1. captureLocked (sample_cenv ''a'') ''detected''
     (sample_csync (sample_rev ''1'' [] [] 2 ''x'') [sample_rev ''2'' ''1'' [] 2 ''y'']) = (None, s1)"
proof -
  let ?s = "sample_csync (sample_rev ''1'' [] [] 2 ''x'') [sample_rev ''2'' ''1'' [] 2 ''y'']"
  let ?t = "snd (evaluate (sample_cenv ''a'') ''b'' ?s)"
  let ?res = "resource_of (sample_rev ''2'' ''1'' [] 2 ''y'')"
  have e: "evaluate (sample_cenv ''a'') ''b'' ?s = (fst (evaluate (sample_cenv ''a'') ''b'' ?s), ?t)" by simp
  have "cTrace ?t ! 7 = ApplyRemote ''b'' ?res \<and> length (cTrace ?t) = 14" by code_simp
  then have "cTrace ?t = cTrace ?s @ take 7 (cTrace ?t) @ ApplyRemote ''b'' ?res # drop 8 (cTrace ?t)"
    using id_take_nth_drop [of 7 "cTrace ?t"] by (simp add: sample_csync_def)
  from evaluate_applies [OF e this] show ?thesis by blast
qed

lemma adopt_restamps_witness:
  "\<exists>n. cLog (snd (adoptRev (sample_cenv ''a'') ((sample_rev ''2'' ''1'' [] 0 ''y'')\<lparr>rvOrigin := ''overlay'', rsScope := ScopeCluster\<rparr>)
          None (sample_csync (sample_rev ''1'' [] [] 2 ''x'') []))) = [sample_rev ''1'' [] [] 2 ''x''] @ [n] \<and>
        rvUID n = ''2'' \<and> rvEpoch n = 1"
proof -
  let ?E = "sample_cenv ''a''" and ?s = "sample_csync (sample_rev ''1'' [] [] 2 ''x'') []"
  let ?r = "(sample_rev ''2'' ''1'' [] 0 ''y'')\<lparr>rvOrigin := ''overlay'', rsScope := ScopeCluster\<rparr>"
  have "fst (adoptRev ?E ?r None ?s) = None" by code_simp
  then have e: "adoptRev ?E ?r None ?s = (None, snd (adoptRev ?E ?r None ?s))" by (metis prod.collapse)
  have "\<exists>n. cLog (snd (adoptRev ?E ?r None ?s)) = cLog ?s @ [n] \<and> rvUID n = rvUID ?r \<and>
          rvEpoch n = epochFor ?E (cTrace ?s) (rsScope ?r) (rsScopeID ?r)"
    by (rule adopt_restamps [OF e]) (simp_all add: sample_rev_def)
  then show ?thesis by (simp add: sample_sync_defs epochFor_def)
qed

lemma converge_once_witness:
  "cLog (snd (converge (sample_cenv ''a'') ''b'' (sample_rev ''1'' [] [] 2 ''x'') (sample_rev ''2'' [] [] 2 ''x'')
     (sample_csync (sample_rev ''1'' [] [] 2 ''x'') []))) \<noteq> [sample_rev ''1'' [] [] 2 ''x'']"
proof -
  let ?l = "sample_rev ''1'' [] [] 2 ''x''" and ?r = "sample_rev ''2'' [] [] 2 ''x''"
  let ?A = "converge (sample_cenv ''a'') ''b'' ?l ?r (sample_csync ?l [])"
  let ?B = "converge (sample_cenv ''b'') ''a'' ?r ?l (sample_csync ?r [])"
  have "fst ?A = None \<and> fst ?B = None" by code_simp
  then have a: "?A = (None, snd ?A)" and b: "?B = (None, snd ?B)" by (metis prod.collapse)+
  have "''a'' < (''b'' :: string)" by code_simp
  then show ?thesis
    using converge_once [where idA = "''a''" and idB = "''b''", OF _ _ _ a b] by (auto simp: sample_sync_defs)
qed

text \<open>Both sides of a conflict: node \<open>a\<close> owns the group (epoch 2), node \<open>b\<close> wrote under epoch 1.\<close>

definition sample_owner :: revision where "sample_owner = sample_rev ''1'' [] [] 2 ''x''"
definition sample_other :: revision where "sample_other = sample_rev ''2'' [] [] 1 ''y''"

definition sample_parents :: ancestry where
  "sample_parents = [(''u0'', ''1'', ''2''), (''1'', [], []), (''2'', [], [])]"

definition sample_merge :: revision where
  "sample_merge = stamped (sample_cenv ''a'') (merge_revision sample_owner sample_other) (Some sample_owner) (sample_csync sample_owner [])"

definition sample_settled :: "cerr option \<times> csync" where
  "sample_settled = settleConflict (sample_cenv ''b'') ''a'' sample_other sample_owner (sample_csync sample_other [])"

definition sample_followed :: head_result where
  "sample_followed = merge_head (sample_cenv ''b'') ''a'' [''tank''] sample_parents (Some sample_other) sample_merge (snd sample_settled)"

lemma sample_may: "may_apply (sample_cenv b) ''a'' [''tank''] sample_merge"
proof -
  have "rvEpoch sample_merge = 2" "rsScopeID sample_merge = ''tank''" by code_simp+
  then show ?thesis by (simp add: may_apply_def staleWriter_def epochFor_def sample_cenv_def)
qed

lemma conflict_converges_witness:
  "\<exists>n. latest (cLog (snd sample_followed)) (''dataset'', ''tank/d'') = Some n \<and> rvUID n = ''u0'' \<and>
       rsPayload n = Some (JString ''x'') \<and> offered (snd sample_followed) sample_other"
proof -
  let ?A = "settleConflict (sample_cenv ''a'') ''b'' sample_owner sample_other (sample_csync sample_owner [])"
  have "fst ?A = None \<and> fst sample_settled = None \<and> fst (fst sample_followed) = None" by code_simp
  then have A: "?A = (None, snd ?A)"
    and B: "settleConflict (sample_cenv ''b'') ''a'' sample_other sample_owner (sample_csync sample_other []) = (None, snd sample_settled)"
    and M: "merge_head (sample_cenv ''b'') ''a'' [''tank''] sample_parents (Some sample_other) sample_merge (snd sample_settled) =
        ((None, snd (fst sample_followed)), snd sample_followed)"
    unfolding sample_settled_def [symmetric] sample_followed_def [symmetric] by (metis prod.collapse)+
  have m: "rvUID sample_merge = ''u0''" "rsPayload sample_owner = Some (JString ''x'')" "res_id sample_owner = (''dataset'', ''tank/d'')"
    by code_simp+
  have l: "latest (cLog (snd ?A)) (res_id sample_owner) = Some sample_merge" by code_simp
  have w: "DefaultWinner sample_owner sample_other = WinnerLocal" "res_id sample_owner = res_id sample_other" by code_simp+
  have auto: "cAuto (sample_cenv ''a'') (cTrace (sample_csync sample_owner [])) (rsScope sample_other)"
    "cAuto (sample_cenv ''b'') (cTrace (sample_csync sample_other [])) (rsScope sample_owner)" by code_simp+
  have par: "map_of sample_parents (rvUID sample_merge) = Some (rvBase sample_merge, rvMerge sample_merge)"
    "\<not> IsAncestor sample_parents (rvUID sample_merge) (rvUID sample_other)" by code_simp+
  have ids: "rvUID sample_merge \<noteq> []" "rvUID sample_other \<noteq> []" by code_simp+
  have git: "''a'' \<noteq> ''git''" "''b'' \<noteq> ''git''" by simp_all
  from conflict_converges [OF w git auto A B l ids par M sample_may]
  show ?thesis unfolding m by blast
qed

lemma overruled_is_offered_witness:
  "offered (snd (merge_head (sample_cenv ''b'') ''a'' [''tank''] sample_parents (Some sample_other) sample_merge
     (sample_csync sample_other [sample_owner]))) sample_other"
proof -
  let ?s = "sample_csync sample_other [sample_owner]"
  let ?M = "merge_head (sample_cenv ''b'') ''a'' [''tank''] sample_parents (Some sample_other) sample_merge ?s"
  have M: "?M = ((fst (fst ?M), snd (fst ?M)), snd ?M)" by simp
  have new: "cLog (snd ?M) \<noteq> cLog ?s" by code_simp
  have a: "map_of sample_parents (rvUID sample_merge) = Some (rvUID sample_owner, rvUID sample_other)"
    and ids: "rvUID sample_merge \<noteq> []" "rvUID sample_other \<noteq> []" "rvUID sample_owner \<noteq> []" "rvUID sample_owner \<noteq> rvUID sample_other"
    and old: "\<not> IsAncestor sample_parents (rvUID sample_merge) (rvUID sample_other)"
    and git: "''a'' \<noteq> ''git''" and auto: "cAuto (sample_cenv ''b'') (cTrace ?s) (rsScope sample_other)"
    and got: "peerRevisionByUID ?s (rvUID sample_owner) = Some sample_owner"
    and lose: "DefaultWinner sample_other sample_owner = WinnerRemote"
    and diff: "rsPayload sample_merge \<noteq> rsPayload sample_other" by code_simp+
  show ?thesis by (rule overruled_is_offered [OF a ids old git auto got lose diff M new])
qed

end
