(* ===== verification/ConfigReview.thy ===== *)
theory ConfigReview
  imports ConfigHistory
begin

text \<open>
  What the operator does with conflicts and proposals (\<open>Resolve\<close> of \<open>internal/configstore/sync.go\<close>,
  \<open>ApplyProposal\<close> and \<open>DismissProposal\<close> of \<open>policy.go\<close>), and the history under every operation that
  changes it.

  The rows of conflicts and proposals are never deleted, so the id of a row is its position. Whether an
  edited version still describes the resource (\<open>Assemble\<close> and \<open>Extract\<close>) is an answer of the environment.
\<close>

section \<open>Resolving a conflict\<close>

datatype choice = ResolveLocal | ResolveRemote | ResolveMerged "json option" | OtherChoice string

definition open_conflict :: "nat \<Rightarrow> csync \<Rightarrow> conflict option" where
  "open_conflict i s = (if i < length (cConflicts s) \<and> cfOpen (cConflicts s ! i) then Some (cConflicts s ! i) else None)"

text \<open>The version the resource gets.\<close>

definition chosen :: "cenv \<Rightarrow> choice \<Rightarrow> resource \<Rightarrow> revision \<Rightarrow> cerr + resource" where
  "chosen E c target remote =
     (case c of
        ResolveLocal \<Rightarrow> Inr target
      | ResolveRemote \<Rightarrow> Inr (target\<lparr>rsPayload := rsPayload remote\<rparr>)
      | ResolveMerged v \<Rightarrow> (case cEdited E target v of Inl e \<Rightarrow> Inl e | Inr w \<Rightarrow> Inr (target\<lparr>rsPayload := w\<rparr>))
      | OtherChoice x \<Rightarrow> Inl BadChoice)"

definition apply_choice :: "cenv \<Rightarrow> choice \<Rightarrow> string \<Rightarrow> resource \<Rightarrow> csync \<Rightarrow> cerr option \<times> csync" where
  "apply_choice E c p target s =
     (if c = ResolveLocal then (None, s)
      else case cperform E ReadLive s of
        (Some e, s1) \<Rightarrow> (Some e, s1)
      | (None, s1) \<Rightarrow>
          (if rsScope target = ScopeGroup \<and> rsScopeID target \<noteq> [] \<and> \<not> contains (cPools E (cTrace s)) (rsScopeID target)
           then (Some (PoolNotImported (rsScopeID target)), s1)
           else cperform E (ApplyRemote p target) (snd (cperform E LoadPeers s1))))"

definition resolved_revision :: "revision \<Rightarrow> revision \<Rightarrow> resource \<Rightarrow> string \<times> string \<Rightarrow> string \<Rightarrow> revision" where
  "resolved_revision l remote target k author =
     \<lparr>rsKind = fst k, rsKey = snd k, rsScope = rsScope target, rsScopeID = rsScopeID target, rsPayload = rsPayload target,
      rvID = 0, rvBaseRow = None, rvUID = [], rvBase = rvUID l, rvMerge = rvUID remote, rvEpoch = 0, rvOrigin = ''merge'',
      rvNode = [], rvAuthor = author, rvNote = []\<rparr>"

definition close_conflict_row :: "cenv \<Rightarrow> nat \<Rightarrow> csync \<Rightarrow> cerr option \<times> csync" where
  "close_conflict_row E i s =
     cdo E (ResolveConflict i) (\<lambda>t. t\<lparr>cConflicts := (cConflicts t)[i := (cConflicts t ! i)\<lparr>cfOpen := False\<rparr>]\<rparr>) s"

definition dropProposal :: "cenv \<Rightarrow> string \<Rightarrow> csync \<Rightarrow> cerr option \<times> csync" where
  "dropProposal E uid s =
     cdo E (DropProposal uid)
       (\<lambda>t. t\<lparr>cProposals := map (\<lambda>x. if rvUID (prRev x) = uid \<and> prOpen x then x\<lparr>prOpen := False\<rparr> else x) (cProposals t)\<rparr>) s"

definition finish_resolve :: "cenv \<Rightarrow> nat \<Rightarrow> choice \<Rightarrow> revision \<Rightarrow> revision \<Rightarrow> csync \<Rightarrow> cerr option \<times> csync" where
  "finish_resolve E i c l remote s =
     (case close_conflict_row E i s of
        (Some e, s1) \<Rightarrow> (Some e, s1)
      | (None, s1) \<Rightarrow>
          (let s2 = setPeerStatus E (rvUID remote) Adopted s1 in
           case (if c = ResolveRemote then (None, s2) else dropProposal E (rvUID l) s2) of
             (Some e, s3) \<Rightarrow> (Some e, s3)
           | (None, s3) \<Rightarrow> (None, if c = ResolveLocal then s3 else snd (cperform E CommitAll s3))))"

definition resolve_with :: "cenv \<Rightarrow> nat \<Rightarrow> choice \<Rightarrow> string \<Rightarrow> conflict \<Rightarrow> revision \<Rightarrow> csync \<Rightarrow> cerr option \<times> csync" where
  "resolve_with E i c author cf l s =
     (case peerRevisionByUID s (cfRemote cf) of
        None \<Rightarrow> (Some RemoteGone, s)
      | Some remote \<Rightarrow>
          (let s1 = snd (cperform E LoadPeers s) in
           case chosen E c (resource_of l) remote of
             Inl e \<Rightarrow> (Some e, s1)
           | Inr target \<Rightarrow>
               (case apply_choice E c (cfPeer cf) target s1 of
                  (Some e, s2) \<Rightarrow> (Some e, s2)
                | (None, s2) \<Rightarrow>
                    (case insertRevision E (resolved_revision l remote target (cfRes cf) author) (Some l) s2 of
                       (Some e, s3) \<Rightarrow> (Some e, s3)
                     | (None, s3) \<Rightarrow> finish_resolve E i c l remote s3))))"

definition Resolve :: "cenv \<Rightarrow> nat \<Rightarrow> choice \<Rightarrow> string \<Rightarrow> csync \<Rightarrow> cerr option \<times> csync" where
  "Resolve E i c author s =
     (if \<not> cWriter E (cTrace s) then (Some NotWriter, s)
      else if cBusy E (cTrace s) then (Some ConfigBusy, s)
      else case cperform E (ReadConflict i) s of
        (Some e, s1) \<Rightarrow> (Some e, s1)
      | (None, s1) \<Rightarrow>
          (case open_conflict i s1 of
             None \<Rightarrow> (Some NoLongerOpen, s1)
           | Some cf \<Rightarrow>
               (case captureLocked E ''detected'' s1 of
                  (Some e, s2) \<Rightarrow> (Some e, s2)
                | (None, s2) \<Rightarrow>
                    (case cperform E ReadLog s2 of
                       (Some e, s3) \<Rightarrow> (Some e, s3)
                     | (None, s3) \<Rightarrow>
                         (case latest (cLog s3) (cfRes cf) of
                            None \<Rightarrow> (Some NoRecord, s3)
                          | Some l \<Rightarrow>
                              (case cperform E (ReadPeerRev (cfRemote cf)) s3 of
                                 (Some e, s4) \<Rightarrow> (Some e, s4)
                               | (None, s4) \<Rightarrow> resolve_with E i c author cf l s4))))))"

section \<open>Proposals\<close>

definition openProposal :: "nat \<Rightarrow> csync \<Rightarrow> proposal option" where
  "openProposal i s = (if i < length (cProposals s) \<and> prOpen (cProposals s ! i) then Some (cProposals s ! i) else None)"

definition close_proposal :: "nat \<Rightarrow> csync \<Rightarrow> csync" where
  "close_proposal i s = s\<lparr>cProposals := (cProposals s)[i := (cProposals s ! i)\<lparr>prOpen := False\<rparr>]\<rparr>"

text \<open>\<open>Capture\<close>: only the writer records.\<close>

definition Capture :: "cenv \<Rightarrow> string \<Rightarrow> csync \<Rightarrow> cerr option \<times> csync" where
  "Capture E origin s = (if \<not> cWriter E (cTrace s) then (None, s) else captureLocked E origin s)"

definition proposal_error :: "cenv \<Rightarrow> ccall list \<Rightarrow> resource \<Rightarrow> cerr option" where
  "proposal_error E tr target =
     (if rsScope target = ScopeGroup \<and> rsScopeID target \<noteq> [] \<and> \<not> contains (cPools E tr) (rsScopeID target)
      then Some (PoolNotImported (rsScopeID target))
      else if rsKind target = ''user'' \<and> rsPayload target \<noteq> None \<and> \<not> contains (cUsers E tr) (rsKey target)
      then Some (UserDeleted (rsKey target)) else None)"

definition take_proposal :: "cenv \<Rightarrow> nat \<Rightarrow> proposal \<Rightarrow> csync \<Rightarrow> cerr option \<times> csync" where
  "take_proposal E i pr s =
     (case cperform E (ApplyRemote (prPeer pr) (resource_of (prRev pr))) (snd (cperform E LoadPeers s)) of
        (Some e, s1) \<Rightarrow> (Some e, s1)
      | (None, s1) \<Rightarrow>
          (case Capture E ''gui'' s1 of
             (Some e, s2) \<Rightarrow> (Some e, s2)
           | (None, s2) \<Rightarrow>
               (case cdo E (CloseProposal i) (close_proposal i) s2 of
                  (Some e, s3) \<Rightarrow> (Some e, s3)
                | (None, s3) \<Rightarrow> (None, snd (cperform E CommitAll s3)))))"

definition ApplyProposal :: "cenv \<Rightarrow> nat \<Rightarrow> csync \<Rightarrow> cerr option \<times> csync" where
  "ApplyProposal E i s =
     (if \<not> cWriter E (cTrace s) then (Some NotWriter, s)
      else case cperform E (ReadProposal i) s of
        (Some e, s1) \<Rightarrow> (Some e, s1)
      | (None, s1) \<Rightarrow>
          (case openProposal i s1 of
             None \<Rightarrow> (Some ProposalClosed, s1)
           | Some pr \<Rightarrow>
               (case cperform E (CountConflicts (res_id (prRev pr))) s1 of
                  (Some e, s2) \<Rightarrow> (Some e, s2)
                | (None, s2) \<Rightarrow>
                    (if list_ex (\<lambda>c. cfOpen c \<and> cfRes c = res_id (prRev pr)) (cConflicts s2) then (Some ConflictOpen, s2)
                     else if cBusy E (cTrace s2) then (Some ConfigBusy, s2)
                     else case cperform E ReadLive s2 of
                       (Some e, s3) \<Rightarrow> (Some e, s3)
                     | (None, s3) \<Rightarrow>
                         (case proposal_error E (cTrace s2) (resource_of (prRev pr)) of
                            Some e \<Rightarrow> (Some e, s3)
                          | None \<Rightarrow>
                              take_proposal E i pr s3)))))"

definition DismissProposal :: "cenv \<Rightarrow> nat \<Rightarrow> csync \<Rightarrow> cerr option \<times> csync" where
  "DismissProposal E i s =
     (case cperform E (CloseProposal i) s of
        (Some e, s1) \<Rightarrow> (Some e, s1)
      | (None, s1) \<Rightarrow> (case openProposal i s1 of None \<Rightarrow> (Some ProposalClosed, s1) | Some pr \<Rightarrow> (None, close_proposal i s1)))"

section \<open>What they do to the history\<close>

lemma cdo_keeps:
  "cdo E a f s = (e, t) \<Longrightarrow> (\<And>u. cLog (f u) = cLog u \<and> received (f u) = received u) \<Longrightarrow>
   cLog t = cLog s \<and> received t = received s"
  by (auto simp: cdo_def cperform_def split: option.splits)

lemma close_conflict_row_keeps: "close_conflict_row E i s = (e, t) \<Longrightarrow> cLog t = cLog s \<and> received t = received s"
  unfolding close_conflict_row_def by (erule cdo_keeps) simp

lemma dropProposal_keeps: "dropProposal E uid s = (e, t) \<Longrightarrow> cLog t = cLog s \<and> received t = received s"
  unfolding dropProposal_def by (erule cdo_keeps) simp

lemma close_proposal_keeps [simp]: "cLog (close_proposal i s) = cLog s" "received (close_proposal i s) = received s"
  by (simp_all add: close_proposal_def)

lemma snd_cperform [simp]:
  "cLog (snd (cperform E a s)) = cLog s" "received (snd (cperform E a s)) = received s"
  "cProposals (snd (cperform E a s)) = cProposals s" "cConflicts (snd (cperform E a s)) = cConflicts s"
  by (simp_all add: cperform_def)

lemma apply_choice_keeps: "apply_choice E c p target s = (e, t) \<Longrightarrow> cLog t = cLog s \<and> received t = received s"
  by (auto simp: apply_choice_def split: if_splits prod.splits option.splits dest!: cperform_keeps)

lemma finish_resolve_keeps: "finish_resolve E i c l remote s = (e, t) \<Longrightarrow> cLog t = cLog s \<and> received t = received s"
  by (auto simp: finish_resolve_def Let_def split: if_splits prod.splits option.splits
        dest!: close_conflict_row_keeps dropProposal_keeps)

text \<open>The steps before the resolution is recorded leave the log, apart from the capture.\<close>

lemma resolved_evolves:
  assumes i: "insertRevision E (resolved_revision l remote target (res_id l) author) (Some l) s = (e, t)"
    and l: "latest (cLog s) (res_id l) = Some l"
  shows "evolves s t" and "received t = received s"
    and "e = None \<Longrightarrow> \<exists>n. latest (cLog t) (res_id l) = Some n \<and> rvBase n = rvUID l \<and> rvMerge n = rvUID remote \<and>
           rsPayload n = rsPayload target"
proof -
  let ?n = "stamped E (resolved_revision l remote target (res_id l) author) (Some l) s"
  have n: "res_id ?n = res_id l" "rvBase ?n = rvUID l" "rvMerge ?n = rvUID remote" "rsPayload ?n = rsPayload target"
    by (simp_all add: stamped_def resolved_revision_def res_id_def)
  from i have "evolves s t \<and> received t = received s \<and>
      (e = None \<longrightarrow> latest (cLog t) (res_id l) = Some ?n)"
  proof (cases rule: insertRevision_cases)
    case (failed e')
    then show ?thesis by (simp add: evolves_same)
  next
    case stored
    have "evolves s t"
    proof (rule evolves_append [OF stored(2)])
      fix m l'
      assume "m \<in> set [?n]" and "latest (cLog s) (res_id m) = Some l'"
      then have "m = ?n" "l' = l" using l n(1) by auto
      moreover have "?n \<in> known t" using stored(2) by (simp add: known_def)
      ultimately show "descends t l' m" using descends_base [of ?n t l] n(2) by simp
    qed (simp add: stored(3))
    then show ?thesis using stored latest_last [OF n(1)] by simp
  qed
  then show "evolves s t" "received t = received s"
    and "e = None \<Longrightarrow> \<exists>n. latest (cLog t) (res_id l) = Some n \<and> rvBase n = rvUID l \<and> rvMerge n = rvUID remote \<and>
           rsPayload n = rsPayload target"
    using n by auto
qed

lemma peerRevision_received: "peerRevisionByUID s uid = List.find (\<lambda>r. rvUID r = uid) (received s)"
proof -
  have "map_option pvRev (List.find (\<lambda>x. rvUID (pvRev x) = uid) xs) = List.find (\<lambda>r. rvUID r = uid) (map pvRev xs)" for xs
    by (induction xs) simp_all
  then show ?thesis by (simp add: peerRevisionByUID_def received_def)
qed

lemma open_conflict_keeps: "cConflicts s' = cConflicts s \<Longrightarrow> open_conflict i s' = open_conflict i s"
  by (simp add: open_conflict_def)

text \<open>The run of \<open>Resolve\<close>: it ends early, with the capture at most, or records the resolution.\<close>

lemma Resolve_steps:
  assumes "Resolve E i c author s = (e, t)"
  obtains (early) "evolves s t" "received t = received s" "e \<noteq> None"
  | (late) cf l remote target s1 s2 s6 e7 s7 where
      "open_conflict i s = Some cf" "captureLocked E ''detected'' s1 = (None, s2)" "cLog s1 = cLog s" "received s1 = received s"
      "latest (cLog s2) (cfRes cf) = Some l" "peerRevisionByUID s (cfRemote cf) = Some remote"
      "chosen E c (resource_of l) remote = Inr target" "cLog s6 = cLog s2" "received s6 = received s"
      "insertRevision E (resolved_revision l remote target (cfRes cf) author) (Some l) s6 = (e7, s7)"
      "if e7 = None then finish_resolve E i c l remote s7 = (e, t) else e = e7 \<and> t = s7"
proof (cases "\<not> cWriter E (cTrace s) \<or> cBusy E (cTrace s)")
  case True
  then have "t = s \<and> e \<noteq> None" using assms by (elim disjE) (auto simp: Resolve_def split: if_splits)
  then show thesis by (intro early) (simp_all add: evolves_same)
next
  case free: False
  obtain e1 s1 where r1: "cperform E (ReadConflict i) s = (e1, s1)" by force
  note k1 = cperform_keeps [OF r1]
  have oc: "open_conflict i s1 = open_conflict i s" using r1 by (auto simp: cperform_def intro: open_conflict_keeps)
  show thesis
  proof (cases "e1 \<noteq> None \<or> open_conflict i s = None")
    case True
    then have "t = s1 \<and> e \<noteq> None" using assms free r1 oc by (cases e1) (auto simp: Resolve_def)
    then show thesis using k1 by (intro early) (simp_all add: evolves_same)
  next
    case False
    then obtain cf where n1: "e1 = None" and cf: "open_conflict i s = Some cf" by auto
    obtain e2 s2 where r2: "captureLocked E ''detected'' s1 = (e2, s2)" by force
    have ev2: "evolves s s2" "received s2 = received s"
      using capture_evolves [OF r2] k1 evolves_trans [of s s1 s2] by (simp_all add: evolves_same)
    obtain e3 s3 where r3: "cperform E ReadLog s2 = (e3, s3)" by force
    obtain e4 s4 where r4: "cperform E (ReadPeerRev (cfRemote cf)) s3 = (e4, s4)" by force
    define s5 where "s5 = snd (cperform E LoadPeers s4)"
    note k3 = cperform_keeps [OF r3] and k4 = cperform_keeps [OF r4]
    have k5: "cLog s5 = cLog s2" "received s5 = received s" using k3 k4 ev2 by (simp_all add: s5_def)
    have ev: "evolves s u" if "cLog u = cLog s2" "received u = received s" for u
      using that ev2 evolves_trans [OF ev2(1), of u] by (simp add: evolves_same)
    have open1: "(case captureLocked E ''detected'' s1 of
                  (Some e, s2) \<Rightarrow> (Some e, s2)
                | (None, s2) \<Rightarrow>
                    (case cperform E ReadLog s2 of
                       (Some e, s3) \<Rightarrow> (Some e, s3)
                     | (None, s3) \<Rightarrow>
                         (case latest (cLog s3) (cfRes cf) of
                            None \<Rightarrow> (Some NoRecord, s3)
                          | Some l \<Rightarrow>
                              (case cperform E (ReadPeerRev (cfRemote cf)) s3 of
                                 (Some e, s4) \<Rightarrow> (Some e, s4)
                               | (None, s4) \<Rightarrow> resolve_with E i c author cf l s4)))) = (e, t)"
      using assms free r1 n1 oc cf by (simp add: Resolve_def)
    show thesis
    proof (cases "e2 \<noteq> None \<or> e3 \<noteq> None \<or> latest (cLog s2) (cfRes cf) = None \<or> e4 \<noteq> None \<or>
        peerRevisionByUID s (cfRemote cf) = None")
      case True
      have "received s4 = received s" using k3 k4 ev2 by simp
      then have "e \<noteq> None \<and> (t = s2 \<or> t = s3 \<or> t = s4)"
        using True open1 r2 r3 r4 k3
        by (cases e2; cases e3; cases "latest (cLog s2) (cfRes cf)"; cases e4)
          (auto simp: resolve_with_def peerRevision_received)
      then show thesis using ev k3 k4 ev2 by (intro early) auto
    next
      case False
      then obtain l remote where l: "latest (cLog s2) (cfRes cf) = Some l" and remote: "peerRevisionByUID s (cfRemote cf) = Some remote"
        and none: "e2 = None" "e3 = None" "e4 = None" by auto
      have rest: "(case chosen E c (resource_of l) remote of
           Inl e \<Rightarrow> (Some e, s5)
         | Inr target \<Rightarrow>
             (case apply_choice E c (cfPeer cf) target s5 of
                (Some e, s6) \<Rightarrow> (Some e, s6)
              | (None, s6) \<Rightarrow>
                  (case insertRevision E (resolved_revision l remote target (cfRes cf) author) (Some l) s6 of
                     (Some e, s7) \<Rightarrow> (Some e, s7)
                   | (None, s7) \<Rightarrow> finish_resolve E i c l remote s7))) = (e, t)"
        using open1 r2 r3 r4 none l remote k3 k4 ev2 unfolding s5_def by (simp add: resolve_with_def peerRevision_received Let_def)
      show thesis
      proof (cases "chosen E c (resource_of l) remote")
        case (Inl x)
        then have "e \<noteq> None \<and> t = s5" using rest by auto
        then show thesis using ev k5 by (intro early) auto
      next
        case (Inr target)
        obtain e6 s6 where r6: "apply_choice E c (cfPeer cf) target s5 = (e6, s6)" by force
        note k6 = apply_choice_keeps [OF r6]
        obtain e7 s7 where r7: "insertRevision E (resolved_revision l remote target (cfRes cf) author) (Some l) s6 = (e7, s7)" by force
        show thesis
        proof (cases e6)
          case (Some x)
          then have "e \<noteq> None \<and> t = s6" using rest Inr r6 by auto
          then show thesis using ev k5 k6 by (intro early) auto
        next
          case None
          show thesis
            by (rule late [OF cf r2 [unfolded none] _ _ l remote Inr _ _ r7])
              (use k1 k5 k6 rest Inr r6 r7 None in \<open>auto split: option.splits\<close>)
        qed
      qed
    qed
  qed
qed

lemma Resolve_evolves:
  assumes "Resolve E i c author s = (e, t)"
  shows "evolves s t"
  using assms
proof (cases rule: Resolve_steps)
  case (late cf l remote target s1 s2 s6 e7 s7)
  have id: "cfRes cf = res_id l" using latest_Some [OF late(5)] by simp
  have l6: "latest (cLog s6) (res_id l) = Some l" using late(5,8) id by simp
  note r = resolved_evolves [OF late(10) [unfolded id] l6]
  have s2: "evolves s s2" "received s2 = received s"
    using capture_evolves [OF late(2)] late(3,4) evolves_trans [of s s1 s2] by (simp_all add: evolves_same)
  have "evolves s2 s7" using r(1) late(8,9) s2(2) evolves_trans [of s2 s6 s7] by (simp add: evolves_same)
  then have s7: "evolves s s7" by (rule evolves_trans [OF s2(1)])
  show ?thesis
  proof (cases e7)
    case None
    then have "cLog t = cLog s7 \<and> received t = received s7" using late(11) finish_resolve_keeps by simp
    then show ?thesis using evolves_trans [OF s7] by (simp add: evolves_same)
  qed (use late(11) s7 in simp)
qed

text \<open>
  Resolving a conflict records one revision on top of both versions, with the version the operator
  chose: this node's, the other node's, or the edited one. What the log held before stays reachable.
\<close>

theorem Resolve_outcome:
  assumes "Resolve E i c author s = (None, t)"
  shows "\<exists>cf l remote target n. open_conflict i s = Some cf \<and> peerRevisionByUID s (cfRemote cf) = Some remote \<and>
           chosen E c (resource_of l) remote = Inr target \<and> latest (cLog t) (cfRes cf) = Some n \<and>
           rvBase n = rvUID l \<and> rvMerge n = rvUID remote \<and> rsPayload n = rsPayload target \<and> evolves s t"
  using assms
proof (cases rule: Resolve_steps)
  case (late cf l remote target s1 s2 s6 e7 s7)
  have id: "cfRes cf = res_id l" using latest_Some [OF late(5)] by simp
  have e7: "e7 = None" using late(11) by (cases e7) simp_all
  have l6: "latest (cLog s6) (res_id l) = Some l" using late(5,8) id by simp
  have "cLog t = cLog s7" using late(11) e7 finish_resolve_keeps by simp
  then show ?thesis
    using resolved_evolves(3) [OF late(10) [unfolded id] l6 e7] late(1,6,7) id Resolve_evolves [OF assms] by metis
qed simp

definition sample_conflicted :: csync where
  "sample_conflicted = snd (settleConflict ((sample_cenv ''b'')\<lparr>cAuto := \<lambda>tr sc. False\<rparr>) ''a'' sample_other sample_owner
     (sample_csync sample_other [sample_owner]))"

lemma Resolve_outcome_witness:
  "\<exists>n. latest (cLog (snd (Resolve (sample_cenv ''b'') 0 ResolveRemote ''admin'' sample_conflicted))) (''dataset'', ''tank/d'') = Some n \<and>
       rvMerge n = ''1'' \<and> rsPayload n = Some (JString ''x'')"
proof -
  let ?R = "Resolve (sample_cenv ''b'') 0 ResolveRemote ''admin'' sample_conflicted"
  have "fst ?R = None" by code_simp
  then have R: "?R = (None, snd ?R)" by (metis prod.collapse)
  obtain cf l remote target n where o: "open_conflict 0 sample_conflicted = Some cf"
      "peerRevisionByUID sample_conflicted (cfRemote cf) = Some remote"
      "chosen (sample_cenv ''b'') ResolveRemote (resource_of l) remote = Inr target" "latest (cLog (snd ?R)) (cfRes cf) = Some n"
      "rvMerge n = rvUID remote" "rsPayload n = rsPayload target"
    using Resolve_outcome [OF R] by blast
  have "map_option (\<lambda>c. (cfRes c, map_option (\<lambda>r. (rvUID r, rsPayload r)) (peerRevisionByUID sample_conflicted (cfRemote c))))
      (open_conflict 0 sample_conflicted) = Some ((''dataset'', ''tank/d''), Some (''1'', Some (JString ''x'')))" by code_simp
  then have "cfRes cf = (''dataset'', ''tank/d'')" "rvUID remote = ''1''" "rsPayload remote = Some (JString ''x'')"
    using o(1,2) by simp_all
  moreover have "rsPayload target = rsPayload remote" using o(3) by (auto simp: chosen_def)
  ultimately show ?thesis using o(4-6) by auto
qed

section \<open>Applying a proposal\<close>

lemma Capture_evolves: "Capture E origin s = (e, t) \<Longrightarrow> evolves s t"
  by (auto simp: Capture_def evolves_same split: if_splits dest: capture_evolves(1))

lemma silent_Capture: "Capture E origin s = (e, t) \<Longrightarrow> silent s t"
  by (auto simp: Capture_def silent_refl split: if_splits dest: silent_capture)

lemma silent_close_proposal: "cdo E (CloseProposal i) (close_proposal i) s = (e, t) \<Longrightarrow> silent s t"
  by (erule silent_cdo) (simp_all add: close_proposal_def)

lemma silent_snd: "quiet a \<Longrightarrow> silent s (snd (cperform E a s))"
  by (simp add: cperform_def silent_def)

lemma take_proposal_run:
  assumes "take_proposal E i pr s = (e, t)"
  shows "evolves s t" and "\<exists>v. cTrace t = cTrace s @ LoadPeers # ApplyRemote (prPeer pr) (resource_of (prRev pr)) # v \<and> list_all quiet v"
proof -
  let ?ap = "ApplyRemote (prPeer pr) (resource_of (prRev pr))"
  obtain e1 s1 where r1: "cperform E ?ap (snd (cperform E LoadPeers s)) = (e1, s1)" by force
  have t1: "cTrace s1 = cTrace s @ [LoadPeers, ?ap]" using r1 by (auto simp: cperform_def)
  have ev1: "evolves s s1" using cperform_keeps [OF r1] by (simp add: evolves_same)
  obtain e2 s2 where r2: "Capture E ''gui'' s1 = (e2, s2)" by force
  obtain e3 s3 where r3: "cdo E (CloseProposal i) (close_proposal i) s2 = (e3, s3)" by force
  have ev3: "evolves s2 s3" using cdo_keeps [OF r3] by (simp add: evolves_same)
  have evc: "evolves s3 (snd (cperform E CommitAll s3))" by (simp add: evolves_same)
  have "evolves s1 t \<and> silent s1 t"
    using assms r1 r2 r3 Capture_evolves [OF r2] silent_Capture [OF r2] ev3 silent_close_proposal [OF r3]
      evolves_trans [OF evolves_trans [OF Capture_evolves [OF r2] ev3] evc] evolves_trans [OF Capture_evolves [OF r2] ev3]
      silent_trans [OF silent_trans [OF silent_Capture [OF r2] silent_close_proposal [OF r3]] silent_snd [of CommitAll s3 E]]
      silent_trans [OF silent_Capture [OF r2] silent_close_proposal [OF r3]]
    by (cases e1; cases e2; cases e3) (auto simp: take_proposal_def evolves_same silent_refl)
  then show "evolves s t" and "\<exists>v. cTrace t = cTrace s @ LoadPeers # ?ap # v \<and> list_all quiet v"
    using evolves_trans [OF ev1] t1 by (auto simp: silent_def)
qed

lemma ApplyProposal_steps:
  assumes "ApplyProposal E i s = (e, t)"
  obtains (refused) "evolves s t" "silent s t"
  | (taken) pr s3 where "openProposal i s = Some pr" "cWriter E (cTrace s)" "cLog s3 = cLog s" "received s3 = received s" "silent s s3"
      "\<forall>c \<in> set (cConflicts s). cfOpen c \<longrightarrow> cfRes c \<noteq> res_id (prRev pr)"
      "proposal_error E (cTrace s @ [ReadProposal i, CountConflicts (res_id (prRev pr))]) (resource_of (prRev pr)) = None"
      "take_proposal E i pr s3 = (e, t)"
proof (cases "cWriter E (cTrace s) \<and> cResult E (cTrace s) (ReadProposal i) = None \<and> openProposal i s \<noteq> None")
  case False
  have o: "openProposal i (s\<lparr>cTrace := tr\<rparr>) = openProposal i s" for tr by (simp add: openProposal_def)
  have "t = s \<or> t = s\<lparr>cTrace := cTrace s @ [ReadProposal i]\<rparr>"
    using assms False by (auto simp: ApplyProposal_def cperform_def o split: if_splits option.splits)
  then show thesis by (intro refused) (auto simp: evolves_same silent_def)
next
  case True
  then obtain pr where w: "cWriter E (cTrace s)" "cResult E (cTrace s) (ReadProposal i) = None" "openProposal i s = Some pr" by auto
  have o: "openProposal i (s\<lparr>cTrace := tr\<rparr>) = Some pr" for tr using w(3) by (auto simp: openProposal_def split: if_splits)
  let ?s1 = "s\<lparr>cTrace := cTrace s @ [ReadProposal i]\<rparr>"
  obtain e2 s2 where r2: "cperform E (CountConflicts (res_id (prRev pr))) ?s1 = (e2, s2)" by force
  obtain e3 s3 where r3: "cperform E ReadLive s2 = (e3, s3)" by force
  have k: "cLog s3 = cLog s" "received s3 = received s" "cLog s2 = cLog s" "received s2 = received s"
    and c2: "cConflicts s2 = cConflicts s" and t2: "cTrace s2 = cTrace s @ [ReadProposal i, CountConflicts (res_id (prRev pr))]"
    using r2 r3 by (auto simp: cperform_def)
  have q: "silent s s2" "silent s s3" using r2 r3 by (auto simp: cperform_def silent_def)
  have run: "(case (e2, s2) of
       (Some e, s2) \<Rightarrow> (Some e, s2)
     | (None, s2) \<Rightarrow>
         (if list_ex (\<lambda>c. cfOpen c \<and> cfRes c = res_id (prRev pr)) (cConflicts s2) then (Some ConflictOpen, s2)
          else if cBusy E (cTrace s2) then (Some ConfigBusy, s2)
          else case cperform E ReadLive s2 of
            (Some e, s3) \<Rightarrow> (Some e, s3)
          | (None, s3) \<Rightarrow>
              (case proposal_error E (cTrace s2) (resource_of (prRev pr)) of
                 Some e \<Rightarrow> (Some e, s3)
               | None \<Rightarrow> take_proposal E i pr s3))) = (e, t)"
    using assms w o r2 by (simp add: ApplyProposal_def cperform_def [of E "ReadProposal i"])
  show thesis
  proof (cases "e2 = None \<and> \<not> list_ex (\<lambda>c. cfOpen c \<and> cfRes c = res_id (prRev pr)) (cConflicts s2) \<and>
      \<not> cBusy E (cTrace s2) \<and> e3 = None \<and> proposal_error E (cTrace s2) (resource_of (prRev pr)) = None")
    case False
    then have "t = s2 \<or> t = s3" using run r3 by (auto split: option.splits if_splits)
    then show thesis using q k by (intro refused) (auto simp: evolves_same)
  next
    case True
    then have "take_proposal E i pr s3 = (e, t)" using run r3 by simp
    then show thesis using True q k w c2 t2 by (intro taken [of pr s3]) (auto simp: list_ex_iff)
  qed
qed

lemma ApplyProposal_evolves: "ApplyProposal E i s = (e, t) \<Longrightarrow> evolves s t"
  by (erule ApplyProposal_steps) (auto dest!: take_proposal_run(1) intro: evolves_trans [OF evolves_same])

text \<open>
  A proposal is applied only by the writer, while it is open, no conflict about its resource is, its
  pool is in view and a user it is about still exists; and only the proposed version is applied.
\<close>

theorem ApplyProposal_guarded:
  assumes "ApplyProposal E i s = (e, t)" and "cTrace t = cTrace s @ u @ ApplyRemote p res # v"
  shows "\<exists>pr. openProposal i s = Some pr \<and> res = resource_of (prRev pr) \<and> p = prPeer pr \<and> cWriter E (cTrace s) \<and>
           (\<forall>c \<in> set (cConflicts s). cfOpen c \<longrightarrow> cfRes c \<noteq> res_id (prRev pr)) \<and>
           proposal_error E (cTrace s @ [ReadProposal i, CountConflicts (res_id (prRev pr))]) res = None"
  using assms(1)
proof (cases rule: ApplyProposal_steps)
  case refused
  then show ?thesis using assms(2) by (auto simp: silent_def quiet_def)
next
  case (taken pr s3)
  obtain w where w: "cTrace t = cTrace s3 @ LoadPeers # ApplyRemote (prPeer pr) (resource_of (prRev pr)) # w" "list_all quiet w"
    using take_proposal_run(2) [OF taken(8)] by blast
  obtain z where z: "cTrace s3 = cTrace s @ z" "list_all quiet z" using taken(5) by (auto simp: silent_def)
  have "u @ ApplyRemote p res # v = (z @ [LoadPeers]) @ ApplyRemote (prPeer pr) (resource_of (prRev pr)) # w"
    using assms(2) w(1) z(1) by simp
  then have "ApplyRemote p res \<in> set ((z @ [LoadPeers]) @ ApplyRemote (prPeer pr) (resource_of (prRev pr)) # w)"
    by (metis in_set_conv_decomp)
  then have "p = prPeer pr \<and> res = resource_of (prRev pr)" using w(2) z(2) by (auto simp: list_all_iff quiet_def)
  then show ?thesis using taken by blast
qed

definition sample_offer :: csync where
  "sample_offer = (sample_csync (sample_rev ''1'' [] [] 2 ''x'') [])
     \<lparr>cProposals := [\<lparr>prPeer = ''a'', prRev = sample_other, prWinner = ''1'', prOpen = True\<rparr>]\<rparr>"

lemma ApplyProposal_guarded_witness:
  "proposal_error (sample_cenv ''b'') [ReadProposal 0, CountConflicts (''dataset'', ''tank/d'')] (resource_of sample_other) = None"
proof -
  let ?A = "ApplyProposal (sample_cenv ''b'') 0 sample_offer"
  have e: "?A = (fst ?A, snd ?A)" by simp
  have "cTrace (snd ?A) ! 4 = ApplyRemote ''a'' (resource_of sample_other) \<and> 4 < length (cTrace (snd ?A))" by code_simp
  then have "cTrace (snd ?A) = cTrace sample_offer @ take 4 (cTrace (snd ?A)) @
      ApplyRemote ''a'' (resource_of sample_other) # drop 5 (cTrace (snd ?A))"
    using id_take_nth_drop [of 4 "cTrace (snd ?A)"] by (simp add: sample_offer_def sample_csync_def)
  from ApplyProposal_guarded [OF e this] obtain pr where
    pr: "openProposal 0 sample_offer = Some pr"
      "proposal_error (sample_cenv ''b'') (cTrace sample_offer @ [ReadProposal 0, CountConflicts (res_id (prRev pr))])
         (resource_of sample_other) = None" by blast
  then have "prRev pr = sample_other" by (auto simp: openProposal_def sample_offer_def)
  then show ?thesis using pr(2) by (simp add: sample_offer_def sample_csync_def sample_other_def sample_rev_def res_id_def)
qed

section \<open>The history of a node\<close>

text \<open>
  Every operation that changes what a node has recorded, with the answers of any environment. A pairing
  that is given up or renewed drops what was received from the peer, so it is not among them.
\<close>

inductive config_step :: "csync \<Rightarrow> csync \<Rightarrow> bool" where
  step_capture: "Capture E origin s = (e, t) \<Longrightarrow> config_step s t"
| step_receive: "storeReceived E p rs s = (r, t) \<Longrightarrow> config_step s t"
| step_merge: "evaluate E p s = (e, t) \<Longrightarrow> config_step s t"
| step_resolve: "Resolve E i c author s = (e, t) \<Longrightarrow> config_step s t"
| step_propose: "ApplyProposal E i s = (e, t) \<Longrightarrow> config_step s t"
| step_dismiss: "DismissProposal E i s = (e, t) \<Longrightarrow> config_step s t"

lemma store_one_keeps: "cLog (store_one p r s) = cLog s" "set (received s) \<subseteq> set (received (store_one p r s))"
  by (auto simp: store_one_def received_def)

lemma storeReceived_evolves: "storeReceived E p rs s = (r, t) \<Longrightarrow> evolves s t"
proof (induction E p rs s arbitrary: r t rule: storeReceived.induct)
  case (2 E p x rs s)
  obtain e1 s1 where c: "cdo E (StoreRev p x) (store_one p x) s = (e1, s1)" by force
  have s1: "evolves s s1"
    using c store_one_keeps(1) store_one_keeps(2) [of "s\<lparr>cTrace := cTrace s @ [StoreRev p x]\<rparr>" p x]
    by (intro evolves_same) (auto simp: cdo_def cperform_def split: option.splits)
  show ?case
  proof (cases "receivable x")
    case False
    then show ?thesis using "2.IH"(1) "2.prems" by simp
  next
    case rec: True
    show ?thesis
    proof (cases e1)
      case None
      obtain r2 t2 where r2: "storeReceived E p rs s1 = (r2, t2)" by (metis prod.exhaust)
      then have "evolves s1 t2" using "2.IH"(2) rec c None by force
      then show ?thesis using "2.prems" rec c None r2 evolves_trans [OF s1] by (auto split: prod.splits)
    qed (use "2.prems" rec c s1 in auto)
  qed
qed (simp add: evolves_same)

lemma config_step_evolves: "config_step s t \<Longrightarrow> evolves s t"
proof (induction rule: config_step.induct)
  case (step_dismiss E i s e t)
  then show ?case
    by (intro evolves_same) (auto simp: DismissProposal_def cperform_def split: option.splits)
qed (auto intro: Capture_evolves storeReceived_evolves evaluate_evolves Resolve_evolves ApplyProposal_evolves)

lemma config_steps_evolve: "config_step\<^sup>*\<^sup>* s t \<Longrightarrow> evolves s t"
  by (induction rule: rtranclp_induct) (auto simp: evolves_same intro: evolves_trans config_step_evolves)

text \<open>
  C5. Whatever a node captures, receives, merges, and whatever the operator resolves or proposes, in any
  order and with any of the calls failing: a resource that had a newest revision has one forever, and it
  always reaches every earlier one over recorded parents. No recorded version is ever lost.
\<close>

theorem history_never_lost:
  assumes "config_step\<^sup>*\<^sup>* s t" and "latest (cLog s) k = Some l"
  shows "\<exists>n. latest (cLog t) k = Some n \<and> descends t l n"
  using evolves_latest [OF config_steps_evolve [OF assms(1)] assms(2)] .

lemma history_never_lost_witness:
  "\<exists>n. latest (cLog (snd (Resolve (sample_cenv ''b'') 0 ResolveRemote ''admin'' sample_conflicted))) (''dataset'', ''tank/d'') = Some n"
proof -
  let ?R = "Resolve (sample_cenv ''b'') 0 ResolveRemote ''admin'' sample_conflicted"
  have "Resolve (sample_cenv ''b'') 0 ResolveRemote ''admin'' sample_conflicted = (fst ?R, snd ?R)" by simp
  then have s: "config_step\<^sup>*\<^sup>* sample_conflicted (snd ?R)" by (intro r_into_rtranclp step_resolve)
  have "latest (cLog sample_conflicted) (''dataset'', ''tank/d'') = Some sample_other" by code_simp
  from history_never_lost [OF s this] show ?thesis by blast
qed

end
