(* ===== verification/ConfigPeers.thy ===== *)
theory ConfigPeers
  imports ConfigReview
begin

text \<open>
  Exchanging revisions with paired nodes (\<open>internal/configstore/sync.go\<close>, \<open>introduce.go\<close>): serving pages,
  pulling everything after a cursor, a sync round, join tokens, pairing and leaving.

  The pages a peer answers with, the time and the secrets are inputs; \<open>None\<close> is a pull that never ends.
  Secrets are kept in plain text here (they are sealed in the database), and a token is compared by its
  hash, a parameter.
\<close>

section \<open>State\<close>

record peer_row =
  peID :: string
  peName :: string
  peURL :: string
  peSecret :: string
  pePin :: string
  peCursor :: int
  peServed :: int
  peContact :: "time option"
  peUnreachable :: "time option"
  peFailed :: bool

record join_token =
  tkHash :: string
  tkExpires :: time
  tkUsed :: "time option"

record cmgr =
  cmDb :: csync
  cmPeers :: "peer_row list"
  cmTokens :: "join_token list"
  cmMode :: string
  cmFull :: "(string \<times> time) list"

definition call_db :: "cenv \<Rightarrow> ccall \<Rightarrow> (cmgr \<Rightarrow> cmgr) \<Rightarrow> cmgr \<Rightarrow> cerr option \<times> cmgr" where
  "call_db E a f m =
     (case cperform E a (cmDb m) of
        (Some e, d) \<Rightarrow> (Some e, m\<lparr>cmDb := d\<rparr>)
      | (None, d) \<Rightarrow> (None, f (m\<lparr>cmDb := d\<rparr>)))"

definition change_peer :: "string \<Rightarrow> (peer_row \<Rightarrow> peer_row) \<Rightarrow> cmgr \<Rightarrow> cmgr" where
  "change_peer p f m = m\<lparr>cmPeers := map (\<lambda>x. if peID x = p then f x else x) (cmPeers m)\<rparr>"

section \<open>Serving and pulling pages\<close>

record page =
  pgNode :: string
  pgName :: string
  pgRevs :: "revision list"

definition pageSize :: nat where
  "pageSize = 500"

definition servable :: "revision \<Rightarrow> bool" where
  "servable r \<longleftrightarrow> rsScope r \<noteq> ScopeNode \<and> contains SyncKinds (rsKind r)"

text \<open>The log is in the order of its ids.\<close>

definition ServeRevisions :: "string \<Rightarrow> string \<Rightarrow> revision list \<Rightarrow> int \<Rightarrow> int \<Rightarrow> page" where
  "ServeRevisions self name lg since limit =
     (let n = (if limit \<le> 0 \<or> int pageSize < limit then pageSize else nat limit) in
      \<lparr>pgNode = self, pgName = name, pgRevs = take n (filter (\<lambda>r. since < rvID r \<and> servable r) lg)\<rparr>)"

definition note_served :: "string \<Rightarrow> int \<Rightarrow> cmgr \<Rightarrow> cmgr" where
  "note_served p since m = change_peer p (\<lambda>x. x\<lparr>peServed := max (peServed x) since\<rparr>) m"

partial_function (option) fetch_from ::
  "(int \<Rightarrow> cerr + page) \<Rightarrow> int \<Rightarrow> revision list \<Rightarrow> (cerr + page) option" where
  "fetch_from call cursor acc =
     (case call cursor of
        Inl e \<Rightarrow> Some (Inl e)
      | Inr pg \<Rightarrow>
          (if length (pgRevs pg) < pageSize then Some (Inr (pg\<lparr>pgRevs := acc @ pgRevs pg\<rparr>))
           else fetch_from call (rvID (last (pgRevs pg))) (acc @ pgRevs pg)))"

section \<open>A sync round\<close>

definition fetched :: "peer_row \<Rightarrow> cerr + page \<Rightarrow> cerr + page" where
  "fetched p r =
     (case r of
        Inl e \<Rightarrow> Inl e
      | Inr pg \<Rightarrow> if pgNode pg \<noteq> peID p then Inl (WrongNode (pgNode pg)) else Inr pg)"

definition unreachable :: "cenv \<Rightarrow> time \<Rightarrow> string \<Rightarrow> cmgr \<Rightarrow> cmgr" where
  "unreachable E now p m =
     snd (call_db E (UpdatePeer p)
       (change_peer p (\<lambda>x. x\<lparr>peUnreachable := (if peUnreachable x = None then Some now else peUnreachable x), peFailed := True\<rparr>)) m)"

definition contacted :: "time \<Rightarrow> page \<Rightarrow> string \<Rightarrow> int \<Rightarrow> peer_row \<Rightarrow> peer_row" where
  "contacted now pg seen cursor x =
     x\<lparr>peCursor := (if pgRevs pg = [] then cursor else rvID (last (pgRevs pg))), peContact := Some now,
       peUnreachable := None, peFailed := False, peName := pgName pg, pePin := (if pePin x = [] then seen else pePin x)\<rparr>"

definition due_now :: "bool \<Rightarrow> bool \<Rightarrow> time \<Rightarrow> string \<Rightarrow> cmgr \<Rightarrow> bool" where
  "due_now full fresh now p m =
     (full \<or> fresh \<or> (case map_of (cmFull m) p of None \<Rightarrow> True | Some t \<Rightarrow> 300000000000 < now - t))"

definition merge_peer :: "cenv \<Rightarrow> string \<Rightarrow> cmgr \<Rightarrow> cerr option \<times> cmgr" where
  "merge_peer E p m = (case evaluate E p (cmDb m) of (e, d) \<Rightarrow> (e, m\<lparr>cmDb := d\<rparr>))"

text \<open>What follows a successful pull.\<close>

definition take_page :: "cenv \<Rightarrow> page \<Rightarrow> string \<Rightarrow> time \<Rightarrow> bool \<Rightarrow> peer_row \<Rightarrow> cmgr \<Rightarrow> cerr option \<times> cmgr" where
  "take_page E pg seen now full p m =
     (case storeReceived E (peID p) (pgRevs pg) (cmDb m) of
        ((Some e, fresh), d) \<Rightarrow> (Some e, m\<lparr>cmDb := d\<rparr>)
      | ((None, fresh), d) \<Rightarrow>
          (case call_db E (UpdatePeer (peID p))
              (change_peer (peID p) (contacted now pg seen (peCursor p))) (m\<lparr>cmDb := d\<rparr>) of
             (Some e, m1) \<Rightarrow> (Some e, m1)
           | (None, m1) \<Rightarrow>
               (if due_now full fresh now (peID p) m1 then merge_peer E (peID p) (m1\<lparr>cmFull := (peID p, now) # cmFull m1\<rparr>)
                else (None, m1))))"

definition syncPeer ::
  "cenv \<Rightarrow> (int \<Rightarrow> cerr + page) \<Rightarrow> string \<Rightarrow> time \<Rightarrow> bool \<Rightarrow> peer_row \<Rightarrow> cmgr \<Rightarrow> (cerr option \<times> cmgr) option" where
  "syncPeer E pages seen now full p m =
     (case call_db E ReadNodeID id m of
        (Some e, m1) \<Rightarrow> Some (Some e, m1)
      | (None, m1) \<Rightarrow>
          (case fetch_from pages (peCursor p) [] of
             None \<Rightarrow> None
           | Some r \<Rightarrow>
               Some (case fetched p r of
                 Inl e \<Rightarrow> (Some e, unreachable E now (peID p) m1)
               | Inr pg \<Rightarrow> take_page E pg seen now full p m1)))"

fun round_peers ::
  "cenv \<Rightarrow> (string \<Rightarrow> int \<Rightarrow> cerr + page) \<Rightarrow> (string \<Rightarrow> string) \<Rightarrow> time \<Rightarrow> bool \<Rightarrow> peer_row list \<Rightarrow> cerr option \<Rightarrow> cmgr \<Rightarrow>
   (cerr option \<times> cmgr) option" where
  "round_peers E pages seen now full [] first m = Some (first, m)"
| "round_peers E pages seen now full (p # ps) first m =
     (case syncPeer E (pages (peID p)) (seen (peID p)) now full p m of
        None \<Rightarrow> None
      | Some (e, m1) \<Rightarrow> round_peers E pages seen now full ps (if first = None then e else first) m1)"

definition Round ::
  "cenv \<Rightarrow> (string \<Rightarrow> int \<Rightarrow> cerr + page) \<Rightarrow> (string \<Rightarrow> string) \<Rightarrow> time \<Rightarrow> bool \<Rightarrow> cmgr \<Rightarrow> (cerr option \<times> cmgr) option" where
  "Round E pages seen now full m =
     (if \<not> cWriter E (cTrace (cmDb m)) then Some (None, m)
      else case call_db E LoadPeers id m of
        (Some e, m1) \<Rightarrow> Some (Some e, m1)
      | (None, m1) \<Rightarrow> round_peers E pages seen now full (cmPeers m1) None m1)"

section \<open>Pairing and leaving\<close>

definition AuthenticatePeer :: "string \<Rightarrow> string \<Rightarrow> cmgr \<Rightarrow> cerr + peer_row" where
  "AuthenticatePeer node secret m =
     (if node = [] \<or> secret = [] then Inl UnknownPeer
      else case List.find (\<lambda>x. peID x = node) (cmPeers m) of
        None \<Rightarrow> Inl UnknownPeer
      | Some x \<Rightarrow> if peSecret x \<noteq> secret then Inl UnknownPeer else Inr x)"

definition CreateJoinToken :: "cenv \<Rightarrow> string \<Rightarrow> time \<Rightarrow> cmgr \<Rightarrow> cerr option \<times> cmgr" where
  "CreateJoinToken E hash now m =
     call_db E (InsertToken hash) (\<lambda>x. x\<lparr>cmTokens := cmTokens x @ [\<lparr>tkHash = hash, tkExpires = now + 900000000000, tkUsed = None\<rparr>]\<rparr>)
       (snd (call_db E CleanTokens
          (\<lambda>x. x\<lparr>cmTokens := filter (\<lambda>t. \<not> tkExpires t < now - 86400000000000) (cmTokens x)\<rparr>) m))"

definition token_valid :: "time \<Rightarrow> string \<Rightarrow> join_token \<Rightarrow> bool" where
  "token_valid now hash t \<longleftrightarrow> tkHash t = hash \<and> tkUsed t = None \<and> now < tkExpires t"

definition ValidJoinToken :: "time \<Rightarrow> (string \<Rightarrow> string) \<Rightarrow> string \<Rightarrow> cmgr \<Rightarrow> bool" where
  "ValidJoinToken now hash token m = (token \<noteq> [] \<and> list_ex (token_valid now (hash token)) (cmTokens m))"

definition dismiss_conflicts :: "string \<Rightarrow> csync \<Rightarrow> csync" where
  "dismiss_conflicts p d = d\<lparr>cConflicts := map (\<lambda>c. if cfPeer c = p then c\<lparr>cfOpen := False\<rparr> else c) (cConflicts d)\<rparr>"

definition drop_received :: "string \<Rightarrow> csync \<Rightarrow> csync" where
  "drop_received p d = d\<lparr>cPeerRevs := filter (\<lambda>x. pvPeer x \<noteq> p) (cPeerRevs d)\<rparr>"

definition put_peer :: "string \<Rightarrow> string \<Rightarrow> string \<Rightarrow> string \<Rightarrow> string \<Rightarrow> peer_row list \<Rightarrow> peer_row list" where
  "put_peer p name url secret pin ps =
     (if list_ex (\<lambda>x. peID x = p) ps
      then map (\<lambda>x. if peID x = p then x\<lparr>peName := name, peURL := url, peSecret := secret, pePin := pin, peCursor := 0,
             peServed := 0, peUnreachable := None, peFailed := False\<rparr> else x) ps
      else ps @ [\<lparr>peID = p, peName = name, peURL = url, peSecret = secret, pePin = pin, peCursor = 0, peServed = 0,
             peContact = None, peUnreachable = None, peFailed = False\<rparr>])"

definition savePeer :: "cenv \<Rightarrow> string \<Rightarrow> string \<Rightarrow> string \<Rightarrow> string \<Rightarrow> string \<Rightarrow> cmgr \<Rightarrow> cerr option \<times> cmgr" where
  "savePeer E p name url secret pin m =
     (case call_db E (SavePeer p)
         (\<lambda>x. x\<lparr>cmPeers := put_peer p name url secret pin (cmPeers x),
                 cmDb := dismiss_conflicts p (drop_received p (cmDb x))\<rparr>) m of
        (Some e, m1) \<Rightarrow> (Some e, m1)
      | (None, m1) \<Rightarrow> call_db E (SetSetting ''mode'' []) (\<lambda>x. x\<lparr>cmMode := []\<rparr>) m1)"

record join_request =
  jrNode :: string
  jrName :: string
  jrURL :: string

definition AcceptJoin ::
  "cenv \<Rightarrow> time \<Rightarrow> (string \<Rightarrow> string) \<Rightarrow> string \<Rightarrow> join_request \<Rightarrow> string \<Rightarrow> cmgr \<Rightarrow> cerr option \<times> cmgr" where
  "AcceptJoin E now hash token req secret m =
     (case call_db E ReadNodeID id m of
        (Some e, m1) \<Rightarrow> (Some e, m1)
      | (None, m1) \<Rightarrow>
          (if jrNode req = [] \<or> jrURL req = [] then (Some Incomplete, m1)
           else if jrNode req = cSelf E then (Some SameNode, m1)
           else case call_db E (UseToken (hash token))
               (\<lambda>x. x\<lparr>cmTokens := map (\<lambda>t. if token_valid now (hash token) t then t\<lparr>tkUsed := Some now\<rparr> else t) (cmTokens x)\<rparr>) m1 of
             (Some e, m2) \<Rightarrow> (Some e, m2)
           | (None, m2) \<Rightarrow>
               (if length (filter (token_valid now (hash token)) (cmTokens m1)) \<noteq> 1 then (Some InvalidToken, m2)
                else savePeer E (jrNode req) (jrName req) (jrURL req) secret [] m2)))"

definition forgetPeer :: "cenv \<Rightarrow> string \<Rightarrow> cmgr \<Rightarrow> cerr option \<times> cmgr" where
  "forgetPeer E p m =
     call_db E (ForgetPeer p)
       (\<lambda>x. x\<lparr>cmPeers := filter (\<lambda>y. peID y \<noteq> p) (cmPeers x), cmDb := dismiss_conflicts p (drop_received p (cmDb x))\<rparr>) m"

definition tellLeaving :: "cenv \<Rightarrow> string \<Rightarrow> cmgr \<Rightarrow> cmgr" where
  "tellLeaving E p m =
     (case call_db E ReadNodeID id m of
        (Some e, m1) \<Rightarrow> m1
      | (None, m1) \<Rightarrow> snd (call_db E (TellLeaving p) id m1))"

definition RemovePeer :: "cenv \<Rightarrow> string \<Rightarrow> cmgr \<Rightarrow> cerr option \<times> cmgr" where
  "RemovePeer E p m =
     (case call_db E LoadPeers id m of
        (Some e, m1) \<Rightarrow> (Some e, m1)
      | (None, m1) \<Rightarrow>
          (if List.find (\<lambda>x. peID x = p) (cmPeers m1) = None then (Some UnknownPeer, m1)
           else forgetPeer E p (tellLeaving E p m1)))"

fun leave_all :: "cenv \<Rightarrow> peer_row list \<Rightarrow> cmgr \<Rightarrow> cerr option \<times> cmgr" where
  "leave_all E [] m = (None, m)"
| "leave_all E (p # ps) m =
     (case forgetPeer E (peID p) (tellLeaving E (peID p) m) of
        (Some e, m1) \<Rightarrow> (Some e, m1)
      | (None, m1) \<Rightarrow> leave_all E ps m1)"

definition Detach :: "cenv \<Rightarrow> cmgr \<Rightarrow> cerr option \<times> cmgr" where
  "Detach E m =
     (case call_db E LoadPeers id m of
        (Some e, m1) \<Rightarrow> (Some e, m1)
      | (None, m1) \<Rightarrow>
          (case leave_all E (cmPeers m1) m1 of
             (Some e, m2) \<Rightarrow> (Some e, m2)
           | (None, m2) \<Rightarrow>
               (case call_db E (SetSetting ''since'' []) id m2 of
                  (Some e, m3) \<Rightarrow> (Some e, m3)
                | (None, m3) \<Rightarrow> call_db E (SetSetting ''mode'' ''independent'') (\<lambda>x. x\<lparr>cmMode := ''independent''\<rparr>) m3)))"

section \<open>A pull ends with everything\<close>

lemma filter_tail:
  fixes f :: "'a \<Rightarrow> int"
  assumes "sorted_wrt (\<lambda>x y. f x < f y) (ys @ l # zs)"
  shows "filter (\<lambda>r. f l < f r) (ys @ l # zs) = zs"
proof -
  have "filter (\<lambda>r. f l < f r) ys = []" using assms by (auto simp: sorted_wrt_append filter_empty_conv)
  moreover have "filter (\<lambda>r. f l < f r) zs = zs" using assms by (auto simp: sorted_wrt_append filter_id_conv)
  ultimately show ?thesis by simp
qed

lemma filter_after_last:
  assumes "sorted_wrt (<) (map rvID lg)" and "take n (filter (\<lambda>r. c < rvID r \<and> P r) lg) = xs" and "xs \<noteq> []"
  shows "filter (\<lambda>r. rvID (last xs) < rvID r \<and> P r) lg = drop n (filter (\<lambda>r. c < rvID r \<and> P r) lg)"
proof -
  define F where "F = filter (\<lambda>r. c < rvID r \<and> P r) lg"
  obtain ys l where xs: "xs = ys @ [l]" using assms(3) by (cases xs rule: rev_cases) auto
  have F: "F = ys @ l # drop n F" using append_take_drop_id [of n F] assms(2) by (simp add: F_def xs)
  have "sorted_wrt (\<lambda>x y. rvID x < rvID y) F"
    unfolding F_def using assms(1) by (intro sorted_wrt_filter) (simp add: sorted_wrt_map)
  then have tail: "filter (\<lambda>r. rvID l < rvID r) F = drop n F" using filter_tail [of rvID ys l "drop n F"] F by simp
  have "l \<in> set F" by (subst F) simp
  then have "c < rvID l" by (simp add: F_def)
  then have "filter (\<lambda>r. rvID l < rvID r \<and> P r) lg = filter (\<lambda>r. rvID l < rvID r) F"
    by (auto simp: F_def filter_filter intro: filter_cong)
  then show ?thesis using tail by (simp add: xs F_def)
qed

lemma fetch_pages:
  assumes "sorted_wrt (<) (map rvID lg)"
  shows "fetch_from (\<lambda>c. Inr (ServeRevisions self name lg c 500)) cursor acc =
     Some (Inr \<lparr>pgNode = self, pgName = name, pgRevs = acc @ filter (\<lambda>r. cursor < rvID r \<and> servable r) lg\<rparr>)"
proof (induction "length (filter (\<lambda>r. cursor < rvID r \<and> servable r) lg)" arbitrary: cursor acc rule: less_induct)
  case less
  let ?F = "\<lambda>c. filter (\<lambda>r. c < rvID r \<and> servable r) lg"
  let ?pg = "ServeRevisions self name lg cursor 500"
  have pg: "pgRevs ?pg = take 500 (?F cursor)" "pgNode ?pg = self" "pgName ?pg = name"
    by (simp_all add: ServeRevisions_def pageSize_def)
  show ?case
  proof (cases "length (?F cursor) < 500")
    case True
    then show ?thesis by (subst fetch_from.simps) (simp add: ServeRevisions_def pageSize_def)
  next
    case False
    let ?c = "rvID (last (pgRevs ?pg))"
    have ne: "take 500 (?F cursor) \<noteq> []" using False by auto
    have more: "?F ?c = drop 500 (?F cursor)" using filter_after_last [OF assms refl ne] by (simp add: pg(1))
    have "length (?F ?c) < length (?F cursor)" using False by (simp add: more)
    then have "fetch_from (\<lambda>c. Inr (ServeRevisions self name lg c 500)) ?c (acc @ pgRevs ?pg) =
       Some (Inr \<lparr>pgNode = self, pgName = name, pgRevs = (acc @ pgRevs ?pg) @ ?F ?c\<rparr>)" by (rule less)
    moreover have "pgRevs ?pg @ ?F ?c = ?F cursor" unfolding more by (simp add: pg)
    ultimately show ?thesis using False by (subst fetch_from.simps) (simp add: pg pageSize_def)
  qed
qed

section \<open>What a sync leaves known\<close>

lemma merge_heads_received:
  "merge_heads E p imported a lt hs s = ((e, x), t) \<Longrightarrow> received t = received s"
proof (induction hs arbitrary: s e x t)
  case (Cons h hs)
  obtain e1 x1 s1 where m: "merge_head E p imported a (lt (res_id (pvRev h))) (pvRev h) s = ((e1, x1), s1)"
    by (metis prod.exhaust)
  obtain e2 x2 s2 where r: "merge_heads E p imported a lt hs s1 = ((e2, x2), s2)" by (metis prod.exhaust)
  have "received s1 = received s" using merge_head_appends [OF m] by (simp add: appends_def)
  then show ?case
    using Cons.prems Cons.IH [OF r] Cons.IH [of s e x t] m r by (cases e1) (auto split: if_splits)
qed simp

lemma evaluate_received: "evaluate E p s = (e, t) \<Longrightarrow> received t = received s"
  unfolding evaluate_def
  by (auto simp del: cperform_all.simps split: if_splits prod.splits option.splits
        dest!: capture_evolves(2) cperform_all_keeps merge_heads_received supersede_keeps)

definition known_uids_at :: "cmgr \<Rightarrow> string set" where
  "known_uids_at m = rvUID ` set (received (cmDb m))"

text \<open>Every revision the peer serves up to an id is among the received ones.\<close>

definition covered :: "revision list \<Rightarrow> int \<Rightarrow> cmgr \<Rightarrow> bool" where
  "covered lg cur m \<longleftrightarrow> (\<forall>r \<in> set lg. servable r \<and> rvID r \<le> cur \<longrightarrow> rvUID r \<in> known_uids_at m)"

lemma store_one_received: "rvUID ` set (received (store_one p r s)) = insert (rvUID r) (rvUID ` set (received s))"
  unfolding store_one_def received_def by (auto simp: list_ex_iff image_image) (metis imageI)

lemma storeReceived_all:
  "storeReceived E p rs s = ((e, b), t) \<Longrightarrow>
   rvUID ` set (received s) \<subseteq> rvUID ` set (received t) \<and>
   (e = None \<longrightarrow> (\<forall>r \<in> set rs. receivable r \<longrightarrow> rvUID r \<in> rvUID ` set (received t)))"
proof (induction E p rs s arbitrary: e b t rule: storeReceived.induct)
  case (2 E p x rs s)
  obtain e1 s1 where c: "cdo E (StoreRev p x) (store_one p x) s = (e1, s1)" by force
  obtain e2 b2 t2 where r2: "storeReceived E p rs s1 = ((e2, b2), t2)" by (metis prod.exhaust)
  have s1: "rvUID ` set (received s1) = (if e1 = None then insert (rvUID x) (rvUID ` set (received s)) else rvUID ` set (received s))"
    using c store_one_received [of p x "s\<lparr>cTrace := cTrace s @ [StoreRev p x]\<rparr>"]
    by (auto simp: cdo_def cperform_def split: option.splits)
  show ?case
  proof (cases "receivable x")
    case False
    then show ?thesis using "2.IH"(1) [OF False, of e b t] "2.prems" by auto
  next
    case rec: True
    show ?thesis
    proof (cases e1)
      case None
      have "rvUID ` set (received s1) \<subseteq> rvUID ` set (received t2) \<and>
          (e2 = None \<longrightarrow> (\<forall>r \<in> set rs. receivable r \<longrightarrow> rvUID r \<in> rvUID ` set (received t2)))"
        using "2.IH"(2) rec c None r2 by force
      then show ?thesis using "2.prems" rec c None r2 s1 by auto
    qed (use "2.prems" rec c s1 in auto)
  qed
qed simp

lemma call_db_received:
  "call_db E a f m = (e, m') \<Longrightarrow> (\<And>x. cmDb (f x) = cmDb x) \<Longrightarrow> known_uids_at m' = known_uids_at m"
  by (auto simp: call_db_def known_uids_at_def cperform_def split: option.splits)

lemma change_peer_db [simp]: "cmDb (change_peer p f m) = cmDb m"
  by (simp add: change_peer_def)

lemma unreachable_received: "known_uids_at (unreachable E now p m) = known_uids_at m"
  unfolding unreachable_def by (rule call_db_received [OF prod.collapse [symmetric]]) simp

lemma take_page_db:
  assumes "take_page E pg seen now full p m = (e, m')"
    and st: "storeReceived E (peID p) (pgRevs pg) (cmDb m) = ((e1, fresh), d)"
  shows "known_uids_at m' = rvUID ` set (received d)" and "e = None \<Longrightarrow> e1 = None"
proof -
  let ?f = "change_peer (peID p) (contacted now pg seen (peCursor p))"
  obtain e2 m2 where u: "call_db E (UpdatePeer (peID p)) ?f (m\<lparr>cmDb := d\<rparr>) = (e2, m2)" by (metis prod.exhaust)
  have m2: "known_uids_at m2 = rvUID ` set (received d)"
    using call_db_received [OF u] by (simp add: known_uids_at_def)
  have mp: "known_uids_at m3 = known_uids_at x" if "merge_peer E q x = (e3, m3)" for q x e3 m3
    using that evaluate_received by (auto simp: merge_peer_def known_uids_at_def split: prod.splits)
  have "known_uids_at m' = rvUID ` set (received d) \<and> (e = None \<longrightarrow> e1 = None)"
    using assms u m2 mp [of "peID p" "m2\<lparr>cmFull := (peID p, now) # cmFull m2\<rparr>"]
    by (cases e1; cases e2) (auto simp: take_page_def known_uids_at_def split: if_splits)
  then show "known_uids_at m' = rvUID ` set (received d)" and "e = None \<Longrightarrow> e1 = None" by simp_all
qed

lemma take_page_received:
  assumes "take_page E pg seen now full p m = (e, m')"
  shows "known_uids_at m \<subseteq> known_uids_at m'"
    and "e = None \<Longrightarrow> r \<in> set (pgRevs pg) \<Longrightarrow> receivable r \<Longrightarrow> rvUID r \<in> known_uids_at m'"
proof -
  obtain e1 fresh d where st: "storeReceived E (peID p) (pgRevs pg) (cmDb m) = ((e1, fresh), d)" by (metis prod.exhaust)
  show "known_uids_at m \<subseteq> known_uids_at m'"
    and "e = None \<Longrightarrow> r \<in> set (pgRevs pg) \<Longrightarrow> receivable r \<Longrightarrow> rvUID r \<in> known_uids_at m'"
    using storeReceived_all [OF st] take_page_db [OF assms st] by (simp_all add: known_uids_at_def)
qed

lemma take_page_peers:
  assumes "take_page E pg seen now full p m = (e, m')"
    and st: "storeReceived E (peID p) (pgRevs pg) (cmDb m) = ((e1, fresh), d)"
  shows "cmPeers m' = cmPeers m \<or> e1 = None"
  using assms by (cases e1) (auto simp: take_page_def)

text \<open>The stored cursors of a peer are behind what was received of its log.\<close>

definition cursors_covered :: "revision list \<Rightarrow> string \<Rightarrow> cmgr \<Rightarrow> bool" where
  "cursors_covered lg q m \<longleftrightarrow> (\<forall>x \<in> set (cmPeers m). peID x = q \<longrightarrow> covered lg (peCursor x) m)"

text \<open>
  C40. Suppose everything a peer's log serves up to the stored cursor was received, as for a new peer, whose cursor
  is before its log. Then a sync with this peer, which serves its log, ends; it loses nothing received, whichever
  call fails; when it succeeds this node has received every revision the peer serves, whatever the size of its log;
  and in every case everything up to the cursor stored afterwards was received, so the next sync starts the same way.
\<close>

theorem sync_complete:
  assumes "sorted_wrt (<) (map rvID lg)" and "\<forall>r \<in> set lg. rvUID r \<noteq> []" and "p \<in> set (cmPeers m)"
    and "cursors_covered lg (peID p) m"
  shows "\<exists>e m'. syncPeer E (\<lambda>c. Inr (ServeRevisions (peID p) name lg c 500)) seen now full p m = Some (e, m') \<and>
           known_uids_at m \<subseteq> known_uids_at m' \<and> cursors_covered lg (peID p) m' \<and>
           (e = None \<longrightarrow> (\<forall>r \<in> set lg. servable r \<longrightarrow> rvUID r \<in> known_uids_at m'))"
proof -
  have old: "covered lg (peCursor p) m" using assms(3,4) by (simp add: cursors_covered_def)
  obtain e1 m1 where i: "call_db E ReadNodeID id m = (e1, m1)" by force
  have m1: "known_uids_at m1 = known_uids_at m" "cmPeers m1 = cmPeers m"
    using call_db_received [OF i] i by (auto simp: call_db_def split: prod.splits option.splits)
  have kept: "cursors_covered lg (peID p) x" if "known_uids_at m \<subseteq> known_uids_at x" "cmPeers x = cmPeers m" for x
    using assms(4) that by (auto simp: cursors_covered_def covered_def)
  let ?pg = "\<lparr>pgNode = peID p, pgName = name, pgRevs = filter (\<lambda>r. peCursor p < rvID r \<and> servable r) lg\<rparr>"
  have fetch: "fetch_from (\<lambda>c. Inr (ServeRevisions (peID p) name lg c 500)) (peCursor p) [] = Some (Inr ?pg)"
    using fetch_pages [OF assms(1), of "peID p" name "peCursor p" "[]"] by simp
  obtain e2 m2 where t: "take_page E ?pg seen now full p m1 = (e2, m2)" by (metis prod.exhaust)
  note got = take_page_received [OF t]
  obtain e3 fresh d where st: "storeReceived E (peID p) (pgRevs ?pg) (cmDb m1) = ((e3, fresh), d)" by (metis prod.exhaust)
  have all: "rvUID r \<in> known_uids_at m2" if "e3 = None" "r \<in> set lg" "servable r" for r
  proof (cases "rvID r \<le> peCursor p")
    case True
    then show ?thesis using old that m1 got(1) by (auto simp: covered_def)
  next
    case False
    then have "r \<in> set (pgRevs ?pg)" "receivable r" using that assms(2) by (auto simp: receivable_def servable_def)
    then show ?thesis using storeReceived_all [OF st] take_page_db(1) [OF t st] that(1) by auto
  qed
  have cursor: "cursors_covered lg (peID p) m2"
    using take_page_peers [OF t st] kept [of m2] all got(1) m1 by (auto simp: cursors_covered_def covered_def)
  show ?thesis
  proof (cases e1)
    case None
    then have "syncPeer E (\<lambda>c. Inr (ServeRevisions (peID p) name lg c 500)) seen now full p m = Some (e2, m2)"
      using i fetch t by (simp add: syncPeer_def fetched_def)
    then show ?thesis using all got(1) m1 cursor take_page_db(2) [OF t st] by auto
  next
    case (Some x)
    then have "syncPeer E (\<lambda>c. Inr (ServeRevisions (peID p) name lg c 500)) seen now full p m = Some (Some x, m1)"
      using i by (simp add: syncPeer_def)
    then show ?thesis using m1 kept [of m1] by auto
  qed
qed

definition sample_peer_row :: "string \<Rightarrow> int \<Rightarrow> peer_row" where
  "sample_peer_row p cur =
     \<lparr>peID = p, peName = p, peURL = [], peSecret = ''s'', pePin = [], peCursor = cur, peServed = 0, peContact = None,
      peUnreachable = None, peFailed = False\<rparr>"

definition sample_cmgr :: "csync \<Rightarrow> peer_row list \<Rightarrow> cmgr" where
  "sample_cmgr d ps = \<lparr>cmDb = d, cmPeers = ps, cmTokens = [], cmMode = [], cmFull = []\<rparr>"

lemma sync_complete_witness:
  "\<exists>e m'. syncPeer (sample_cenv ''x'') (\<lambda>c. Inr (ServeRevisions ''b'' ''b'' [sample_rev ''2'' ''1'' [] 2 ''y''] c 500)) [] 0 True
      (sample_peer_row ''b'' 0) (sample_cmgr (sample_csync (sample_rev ''1'' [] [] 2 ''x'') []) [sample_peer_row ''b'' 0]) = Some (e, m')"
  using sync_complete [of "[sample_rev ''2'' ''1'' [] 2 ''y'']" "sample_peer_row ''b'' 0"
      "sample_cmgr (sample_csync (sample_rev ''1'' [] [] 2 ''x'') []) [sample_peer_row ''b'' 0]" "sample_cenv ''x''" "''b''" "[]" 0 True]
  by (auto simp: sample_peer_row_def sample_cmgr_def cursors_covered_def covered_def sample_rev_def)

section \<open>Leaving a peer\<close>

lemma storeReceived_only:
  "storeReceived E p rs s = ((e, b), t) \<Longrightarrow> rvUID ` set (received t) \<subseteq> rvUID ` set (received s) \<union> rvUID ` set rs"
proof (induction E p rs s arbitrary: e b t rule: storeReceived.induct)
  case (2 E p x rs s)
  obtain e1 s1 where c: "cdo E (StoreRev p x) (store_one p x) s = (e1, s1)" by force
  obtain e2 b2 t2 where r2: "storeReceived E p rs s1 = ((e2, b2), t2)" by (metis prod.exhaust)
  have s1: "rvUID ` set (received s1) \<subseteq> insert (rvUID x) (rvUID ` set (received s))"
    using c store_one_received [of p x "s\<lparr>cTrace := cTrace s @ [StoreRev p x]\<rparr>"]
    by (auto simp: cdo_def cperform_def split: option.splits)
  show ?case
  proof (cases "receivable x")
    case False
    then show ?thesis using "2.IH"(1) [OF False, of e b t] "2.prems" by auto
  next
    case rec: True
    show ?thesis
    proof (cases e1)
      case None
      have "rvUID ` set (received t2) \<subseteq> rvUID ` set (received s1) \<union> rvUID ` set rs"
        using "2.IH"(2) [OF _ c [symmetric]] rec None r2 by simp
      moreover have "t = t2" using "2.prems" rec c None r2 by simp
      ultimately show ?thesis using s1 by (simp add: subset_iff) blast
    next
      case (Some y)
      then have "t = s1" using "2.prems" rec c by simp
      then show ?thesis using s1 by (simp add: subset_iff) blast
    qed
  qed
qed simp

lemma take_page_only:
  assumes "take_page E pg seen now full p m = (e, m')"
  shows "known_uids_at m' \<subseteq> known_uids_at m \<union> rvUID ` set (pgRevs pg)"
proof -
  obtain e1 fresh d where st: "storeReceived E (peID p) (pgRevs pg) (cmDb m) = ((e1, fresh), d)" by (metis prod.exhaust)
  show ?thesis using storeReceived_only [OF st] take_page_db(1) [OF assms st] by (simp add: known_uids_at_def)
qed

text \<open>
  A revision this node received from a peer first and has not adopted yet (its pool is not imported,
  it is in conflict or blocked) is lost when that peer is removed: another peer that has adopted it served
  it before, so its cursor is past it, and no later pull from that peer brings it again.
\<close>

theorem forget_loses:
  assumes "forgetPeer E p m = (None, m1)"
    and "\<forall>x \<in> set (cPeerRevs (cmDb m)). rvUID (pvRev x) = rvUID r \<longrightarrow> pvPeer x = p"
    and "sorted_wrt (<) (map rvID lg)" and "distinct (map rvUID lg)" and "r \<in> set lg" and "rvID r \<le> peCursor q"
    and "syncPeer E' (\<lambda>c. Inr (ServeRevisions (peID q) name lg c 500)) seen now full q m1 = Some (e, m2)"
  shows "rvUID r \<notin> known_uids_at m2"
proof -
  have m1: "rvUID r \<notin> known_uids_at m1"
    using assms(1,2)
    by (auto simp: forgetPeer_def call_db_def cperform_def drop_received_def dismiss_conflicts_def known_uids_at_def received_def
          split: option.splits)
  obtain e3 m3 where i: "call_db E' ReadNodeID id m1 = (e3, m3)" by force
  have m3: "known_uids_at m3 = known_uids_at m1" using call_db_received [OF i] by simp
  let ?pg = "\<lparr>pgNode = peID q, pgName = name, pgRevs = filter (\<lambda>r. peCursor q < rvID r \<and> servable r) lg\<rparr>"
  have fetch: "fetch_from (\<lambda>c. Inr (ServeRevisions (peID q) name lg c 500)) (peCursor q) [] = Some (Inr ?pg)"
    using fetch_pages [OF assms(3), of "peID q" name "peCursor q" "[]"] by simp
  have "rvUID r \<notin> rvUID ` set (pgRevs ?pg)"
    using assms(4-6) by (auto simp: distinct_map inj_on_def)
  then show ?thesis
    using assms(7) i fetch m1 m3 take_page_only [of E' ?pg seen now full q m3]
    by (cases e3) (auto simp: syncPeer_def fetched_def)
qed

lemma forget_loses_witness:
  "''2'' \<notin> known_uids_at (snd (the (syncPeer (sample_cenv ''x'')
     (\<lambda>c. Inr (ServeRevisions ''c'' ''c'' [sample_rev ''2'' ''1'' [] 2 ''y''] c 500)) [] 0 True (sample_peer_row ''c'' 1)
     (snd (forgetPeer (sample_cenv ''x'') ''b''
        (sample_cmgr (sample_csync (sample_rev ''1'' [] [] 2 ''x'') [sample_rev ''2'' ''1'' [] 2 ''y''])
           [sample_peer_row ''b'' 1, sample_peer_row ''c'' 1]))))))"
proof -
  let ?r = "sample_rev ''2'' ''1'' [] 2 ''y''"
  let ?m = "sample_cmgr (sample_csync (sample_rev ''1'' [] [] 2 ''x'') [?r]) [sample_peer_row ''b'' 1, sample_peer_row ''c'' 1]"
  let ?F = "forgetPeer (sample_cenv ''x'') ''b'' ?m"
  let ?S = "syncPeer (sample_cenv ''x'') (\<lambda>c. Inr (ServeRevisions ''c'' ''c'' [?r] c 500)) [] 0 True (sample_peer_row ''c'' 1) (snd ?F)"
  have F: "?F = (None, snd ?F)" by (simp add: forgetPeer_def call_db_def cperform_def sample_cenv_def)
  have q: "peID (sample_peer_row ''c'' 1) = ''c''" by (simp add: sample_peer_row_def)
  obtain e m2 where S: "?S = Some (e, m2)"
    using sync_complete [of "[?r]" "sample_peer_row ''c'' 1" "?m" "sample_cenv ''x''" "''c''" "[]" 0 True]
      fetch_pages [of "[?r]" "''c''" "''c''" 1 "[]"]
    by (cases ?S) (auto simp: syncPeer_def sample_peer_row_def split: prod.splits option.splits)
  have "rvUID ?r \<notin> known_uids_at m2"
    by (rule forget_loses [OF F, of ?r "[?r]" "sample_peer_row ''c'' 1"])
      (use S in \<open>simp_all add: q sample_cmgr_def sample_csync_def sample_peer_row_def sample_rev_def\<close>)
  then have "rvUID ?r \<notin> known_uids_at (snd (the ?S))" using S by simp
  moreover have "rvUID ?r = ''2''" by (simp add: sample_rev_def)
  ultimately show ?thesis by metis
qed

section \<open>Join tokens\<close>

definition spent_token :: "string \<Rightarrow> cmgr \<Rightarrow> bool" where
  "spent_token h m \<longleftrightarrow> (\<forall>t \<in> set (cmTokens m). tkHash t = h \<longrightarrow> tkUsed t \<noteq> None)"

lemma call_db_tokens:
  "call_db E a f m = (e, m') \<Longrightarrow> (\<And>x. cmTokens (f x) = cmTokens x) \<Longrightarrow> cmTokens m' = cmTokens m"
  by (auto simp: call_db_def split: prod.splits option.splits)

lemma change_peer_tokens [simp]: "cmTokens (change_peer p f m) = cmTokens m"
  by (simp add: change_peer_def)

lemma forgetPeer_tokens: "forgetPeer E p m = (e, m') \<Longrightarrow> cmTokens m' = cmTokens m"
  unfolding forgetPeer_def by (erule call_db_tokens) simp

lemma savePeer_tokens: "savePeer E p name url secret pin m = (e, m') \<Longrightarrow> cmTokens m' = cmTokens m"
  unfolding savePeer_def by (auto split: prod.splits option.splits dest!: call_db_tokens)

lemma tellLeaving_tokens: "cmTokens (tellLeaving E p m) = cmTokens m"
  by (auto simp: tellLeaving_def call_db_def split: prod.splits option.splits)

lemma RemovePeer_tokens: "RemovePeer E p m = (e, m') \<Longrightarrow> cmTokens m' = cmTokens m"
  unfolding RemovePeer_def
  by (auto split: prod.splits option.splits if_splits simp: tellLeaving_tokens dest!: call_db_tokens forgetPeer_tokens)

lemma leave_all_tokens: "leave_all E ps m = (e, m') \<Longrightarrow> cmTokens m' = cmTokens m"
proof (induction ps arbitrary: m)
  case (Cons p ps)
  then show ?case
    by (auto split: prod.splits option.splits simp: tellLeaving_tokens dest!: forgetPeer_tokens)
qed simp

lemma Detach_tokens: "Detach E m = (e, m') \<Longrightarrow> cmTokens m' = cmTokens m"
  unfolding Detach_def
  by (auto split: prod.splits option.splits dest!: call_db_tokens leave_all_tokens)

lemma take_page_tokens: "take_page E pg seen now full p m = (e, m') \<Longrightarrow> cmTokens m' = cmTokens m"
  unfolding take_page_def merge_peer_def
  by (auto split: prod.splits option.splits if_splits dest!: call_db_tokens)

lemma unreachable_tokens: "cmTokens (unreachable E now p m) = cmTokens m"
  unfolding unreachable_def by (rule call_db_tokens [OF prod.collapse [symmetric]]) simp

lemma syncPeer_tokens: "syncPeer E pages seen now full p m = Some (e, m') \<Longrightarrow> cmTokens m' = cmTokens m"
  unfolding syncPeer_def
  by (auto split: prod.splits option.splits sum.splits simp: unreachable_tokens dest!: call_db_tokens take_page_tokens)

text \<open>What can happen after a join, besides issuing the same token again.\<close>

inductive pair_step :: "(string \<Rightarrow> string) \<Rightarrow> string \<Rightarrow> cmgr \<Rightarrow> cmgr \<Rightarrow> bool" for hash token where
  pair_join: "AcceptJoin E now hash token' req secret m = (e, m') \<Longrightarrow> pair_step hash token m m'"
| pair_token: "CreateJoinToken E h now m = (e, m') \<Longrightarrow> h \<noteq> hash token \<Longrightarrow> pair_step hash token m m'"
| pair_save: "savePeer E p name url secret pin m = (e, m') \<Longrightarrow> pair_step hash token m m'"
| pair_remove: "RemovePeer E p m = (e, m') \<Longrightarrow> pair_step hash token m m'"
| pair_forget: "forgetPeer E p m = (e, m') \<Longrightarrow> pair_step hash token m m'"
| pair_detach: "Detach E m = (e, m') \<Longrightarrow> pair_step hash token m m'"
| pair_sync: "syncPeer E pages seen now full p m = Some (e, m') \<Longrightarrow> pair_step hash token m m'"

lemma use_tokens:
  "AcceptJoin E now hash token req secret m = (e, m') \<Longrightarrow>
   cmTokens m' = cmTokens m \<or>
   cmTokens m' = map (\<lambda>t. if token_valid now (hash token) t then t\<lparr>tkUsed := Some now\<rparr> else t) (cmTokens m) \<and>
     (e = None \<longrightarrow> length (filter (token_valid now (hash token)) (cmTokens m)) = 1)"
  unfolding AcceptJoin_def call_db_def
  by (auto split: prod.splits option.splits if_splits dest!: savePeer_tokens)

lemma AcceptJoin_uses:
  assumes "AcceptJoin E now hash token req secret m = (None, m')"
  shows "cmTokens m' = map (\<lambda>t. if token_valid now (hash token) t then t\<lparr>tkUsed := Some now\<rparr> else t) (cmTokens m)"
    and "length (filter (token_valid now (hash token)) (cmTokens m)) = 1"
  using assms unfolding AcceptJoin_def call_db_def
  by (auto split: prod.splits option.splits if_splits dest!: savePeer_tokens)

text \<open>A token is in the table once (its hash is the key).\<close>

lemma AcceptJoin_spends:
  assumes "AcceptJoin E now hash token req secret m = (None, m')" and "distinct (map tkHash (cmTokens m))"
  shows "spent_token (hash token) m'"
proof -
  obtain t where t: "t \<in> set (cmTokens m)" "token_valid now (hash token) t"
    using AcceptJoin_uses(2) [OF assms(1)] by (metis filter_False length_0_conv zero_neq_one)
  have "u = t" if "u \<in> set (cmTokens m)" "tkHash u = hash token" for u
    using that t assms(2) by (auto simp: token_valid_def distinct_map inj_on_def)
  then show ?thesis
    using t(2) AcceptJoin_uses(1) [OF assms(1)] by (auto simp: spent_token_def)
qed

lemma spent_use:
  "spent_token h m \<Longrightarrow> cmTokens m' = map (\<lambda>t. if P t then t\<lparr>tkUsed := Some now\<rparr> else t) (cmTokens m) \<Longrightarrow> spent_token h m'"
  by (auto simp: spent_token_def)

lemma spent_cong: "cmTokens m' = cmTokens m \<Longrightarrow> spent_token h m \<Longrightarrow> spent_token h m'"
  by (simp add: spent_token_def)

lemma spent_step: "pair_step hash token m m' \<Longrightarrow> spent_token (hash token) m \<Longrightarrow> spent_token (hash token) m'"
proof (induction rule: pair_step.induct)
  case (pair_join E now token' req secret m e m')
  then show ?case using use_tokens [OF pair_join(1)] spent_use spent_cong by metis
next
  case (pair_token E h now m e m')
  then show ?case
    by (auto simp: CreateJoinToken_def call_db_def spent_token_def split: prod.splits option.splits)
qed (auto dest: savePeer_tokens RemovePeer_tokens forgetPeer_tokens Detach_tokens syncPeer_tokens intro: spent_cong)

lemma spent_refused:
  assumes "spent_token (hash token) m"
  shows "fst (AcceptJoin E now hash token req secret m) \<noteq> None"
proof
  assume "fst (AcceptJoin E now hash token req secret m) = None"
  then have a: "AcceptJoin E now hash token req secret m = (None, snd (AcceptJoin E now hash token req secret m))"
    by (metis prod.collapse)
  have "filter (token_valid now (hash token)) (cmTokens m) = []"
    using assms by (auto simp: spent_token_def token_valid_def filter_empty_conv)
  then show False using AcceptJoin_uses(2) [OF a] by simp
qed

text \<open>
  A join token pairs one node: after it was accepted, no request with it is accepted again, whatever
  nodes join, leave or are pulled from in between, unless the same token is issued once more.
\<close>

theorem join_token_once:
  assumes "AcceptJoin E now hash token req secret m = (None, m1)" and "distinct (map tkHash (cmTokens m))"
    and "(pair_step hash token)\<^sup>*\<^sup>* m1 m2"
  shows "fst (AcceptJoin E' now' hash token req' secret' m2) \<noteq> None"
proof -
  have "spent_token (hash token) m2"
    using assms(3) AcceptJoin_spends [OF assms(1,2)] by (induction rule: rtranclp_induct) (auto intro: spent_step)
  then show ?thesis by (rule spent_refused)
qed

lemma join_token_once_witness:
  "let m = (sample_cmgr (sample_csync (sample_rev ''1'' [] [] 2 ''x'') []) [])\<lparr>cmTokens := [\<lparr>tkHash = ''h'', tkExpires = 10, tkUsed = None\<rparr>]\<rparr>;
       req = \<lparr>jrNode = ''b'', jrName = ''b'', jrURL = ''u''\<rparr>;
       m1 = snd (AcceptJoin (sample_cenv ''x'') 5 (\<lambda>t. ''h'') ''t'' req ''s'' m) in
   fst (AcceptJoin (sample_cenv ''x'') 6 (\<lambda>t. ''h'') ''t'' req ''s'' m1) \<noteq> None"
proof -
  let ?m = "(sample_cmgr (sample_csync (sample_rev ''1'' [] [] 2 ''x'') []) [])\<lparr>cmTokens := [\<lparr>tkHash = ''h'', tkExpires = 10, tkUsed = None\<rparr>]\<rparr>"
  let ?req = "\<lparr>jrNode = ''b'', jrName = ''b'', jrURL = ''u''\<rparr>"
  let ?A = "AcceptJoin (sample_cenv ''x'') 5 (\<lambda>t. ''h'') ''t'' ?req ''s'' ?m"
  have "fst ?A = None" by code_simp
  then have A: "?A = (None, snd ?A)" by (metis prod.collapse)
  have "fst (AcceptJoin (sample_cenv ''x'') 6 (\<lambda>t. ''h'') ''t'' ?req ''s'' (snd ?A)) \<noteq> None"
    by (rule join_token_once [OF A]) simp_all
  then show ?thesis by (simp add: Let_def)
qed

end
