(* ===== verification/AuditLog.thy ===== *)
theory AuditLog
  imports GoText "HOL-Library.Sublist"
begin

text \<open>
  The audit log (\<open>internal/audit/buffered_logger.go\<close>, \<open>chain.go\<close>, \<open>handlers/audit_verify.go\<close>, the
  rotation of \<open>handlers/enterprise_hardening.go\<close> and \<open>cmd/dplaned/main.go\<close>): events are buffered or written
  at once, every row carries an HMAC over itself and the hash of the row before, and a verification
  computes the hashes again. \<open>mac key m\<close> stands for the hexadecimal HMAC-SHA256 of \<open>m\<close>. The answers of
  the database during one transaction are a record; the identifiers of a transaction that was rolled
  back are used again, since only their order matters.
\<close>

section \<open>Events, rows and the hash of a row\<close>

record audit_event =
  aeTime :: int
  aeActor :: string
  aeAction :: string
  aeResource :: string
  aeDetails :: string
  aeIP :: string
  aeSuccess :: bool

record audit_row =
  arId :: int
  arTime :: int
  arActor :: string
  arAction :: string
  arResource :: string
  arDetails :: string
  arIP :: string
  arSuccess :: int
  arPrev :: string
  arHash :: string

type_synonym mac = "string \<Rightarrow> string \<Rightarrow> string"

definition bool_text :: "bool \<Rightarrow> string" where
  "bool_text b = (if b then ''true'' else ''false'')"

definition audit_message :: "string \<Rightarrow> audit_event \<Rightarrow> string" where
  "audit_message prev e = join_with ''|''
     [prev, show_int (aeTime e), aeActor e, aeAction e, aeResource e, aeDetails e, aeIP e, bool_text (aeSuccess e)]"

text \<open>A missing key is the empty string.\<close>

definition computeRowHash :: "mac \<Rightarrow> string \<Rightarrow> string \<Rightarrow> audit_event \<Rightarrow> string" where
  "computeRowHash mac key prev e = (if key = [] then [] else mac key (audit_message prev e))"

definition boolInt :: "bool \<Rightarrow> int" where
  "boolInt b = (if b then 1 else 0)"

definition row_of_event :: "int \<Rightarrow> audit_event \<Rightarrow> string \<Rightarrow> string \<Rightarrow> audit_row" where
  "row_of_event i e prev h =
     \<lparr>arId = i, arTime = aeTime e, arActor = aeActor e, arAction = aeAction e, arResource = aeResource e,
      arDetails = aeDetails e, arIP = aeIP e, arSuccess = boolInt (aeSuccess e), arPrev = prev, arHash = h\<rparr>"

section \<open>The logger\<close>

record buffered_logger =
  blKey :: string
  blMax :: nat
  blBuffer :: "audit_event list"
  alRows :: "audit_row list"
  alNext :: int

definition NewBufferedLogger :: "int \<Rightarrow> string \<Rightarrow> audit_row list \<Rightarrow> int \<Rightarrow> buffered_logger" where
  "NewBufferedLogger m key rows i =
     \<lparr>blKey = key, blMax = nat (if m \<le> 0 then 100 else m), blBuffer = [], alRows = rows, alNext = i\<rparr>"

text \<open>The answers of the database in one transaction: \<open>adInsert i\<close> for the insertion number \<open>i\<close>.\<close>

record audit_db =
  adBegin :: bool
  adRead :: bool
  adPrepare :: bool
  adInsert :: "nat \<Rightarrow> bool"
  adCommit :: bool

datatype audit_error = BeginFailed | PrepareFailed | InsertFailed | CommitFailed

definition tail_hash :: "audit_row list \<Rightarrow> string" where
  "tail_hash rows = (if rows = [] then [] else arHash (last rows))"

text \<open>An error of the query for the last hash is ignored: the empty hash is used.\<close>

definition prev_hash :: "audit_db \<Rightarrow> buffered_logger \<Rightarrow> string" where
  "prev_hash D s = (if blKey s \<noteq> [] \<and> adRead D then tail_hash (alRows s) else [])"

fun insert_events :: "mac \<Rightarrow> string \<Rightarrow> audit_db \<Rightarrow> nat \<Rightarrow> string \<Rightarrow> int \<Rightarrow> audit_event list \<Rightarrow> audit_row list option" where
  "insert_events mac key D n prev i [] = Some []"
| "insert_events mac key D n prev i (e # es) =
     (let h = computeRowHash mac key prev e in
      if \<not> adInsert D n then None
      else map_option (\<lambda>rs. row_of_event i e prev h # rs) (insert_events mac key D (Suc n) h (i + 1) es))"

definition writeDirect ::
    "mac \<Rightarrow> audit_db \<Rightarrow> audit_event list \<Rightarrow> buffered_logger \<Rightarrow> audit_error option \<times> buffered_logger" where
  "writeDirect mac D es s =
     (if \<not> adBegin D then (Some BeginFailed, s)
      else if \<not> adPrepare D then (Some PrepareFailed, s)
      else case insert_events mac (blKey s) D 0 (prev_hash D s) (alNext s) es of
        None \<Rightarrow> (Some InsertFailed, s)
      | Some rs \<Rightarrow>
          if \<not> adCommit D then (Some CommitFailed, s)
          else (None, s\<lparr>alRows := alRows s @ rs, alNext := alNext s + int (length rs)\<rparr>))"

definition Flush :: "mac \<Rightarrow> audit_db \<Rightarrow> buffered_logger \<Rightarrow> audit_error option \<times> buffered_logger" where
  "Flush mac D s =
     (if blBuffer s = [] then (None, s) else writeDirect mac D (blBuffer s) (s\<lparr>blBuffer := []\<rparr>))"

definition SecurityActions :: "string list" where
  "SecurityActions =
     [''login'', ''login_failed'', ''logout'', ''auth_failed'', ''permission_denied'', ''user_created'',
      ''user_deleted'', ''password_changed'', ''token_created'', ''token_revoked'']"

definition Log :: "mac \<Rightarrow> audit_db \<Rightarrow> audit_event \<Rightarrow> buffered_logger \<Rightarrow> audit_error option \<times> buffered_logger" where
  "Log mac D e s =
     (if aeAction e \<in> set SecurityActions then writeDirect mac D [e] s
      else
        let s1 = s\<lparr>blBuffer := blBuffer s @ [e]\<rparr> in
        if blMax s1 \<le> length (blBuffer s1) then Flush mac D s1 else (None, s1))"

definition LogAction ::
    "mac \<Rightarrow> audit_db \<Rightarrow> int \<Rightarrow> string \<Rightarrow> string \<Rightarrow> string \<Rightarrow> bool \<Rightarrow> buffered_logger \<Rightarrow> buffered_logger" where
  "LogAction mac D now act user msg ok s =
     snd (Log mac D \<lparr>aeTime = now, aeActor = user, aeAction = act, aeResource = [], aeDetails = msg, aeIP = [],
                     aeSuccess = ok\<rparr> s)"

section \<open>Rotation\<close>

definition delete_before :: "int \<Rightarrow> buffered_logger \<Rightarrow> buffered_logger" where
  "delete_before cutoff s = s\<lparr>alRows := filter (\<lambda>r. \<not> arTime r < cutoff) (alRows s)\<rparr>"

datatype rotation_error = KeepDaysTooSmall | RotationFailed

text \<open>\<open>days_ago d\<close> is the Unix time \<open>d\<close> days before now; \<open>ok\<close> says whether the deletion succeeds.\<close>

definition RotateAuditLogs ::
    "mac \<Rightarrow> audit_db \<Rightarrow> bool \<Rightarrow> int \<Rightarrow> (int \<Rightarrow> int) \<Rightarrow> string \<Rightarrow> int \<Rightarrow> buffered_logger
       \<Rightarrow> rotation_error option \<times> buffered_logger" where
  "RotateAuditLogs mac D ok now days_ago user keep s =
     (let keep = (if keep = 0 then 90 else keep) in
      if keep < 1 then (Some KeepDaysTooSmall, s)
      else if \<not> ok then (Some RotationFailed, s)
      else
        let s1 = delete_before (days_ago keep) s in
        (None,
         LogAction mac D now ''audit_rotate'' user
           (''Removed '' @ show_int (int (length (alRows s)) - int (length (alRows s1))) @ '' entries older than '' @
            show_int keep @ '' days'') True s1))"

definition runRotation :: "bool \<Rightarrow> (int \<Rightarrow> int) \<Rightarrow> string option \<Rightarrow> buffered_logger \<Rightarrow> buffered_logger" where
  "runRotation ok days_ago stored s =
     (let days = (case stored of None \<Rightarrow> 90 | Some t \<Rightarrow>
                    if t \<noteq> [] \<and> \<not> snd (Atoi t) then fst (Atoi t) else 90) in
      if ok then delete_before (days_ago days) s else s)"

section \<open>Verification\<close>

record verify_state =
  vsTotal :: nat
  vsSkipped :: nat
  vsChecked :: nat
  vsValid :: bool
  vsBroken :: int
  vsPrev :: string
  vsStarted :: bool

definition verify_start :: verify_state where
  "verify_start =
     \<lparr>vsTotal = 0, vsSkipped = 0, vsChecked = 0, vsValid = True, vsBroken = 0, vsPrev = [], vsStarted = False\<rparr>"

definition event_in_row :: "audit_row \<Rightarrow> audit_event" where
  "event_in_row r =
     \<lparr>aeTime = arTime r, aeActor = arActor r, aeAction = arAction r, aeResource = arResource r,
      aeDetails = arDetails r, aeIP = arIP r, aeSuccess = (arSuccess r \<noteq> 0)\<rparr>"

definition verifyComputeHash :: "mac \<Rightarrow> string \<Rightarrow> string \<Rightarrow> audit_event \<Rightarrow> string" where
  "verifyComputeHash mac key prev e = mac key (audit_message prev e)"

definition verify_row :: "mac \<Rightarrow> string \<Rightarrow> verify_state \<Rightarrow> audit_row \<Rightarrow> verify_state" where
  "verify_row mac key v r =
     (let v = v\<lparr>vsTotal := vsTotal v + 1\<rparr> in
      if arHash r = [] then v\<lparr>vsSkipped := vsSkipped v + 1\<rparr>
      else
        let prev = (if vsStarted v then vsPrev v else arPrev r);
            ok = (verifyComputeHash mac key prev (event_in_row r) = arHash r) in
        v\<lparr>vsChecked := vsChecked v + 1, vsValid := (vsValid v \<and> ok),
          vsBroken := (if \<not> ok \<and> vsBroken v = 0 then arId r else vsBroken v),
          vsPrev := arHash r, vsStarted := True\<rparr>)"

datatype verify_error = KeyUnavailable | KeyLength

definition VerifyAuditChain :: "mac \<Rightarrow> string option \<Rightarrow> audit_row list \<Rightarrow> verify_error + verify_state" where
  "VerifyAuditChain mac file rows =
     (case file of
        None \<Rightarrow> Inl KeyUnavailable
      | Some key \<Rightarrow>
          if length key \<noteq> 32 then Inl KeyLength
          else Inr (foldl (verify_row mac key) verify_start rows))"

definition reported_valid :: "mac \<Rightarrow> string \<Rightarrow> audit_row list \<Rightarrow> bool" where
  "reported_valid mac key rows \<longleftrightarrow> (\<exists>v. VerifyAuditChain mac (Some key) rows = Inr v \<and> vsValid v)"

section \<open>What the verification checks\<close>

text \<open>Every row with a hash carries the hash of itself and of the row with a hash before it.\<close>

fun linked :: "mac \<Rightarrow> string \<Rightarrow> string \<Rightarrow> audit_row list \<Rightarrow> bool" where
  "linked mac key prev [] = True"
| "linked mac key prev (r # rs) =
     (if arHash r = [] then linked mac key prev rs
      else verifyComputeHash mac key prev (event_in_row r) = arHash r \<and> linked mac key (arHash r) rs)"

definition hashed :: "audit_row list \<Rightarrow> audit_row list" where
  "hashed rows = filter (\<lambda>r. arHash r \<noteq> []) rows"

lemma hashed_simps [simp]:
  "hashed [] = []" "hashed (r # rs) = (if arHash r = [] then hashed rs else r # hashed rs)"
  "hashed (xs @ ys) = hashed xs @ hashed ys"
  by (simp_all add: hashed_def)

lemma hashed_id: "hashed rs = rs \<longleftrightarrow> (\<forall>r \<in> set rs. arHash r \<noteq> [])"
  by (simp add: hashed_def filter_id_conv)

lemma linked_hashed: "linked mac key prev rows = linked mac key prev (hashed rows)"
  by (induction rows arbitrary: prev) auto

lemma verify_row_simps [simp]:
  "vsStarted (verify_row mac key v r) \<longleftrightarrow> vsStarted v \<or> arHash r \<noteq> []"
  "vsPrev (verify_row mac key v r) = (if arHash r = [] then vsPrev v else arHash r)"
  "vsValid (verify_row mac key v r) \<longleftrightarrow>
     vsValid v \<and> (arHash r = [] \<or>
       verifyComputeHash mac key (if vsStarted v then vsPrev v else arPrev r) (event_in_row r) = arHash r)"
  by (simp_all add: verify_row_def Let_def)

lemma verify_started:
  "vsStarted v \<Longrightarrow> vsValid (foldl (verify_row mac key) v rows) \<longleftrightarrow> vsValid v \<and> linked mac key (vsPrev v) rows"
  by (induction rows arbitrary: v) auto

lemma verify_valid:
  "\<not> vsStarted v \<Longrightarrow>
   vsValid (foldl (verify_row mac key) v rows) \<longleftrightarrow>
   vsValid v \<and> (hashed rows \<noteq> [] \<longrightarrow> linked mac key (arPrev (hd (hashed rows))) (hashed rows))"
proof (induction rows arbitrary: v)
  case (Cons r rs)
  show ?case
  proof (cases "arHash r = []")
    case True
    with Cons.IH [of "verify_row mac key v r"] Cons.prems show ?thesis by simp
  next
    case False
    with Cons.prems verify_started [of "verify_row mac key v r" mac key rs] show ?thesis
      by (auto simp: linked_hashed [symmetric])
  qed
qed simp

lemma reported_valid_iff:
  "length key = 32 \<Longrightarrow>
   reported_valid mac key rows \<longleftrightarrow>
   (hashed rows \<noteq> [] \<longrightarrow> linked mac key (arPrev (hd (hashed rows))) (hashed rows))"
  using verify_valid [of verify_start mac key rows]
  by (auto simp: reported_valid_def VerifyAuditChain_def verify_start_def)

lemma linked_append:
  "linked mac key prev (xs @ ys) \<longleftrightarrow>
   linked mac key prev xs \<and> linked mac key (if hashed xs = [] then prev else arHash (last (hashed xs))) ys"
  by (induction xs arbitrary: prev) auto

section \<open>What the logger writes\<close>

lemma event_in_row_of_event [simp]: "event_in_row (row_of_event i e p h) = e"
  by (cases e) (simp add: event_in_row_def row_of_event_def boolInt_def)

lemma row_of_event_simps [simp]:
  "arHash (row_of_event i e p h) = h" "arPrev (row_of_event i e p h) = p" "arTime (row_of_event i e p h) = aeTime e"
  "arId (row_of_event i e p h) = i"
  by (simp_all add: row_of_event_def)

lemma verifyComputeHash_eq: "key \<noteq> [] \<Longrightarrow> verifyComputeHash mac key = computeRowHash mac key"
  by (simp add: verifyComputeHash_def computeRowHash_def fun_eq_iff)

text \<open>The hashes of a key that works are never empty.\<close>

definition working :: "mac \<Rightarrow> string \<Rightarrow> bool" where
  "working mac key \<longleftrightarrow> length key = 32 \<and> (\<forall>m. mac key m \<noteq> [])"

text \<open>The rows the logger writes: each names the hash of the row before and carries its own.\<close>

fun written :: "mac \<Rightarrow> string \<Rightarrow> string \<Rightarrow> audit_row list \<Rightarrow> bool" where
  "written mac key prev [] = True"
| "written mac key prev (r # rs) \<longleftrightarrow>
     arHash r \<noteq> [] \<and> arPrev r = prev \<and> verifyComputeHash mac key prev (event_in_row r) = arHash r \<and>
     written mac key (arHash r) rs"

lemma written_append:
  "written mac key prev (xs @ ys) \<longleftrightarrow>
   written mac key prev xs \<and> written mac key (if xs = [] then prev else arHash (last xs)) ys"
  by (induction xs arbitrary: prev) auto

lemma written_linked: "written mac key prev rs \<Longrightarrow> linked mac key prev rs \<and> hashed rs = rs"
  by (induction rs arbitrary: prev) auto

lemma written_hd: "written mac key prev rs \<Longrightarrow> rs \<noteq> [] \<Longrightarrow> arPrev (hd rs) = prev"
  by (cases rs) auto

lemma insert_events_written:
  assumes "insert_events mac key D n prev i es = Some rs" and "working mac key"
  shows "written mac key prev rs \<and> map event_in_row rs = es"
  using assms(1)
proof (induction es arbitrary: n prev i rs)
  case (Cons e es)
  have key: "key \<noteq> []" "computeRowHash mac key prev e \<noteq> []"
    using assms(2) by (auto simp: working_def computeRowHash_def)
  from Cons.prems obtain rs' where
      rs': "insert_events mac key D (Suc n) (computeRowHash mac key prev e) (i + 1) es = Some rs'"
    and rs: "rs = row_of_event i e prev (computeRowHash mac key prev e) # rs'"
    by (auto simp: Let_def split: if_splits)
  from Cons.IH [OF rs'] key show ?case by (simp add: rs verifyComputeHash_eq)
qed simp

text \<open>The table is a chain that begins at the hash its first row names.\<close>

definition chain_ok :: "mac \<Rightarrow> buffered_logger \<Rightarrow> bool" where
  "chain_ok mac s \<longleftrightarrow>
     working mac (blKey s) \<and> (alRows s \<noteq> [] \<longrightarrow> written mac (blKey s) (arPrev (hd (alRows s))) (alRows s))"

lemma chain_ok_valid: "chain_ok mac s \<Longrightarrow> reported_valid mac (blKey s) (alRows s)"
  using written_linked [of mac "blKey s" "arPrev (hd (alRows s))" "alRows s"]
  by (auto simp: chain_ok_def reported_valid_iff working_def)

lemma chain_ok_buffer [simp]: "chain_ok mac (s\<lparr>blBuffer := b\<rparr>) = chain_ok mac s"
  by (simp add: chain_ok_def)

lemma writeDirect_None:
  assumes "fst (writeDirect mac D es s) = None"
  obtains rs where "insert_events mac (blKey s) D 0 (prev_hash D s) (alNext s) es = Some rs"
    and "snd (writeDirect mac D es s) = s\<lparr>alRows := alRows s @ rs, alNext := alNext s + int (length rs)\<rparr>"
  using assms by (auto simp: writeDirect_def split: option.splits if_splits)

lemma writeDirect_Some: "fst (writeDirect mac D es s) = Some e \<Longrightarrow> snd (writeDirect mac D es s) = s"
  by (auto simp: writeDirect_def split: option.splits if_splits)

lemma writeDirect_chain_ok:
  assumes "chain_ok mac s" and "adRead D"
  shows "chain_ok mac (snd (writeDirect mac D es s))"
proof (cases "fst (writeDirect mac D es s)")
  case (Some e)
  with assms writeDirect_Some show ?thesis by metis
next
  case None
  then obtain rs where
      rs: "insert_events mac (blKey s) D 0 (prev_hash D s) (alNext s) es = Some rs"
    and s': "snd (writeDirect mac D es s) = s\<lparr>alRows := alRows s @ rs, alNext := alNext s + int (length rs)\<rparr>"
    by (rule writeDirect_None)
  have w: "working mac (blKey s)" using assms by (simp add: chain_ok_def)
  have p: "prev_hash D s = tail_hash (alRows s)"
    using w assms(2) by (auto simp: prev_hash_def working_def)
  have "written mac (blKey s) (tail_hash (alRows s)) rs"
    using insert_events_written [OF rs w] p by simp
  with assms w show ?thesis
    using written_hd [of mac "blKey s" "tail_hash (alRows s)" rs]
    by (cases "alRows s = []") (auto simp: s' chain_ok_def written_append tail_hash_def)
qed

lemma writeDirect_key [simp]: "blKey (snd (writeDirect mac D es s)) = blKey s"
  by (auto simp: writeDirect_def split: option.splits)

lemma Flush_key [simp]: "blKey (snd (Flush mac D s)) = blKey s"
  by (simp add: Flush_def)

lemma Log_key [simp]: "blKey (snd (Log mac D e s)) = blKey s"
  by (simp add: Log_def Let_def)

lemma Flush_chain_ok: "chain_ok mac s \<Longrightarrow> adRead D \<Longrightarrow> chain_ok mac (snd (Flush mac D s))"
  by (simp add: Flush_def writeDirect_chain_ok)

lemma Log_chain_ok: "chain_ok mac s \<Longrightarrow> adRead D \<Longrightarrow> chain_ok mac (snd (Log mac D e s))"
  by (auto simp: Log_def Let_def writeDirect_chain_ok Flush_chain_ok)

text \<open>Removing the oldest rows keeps a chain, removing any others does not.\<close>

lemma suffix_chain_ok:
  assumes "chain_ok mac s" and "alRows s = xs @ ys"
  shows "chain_ok mac (s\<lparr>alRows := ys\<rparr>)"
  using assms written_hd [of mac "blKey s" "arHash (last xs)" ys]
  by (cases "xs = []") (auto simp: chain_ok_def written_append)

lemma filter_sorted_suffix:
  "sorted (map f xs) \<Longrightarrow> \<exists>us. xs = us @ filter (\<lambda>x. \<not> f x < (c::'a::linorder)) xs"
proof (induction xs)
  case (Cons x xs)
  then obtain us where us: "xs = us @ filter (\<lambda>x. \<not> f x < c) xs" by auto
  show ?case
  proof (cases "f x < c")
    case True
    with us show ?thesis by (auto intro: exI [of _ "x # us"])
  next
    case False
    with Cons.prems have "filter (\<lambda>x. \<not> f x < c) xs = xs" by (auto simp: filter_id_conv)
    with False show ?thesis by auto
  qed
qed simp

lemma delete_before_chain_ok:
  assumes "chain_ok mac s" and "sorted (map arTime (alRows s))"
  shows "chain_ok mac (delete_before c s)"
  using filter_sorted_suffix [OF assms(2), of c] suffix_chain_ok [OF assms(1)]
  by (auto simp: delete_before_def)

section \<open>Properties\<close>

text \<open>
  What happens to the log: an event, a flush, and the two rotations. \<open>orderly\<close> rotations find the rows in
  the order of their times.
\<close>

inductive audit_step :: "mac \<Rightarrow> bool \<Rightarrow> buffered_logger \<Rightarrow> buffered_logger \<Rightarrow> bool" for mac orderly where
  audit_log: "adRead D \<Longrightarrow> audit_step mac orderly s (snd (Log mac D e s))"
| audit_flush: "adRead D \<Longrightarrow> audit_step mac orderly s (snd (Flush mac D s))"
| audit_rotate: "adRead D \<Longrightarrow> (orderly \<longrightarrow> sorted (map arTime (alRows s))) \<Longrightarrow>
    audit_step mac orderly s (snd (RotateAuditLogs mac D ok now days user keep s))"
| audit_rotation: "(orderly \<longrightarrow> sorted (map arTime (alRows s))) \<Longrightarrow>
    audit_step mac orderly s (runRotation ok days stored s)"

lemma delete_before_key [simp]: "blKey (delete_before c s) = blKey s"
  by (simp add: delete_before_def)

lemma audit_step_chain_ok:
  assumes "audit_step mac True s t" and "chain_ok mac s"
  shows "chain_ok mac t \<and> blKey t = blKey s"
  using assms
  by (induction rule: audit_step.induct)
     (auto simp: Log_chain_ok Flush_chain_ok delete_before_chain_ok RotateAuditLogs_def LogAction_def
        runRotation_def Let_def split: option.splits)

text \<open>
  C10. Whatever is logged, flushed and rotated, and whichever insertions, preparations and commits fail, the
  verification reports the chain as valid, as long as the query for the last hash is answered and the
  rows are in the order of their times when old ones are removed.
\<close>

theorem audit_stays_valid:
  assumes "(audit_step mac True)\<^sup>*\<^sup>* (NewBufferedLogger m key [] 1) s"
    and "length key = 32" and "\<forall>msg. mac key msg \<noteq> []"
  shows "reported_valid mac key (alRows s)"
proof -
  have "chain_ok mac s \<and> blKey s = key"
    using assms(1)
  proof (induction rule: rtranclp_induct)
    case base
    then show ?case using assms by (simp add: chain_ok_def NewBufferedLogger_def working_def)
  next
    case (step s t)
    then show ?case using audit_step_chain_ok by metis
  qed
  then show ?thesis using chain_ok_valid by metis
qed

definition sample_db :: audit_db where
  "sample_db = \<lparr>adBegin = True, adRead = True, adPrepare = True, adInsert = \<lambda>_. True, adCommit = True\<rparr>"

definition sample_event :: "int \<Rightarrow> string \<Rightarrow> audit_event" where
  "sample_event t a =
     \<lparr>aeTime = t, aeActor = ''admin'', aeAction = a, aeResource = ''tank'', aeDetails = ''ok'', aeIP = ''10.0.0.1'',
      aeSuccess = True\<rparr>"

lemma sample_event_simps [simp]: "aeTime (sample_event t a) = t" "aeAction (sample_event t a) = a"
  by (simp_all add: sample_event_def)

definition sample_mac :: mac where
  "sample_mac key m = CHR ''h'' # map (\<lambda>c. if c = CHR ''|'' then CHR ''.'' else c) m"

definition sample_key :: string where
  "sample_key = replicate 32 CHR ''k''"

lemma audit_stays_valid_witness:
  "reported_valid sample_mac sample_key
     (alRows (snd (Log sample_mac sample_db (sample_event 5 ''login'') (NewBufferedLogger 10 sample_key [] 1))))"
proof (rule audit_stays_valid [where m = 10])
  show "(audit_step sample_mac True)\<^sup>*\<^sup>* (NewBufferedLogger 10 sample_key [] 1)
          (snd (Log sample_mac sample_db (sample_event 5 ''login'') (NewBufferedLogger 10 sample_key [] 1)))"
    by (rule r_into_rtranclp, rule audit_log) (simp add: sample_db_def)
qed (simp_all add: sample_key_def sample_mac_def)

subsection \<open>Changing what was written\<close>

definition plain :: "string \<Rightarrow> bool" where
  "plain s \<longleftrightarrow> CHR ''|'' \<notin> set s"

definition plain_event :: "audit_event \<Rightarrow> bool" where
  "plain_event e \<longleftrightarrow> list_all plain [aeActor e, aeAction e, aeResource e, aeDetails e, aeIP e]"

lemma no_digits [simp]: "\<not> is_digit CHR ''|''" "\<not> is_digit CHR ''-''"
  by (simp_all add: is_digit_def digit_chars_def)

lemma plain_show_nat: "plain (show_nat n)"
  unfolding plain_def using show_nat_digits [of n] no_digits by (metis list_all_iff)

lemma plain_show_int: "plain (show_int i)"
  using plain_show_nat by (auto simp: show_int_def plain_def)

lemma plain_bool_text: "plain (bool_text b)"
  by (simp add: plain_def bool_text_def)

text \<open>Pieces joined by a bar that none of them contains are found again, and the bars can be counted.\<close>

lemma split_at_plain: "plain w \<Longrightarrow> split_at CHR ''|'' (w @ CHR ''|'' # s) = w # split_at CHR ''|'' s"
  by (induction w) (auto simp: plain_def)

lemma split_at_plain_end: "plain w \<Longrightarrow> split_at CHR ''|'' w = [w]"
  by (induction w) (auto simp: plain_def)

lemma split_at_join: "ws \<noteq> [] \<Longrightarrow> list_all plain ws \<Longrightarrow> split_at CHR ''|'' (join_with ''|'' ws) = ws"
  by (induction "''|''" ws rule: join_with.induct) (auto simp: split_at_plain split_at_plain_end)

definition bars :: "string \<Rightarrow> nat" where
  "bars s = length (filter (\<lambda>c. c = CHR ''|'') s)"

lemma bars_simps [simp]: "bars [] = 0" "bars (c # s) = (if c = CHR ''|'' then Suc (bars s) else bars s)"
    "bars (s @ t) = bars s + bars t"
  by (simp_all add: bars_def)

lemma bars_0: "bars s = 0 \<longleftrightarrow> plain s"
  by (induction s) (auto simp: plain_def)

lemma bars_join: "ws \<noteq> [] \<Longrightarrow> bars (join_with ''|'' ws) = length ws - 1 + sum_list (map bars ws)"
  by (induction "''|''" ws rule: join_with.induct) auto

lemma show_nat_inject: "show_nat m = show_nat n \<Longrightarrow> m = n"
  by (metis digits_value_show option.inject)

lemma show_nat_no_sign: "show_nat n \<noteq> CHR ''-'' # s"
  using show_nat_digits [of n] no_digits by (metis list.pred_inject(2))

lemma show_int_inject: "show_int i = show_int j \<Longrightarrow> i = j"
  using show_nat_no_sign [of "nat i"] show_nat_no_sign [of "nat j"]
  by (auto simp: show_int_def dest!: show_nat_inject split: if_splits) (metis show_nat_no_sign)+

lemma audit_message_inject:
  assumes eq: "audit_message p e = audit_message q f" and "plain p" and "plain_event e"
  shows "p = q \<and> e = f"
proof -
  let ?ws = "\<lambda>p e. [p, show_int (aeTime e), aeActor e, aeAction e, aeResource e, aeDetails e, aeIP e, bool_text (aeSuccess e)]"
  have pe: "list_all plain (?ws p e)"
    using assms by (simp add: plain_event_def plain_show_int plain_bool_text)
  then have "sum_list (map bars (?ws p e)) = 0" by (simp add: bars_0 list_all_iff)
  then have "sum_list (map bars (?ws q f)) = 0"
    using arg_cong [OF eq, of bars] unfolding audit_message_def by (simp add: bars_join)
  then have "list_all plain (?ws q f)" by (simp add: bars_0 list_all_iff)
  then have "?ws p e = ?ws q f"
    using arg_cong [OF eq, of "split_at CHR ''|''"] split_at_join [OF _ pe] split_at_join [of "?ws q f"]
    unfolding audit_message_def by (metis list.distinct(1))
  then show ?thesis
    using show_int_inject by (cases e; cases f) (auto simp: bool_text_def split: if_splits)
qed

fun messages :: "string \<Rightarrow> audit_row list \<Rightarrow> string list" where
  "messages prev [] = []"
| "messages prev (r # rs) = audit_message prev (event_in_row r) # messages (arHash r) rs"

lemma messages_append:
  "messages prev (xs @ ys) = messages prev xs @ messages (if xs = [] then prev else arHash (last xs)) ys"
  by (induction xs arbitrary: prev) auto

definition audited :: "audit_row list \<Rightarrow> audit_event list" where
  "audited rows = map event_in_row (hashed rows)"

lemma linked_chains_agree:
  assumes "linked mac key p A" and "hashed A = A" and "linked mac key q B" and "hashed B = B"
    and "A \<noteq> []" and "B \<noteq> []" and "arHash (last A) = arHash (last B)"
    and "plain p" and "\<forall>r \<in> set A. plain (arHash r) \<and> plain_event (event_in_row r)"
    and "inj_on (mac key) (set (messages p A) \<union> set (messages q B))"
  shows "suffix (map event_in_row A) (map event_in_row B) \<or> suffix (map event_in_row B) (map event_in_row A)"
  using assms
proof (induction A arbitrary: B rule: rev_induct)
  case (snoc a A)
  obtain B' b where B: "B = B' @ [b]" using snoc.prems(6) by (metis rev_exhaust)
  define pa where "pa = (if A = [] then p else arHash (last A))"
  define pb where "pb = (if B' = [] then q else arHash (last B'))"
  have h: "hashed A = A" "hashed B' = B'" "arHash a \<noteq> []" "arHash b \<noteq> []"
    using snoc.prems(2,4) unfolding B hashed_id by auto
  then have la: "linked mac key p A" "mac key (audit_message pa (event_in_row a)) = arHash a"
    and lb: "linked mac key q B'" "mac key (audit_message pb (event_in_row b)) = arHash b"
    using snoc.prems(1,3) by (auto simp: B linked_append pa_def pb_def verifyComputeHash_def)
  have "audit_message pa (event_in_row a) = audit_message pb (event_in_row b)"
  proof (rule inj_onD [OF snoc.prems(10)])
    show "mac key (audit_message pa (event_in_row a)) = mac key (audit_message pb (event_in_row b))"
      using snoc.prems(7) la(2) lb(2) by (simp add: B)
  qed (simp_all add: B messages_append pa_def pb_def)
  moreover have "plain pa" "plain_event (event_in_row a)"
    using snoc.prems(8,9) by (auto simp: pa_def)
  ultimately have same: "pa = pb" "event_in_row a = event_in_row b"
    using audit_message_inject by blast+
  show ?case
  proof (cases "A = [] \<or> B' = []")
    case True
    with same show ?thesis by (auto simp: B suffix_def)
  next
    case False
    have "suffix (map event_in_row A) (map event_in_row B') \<or> suffix (map event_in_row B') (map event_in_row A)"
    proof (rule snoc.IH)
      show "inj_on (mac key) (set (messages p A) \<union> set (messages q B'))"
        using snoc.prems(10) by (rule inj_on_subset) (auto simp: B messages_append)
    qed (use snoc.prems la lb h False same in \<open>auto simp: pa_def pb_def\<close>)
    with same show ?thesis by (auto simp: B suffix_def)
  qed
qed simp

definition messages_in :: "audit_row list \<Rightarrow> string list" where
  "messages_in rows = messages (arPrev (hd (hashed rows))) (hashed rows)"

text \<open>
  C11. Of two tables the verification accepts that end in the same hash, the hashed events of one are the end of those
  of the other: one may begin later, but from there on nothing was changed, inserted or removed. This holds when no two
  of the hashed messages have the same HMAC and no field of the events of the first contains the separator.
\<close>

theorem tamper_evident:
  assumes "reported_valid mac key A" and "reported_valid mac key B"
    and "hashed A \<noteq> []" and "hashed B \<noteq> []"
    and "arHash (last (hashed A)) = arHash (last (hashed B))"
    and "plain (arPrev (hd (hashed A)))" and "\<forall>r \<in> set (hashed A). plain (arHash r) \<and> plain_event (event_in_row r)"
    and "inj_on (mac key) (set (messages_in A) \<union> set (messages_in B))"
    and "length key = 32"
  shows "suffix (audited A) (audited B) \<or> suffix (audited B) (audited A)"
  unfolding audited_def
  using assms
  by (intro linked_chains_agree [of mac key "arPrev (hd (hashed A))" _ "arPrev (hd (hashed B))"])
     (auto simp: reported_valid_iff messages_in_def hashed_def)

definition sample_log :: buffered_logger where
  "sample_log =
     snd (Log sample_mac sample_db (sample_event 6 ''logout'')
       (snd (Log sample_mac sample_db (sample_event 5 ''login'') (NewBufferedLogger 10 sample_key [] 1))))"

lemmas sample_log_defs =
  sample_log_def Log_def writeDirect_def NewBufferedLogger_def SecurityActions_def sample_db_def sample_event_def
  prev_hash_def tail_hash_def computeRowHash_def sample_mac_def sample_key_def audit_message_def row_of_event_def

lemma tamper_evident_witness:
  "suffix (audited (alRows sample_log)) (audited (tl (alRows sample_log))) \<or>
   suffix (audited (tl (alRows sample_log))) (audited (alRows sample_log))"
proof (rule tamper_evident [where mac = sample_mac and key = sample_key])
  have two: "alRows sample_log = [hd (alRows sample_log), last (alRows sample_log)]"
    by (simp add: sample_log_defs)
  show "reported_valid sample_mac sample_key (alRows sample_log)" "reported_valid sample_mac sample_key (tl (alRows sample_log))"
    by (simp_all add: reported_valid_iff sample_log_defs verifyComputeHash_def event_in_row_def boolInt_def)
  show "\<forall>r \<in> set (hashed (alRows sample_log)). plain (arHash r) \<and> plain_event (event_in_row r)"
    by (simp add: sample_log_defs plain_def plain_event_def event_in_row_def boolInt_def show_int_def show_nat.simps
        digit_char_def digit_chars_def bool_text_def)
  show "inj_on (sample_mac sample_key)
          (set (messages_in (alRows sample_log)) \<union> set (messages_in (tl (alRows sample_log))))"
    by (simp add: inj_on_def sample_log_defs messages_in_def event_in_row_def boolInt_def show_int_def show_nat.simps
        digit_char_def digit_chars_def bool_text_def)
qed (simp_all add: sample_log_defs plain_def)

text \<open>
  A row without a hash can be put anywhere: the verification takes it for a row from before the chain and
  reports the same.
\<close>

theorem forged_row_accepted:
  "reported_valid mac key (xs @ r\<lparr>arHash := []\<rparr> # ys) = reported_valid mac key (xs @ ys)"
  by (cases "length key = 32") (simp_all add: reported_valid_iff, simp add: reported_valid_def VerifyAuditChain_def)

text \<open>
  The newest rows can be removed without a trace.
\<close>

theorem truncation_accepted:
  assumes "reported_valid mac key (xs @ ys)" shows "reported_valid mac key xs"
  using assms
  by (cases "length key = 32"; cases "hashed xs = []")
     (auto simp: reported_valid_iff linked_append hd_append, auto simp: reported_valid_def VerifyAuditChain_def)

text \<open>
  The fields of a row are joined by bars before they are hashed, so text can be moved between
  neighbouring fields that contain a bar, for example from the actor to the action, without changing the hash.
\<close>

theorem fields_shift:
  "reported_valid mac key (xs @ r\<lparr>arActor := a @ ''|'' @ b, arAction := c\<rparr> # ys) =
   reported_valid mac key (xs @ r\<lparr>arActor := a, arAction := b @ ''|'' @ c\<rparr> # ys)"
proof -
  let ?r = "r\<lparr>arActor := a @ ''|'' @ b, arAction := c\<rparr>" and ?s = "r\<lparr>arActor := a, arAction := b @ ''|'' @ c\<rparr>"
  have m: "verifyComputeHash mac key p (event_in_row ?r) = verifyComputeHash mac key p (event_in_row ?s)" for p
    by (simp add: verifyComputeHash_def audit_message_def event_in_row_def)
  have "verify_row mac key v ?r = verify_row mac key v ?s" for v
    unfolding verify_row_def m by (simp add: Let_def)
  then show ?thesis by (simp add: reported_valid_def VerifyAuditChain_def)
qed

text \<open>
  A security event is in the table when its logging succeeded, and nothing changes when it failed.
\<close>

theorem security_event_stored:
  assumes "aeAction e \<in> set SecurityActions"
  shows "(case Log mac D e s of
            (None, t) \<Rightarrow> \<exists>r. t = s\<lparr>alRows := alRows s @ [r], alNext := alNext s + 1\<rparr> \<and> event_in_row r = e
          | (Some err, t) \<Rightarrow> t = s)"
  using assms by (auto simp: Log_def writeDirect_def Let_def split: option.splits if_splits)

lemma security_event_stored_witness:
  "(case Log sample_mac sample_db (sample_event 5 ''login'') sample_log of
      (None, t) \<Rightarrow> \<exists>r. t = sample_log\<lparr>alRows := alRows sample_log @ [r], alNext := alNext sample_log + 1\<rparr> \<and>
                         event_in_row r = sample_event 5 ''login''
    | (Some err, t) \<Rightarrow> t = sample_log)"
  by (rule security_event_stored) (simp add: sample_event_def SecurityActions_def)

text \<open>
  Rows are removed by their time, but the order of the chain is that of the writing: a buffered event is
  older than a security event written before it.
\<close>

definition rotated_early :: "mac \<Rightarrow> string \<Rightarrow> buffered_logger" where
  "rotated_early mac key =
     (let s0 = NewBufferedLogger 100 key [] 1;
          s1 = snd (Log mac sample_db (sample_event 10 ''pool_create'') s0);
          s2 = snd (Log mac sample_db (sample_event 12 ''login'') s1);
          s3 = snd (Flush mac sample_db s2);
          s4 = snd (Log mac sample_db (sample_event 20 ''logout'') s3)
      in runRotation True (\<lambda>_. 11) None s4)"

lemma writeDirect_sample:
  assumes "blKey s \<noteq> []"
  shows "writeDirect mac sample_db [e] s =
    (None, s\<lparr>alRows := alRows s @ [row_of_event (alNext s) e (tail_hash (alRows s))
                                    (mac (blKey s) (audit_message (tail_hash (alRows s)) e))],
             alNext := alNext s + 1\<rparr>)"
  using assms by (simp add: writeDirect_def sample_db_def prev_hash_def computeRowHash_def)

lemma Log_security:
  "aeAction e \<in> set SecurityActions \<Longrightarrow> Log mac D e s = writeDirect mac D [e] s"
  by (simp add: Log_def)

lemma Log_buffered:
  "aeAction e \<notin> set SecurityActions \<Longrightarrow> length (blBuffer s) + 1 < blMax s \<Longrightarrow>
   Log mac D e s = (None, s\<lparr>blBuffer := blBuffer s @ [e]\<rparr>)"
  by (simp add: Log_def)

text \<open>
  The rotation can break the chain of an untouched log: an event of time 10 is buffered, a login of time 12
  is written at once and the event after it; removing what is older than 11 then takes a row out of the
  middle, and the verification reports the row after it as changed.
\<close>

theorem rotation_breaks_chain:
  assumes "length key = 32" and "\<forall>m. mac key m \<noteq> []"
    and h1: "h1 = mac key (audit_message [] (sample_event 12 ''login''))"
    and h2: "h2 = mac key (audit_message h1 (sample_event 10 ''pool_create''))"
    and "mac key (audit_message h1 (sample_event 20 ''logout'')) \<noteq> mac key (audit_message h2 (sample_event 20 ''logout''))"
  shows "\<not> reported_valid mac key (alRows (rotated_early mac key))"
proof -
  have key: "key \<noteq> []" using assms(1) by auto
  have "alRows (rotated_early mac key) =
     [row_of_event 1 (sample_event 12 ''login'') [] h1,
      row_of_event 3 (sample_event 20 ''logout'') h2 (mac key (audit_message h2 (sample_event 20 ''logout'')))]"
    using key
    by (simp add: rotated_early_def Log_security Log_buffered writeDirect_sample Flush_def NewBufferedLogger_def
        SecurityActions_def tail_hash_def runRotation_def delete_before_def flip: h1 h2)
  moreover have "h1 \<noteq> []" using assms(2) h1 by simp
  ultimately show ?thesis
    using assms(2,5) by (simp add: reported_valid_iff [OF assms(1)] verifyComputeHash_def)
qed

lemma audit_message_prefix: "audit_message p e = p @ audit_message [] e"
  by (simp add: audit_message_def)

lemma length_sample_mac: "length (sample_mac key m) = Suc (length m)"
  by (simp add: sample_mac_def)

lemma sample_mac_grows:
  "sample_mac key (audit_message p e) \<noteq> sample_mac key (audit_message (sample_mac key (audit_message p f)) e)"
proof
  assume "sample_mac key (audit_message p e) = sample_mac key (audit_message (sample_mac key (audit_message p f)) e)"
  then have "length (audit_message p e) = length (audit_message (sample_mac key (audit_message p f)) e)"
    using length_sample_mac by (metis Suc_inject)
  then show False
    by (subst (asm) (1 2) audit_message_prefix) (simp add: length_sample_mac audit_message_prefix [of p f])
qed

lemma rotation_breaks_chain_witness:
  "\<not> reported_valid sample_mac sample_key (alRows (rotated_early sample_mac sample_key))"
proof (rule rotation_breaks_chain [OF _ _ refl refl])
  show "length sample_key = 32" by (simp add: sample_key_def)
  show "\<forall>m. sample_mac sample_key m \<noteq> []" by (simp add: sample_mac_def)
qed (rule sample_mac_grows)

lemma truncation_accepted_witness: "reported_valid sample_mac sample_key [hd (alRows sample_log)]"
  by (rule truncation_accepted [of _ _ _ "tl (alRows sample_log)"])
     (simp add: reported_valid_iff sample_log_defs verifyComputeHash_def event_in_row_def boolInt_def)

end
