(* ===== verification/GitTypes.thy ===== *)
theory GitTypes
  imports GoText
begin

text \<open>
  The types of the GitOps engine (\<open>internal/gitops\<close>): the desired state read from \<open>state.yaml\<close>
  (\<open>state.go\<close>), the live state (\<open>live.go\<close>, \<open>docker_state.go\<close>) and the items of a plan (\<open>diff.go\<close>). A Go
  map is a list of pairs with distinct keys; its order stands for the order of an iteration. Row
  numbers, and fields the engine never reads, are left out.
\<close>

section \<open>Text\<close>

definition yes_no :: "bool \<Rightarrow> string" where
  "yes_no b = (if b then ''true'' else ''false'')"

text \<open>\<open>%q\<close>, for text of ASCII; the other bytes stay as they are.\<close>

definition quote_char :: "char \<Rightarrow> string" where
  "quote_char c =
     (if c = CHR 0x22 then [CHR 0x5C, CHR 0x22]
      else if c = CHR 0x5C then [CHR 0x5C, CHR 0x5C]
      else if c = CHR 0x07 then [CHR 0x5C, CHR ''a'']
      else if c = CHR 0x08 then [CHR 0x5C, CHR ''b'']
      else if c = CHR 0x0C then [CHR 0x5C, CHR ''f'']
      else if c = CHR 0x0A then [CHR 0x5C, CHR ''n'']
      else if c = CHR 0x0D then [CHR 0x5C, CHR ''r'']
      else if c = CHR 0x09 then [CHR 0x5C, CHR ''t'']
      else if c = CHR 0x0B then [CHR 0x5C, CHR ''v'']
      else if of_char c < (0x20 :: nat) \<or> of_char c = (0x7F :: nat) then
        [CHR 0x5C, CHR ''x'', hex_char (of_char c div 16), hex_char (of_char c mod 16)]
      else [c])"

definition quoted :: "string \<Rightarrow> string" where
  "quoted s = CHR 0x22 # concat (map quote_char s) @ [CHR 0x22]"

text \<open>\<open>%v\<close> of a list of strings.\<close>

definition listed :: "string list \<Rightarrow> string" where
  "listed xs = ''['' @ join_with '' '' xs @ '']''"

text \<open>The arrow between the old and the new value, in UTF-8 and between spaces.\<close>

definition arrow :: string where
  "arrow = [CHR '' '', CHR 0xE2, CHR 0x86, CHR 0x92, CHR '' '']"

definition change :: "string \<Rightarrow> string \<Rightarrow> string \<Rightarrow> string" where
  "change prop old new = prop @ '': '' @ old @ arrow @ new"

definition lower :: "string \<Rightarrow> string" where
  "lower s = map to_lower s"

text \<open>\<open>strings.EqualFold\<close>\<close>

definition EqualFold :: "string \<Rightarrow> string \<Rightarrow> bool" where
  "EqualFold s t \<longleftrightarrow> lower s = lower t"

definition contains_any :: "string \<Rightarrow> string \<Rightarrow> bool" where
  "contains_any s cs \<longleftrightarrow> (\<exists>c \<in> set s. c \<in> set cs)"

section \<open>The desired state\<close>

record vdev_group =
  vgType :: string
  vgDisks :: "string list"
  vgDraid :: string

record topology =
  topData :: "vdev_group list"
  topSpecial :: "vdev_group list"
  topLog :: "vdev_group list"
  topCache :: "vdev_group list"
  topSpare :: "vdev_group list"

record desired_pool =
  dpName :: string
  dpTopology :: topology
  dpAshift :: int
  dpGUID :: string
  dpOptions :: "(string \<times> string) list"
  dpForceReshape :: bool

record restore_config =
  rsType :: string
  rsSource :: string

record desired_dataset =
  ddName :: string
  ddQuota :: string
  ddCompression :: string
  ddAtime :: string
  ddSync :: string
  ddRecordsize :: string
  ddXattr :: string
  ddSecondarycache :: string
  ddMountpoint :: string
  ddEncrypted :: bool
  ddRestore :: "restore_config option"

record desired_share =
  dsName :: string
  dsPath :: string
  dsReadOnly :: bool
  dsValidUsers :: string
  dsComment :: string
  dsGuestOK :: bool
  dsTimeMachine :: "bool option"
  dsTimeMachineQuota :: "string option"
  dsShadowCopy :: "bool option"
  dsRecycleBin :: "bool option"
  dsHostsAllow :: "string option"
  dsHostsDeny :: "string option"

record desired_nfs =
  dnPath :: string
  dnClients :: string
  dnOptions :: string
  dnEnabled :: bool

record desired_stack =
  dkName :: string
  dkYAML :: string

record net_static =
  stCIDR :: string
  stGateway :: string

record net_bond =
  bdSlaves :: "string list"
  bdMode :: string

record net_vlan =
  vlParent :: string
  vlVID :: int

record samba_globals =
  sgWorkgroup :: string
  sgServerString :: string
  sgTimeMachine :: bool
  sgAllowGuest :: bool
  sgExtra :: string

record desired_system =
  dyHostname :: string
  dyTimezone :: string
  dyDNS :: "string list"
  dyNTP :: "string list"
  dyTCP :: "int list"
  dyUDP :: "int list"
  dyStatics :: "(string \<times> net_static) list"
  dyBonds :: "(string \<times> net_bond) list"
  dyVLANs :: "(string \<times> net_vlan) list"
  dySamba :: samba_globals
  dySSHPort :: int
  dySSHPassword :: "bool option"
  dySSHRoot :: string

record desired_user =
  duName :: string
  duHash :: string
  duEmail :: string
  duRole :: string
  duActive :: bool

record desired_group =
  dgName :: string
  dgDescription :: string
  dgGID :: int
  dgMembers :: "string list"

record replication =
  drName :: string
  drSource :: string
  drRemote :: string
  drRemotePool :: string
  drInterval :: string
  drOnSnapshot :: bool
  drIncremental :: bool
  drCompress :: bool
  drRateLimit :: int
  drEnabled :: bool

record ldap_config =
  dlEnabled :: bool
  dlServer :: string
  dlPort :: int
  dlUseTLS :: bool
  dlBindDN :: string
  dlBindPassword :: string
  dlBaseDN :: string
  dlUserFilter :: string
  dlUserIDAttr :: string
  dlUserNameAttr :: string
  dlUserEmailAttr :: string
  dlGroupBaseDN :: string
  dlGroupFilter :: string
  dlGroupMemberAttr :: string
  dlJIT :: bool
  dlDefaultRole :: string
  dlSyncInterval :: int
  dlTimeout :: int

record acme_config =
  daEmail :: string
  daServer :: string
  daDomains :: "string list"
  daResolver :: string
  daDNSConfig :: "(string \<times> string) list"
  daEnabled :: bool

record certificate =
  dcName :: string
  dcCert :: string
  dcKey :: string

record smart_task =
  dtDevice :: string
  dtType :: string
  dtSchedule :: string
  dtEnabled :: bool

record nvme_export =
  dxNQN :: string
  dxZvol :: string
  dxTransport :: string
  dxAddr :: string
  dxPort :: int
  dxNamespace :: int
  dxAllowAny :: bool
  dxHosts :: "string list"

record desired_state =
  deVersion :: string
  deIgnore :: bool
  dePools :: "desired_pool list"
  deDatasets :: "desired_dataset list"
  deShares :: "desired_share list"
  deNFS :: "desired_nfs list"
  deStacks :: "desired_stack list"
  deSystem :: "desired_system option"
  deUsers :: "desired_user list"
  deGroups :: "desired_group list"
  deReplication :: "replication list"
  deLDAP :: "ldap_config option"
  deACME :: "acme_config option"
  deCertificates :: "certificate list"
  deSMART :: "smart_task list"
  deFabrics :: "nvme_export list option"

section \<open>The live state\<close>

record live_pool =
  lpName :: string
  lpGUID :: string
  lpHealth :: string
  lpDisks :: "string list"
  lpOptions :: "(string \<times> string) list option"

record live_dataset =
  ldName :: string
  ldCompression :: string
  ldAtime :: string
  ldSync :: string
  ldRecordsize :: string
  ldXattr :: string
  ldSecondarycache :: string
  ldMountpoint :: string
  ldQuota :: string

record live_share =
  lsName :: string
  lsPath :: string
  lsReadOnly :: bool
  lsValidUsers :: string
  lsComment :: string
  lsGuestOK :: bool
  lsEnabled :: bool
  lsTimeMachine :: bool
  lsTimeMachineQuota :: string
  lsShadowCopy :: bool
  lsRecycleBin :: bool
  lsHostsAllow :: string
  lsHostsDeny :: string

record live_nfs =
  lnPath :: string
  lnClients :: string
  lnOptions :: string
  lnEnabled :: bool

record live_user =
  luName :: string
  luHash :: string
  luEmail :: string
  luRole :: string
  luActive :: bool
  luSource :: string

record live_group =
  lgName :: string
  lgDescription :: string
  lgGID :: int
  lgMembers :: "string list"

record live_stack =
  lkName :: string
  lkYAML :: string
  lkStatus :: string

record live_system =
  lyHostname :: string
  lyTimezone :: string
  lyDNS :: "string list"
  lyNTP :: "string list"
  lyTCP :: "int list"
  lyUDP :: "int list"
  lyStatics :: "(string \<times> net_static) list"
  lyBonds :: "(string \<times> net_bond) list"
  lyVLANs :: "(string \<times> net_vlan) list"
  lySSHPort :: int
  lySSHPassword :: "bool option"
  lySSHRoot :: string

record live_state =
  vePools :: "live_pool list"
  veDatasets :: "live_dataset list"
  veShares :: "live_share list"
  veNFS :: "live_nfs list"
  veStacks :: "live_stack list"
  veSystem :: "live_system option"
  veUsers :: "live_user list"
  veGroups :: "live_group list"
  veReplication :: "replication list"
  veLDAP :: "ldap_config option"
  veACME :: "acme_config option"
  veCertificates :: "certificate list"
  veSMART :: "smart_task list"
  veNVMe :: "nvme_export list"

section \<open>Plans\<close>

datatype diff_action =
    ActionNOP | ActionCreate | ActionModify | ActionDelete | ActionBlocked | ActionAmbiguous | ActionManual | ActionReshape

datatype diff_kind =
    KindPool | KindDataset | KindShare | KindNFS | KindStack | KindSystem | KindUser | KindGroup | KindReplication
  | KindLDAP | KindACME | KindCertificate | KindSMART | KindNVMeFabric

datatype risk = Low | Medium | High | Critical

text \<open>Why an item is blocked, ambiguous or manual; the texts shown to the operator are not modelled.\<close>

datatype block_reason =
    NoReason | SameName | NotBacked | PoolNotDeclared | StillAttached | CannotCheck | HoldsData | ActiveConnections
  | NeedsForceReshape | NeedsZpool

text \<open>The specification an item carries: at most one of the fourteen \<open>Desired\<close> pointers is set.\<close>

datatype diff_spec =
    NoSpec | PoolSpec desired_pool | DatasetSpec desired_dataset | ShareSpec desired_share | NFSSpec desired_nfs
  | StackSpec desired_stack | SystemSpec desired_system | UserSpec desired_user | GroupSpec desired_group
  | ReplicationSpec replication | LDAPSpec ldap_config | ACMESpec acme_config | CertificateSpec certificate
  | SMARTSpec smart_task | NVMeSpec nvme_export

record diff_item =
  diKind :: diff_kind
  diName :: string
  diAction :: diff_action
  diChanges :: "string list"
  diReason :: block_reason
  diRisk :: risk
  diApproved :: bool
  diSpec :: diff_spec

record plan =
  plItems :: "diff_item list"
  plHasBlocked :: bool
  plSafe :: bool
  plCreate :: nat
  plModify :: nat
  plDelete :: nat
  plBlocked :: nat
  plAmbiguous :: nat
  plManual :: nat
  plNop :: nat
  plHasAmbiguous :: bool

definition item :: "diff_kind \<Rightarrow> string \<Rightarrow> diff_action \<Rightarrow> risk \<Rightarrow> diff_spec \<Rightarrow> string list \<Rightarrow> diff_item" where
  "item k n a r sp ch =
     \<lparr>diKind = k, diName = n, diAction = a, diChanges = ch, diReason = NoReason, diRisk = r, diApproved = False,
      diSpec = sp\<rparr>"

definition refused_item :: "diff_kind \<Rightarrow> string \<Rightarrow> diff_action \<Rightarrow> risk \<Rightarrow> block_reason \<Rightarrow> diff_item" where
  "refused_item k n a r why = (item k n a r NoSpec [])\<lparr>diReason := why\<rparr>"

lemma item_simps [simp]:
  "diKind (item k n a r sp ch) = k" "diName (item k n a r sp ch) = n" "diAction (item k n a r sp ch) = a"
  "diChanges (item k n a r sp ch) = ch" "diReason (item k n a r sp ch) = NoReason" "diRisk (item k n a r sp ch) = r"
  "diApproved (item k n a r sp ch) = False" "diSpec (item k n a r sp ch) = sp"
  by (simp_all add: item_def)

lemma refused_item_simps [simp]:
  "diKind (refused_item k n a r w) = k" "diName (refused_item k n a r w) = n" "diAction (refused_item k n a r w) = a"
  "diChanges (refused_item k n a r w) = []" "diReason (refused_item k n a r w) = w" "diRisk (refused_item k n a r w) = r"
  "diApproved (refused_item k n a r w) = False" "diSpec (refused_item k n a r w) = NoSpec"
  by (simp_all add: refused_item_def)

text \<open>The last entry under a key: what a Go map built by assigning the entries one by one holds.\<close>

definition last_with :: "('a \<Rightarrow> 'k) \<Rightarrow> 'k \<Rightarrow> 'a list \<Rightarrow> 'a option" where
  "last_with key k xs = List.find (\<lambda>x. key x = k) (rev xs)"

lemma last_with_None: "last_with key k xs = None \<longleftrightarrow> k \<notin> key ` set xs"
  by (auto simp: last_with_def find_None_iff)

lemma last_with_SomeD: "last_with key k xs = Some x \<Longrightarrow> x \<in> set xs \<and> key x = k"
  unfolding last_with_def using find_SomeD [of "\<lambda>x. key x = k" "rev xs" x] by simp

lemma last_with_distinct:
  "distinct (map key xs) \<Longrightarrow> x \<in> set xs \<Longrightarrow> last_with key (key x) xs = Some x"
proof -
  assume "distinct (map key xs)" and x: "x \<in> set xs"
  then have inj: "inj_on key (set xs)" by (simp add: distinct_map)
  obtain y where y: "last_with key (key x) xs = Some y"
    using x by (cases "last_with key (key x) xs") (auto simp: last_with_None)
  with last_with_SomeD [OF y] inj x show ?thesis by (auto dest: inj_onD)
qed

end
