(* ===== verification/GitPools.thy ===== *)
theory GitPools
  imports GitTypes
begin

text \<open>
  Pools of the GitOps engine: the arguments of \<open>zpool create\<close> (\<open>gitops/zpool_create.go\<close>), the comparison
  of a declared topology with the live pool (\<open>diffPool\<close> of \<open>diff.go\<close>) and the additive reshape
  (\<open>executeReshape\<close> of \<open>apply.go\<close> with \<open>VdevAdd\<close> of \<open>libzfs/zfs.go\<close> and the checks of \<open>security/whitelist.go\<close>).
\<close>

section \<open>Virtual devices\<close>

datatype vdev_tier = TierData | TierSpecial | TierLog | TierCache | TierSpare

datatype vdev_error =
    TypeRequired | VdevNoDisks | DiskPath string | DiskChars string | DraidRequired | DraidInvalid string
  | MirrorTooFew | RaidzTooFew | Raidz2TooFew | Raidz3TooFew | UnknownVdev string | NoDataGroup
  | InvalidOption string string

definition byIDPrefix :: string where
  "byIDPrefix = ''/dev/disk/by-id/''"

definition validateDiskPathStrict :: "string \<Rightarrow> vdev_error option" where
  "validateDiskPathStrict d =
     (let d = trim_space d in
      if \<not> has_prefix d byIDPrefix \<and> \<not> has_prefix d ''/dev/loop'' then Some (DiskPath d)
      else if contains_any d ('';|&$'' @ [CHR 0x60, CHR 0x27, CHR 0x09, CHR 0x0A]) then Some (DiskChars d)
      else None)"

text \<open>\<open>\d+c\<close>: the rest after a number and the character \<open>c\<close>.\<close>

definition digits_then :: "char \<Rightarrow> string \<Rightarrow> string option" where
  "digits_then c s =
     (case dropWhile is_digit s of
        [] \<Rightarrow> None
      | x # rest \<Rightarrow> if x = c \<and> takeWhile is_digit s \<noteq> [] then Some rest else None)"

lemma digits_then_shorter: "digits_then c s = Some t \<Longrightarrow> length t < length s"
proof -
  assume "digits_then c s = Some t"
  then obtain x where "dropWhile is_digit s = x # t"
    by (auto simp: digits_then_def split: list.splits if_splits)
  then have "length (x # t) \<le> length s" by (metis length_dropWhile_le)
  then show ?thesis by simp
qed

text \<open>\<open>(:\d+d:\d+s)+$\<close>\<close>

function draid_groups :: "string \<Rightarrow> bool" where
  "draid_groups s =
     (case s of
        [] \<Rightarrow> False
      | x # t \<Rightarrow>
          if x \<noteq> CHR '':'' then False
          else case digits_then CHR ''d'' t of
            None \<Rightarrow> False
          | Some [] \<Rightarrow> False
          | Some (y # u) \<Rightarrow>
              if y \<noteq> CHR '':'' then False
              else case digits_then CHR ''s'' u of
                None \<Rightarrow> False
              | Some v \<Rightarrow> v = [] \<or> draid_groups v)"
  by pat_completeness auto

termination
  by (relation "measure length") (auto dest!: digits_then_shorter)

declare draid_groups.simps [simp del]

definition draid_spec_ok :: "string \<Rightarrow> bool" where
  "draid_spec_ok s \<longleftrightarrow>
     has_prefix s ''draid'' \<and>
     (case drop 5 s of [] \<Rightarrow> False | c # t \<Rightarrow> c \<in> set ''123'' \<and> draid_groups t)"

definition vdevGroupToArgs :: "vdev_group \<Rightarrow> vdev_tier \<Rightarrow> vdev_error + string list" where
  "vdevGroupToArgs g tier =
     (let t0 = lower (trim_space (vgType g));
          t = (if t0 = [] \<and> tier = TierSpare then ''stripe'' else t0);
          ds = vgDisks g in
      if t = [] then Inl TypeRequired
      else if ds = [] then Inl VdevNoDisks
      else case first_error (map validateDiskPathStrict ds) of
        Some e \<Rightarrow> Inl e
      | None \<Rightarrow>
          if t = ''draid'' then
            (let spec = trim_space (vgDraid g) in
             if spec = [] then Inl DraidRequired
             else if \<not> draid_spec_ok spec then Inl (DraidInvalid spec)
             else Inr (spec # ds))
          else if t = ''stripe'' then Inr ds
          else if t = ''mirror'' then (if length ds < 2 then Inl MirrorTooFew else Inr (''mirror'' # ds))
          else if t = ''raidz'' \<or> t = ''raidz1'' then (if length ds < 2 then Inl RaidzTooFew else Inr (''raidz'' # ds))
          else if t = ''raidz2'' then (if length ds < 3 then Inl Raidz2TooFew else Inr (''raidz2'' # ds))
          else if t = ''raidz3'' then (if length ds < 4 then Inl Raidz3TooFew else Inr (''raidz3'' # ds))
          else Inl (UnknownVdev (vgType g)))"

fun check_groups :: "vdev_tier \<Rightarrow> vdev_group list \<Rightarrow> vdev_error option" where
  "check_groups tier [] = None"
| "check_groups tier (g # gs) =
     (case vdevGroupToArgs g tier of Inl e \<Rightarrow> Some e | Inr args \<Rightarrow> check_groups tier gs)"

definition ValidatePoolTopology :: "topology \<Rightarrow> vdev_error option" where
  "ValidatePoolTopology tp =
     (if topData tp = [] then Some NoDataGroup
      else first_error
        [check_groups TierData (topData tp), check_groups TierSpecial (topSpecial tp), check_groups TierLog (topLog tp),
         check_groups TierCache (topCache tp), check_groups TierSpare (topSpare tp)])"

text \<open>The tokens of one tier, each group after the keyword of the tier.\<close>

fun tier_args :: "string list \<Rightarrow> vdev_tier \<Rightarrow> vdev_group list \<Rightarrow> vdev_error + string list" where
  "tier_args kw tier [] = Inr []"
| "tier_args kw tier (g # gs) =
     (case vdevGroupToArgs g tier of
        Inl e \<Rightarrow> Inl e
      | Inr toks \<Rightarrow> (case tier_args kw tier gs of Inl e \<Rightarrow> Inl e | Inr out \<Rightarrow> Inr (kw @ toks @ out)))"

fun join_args :: "(vdev_error + string list) list \<Rightarrow> vdev_error + string list" where
  "join_args [] = Inr []"
| "join_args (Inl e # rest) = Inl e"
| "join_args (Inr xs # rest) = (case join_args rest of Inl e \<Rightarrow> Inl e | Inr ys \<Rightarrow> Inr (xs @ ys))"

definition ZpoolCreateVdevArgs :: "topology \<Rightarrow> vdev_error + string list" where
  "ZpoolCreateVdevArgs tp =
     (case ValidatePoolTopology tp of
        Some e \<Rightarrow> Inl e
      | None \<Rightarrow>
          join_args
            [tier_args [] TierData (topData tp), tier_args [''special''] TierSpecial (topSpecial tp),
             tier_args [''log''] TierLog (topLog tp), tier_args [''cache''] TierCache (topCache tp),
             tier_args [''spare''] TierSpare (topSpare tp)])"

text \<open>The options in the order of their keys.\<close>

fun option_args :: "(string \<times> string) list \<Rightarrow> vdev_error + string list" where
  "option_args [] = Inr []"
| "option_args ((k0, v0) # rest) =
     (let k = trim_space k0; v = trim_space v0 in
      if k = [] then option_args rest
      else if contains_any k ([CHR '' '', CHR 0x09, CHR 0x0A] @ '';|&$'' @ [CHR 0x60]) \<or>
              contains_any v [CHR 0x0A, CHR 0x0D] then Inl (InvalidOption k v)
      else case option_args rest of
        Inl e \<Rightarrow> Inl e
      | Inr out \<Rightarrow> Inr ([''-O'', k @ ''='' @ v] @ out))"

definition ZpoolCreateFullArgs :: "desired_pool \<Rightarrow> bool \<Rightarrow> vdev_error + string list" where
  "ZpoolCreateFullArgs dp force =
     (case ValidatePoolTopology (dpTopology dp) of
        Some e \<Rightarrow> Inl e
      | None \<Rightarrow>
          (case option_args (sort_key fst (dpOptions dp)) of
             Inl e \<Rightarrow> Inl e
           | Inr opts \<Rightarrow>
               (case ZpoolCreateVdevArgs (dpTopology dp) of
                  Inl e \<Rightarrow> Inl e
                | Inr vdev \<Rightarrow>
                    Inr ([''create''] @ (if force then [''-f''] else []) @
                         (if 0 < dpAshift dp then [''-o'', ''ashift='' @ show_int (dpAshift dp)] else []) @
                         opts @ [dpName dp] @ vdev))))"

text \<open>The disks of a topology, all tiers in turn, and the sorted set of them.\<close>

definition topologyAllDisks :: "topology \<Rightarrow> string list" where
  "topologyAllDisks tp =
     filter (\<lambda>d. d \<noteq> [])
       (map trim_space
          (concat (map vgDisks (topData tp @ topSpecial tp @ topLog tp @ topCache tp @ topSpare tp))))"

definition TopologyDiskFingerprint :: "topology \<Rightarrow> string list" where
  "TopologyDiskFingerprint tp = sort (remdups (topologyAllDisks tp))"

lemma set_TopologyDiskFingerprint: "set (TopologyDiskFingerprint tp) = set (topologyAllDisks tp)"
  by (simp add: TopologyDiskFingerprint_def)

section \<open>Comparing a pool\<close>

definition added_disk :: "desired_pool \<Rightarrow> live_pool \<Rightarrow> string \<Rightarrow> bool" where
  "added_disk dp lp d \<longleftrightarrow> d \<in> set (TopologyDiskFingerprint (dpTopology dp)) \<and> d \<notin> set (lpDisks lp)"

definition removedDisks :: "desired_pool \<Rightarrow> live_pool \<Rightarrow> string list" where
  "removedDisks dp lp =
     sort (filter (\<lambda>d. d \<notin> set (TopologyDiskFingerprint (dpTopology dp))) (remdups (lpDisks lp)))"

text \<open>The text of an error in a change is not modelled further than its kind.\<close>

definition drift :: "string \<Rightarrow> string" where
  "drift rest = ''topology-drift: '' @ rest"

fun group_changes :: "(string \<Rightarrow> bool) \<Rightarrow> string \<Rightarrow> string \<Rightarrow> vdev_tier \<Rightarrow> vdev_group list \<Rightarrow> string list" where
  "group_changes added name kw tier [] = []"
| "group_changes added name kw tier (g # gs) =
     (let ds = vgDisks g;
          one = (if ds = [] then []
                 else if list_all added ds then
                   (case vdevGroupToArgs g tier of
                      Inl e \<Rightarrow> [drift (''could not build vdev args for '' @ name @ '' group'')]
                    | Inr args \<Rightarrow>
                        (let spec = join_with '' '' args in
                         [''add-'' @ name @ '': '' @ (if kw \<noteq> [] then kw @ '' '' @ spec else spec)]))
                 else if list_ex added ds then
                   [drift (name @ '' group has mixed new/existing disks - align state.yaml with live pool before reshaping'')]
                 else [])
      in one @ group_changes added name kw tier gs)"

definition tiers :: "topology \<Rightarrow> (string \<times> string \<times> vdev_tier \<times> vdev_group list) list" where
  "tiers tp =
     [(''vdev'', [], TierData, topData tp), (''log'', ''log'', TierLog, topLog tp),
      (''cache'', ''cache'', TierCache, topCache tp), (''spare'', ''spare'', TierSpare, topSpare tp),
      (''special'', ''special'', TierSpecial, topSpecial tp)]"

definition tier_changes :: "desired_pool \<Rightarrow> live_pool \<Rightarrow> string list" where
  "tier_changes dp lp =
     concat (map (\<lambda>(name, kw, tier, gs). group_changes (added_disk dp lp) name kw tier gs) (tiers (dpTopology dp)))"

definition topology_changes :: "desired_pool \<Rightarrow> live_pool \<Rightarrow> string list" where
  "topology_changes dp lp =
     (if list_ex (added_disk dp lp) (TopologyDiskFingerprint (dpTopology dp)) \<or> removedDisks dp lp \<noteq> [] then
        tier_changes dp lp @ map (\<lambda>d. ''disk-remove: '' @ d) (removedDisks dp lp)
      else [])"

fun property_changes :: "(string \<times> string) list option \<Rightarrow> (string \<times> string) list \<Rightarrow> string list" where
  "property_changes live [] = []"
| "property_changes live ((k0, v0) # rest) =
     (let k = trim_space k0; v = trim_space v0;
          have = (case live of None \<Rightarrow> None | Some m \<Rightarrow> Some (case map_of m k of None \<Rightarrow> [] | Some x \<Rightarrow> x)) in
      (if k \<noteq> [] \<and> have \<noteq> Some v then [''zpool-set: '' @ k @ ''='' @ v] else []) @ property_changes live rest)"

definition diffPool :: "desired_pool \<Rightarrow> live_pool \<Rightarrow> string list" where
  "diffPool dp lp =
     (if lpHealth lp \<noteq> ''ONLINE'' then [''health: '' @ lpHealth lp @ '' (degraded - check zpool status)''] else []) @
     (if dpGUID dp \<noteq> [] \<and> lpGUID lp \<noteq> [] \<and> dpGUID dp \<noteq> lpGUID lp then
        [''guid-mismatch: live='' @ lpGUID lp @ '' declared='' @ dpGUID dp @ '' (verify correct pool)''] else []) @
     topology_changes dp lp @ property_changes (lpOptions lp) (dpOptions dp)"

definition classifyTopologyChange :: "string \<Rightarrow> bool" where
  "classifyTopologyChange c \<longleftrightarrow>
     list_ex (has_prefix c) [''add-vdev:'', ''add-cache:'', ''add-log:'', ''add-spare:'', ''add-special:'']"

definition zpool_set :: "string \<Rightarrow> bool" where
  "zpool_set c \<longleftrightarrow> has_prefix c ''zpool-set:''"

fun riskForPoolChanges :: "string list \<Rightarrow> risk" where
  "riskForPoolChanges [] = Low"
| "riskForPoolChanges (c # cs) =
     (if contains_text c ''disk-remove'' \<or> contains_text c ''degraded'' \<or> contains_text c ''topology-drift'' \<or>
         contains_text c ''guid-mismatch'' then Critical
      else if classifyTopologyChange c then Medium
      else if contains_text c ''zpool-set:'' then Medium
      else riskForPoolChanges cs)"

section \<open>Adding devices to a pool\<close>

definition name_char :: "string \<Rightarrow> char \<Rightarrow> bool" where
  "name_char extra c \<longleftrightarrow> is_alnum c \<or> c \<in> set extra"

definition ValidatePoolName :: "string \<Rightarrow> bool" where
  "ValidatePoolName s \<longleftrightarrow> match_head_tail is_alpha (name_char ''_-.'') 254 s"

definition dataset_part :: "string \<Rightarrow> bool" where
  "dataset_part p \<longleftrightarrow> p \<noteq> [] \<and> list_all (name_char ''_-.'') p \<and> p \<noteq> ''.'' \<and> p \<noteq> ''..''"

definition ValidateDatasetName :: "string \<Rightarrow> bool" where
  "ValidateDatasetName n \<longleftrightarrow>
     n \<noteq> [] \<and> length n \<le> 255 \<and> list_all dataset_part (split_at CHR ''/'' n) \<and> \<not> has_prefix n ''-'' \<and> \<not> has_prefix n ''.''"

definition scsi_disk :: "string \<Rightarrow> bool" where
  "scsi_disk s \<longleftrightarrow>
     list_all is_digit (dropWhile is_lower s) \<and> length (takeWhile is_lower s) \<in> {1, 2, 3}"

definition nvme_disk :: "string \<Rightarrow> bool" where
  "nvme_disk s \<longleftrightarrow>
     (case digits_then CHR ''n'' s of
        None \<Rightarrow> False
      | Some t \<Rightarrow>
          (t \<noteq> [] \<and> list_all is_digit t) \<or>
          (case digits_then CHR ''p'' t of None \<Rightarrow> False | Some u \<Rightarrow> u \<noteq> [] \<and> list_all is_digit u))"

definition after :: "string \<Rightarrow> string \<Rightarrow> (string \<Rightarrow> bool) \<Rightarrow> bool" where
  "after s p P \<longleftrightarrow> has_prefix s p \<and> P (drop (length p) s)"

definition ValidateDevicePath :: "string \<Rightarrow> bool" where
  "ValidateDevicePath p \<longleftrightarrow>
     after p ''/dev/'' (\<lambda>s.
       after s ''sd'' scsi_disk \<or> after s ''vd'' scsi_disk \<or> after s ''xvd'' scsi_disk \<or>
       after s ''nvme'' nvme_disk \<or>
       after s ''sr'' (\<lambda>t. t \<noteq> [] \<and> list_all is_digit t) \<or>
       after s ''mapper/'' (\<lambda>t. match_head_tail is_alnum (name_char ''_.-'') (length t) t) \<or>
       list_ex (\<lambda>by. after s (''disk/by-'' @ by @ ''/'') (\<lambda>t. match_head_tail is_alnum (name_char ''_.:+-'') (length t) t))
         [''id'', ''path'', ''uuid'', ''partuuid'']) \<and>
     \<not> contains_text p ''..''"

datatype reshape_error = Malformed | EmptySpec | InvalidPool | InvalidDevice string | CommandRefused | CommandFailed

definition add_types :: "string list" where
  "add_types = [''mirror'', ''raidz'', ''raidz1'', ''raidz2'', ''raidz3'', ''cache'', ''log'', ''special'', ''spare'', ''dedup'']"

text \<open>What the whitelist accepts as arguments of \<open>zpool add\<close>.\<close>

definition validateZpoolAdd :: "string list \<Rightarrow> bool" where
  "validateZpoolAdd args \<longleftrightarrow>
     3 \<le> length args \<and> args ! 0 = ''add'' \<and> ValidatePoolName (args ! 1) \<and>
     (let devs = drop (if args ! 2 \<in> set add_types then 3 else 2) args in
      devs \<noteq> [] \<and>
      list_all (\<lambda>d. ValidateDevicePath d \<or> has_prefix d ''/dev/loop'' \<or> has_prefix d ''/dev/disk/by-id/'') devs)"

text \<open>The checks of \<open>VdevAdd\<close>; the result is the command that is run.\<close>

definition VdevAdd :: "string \<Rightarrow> string \<Rightarrow> string list \<Rightarrow> reshape_error + string list" where
  "VdevAdd pool vtype devs =
     (if \<not> ValidatePoolName pool then Inl InvalidPool
      else case List.find (\<lambda>d. \<not> ValidateDevicePath d) devs of
        Some d \<Rightarrow> Inl (InvalidDevice d)
      | None \<Rightarrow>
          (let args = [''add'', pool] @ (if vtype \<noteq> [] then [vtype] else []) @ devs in
           if validateZpoolAdd args then Inr args else Inl CommandRefused))"

text \<open>The text after the first \<open>": "\<close>, when something stands before it.\<close>

fun after_colon :: "string \<Rightarrow> string option" where
  "after_colon [] = None"
| "after_colon (c # cs) = (if has_prefix (c # cs) '': '' then Some (drop 2 (c # cs)) else after_colon cs)"

definition change_spec :: "string \<Rightarrow> string option" where
  "change_spec c = (if has_prefix c '': '' then None else after_colon c)"

text \<open>The words of a specification: the type of the device and its disks.\<close>

definition vdev_words :: "string list \<Rightarrow> string \<times> string list" where
  "vdev_words toks =
     (if 1 < length toks \<and> hd toks \<in> set add_types then (hd toks, tl toks)
      else if has_prefix (hd toks) ''draid'' then (hd toks, tl toks)
      else ([], toks))"

definition reshape_command :: "string \<Rightarrow> string \<Rightarrow> reshape_error + string list" where
  "reshape_command pool c =
     (case change_spec c of
        None \<Rightarrow> Inl Malformed
      | Some rest \<Rightarrow>
          (let spec = trim_space rest in
           if spec = [] then Inl EmptySpec
           else case vdev_words (words_of spec) of (t, devs) \<Rightarrow> VdevAdd pool t devs))"

section \<open>What a reshape adds\<close>

lemma has_prefix_append: "has_prefix (p @ s) p"
  by (simp add: has_prefix_def)

lemma has_prefixD: "has_prefix s p \<Longrightarrow> s = p @ drop (length p) s"
  by (metis append_take_drop_id has_prefix_def)

lemma vdevGroupToArgs_Inr:
  assumes "vdevGroupToArgs g tier = Inr args"
  obtains "args = vgDisks g" | w where "args = w # vgDisks g"
      and "w \<in> {''mirror'', ''raidz'', ''raidz2'', ''raidz3''} \<or> draid_spec_ok w"
  using assms
  by (auto simp: vdevGroupToArgs_def Let_def split: if_splits option.splits)

lemma vdevGroupToArgs_disks:
  "vdevGroupToArgs g tier = Inr args \<Longrightarrow> vgDisks g \<noteq> [] \<and> (\<forall>d \<in> set (vgDisks g). validateDiskPathStrict d = None)"
  by (auto simp: vdevGroupToArgs_def Let_def split: if_splits option.splits)

text \<open>The words of \<open>zpool add\<close> that a change of an additive group stands for.\<close>

definition add_change :: "string \<Rightarrow> string \<Rightarrow> string list \<Rightarrow> string" where
  "add_change name kw args =
     ''add-'' @ name @ '': '' @ (if kw \<noteq> [] then kw @ '' '' @ join_with '' '' args else join_with '' '' args)"

lemma group_changes_cases:
  assumes "c \<in> set (group_changes added name kw tier gs)"
  obtains (Drift) r where "c = drift r"
    | (Additive) g args where "g \<in> set gs" "list_all added (vgDisks g)" "vdevGroupToArgs g tier = Inr args"
        "c = add_change name kw args"
  using assms
proof (induction gs)
  case (Cons g gs)
  from Cons.prems(3) consider
      "c \<in> set (group_changes added name kw tier gs)"
    | r where "c = drift r"
    | args where "list_all added (vgDisks g)" "vdevGroupToArgs g tier = Inr args" "c = add_change name kw args"
    by (auto simp: Let_def add_change_def split: if_splits sum.splits)
  then show ?case
  proof cases
    case 1
    show ?thesis by (rule Cons.IH [OF _ _ 1]) (use Cons.prems in auto)
  next
    case 2
    then show ?thesis by (rule Cons.prems(1))
  next
    case 3
    then show ?thesis using Cons.prems(2) [of g args] by simp
  qed
qed simp

lemma not_additive:
  "\<not> classifyTopologyChange (drift r)"
  "\<not> classifyTopologyChange (''health: '' @ r)"
  "\<not> classifyTopologyChange (''guid-mismatch: live='' @ r)"
  "\<not> classifyTopologyChange (''disk-remove: '' @ r)"
  "\<not> classifyTopologyChange (''zpool-set: '' @ r)"
  by (simp_all add: classifyTopologyChange_def drift_def has_prefix_def)

lemma additive_change_cases:
  assumes "c \<in> set (diffPool dp lp)" and "classifyTopologyChange c"
  obtains name kw tier gs g args where "(name, kw, tier, gs) \<in> set (tiers (dpTopology dp))" and "g \<in> set gs"
    and "list_all (added_disk dp lp) (vgDisks g)" and "vdevGroupToArgs g tier = Inr args" and "c = add_change name kw args"
proof -
  have props: "c \<notin> set (property_changes live opts)" for live opts
    using assms(2) not_additive(5)
    by (induction live opts rule: property_changes.induct) (auto simp: Let_def)
  from assms props have "c \<in> set (tier_changes dp lp)"
    using not_additive(2) [of "lpHealth lp @ '' (degraded - check zpool status)''"]
      not_additive(3) [of "lpGUID lp @ '' declared='' @ dpGUID dp @ '' (verify correct pool)''"] not_additive(4)
    by (auto simp: diffPool_def topology_changes_def split: if_splits)
  then obtain name kw tier gs where t: "(name, kw, tier, gs) \<in> set (tiers (dpTopology dp))"
      and c: "c \<in> set (group_changes (added_disk dp lp) name kw tier gs)"
    by (auto simp: tier_changes_def)
  from c show ?thesis
    by (rule group_changes_cases) (use assms(2) not_additive(1) that t in auto)
qed

lemma change_spec_add:
  assumes "(name, kw, tier, gs) \<in> set (tiers tp)"
  shows "change_spec (add_change name kw args) =
         Some (if kw \<noteq> [] then kw @ '' '' @ join_with '' '' args else join_with '' '' args)"
  using assms by (auto simp: tiers_def add_change_def change_spec_def has_prefix_def)

lemma join_with_Cons: "ws \<noteq> [] \<Longrightarrow> join_with sep (w # ws) = w @ sep @ join_with sep ws"
  by (cases ws) auto

lemma no_space_trim: "no_space w \<Longrightarrow> trim_space w = w"
proof -
  assume "no_space w"
  then have "dropWhile is_space w = w" "dropWhile is_space (rev w) = rev w"
    by (cases w, auto simp: no_space_def) (cases "rev w", auto simp: no_space_def dest!: arg_cong [of "rev _" _ set])
  then show ?thesis by (simp add: trim_space_def)
qed

lemma join_hd: "ws \<noteq> [] \<Longrightarrow> no_space (hd ws) \<Longrightarrow> \<exists>c cs. join_with '' '' ws = c # cs \<and> \<not> is_space c"
  by (cases ws; cases "tl ws"; cases "hd ws") (auto simp: no_space_def)

lemma join_last: "ws \<noteq> [] \<Longrightarrow> no_space (last ws) \<Longrightarrow> \<exists>c cs. rev (join_with '' '' ws) = c # cs \<and> \<not> is_space c"
proof (induction ws)
  case (Cons w ws)
  show ?case
  proof (cases "ws = []")
    case True
    with Cons.prems show ?thesis
      by (cases "rev w") (auto simp: no_space_def dest: arg_cong [where f = set])
  next
    case False
    with Cons show ?thesis by (auto simp: join_with_Cons)
  qed
qed simp

lemma trim_space_join:
  assumes "ws \<noteq> []" and "\<forall>w \<in> set ws. no_space w"
  shows "trim_space (join_with '' '' ws) = join_with '' '' ws"
proof -
  have "no_space (hd ws)" "no_space (last ws)" using assms by simp_all
  then obtain c cs d ds where "join_with '' '' ws = c # cs" "\<not> is_space c" "rev (join_with '' '' ws) = d # ds" "\<not> is_space d"
    using join_hd [OF assms(1)] join_last [OF assms(1)] by metis
  then have "dropWhile is_space (join_with '' '' ws) = join_with '' '' ws"
      "dropWhile is_space (rev (join_with '' '' ws)) = rev (join_with '' '' ws)"
    by simp_all
  then show ?thesis by (simp add: trim_space_def)
qed

definition kw_words :: "string \<Rightarrow> string list \<Rightarrow> string list" where
  "kw_words kw args = (if kw \<noteq> [] then kw # args else args)"

lemma reshape_command_add:
  assumes t: "(name, kw, tier, gs) \<in> set (tiers tp)" and "args \<noteq> []" and "\<forall>w \<in> set args. no_space w"
  shows "reshape_command pool (add_change name kw args) =
         (case vdev_words (kw_words kw args) of (ty, devs) \<Rightarrow> VdevAdd pool ty devs)"
proof -
  have kw: "kw = [] \<or> no_space kw"
    using t by (auto simp: tiers_def no_space_def is_space_def)
  have ws: "kw_words kw args \<noteq> []" "\<forall>w \<in> set (kw_words kw args). no_space w"
    using assms kw by (auto simp: kw_words_def)
  have spec: "change_spec (add_change name kw args) = Some (join_with '' '' (kw_words kw args))"
    using change_spec_add [OF t] assms(2) by (simp add: kw_words_def join_with_Cons)
  show ?thesis
    using ws join_hd [OF ws(1)] hd_in_set [OF ws(1)]
    by (auto simp: reshape_command_def spec trim_space_join [OF ws] words_of_join [OF ws(2)] Let_def
        simp del: join_with.simps)
qed

text \<open>What was accepted names a device only by a path the checks accept.\<close>

lemma VdevAdd_Inr:
  "VdevAdd pool ty devs = Inr args \<Longrightarrow>
   args = [''add'', pool] @ (if ty \<noteq> [] then [ty] else []) @ devs \<and> ValidatePoolName pool \<and>
   (\<forall>d \<in> set devs. ValidateDevicePath d)"
  by (auto simp: VdevAdd_def Let_def find_None_iff split: if_splits option.splits)

lemma ValidateDevicePath_prefix: "ValidateDevicePath d \<Longrightarrow> has_prefix d ''/dev/''"
  by (simp add: ValidateDevicePath_def after_def)

lemma keyword_no_device:
  "w \<in> {''mirror'', ''raidz'', ''raidz2'', ''raidz3'', ''log'', ''cache'', ''spare'', ''special''} \<or> draid_spec_ok w \<Longrightarrow>
   \<not> has_prefix w ''/dev/''"
  by (cases w) (auto simp: has_prefix_def draid_spec_ok_def)

lemma digits_then_split: "digits_then c s = Some t \<Longrightarrow> \<exists>ds. s = ds @ c # t \<and> list_all is_digit ds"
proof -
  assume "digits_then c s = Some t"
  then have "dropWhile is_digit s = c # t" by (auto simp: digits_then_def split: list.splits if_splits)
  then have "s = takeWhile is_digit s @ c # t" by (metis takeWhile_dropWhile_id)
  then show ?thesis using set_takeWhileD by (metis list_all_iff)
qed

lemma draid_groups_no_space: "draid_groups s \<Longrightarrow> \<forall>c \<in> set s. \<not> is_space c"
proof (induction s rule: draid_groups.induct)
  case (1 s)
  from "1.prems" obtain t u v where s: "s = CHR '':'' # t" and t: "digits_then CHR ''d'' t = Some (CHR '':'' # u)"
      and u: "digits_then CHR ''s'' u = Some v" and v: "v = [] \<or> draid_groups v"
    by (subst (asm) draid_groups.simps) (auto split: list.splits option.splits if_splits)
  have "\<forall>c \<in> set v. \<not> is_space c"
    using v "1.IH" [OF s _ t refl _ u] by (cases "v = []") auto
  moreover have "\<not> is_space CHR '':''" "\<not> is_space CHR ''d''" "\<not> is_space CHR ''s''"
    by (simp_all add: is_space_def)
  ultimately show ?case
    using digits_then_split [OF t] digits_then_split [OF u] digit_no_space
    by (auto simp: s list_all_iff)
qed

lemma draid_no_space: "draid_spec_ok w \<Longrightarrow> no_space w"
proof -
  assume w: "draid_spec_ok w"
  then obtain c t where d: "drop 5 w = c # t" "c \<in> set ''123''" "draid_groups t"
    unfolding draid_spec_ok_def by (cases "drop 5 w") auto
  have "has_prefix w ''draid''" using w by (simp add: draid_spec_ok_def)
  moreover have "drop (length ''draid'') w = c # t" using d(1) by (simp add: numeral_eq_Suc)
  ultimately have "w = ''draid'' @ c # t" using has_prefixD by metis
  then show ?thesis using d draid_groups_no_space [of t] by (auto simp: no_space_def is_space_def)
qed

lemma vdev_words_eq: "vdev_words toks = (ty, devs) \<Longrightarrow> toks \<noteq> [] \<Longrightarrow> hd toks \<noteq> [] \<Longrightarrow>
    toks = (if ty \<noteq> [] then [ty] else []) @ devs"
  by (cases toks) (auto simp: vdev_words_def split: if_splits)

definition declared_disks :: "topology \<Rightarrow> string list" where
  "declared_disks tp = concat (map (\<lambda>(_, _, _, gs). concat (map vgDisks gs)) (tiers tp))"

lemma vdev_args_words:
  assumes "vdevGroupToArgs g tier = Inr args" and "\<forall>d \<in> set (vgDisks g). no_space d"
  shows "args \<noteq> [] \<and> (\<forall>w \<in> set args. no_space w) \<and> (\<forall>w \<in> set args. has_prefix w ''/dev/'' \<longrightarrow> w \<in> set (vgDisks g))"
  using assms(1)
proof (rule vdevGroupToArgs_Inr)
  assume "args = vgDisks g"
  then show ?thesis using assms vdevGroupToArgs_disks by auto
next
  fix w assume "args = w # vgDisks g" and w: "w \<in> {''mirror'', ''raidz'', ''raidz2'', ''raidz3''} \<or> draid_spec_ok w"
  moreover have "no_space w" using w draid_no_space by (auto simp: no_space_def is_space_def)
  ultimately show ?thesis using assms(2) keyword_no_device [of w] by auto
qed

text \<open>
  C13. A reshape only ever adds disks that are declared and are not in the pool: whatever differs between a pool
  and its declaration, every device in the \<open>zpool add\<close> that is run for a change is such a disk, provided
  no declared disk contains white space (the validation of \<open>state.yaml\<close> refuses it).
\<close>

theorem reshape_adds_new_disks:
  assumes "c \<in> set (diffPool dp lp)" and "classifyTopologyChange c" and "reshape_command (dpName dp) c = Inr cmd"
    and "\<forall>d \<in> set (declared_disks (dpTopology dp)). no_space d"
  shows "take 2 cmd = [''add'', dpName dp] \<and>
         (\<forall>d \<in> set (drop 2 cmd). has_prefix d ''/dev/'' \<longrightarrow> added_disk dp lp d)"
proof -
  obtain name kw tier gs g args where t: "(name, kw, tier, gs) \<in> set (tiers (dpTopology dp))" and g: "g \<in> set gs"
      and new: "list_all (added_disk dp lp) (vgDisks g)" and args: "vdevGroupToArgs g tier = Inr args"
      and c: "c = add_change name kw args"
    using assms(1,2) by (rule additive_change_cases)
  have "\<forall>d \<in> set (vgDisks g). no_space d"
    using assms(4) t g by (fastforce simp: declared_disks_def)
  note words = vdev_args_words [OF args this]
  have kw: "kw = [] \<or> kw \<in> {''log'', ''cache'', ''spare'', ''special''}" using t by (auto simp: tiers_def)
  obtain ty devs where v: "vdev_words (kw_words kw args) = (ty, devs)" by fastforce
  have "VdevAdd (dpName dp) ty devs = Inr cmd"
    using assms(3) reshape_command_add [OF t] words v by (simp add: c)
  then have "cmd = [''add'', dpName dp] @ (if ty \<noteq> [] then [ty] else []) @ devs" using VdevAdd_Inr by blast
  moreover have "kw_words kw args = (if ty \<noteq> [] then [ty] else []) @ devs"
    using vdev_words_eq [OF v] words kw by (auto simp: kw_words_def no_space_def)
  ultimately have "cmd = [''add'', dpName dp] @ kw_words kw args" by simp
  moreover have "d \<in> set (vgDisks g)" if "d \<in> set (kw_words kw args)" "has_prefix d ''/dev/''" for d
  proof -
    have "kw \<noteq> [] \<Longrightarrow> d \<noteq> kw" using keyword_no_device [of kw] kw that(2) by blast
    then have "d \<in> set args" using that(1) by (simp add: kw_words_def split: if_splits)
    then show ?thesis using words that(2) by blast
  qed
  ultimately show ?thesis using new by (auto simp: list_all_iff)
qed

lemma tiers_member:
  "(name, kw, tier, gs) \<in> set (tiers tp) \<Longrightarrow>
   set gs \<subseteq> set (topData tp @ topSpecial tp @ topLog tp @ topCache tp @ topSpare tp)"
  unfolding tiers_def list.set insert_iff prod.inject by (elim disjE conjE) (simp_all add: subset_iff)

lemma tier_disks:
  assumes "(name, kw, tier, gs) \<in> set (tiers tp)" and "g \<in> set gs" and "\<forall>d \<in> set (vgDisks g). no_space d \<and> P d"
  shows "set (vgDisks g) \<subseteq> set (topologyAllDisks tp)"
proof
  fix d assume d: "d \<in> set (vgDisks g)"
  then have "no_space d" using assms(3) by blast
  then have t: "trim_space d = d" and ne: "d \<noteq> []" using no_space_trim no_space_def by blast+
  have "d \<in> set (concat (map vgDisks (topData tp @ topSpecial tp @ topLog tp @ topCache tp @ topSpare tp)))"
    using d assms(2) tiers_member [OF assms(1)] unfolding set_concat list.set_map by blast
  then have "trim_space d \<in> set (map trim_space
      (concat (map vgDisks (topData tp @ topSpecial tp @ topLog tp @ topCache tp @ topSpare tp))))"
    unfolding list.set_map by (rule imageI)
  then show "d \<in> set (topologyAllDisks tp)" unfolding topologyAllDisks_def t set_filter using ne by blast
qed

lemma new_group_change:
  assumes "(name, kw, tier, gs) \<in> set (tiers (dpTopology dp))" and "g \<in> set gs"
    and "vdevGroupToArgs g tier = Inr args" and "\<forall>d \<in> set (vgDisks g). no_space d \<and> d \<notin> set (lpDisks lp)"
  shows "add_change name kw args \<in> set (diffPool dp lp)"
proof -
  have ne: "vgDisks g \<noteq> []" using assms(3) vdevGroupToArgs_disks by blast
  have "set (vgDisks g) \<subseteq> set (topologyAllDisks (dpTopology dp))"
    using tier_disks [OF assms(1,2)] assms(4) by blast
  then have new: "list_all (added_disk dp lp) (vgDisks g)"
    using assms(4) by (auto simp: list_all_iff added_disk_def set_TopologyDiskFingerprint)
  have "add_change name kw args \<in> set (group_changes (added_disk dp lp) name kw tier gs)"
    using assms(2,3) ne new
    by (induction gs) (auto simp: Let_def add_change_def)
  then have "add_change name kw args \<in> set (tier_changes dp lp)"
    using assms(1) by (fastforce simp: tier_changes_def)
  moreover have "list_ex (added_disk dp lp) (TopologyDiskFingerprint (dpTopology dp))"
    using ne new by (cases "vgDisks g") (auto simp: list_ex_iff added_disk_def)
  ultimately show ?thesis by (simp add: diffPool_def topology_changes_def)
qed

lemma add_change_additive:
  "(name, kw, tier, gs) \<in> set (tiers tp) \<Longrightarrow> classifyTopologyChange (add_change name kw args)"
  by (auto simp: tiers_def add_change_def classifyTopologyChange_def has_prefix_def)

text \<open>
  C39. A mirrored log device is never added: the plan offers it as a reshape, but the word \<open>mirror\<close> after
  \<open>log\<close> is taken for a device and refused before any command is run.
\<close>

theorem mirrored_log_refused:
  assumes "g \<in> set (topLog (dpTopology dp))" and "vgType g = ''mirror''" and "2 \<le> length (vgDisks g)"
    and "\<forall>d \<in> set (vgDisks g). validateDiskPathStrict d = None \<and> no_space d \<and> d \<notin> set (lpDisks lp)"
    and "ValidatePoolName (dpName dp)"
  shows "\<exists>c \<in> set (diffPool dp lp). classifyTopologyChange c \<and>
           reshape_command (dpName dp) c = Inl (InvalidDevice ''mirror'')"
proof
  let ?args = "''mirror'' # vgDisks g"
  have t: "(''log'', ''log'', TierLog, topLog (dpTopology dp)) \<in> set (tiers (dpTopology dp))" by (simp add: tiers_def)
  have ty: "lower (trim_space ''mirror'') = ''mirror''"
    by (simp add: lower_def trim_space_def is_space_def to_lower_def upper_chars_def)
  have fe: "first_error (map validateDiskPathStrict (vgDisks g)) = None" using assms(4) by simp
  have "vgDisks g \<noteq> []" using assms(3) by auto
  then have args: "vdevGroupToArgs g TierLog = Inr ?args"
    unfolding vdevGroupToArgs_def Let_def fe assms(2) ty using assms(3) by simp
  show "add_change ''log'' ''log'' ?args \<in> set (diffPool dp lp)"
    using new_group_change [OF t assms(1) args] assms(4) by blast
  have nd: "\<not> ValidateDevicePath ''mirror''" using keyword_no_device ValidateDevicePath_prefix by blast
  have "\<forall>w \<in> set ?args. no_space w" using assms(4) by (auto simp: no_space_def is_space_def)
  then have "reshape_command (dpName dp) (add_change ''log'' ''log'' ?args) =
      VdevAdd (dpName dp) ''log'' ?args"
    using reshape_command_add [OF t] by (simp add: kw_words_def vdev_words_def add_types_def)
  also have "\<dots> = Inl (InvalidDevice ''mirror'')"
    using assms(5) nd by (simp add: VdevAdd_def)
  finally show "classifyTopologyChange (add_change ''log'' ''log'' ?args) \<and>
      reshape_command (dpName dp) (add_change ''log'' ''log'' ?args) = Inl (InvalidDevice ''mirror'')"
    using add_change_additive [OF t] by blast
qed

definition sample_topology :: topology where
  "sample_topology =
     \<lparr>topData = [\<lparr>vgType = ''mirror'', vgDisks = [''/dev/disk/by-id/a'', ''/dev/disk/by-id/b''], vgDraid = []\<rparr>],
      topSpecial = [],
      topLog = [\<lparr>vgType = ''mirror'', vgDisks = [''/dev/disk/by-id/c'', ''/dev/disk/by-id/d''], vgDraid = []\<rparr>],
      topCache = [], topSpare = []\<rparr>"

definition sample_pool :: desired_pool where
  "sample_pool =
     \<lparr>dpName = ''tank'', dpTopology = sample_topology, dpAshift = 12, dpGUID = [], dpOptions = [], dpForceReshape = True\<rparr>"

definition sample_live_pool :: live_pool where
  "sample_live_pool =
     \<lparr>lpName = ''tank'', lpGUID = ''7'', lpHealth = ''ONLINE'',
      lpDisks = [''/dev/disk/by-id/a'', ''/dev/disk/by-id/b''], lpOptions = Some []\<rparr>"

lemmas sample_pool_defs = sample_pool_def sample_topology_def sample_live_pool_def

lemma mirrored_log_refused_witness:
  "\<exists>c \<in> set (diffPool sample_pool sample_live_pool). classifyTopologyChange c \<and>
     reshape_command (dpName sample_pool) c = Inl (InvalidDevice ''mirror'')"
  by (rule mirrored_log_refused [of "hd (topLog sample_topology)"])
     (simp_all add: sample_pool_defs validateDiskPathStrict_def trim_space_def is_space_def has_prefix_def byIDPrefix_def
       contains_any_def no_space_def ValidatePoolName_def name_char_def char_class_defs)

text \<open>
  A mirrored data device declared in addition is added exactly as declared.
\<close>

theorem mirror_reshape:
  assumes "(''vdev'', [], TierData, gs) \<in> set (tiers tp)" and "vdevGroupToArgs g TierData = Inr (''mirror'' # ds)"
    and "\<forall>d \<in> set ds. no_space d \<and> ValidateDevicePath d" and "ds \<noteq> []" and "ValidatePoolName pool"
  shows "reshape_command pool (add_change ''vdev'' [] (''mirror'' # ds)) = Inr ([''add'', pool, ''mirror''] @ ds)"
proof -
  have "\<forall>w \<in> set (''mirror'' # ds). no_space w" using assms(3) by (auto simp: no_space_def is_space_def)
  moreover have "List.find (\<lambda>d. \<not> ValidateDevicePath d) ds = None" using assms(3) by (simp add: find_None_iff)
  ultimately show ?thesis
    using reshape_command_add [OF assms(1), of "''mirror'' # ds" pool] assms(3-5)
    by (simp add: kw_words_def vdev_words_def add_types_def VdevAdd_def validateZpoolAdd_def list_all_iff)
qed

text \<open>A pool whose cache device is not in it yet.\<close>

definition sample_cache :: vdev_group where
  "sample_cache = \<lparr>vgType = ''stripe'', vgDisks = [''/dev/disk/by-id/e''], vgDraid = []\<rparr>"

definition sample_cached :: desired_pool where
  "sample_cached = sample_pool\<lparr>dpTopology := sample_topology\<lparr>topLog := [], topCache := [sample_cache]\<rparr>\<rparr>"

lemma sample_cache_args: "vdevGroupToArgs sample_cache TierCache = Inr [''/dev/disk/by-id/e'']"
  by code_simp

lemma reshape_adds_new_disks_witness:
  "added_disk sample_cached sample_live_pool ''/dev/disk/by-id/e''"
proof -
  let ?c = "add_change ''cache'' ''cache'' [''/dev/disk/by-id/e'']"
  have t: "(''cache'', ''cache'', TierCache, [sample_cache]) \<in> set (tiers (dpTopology sample_cached))"
    by (simp add: tiers_def sample_cached_def)
  have "?c \<in> set (diffPool sample_cached sample_live_pool)"
    by (rule new_group_change [OF t _ sample_cache_args])
       (simp_all add: sample_cache_def sample_live_pool_def no_space_def is_space_def)
  moreover have "reshape_command ''tank'' ?c = Inr [''add'', ''tank'', ''cache'', ''/dev/disk/by-id/e'']"
    by code_simp
  moreover have "\<forall>d \<in> set (declared_disks (dpTopology sample_cached)). no_space d"
    by (simp add: declared_disks_def tiers_def sample_cached_def sample_pool_defs sample_cache_def no_space_def is_space_def)
  moreover have "dpName sample_cached = ''tank''" by (simp add: sample_cached_def sample_pool_def)
  ultimately have "\<forall>d \<in> set (drop 2 [''add'', ''tank'', ''cache'', ''/dev/disk/by-id/e'']).
      has_prefix d ''/dev/'' \<longrightarrow> added_disk sample_cached sample_live_pool d"
    using reshape_adds_new_disks [of ?c sample_cached sample_live_pool] add_change_additive [OF t] by metis
  then show ?thesis by (simp add: has_prefix_def)
qed

end
