(* ===== verification/GitLive.thy ===== *)
theory GitLive
  imports GitTypes
begin

text \<open>
  Reading the live state (\<open>gitops/live.go\<close>, \<open>docker_state.go\<close>): what the outputs of \<open>zpool\<close>, \<open>zfs\<close>,
  \<open>smbstatus\<close> and \<open>docker compose\<close> are read as, the probe that decides whether a dataset is empty, and
  the rows of the tables. A command that fails is \<open>None\<close>.
\<close>

section \<open>Lines\<close>

definition lines_of :: "string \<Rightarrow> string list" where
  "lines_of s = split_at newline s"

definition tab :: char where
  "tab = CHR 0x09"

section \<open>Pools\<close>

fun pool_of_line :: "string \<Rightarrow> live_pool option" where
  "pool_of_line l =
     (case words_of l of
        name # health # guid # _ \<Rightarrow>
          Some \<lparr>lpName = name, lpGUID = guid, lpHealth = health, lpDisks = [], lpOptions = None\<rparr>
      | _ \<Rightarrow> None)"

text \<open>The disks of the pools: the second argument is the pool whose lines are read.\<close>

fun status_paths :: "string list \<Rightarrow> string \<Rightarrow> (string \<times> string) list" where
  "status_paths [] cur = []"
| "status_paths (l # ls) cur =
     (let t = trim_space l in
      if has_prefix t ''pool:'' then status_paths ls (trim_space (trim_prefix t ''pool:''))
      else if cur \<noteq> [] \<and> contains_text t ''/dev/'' then
        (case words_of t of [] \<Rightarrow> status_paths ls cur | w # _ \<Rightarrow> (cur, w) # status_paths ls cur)
      else status_paths ls cur)"

definition parseZpoolStatusPaths :: "string \<Rightarrow> (string \<times> string) list" where
  "parseZpoolStatusPaths out = status_paths (lines_of out) []"

definition with_disks :: "(string \<times> string) list \<Rightarrow> live_pool \<Rightarrow> live_pool" where
  "with_disks ds p = p\<lparr>lpDisks := map snd (filter (\<lambda>(pool, d). pool = lpName p) ds)\<rparr>"

text \<open>A Go map filled line by line: the last value of a key is the first of the list.\<close>

fun property_lines :: "string list \<Rightarrow> (string \<times> string) list \<Rightarrow> (string \<times> string) list" where
  "property_lines [] m = m"
| "property_lines (l # ls) m =
     property_lines ls (case words_of l of k # v # _ \<Rightarrow> (k, v) # m | _ \<Rightarrow> m)"

definition readZpoolProperties :: "string option \<Rightarrow> (string \<times> string) list option" where
  "readZpoolProperties out = map_option (\<lambda>o'. property_lines (lines_of (trim_space o')) []) out"

text \<open>The outputs of \<open>zpool list\<close>, \<open>zpool status -P\<close> and, per pool, of \<open>zpool get\<close>.\<close>

definition readLivePools :: "string option \<Rightarrow> string option \<Rightarrow> (string \<Rightarrow> string option) \<Rightarrow> live_pool list option" where
  "readLivePools lst status get =
     map_option
       (\<lambda>out.
          let ps = List.map_filter pool_of_line (lines_of (trim_space out));
              qs = (case status of None \<Rightarrow> ps | Some st \<Rightarrow> map (with_disks (parseZpoolStatusPaths st)) ps)
          in map (\<lambda>p. p\<lparr>lpOptions := readZpoolProperties (get (lpName p))\<rparr>) qs)
       lst"

section \<open>Datasets\<close>

fun dataset_lines :: "string list \<Rightarrow> ((string \<times> string) \<times> string) list \<Rightarrow> ((string \<times> string) \<times> string) list" where
  "dataset_lines [] m = m"
| "dataset_lines (l # ls) m =
     dataset_lines ls (case words_of l of n # p # v # _ \<Rightarrow> ((n, p), v) # m | _ \<Rightarrow> m)"

definition value_of :: "('k \<times> string) list \<Rightarrow> 'k \<Rightarrow> string" where
  "value_of m k = (case map_of m k of None \<Rightarrow> [] | Some v \<Rightarrow> v)"

definition dataset_of :: "((string \<times> string) \<times> string) list \<Rightarrow> string \<Rightarrow> live_dataset" where
  "dataset_of m n =
     \<lparr>ldName = n, ldCompression = value_of m (n, ''compression''), ldAtime = value_of m (n, ''atime''),
      ldSync = value_of m (n, ''sync''), ldRecordsize = value_of m (n, ''recordsize''),
      ldXattr = value_of m (n, ''xattr''), ldSecondarycache = value_of m (n, ''secondarycache''),
      ldMountpoint = value_of m (n, ''mountpoint''), ldQuota = value_of m (n, ''quota'')\<rparr>"

text \<open>The outputs of \<open>zfs list\<close> and of \<open>zfs get -p\<close> for the names of the list.\<close>

definition readLiveDatasets :: "string option \<Rightarrow> (string list \<Rightarrow> string option) \<Rightarrow> live_dataset list option" where
  "readLiveDatasets lst get =
     (case lst of
        None \<Rightarrow> None
      | Some out \<Rightarrow>
          (let names = filter (\<lambda>n. n \<noteq> []) (map trim_space (lines_of (trim_space out))) in
           if names = [] then Some []
           else map_option (\<lambda>o'. map (dataset_of (dataset_lines (lines_of o') [])) names) (get names)))"

section \<open>Is a dataset empty\<close>

datatype empty_error = ListFailed | NotFound | NotMounted | ReadFailed

datatype holding = HoldsNothing | HasChildren nat | HasSnapshots nat | NotFilesystem string | HoldsFiles nat

text \<open>A row of \<open>zfs list -r -t all -o name,type,mounted,mountpoint\<close>.\<close>

record zfs_row =
  zrName :: string
  zrType :: string
  zrMounted :: string
  zrMountpoint :: string

fun row_of_line :: "string \<Rightarrow> zfs_row option" where
  "row_of_line l =
     (case split_at tab l of
        n # t # m # p # _ \<Rightarrow> Some \<lparr>zrName = n, zrType = t, zrMounted = m, zrMountpoint = p\<rparr>
      | _ \<Rightarrow> None)"

definition is_child :: "string \<Rightarrow> zfs_row \<Rightarrow> bool" where
  "is_child name r \<longleftrightarrow> zrName r \<noteq> name \<and> zrType r \<notin> {''bookmark'', ''snapshot''}"

definition is_snapshot :: "string \<Rightarrow> zfs_row \<Rightarrow> bool" where
  "is_snapshot name r \<longleftrightarrow> zrName r \<noteq> name \<and> zrType r = ''snapshot''"

text \<open>The second argument is the number of entries of a directory, or nothing when it cannot be read.\<close>

definition datasetEmptyImpl ::
    "string option \<Rightarrow> (string \<Rightarrow> nat option) \<Rightarrow> string \<Rightarrow> empty_error + bool \<times> holding" where
  "datasetEmptyImpl lst readdir name =
     (case lst of
        None \<Rightarrow> Inl ListFailed
      | Some out \<Rightarrow>
          (let rows = List.map_filter row_of_line (lines_of (trim_space out));
               children = length (filter (is_child name) rows);
               snapshots = length (filter (is_snapshot name) rows) in
           case last_with zrName name rows of
             None \<Rightarrow> Inl NotFound
           | Some self \<Rightarrow>
               if 0 < children then Inr (False, HasChildren children)
               else if 0 < snapshots then Inr (False, HasSnapshots snapshots)
               else if zrType self \<noteq> ''filesystem'' then Inr (False, NotFilesystem (zrType self))
               else if zrMounted self \<noteq> ''yes'' then Inl NotMounted
               else case readdir (zrMountpoint self) of
                 None \<Rightarrow> Inl ReadFailed
               | Some n \<Rightarrow> if 0 < n then Inr (False, HoldsFiles n) else Inr (True, HoldsNothing)))"

definition HasActiveSMBConnections :: "string option \<Rightarrow> string \<Rightarrow> bool" where
  "HasActiveSMBConnections out name =
     (case out of
        None \<Rightarrow> False
      | Some o' \<Rightarrow> list_ex (\<lambda>l. case words_of l of [] \<Rightarrow> False | w # _ \<Rightarrow> w = name) (lines_of o'))"

section \<open>Stacks\<close>

text \<open>The decoder gives service and state of a line of \<open>docker compose ps\<close>.\<close>

definition parseStackStatus :: "(string \<Rightarrow> (string \<times> string) option) \<Rightarrow> string \<Rightarrow> string list \<times> string" where
  "parseStackStatus decode out =
     (let found = List.map_filter decode (filter (\<lambda>l. l \<noteq> []) (lines_of (trim_space out)));
          running = length (filter (\<lambda>(s, st). st = ''running'') found) in
      (map fst found,
       if found = [] then ''stopped''
       else if running = length found then ''running''
       else if 0 < running then ''partial'' else ''stopped''))"

text \<open>An entry of the directory of stacks: its compose file, when there is one, and whether it can be read.\<close>

record stack_entry =
  seName :: string
  seDir :: bool
  seCompose :: bool
  seYAML :: "string option"
  sePs :: "string option"

definition stack_of :: "(string \<Rightarrow> (string \<times> string) option) \<Rightarrow> stack_entry \<Rightarrow> live_stack" where
  "stack_of decode e =
     \<lparr>lkName = seName e, lkYAML = (case seYAML e of None \<Rightarrow> [] | Some y \<Rightarrow> y),
      lkStatus = (case sePs e of None \<Rightarrow> ''stopped'' | Some out \<Rightarrow> snd (parseStackStatus decode out))\<rparr>"

text \<open>\<open>None\<close>: the directory cannot be created; \<open>Some None\<close>: it cannot be lst.\<close>

definition readLiveStacks ::
    "(string \<Rightarrow> (string \<times> string) option) \<Rightarrow> stack_entry list option option \<Rightarrow> live_stack list option" where
  "readLiveStacks decode entries =
     (case entries of
        None \<Rightarrow> Some []
      | Some None \<Rightarrow> None
      | Some (Some es) \<Rightarrow> Some (map (stack_of decode) (filter (\<lambda>e. seDir e \<and> seCompose e) es)))"

section \<open>When a dataset is empty\<close>

text \<open>A row printed with tabs.\<close>

definition row_line :: "zfs_row \<Rightarrow> string" where
  "row_line r = zrName r @ tab # zrType r @ tab # zrMounted r @ tab # zrMountpoint r"

definition row_field :: "string \<Rightarrow> bool" where
  "row_field w \<longleftrightarrow> w \<noteq> [] \<and> (\<forall>c \<in> set w. c \<noteq> tab \<and> c \<noteq> newline) \<and> \<not> is_space (hd w) \<and> \<not> is_space (last w)"

definition printable_row :: "zfs_row \<Rightarrow> bool" where
  "printable_row r \<longleftrightarrow> row_field (zrName r) \<and> row_field (zrType r) \<and> row_field (zrMounted r) \<and> row_field (zrMountpoint r)"

definition printed :: "zfs_row list \<Rightarrow> string" where
  "printed rs = concat (map (\<lambda>r. row_line r @ [newline]) rs)"

lemma trim_space_line:
  assumes "s \<noteq> []" and "\<not> is_space (hd s)" and "\<not> is_space (last s)"
  shows "trim_space (s @ [newline]) = s"
proof -
  have nl: "is_space newline" by (simp add: is_space_def newline_def)
  have "dropWhile is_space (s @ [newline]) = s @ [newline]" using assms(1,2) by (cases s) auto
  moreover have "dropWhile is_space (rev (s @ [newline])) = rev s"
    using assms(1,3) nl by (cases s rule: rev_cases) auto
  ultimately show ?thesis by (simp add: trim_space_def)
qed

lemma split_at_rows:
  "\<forall>l \<in> set ls. one_line l \<Longrightarrow> one_line w \<Longrightarrow>
   split_at newline (concat (map (\<lambda>l. l @ [newline]) ls) @ w) = ls @ [w]"
  by (induction ls) (simp_all add: one_line_def split_at_piece split_at_whole)

lemma tab_not_newline: "tab \<noteq> newline"
  by (simp add: tab_def newline_def)

lemma row_line_one: "printable_row r \<Longrightarrow> one_line (row_line r)"
  using tab_not_newline by (auto simp: printable_row_def row_field_def row_line_def one_line_def)

lemma row_line_ends:
  assumes "printable_row r"
  shows "row_line r \<noteq> []" "\<not> is_space (hd (row_line r))" "\<not> is_space (last (row_line r))"
  using assms by (simp_all add: printable_row_def row_field_def row_line_def)

lemma row_of_row_line: "printable_row r \<Longrightarrow> row_of_line (row_line r) = Some r"
proof -
  assume "printable_row r"
  then have "tab \<notin> set (zrName r)" "tab \<notin> set (zrType r)" "tab \<notin> set (zrMounted r)" "tab \<notin> set (zrMountpoint r)"
    unfolding printable_row_def row_field_def by blast+
  then show "row_of_line (row_line r) = Some r"
    by (simp add: row_line_def split_at_piece split_at_whole)
qed

lemma printed_last:
  "printed (rs @ [r]) = (concat (map (\<lambda>l. l @ [newline]) (map row_line rs)) @ row_line r) @ [newline]"
  by (simp add: printed_def comp_def)

lemma lines_of_printed:
  assumes "\<forall>r \<in> set rs. printable_row r" and "rs \<noteq> []"
  shows "lines_of (trim_space (printed rs)) = map row_line rs"
proof -
  obtain qs q where rs: "rs = qs @ [q]" using assms(2) by (cases rs rule: rev_cases) auto
  let ?s = "concat (map (\<lambda>l. l @ [newline]) (map row_line qs)) @ row_line q"
  have q: "printable_row q" and qs: "\<forall>r \<in> set qs. printable_row r" using assms(1) rs by simp_all
  have "\<not> is_space (hd ?s)"
    using qs q row_line_ends by (cases qs) (auto simp: hd_append)
  moreover have "\<not> is_space (last ?s)" "?s \<noteq> []" using row_line_ends [OF q] by simp_all
  ultimately have "trim_space (printed rs) = ?s"
    unfolding rs printed_last by (rule trim_space_line [rotated])
  then show ?thesis
    using split_at_rows [of "map row_line qs" "row_line q"] qs q row_line_one by (simp add: lines_of_def rs)
qed

lemma rows_of_printed:
  assumes "\<forall>r \<in> set rs. printable_row r" and "rs \<noteq> []"
  shows "List.map_filter row_of_line (lines_of (trim_space (printed rs))) = rs"
proof -
  have "List.map_filter row_of_line (map row_line qs) = qs" if "\<forall>r \<in> set qs. printable_row r" for qs
    using that by (induction qs) (simp_all add: map_filter_simps row_of_row_line del: row_of_line.simps)
  with assms show ?thesis by (simp add: lines_of_printed)
qed

lemma datasetEmptyImpl_iff:
  "datasetEmptyImpl lst readdir name = Inr (True, h) \<longleftrightarrow>
   h = HoldsNothing \<and>
   (\<exists>out self. lst = Some out \<and>
     last_with zrName name (List.map_filter row_of_line (lines_of (trim_space out))) = Some self \<and>
     (\<forall>r \<in> set (List.map_filter row_of_line (lines_of (trim_space out))).
        \<not> is_child name r \<and> \<not> is_snapshot name r) \<and>
     zrType self = ''filesystem'' \<and> zrMounted self = ''yes'' \<and> readdir (zrMountpoint self) = Some 0)"
  by (auto simp: datasetEmptyImpl_def Let_def filter_empty_conv split: option.splits if_splits)

text \<open>
  C29. A dataset is taken for empty exactly when it is a mounted file system whose directory has no entries and
  \<open>zfs list -r\<close> shows nothing else below it but bookmarks.
\<close>

theorem empty_exactly:
  assumes "\<forall>r \<in> set rs. printable_row r" and "distinct (map zrName rs)" and "self \<in> set rs" and "zrName self = name"
  shows "datasetEmptyImpl (Some (printed rs)) readdir name = Inr (True, HoldsNothing) \<longleftrightarrow>
         (\<forall>r \<in> set rs. r = self \<or> zrType r = ''bookmark'') \<and>
         zrType self = ''filesystem'' \<and> zrMounted self = ''yes'' \<and> readdir (zrMountpoint self) = Some 0"
proof -
  have rows: "List.map_filter row_of_line (lines_of (trim_space (printed rs))) = rs"
    using rows_of_printed assms(1,3) by fastforce
  have self: "last_with zrName name rs = Some self"
    using last_with_distinct [OF assms(2,3)] assms(4) by simp
  have other: "r = self \<longleftrightarrow> zrName r = name" if "r \<in> set rs" for r
    using that assms(2-4) by (auto simp: distinct_map dest: inj_onD)
  show ?thesis
    unfolding datasetEmptyImpl_iff option.inject
    using rows self other by (auto simp: is_child_def is_snapshot_def)
qed

definition sample_row :: "string \<Rightarrow> string \<Rightarrow> zfs_row" where
  "sample_row n t = \<lparr>zrName = n, zrType = t, zrMounted = ''yes'', zrMountpoint = ''/m''\<rparr>"

lemma empty_exactly_witness:
  "datasetEmptyImpl (Some (printed [sample_row ''p/d'' ''filesystem'', sample_row ''p/d#b'' ''bookmark''])) (\<lambda>p. Some 0) ''p/d''
     = Inr (True, HoldsNothing)"
proof -
  have "\<forall>r \<in> set [sample_row ''p/d'' ''filesystem'', sample_row ''p/d#b'' ''bookmark'']. printable_row r"
    by (simp add: sample_row_def printable_row_def row_field_def tab_def newline_def is_space_def)
  then show ?thesis
    using empty_exactly [of "[sample_row ''p/d'' ''filesystem'', sample_row ''p/d#b'' ''bookmark'']"
        "sample_row ''p/d'' ''filesystem''" "''p/d''" "\<lambda>p. Some 0"]
    by (simp add: sample_row_def)
qed

end
