(* ===== verification/GitDiff.thy ===== *)
theory GitDiff
  imports GitPools GitLive "HOL-Library.Log_Nat"
begin

text \<open>
  The comparison of the desired with the live state and the plan made from it (\<open>gitops/diff.go\<close>,
  \<open>nvmediff.go\<close>): one definition per kind of resource for its changes, three loops shared by the kinds, the
  checks that block a deletion, and \<open>ComputeDiff\<close> in its phases.
\<close>

section \<open>Quotas\<close>

fun digits_from :: "string \<Rightarrow> string \<times> string" where
  "digits_from [] = ([], [])"
| "digits_from (c # cs) = (if is_digit c then (case digits_from cs of (ds, r) \<Rightarrow> (c # ds, r)) else ([], c # cs))"

text \<open>
  \<open>fmt.Sscanf\<close> with \<open>%f\<close>: sign, digits and power of ten of a decimal number at the front of the text. The
  other notations of Go (hexadecimal, infinities, underscores) are not modelled.
\<close>

definition scan_exponent :: "string \<Rightarrow> int option" where
  "scan_exponent s =
     (case s of
        [] \<Rightarrow> Some 0
      | c # cs \<Rightarrow>
          if c = CHR ''e'' \<or> c = CHR ''E'' then
            (case sign_split cs of (neg, t) \<Rightarrow>
               map_option (\<lambda>n. if neg then - int n else int n) (unsigned (fst (digits_from t))))
          else Some 0)"

definition scan_float :: "string \<Rightarrow> (bool \<times> nat \<times> int) option" where
  "scan_float s =
     (case sign_split (dropWhile is_space s) of (neg, t) \<Rightarrow>
        (case digits_from t of (whole, r) \<Rightarrow>
           (let dot = (case r of [] \<Rightarrow> False | c # cs \<Rightarrow> c = CHR ''.'');
                (frac, r2) = (if dot then digits_from (tl r) else ([], r)) in
            case (unsigned (whole @ frac), scan_exponent r2) of
              (Some n, Some e) \<Rightarrow> Some (neg, n, e - int (length frac))
            | _ \<Rightarrow> None)))"

text \<open>The nearest number with 53 significant bits, as a numerator and a denominator.\<close>

definition half_even :: "nat \<Rightarrow> nat \<Rightarrow> nat" where
  "half_even a b =
     (let q = a div b; r = a mod b in
      if 2 * r < b then q else if b < 2 * r then q + 1 else if even q then q else q + 1)"

definition float64 :: "nat \<Rightarrow> nat \<Rightarrow> nat \<times> nat" where
  "float64 a b =
     (if a = 0 then (0, 1)
      else
        let s0 = 53 + int (floorlog 2 b) - int (floorlog 2 a);
            up = (\<lambda>s. if 0 \<le> s then (a * 2 ^ nat s, b) else (a, b * 2 ^ nat (- s)));
            s = (case up s0 of (x, y) \<Rightarrow> if y * 2 ^ 53 \<le> x then s0 - 1 else s0);
            m = (case up s of (x, y) \<Rightarrow> half_even x y)
        in if 0 \<le> s then (m, 2 ^ nat s) else (m * 2 ^ nat (- s), 1))"

definition max_uint64 :: nat where
  "max_uint64 = 2 ^ 64 - 1"

text \<open>\<open>uint64(n * float64(mult))\<close>; out of range the low 64 bits are taken.\<close>

definition scaled :: "bool \<times> nat \<times> int \<Rightarrow> nat \<Rightarrow> nat" where
  "scaled v mult =
     (case v of (neg, n, e) \<Rightarrow>
        (case (if 0 \<le> e then float64 (n * 10 ^ nat e) 1 else float64 n (10 ^ nat (- e))) of (x, y) \<Rightarrow>
           (let z = int (x * mult div y) in nat ((if neg then - z else z) mod 2 ^ 64))))"

text \<open>\<open>strconv.ParseUint\<close> in base 10, its error ignored.\<close>

fun uint64_from :: "nat \<Rightarrow> string \<Rightarrow> nat" where
  "uint64_from n [] = n"
| "uint64_from n (c # cs) =
     (case digit_val c of
        None \<Rightarrow> 0
      | Some d \<Rightarrow> if max_uint64 < 10 * n + d then max_uint64 else uint64_from (10 * n + d) cs)"

definition multiplier :: "char \<Rightarrow> nat option" where
  "multiplier c =
     (if c = CHR ''K'' then Some (2 ^ 10) else if c = CHR ''M'' then Some (2 ^ 20)
      else if c = CHR ''G'' then Some (2 ^ 30) else if c = CHR ''T'' then Some (2 ^ 40) else None)"

definition parseQuota :: "string \<Rightarrow> nat" where
  "parseQuota q0 =
     (let q = trim_space q0 in
      if q = [] \<or> q = ''none'' \<or> q = ''0'' then 0
      else case (if 1 < length q then multiplier (last q) else None) of
        Some mult \<Rightarrow> (case scan_float (butlast q) of None \<Rightarrow> 0 | Some v \<Rightarrow> scaled v mult)
      | None \<Rightarrow> uint64_from 0 q)"

section \<open>Changes of a resource\<close>

definition noted :: "bool \<Rightarrow> string \<Rightarrow> string list" where
  "noted b c = (if b then [c] else [])"

definition text_change :: "string \<Rightarrow> string \<Rightarrow> string \<Rightarrow> string list" where
  "text_change prop old new = noted (new \<noteq> old) (change prop old new)"

definition quoted_change :: "string \<Rightarrow> string \<Rightarrow> string \<Rightarrow> string list" where
  "quoted_change prop old new = noted (new \<noteq> old) (change prop (quoted old) (quoted new))"

definition bool_change :: "string \<Rightarrow> bool \<Rightarrow> bool \<Rightarrow> string list" where
  "bool_change prop old new = noted (new \<noteq> old) (change prop (yes_no old) (yes_no new))"

definition int_change :: "string \<Rightarrow> int \<Rightarrow> int \<Rightarrow> string list" where
  "int_change prop old new = noted (new \<noteq> old) (change prop (show_int old) (show_int new))"

text \<open>A property that is compared only when it is declared, without regard to case.\<close>

definition folded_change :: "string \<Rightarrow> string \<Rightarrow> string \<Rightarrow> string list" where
  "folded_change prop old new = noted (new \<noteq> [] \<and> \<not> EqualFold new old) (change prop old new)"

definition declared_change :: "string \<Rightarrow> string \<Rightarrow> string \<Rightarrow> string list" where
  "declared_change prop old new = noted (new \<noteq> [] \<and> new \<noteq> old) (change prop old new)"

definition diffDataset :: "desired_dataset \<Rightarrow> live_dataset \<Rightarrow> string list" where
  "diffDataset d l =
     declared_change ''compression'' (ldCompression l) (ddCompression d) @
     declared_change ''atime'' (ldAtime l) (ddAtime d) @
     declared_change ''mountpoint'' (ldMountpoint l) (ddMountpoint d) @
     noted (ddQuota d \<noteq> [] \<and> parseQuota (ddQuota d) \<noteq> parseQuota (ldQuota l)) (change ''quota'' (ldQuota l) (ddQuota d)) @
     folded_change ''sync'' (ldSync l) (ddSync d) @
     folded_change ''recordsize'' (ldRecordsize l) (ddRecordsize d) @
     folded_change ''xattr'' (ldXattr l) (ddXattr d) @
     folded_change ''secondarycache'' (ldSecondarycache l) (ddSecondarycache d)"

definition diffOptBool :: "string \<Rightarrow> bool option \<Rightarrow> bool \<Rightarrow> string list" where
  "diffOptBool key want have = (case want of None \<Rightarrow> [] | Some w \<Rightarrow> bool_change key have w)"

definition diffOptStr :: "string \<Rightarrow> string option \<Rightarrow> string \<Rightarrow> string list" where
  "diffOptStr key want have = (case want of None \<Rightarrow> [] | Some w \<Rightarrow> quoted_change key have w)"

definition diffShare :: "desired_share \<Rightarrow> live_share \<Rightarrow> string list" where
  "diffShare d l =
     text_change ''path'' (lsPath l) (dsPath d) @
     bool_change ''read_only'' (lsReadOnly l) (dsReadOnly d) @
     quoted_change ''valid_users'' (lsValidUsers l) (dsValidUsers d) @
     quoted_change ''comment'' (lsComment l) (dsComment d) @
     bool_change ''guest_ok'' (lsGuestOK l) (dsGuestOK d) @
     diffOptBool ''time_machine'' (dsTimeMachine d) (lsTimeMachine l) @
     diffOptStr ''time_machine_quota'' (dsTimeMachineQuota d) (lsTimeMachineQuota l) @
     diffOptBool ''shadow_copy'' (dsShadowCopy d) (lsShadowCopy l) @
     diffOptBool ''recycle_bin'' (dsRecycleBin d) (lsRecycleBin l) @
     diffOptStr ''hosts_allow'' (dsHostsAllow d) (lsHostsAllow l) @
     diffOptStr ''hosts_deny'' (dsHostsDeny d) (lsHostsDeny l)"

definition diffNFS :: "desired_nfs \<Rightarrow> live_nfs \<Rightarrow> string list" where
  "diffNFS d l =
     quoted_change ''options'' (lnOptions l) (dnOptions d) @ quoted_change ''clients'' (lnClients l) (dnClients d) @
     bool_change ''enabled'' (lnEnabled l) (dnEnabled d)"

definition diffStack :: "desired_stack \<Rightarrow> live_stack \<Rightarrow> string list" where
  "diffStack d l =
     noted (dkYAML d \<noteq> lkYAML l) ''yaml: (updated)'' @
     noted (lkStatus l \<noteq> ''running'') (change ''status'' (lkStatus l) ''running'')"

definition IsSecretRef :: "string \<Rightarrow> bool" where
  "IsSecretRef v \<longleftrightarrow> has_prefix v ''secret://''"

definition diffUser :: "desired_user \<Rightarrow> live_user \<Rightarrow> string list" where
  "diffUser d l =
     noted (duHash d \<noteq> [] \<and> \<not> IsSecretRef (duHash d) \<and> duHash d \<noteq> luHash l) (change ''password_hash'' ''(hidden)'' ''(updated)'') @
     quoted_change ''email'' (luEmail l) (duEmail d) @ quoted_change ''role'' (luRole l) (duRole d) @
     bool_change ''active'' (luActive l) (duActive d)"

definition diffGroup :: "desired_group \<Rightarrow> live_group \<Rightarrow> string list" where
  "diffGroup d l =
     quoted_change ''description'' (lgDescription l) (dgDescription d) @
     (if dgGID d \<noteq> 0 then int_change ''gid'' (lgGID l) (dgGID d) else []) @
     noted (dgMembers d \<noteq> lgMembers l) (change ''members'' (listed (lgMembers l)) (listed (dgMembers d)))"

definition diffReplication :: "replication \<Rightarrow> replication \<Rightarrow> string list" where
  "diffReplication d l =
     quoted_change ''source_dataset'' (drSource l) (drSource d) @ quoted_change ''remote'' (drRemote l) (drRemote d) @
     quoted_change ''remote_pool'' (drRemotePool l) (drRemotePool d) @
     bool_change ''trigger_on_snapshot'' (drOnSnapshot l) (drOnSnapshot d) @
     bool_change ''incremental'' (drIncremental l) (drIncremental d) @ bool_change ''compress'' (drCompress l) (drCompress d) @
     int_change ''rate_limit_mb'' (drRateLimit l) (drRateLimit d) @ quoted_change ''interval'' (drInterval l) (drInterval d) @
     bool_change ''enabled'' (drEnabled l) (drEnabled d)"

definition equalSlicesSorted :: "string list \<Rightarrow> string list \<Rightarrow> bool" where
  "equalSlicesSorted a b \<longleftrightarrow> sort a = sort b"

definition diffIntSlices :: "int list \<Rightarrow> int list \<Rightarrow> int list \<times> int list" where
  "diffIntSlices live desired =
     (sort (filter (\<lambda>v. v \<notin> set live) desired), sort (filter (\<lambda>v. v \<notin> set desired) live))"

definition port_changes :: "string \<Rightarrow> int list \<Rightarrow> int list \<Rightarrow> string list" where
  "port_changes proto live desired =
     (case diffIntSlices live desired of (added, removed) \<Rightarrow>
        map (\<lambda>p. ''firewall-'' @ proto @ ''-add: '' @ show_int p) added @
        map (\<lambda>p. ''firewall-'' @ proto @ ''-remove: '' @ show_int p) removed)"

definition static_changes :: "(string \<times> net_static) list \<Rightarrow> string \<times> net_static \<Rightarrow> string list" where
  "static_changes live s =
     (case s of (iface, ds) \<Rightarrow>
        (case map_of live iface of
           None \<Rightarrow> [''network-add: '' @ iface @ '' ('' @ stCIDR ds @ '')'']
         | Some ls \<Rightarrow>
             text_change (''network-cidr: '' @ iface) (stCIDR ls) (stCIDR ds) @
             text_change (''network-gateway: '' @ iface) (stGateway ls) (stGateway ds)))"

definition bond_changes :: "(string \<times> net_bond) list \<Rightarrow> string \<times> net_bond \<Rightarrow> string list" where
  "bond_changes live s =
     (case s of (name, b) \<Rightarrow>
        noted (case map_of live name of None \<Rightarrow> True | Some l \<Rightarrow> bdMode l \<noteq> bdMode b \<or> bdSlaves l \<noteq> bdSlaves b)
          (''network-bond: '' @ name @ '' ('' @ bdMode b @ '': '' @ join_with '', '' (bdSlaves b) @ '')''))"

definition vlan_changes :: "(string \<times> net_vlan) list \<Rightarrow> string \<times> net_vlan \<Rightarrow> string list" where
  "vlan_changes live s =
     (case s of (name, v) \<Rightarrow>
        noted (case map_of live name of None \<Rightarrow> True | Some l \<Rightarrow> vlParent l \<noteq> vlParent v \<or> vlVID l \<noteq> vlVID v)
          (''network-vlan: '' @ name @ '' ('' @ vlParent v @ '', '' @ show_int (vlVID v) @ '')''))"

text \<open>The live value of \<open>password_auth\<close> is printed as a pointer; its address is left out.\<close>

definition ssh_changes :: "desired_system \<Rightarrow> live_system \<Rightarrow> string list" where
  "ssh_changes d l =
     (if dySSHPort d \<noteq> 0 then int_change ''ssh-set:port'' (lySSHPort l) (dySSHPort d) else []) @
     (case dySSHPassword d of
        None \<Rightarrow> []
      | Some w \<Rightarrow>
          noted (lySSHPassword l \<noteq> Some w)
            (change ''ssh-set:password_auth'' (if lySSHPassword l = None then ''<nil>'' else ''0x'') (yes_no w))) @
     noted (dySSHRoot d \<noteq> [] \<and> dySSHRoot d \<noteq> lySSHRoot l)
       (change ''ssh-set:permit_root_login'' (quoted (lySSHRoot l)) (quoted (dySSHRoot d)))"

definition diffSystem :: "desired_system \<Rightarrow> live_system \<Rightarrow> string list" where
  "diffSystem d l =
     noted (dyHostname d \<noteq> [] \<and> dyHostname d \<noteq> lyHostname l) (change ''hostname'' (quoted (lyHostname l)) (quoted (dyHostname d))) @
     noted (dyTimezone d \<noteq> [] \<and> dyTimezone d \<noteq> lyTimezone l) (change ''timezone'' (quoted (lyTimezone l)) (quoted (dyTimezone d))) @
     noted (\<not> equalSlicesSorted (dyDNS d) (lyDNS l)) ''dns_servers changed'' @
     noted (\<not> equalSlicesSorted (dyNTP d) (lyNTP l)) ''ntp_servers changed'' @
     port_changes ''tcp'' (lyTCP l) (dyTCP d) @ port_changes ''udp'' (lyUDP l) (dyUDP d) @
     concat (map (static_changes (lyStatics l)) (dyStatics d)) @
     map (\<lambda>i. ''network-remove: '' @ i) (filter (\<lambda>i. i \<notin> fst ` set (dyStatics d)) (map fst (lyStatics l))) @
     concat (map (bond_changes (lyBonds l)) (dyBonds d)) @
     concat (map (vlan_changes (lyVLANs l)) (dyVLANs d)) @ ssh_changes d l"

definition diffACME :: "acme_config \<Rightarrow> acme_config \<Rightarrow> string list" where
  "diffACME d l =
     text_change ''email'' (daEmail l) (daEmail d) @ text_change ''server'' (daServer l) (daServer d) @
     text_change ''resolver'' (daResolver l) (daResolver d) @ bool_change ''enabled'' (daEnabled l) (daEnabled d)"

definition diffCertificate :: "certificate \<Rightarrow> certificate \<Rightarrow> string list" where
  "diffCertificate d l =
     noted (trim_space (dcCert d) \<noteq> trim_space (dcCert l)) ''certificate: (pem content changed)'' @
     noted (trim_space (dcKey d) \<noteq> trim_space (dcKey l)) ''private_key: (pem content changed)''"

definition diffSMART :: "smart_task \<Rightarrow> smart_task \<Rightarrow> string list" where
  "diffSMART d l =
     text_change ''schedule'' (dtSchedule l) (dtSchedule d) @ bool_change ''enabled'' (dtEnabled l) (dtEnabled d)"

definition nvmeExportEqual :: "nvme_export \<Rightarrow> nvme_export \<Rightarrow> bool" where
  "nvmeExportEqual a b \<longleftrightarrow> a\<lparr>dxHosts := []\<rparr> = b\<lparr>dxHosts := []\<rparr> \<and> sort (dxHosts a) = sort (dxHosts b)"

definition hostListEqual :: "string list \<Rightarrow> string list \<Rightarrow> bool" where
  "hostListEqual a b \<longleftrightarrow> sort (map trim_space a) = sort (map trim_space b)"

definition or_default :: "string \<Rightarrow> string \<Rightarrow> string" where
  "or_default d s = (if s = [] then d else s)"

definition positive_or :: "int \<Rightarrow> int \<Rightarrow> int" where
  "positive_or d i = (if i \<le> 0 then d else i)"

definition diffNVMeExport :: "nvme_export \<Rightarrow> nvme_export \<Rightarrow> string list" where
  "diffNVMeExport d l =
     (let transport = (\<lambda>e. or_default ''tcp'' (lower (trim_space (dxTransport e)))) in
      quoted_change ''zvol'' (dxZvol l) (dxZvol d) @ text_change ''transport'' (transport l) (transport d) @
      text_change ''listen_addr'' (or_default ''0.0.0.0'' (dxAddr l)) (or_default ''0.0.0.0'' (dxAddr d)) @
      int_change ''listen_port'' (positive_or 4420 (dxPort l)) (positive_or 4420 (dxPort d)) @
      int_change ''namespace_id'' (positive_or 1 (dxNamespace l)) (positive_or 1 (dxNamespace d)) @
      bool_change ''allow_any_host'' (dxAllowAny l) (dxAllowAny d) @
      noted (\<not> hostListEqual (dxHosts d) (dxHosts l)) ''host_nqns: changed'')"

section \<open>Risks\<close>

definition riskForDatasetChanges :: "string list \<Rightarrow> risk" where
  "riskForDatasetChanges cs =
     (case List.find (\<lambda>c. contains_text c ''mountpoint'' \<or> contains_text c ''quota'') cs of
        None \<Rightarrow> Low
      | Some c \<Rightarrow> if contains_text c ''mountpoint'' then Medium else Low)"

definition riskForStackChanges :: "string list \<Rightarrow> risk" where
  "riskForStackChanges cs = (if list_ex (\<lambda>c. contains_text c ''yaml'') cs then High else Medium)"

definition riskForSystemChanges :: "string list \<Rightarrow> risk" where
  "riskForSystemChanges cs =
     (if list_ex (\<lambda>c. contains_text c ''hostname'' \<or> contains_text c ''networking'') cs then High else Medium)"

section \<open>What blocks a deletion\<close>

text \<open>\<open>LIKE\<close> of SQL: \<open>%\<close> stands for any text, \<open>_\<close> for any character, a backslash before one for itself.\<close>

function like :: "string \<Rightarrow> string \<Rightarrow> bool" where
  "like [] s \<longleftrightarrow> s = []"
| "like (p # ps) s \<longleftrightarrow>
     (if p = CHR ''%'' then like ps s \<or> (case s of [] \<Rightarrow> False | c # cs \<Rightarrow> like (p # ps) cs)
      else if p = CHR 0x5C then
        (case ps of [] \<Rightarrow> False | q # qs \<Rightarrow> (case s of [] \<Rightarrow> False | c # cs \<Rightarrow> c = q \<and> like qs cs))
      else (case s of [] \<Rightarrow> False | c # cs \<Rightarrow> (p = CHR ''_'' \<or> p = c) \<and> like ps cs))"
  by pat_completeness auto

termination
  by (relation "measure (\<lambda>(p, s). length p + length s)") auto

declare like.simps(2) [simp del]

text \<open>The tables asked for attachments; a query that fails counts nothing.\<close>

record attach_db =
  atShares :: "string list option"
  atNFS :: "string list option"
  atISCSI :: "string list option"
  atStacks :: "string list option"

datatype attachment = SMBShares nat | NFSExports nat | ISCSITargets nat | DockerStacks nat

definition count_where :: "(string \<Rightarrow> bool) \<Rightarrow> string list option \<Rightarrow> nat" where
  "count_where P t = (case t of None \<Rightarrow> 0 | Some rows \<Rightarrow> length (filter P rows))"

definition counted :: "(nat \<Rightarrow> attachment) \<Rightarrow> nat \<Rightarrow> attachment list" where
  "counted f n = (if 0 < n then [f n] else [])"

definition datasetAttachmentReason :: "attach_db \<Rightarrow> string \<Rightarrow> string \<Rightarrow> attachment list" where
  "datasetAttachmentReason db name mnt =
     (if mnt \<noteq> [] then
        counted SMBShares (count_where (\<lambda>p. p = mnt) (atShares db)) @
        counted NFSExports (count_where (\<lambda>p. p = mnt) (atNFS db))
      else []) @
     counted ISCSITargets (count_where (like (name @ ''/%'')) (atISCSI db)) @
     (if mnt \<noteq> [] then counted DockerStacks (count_where (like (''%'' @ mnt @ ''%'')) (atStacks db)) else [])"

text \<open>What the checks ask while the plan is made; \<open>pbDB\<close> is the database of the context, if one is given.\<close>

record probe =
  pbDB :: "attach_db option"
  pbEmpty :: "string \<Rightarrow> empty_error + bool \<times> holding"
  pbActive :: "string \<Rightarrow> bool"

definition blockedCheckPool :: "live_pool \<Rightarrow> diff_item" where
  "blockedCheckPool lp = refused_item KindPool (lpName lp) ActionBlocked Critical PoolNotDeclared"

definition blockedCheckDataset :: "probe \<Rightarrow> live_dataset \<Rightarrow> diff_item" where
  "blockedCheckDataset P ld =
     (if (case pbDB P of None \<Rightarrow> False | Some db \<Rightarrow> datasetAttachmentReason db (ldName ld) (ldMountpoint ld) \<noteq> []) then
        refused_item KindDataset (ldName ld) ActionBlocked Critical StillAttached
      else case pbEmpty P (ldName ld) of
        Inl e \<Rightarrow> refused_item KindDataset (ldName ld) ActionBlocked Critical CannotCheck
      | Inr (nothing, h) \<Rightarrow>
          if \<not> nothing then refused_item KindDataset (ldName ld) ActionBlocked Critical HoldsData
          else item KindDataset (ldName ld) ActionDelete Medium NoSpec [])"

definition blockedCheckShare :: "probe \<Rightarrow> live_share \<Rightarrow> diff_item" where
  "blockedCheckShare P ls =
     (if pbActive P (lsName ls) then refused_item KindShare (lsName ls) ActionBlocked High ActiveConnections
      else item KindShare (lsName ls) ActionDelete Low NoSpec [])"

end
