(* ===== verification/GitPlan.thy ===== *)
theory GitPlan
  imports GitDiff
begin

text \<open>
  The plan (\<open>ComputeDiff\<close> of \<open>gitops/diff.go\<close>): the loops shared by the kinds of resources, the phases in the
  order of the code, the counts and the order of the items, and what a plan can hold.
\<close>

section \<open>Loops\<close>

text \<open>What is declared and not there, what is on both sides, what is there and not declared.\<close>

definition create_items ::
    "diff_kind \<Rightarrow> risk \<Rightarrow> ('d \<Rightarrow> diff_spec) \<Rightarrow> ('d \<Rightarrow> string) \<Rightarrow> string list \<Rightarrow> 'd list \<Rightarrow> diff_item list" where
  "create_items k r sp name live ds =
     map (\<lambda>d. item k (name d) ActionCreate r (sp d) []) (filter (\<lambda>d. name d \<notin> set live) ds)"

definition modify_items ::
    "diff_kind \<Rightarrow> bool \<Rightarrow> (string list \<Rightarrow> risk) \<Rightarrow> ('d \<Rightarrow> diff_spec) \<Rightarrow> ('d \<Rightarrow> 'l \<Rightarrow> string list) \<Rightarrow>
     ('d \<Rightarrow> string) \<Rightarrow> ('l \<Rightarrow> string) \<Rightarrow> 'l list \<Rightarrow> 'd list \<Rightarrow> diff_item list" where
  "modify_items k nop r sp diff name key live ds =
     concat (map (\<lambda>d. case last_with key (name d) live of
         None \<Rightarrow> []
       | Some l \<Rightarrow>
           (if diff d l = [] then (if nop then [item k (name d) ActionNOP Low NoSpec []] else [])
            else [item k (name d) ActionModify (r (diff d l)) (sp d) (diff d l)])) ds)"

definition delete_items :: "diff_kind \<Rightarrow> risk \<Rightarrow> ('l \<Rightarrow> string) \<Rightarrow> string list \<Rightarrow> 'l list \<Rightarrow> diff_item list" where
  "delete_items k r key wanted live =
     map (\<lambda>l. item k (key l) ActionDelete r NoSpec []) (filter (\<lambda>l. key l \<notin> set wanted) live)"

section \<open>Ambiguity and the system\<close>

definition repeated :: "string list \<Rightarrow> string list" where
  "repeated ns = remdups (filter (\<lambda>n. 1 < count_list ns n) ns)"

definition ambiguous_items :: "live_state \<Rightarrow> diff_item list" where
  "ambiguous_items L =
     map (\<lambda>n. refused_item KindPool n ActionAmbiguous Critical SameName) (repeated (map lpName (vePools L))) @
     map (\<lambda>n. refused_item KindDataset n ActionAmbiguous Critical SameName) (repeated (map ldName (veDatasets L)))"

definition system_items :: "desired_state \<Rightarrow> live_state \<Rightarrow> diff_item list" where
  "system_items D L =
     (case deSystem D of
        None \<Rightarrow> []
      | Some d \<Rightarrow>
          (case veSystem L of
             None \<Rightarrow> [item KindSystem ''system'' ActionModify Medium (SystemSpec d) []]
           | Some l \<Rightarrow>
               (if diffSystem d l = [] then [item KindSystem ''system'' ActionNOP Low NoSpec []]
                else [item KindSystem ''system'' ActionModify (riskForSystemChanges (diffSystem d l)) (SystemSpec d)
                        (diffSystem d l)])))"

section \<open>Creations\<close>

definition backed :: "desired_state \<Rightarrow> string \<Rightarrow> bool" where
  "backed D path \<longleftrightarrow> list_ex (\<lambda>dd. ddMountpoint dd \<noteq> [] \<and> path = ddMountpoint dd) (deDatasets D)"

definition create_shares :: "desired_state \<Rightarrow> live_state \<Rightarrow> diff_item list" where
  "create_shares D L =
     map (\<lambda>ds. if backed D (dsPath ds) then item KindShare (dsName ds) ActionCreate Low (ShareSpec ds) []
               else refused_item KindShare (dsName ds) ActionBlocked High NotBacked)
       (filter (\<lambda>ds. dsName ds \<notin> set (map lsName (veShares L))) (deShares D))"

definition create_nfs :: "desired_state \<Rightarrow> live_state \<Rightarrow> diff_item list" where
  "create_nfs D L =
     map (\<lambda>dn. if backed D (dnPath dn) then item KindNFS (dnPath dn) ActionCreate Low (NFSSpec dn) []
               else refused_item KindNFS (dnPath dn) ActionBlocked High NotBacked)
       (filter (\<lambda>dn. dnPath dn \<notin> set (map lnPath (veNFS L))) (deNFS D))"

definition fabric_exports :: "desired_state \<Rightarrow> nvme_export list" where
  "fabric_exports D = (case deFabrics D of None \<Rightarrow> [] | Some xs \<Rightarrow> xs)"

definition create_phase :: "desired_state \<Rightarrow> live_state \<Rightarrow> diff_item list" where
  "create_phase D L =
     create_items KindPool Low PoolSpec dpName (map lpName (vePools L)) (dePools D) @
     create_items KindDataset Low DatasetSpec ddName (map ldName (veDatasets L)) (deDatasets D) @
     create_shares D L @ create_nfs D L @
     create_items KindStack Medium StackSpec dkName (map lkName (veStacks L)) (deStacks D) @
     create_items KindNVMeFabric Medium NVMeSpec dxNQN (map dxNQN (veNVMe L)) (fabric_exports D) @
     create_items KindUser Medium UserSpec duName (map luName (veUsers L)) (deUsers D) @
     create_items KindGroup Low GroupSpec dgName (map lgName (veGroups L)) (deGroups D) @
     create_items KindReplication Low ReplicationSpec drName (map drName (veReplication L)) (deReplication D)"

section \<open>Modifications\<close>

definition pool_item :: "desired_pool \<Rightarrow> diff_action \<Rightarrow> risk \<Rightarrow> block_reason \<Rightarrow> string list \<Rightarrow> diff_item" where
  "pool_item dp a r why cs = (item KindPool (dpName dp) a r (PoolSpec dp) cs)\<lparr>diReason := why\<rparr>"

text \<open>Property changes, additive changes and the rest each make an item of their own.\<close>

definition modify_pool :: "desired_pool \<Rightarrow> live_pool \<Rightarrow> diff_item list" where
  "modify_pool dp lp =
     (let changes = diffPool dp lp;
          auto_changes = filter zpool_set changes;
          reshape = filter (\<lambda>c. \<not> zpool_set c \<and> classifyTopologyChange c) changes;
          manual = filter (\<lambda>c. \<not> zpool_set c \<and> \<not> classifyTopologyChange c) changes in
      if changes = [] then [item KindPool (dpName dp) ActionNOP Low NoSpec []]
      else
        (if auto_changes \<noteq> [] then [pool_item dp ActionModify (riskForPoolChanges auto_changes) NoReason auto_changes]
         else if reshape = [] \<and> manual = [] then [item KindPool (dpName dp) ActionNOP Low NoSpec []]
         else []) @
        (if reshape \<noteq> [] then
           [if dpForceReshape dp then pool_item dp ActionReshape Medium NoReason reshape
            else pool_item dp ActionManual Medium NeedsForceReshape reshape]
         else []) @
        (if manual \<noteq> [] then [pool_item dp ActionManual Medium NeedsZpool manual] else []))"

definition modify_pools :: "desired_state \<Rightarrow> live_state \<Rightarrow> diff_item list" where
  "modify_pools D L =
     concat (map (\<lambda>dp. case last_with lpName (dpName dp) (vePools L) of None \<Rightarrow> [] | Some lp \<Rightarrow> modify_pool dp lp) (dePools D))"

definition modify_shares :: "desired_state \<Rightarrow> live_state \<Rightarrow> diff_item list" where
  "modify_shares D L =
     concat (map (\<lambda>ds. if dsName ds \<notin> set (map lsName (veShares L)) then []
         else if \<not> backed D (dsPath ds) then [refused_item KindShare (dsName ds) ActionBlocked High NotBacked]
         else modify_items KindShare True (\<lambda>_. Low) ShareSpec diffShare dsName lsName (veShares L) [ds]) (deShares D))"

definition modify_fabric :: "desired_state \<Rightarrow> live_state \<Rightarrow> diff_item list" where
  "modify_fabric D L =
     concat (map (\<lambda>ex. case last_with dxNQN (dxNQN ex) (veNVMe L) of
         None \<Rightarrow> []
       | Some l \<Rightarrow>
           [if nvmeExportEqual ex l then item KindNVMeFabric (dxNQN ex) ActionNOP Low NoSpec []
            else item KindNVMeFabric (dxNQN ex) ActionModify Medium (NVMeSpec ex) (diffNVMeExport ex l)])
       (fabric_exports D))"

definition acme_items :: "desired_state \<Rightarrow> live_state \<Rightarrow> diff_item list" where
  "acme_items D L =
     (case deACME D of
        None \<Rightarrow> []
      | Some d \<Rightarrow>
          (case veACME L of
             None \<Rightarrow> (if daEnabled d then [item KindACME ''acme'' ActionCreate Medium (ACMESpec d) []] else [])
           | Some l \<Rightarrow>
               (if \<not> daEnabled l then (if daEnabled d then [item KindACME ''acme'' ActionCreate Medium (ACMESpec d) []] else [])
                else if diffACME d l \<noteq> [] then [item KindACME ''acme'' ActionModify Medium (ACMESpec d) (diffACME d l)]
                else [])))"

text \<open>The first live entry that matches decides.\<close>

definition paired_items ::
    "diff_kind \<Rightarrow> risk \<Rightarrow> ('d \<Rightarrow> diff_spec) \<Rightarrow> ('d \<Rightarrow> string) \<Rightarrow> ('d \<Rightarrow> 'd \<Rightarrow> bool) \<Rightarrow> ('d \<Rightarrow> 'd \<Rightarrow> string list) \<Rightarrow>
     'd list \<Rightarrow> 'd list \<Rightarrow> diff_item list" where
  "paired_items k r sp name same diff live ds =
     concat (map (\<lambda>d. case List.find (same d) live of
         None \<Rightarrow> [item k (name d) ActionCreate r (sp d) []]
       | Some l \<Rightarrow> (if diff d l \<noteq> [] then [item k (name d) ActionModify r (sp d) (diff d l)] else [])) ds)"

definition smart_name :: "smart_task \<Rightarrow> string" where
  "smart_name t = dtDevice t @ ''-'' @ dtType t"

definition same_smart :: "smart_task \<Rightarrow> smart_task \<Rightarrow> bool" where
  "same_smart t u \<longleftrightarrow> dtDevice u = dtDevice t \<and> dtType u = dtType t"

definition same_certificate :: "certificate \<Rightarrow> certificate \<Rightarrow> bool" where
  "same_certificate c d \<longleftrightarrow> dcName d = dcName c"

definition modify_storage :: "desired_state \<Rightarrow> live_state \<Rightarrow> diff_item list" where
  "modify_storage D L =
     modify_pools D L @
     modify_items KindDataset True riskForDatasetChanges DatasetSpec diffDataset ddName ldName (veDatasets L) (deDatasets D) @
     modify_shares D L @
     modify_items KindNFS True (\<lambda>_. Low) NFSSpec diffNFS dnPath lnPath (veNFS L) (deNFS D)"

definition modify_services :: "desired_state \<Rightarrow> live_state \<Rightarrow> diff_item list" where
  "modify_services D L =
     modify_items KindStack True riskForStackChanges StackSpec diffStack dkName lkName (veStacks L) (deStacks D) @
     modify_fabric D L @
     modify_items KindUser False (\<lambda>_. High) UserSpec diffUser duName luName (veUsers L) (deUsers D) @
     modify_items KindGroup False (\<lambda>_. Medium) GroupSpec diffGroup dgName lgName (veGroups L) (deGroups D) @
     modify_items KindReplication False (\<lambda>_. Medium) ReplicationSpec diffReplication drName drName
       (veReplication L) (deReplication D)"

definition modify_settings :: "desired_state \<Rightarrow> live_state \<Rightarrow> diff_item list" where
  "modify_settings D L =
     acme_items D L @
     paired_items KindCertificate Medium CertificateSpec dcName same_certificate diffCertificate
       (veCertificates L) (deCertificates D) @
     paired_items KindSMART Low SMARTSpec smart_name same_smart diffSMART (veSMART L) (deSMART D)"

definition modify_phase :: "desired_state \<Rightarrow> live_state \<Rightarrow> diff_item list" where
  "modify_phase D L = modify_storage D L @ modify_services D L @ modify_settings D L"

lemmas modify_phase_defs = modify_phase_def modify_storage_def modify_services_def modify_settings_def

section \<open>Deletions\<close>

definition local_user :: "live_user \<Rightarrow> bool" where
  "local_user u \<longleftrightarrow> luSource u = [] \<or> luSource u = ''local'' \<or> luSource u = ''git''"

definition delete_storage :: "probe \<Rightarrow> desired_state \<Rightarrow> live_state \<Rightarrow> diff_item list" where
  "delete_storage P D L =
     map blockedCheckPool (filter (\<lambda>lp. lpName lp \<notin> set (map dpName (dePools D))) (vePools L)) @
     map (blockedCheckDataset P)
       (filter (\<lambda>ld. ldName ld \<notin> set (map ddName (deDatasets D)) \<and> ldName ld \<notin> set (map dpName (dePools D))) (veDatasets L)) @
     map (blockedCheckShare P) (filter (\<lambda>ls. lsName ls \<notin> set (map dsName (deShares D))) (veShares L)) @
     delete_items KindNFS Low lnPath (map dnPath (deNFS D)) (veNFS L)"

definition delete_services :: "desired_state \<Rightarrow> live_state \<Rightarrow> diff_item list" where
  "delete_services D L =
     delete_items KindStack High lkName (map dkName (deStacks D)) (veStacks L) @
     (if deFabrics D = None then []
      else delete_items KindNVMeFabric High dxNQN (map dxNQN (fabric_exports D)) (veNVMe L)) @
     delete_items KindUser High luName (map duName (deUsers D))
       (filter (\<lambda>u. luName u \<noteq> ''admin'' \<and> luName u \<noteq> ''root'' \<and> local_user u) (veUsers L)) @
     delete_items KindGroup Medium lgName (map dgName (deGroups D)) (veGroups L) @
     delete_items KindReplication Low drName (map drName (deReplication D)) (veReplication L)"

definition delete_settings :: "desired_state \<Rightarrow> live_state \<Rightarrow> diff_item list" where
  "delete_settings D L =
     (case (deACME D, veACME L) of
        (None, Some l) \<Rightarrow> (if daEnabled l then [item KindACME ''acme'' ActionDelete Medium NoSpec []] else [])
      | _ \<Rightarrow> []) @
     delete_items KindCertificate Medium dcName (map dcName (deCertificates D)) (veCertificates L) @
     map (\<lambda>t. item KindSMART (smart_name t) ActionDelete Low NoSpec [])
       (filter (\<lambda>t. \<not> list_ex (\<lambda>d. same_smart d t) (deSMART D)) (veSMART L))"

definition delete_phase :: "probe \<Rightarrow> desired_state \<Rightarrow> live_state \<Rightarrow> diff_item list" where
  "delete_phase P D L =
     (if deIgnore D then [] else delete_storage P D L @ delete_services D L @ delete_settings D L)"

lemmas delete_phase_defs = delete_phase_def delete_storage_def delete_services_def delete_settings_def

section \<open>The plan\<close>

fun kindOrder :: "diff_kind \<Rightarrow> nat" where
  "kindOrder KindSystem = 1"
| "kindOrder KindPool = 2"
| "kindOrder KindDataset = 3"
| "kindOrder KindShare = 4"
| "kindOrder KindNFS = 5"
| "kindOrder KindUser = 6"
| "kindOrder KindGroup = 7"
| "kindOrder KindReplication = 8"
| "kindOrder KindLDAP = 9"
| "kindOrder KindACME = 10"
| "kindOrder KindCertificate = 11"
| "kindOrder KindSMART = 12"
| "kindOrder KindNVMeFabric = 13"
| "kindOrder KindStack = 14"

definition count_action :: "diff_action \<Rightarrow> diff_item list \<Rightarrow> nat" where
  "count_action a is = length (filter (\<lambda>i. diAction i = a) is)"

definition all_items :: "probe \<Rightarrow> desired_state \<Rightarrow> live_state \<Rightarrow> diff_item list" where
  "all_items P D L = system_items D L @ create_phase D L @ modify_phase D L @ delete_phase P D L"

text \<open>An ambiguous live state ends the comparison: nothing else is in the plan, and it is not safe to apply.\<close>

definition ComputeDiff :: "probe \<Rightarrow> desired_state \<Rightarrow> live_state \<Rightarrow> plan" where
  "ComputeDiff P D L =
     (if ambiguous_items L \<noteq> [] then
        \<lparr>plItems = ambiguous_items L, plHasBlocked = False, plSafe = False, plCreate = 0, plModify = 0, plDelete = 0,
         plBlocked = 0, plAmbiguous = length (ambiguous_items L), plManual = 0, plNop = 0, plHasAmbiguous = True\<rparr>
      else
        let is = all_items P D L in
        \<lparr>plItems = sort_key (\<lambda>i. kindOrder (diKind i)) is, plHasBlocked = count_action ActionBlocked is \<noteq> 0,
         plSafe = (count_action ActionBlocked is = 0), plCreate = count_action ActionCreate is,
         plModify = count_action ActionModify is, plDelete = count_action ActionDelete is,
         plBlocked = count_action ActionBlocked is, plAmbiguous = count_action ActionAmbiguous is,
         plManual = count_action ActionManual is, plNop = count_action ActionNOP is,
         plHasAmbiguous = (count_action ActionAmbiguous is \<noteq> 0)\<rparr>)"

section \<open>What a plan can hold\<close>

fun spec_kind :: "diff_spec \<Rightarrow> diff_kind option" where
  "spec_kind NoSpec = None"
| "spec_kind (PoolSpec d) = Some KindPool"
| "spec_kind (DatasetSpec d) = Some KindDataset"
| "spec_kind (ShareSpec d) = Some KindShare"
| "spec_kind (NFSSpec d) = Some KindNFS"
| "spec_kind (StackSpec d) = Some KindStack"
| "spec_kind (SystemSpec d) = Some KindSystem"
| "spec_kind (UserSpec d) = Some KindUser"
| "spec_kind (GroupSpec d) = Some KindGroup"
| "spec_kind (ReplicationSpec d) = Some KindReplication"
| "spec_kind (LDAPSpec d) = Some KindLDAP"
| "spec_kind (ACMESpec d) = Some KindACME"
| "spec_kind (CertificateSpec d) = Some KindCertificate"
| "spec_kind (SMARTSpec d) = Some KindSMART"
| "spec_kind (NVMeSpec d) = Some KindNVMeFabric"

fun spec_name :: "diff_spec \<Rightarrow> string" where
  "spec_name NoSpec = []"
| "spec_name (PoolSpec d) = dpName d"
| "spec_name (DatasetSpec d) = ddName d"
| "spec_name (ShareSpec d) = dsName d"
| "spec_name (NFSSpec d) = dnPath d"
| "spec_name (StackSpec d) = dkName d"
| "spec_name (SystemSpec d) = ''system''"
| "spec_name (UserSpec d) = duName d"
| "spec_name (GroupSpec d) = dgName d"
| "spec_name (ReplicationSpec d) = drName d"
| "spec_name (LDAPSpec d) = ''ldap''"
| "spec_name (ACMESpec d) = ''acme''"
| "spec_name (CertificateSpec d) = dcName d"
| "spec_name (SMARTSpec d) = smart_name d"
| "spec_name (NVMeSpec d) = dxNQN d"

text \<open>
  An item is well formed: what is created or modified carries the specification of its kind and name, only
  pools are reshaped, and only by additive changes, nothing is approved yet, and LDAP and the system are never created.
\<close>

definition well_formed_item :: "diff_item \<Rightarrow> bool" where
  "well_formed_item i \<longleftrightarrow>
     (diAction i \<in> {ActionCreate, ActionModify, ActionReshape} \<longrightarrow> spec_kind (diSpec i) = Some (diKind i) \<and> spec_name (diSpec i) = diName i) \<and>
     (diAction i = ActionReshape \<longrightarrow> diKind i = KindPool \<and> list_all classifyTopologyChange (diChanges i)) \<and>
     (diAction i = ActionManual \<longrightarrow> diKind i = KindPool) \<and>
     (diAction i = ActionCreate \<longrightarrow> diKind i \<noteq> KindSystem) \<and>
     (diAction i = ActionDelete \<longrightarrow> diKind i \<notin> {KindPool, KindSystem}) \<and>
     (diAction i = ActionBlocked \<longrightarrow> diKind i \<in> {KindPool, KindDataset, KindShare, KindNFS}) \<and>
     diKind i \<noteq> KindLDAP \<and> \<not> diApproved i"

text \<open>What makes a deletion admissible.\<close>

definition deletion_ok :: "probe \<Rightarrow> desired_state \<Rightarrow> live_state \<Rightarrow> diff_item \<Rightarrow> bool" where
  "deletion_ok P D L i \<longleftrightarrow>
     (diAction i = ActionDelete \<longrightarrow>
        \<not> deIgnore D \<and> diKind i \<noteq> KindPool \<and>
        (diKind i = KindDataset \<longrightarrow>
           pbEmpty P (diName i) \<in> {Inr (True, h) | h. True} \<and>
           diName i \<notin> set (map ddName (deDatasets D)) \<union> set (map dpName (dePools D)) \<and>
           (\<exists>ld \<in> set (veDatasets L). ldName ld = diName i \<and>
              (\<forall>db. pbDB P = Some db \<longrightarrow> datasetAttachmentReason db (ldName ld) (ldMountpoint ld) = []))) \<and>
        (diKind i = KindShare \<longrightarrow> \<not> pbActive P (diName i) \<and> diName i \<notin> set (map dsName (deShares D))) \<and>
        (diKind i = KindUser \<longrightarrow> diName i \<notin> {''admin'', ''root''} \<and> diName i \<notin> set (map duName (deUsers D))))"

lemma item_simple [simp]:
  "well_formed_item (item k n ActionNOP r sp cs) \<longleftrightarrow> k \<noteq> KindLDAP"
  "deletion_ok P D L (item k n ActionNOP r sp cs)"
  "deletion_ok P D L (item k n ActionCreate r sp cs)"
  "deletion_ok P D L (item k n ActionModify r sp cs)"
  "well_formed_item (refused_item k n ActionBlocked r w) \<longleftrightarrow> k \<in> {KindPool, KindDataset, KindShare, KindNFS}"
  "deletion_ok P D L (refused_item k n ActionBlocked r w)"
  "deletion_ok P D L (refused_item k n ActionAmbiguous r w)"
  "well_formed_item (refused_item k n ActionAmbiguous r w) \<longleftrightarrow> k \<noteq> KindLDAP"
  by (auto simp: well_formed_item_def deletion_ok_def)

lemma create_items_ok [simp]:
  assumes "\<And>d. spec_kind (sp d) = Some k \<and> spec_name (sp d) = name d" and "k \<notin> {KindLDAP, KindSystem}"
  shows "list_all well_formed_item (create_items k r sp name live ds)"
    and "list_all (deletion_ok P D L) (create_items k r sp name live ds)"
  using assms by (auto simp: create_items_def list_all_iff well_formed_item_def)

lemma modify_items_ok [simp]:
  assumes "\<And>d. spec_kind (sp d) = Some k \<and> spec_name (sp d) = name d" and "k \<noteq> KindLDAP"
  shows "list_all well_formed_item (modify_items k nop r sp diff name key live ds)"
    and "list_all (deletion_ok P D L) (modify_items k nop r sp diff name key live ds)"
  using assms by (auto simp: modify_items_def list_all_iff well_formed_item_def split: option.splits)

lemma paired_items_ok [simp]:
  assumes "\<And>d. spec_kind (sp d) = Some k \<and> spec_name (sp d) = name d" and "k \<notin> {KindLDAP, KindSystem}"
  shows "list_all well_formed_item (paired_items k r sp name same diff live ds)"
    and "list_all (deletion_ok P D L) (paired_items k r sp name same diff live ds)"
  using assms by (auto simp: paired_items_def list_all_iff well_formed_item_def split: option.splits)

lemma delete_items_ok [simp]:
  assumes "k \<notin> {KindLDAP, KindSystem, KindPool}"
  shows "list_all well_formed_item (delete_items k r key wanted live)"
  using assms by (auto simp: delete_items_def list_all_iff well_formed_item_def)

lemma delete_items_deletion [simp]:
  assumes "\<not> deIgnore D" and "k \<notin> {KindPool, KindDataset, KindShare, KindUser}"
  shows "list_all (deletion_ok P D L) (delete_items k r key wanted live)"
  using assms by (auto simp: delete_items_def list_all_iff deletion_ok_def)

lemma system_items_ok:
  "list_all well_formed_item (system_items D L)" "list_all (deletion_ok P D L) (system_items D L)"
  by (auto simp: system_items_def well_formed_item_def split: option.splits)

lemma create_phase_ok:
  "list_all well_formed_item (create_phase D L)" "list_all (deletion_ok P D L) (create_phase D L)"
  by (auto simp: create_phase_def create_shares_def create_nfs_def list_all_iff [of _ "map _ _"] well_formed_item_def)

lemma modify_pool_ok: "list_all well_formed_item (modify_pool dp lp)" "list_all (deletion_ok P D L) (modify_pool dp lp)"
  by (auto simp: modify_pool_def pool_item_def Let_def well_formed_item_def deletion_ok_def list_all_iff)

lemma list_all_concat_map: "list_all P (concat (map f xs)) \<longleftrightarrow> (\<forall>x \<in> set xs. list_all P (f x))"
  by (auto simp: list_all_iff)

lemma modify_phase_ok:
  "list_all well_formed_item (modify_phase D L)" "list_all (deletion_ok P D L) (modify_phase D L)"
proof -
  have "list_all well_formed_item (modify_pools D L)" "list_all (deletion_ok P D L) (modify_pools D L)"
    using modify_pool_ok by (auto simp: modify_pools_def list_all_concat_map split: option.split)
  moreover have "list_all well_formed_item (modify_shares D L)" "list_all (deletion_ok P D L) (modify_shares D L)"
    by (auto simp: modify_shares_def list_all_concat_map)
  moreover have "list_all well_formed_item (modify_fabric D L)" "list_all (deletion_ok P D L) (modify_fabric D L)"
    by (auto simp: modify_fabric_def list_all_concat_map well_formed_item_def split: option.split)
  moreover have "list_all well_formed_item (acme_items D L)" "list_all (deletion_ok P D L) (acme_items D L)"
    by (auto simp: acme_items_def well_formed_item_def split: option.split)
  ultimately show "list_all well_formed_item (modify_phase D L)" "list_all (deletion_ok P D L) (modify_phase D L)"
    by (simp_all add: modify_phase_defs)
qed

lemma blocked_dataset_ok:
  "well_formed_item (blockedCheckDataset P ld)"
  "\<not> deIgnore D \<Longrightarrow> ld \<in> set (veDatasets L) \<Longrightarrow> ldName ld \<notin> set (map ddName (deDatasets D)) \<Longrightarrow>
   ldName ld \<notin> set (map dpName (dePools D)) \<Longrightarrow> deletion_ok P D L (blockedCheckDataset P ld)"
  by (auto simp: blockedCheckDataset_def well_formed_item_def deletion_ok_def split: option.split sum.split prod.split)

lemma blocked_share_ok:
  "well_formed_item (blockedCheckShare P ls)"
  "\<not> deIgnore D \<Longrightarrow> lsName ls \<notin> set (map dsName (deShares D)) \<Longrightarrow> deletion_ok P D L (blockedCheckShare P ls)"
  by (auto simp: blockedCheckShare_def well_formed_item_def deletion_ok_def)

lemma delete_users_ok:
  "\<not> deIgnore D \<Longrightarrow>
   list_all (deletion_ok P D L) (delete_items KindUser High luName (map duName (deUsers D))
     (filter (\<lambda>u. luName u \<noteq> ''admin'' \<and> luName u \<noteq> ''root'' \<and> local_user u) (veUsers L)))"
  by (auto simp: delete_items_def list_all_iff deletion_ok_def)

lemma delete_phase_ok:
  "list_all well_formed_item (delete_phase P D L)" "list_all (deletion_ok P D L) (delete_phase P D L)"
proof -
  have maps: "list_all Q (map f (filter R xs)) \<longleftrightarrow> (\<forall>x \<in> set xs. R x \<longrightarrow> Q (f x))" for Q R and f :: "'x \<Rightarrow> diff_item" and xs
    by (auto simp: list_all_iff)
  have smart: "well_formed_item (item KindSMART n ActionDelete r NoSpec [])" for n r by (simp add: well_formed_item_def)
  show "list_all well_formed_item (delete_phase P D L)"
    by (auto simp: delete_phase_defs maps blockedCheckPool_def blocked_dataset_ok blocked_share_ok smart
        well_formed_item_def [of "item KindACME _ _ _ _ _"] split: option.split)
  have smart': "\<not> deIgnore D \<Longrightarrow> deletion_ok P D L (item KindSMART n ActionDelete r NoSpec [])"
      "\<not> deIgnore D \<Longrightarrow> deletion_ok P D L (item KindACME n ActionDelete r NoSpec [])" for n r
    by (simp_all add: deletion_ok_def)
  show "list_all (deletion_ok P D L) (delete_phase P D L)"
    by (auto simp: delete_phase_defs maps blockedCheckPool_def blocked_dataset_ok(2) blocked_share_ok(2) smart'
        delete_users_ok split: option.split)
qed

lemma all_items_ok:
  "list_all well_formed_item (all_items P D L)" "list_all (deletion_ok P D L) (all_items P D L)"
  by (simp_all add: all_items_def system_items_ok create_phase_ok modify_phase_ok delete_phase_ok)

lemma plan_items_cases:
  assumes "i \<in> set (plItems (ComputeDiff P D L))"
  obtains "i \<in> set (ambiguous_items L)" | "i \<in> set (all_items P D L)" "ambiguous_items L = []"
  using assms by (auto simp: ComputeDiff_def Let_def split: if_splits)

text \<open>
  C38. The items of a plan are typed: what is created, modified or reshaped carries the specification of exactly its
  kind and name, so the executors always find one (the others need none); only pools are reshaped, by additive changes;
  systems are not created, pools and systems not deleted; nothing is approved.
\<close>

theorem plan_typed:
  "list_all well_formed_item (plItems (ComputeDiff P D L))"
proof -
  have "well_formed_item i" if "i \<in> set (plItems (ComputeDiff P D L))" for i
    using that
  proof (rule plan_items_cases)
    assume "i \<in> set (ambiguous_items L)"
    then show ?thesis by (auto simp: ambiguous_items_def)
  next
    assume "i \<in> set (all_items P D L)"
    then show ?thesis using all_items_ok(1) by (simp add: list_all_iff)
  qed
  then show ?thesis by (simp add: list_all_iff)
qed

text \<open>
  C19. A deletion is planned only with a complete desired state, never of a pool; of a dataset only when it is
  undeclared, the check for data answered that it is empty, and, where a database is at hand, what its queries return
  (nothing, for one that fails) attaches no share, export, target or stack to it; of a share only when it is undeclared
  and nobody uses it; of a user only when it is undeclared, and never of \<open>admin\<close> or \<open>root\<close>.
\<close>

theorem deletions_planned:
  "list_all (deletion_ok P D L) (plItems (ComputeDiff P D L))"
proof -
  have "deletion_ok P D L i" if "i \<in> set (plItems (ComputeDiff P D L))" for i
    using that
  proof (rule plan_items_cases)
    assume "i \<in> set (ambiguous_items L)"
    then show ?thesis by (auto simp: ambiguous_items_def)
  next
    assume "i \<in> set (all_items P D L)"
    then show ?thesis using all_items_ok(2) by (simp add: list_all_iff)
  qed
  then show ?thesis by (simp add: list_all_iff)
qed

section \<open>The order of a plan\<close>

lemma kind_stable:
  "filter (\<lambda>i. diKind i = k) (sort_key (\<lambda>i. kindOrder (diKind i)) xs) = filter (\<lambda>i. diKind i = k) (xs :: diff_item list)"
proof -
  have eq: "(\<lambda>i. diKind i = k) = (\<lambda>i. kindOrder (diKind i) = kindOrder k)"
    by (rule ext, case_tac "diKind i"; cases k) simp_all
  show ?thesis unfolding eq by (rule sort_key_stable)
qed

text \<open>
  The items of a plan stand in the order of their kinds (system, pools, datasets, shares, exports, ...), and
  the items of one kind in the order creations, modifications, deletions.
\<close>

theorem plan_in_order:
  "sorted (map (\<lambda>i. kindOrder (diKind i)) (plItems (ComputeDiff P D L))) \<and>
   (ambiguous_items L \<noteq> [] \<or>
    filter (\<lambda>i. diKind i = k) (plItems (ComputeDiff P D L)) =
      filter (\<lambda>i. diKind i = k) (system_items D L @ create_phase D L @ modify_phase D L @ delete_phase P D L))"
proof -
  have "sorted (map (\<lambda>i. kindOrder (diKind i)) (ambiguous_items L))"
    by (auto simp: ambiguous_items_def sorted_append comp_def map_replicate_const)
  then show ?thesis using kind_stable [of k "all_items P D L"] by (simp add: ComputeDiff_def Let_def all_items_def)
qed

section \<open>What happens to a dataset\<close>

definition about :: "diff_kind \<Rightarrow> string \<Rightarrow> diff_item \<Rightarrow> bool" where
  "about k n i \<longleftrightarrow> diKind i = k \<and> diName i = n"

lemma about_other: "list_all (\<lambda>i. diKind i \<noteq> k) xs \<Longrightarrow> filter (about k n) xs = []"
  by (auto simp: about_def list_all_iff filter_empty_conv)

lemma kind_create_items [simp]: "k \<noteq> k' \<Longrightarrow> list_all (\<lambda>i. diKind i \<noteq> k) (create_items k' r sp name live ds)"
  by (auto simp: create_items_def list_all_iff)

lemma kind_modify_items [simp]:
  "k \<noteq> k' \<Longrightarrow> list_all (\<lambda>i. diKind i \<noteq> k) (modify_items k' nop r sp diff name key live ds)"
  by (auto simp: modify_items_def list_all_iff split: option.splits)

lemma kind_paired_items [simp]:
  "k \<noteq> k' \<Longrightarrow> list_all (\<lambda>i. diKind i \<noteq> k) (paired_items k' r sp name same diff live ds)"
  by (auto simp: paired_items_def list_all_iff split: option.splits)

lemma kind_delete_items [simp]: "k \<noteq> k' \<Longrightarrow> list_all (\<lambda>i. diKind i \<noteq> k) (delete_items k' r key wanted live)"
  by (auto simp: delete_items_def list_all_iff)

lemma all_concat_map:
  "(\<And>x. list_all P (f x)) \<Longrightarrow> list_all P (concat (map f xs))"
  by (simp add: list_all_iff)

lemma kind_creates [simp]:
  "k \<noteq> KindShare \<Longrightarrow> list_all (\<lambda>i. diKind i \<noteq> k) (create_shares D L)"
  "k \<noteq> KindNFS \<Longrightarrow> list_all (\<lambda>i. diKind i \<noteq> k) (create_nfs D L)"
  by (auto simp: create_shares_def create_nfs_def list_all_iff)

lemma kind_pools [simp]: "k \<noteq> KindPool \<Longrightarrow> list_all (\<lambda>i. diKind i \<noteq> k) (modify_pools D L)"
  unfolding modify_pools_def
  by (rule all_concat_map) (auto simp: modify_pool_def pool_item_def Let_def split: option.split)

lemma kind_shares [simp]: "k \<noteq> KindShare \<Longrightarrow> list_all (\<lambda>i. diKind i \<noteq> k) (modify_shares D L)"
  unfolding modify_shares_def by (rule all_concat_map) simp

lemma kind_fabric [simp]: "k \<noteq> KindNVMeFabric \<Longrightarrow> list_all (\<lambda>i. diKind i \<noteq> k) (modify_fabric D L)"
  unfolding modify_fabric_def by (rule all_concat_map) (auto split: option.split)

lemma kind_single [simp]:
  "k \<noteq> KindACME \<Longrightarrow> list_all (\<lambda>i. diKind i \<noteq> k) (acme_items D L)"
  "k \<noteq> KindSystem \<Longrightarrow> list_all (\<lambda>i. diKind i \<noteq> k) (system_items D L)"
  by (auto simp: acme_items_def system_items_def split: option.split)

lemma filter_map_one:
  assumes "distinct (map f xs)" and "\<And>x. x \<in> set xs \<Longrightarrow> Q (g x) \<longleftrightarrow> f x = n"
  shows "filter Q (map g xs) = (case last_with f n xs of None \<Rightarrow> [] | Some x \<Rightarrow> [g x])"
  using assms
proof (induction xs)
  case (Cons x xs)
  show ?case
  proof (cases "f x = n")
    case True
    then have "n \<notin> f ` set xs" using Cons.prems(1) by auto
    then have "filter Q (map g xs) = []" using Cons.prems(2) by (auto simp: filter_empty_conv)
    moreover have "last_with f n (x # xs) = Some x"
      using last_with_distinct [of f "x # xs" x] Cons.prems(1) True by simp
    ultimately show ?thesis using True Cons.prems(2) [of x] by simp
  next
    case False
    then have "last_with f n (x # xs) = last_with f n xs"
      by (auto simp: last_with_def find_append split: option.split)
    with False Cons show ?thesis by simp
  qed
qed (simp add: last_with_def)

lemma repeated_Nil: "repeated ns = [] \<longleftrightarrow> distinct ns"
proof
  assume r: "repeated ns = []"
  show "distinct ns"
  proof (rule ccontr)
    assume "\<not> distinct ns"
    then obtain xs ys zs y where "ns = xs @ [y] @ ys @ [y] @ zs" using not_distinct_decomp by blast
    then have "y \<in> set (repeated ns)" by (simp add: repeated_def)
    with r show False by simp
  qed
next
  assume "distinct ns"
  then have "count_list ns n \<le> 1" for n by (induction ns) (auto simp: count_list_0_iff)
  then show "repeated ns = []" by (auto simp: repeated_def filter_empty_conv not_less)
qed

lemma about_map: "(\<And>x. diKind (f x) \<noteq> k) \<Longrightarrow> filter (about k n) (map f xs) = []"
  by (auto simp: about_def filter_empty_conv)

lemma blocked_pool_about [simp]: "diKind (blockedCheckPool lp) = KindPool" "diName (blockedCheckPool lp) = lpName lp"
  by (simp_all add: blockedCheckPool_def)

lemma blocked_dataset_about [simp]:
  "diKind (blockedCheckDataset P ld) = KindDataset" "diName (blockedCheckDataset P ld) = ldName ld"
  by (simp_all add: blockedCheckDataset_def split: option.split sum.split prod.split)

lemma blocked_share_about [simp]:
  "diKind (blockedCheckShare P ls) = KindShare" "diName (blockedCheckShare P ls) = lsName ls"
  by (simp_all add: blockedCheckShare_def)

text \<open>What the plan says of one dataset, when its name stands for one declared dataset at most.\<close>

definition dataset_plan :: "probe \<Rightarrow> desired_state \<Rightarrow> live_state \<Rightarrow> string \<Rightarrow> diff_item list" where
  "dataset_plan P D L n =
     (case (last_with ddName n (deDatasets D), last_with ldName n (veDatasets L)) of
        (None, None) \<Rightarrow> []
      | (Some d, None) \<Rightarrow> [item KindDataset n ActionCreate Low (DatasetSpec d) []]
      | (Some d, Some l) \<Rightarrow>
          (if diffDataset d l = [] then [item KindDataset n ActionNOP Low NoSpec []]
           else [item KindDataset n ActionModify (riskForDatasetChanges (diffDataset d l)) (DatasetSpec d) (diffDataset d l)])
      | (None, Some l) \<Rightarrow>
          (if deIgnore D \<or> n \<in> set (map dpName (dePools D)) then [] else [blockedCheckDataset P l]))"

lemma last_with_filter:
  "(\<And>x. key x = n \<Longrightarrow> Q x \<longleftrightarrow> q) \<Longrightarrow> last_with key n (filter Q xs) = (if q then last_with key n xs else None)"
  unfolding last_with_def by (induction xs rule: rev_induct) auto

lemma create_about:
  assumes "distinct (map name ds)"
  shows "filter (about k n) (create_items k r sp name live ds) =
         (case last_with name n ds of
            None \<Rightarrow> [] | Some d \<Rightarrow> if n \<in> set live then [] else [item k n ActionCreate r (sp d) []])"
proof -
  have "filter (about k n) (create_items k r sp name live ds) =
      (case last_with name n (filter (\<lambda>d. name d \<notin> set live) ds) of None \<Rightarrow> [] | Some d \<Rightarrow> [item k (name d) ActionCreate r (sp d) []])"
    unfolding create_items_def
    by (rule filter_map_one) (use assms in \<open>auto simp: distinct_map_filter about_def\<close>)
  then show ?thesis
    by (auto simp: last_with_filter [where q = "n \<notin> set live"] split: option.split dest: last_with_SomeD)
qed

lemma concat_about:
  assumes "distinct (map name ds)" and "\<And>d i. i \<in> set (f d) \<Longrightarrow> diName i = name d"
  shows "filter (about k n) (concat (map f ds)) =
         (case last_with name n ds of None \<Rightarrow> [] | Some d \<Rightarrow> filter (\<lambda>i. diKind i = k) (f d))"
  using assms(1)
proof (induction ds)
  case (Cons d ds)
  show ?case
  proof (cases "name d = n")
    case True
    then have none: "n \<notin> name ` set ds" using Cons.prems by auto
    then have "filter (about k n) (concat (map f ds)) = []"
      using assms(2) by (fastforce simp: filter_empty_conv about_def)
    moreover have "last_with name n (d # ds) = Some d"
      using last_with_distinct [of name "d # ds" d] Cons.prems True by simp
    moreover have "filter (about k n) (f d) = filter (\<lambda>i. diKind i = k) (f d)"
      using assms(2) True by (intro filter_cong) (auto simp: about_def)
    ultimately show ?thesis by simp
  next
    case False
    then have "filter (about k n) (f d) = []" using assms(2) by (fastforce simp: filter_empty_conv about_def)
    moreover have "last_with name n (d # ds) = last_with name n ds"
      using False by (auto simp: last_with_def find_append split: option.split)
    ultimately show ?thesis using Cons by simp
  qed
qed (simp add: last_with_def)

lemma modify_about:
  assumes "distinct (map name ds)"
  shows "filter (about k n) (modify_items k nop r sp diff name key live ds) =
         (case (last_with name n ds, last_with key n live) of
            (Some d, Some l) \<Rightarrow>
              (if diff d l = [] then (if nop then [item k n ActionNOP Low NoSpec []] else [])
               else [item k n ActionModify (r (diff d l)) (sp d) (diff d l)])
          | _ \<Rightarrow> [])"
  unfolding modify_items_def
  by (subst concat_about [OF assms])
     (auto split: option.splits if_splits dest: last_with_SomeD)

lemma plan_about:
  assumes "ambiguous_items L = []"
  shows "filter (about k n) (plItems (ComputeDiff P D L)) = filter (about k n) (all_items P D L)"
proof -
  have "filter (about k n) xs = filter (\<lambda>i. diName i = n) (filter (\<lambda>i. diKind i = k) xs)" for xs
    unfolding filter_filter by (rule filter_cong) (auto simp: about_def)
  moreover have "filter (\<lambda>i. diKind i = k) (plItems (ComputeDiff P D L)) = filter (\<lambda>i. diKind i = k) (all_items P D L)"
    using kind_stable assms by (simp add: ComputeDiff_def Let_def)
  ultimately show ?thesis by metis
qed

lemma deleted_datasets:
  assumes "distinct (map ldName (veDatasets L))"
  shows "filter (about KindDataset n) (map (blockedCheckDataset P)
           (filter (\<lambda>ld. ldName ld \<notin> set (map ddName (deDatasets D)) \<and> ldName ld \<notin> set (map dpName (dePools D))) (veDatasets L))) =
         (case last_with ldName n (veDatasets L) of
            None \<Rightarrow> []
          | Some l \<Rightarrow> if n \<notin> set (map ddName (deDatasets D)) \<and> n \<notin> set (map dpName (dePools D)) then [blockedCheckDataset P l] else [])"
  by (subst filter_map_one [where f = ldName and n = n])
     (use assms in \<open>auto simp: distinct_map_filter about_def split: option.split
        simp: last_with_filter [where q = "n \<notin> set (map ddName (deDatasets D)) \<and> n \<notin> set (map dpName (dePools D))"]\<close>)

text \<open>
  C36. What a plan says of a dataset, exactly: declared and not there, it is created; on both sides, it is
  left alone or modified by its differences; there and not declared, it goes through the checks that may block
  the deletion, unless extraneous resources are ignored or it is the root of a declared pool.
\<close>

theorem dataset_outcome:
  assumes "ambiguous_items L = []" and "distinct (map ddName (deDatasets D))"
  shows "filter (about KindDataset n) (plItems (ComputeDiff P D L)) = dataset_plan P D L n"
proof -
  have live: "distinct (map ldName (veDatasets L))"
    using assms(1) by (simp add: ambiguous_items_def repeated_Nil)
  have "filter (about KindDataset n) (create_phase D L) =
      filter (about KindDataset n) (create_items KindDataset Low DatasetSpec ddName (map ldName (veDatasets L)) (deDatasets D))"
    by (simp add: create_phase_def about_other)
  moreover have "filter (about KindDataset n) (modify_phase D L) =
      filter (about KindDataset n) (modify_items KindDataset True riskForDatasetChanges DatasetSpec diffDataset ddName ldName
        (veDatasets L) (deDatasets D))"
    by (simp add: modify_phase_defs about_other)
  moreover have "filter (about KindDataset n) (delete_phase P D L) =
      (if deIgnore D then [] else filter (about KindDataset n) (map (blockedCheckDataset P)
        (filter (\<lambda>ld. ldName ld \<notin> set (map ddName (deDatasets D)) \<and> ldName ld \<notin> set (map dpName (dePools D))) (veDatasets L))))"
    by (simp add: delete_phase_defs about_other about_map split: option.split)
  moreover have "n \<in> set (map ldName (veDatasets L)) \<longleftrightarrow> last_with ldName n (veDatasets L) \<noteq> None"
    "n \<in> set (map ddName (deDatasets D)) \<longleftrightarrow> last_with ddName n (deDatasets D) \<noteq> None"
    by (auto simp: last_with_None)
  ultimately show ?thesis
    unfolding plan_about [OF assms(1)] all_items_def dataset_plan_def
    using create_about [OF assms(2), of KindDataset n Low DatasetSpec "map ldName (veDatasets L)"]
      modify_about [OF assms(2), of KindDataset n True riskForDatasetChanges DatasetSpec diffDataset ldName "veDatasets L"]
      deleted_datasets [OF live, of n P D]
    by (simp add: about_other split: option.split)
qed

section \<open>Record sizes\<close>

lemma lower_digits: "list_all is_digit s \<Longrightarrow> lower s = s"
proof -
  have "to_lower c = c" if "is_digit c" for c
    using that by (auto simp: to_lower_def is_digit_def digit_chars_def upper_chars_def)
  then show "list_all is_digit s \<Longrightarrow> lower s = s" by (induction s) (auto simp: lower_def)
qed

lemma digit_lower: "is_digit (to_lower c) \<Longrightarrow> is_digit c"
proof -
  have "list_all (\<lambda>c. \<not> is_digit (to_lower c)) upper_chars" by code_simp
  then show "is_digit (to_lower c) \<Longrightarrow> is_digit c" by (cases "c \<in> set upper_chars") (auto simp: to_lower_def list_all_iff)
qed

lemma not_fold_digits: "list_all is_digit t \<Longrightarrow> \<not> list_all is_digit s \<Longrightarrow> \<not> EqualFold s t"
proof
  assume t: "list_all is_digit t" and s: "\<not> list_all is_digit s" and "EqualFold s t"
  then have "lower s = t" using lower_digits by (simp add: EqualFold_def)
  then have "list_all is_digit (map to_lower s)" using t by (simp add: lower_def)
  then show False using s digit_lower by (auto simp: list_all_iff)
qed

text \<open>
  C38. A record size declared with a suffix never settles: \<open>zfs get -p\<close> answers in bytes, the texts are
  compared, and every plan modifies the dataset again, also when the sizes are the same.
\<close>

theorem recordsize_never_settles:
  assumes "ambiguous_items L = []" and "distinct (map ddName (deDatasets D))"
    and "d \<in> set (deDatasets D)" and "l \<in> set (veDatasets L)" and "ldName l = ddName d"
    and "ldRecordsize l = show_nat bytes" and "\<not> list_all is_digit (ddRecordsize d)"
  shows "filter (about KindDataset (ddName d)) (plItems (ComputeDiff P D L)) =
         [item KindDataset (ddName d) ActionModify (riskForDatasetChanges (diffDataset d l)) (DatasetSpec d) (diffDataset d l)] \<and>
         change ''recordsize'' (show_nat bytes) (ddRecordsize d) \<in> set (diffDataset d l)"
proof -
  have live: "distinct (map ldName (veDatasets L))" using assms(1) by (simp add: ambiguous_items_def repeated_Nil)
  have "last_with ddName (ddName d) (deDatasets D) = Some d" "last_with ldName (ddName d) (veDatasets L) = Some l"
    using last_with_distinct [OF assms(2,3)] last_with_distinct [OF live assms(4)] assms(5) by simp_all
  moreover have "\<not> EqualFold (ddRecordsize d) (show_nat bytes)" "ddRecordsize d \<noteq> []"
    using not_fold_digits show_nat_digits assms(7) by auto
  then have "change ''recordsize'' (show_nat bytes) (ddRecordsize d) \<in> set (diffDataset d l)"
    by (simp add: diffDataset_def folded_change_def noted_def assms(6))
  ultimately show ?thesis
    using dataset_outcome [OF assms(1,2), of "ddName d" P] by (auto simp: dataset_plan_def)
qed

definition nothing_desired :: desired_state where
  "nothing_desired =
     \<lparr>deVersion = ''1'', deIgnore = False, dePools = [], deDatasets = [], deShares = [], deNFS = [], deStacks = [],
      deSystem = None, deUsers = [], deGroups = [], deReplication = [], deLDAP = None, deACME = None,
      deCertificates = [], deSMART = [], deFabrics = None\<rparr>"

definition nothing_live :: live_state where
  "nothing_live =
     \<lparr>vePools = [], veDatasets = [], veShares = [], veNFS = [], veStacks = [], veSystem = None, veUsers = [],
      veGroups = [], veReplication = [], veLDAP = None, veACME = None, veCertificates = [], veSMART = [], veNVMe = []\<rparr>"

definition plain_dataset :: "string \<Rightarrow> desired_dataset" where
  "plain_dataset n =
     \<lparr>ddName = n, ddQuota = [], ddCompression = [], ddAtime = [], ddSync = [], ddRecordsize = [], ddXattr = [],
      ddSecondarycache = [], ddMountpoint = [], ddEncrypted = False, ddRestore = None\<rparr>"

definition plain_live_dataset :: "string \<Rightarrow> live_dataset" where
  "plain_live_dataset n =
     \<lparr>ldName = n, ldCompression = ''lz4'', ldAtime = ''off'', ldSync = ''standard'', ldRecordsize = show_nat 131072,
      ldXattr = ''sa'', ldSecondarycache = ''all'', ldMountpoint = ''/p/d'', ldQuota = ''0''\<rparr>"

definition quiet_probe :: probe where
  "quiet_probe = \<lparr>pbDB = None, pbEmpty = (\<lambda>n. Inr (True, HoldsNothing)), pbActive = (\<lambda>n. False)\<rparr>"

lemma dataset_outcome_witness:
  "filter (about KindDataset ''p/d'')
     (plItems (ComputeDiff quiet_probe nothing_desired (nothing_live\<lparr>veDatasets := [plain_live_dataset ''p/d'']\<rparr>))) =
   [item KindDataset ''p/d'' ActionDelete Medium NoSpec []]"
proof -
  let ?L = "nothing_live\<lparr>veDatasets := [plain_live_dataset ''p/d'']\<rparr>"
  have "ambiguous_items ?L = []" "distinct (map ddName (deDatasets nothing_desired))"
    by (simp_all add: nothing_live_def nothing_desired_def ambiguous_items_def repeated_def)
  then show ?thesis
    using dataset_outcome [of ?L nothing_desired "''p/d''" quiet_probe]
    by (simp add: dataset_plan_def nothing_live_def nothing_desired_def last_with_def plain_live_dataset_def
        blockedCheckDataset_def quiet_probe_def)
qed

lemma recordsize_never_settles_witness:
  "change ''recordsize'' (show_nat 131072) ''128K'' \<in>
   set (diffDataset ((plain_dataset ''p/d'')\<lparr>ddRecordsize := ''128K''\<rparr>) (plain_live_dataset ''p/d''))"
proof -
  let ?d = "(plain_dataset ''p/d'')\<lparr>ddRecordsize := ''128K''\<rparr>" and ?l = "plain_live_dataset ''p/d''"
  let ?L = "nothing_live\<lparr>veDatasets := [?l]\<rparr>" and ?D = "nothing_desired\<lparr>deDatasets := [?d]\<rparr>"
  have "ambiguous_items ?L = []" by (simp add: nothing_live_def ambiguous_items_def repeated_def)
  moreover have "ldRecordsize ?l = show_nat 131072" "ldName ?l = ddName ?d"
    by (simp_all add: plain_live_dataset_def plain_dataset_def)
  moreover have "\<not> list_all is_digit (ddRecordsize ?d)" by (simp add: is_digit_def digit_chars_def)
  ultimately show ?thesis
    using recordsize_never_settles [of ?L ?D ?d ?l 131072] by simp
qed

end
