(* ===== verification/NetState.thy ===== *)
theory NetState
  imports GoText "HOL-Library.AList"
begin

text \<open>
  The network configuration (\<open>internal/networkdwriter\<close>): the state of interfaces, bonds, VLANs and DNS, its
  validation, the \<open>systemd-networkd\<close> files it is rendered into, and the state read back from such files. A Go
  map is an association list, in the order its entries are visited.
\<close>

section \<open>The state\<close>

record route_conf =
  rtDestination :: string
  rtGateway :: string

record iface_conf =
  ifDHCP :: bool
  ifAddresses :: "string list"
  ifGateway :: string
  ifRoutes :: "route_conf list"

record bond_conf =
  boMode :: string
  boSlaves :: "string list"

record vlan_conf =
  vaParent :: string
  vaID :: int

record dns_conf =
  nsServers :: "string list"
  nsSearch :: "string list"

record net_state =
  neInterfaces :: "(string \<times> iface_conf) list"
  neBonds :: "(string \<times> bond_conf) list"
  neVLANs :: "(string \<times> vlan_conf) list"
  neDNS :: dns_conf

definition no_iface :: iface_conf where
  "no_iface = \<lparr>ifDHCP = False, ifAddresses = [], ifGateway = [], ifRoutes = []\<rparr>"

definition no_network :: net_state where
  "no_network = \<lparr>neInterfaces = [], neBonds = [], neVLANs = [], neDNS = \<lparr>nsServers = [], nsSearch = []\<rparr>\<rparr>"

definition has_key :: "(string \<times> 'v) list \<Rightarrow> string \<Rightarrow> bool" where
  "has_key m k \<longleftrightarrow> map_of m k \<noteq> None"

definition BondOf :: "net_state \<Rightarrow> string \<Rightarrow> string" where
  "BondOf s i = (case List.find (\<lambda>(n, b). contains (boSlaves b) i) (neBonds s) of None \<Rightarrow> [] | Some (n, b) \<Rightarrow> n)"

definition Mentions :: "net_state \<Rightarrow> string \<Rightarrow> bool" where
  "Mentions s i \<longleftrightarrow>
     has_key (neInterfaces s) i \<or> has_key (neBonds s) i \<or> has_key (neVLANs s) i \<or> BondOf s i \<noteq> [] \<or>
     list_ex (\<lambda>(n, v). vaParent v = i) (neVLANs s)"

section \<open>Validation\<close>

datatype net_error =
    BadIface string | BadAddress string string | BadNetGateway string | BadRouteTarget string string
  | BadRouteGateway string string | AddressOnMember string string | BadBondMode string | NoMembers string
  | InTwoBonds string string string | BondInBond string string | VLANInBond string string
  | BadVLANID string | VLANOnMember string string | BondAndVLAN string | SameVLANTwice string string
  | BadDNSServer string | BadSearchDomain string

definition ValidateIface :: "string \<Rightarrow> bool" where
  "ValidateIface i \<longleftrightarrow> match_class (\<lambda>c. is_alnum c \<or> c \<in> set ''-_.'') 1 15 i \<and> i \<noteq> ''.'' \<and> i \<noteq> ''..''"

definition bondModes :: "string list" where
  "bondModes =
     [''balance-rr'', ''active-backup'', ''balance-xor'', ''broadcast'', ''802.3ad'', ''balance-tlb'', ''balance-alb'']"

definition domain_char :: "char \<Rightarrow> bool" where
  "domain_char c \<longleftrightarrow> is_alnum c \<or> c = CHR ''-'' \<or> c = CHR ''_''"

definition trim_suffix_char :: "char \<Rightarrow> string \<Rightarrow> string" where
  "trim_suffix_char c s = (if s \<noteq> [] \<and> last s = c then butlast s else s)"

definition validDomain :: "string \<Rightarrow> bool" where
  "validDomain d \<longleftrightarrow>
     d \<noteq> [] \<and> length d \<le> 253 \<and> list_all (match_class domain_char 1 63) (split_at CHR ''.'' (trim_suffix_char CHR ''.'' d))"

definition configured :: "iface_conf \<Rightarrow> bool" where
  "configured c \<longleftrightarrow> ifDHCP c \<or> ifAddresses c \<noteq> [] \<or> ifGateway c \<noteq> [] \<or> ifRoutes c \<noteq> []"

definition check_route :: "string \<Rightarrow> route_conf \<Rightarrow> net_error option" where
  "check_route name r =
     first_error [guard (parse_cidr (rtDestination r) \<noteq> None) (BadRouteTarget name (rtDestination r)),
                  guard (parse_ip (rtGateway r) \<noteq> None) (BadRouteGateway name (rtGateway r))]"

definition check_iface :: "net_state \<Rightarrow> string \<times> iface_conf \<Rightarrow> net_error option" where
  "check_iface s = (\<lambda>(name, c).
     first_error
       ([guard (ValidateIface name) (BadIface name)] @
        map (\<lambda>a. guard (parse_cidr a \<noteq> None) (BadAddress name a)) (ifAddresses c) @
        [guard (ifGateway c = [] \<or> parse_ip (ifGateway c) \<noteq> None) (BadNetGateway name)] @
        map (check_route name) (ifRoutes c) @
        [guard (BondOf s name = [] \<or> \<not> configured c) (AddressOnMember name (BondOf s name))]))"

text \<open>The members seen so far, each with its bond.\<close>

fun check_members ::
    "net_state \<Rightarrow> string \<Rightarrow> (string \<times> string) list \<Rightarrow> string list \<Rightarrow> net_error + (string \<times> string) list" where
  "check_members s name seen [] = Inr seen"
| "check_members s name seen (i # is) =
     (if \<not> ValidateIface i then Inl (BadIface i)
      else case map_of seen i of
        Some other \<Rightarrow> Inl (InTwoBonds i other name)
      | None \<Rightarrow>
          if has_key (neBonds s) i then Inl (BondInBond name i)
          else if has_key (neVLANs s) i then Inl (VLANInBond name i)
          else check_members s name ((i, name) # seen) is)"

fun check_bonds :: "net_state \<Rightarrow> (string \<times> string) list \<Rightarrow> (string \<times> bond_conf) list \<Rightarrow> net_error option" where
  "check_bonds s seen [] = None"
| "check_bonds s seen ((name, b) # bs) =
     (if \<not> ValidateIface name then Some (BadIface name)
      else if boMode b \<notin> set bondModes then Some (BadBondMode name)
      else if boSlaves b = [] then Some (NoMembers name)
      else case check_members s name seen (boSlaves b) of
        Inl e \<Rightarrow> Some e
      | Inr seen1 \<Rightarrow> check_bonds s seen1 bs)"

definition vlan_key :: "vlan_conf \<Rightarrow> string" where
  "vlan_key v = vaParent v @ ''/'' @ show_int (vaID v)"

fun check_vlans :: "net_state \<Rightarrow> (string \<times> string) list \<Rightarrow> (string \<times> vlan_conf) list \<Rightarrow> net_error option" where
  "check_vlans s ids [] = None"
| "check_vlans s ids ((name, v) # vs) =
     (if \<not> ValidateIface name then Some (BadIface name)
      else if \<not> ValidateIface (vaParent v) then Some (BadIface (vaParent v))
      else if vaID v < 1 \<or> 4094 < vaID v then Some (BadVLANID name)
      else if BondOf s (vaParent v) \<noteq> [] then Some (VLANOnMember name (vaParent v))
      else if has_key (neBonds s) name then Some (BondAndVLAN name)
      else case map_of ids (vlan_key v) of
        Some other \<Rightarrow> Some (SameVLANTwice other name)
      | None \<Rightarrow> check_vlans s ((vlan_key v, name) # ids) vs)"

definition ValidateNet :: "net_state \<Rightarrow> net_error option" where
  "ValidateNet s =
     first_error
       (map (check_iface s) (neInterfaces s) @
        [check_bonds s [] (neBonds s), check_vlans s [] (neVLANs s)] @
        map (\<lambda>d. guard (parse_ip d \<noteq> None) (BadDNSServer d)) (nsServers (neDNS s)) @
        map (\<lambda>d. guard (validDomain d) (BadSearchDomain d)) (nsSearch (neDNS s)))"

section \<open>The files\<close>

definition FilePrefix :: string where
  "FilePrefix = ''05-dplane-''"

definition legacyPrefix :: string where
  "legacyPrefix = ''50-dplane-''"

definition file_text :: "string list \<Rightarrow> string" where
  "file_text ls = concat (map (\<lambda>l. l @ [newline]) ls)"

definition marker :: string where
  "marker = ''# Managed by DPlaneOS - do not edit''"

definition bond_netdev :: "string \<Rightarrow> bond_conf \<Rightarrow> string list" where
  "bond_netdev n b =
     [marker, [], ''[NetDev]'', ''Name='' @ n, ''Kind=bond'', [], ''[Bond]'', ''Mode='' @ boMode b,
      ''# Without link monitoring a failed member is never noticed.'', ''MIIMonitorSec=100ms'']"

definition vlan_netdev :: "string \<Rightarrow> vlan_conf \<Rightarrow> string list" where
  "vlan_netdev n v =
     [marker, [], ''[NetDev]'', ''Name='' @ n, ''Kind=vlan'', [], ''[VLAN]'', ''Id='' @ show_int (vaID v)]"

definition vlansOn :: "net_state \<Rightarrow> string \<Rightarrow> string list" where
  "vlansOn s n = sort (map fst (filter (\<lambda>(m, v). vaParent v = n) (neVLANs s)))"

definition route_lines :: "route_conf \<Rightarrow> string list" where
  "route_lines r = [[], ''[Route]'', ''Destination='' @ rtDestination r, ''Gateway='' @ rtGateway r]"

definition network_lines :: "net_state \<Rightarrow> string \<Rightarrow> string list" where
  "network_lines s n =
     [marker, [], ''[Match]'', ''Name='' @ n, [], ''[Network]''] @
     (if BondOf s n \<noteq> [] then [''Bond='' @ BondOf s n]
      else
        let c = (case map_of (neInterfaces s) n of None \<Rightarrow> no_iface | Some c \<Rightarrow> c) in
        [if ifDHCP c then ''DHCP=yes'' else ''DHCP=no''] @
        map (\<lambda>a. ''Address='' @ a) (ifAddresses c) @
        (if ifGateway c \<noteq> [] then [''Gateway='' @ ifGateway c] else []) @
        map (\<lambda>v. ''VLAN='' @ v) (vlansOn s n) @
        concat (map route_lines (ifRoutes c)))"

definition named_interfaces :: "net_state \<Rightarrow> string list" where
  "named_interfaces s =
     remdups (map fst (neInterfaces s) @ concat (map (\<lambda>(n, b). n # boSlaves b) (neBonds s)) @
       concat (map (\<lambda>(n, v). [n, vaParent v]) (neVLANs s)))"

definition netdev_file :: "string \<Rightarrow> string" where
  "netdev_file n = FilePrefix @ n @ ''.netdev''"

definition network_file :: "string \<Rightarrow> string" where
  "network_file n = FilePrefix @ n @ ''.network''"

text \<open>The file of a VLAN replaces that of a bond of the same name, which a valid state does not have.\<close>

definition render :: "net_state \<Rightarrow> (string \<times> string) list" where
  "render s =
     map (\<lambda>(n, v). (netdev_file n, file_text (vlan_netdev n v))) (neVLANs s) @
     map (\<lambda>(n, b). (netdev_file n, file_text (bond_netdev n b))) (neBonds s) @
     map (\<lambda>n. (network_file n, file_text (network_lines s n))) (named_interfaces s)"

definition render_dns :: "dns_conf \<Rightarrow> string" where
  "render_dns d =
     (if nsServers d = [] \<and> nsSearch d = [] then []
      else file_text
        ([marker, [], ''[Resolve]''] @
         (if nsServers d \<noteq> [] then [''DNS='' @ join_with '' '' (nsServers d)] else []) @
         (if nsSearch d \<noteq> [] then [''Domains='' @ join_with '' '' (nsSearch d)] else [])))"

section \<open>Reading files back\<close>

text \<open>The keys and values of a file, in order.\<close>

definition key_value :: "string \<Rightarrow> (string \<times> string) option" where
  "key_value l =
     (case cut_at CHR ''='' (trim_space l) of
        Some (k, v) \<Rightarrow> (if has_prefix k ''#'' then None else Some (k, v))
      | None \<Rightarrow> None)"

definition key_values :: "string \<Rightarrow> (string \<times> string) list" where
  "key_values text = List.map_filter key_value (split_at newline text)"

definition values_of :: "(string \<times> string) list \<Rightarrow> string \<Rightarrow> string list" where
  "values_of kv k = map snd (filter (\<lambda>(j, v). j = k) kv)"

definition first_value :: "(string \<times> string) list \<Rightarrow> string \<Rightarrow> string" where
  "first_value kv k = (case values_of kv k of [] \<Rightarrow> [] | v # _ \<Rightarrow> v)"

record net_file =
  nfName :: string
  nfBond :: string
  nfVLANs :: "string list"
  nfIface :: iface_conf

definition net_file_of :: "(string \<times> string) list \<Rightarrow> net_file" where
  "net_file_of kv =
     \<lparr>nfName = first_value kv ''Name'', nfBond = first_value kv ''Bond'', nfVLANs = values_of kv ''VLAN'',
      nfIface = \<lparr>ifDHCP = (first_value kv ''DHCP'' = ''yes''), ifAddresses = values_of kv ''Address'',
        ifGateway = first_value kv ''Gateway'', ifRoutes = []\<rparr>\<rparr>"

text \<open>\<open>fmt.Sscanf\<close> with \<open>%d\<close>: a sign and digits, up to the first other character; zero when there are none.\<close>

definition scan_int :: "string \<Rightarrow> int" where
  "scan_int t =
     (let t = dropWhile is_space t;
          neg = has_prefix t ''-'';
          ds = takeWhile is_digit (if neg \<or> has_prefix t ''+'' then drop 1 t else t) in
      case unsigned ds of None \<Rightarrow> 0 | Some n \<Rightarrow> if neg then (if n \<le> 2 ^ 63 then - int n else 0) else if n < 2 ^ 63 then int n else 0)"

text \<open>The device files and the network files of one directory, read in the order of their names.\<close>

fun read_files :: "(string \<times> string option) list \<Rightarrow> net_state \<times> net_file list \<Rightarrow> net_state \<times> net_file list" where
  "read_files [] r = r"
| "read_files ((f, text) # fs) (s, nets) =
     read_files fs
       (if \<not> has_prefix f legacyPrefix \<and> \<not> has_prefix f FilePrefix then (s, nets)
        else case text of
          None \<Rightarrow> (s, nets)
        | Some t \<Rightarrow>
            (let kv = key_values t in
             if has_suffix f ''.netdev'' \<and> first_value kv ''Kind'' = ''bond'' then
               (s\<lparr>neBonds := AList.update (first_value kv ''Name'') \<lparr>boMode = first_value kv ''Mode'', boSlaves = []\<rparr> (neBonds s)\<rparr>,
                nets)
             else if has_suffix f ''.netdev'' \<and> first_value kv ''Kind'' = ''vlan'' then
               (s\<lparr>neVLANs := AList.update (first_value kv ''Name'') \<lparr>vaParent = [], vaID = scan_int (first_value kv ''Id'')\<rparr> (neVLANs s)\<rparr>,
                nets)
             else if has_suffix f ''.network'' then (s, nets @ [net_file_of kv])
             else (s, nets)))"

definition set_parent :: "string \<Rightarrow> string \<Rightarrow> net_state \<Rightarrow> net_state" where
  "set_parent p v s =
     (case map_of (neVLANs s) v of
        None \<Rightarrow> s
      | Some vl \<Rightarrow> s\<lparr>neVLANs := AList.update v (vl\<lparr>vaParent := p\<rparr>) (neVLANs s)\<rparr>)"

definition read_network :: "net_file \<Rightarrow> net_state \<Rightarrow> net_state" where
  "read_network nf s =
     (if nfBond nf \<noteq> [] then
        (case map_of (neBonds s) (nfBond nf) of
           None \<Rightarrow> s
         | Some b \<Rightarrow> s\<lparr>neBonds := AList.update (nfBond nf) (b\<lparr>boSlaves := boSlaves b @ [nfName nf]\<rparr>) (neBonds s)\<rparr>)
      else
        let s1 = fold (set_parent (nfName nf)) (nfVLANs nf) s; c = nfIface nf in
        if nfName nf \<noteq> [] \<and> (ifDHCP c \<or> ifAddresses c \<noteq> [] \<or> ifGateway c \<noteq> []) then
          s1\<lparr>neInterfaces := AList.update (nfName nf) c (neInterfaces s1)\<rparr>
        else s1)"

definition drop_incomplete :: "net_state \<Rightarrow> net_state" where
  "drop_incomplete s =
     s\<lparr>neVLANs := filter (\<lambda>(n, v). \<not> (vaParent v = [] \<or> vaID v = 0)) (neVLANs s),
       neBonds := filter (\<lambda>(n, b). \<not> (boSlaves b = [] \<or> boMode b \<notin> set bondModes)) (neBonds s)\<rparr>"

text \<open>A parent without a configuration of its own gets DHCP.\<close>

definition parent_dhcp :: "vlan_conf \<Rightarrow> net_state \<Rightarrow> net_state" where
  "parent_dhcp v s =
     (if \<not> has_key (neInterfaces s) (vaParent v) \<and> BondOf s (vaParent v) = [] \<and> \<not> has_key (neBonds s) (vaParent v) then
        s\<lparr>neInterfaces := AList.update (vaParent v) (no_iface\<lparr>ifDHCP := True\<rparr>) (neInterfaces s)\<rparr>
      else s)"

definition importLegacy :: "(string \<times> string option) list \<Rightarrow> net_state" where
  "importLegacy dir =
     (case read_files dir (no_network, []) of
        (s, nets) \<Rightarrow>
          (let s1 = drop_incomplete (fold read_network nets s);
               s2 = fold parent_dhcp (map snd (neVLANs s1)) s1 in
           if ValidateNet s2 \<noteq> None then no_network else s2))"


section \<open>What a valid state holds\<close>

text \<open>Text without white space and without the characters that separate or comment a line.\<close>

definition one_word :: "string \<Rightarrow> bool" where
  "one_word s \<longleftrightarrow> list_all (\<lambda>c. \<not> is_space c \<and> c \<noteq> CHR ''='' \<and> c \<noteq> CHR ''#'') s"

lemma plain_append [simp]: "one_word (x @ y) \<longleftrightarrow> one_word x \<and> one_word y"
  by (simp add: one_word_def)

lemma plain_one_line: "one_word s \<Longrightarrow> one_line s"
  by (rule one_lineI, simp add: one_word_def, simp add: is_space_def newline_def)

lemma plain_class:
  "is_alnum c \<Longrightarrow> one_word [c]" "is_digit c \<Longrightarrow> one_word [c]" "addr_char c \<Longrightarrow> one_word [c]"
proof -
  have "c \<in> set (lower_chars @ upper_chars @ digit_chars) \<Longrightarrow> one_word [c]"
    by (auto simp: one_word_def is_space_def lower_chars_def upper_chars_def digit_chars_def)
  then show al: "is_alnum c \<Longrightarrow> one_word [c]" and "is_digit c \<Longrightarrow> one_word [c]"
    by (auto simp: is_alnum_def is_alpha_def is_digit_def)
  show "addr_char c \<Longrightarrow> one_word [c]"
    unfolding addr_char_def
    by (auto simp: one_word_def is_space_def hex_val.simps digit_val.simps digit_chars_def)
qed

lemma one_wordI: "list_all P s \<Longrightarrow> (\<And>c. P c \<Longrightarrow> one_word [c]) \<Longrightarrow> one_word s"
  by (auto simp: one_word_def list_all_iff)

lemma cut_at_Some: "cut_at d s = Some (a, b) \<Longrightarrow> s = a @ d # b \<and> d \<notin> set a"
  by (induction d s arbitrary: a b rule: cut_at.induct) (auto split: if_splits)

lemma cut_at_piece: "d \<notin> set a \<Longrightarrow> cut_at d (a @ d # b) = Some (a, b)"
  by (induction a) auto

lemma decimal_digits: "decimal n s = Some m \<Longrightarrow> one_word s"
proof (induction n s rule: decimal.induct)
  case (2 n c s)
  then obtain d where "digit_val c = Some d" "decimal (n * 10 + d) s = Some m" and "\<not> 16777215 \<le> n * 10 + d"
    by (auto split: option.splits if_splits)
  then show ?case using "2.IH" plain_class(3) [OF digit_addr_char] by (auto simp: one_word_def)
qed (simp add: one_word_def)

lemma plain_ip: "parse_ip a = Some ip \<Longrightarrow> one_word a"
  by (rule one_wordI [OF parse_ip_chars plain_class(3)])

lemma plain_cidr: "parse_cidr s = Some x \<Longrightarrow> one_word s"
proof -
  assume "parse_cidr s = Some x"
  then obtain a b ip n where cut: "cut_at CHR ''/'' s = Some (a, b)" and a: "parse_ip a = Some ip" and b: "decimal 0 b = Some n"
    by (auto simp: parse_cidr_def split: option.splits prod.splits if_splits)
  have "one_word ''/''" by (simp add: one_word_def is_space_def)
  then show "one_word s" using cut_at_Some [OF cut] plain_ip [OF a] decimal_digits [OF b] by (simp add: one_word_def)
qed

lemma plain_iface: "ValidateIface i \<Longrightarrow> one_word i \<and> i \<noteq> []"
proof -
  assume v: "ValidateIface i"
  have "one_word [c]" if "c \<in> set ''-_.''" for c
    using that by (auto simp: one_word_def is_space_def)
  then have "one_word [c]" if "is_alnum c \<or> c \<in> set ''-_.''" for c
    using that plain_class(1) by blast
  moreover have "list_all (\<lambda>c. is_alnum c \<or> c \<in> set ''-_.'') i" "1 \<le> length i"
    using v by (simp_all only: ValidateIface_def match_class_def)
  ultimately show "one_word i \<and> i \<noteq> []" using one_wordI [of "\<lambda>c. is_alnum c \<or> c \<in> set ''-_.''" i] by (cases i) simp_all
qed

lemma plain_mode: "m \<in> set bondModes \<Longrightarrow> one_word m"
proof -
  have "list_all one_word bondModes" by code_simp
  then show "m \<in> set bondModes \<Longrightarrow> one_word m" by (auto simp: list_all_iff)
qed

lemma Validate_parts:
  assumes "ValidateNet s = None"
  shows "(n, c) \<in> set (neInterfaces s) \<Longrightarrow> check_iface s (n, c) = None"
    and "check_bonds s [] (neBonds s) = None" and "check_vlans s [] (neVLANs s) = None"
    and "d \<in> set (nsServers (neDNS s)) \<Longrightarrow> parse_ip d \<noteq> None"
    and "d \<in> set (nsSearch (neDNS s)) \<Longrightarrow> validDomain d"
  using assms by (auto simp: ValidateNet_def ball_Un)

lemma check_iface_None:
  assumes "check_iface s (n, c) = None"
  shows "ValidateIface n" and "a \<in> set (ifAddresses c) \<Longrightarrow> one_word a" and "one_word (ifGateway c)"
    and "r \<in> set (ifRoutes c) \<Longrightarrow> one_word (rtDestination r) \<and> one_word (rtGateway r) \<and> rtGateway r \<noteq> []"
    and "BondOf s n = [] \<or> \<not> configured c"
proof -
  show "ValidateIface n" and "BondOf s n = [] \<or> \<not> configured c" using assms by (simp_all add: check_iface_def)
  have "\<forall>a \<in> set (ifAddresses c). parse_cidr a \<noteq> None" using assms by (simp add: check_iface_def ball_Un)
  then show "a \<in> set (ifAddresses c) \<Longrightarrow> one_word a" using plain_cidr by blast
  show "one_word (ifGateway c)" using assms plain_ip by (cases "ifGateway c = []") (auto simp: check_iface_def one_word_def)
  have "\<forall>r \<in> set (ifRoutes c). check_route n r = None" using assms by (simp add: check_iface_def ball_Un)
  moreover have "parse_ip [] = None" by code_simp
  ultimately show "r \<in> set (ifRoutes c) \<Longrightarrow> one_word (rtDestination r) \<and> one_word (rtGateway r) \<and> rtGateway r \<noteq> []"
    using plain_cidr plain_ip by (force simp: check_route_def)
qed

lemma check_members_Inr:
  "check_members s name seen is = Inr seen1 \<Longrightarrow>
   seen1 = rev (map (\<lambda>i. (i, name)) is) @ seen \<and> distinct is \<and>
   (\<forall>i \<in> set is. ValidateIface i \<and> i \<notin> fst ` set seen \<and> \<not> has_key (neBonds s) i \<and> \<not> has_key (neVLANs s) i)"
proof (induction s name seen "is" rule: check_members.induct)
  case (2 s name seen i "is")
  then have i: "ValidateIface i" "map_of seen i = None" "\<not> has_key (neBonds s) i" "\<not> has_key (neVLANs s) i"
    and rest: "check_members s name ((i, name) # seen) is = Inr seen1"
    by (auto split: if_splits option.splits)
  then show ?case using "2.IH" [OF _ i(2) i(3) i(4) rest] by (auto simp: map_of_eq_None_iff)
qed simp

lemma check_bonds_None:
  "check_bonds s seen bs = None \<Longrightarrow>
   (\<forall>(n, b) \<in> set bs. ValidateIface n \<and> boMode b \<in> set bondModes \<and> boSlaves b \<noteq> [] \<and> distinct (boSlaves b) \<and>
      (\<forall>i \<in> set (boSlaves b). ValidateIface i \<and> i \<notin> fst ` set seen \<and> \<not> has_key (neBonds s) i \<and> \<not> has_key (neVLANs s) i)) \<and>
   (\<forall>i. length (filter (\<lambda>(n, b). i \<in> set (boSlaves b)) bs) \<le> 1)"
proof (induction s seen bs rule: check_bonds.induct)
  case (2 s seen name b bs)
  then obtain seen1 where b: "ValidateIface name" "boMode b \<in> set bondModes" "boSlaves b \<noteq> []"
    and m: "check_members s name seen (boSlaves b) = Inr seen1" and rest: "check_bonds s seen1 bs = None"
    by (auto split: if_splits sum.splits)
  note members = check_members_Inr [OF m]
  have IH: "(\<forall>(n, b) \<in> set bs. ValidateIface n \<and> boMode b \<in> set bondModes \<and> boSlaves b \<noteq> [] \<and> distinct (boSlaves b) \<and>
      (\<forall>i \<in> set (boSlaves b). ValidateIface i \<and> i \<notin> fst ` set seen1 \<and> \<not> has_key (neBonds s) i \<and> \<not> has_key (neVLANs s) i)) \<and>
      (\<forall>i. length (filter (\<lambda>(n, b). i \<in> set (boSlaves b)) bs) \<le> 1)"
    using "2.IH" [OF _ _ _ m rest] b by simp
  have fresh: "i \<notin> set (boSlaves b) \<and> i \<notin> fst ` set seen" if "(m, d) \<in> set bs" "i \<in> set (boSlaves d)" for m d i
  proof -
    have "i \<notin> fst ` set seen1" using IH that by blast
    moreover have "fst ` set seen1 = set (boSlaves b) \<union> fst ` set seen" using members by (simp add: image_Un image_image)
    ultimately show ?thesis by simp
  qed
  then have "filter (\<lambda>(n, b). i \<in> set (boSlaves b)) bs = []" if "i \<in> set (boSlaves b)" for i
    using that by (auto simp: filter_empty_conv)
  then have "\<forall>i. length (filter (\<lambda>(n, b). i \<in> set (boSlaves b)) ((name, b) # bs)) \<le> 1"
    using IH by simp
  moreover have "\<forall>(n, b) \<in> set bs. \<forall>i \<in> set (boSlaves b). i \<notin> fst ` set seen" using fresh by blast
  then have "\<forall>(n, b) \<in> set bs. ValidateIface n \<and> boMode b \<in> set bondModes \<and> boSlaves b \<noteq> [] \<and>
      distinct (boSlaves b) \<and> (\<forall>i \<in> set (boSlaves b). ValidateIface i \<and> i \<notin> fst ` set seen \<and>
        \<not> has_key (neBonds s) i \<and> \<not> has_key (neVLANs s) i)"
    using IH by blast
  then have "\<forall>(n, b) \<in> set ((name, b) # bs). ValidateIface n \<and> boMode b \<in> set bondModes \<and> boSlaves b \<noteq> [] \<and>
      distinct (boSlaves b) \<and> (\<forall>i \<in> set (boSlaves b). ValidateIface i \<and> i \<notin> fst ` set seen \<and>
        \<not> has_key (neBonds s) i \<and> \<not> has_key (neVLANs s) i)"
    using b members by simp
  ultimately show ?case by blast
qed simp

lemma check_vlans_None:
  "check_vlans s ids vs = None \<Longrightarrow> (n, v) \<in> set vs \<Longrightarrow>
   ValidateIface n \<and> ValidateIface (vaParent v) \<and> 1 \<le> vaID v \<and> vaID v \<le> 4094 \<and> BondOf s (vaParent v) = [] \<and> \<not> has_key (neBonds s) n"
  by (induction s ids vs rule: check_vlans.induct) (auto split: if_splits option.splits)


text \<open>
  In a valid state every interface is in at most one bond, so the bond of a member does not depend on the
  order the bonds are visited in, and a member is neither a bond nor a VLAN itself.
\<close>

theorem member_of_one_bond:
  assumes "ValidateNet s = None" and "distinct (map fst (neBonds s))" and "(n, b) \<in> set (neBonds s)" and "i \<in> set (boSlaves b)"
  shows "BondOf s i = n \<and> \<not> has_key (neBonds s) i \<and> \<not> has_key (neVLANs s) i"
proof -
  note bonds = check_bonds_None [OF Validate_parts(2) [OF assms(1)]]
  obtain m c where found: "List.find (\<lambda>(n, b). contains (boSlaves b) i) (neBonds s) = Some (m, c)"
    using assms(3,4) find_Some_conv [of "\<lambda>(n, b). contains (boSlaves b) i" "neBonds s"] by fastforce
  then have c: "(m, c) \<in> set (neBonds s)" "i \<in> set (boSlaves c)" using find_SomeD by fastforce+
  have "length (filter (\<lambda>(n, b). i \<in> set (boSlaves b)) (neBonds s)) \<le> 1" using bonds by blast
  moreover have "(m, c) \<in> set (filter (\<lambda>(n, b). i \<in> set (boSlaves b)) (neBonds s))"
      "(n, b) \<in> set (filter (\<lambda>(n, b). i \<in> set (boSlaves b)) (neBonds s))"
    using c assms(3,4) by simp_all
  ultimately have "(m, c) = (n, b)"
    by (cases "filter (\<lambda>(n, b). i \<in> set (boSlaves b)) (neBonds s)") auto
  then have "BondOf s i = n" using found by (simp add: BondOf_def)
  moreover have "\<not> has_key (neBonds s) i \<and> \<not> has_key (neVLANs s) i" using bonds assms(3,4) by fastforce
  ultimately show ?thesis by simp
qed

section \<open>The lines of a file\<close>

lemma valid_bond:
  "ValidateNet s = None \<Longrightarrow> (n, b) \<in> set (neBonds s) \<Longrightarrow>
   ValidateIface n \<and> boMode b \<in> set bondModes \<and> boSlaves b \<noteq> [] \<and> (\<forall>i \<in> set (boSlaves b). ValidateIface i)"
  using check_bonds_None [OF Validate_parts(2) [of s]] by blast

lemma valid_vlan:
  "ValidateNet s = None \<Longrightarrow> (n, v) \<in> set (neVLANs s) \<Longrightarrow> ValidateIface n \<and> ValidateIface (vaParent v)"
  using check_vlans_None [OF Validate_parts(3) [of s]] by blast

lemma valid_iface: "ValidateNet s = None \<Longrightarrow> (n, c) \<in> set (neInterfaces s) \<Longrightarrow> ValidateIface n"
  using check_iface_None(1) [OF Validate_parts(1)] .

lemma plain_named: "ValidateNet s = None \<Longrightarrow> n \<in> set (named_interfaces s) \<Longrightarrow> one_word n \<and> n \<noteq> []"
proof -
  assume v: "ValidateNet s = None" and "n \<in> set (named_interfaces s)"
  then have "(\<exists>c. (n, c) \<in> set (neInterfaces s)) \<or> (\<exists>m b. (m, b) \<in> set (neBonds s) \<and> (n = m \<or> n \<in> set (boSlaves b))) \<or>
      (\<exists>m w. (m, w) \<in> set (neVLANs s) \<and> (n = m \<or> n = vaParent w))"
    unfolding named_interfaces_def by force
  then have "ValidateIface n" using valid_iface [OF v] valid_bond [OF v] valid_vlan [OF v] by blast
  then show "one_word n \<and> n \<noteq> []" by (rule plain_iface)
qed

lemma BondOf_cases: "BondOf s i = [] \<or> (\<exists>b. (BondOf s i, b) \<in> set (neBonds s) \<and> i \<in> set (boSlaves b))"
proof (cases "List.find (\<lambda>(n, b). contains (boSlaves b) i) (neBonds s)")
  case (Some x)
  then show ?thesis using find_SomeD [OF Some] by (cases x) (auto simp: BondOf_def)
qed (simp add: BondOf_def)

lemma plain_BondOf: "ValidateNet s = None \<Longrightarrow> one_word (BondOf s i)"
  using BondOf_cases [of s i] valid_bond [of s "BondOf s i"] plain_iface [of "BondOf s i"] by (auto simp: one_word_def)

lemma plain_vlansOn: "ValidateNet s = None \<Longrightarrow> v \<in> set (vlansOn s n) \<Longrightarrow> one_word v"
  using valid_vlan [of s v] plain_iface [of v] by (auto simp: vlansOn_def)

text \<open>The configuration an interface is rendered from.\<close>

definition iface_of :: "net_state \<Rightarrow> string \<Rightarrow> iface_conf" where
  "iface_of s n = (case map_of (neInterfaces s) n of None \<Rightarrow> no_iface | Some c \<Rightarrow> c)"

lemma plain_iface_of:
  assumes "ValidateNet s = None"
  shows "a \<in> set (ifAddresses (iface_of s n)) \<Longrightarrow> one_word a" and "one_word (ifGateway (iface_of s n))"
    and "r \<in> set (ifRoutes (iface_of s n)) \<Longrightarrow> one_word (rtDestination r) \<and> one_word (rtGateway r) \<and> rtGateway r \<noteq> []"
proof -
  have "check_iface s (n, c) = None" if "map_of (neInterfaces s) n = Some c" for c
    using Validate_parts(1) [OF assms map_of_SomeD [OF that]] .
  note check = check_iface_None [OF this]
  show "a \<in> set (ifAddresses (iface_of s n)) \<Longrightarrow> one_word a" "one_word (ifGateway (iface_of s n))"
    "r \<in> set (ifRoutes (iface_of s n)) \<Longrightarrow> one_word (rtDestination r) \<and> one_word (rtGateway r) \<and> rtGateway r \<noteq> []"
    using check by (cases "map_of (neInterfaces s) n"; simp add: iface_of_def no_iface_def one_word_def)+
qed

lemma marker_one_line: "one_line marker"
  by code_simp

text \<open>
  A valid state cannot smuggle anything into a file: the lines of the file of an interface are exactly the
  ones the daemon put together, whatever names, addresses, gateways and routes were configured.
\<close>

theorem network_file_lines:
  assumes "ValidateNet s = None" and "n \<in> set (named_interfaces s)"
  shows "split_at newline (file_text (network_lines s n)) = network_lines s n @ [[]]"
proof -
  have lit: "list_all one_line [''[Match]'', ''[Network]'', ''DHCP=yes'', ''DHCP=no'', ''[Route]'', ''Name='', ''Bond='',
      ''Address='', ''Gateway='', ''VLAN='', ''Destination='']" by code_simp
  have "\<forall>l \<in> set (network_lines s n). one_line l"
    unfolding network_lines_def iface_of_def [symmetric] Let_def
    using lit marker_one_line plain_one_line plain_named [OF assms] plain_BondOf [OF assms(1), of n] plain_vlansOn [OF assms(1)]
      plain_iface_of [OF assms(1), where n = n]
    by (auto simp: route_lines_def)
  then show ?thesis unfolding file_text_def by (rule split_at_lines)
qed


section \<open>Reading a file back\<close>

lemma trim_space_id: "list_all (\<lambda>c. \<not> is_space c) s \<Longrightarrow> trim_space s = s"
proof -
  have id: "list_all (\<lambda>c. \<not> is_space c) s \<Longrightarrow> dropWhile is_space s = s" for s by (cases s) simp_all
  show "list_all (\<lambda>c. \<not> is_space c) s \<Longrightarrow> trim_space s = s" by (simp add: trim_space_def id list_all_rev)
qed

lemma key_value_line:
  assumes "one_word k" and "k \<noteq> []" and "one_word v"
  shows "key_value (k @ CHR ''='' # v) = Some (k, v)"
proof -
  have "list_all (\<lambda>c. \<not> is_space c) (k @ CHR ''='' # v)"
    using assms by (auto simp: one_word_def list_all_iff is_space_def)
  moreover have "CHR ''='' \<notin> set k" using assms(1) by (auto simp: one_word_def list_all_iff)
  moreover have "\<not> has_prefix k ''#''" using assms(1,2) by (cases k) (simp_all add: one_word_def has_prefix_def)
  ultimately show ?thesis by (simp add: key_value_def trim_space_id cut_at_piece)
qed

lemma keys_plain:
  "one_word ''Name''" "one_word ''Bond''" "one_word ''DHCP''" "one_word ''Address''" "one_word ''Gateway''" "one_word ''VLAN''"
  "one_word ''Destination''" "one_word ''Kind''" "one_word ''Mode''" "one_word ''Id''" "one_word ''yes''" "one_word ''no''" "one_word ''bond''"
  "one_word ''vlan''"
  by code_simp+

lemmas key_value_lines = keys_plain [THEN key_value_line, simplified]

lemma no_key_value:
  "key_value marker = None" "key_value [] = None" "key_value ''[Match]'' = None" "key_value ''[Network]'' = None"
  "key_value ''[Route]'' = None" "key_value ''[NetDev]'' = None" "key_value ''[Bond]'' = None" "key_value ''[VLAN]'' = None"
  by code_simp+

lemma key_value_dhcp: "key_value ''DHCP=yes'' = Some (''DHCP'', ''yes'')" "key_value ''DHCP=no'' = Some (''DHCP'', ''no'')"
  by code_simp+

lemma map_filter_append: "List.map_filter f (xs @ ys) = List.map_filter f xs @ List.map_filter f ys"
  by (simp add: List.map_filter_def)

lemma map_filter_map: "(\<And>x. x \<in> set xs \<Longrightarrow> f (g x) = Some (h x)) \<Longrightarrow> List.map_filter f (map g xs) = map h xs"
  by (induction xs) (simp_all add: map_filter_simps)

lemma key_values_lines: "\<forall>l \<in> set ls. one_line l \<Longrightarrow> key_values (file_text ls) = List.map_filter key_value ls"
  unfolding key_values_def file_text_def
  by (simp add: split_at_lines map_filter_append map_filter_simps no_key_value)

lemma key_values_one: "key_value l = Some kv \<Longrightarrow> List.map_filter key_value [l] = [kv]"
  by (simp add: map_filter_simps)

lemma route_key_values:
  "\<forall>r \<in> set rs. one_word (rtDestination r) \<and> one_word (rtGateway r) \<Longrightarrow>
   List.map_filter key_value (concat (map route_lines rs)) =
   concat (map (\<lambda>r. [(''Destination'', rtDestination r), (''Gateway'', rtGateway r)]) rs)"
  by (induction rs) (simp_all add: map_filter_simps route_lines_def no_key_value key_value_lines)

lemma values_append [simp]: "values_of (xs @ ys) k = values_of xs k @ values_of ys k"
  by (simp add: values_of_def)

lemma values_Nil [simp]: "values_of [] k = []"
  by (simp add: values_of_def)

lemma values_Cons [simp]: "values_of ((j, v) # xs) k = (if j = k then v # values_of xs k else values_of xs k)"
  by (simp add: values_of_def)

lemma values_map [simp]: "values_of (map (Pair j) vs) k = (if j = k then vs else [])"
  by (simp add: values_of_def comp_def)

lemma values_routes:
  "values_of (concat (map (\<lambda>r. [(''Destination'', rtDestination r), (''Gateway'', rtGateway r)]) rs)) k =
   (if k = ''Gateway'' then map rtGateway rs else if k = ''Destination'' then map rtDestination rs else [])"
  by (induction rs) auto

text \<open>The keys and values of the file of an interface.\<close>

lemma network_key_values:
  assumes "ValidateNet s = None" and "n \<in> set (named_interfaces s)"
  shows "key_values (file_text (network_lines s n)) =
    [(''Name'', n)] @
    (if BondOf s n \<noteq> [] then [(''Bond'', BondOf s n)]
     else [(''DHCP'', if ifDHCP (iface_of s n) then ''yes'' else ''no'')] @
       map (Pair ''Address'') (ifAddresses (iface_of s n)) @
       (if ifGateway (iface_of s n) \<noteq> [] then [(''Gateway'', ifGateway (iface_of s n))] else []) @
       map (Pair ''VLAN'') (vlansOn s n) @
       concat (map (\<lambda>r. [(''Destination'', rtDestination r), (''Gateway'', rtGateway r)]) (ifRoutes (iface_of s n))))"
proof -
  have start: "key_values (file_text (network_lines s n)) = List.map_filter key_value (network_lines s n)"
    using network_file_lines [OF assms] unfolding key_values_def
    by (simp add: map_filter_append map_filter_simps no_key_value)
  have "List.map_filter key_value (map ((@) ''Address='') (ifAddresses (iface_of s n))) =
      map (Pair ''Address'') (ifAddresses (iface_of s n))"
    by (rule map_filter_map) (use plain_iface_of(1) [OF assms(1)] in \<open>simp add: key_value_lines\<close>)
  moreover have "List.map_filter key_value (map ((@) ''VLAN='') (vlansOn s n)) = map (Pair ''VLAN'') (vlansOn s n)"
    by (rule map_filter_map) (use plain_vlansOn [OF assms(1)] in \<open>simp add: key_value_lines\<close>)
  moreover have "List.map_filter key_value (concat (map route_lines (ifRoutes (iface_of s n)))) =
      concat (map (\<lambda>r. [(''Destination'', rtDestination r), (''Gateway'', rtGateway r)]) (ifRoutes (iface_of s n)))"
    by (rule route_key_values) (use plain_iface_of(3) [OF assms(1)] in blast)
  moreover have "one_word (ifGateway (iface_of s n))" "one_word (BondOf s n)" "one_word n"
    using plain_iface_of(2) [OF assms(1)] plain_BondOf [OF assms(1)] plain_named [OF assms] by auto
  ultimately show ?thesis
    unfolding start by (simp add: network_lines_def iface_of_def [symmetric] Let_def map_filter_append map_filter_simps no_key_value key_value_lines
      key_value_dhcp)
qed

text \<open>
  C39. What the import reads back from the file rendered for an interface of a valid state: its name and, for a member of
  a bond, only the bond; otherwise its VLANs and its own configuration but for the routes, which are lost, and the
  gateway, which for an interface with routes and no gateway of its own becomes that of the first route.
\<close>

theorem network_file_read_back:
  assumes "ValidateNet s = None" and "n \<in> set (named_interfaces s)"
  shows "net_file_of (key_values (file_text (network_lines s n))) =
    (let c = iface_of s n in
     if BondOf s n \<noteq> [] then \<lparr>nfName = n, nfBond = BondOf s n, nfVLANs = [], nfIface = no_iface\<rparr>
     else \<lparr>nfName = n, nfBond = [], nfVLANs = vlansOn s n,
       nfIface = c\<lparr>ifRoutes := [],
         ifGateway := (if ifGateway c = [] \<and> ifRoutes c \<noteq> [] then rtGateway (hd (ifRoutes c)) else ifGateway c)\<rparr>\<rparr>)"
proof (cases "ifRoutes (iface_of s n)")
  case Nil
  then show ?thesis
    unfolding net_file_of_def network_key_values [OF assms] first_value_def
    by (simp add: values_routes Let_def no_iface_def)
next
  case (Cons r rs)
  then show ?thesis
    unfolding net_file_of_def network_key_values [OF assms] first_value_def
    by (simp add: values_routes Let_def no_iface_def)
qed

lemma scan_show:
  assumes "1 \<le> i" and "i < 2 ^ 63"
  shows "scan_int (show_int i) = i"
proof -
  obtain c cs where s: "show_nat (nat i) = c # cs" using show_nat_not_Nil by (cases "show_nat (nat i)") auto
  have digits: "list_all is_digit (show_nat (nat i))" using show_nat_digits by blast
  then have c: "is_digit c" using s by simp
  have "\<not> is_space c" using c by (rule digit_no_space)
  moreover have "c \<noteq> CHR ''-''" "c \<noteq> CHR ''+''" using c by (auto simp: is_digit_def digit_chars_def)
  moreover have "takeWhile is_digit (c # cs) = c # cs" using digits s by (simp add: takeWhile_eq_all_conv list_all_iff)
  ultimately show ?thesis
    using assms unsigned_show [of "nat i"] s
    by (simp add: scan_int_def show_int_def has_prefix_def)
qed

text \<open>The device files read back.\<close>

lemma netdev_key_values:
  assumes "one_word n" and "one_word (boMode b)"
  shows "key_values (file_text (bond_netdev n b)) =
      [(''Name'', n), (''Kind'', ''bond''), (''Mode'', boMode b), (''MIIMonitorSec'', ''100ms'')]"
    and "key_values (file_text (vlan_netdev n v)) = [(''Name'', n), (''Kind'', ''vlan''), (''Id'', show_int (vaID v))]"
proof -
  have lit: "key_value ''Kind=bond'' = Some (''Kind'', ''bond'')" "key_value ''Kind=vlan'' = Some (''Kind'', ''vlan'')"
    "key_value ''MIIMonitorSec=100ms'' = Some (''MIIMonitorSec'', ''100ms'')"
    "key_value ''# Without link monitoring a failed member is never noticed.'' = None"
    by code_simp+
  have ones: "list_all one_line [''[NetDev]'', ''Name='', ''Kind=bond'', ''Kind=vlan'', ''[Bond]'', ''[VLAN]'', ''Mode='', ''Id='',
      ''# Without link monitoring a failed member is never noticed.'', ''MIIMonitorSec=100ms'']" by code_simp
  have num: "one_word (show_int (vaID v))"
  proof -
    have "one_word (show_nat k)" for k using show_nat_digits [of k] plain_class(2) by (auto intro: one_wordI)
    then show ?thesis by (simp add: show_int_def one_word_def is_space_def)
  qed
  have "key_values (file_text (bond_netdev n b)) = List.map_filter key_value (bond_netdev n b)"
    by (rule key_values_lines) (use ones marker_one_line assms plain_one_line in \<open>simp add: bond_netdev_def\<close>)
  then show "key_values (file_text (bond_netdev n b)) =
      [(''Name'', n), (''Kind'', ''bond''), (''Mode'', boMode b), (''MIIMonitorSec'', ''100ms'')]"
    using assms by (simp add: bond_netdev_def map_filter_simps no_key_value key_value_lines lit)
  have "key_values (file_text (vlan_netdev n v)) = List.map_filter key_value (vlan_netdev n v)"
    by (rule key_values_lines) (use ones marker_one_line assms(1) plain_one_line num in \<open>simp add: vlan_netdev_def\<close>)
  then show "key_values (file_text (vlan_netdev n v)) = [(''Name'', n), (''Kind'', ''vlan''), (''Id'', show_int (vaID v))]"
    using assms(1) num by (simp add: vlan_netdev_def map_filter_simps no_key_value key_value_lines lit)
qed


section \<open>A sample\<close>

text \<open>A routed interface without a default gateway, a bond of two interfaces and a VLAN on it.\<close>

definition sample_network :: net_state where
  "sample_network =
     \<lparr>neInterfaces =
        [(''eth0'', \<lparr>ifDHCP = False, ifAddresses = [''192.168.1.10/24''], ifGateway = [],
            ifRoutes = [\<lparr>rtDestination = ''10.20.0.0/16'', rtGateway = ''192.168.1.1''\<rparr>]\<rparr>),
         (''bond0'', \<lparr>ifDHCP = True, ifAddresses = [], ifGateway = [], ifRoutes = []\<rparr>)],
      neBonds = [(''bond0'', \<lparr>boMode = ''802.3ad'', boSlaves = [''eth1'', ''eth2'']\<rparr>)],
      neVLANs = [(''vlan20'', \<lparr>vaParent = ''bond0'', vaID = 20\<rparr>)],
      neDNS = \<lparr>nsServers = [''9.9.9.9''], nsSearch = [''lan'']\<rparr>\<rparr>"

lemma sample_names:
  "ValidateIface ''eth0''" "ValidateIface ''eth1''" "ValidateIface ''eth2''" "ValidateIface ''bond0''" "ValidateIface ''vlan20''"
  by (simp_all add: ValidateIface_def match_class_def char_class_defs)

lemma sample_parse:
  "parse_ip ''192.168.1.10'' = Some [0, 0, 0, 0, 0, 0, 0, 0, 0, 0, 255, 255, 192, 168, 1, 10]"
  "parse_ip ''192.168.1.1'' = Some [0, 0, 0, 0, 0, 0, 0, 0, 0, 0, 255, 255, 192, 168, 1, 1]"
  "parse_ip ''10.20.0.0'' = Some [0, 0, 0, 0, 0, 0, 0, 0, 0, 0, 255, 255, 10, 20, 0, 0]"
  "parse_ip ''9.9.9.9'' = Some [0, 0, 0, 0, 0, 0, 0, 0, 0, 0, 255, 255, 9, 9, 9, 9]"
  by code_simp+

lemma sample_cidrs: "\<exists>a b. parse_cidr ''192.168.1.10/24'' = Some (a, b)" "\<exists>a b. parse_cidr ''10.20.0.0/16'' = Some (a, b)"
  by (simp_all add: parse_cidr_def sample_parse addr_kind.simps digit_val.simps digit_chars_def)

lemma sample_domain: "validDomain ''lan''"
  by code_simp

lemma sample_network_valid: "ValidateNet sample_network = None"
proof -
  have bond: "BondOf sample_network ''eth0'' = []" "BondOf sample_network ''bond0'' = []"
    by (simp_all add: BondOf_def sample_network_def)
  have "check_iface sample_network x = None" if "x \<in> set (neInterfaces sample_network)" for x
    using that sample_cidrs by (auto simp: sample_network_def check_iface_def check_route_def sample_names sample_parse
      bond [unfolded sample_network_def])
  moreover have "check_bonds sample_network [] (neBonds sample_network) = None"
    by (simp add: sample_network_def sample_names bondModes_def has_key_def)
  moreover have "check_vlans sample_network [] (neVLANs sample_network) = None"
    by (simp add: sample_network_def sample_names BondOf_def has_key_def)
  ultimately show ?thesis
    by (simp add: ValidateNet_def) (simp add: sample_network_def sample_parse sample_domain)
qed

lemma sample_network_bond: "neBonds sample_network = [(''bond0'', \<lparr>boMode = ''802.3ad'', boSlaves = [''eth1'', ''eth2'']\<rparr>)]"
  by (simp add: sample_network_def)

lemma member_of_one_bond_witness:
  "BondOf sample_network ''eth2'' = ''bond0'' \<and> \<not> has_key (neBonds sample_network) ''eth2'' \<and> \<not> has_key (neVLANs sample_network) ''eth2''"
  by (rule member_of_one_bond [OF sample_network_valid, of "''bond0''" "\<lparr>boMode = ''802.3ad'', boSlaves = [''eth1'', ''eth2'']\<rparr>"])
    (simp_all add: sample_network_bond)

lemma sample_named: "''eth0'' \<in> set (named_interfaces sample_network)" "''eth1'' \<in> set (named_interfaces sample_network)"
  by (simp_all add: named_interfaces_def sample_network_def)

lemma network_file_lines_witness:
  "split_at newline (file_text (network_lines sample_network ''eth1'')) = network_lines sample_network ''eth1'' @ [[]]"
  by (rule network_file_lines [OF sample_network_valid sample_named(2)])

lemma network_file_read_back_witness:
  "ifGateway (nfIface (net_file_of (key_values (file_text (network_lines sample_network ''eth0''))))) = ''192.168.1.1'' \<and>
   ifGateway (iface_of sample_network ''eth0'') = []"
proof -
  have "BondOf sample_network ''eth0'' = []" by (simp add: BondOf_def sample_network_def)
  then show ?thesis
    unfolding network_file_read_back [OF sample_network_valid sample_named(1)]
    by (simp add: iface_of_def sample_network_def Let_def)
qed

text \<open>A VLAN parent that had no address of its own asks for one by DHCP after its files were read back.\<close>

definition plain_parent :: net_state where
  "plain_parent = no_network\<lparr>neVLANs := [(''vlan7'', \<lparr>vaParent = ''eth0'', vaID = 7\<rparr>)]\<rparr>"

lemma plain_parent_valid: "ValidateNet plain_parent = None"
  by (simp add: ValidateNet_def plain_parent_def no_network_def sample_names BondOf_def has_key_def) 
     (simp add: ValidateIface_def match_class_def char_class_defs)

lemma plain_parent_files:
  "sort_key fst (render plain_parent) =
     [(''05-dplane-eth0.network'', file_text (network_lines plain_parent ''eth0'')),
      (''05-dplane-vlan7.netdev'', file_text (vlan_netdev ''vlan7'' \<lparr>vaParent = ''eth0'', vaID = 7\<rparr>)),
      (''05-dplane-vlan7.network'', file_text (network_lines plain_parent ''vlan7''))]"
  by (simp add: render_def plain_parent_def no_network_def named_interfaces_def netdev_file_def network_file_def FilePrefix_def)

lemma import_turns_on_dhcp:
  "map_of (neInterfaces (importLegacy (map (\<lambda>(f, t). (f, Some t)) (sort_key fst (render plain_parent))))) ''eth0'' =
     Some (no_iface\<lparr>ifDHCP := True\<rparr>)"
proof -
  have named: "''eth0'' \<in> set (named_interfaces plain_parent)" "''vlan7'' \<in> set (named_interfaces plain_parent)"
    by (simp_all add: named_interfaces_def plain_parent_def no_network_def)
  have one_word: "one_word ''vlan7''" "one_word []" by code_simp+
  note kv = network_key_values [OF plain_parent_valid named(1)] network_key_values [OF plain_parent_valid named(2)]
    netdev_key_values(2) [OF one_word(1), of "\<lparr>boMode = [], boSlaves = []\<rparr>"]
  have "scan_int (show_int 7) = 7" by (rule scan_show) simp_all
  then have "read_files (map (\<lambda>(f, t). (f, Some t)) (sort_key fst (render plain_parent))) (no_network, []) =
      (no_network\<lparr>neVLANs := [(''vlan7'', \<lparr>vaParent = [], vaID = 7\<rparr>)]\<rparr>,
       [\<lparr>nfName = ''eth0'', nfBond = [], nfVLANs = [''vlan7''], nfIface = no_iface\<rparr>,
        \<lparr>nfName = ''vlan7'', nfBond = [], nfVLANs = [], nfIface = no_iface\<rparr>])"
    unfolding plain_parent_files
    by (simp add: kv one_word(2) Let_def has_prefix_def has_suffix_def FilePrefix_def first_value_def no_network_def) 
       (simp add: net_file_of_def first_value_def plain_parent_def no_network_def BondOf_def iface_of_def no_iface_def vlansOn_def)
  then show ?thesis
    by (simp add: importLegacy_def read_network_def set_parent_def no_network_def drop_incomplete_def parent_dhcp_def
        Let_def no_iface_def BondOf_def has_key_def ValidateNet_def check_iface_def sample_names)
       (simp add: ValidateIface_def match_class_def char_class_defs)
qed

end
