(* ===== verification/NetWriter.thy ===== *)
theory NetWriter
  imports NetState
begin

text \<open>
  Applying a network configuration (\<open>networkdwriter\<close>): the files of the new state are written, files it no longer
  has are removed, devices that are removed or changed are deleted, and \<open>systemd-networkd\<close> and
  \<open>systemd-resolved\<close> take the change over. A change can wait for confirmation and is reverted otherwise.
\<close>

section \<open>The node\<close>

datatype net_call =
    ReadDir | MakeDir | WriteFile string string | RemoveFile string
  | LinkExists string | LinkDelete string
  | SaveState net_state | ReadResolved | WriteResolved string | RemoveResolved | RestartResolved
  | NetworkReload | NetworkRestart | Reconfigure "string list"
  | StatPending | WritePending net_state int | ReadPending | RemovePending

datatype pending_file = NoPending | Unreadable | Pending net_state int

record net_node =
  nnFiles :: "(string \<times> string) list"
  nnState :: net_state
  nnSaved :: "net_state option"
  nnResolved :: "string option"
  nnPending :: pending_file
  nnTrace :: "net_call list"

text \<open>
  The environment answers a call from the calls made before: whether it succeeds, and for \<open>LinkExists\<close> whether the
  device is there. A file that cannot be read counts as empty.
\<close>

record net_env =
  noOK :: "net_call list \<Rightarrow> net_call \<Rightarrow> bool"
  noUnreadable :: "string \<Rightarrow> bool"
  noNetworkd :: bool

definition called :: "net_call \<Rightarrow> net_node \<Rightarrow> net_node" where
  "called c s = s\<lparr>nnTrace := nnTrace s @ [c]\<rparr>"

definition net_ok :: "net_env \<Rightarrow> net_call \<Rightarrow> net_node \<Rightarrow> bool" where
  "net_ok E c s = noOK E (nnTrace s) c"

text \<open>A call and the calls that have failed so far; \<open>f\<close> is its effect when it succeeds.\<close>

type_synonym net_result = "net_call list \<times> net_node"

definition try_call :: "net_env \<Rightarrow> net_call \<Rightarrow> (net_node \<Rightarrow> net_node) \<Rightarrow> net_result \<Rightarrow> net_result" where
  "try_call E c f = (\<lambda>(errs, s). if net_ok E c s then (errs, f (called c s)) else (errs @ [c], called c s))"

section \<open>Applying a state\<close>

definition ours :: "string \<Rightarrow> bool" where
  "ours f \<longleftrightarrow> has_prefix f FilePrefix \<or> has_prefix f legacyPrefix"

definition old_files :: "net_env \<Rightarrow> net_node \<Rightarrow> (string \<times> string) list" where
  "old_files E s = map (\<lambda>(f, t). (f, if noUnreadable E f then [] else t)) (filter (\<lambda>(f, t). ours f) (nnFiles s))"

definition old_text :: "(string \<times> string) list \<Rightarrow> string \<Rightarrow> string" where
  "old_text files f = (case map_of files f of None \<Rightarrow> [] | Some t \<Rightarrow> t)"

definition trim_suffix :: "string \<Rightarrow> string \<Rightarrow> string" where
  "trim_suffix s p = (if has_suffix s p then take (length s - length p) s else s)"

definition ifaceOf :: "string \<Rightarrow> string" where
  "ifaceOf f =
     trim_suffix (trim_suffix (trim_prefix (trim_prefix f FilePrefix) legacyPrefix) ''.network'') ''.netdev''"

text \<open>Bonds and VLANs that the next state removes or defines differently.\<close>

definition changedDevices :: "net_state \<Rightarrow> net_state \<Rightarrow> string list" where
  "changedDevices prev next =
     sort
       (map fst (filter (\<lambda>(n, b). case map_of (neBonds next) n of None \<Rightarrow> True | Some nb \<Rightarrow> boMode nb \<noteq> boMode b) (neBonds prev)) @
        map fst (filter (\<lambda>(n, v). map_of (neVLANs next) n \<noteq> Some v) (neVLANs prev)))"

definition recreated :: "net_state \<Rightarrow> net_state \<Rightarrow> bool" where
  "recreated prev next \<longleftrightarrow>
     list_ex (\<lambda>d. has_key (neBonds next) d \<or> has_key (neVLANs next) d) (changedDevices prev next)"

definition members_of :: "net_state \<Rightarrow> string \<Rightarrow> string list" where
  "members_of next d =
     (case map_of (neBonds next) d of None \<Rightarrow> [] | Some b \<Rightarrow> boSlaves b) @
     (case map_of (neVLANs next) d of None \<Rightarrow> [] | Some v \<Rightarrow> [vaParent v])"

definition affected :: "(string \<times> string) list \<Rightarrow> net_state \<Rightarrow> net_state \<Rightarrow> string list" where
  "affected old prev next =
     sort (remdups
       (map (\<lambda>(f, c). ifaceOf f) (filter (\<lambda>(f, c). old_text old f \<noteq> c) (render next)) @
        map (\<lambda>(f, c). ifaceOf f) (filter (\<lambda>(f, c). \<not> has_key (render next) f) old) @
        concat (map (members_of next) (changedDevices prev next))))"

fun delete_links :: "net_env \<Rightarrow> string list \<Rightarrow> net_result \<Rightarrow> net_result" where
  "delete_links E [] r = r"
| "delete_links E (d # ds) (errs, s) =
     delete_links E ds
       (let s1 = called (LinkExists d) s in
        if net_ok E (LinkExists d) s then try_call E (LinkDelete d) (\<lambda>s. s) (errs, s1) else (errs, s1))"

fun write_files :: "net_env \<Rightarrow> (string \<times> string) list \<Rightarrow> (string \<times> string) list \<Rightarrow> net_result \<Rightarrow> net_result" where
  "write_files E old [] r = r"
| "write_files E old ((f, c) # fs) r =
     write_files E old fs
       (if old_text old f = c then r
        else try_call E (WriteFile f c) (\<lambda>s. s\<lparr>nnFiles := AList.update f c (nnFiles s)\<rparr>) r)"

fun remove_files :: "net_env \<Rightarrow> (string \<times> string) list \<Rightarrow> (string \<times> string) list \<Rightarrow> net_result \<Rightarrow> net_result" where
  "remove_files E new [] r = r"
| "remove_files E new ((f, c) # fs) r =
     remove_files E new fs
       (if has_key new f then r
        else try_call E (RemoveFile f) (\<lambda>s. s\<lparr>nnFiles := AList.delete f (nnFiles s)\<rparr>) r)"

definition saveState :: "net_env \<Rightarrow> net_state \<Rightarrow> net_result \<Rightarrow> net_result" where
  "saveState E next = try_call E (SaveState next) (\<lambda>s. s\<lparr>nnSaved := Some next\<rparr>)"

text \<open>The drop-in is written or removed, and the resolver restarted, only when it changes; one failure ends it.\<close>

definition then_attempt :: "net_env \<Rightarrow> net_call \<Rightarrow> (net_node \<Rightarrow> net_node) \<Rightarrow> bool \<times> net_result \<Rightarrow> bool \<times> net_result" where
  "then_attempt E c f = (\<lambda>(go, errs, s).
     if \<not> go then (go, errs, s) else if net_ok E c s then (True, errs, f (called c s)) else (False, errs @ [c], called c s))"

definition applyDNS :: "net_env \<Rightarrow> dns_conf \<Rightarrow> net_result \<Rightarrow> net_result" where
  "applyDNS E d = (\<lambda>(errs, s).
     let text = render_dns d; (go, errs1, s1) = then_attempt E ReadResolved (\<lambda>s. s) (True, errs, s) in
     if \<not> go \<or> (text = [] \<and> nnResolved s = None) \<or> nnResolved s = Some text then (errs1, s1)
     else snd (then_attempt E RestartResolved (\<lambda>s. s)
       (if text = [] then then_attempt E RemoveResolved (\<lambda>s. s\<lparr>nnResolved := None\<rparr>) (go, errs1, s1)
        else then_attempt E (WriteResolved text) (\<lambda>s. s\<lparr>nnResolved := Some text\<rparr>) (go, errs1, s1))))"

text \<open>One look at every link; the result tells which are there.\<close>

fun look_at :: "net_env \<Rightarrow> string list \<Rightarrow> net_node \<Rightarrow> string list \<times> net_node" where
  "look_at E [] s = ([], s)"
| "look_at E (l # ls) s =
     (case look_at E ls (called (LinkExists l) s) of
        (there, s1) \<Rightarrow> (if net_ok E (LinkExists l) s then l # there else there, s1))"

text \<open>The bonds are awaited, at most fifty times.\<close>

fun await_links :: "net_env \<Rightarrow> string list \<Rightarrow> nat \<Rightarrow> net_node \<Rightarrow> net_node" where
  "await_links E ls 0 s = s"
| "await_links E ls (Suc n) s =
     (case look_at E ls s of (there, s1) \<Rightarrow> if length there = length ls then s1 else await_links E ls n s1)"

definition reload_networkd :: "net_env \<Rightarrow> string list \<Rightarrow> bool \<Rightarrow> net_state \<Rightarrow> net_result \<Rightarrow> net_result" where
  "reload_networkd E aff again next = (\<lambda>(errs, s).
     if \<not> noNetworkd E \<or> (aff = [] \<and> \<not> again) then (errs, s)
     else
       let c = (if again then NetworkRestart else NetworkReload) in
       if \<not> net_ok E c s then (errs @ [c], called c s)
       else case look_at E aff (await_links E (map fst (neBonds next)) 50 (called c s)) of
         (links, s2) \<Rightarrow> if links = [] then (errs, s2) else try_call E (Reconfigure links) (\<lambda>s. s) (errs, s2))"

definition apply_state :: "net_env \<Rightarrow> net_state \<Rightarrow> net_state \<Rightarrow> net_node \<Rightarrow> net_result" where
  "apply_state E prev next s =
     (if \<not> net_ok E ReadDir s then ([ReadDir], called ReadDir s)
      else
        let s1 = called ReadDir s; old = old_files E s1; files = render next;
            (errs, s2) = delete_links E (changedDevices prev next) ([], s1) in
        if \<not> net_ok E MakeDir s2 then ([MakeDir], called MakeDir s2)
        else
          let (errs3, s3) =
                saveState E next (remove_files E files old (write_files E old files (errs, called MakeDir s2)))
          in reload_networkd E (affected old prev next) (recreated prev next) next
               (applyDNS E (neDNS next) (errs3, s3\<lparr>nnState := next\<rparr>)))"

section \<open>Operations of the writer\<close>

datatype net_failure = InvalidState net_error | AlreadyPending | NothingPending | UnreadablePending | Failed "net_call list"

definition failure_of :: "net_call list \<Rightarrow> net_failure option" where
  "failure_of errs = (if errs = [] then None else Some (Failed errs))"

definition Apply :: "net_env \<Rightarrow> net_state \<Rightarrow> net_node \<Rightarrow> net_failure option \<times> net_node" where
  "Apply E next s =
     (case ValidateNet next of
        Some e \<Rightarrow> (Some (InvalidState e), s)
      | None \<Rightarrow> (case apply_state E (nnState s) next s of (errs, s1) \<Rightarrow> (failure_of errs, s1)))"

text \<open>The files of the saved state are written again where they differ.\<close>

definition Sync :: "net_env \<Rightarrow> net_node \<Rightarrow> net_failure option \<times> net_node" where
  "Sync E s = (case apply_state E (nnState s) (nnState s) s of (errs, s1) \<Rightarrow> (failure_of errs, s1))"

definition drop_pending :: "net_env \<Rightarrow> net_node \<Rightarrow> net_node" where
  "drop_pending E s = snd (try_call E RemovePending (\<lambda>s. s\<lparr>nnPending := NoPending\<rparr>) ([], s))"

definition ApplyPending :: "net_env \<Rightarrow> net_state \<Rightarrow> int \<Rightarrow> net_node \<Rightarrow> net_failure option \<times> net_node" where
  "ApplyPending E next deadline s =
     (case ValidateNet next of
        Some e \<Rightarrow> (Some (InvalidState e), s)
      | None \<Rightarrow>
          (let s1 = called StatPending s; prev = nnState s in
           if nnPending s \<noteq> NoPending \<and> net_ok E StatPending s then (Some AlreadyPending, s1)
           else case try_call E (WritePending prev deadline) (\<lambda>s. s\<lparr>nnPending := Pending prev deadline\<rparr>) ([], s1) of
             (e # es, s2) \<Rightarrow> (Some (Failed (e # es)), s2)
           | ([], s2) \<Rightarrow>
               (case apply_state E prev next s2 of
                  ([], s3) \<Rightarrow> (None, s3)
                | (errs, s3) \<Rightarrow>
                    (case apply_state E (nnState s3) prev s3 of
                       (errs1, s4) \<Rightarrow> (Some (Failed errs), drop_pending E s4)))))"

definition Confirm :: "net_env \<Rightarrow> net_node \<Rightarrow> net_failure option \<times> net_node" where
  "Confirm E s =
     (if nnPending s = NoPending then (Some NothingPending, called RemovePending s)
      else case try_call E RemovePending (\<lambda>s. s\<lparr>nnPending := NoPending\<rparr>) ([], s) of (errs, s1) \<Rightarrow> (failure_of errs, s1))"

definition RevertPending :: "net_env \<Rightarrow> net_node \<Rightarrow> net_failure option \<times> net_node" where
  "RevertPending E s =
     (let s1 = called ReadPending s in
      if nnPending s = NoPending then (Some NothingPending, s1)
      else if \<not> net_ok E ReadPending s then (Some (Failed [ReadPending]), s1)
      else case nnPending s of
        Pending prev deadline \<Rightarrow>
          (case apply_state E (nnState s1) prev s1 of (errs, s2) \<Rightarrow> (failure_of errs, drop_pending E s2))
      | _ \<Rightarrow> (Some UnreadablePending, drop_pending E s1))"

text \<open>The state a starting daemon has: the saved one, or what the files say when there is none.\<close>

definition load_state :: "net_env \<Rightarrow> net_node \<Rightarrow> net_state" where
  "load_state E s =
     (case nnSaved s of
        Some t \<Rightarrow> t
      | None \<Rightarrow> importLegacy (map (\<lambda>(f, t). (f, if noUnreadable E f then None else Some t)) (sort_key fst (nnFiles s))))"

section \<open>What an application without a failure leaves\<close>

lemma called_fields [simp]:
  "nnFiles (called c s) = nnFiles s" "nnState (called c s) = nnState s" "nnSaved (called c s) = nnSaved s"
  "nnResolved (called c s) = nnResolved s" "nnPending (called c s) = nnPending s" "nnTrace (called c s) = nnTrace s @ [c]"
  by (simp_all add: called_def)

lemma attempt_Nil: "try_call E c f (errs, s) = ([], s1) \<Longrightarrow> errs = [] \<and> net_ok E c s \<and> s1 = f (called c s)"
  by (auto simp: try_call_def split: if_splits)

lemma attempt_frame: "try_call E c f (errs, s) = (errs1, s1) \<Longrightarrow> s1 = f (called c s) \<or> s1 = called c s"
  by (auto simp: try_call_def split: if_splits)

lemma delete_links_Nil:
  "delete_links E ds (errs, s) = (errs1, s1) \<Longrightarrow>
   (errs1 = [] \<longrightarrow> errs = []) \<and> nnFiles s1 = nnFiles s \<and> nnResolved s1 = nnResolved s \<and> nnPending s1 = nnPending s \<and>
   nnState s1 = nnState s \<and> nnSaved s1 = nnSaved s"
proof (induction ds arbitrary: errs s)
  case (Cons d ds)
  obtain errs2 s2 where mid: "(let s1 = called (LinkExists d) s in
        if net_ok E (LinkExists d) s then try_call E (LinkDelete d) (\<lambda>s. s) (errs, s1) else (errs, s1)) = (errs2, s2)"
    by fastforce
  then have "(errs2 = [] \<longrightarrow> errs = []) \<and> nnFiles s2 = nnFiles s \<and> nnResolved s2 = nnResolved s \<and> nnPending s2 = nnPending s \<and>
      nnState s2 = nnState s \<and> nnSaved s2 = nnSaved s"
    by (auto simp: Let_def try_call_def split: if_splits)
  then show ?case using Cons.IH [of errs2 s2] Cons.prems mid by simp
qed simp

lemma write_files_Nil:
  "write_files E old fs (errs, s) = ([], s1) \<Longrightarrow> distinct (map fst fs) \<Longrightarrow>
   errs = [] \<and>
   (\<forall>f. map_of (nnFiles s1) f =
      (case map_of fs f of None \<Rightarrow> map_of (nnFiles s) f | Some c \<Rightarrow> if old_text old f = c then map_of (nnFiles s) f else Some c)) \<and>
   nnResolved s1 = nnResolved s \<and> nnPending s1 = nnPending s \<and> nnState s1 = nnState s \<and>
   (distinct (map fst (nnFiles s)) \<longrightarrow> distinct (map fst (nnFiles s1)))"
proof (induction fs arbitrary: errs s)
  case (Cons x fs)
  obtain f c where x: "x = (f, c)" by fastforce
  let ?mid = "if old_text old f = c then (errs, s)
        else try_call E (WriteFile f c) (\<lambda>s. s\<lparr>nnFiles := AList.update f c (nnFiles s)\<rparr>) (errs, s)"
  obtain errs2 s2 where mid: "?mid = (errs2, s2)" by fastforce
  then have rest: "write_files E old fs (errs2, s2) = ([], s1)" using Cons.prems(1) x by simp
  note IH = Cons.IH [OF rest]
  have "errs2 = []" using IH Cons.prems(2) by simp
  then have "errs = []" and s2: "nnFiles s2 = (if old_text old f = c then nnFiles s else AList.update f c (nnFiles s))"
    and frame: "nnResolved s2 = nnResolved s" "nnPending s2 = nnPending s" "nnState s2 = nnState s"
    using mid by (auto split: if_splits dest!: attempt_Nil)
  have "map_of (nnFiles s2) g = (if g = f \<and> old_text old f \<noteq> c then Some c else map_of (nnFiles s) g)" for g
    unfolding s2 by (simp add: update_conv')
  moreover have "map_of fs f = None" using Cons.prems(2) x by (simp add: map_of_eq_None_iff)
  ultimately have "map_of (nnFiles s1) g =
      (case map_of (x # fs) g of None \<Rightarrow> map_of (nnFiles s) g | Some c \<Rightarrow> if old_text old g = c then map_of (nnFiles s) g else Some c)" for g
    using IH Cons.prems(2) x by (auto split: option.splits)
  moreover have "distinct (map fst (nnFiles s)) \<longrightarrow> distinct (map fst (nnFiles s1))"
    using IH Cons.prems(2) distinct_update [of "nnFiles s" f c] by (auto simp: s2 split: if_splits)
  ultimately show ?case using IH frame \<open>errs = []\<close> Cons.prems(2) by simp
qed simp

lemma remove_files_Nil:
  "remove_files E new fs (errs, s) = ([], s1) \<Longrightarrow>
   errs = [] \<and>
   (\<forall>f. map_of (nnFiles s1) f = (if f \<in> fst ` set fs \<and> \<not> has_key new f then None else map_of (nnFiles s) f)) \<and>
   nnResolved s1 = nnResolved s \<and> nnPending s1 = nnPending s \<and> nnState s1 = nnState s \<and>
   (distinct (map fst (nnFiles s)) \<longrightarrow> distinct (map fst (nnFiles s1)))"
proof (induction fs arbitrary: errs s)
  case (Cons x fs)
  obtain f c where x: "x = (f, c)" by fastforce
  let ?mid = "if has_key new f then (errs, s) else try_call E (RemoveFile f) (\<lambda>s. s\<lparr>nnFiles := AList.delete f (nnFiles s)\<rparr>) (errs, s)"
  obtain errs2 s2 where mid: "?mid = (errs2, s2)" by fastforce
  then have rest: "remove_files E new fs (errs2, s2) = ([], s1)" using Cons.prems(1) x by simp
  note IH = Cons.IH [OF rest]
  have "errs2 = []" using IH by simp
  then have "errs = []" and s2: "nnFiles s2 = (if has_key new f then nnFiles s else AList.delete f (nnFiles s))"
    and frame: "nnResolved s2 = nnResolved s" "nnPending s2 = nnPending s" "nnState s2 = nnState s"
    using mid by (auto split: if_splits dest!: attempt_Nil)
  have "map_of (nnFiles s2) g = (if g = f \<and> \<not> has_key new f then None else map_of (nnFiles s) g)" for g
    unfolding s2 by (simp add: delete_conv')
  then have "map_of (nnFiles s1) g = (if g \<in> fst ` set (x # fs) \<and> \<not> has_key new g then None else map_of (nnFiles s) g)" for g
    using IH x by auto
  moreover have "distinct (map fst (nnFiles s)) \<longrightarrow> distinct (map fst (nnFiles s1))"
    using IH distinct_delete [of "nnFiles s" f] by (auto simp: s2 split: if_splits)
  ultimately show ?case using IH frame \<open>errs = []\<close> by simp
qed simp


definition resolver_text :: "net_node \<Rightarrow> string" where
  "resolver_text s = (case nnResolved s of None \<Rightarrow> [] | Some t \<Rightarrow> t)"

lemma applyDNS_Nil:
  assumes "applyDNS E d (errs, s) = ([], s1)"
  shows "errs = [] \<and> resolver_text s1 = render_dns d \<and>
    nnFiles s1 = nnFiles s \<and> nnState s1 = nnState s \<and> nnPending s1 = nnPending s"
proof -
  note then_attempt_def [simp] and Let_def [simp]
  have "errs = []" using assms by (auto simp: applyDNS_def split: if_splits)
  moreover have "resolver_text s1 = render_dns d"
    using assms by (auto simp: applyDNS_def resolver_text_def split: if_splits)
  moreover have "nnFiles s1 = nnFiles s \<and> nnState s1 = nnState s \<and> nnPending s1 = nnPending s"
    using assms by (auto simp: applyDNS_def split: if_splits)
  ultimately show ?thesis by simp
qed

lemma look_at_frame:
  "look_at E ls s = (there, s1) \<Longrightarrow>
   nnFiles s1 = nnFiles s \<and> nnState s1 = nnState s \<and> nnResolved s1 = nnResolved s \<and> nnPending s1 = nnPending s"
  by (induction ls arbitrary: s there) (auto split: prod.splits if_splits)

lemma await_frame:
  "nnFiles (await_links E ls n s) = nnFiles s" "nnState (await_links E ls n s) = nnState s"
  "nnResolved (await_links E ls n s) = nnResolved s" "nnPending (await_links E ls n s) = nnPending s"
  by (induction n arbitrary: s) (auto split: prod.splits dest: look_at_frame)

lemma reload_Nil:
  "reload_networkd E aff again next (errs, s) = (errs1, s1) \<Longrightarrow>
   (errs1 = [] \<longrightarrow> errs = []) \<and>
   nnFiles s1 = nnFiles s \<and> nnState s1 = nnState s \<and> nnResolved s1 = nnResolved s \<and> nnPending s1 = nnPending s"
  using look_at_frame [of E aff "await_links E (map fst (neBonds next)) 50 (called (if again then NetworkRestart else NetworkReload) s)"]
  by (fastforce simp: reload_networkd_def Let_def await_frame try_call_def split: if_splits prod.splits)

section \<open>The names of the files\<close>

lemma file_names:
  "netdev_file n = netdev_file m \<longleftrightarrow> n = m" "network_file n = network_file m \<longleftrightarrow> n = m" "netdev_file n \<noteq> network_file m"
proof -
  show "netdev_file n = netdev_file m \<longleftrightarrow> n = m" "network_file n = network_file m \<longleftrightarrow> n = m"
    by (simp_all add: netdev_file_def network_file_def)
  have "last (netdev_file n) \<noteq> last (network_file m)" by (simp add: netdev_file_def network_file_def)
  then show "netdev_file n \<noteq> network_file m" by metis
qed

lemma render_names:
  "map fst (render s) = map netdev_file (map fst (neVLANs s)) @ map netdev_file (map fst (neBonds s)) @
     map network_file (named_interfaces s)"
  by (simp add: render_def comp_def case_prod_beta)

definition unique_names :: "net_state \<Rightarrow> bool" where
  "unique_names s \<longleftrightarrow> distinct (map fst (neInterfaces s)) \<and> distinct (map fst (neBonds s)) \<and> distinct (map fst (neVLANs s))"

lemma distinct_files:
  "distinct vs \<Longrightarrow> distinct bs \<Longrightarrow> set vs \<inter> set bs = {} \<Longrightarrow> distinct ns \<Longrightarrow>
   distinct (map netdev_file vs @ map netdev_file bs @ map network_file ns)"
  using file_names(3) by (auto simp: distinct_map inj_on_def file_names)

lemma render_distinct:
  assumes "ValidateNet s = None" and "unique_names s"
  shows "distinct (map fst (render s))"
proof -
  have "set (map fst (neVLANs s)) \<inter> set (map fst (neBonds s)) = {}"
  proof -
    have "\<not> has_key (neBonds s) n" if "(n, v) \<in> set (neVLANs s)" for n v
      using check_vlans_None [OF Validate_parts(3) [OF assms(1)] that] by simp
    then have "\<forall>x \<in> set (neVLANs s). map_of (neBonds s) (fst x) = None" by (auto simp: has_key_def)
    then show ?thesis by (auto simp: map_of_eq_None_iff)
  qed
  then show ?thesis
    unfolding render_names using assms(2) by (intro distinct_files) (simp_all add: unique_names_def named_interfaces_def)
qed

lemma render_ours: "(f, c) \<in> set (render s) \<Longrightarrow> ours f \<and> c \<noteq> []"
proof -
  assume f: "(f, c) \<in> set (render s)"
  then have "f \<in> set (map fst (render s))" by force
  then have "ours f" unfolding render_names by (auto simp: ours_def netdev_file_def network_file_def has_prefix_def)
  moreover have "c \<noteq> []"
    using f by (auto simp: render_def file_text_def vlan_netdev_def bond_netdev_def network_lines_def)
  ultimately show ?thesis by simp
qed

text \<open>The directory holds the files of a state, and nothing else of the daemon.\<close>

definition installed :: "net_state \<Rightarrow> net_node \<Rightarrow> bool" where
  "installed t s \<longleftrightarrow>
     (\<forall>f. ours f \<longrightarrow> map_of (nnFiles s) f = map_of (render t) f) \<and>
     resolver_text s = render_dns (neDNS t)"

lemma apply_state_installs:
  assumes "apply_state E prev next s = ([], s1)" and "ValidateNet next = None" and "unique_names next"
    and "distinct (map fst (nnFiles s))"
  shows "installed next s1 \<and> nnState s1 = next \<and> nnPending s1 = nnPending s \<and> distinct (map fst (nnFiles s1)) \<and>
    (\<forall>f. \<not> ours f \<longrightarrow> map_of (nnFiles s1) f = map_of (nnFiles s) f)"
proof -
  define old where "old = old_files E (called ReadDir s)"
  obtain errs2 s2 where del: "delete_links E (changedDevices prev next) ([], called ReadDir s) = (errs2, s2)" by fastforce
  obtain errs3 s3 where save: "saveState E next (remove_files E (render next) old
      (write_files E old (render next) (errs2, called MakeDir s2))) = (errs3, s3)" by fastforce
  have run: "reload_networkd E (affected old prev next) (recreated prev next) next
      (applyDNS E (neDNS next) (errs3, s3\<lparr>nnState := next\<rparr>)) = ([], s1)"
    using assms(1) del save by (simp add: apply_state_def Let_def old_def split: if_splits)
  obtain errs4 s4 where dns: "applyDNS E (neDNS next) (errs3, s3\<lparr>nnState := next\<rparr>) = (errs4, s4)" by fastforce
  have "errs4 = []" and last: "nnFiles s1 = nnFiles s4" "nnState s1 = nnState s4" "nnResolved s1 = nnResolved s4" "nnPending s1 = nnPending s4"
    using reload_Nil [OF run [unfolded dns]] by simp_all
  then have dns: "applyDNS E (neDNS next) (errs3, s3\<lparr>nnState := next\<rparr>) = ([], s4)" using dns by simp
  note d = applyDNS_Nil [OF dns]
  obtain errs5 s5 where rem: "remove_files E (render next) old (write_files E old (render next) (errs2, called MakeDir s2)) = (errs5, s5)"
    by fastforce
  have five: "errs5 = []" and three: "nnFiles s3 = nnFiles s5" "nnPending s3 = nnPending s5"
    using d save rem by (auto simp: saveState_def dest!: attempt_Nil)
  obtain errs6 s6 where wr: "write_files E old (render next) (errs2, called MakeDir s2) = (errs6, s6)" by fastforce
  note r = remove_files_Nil [OF rem [unfolded wr five]]
  then have wr: "write_files E old (render next) (errs2, called MakeDir s2) = ([], s6)" using wr by simp
  note w = write_files_Nil [OF wr render_distinct [OF assms(2,3)]]
  have two: "nnFiles s2 = nnFiles s" "nnPending s2 = nnPending s" using delete_links_Nil [OF del] by simp_all
  have files: "map_of (nnFiles s1) f = (if f \<in> fst ` set old \<and> \<not> has_key (render next) f then None
      else case map_of (render next) f of None \<Rightarrow> map_of (nnFiles s) f
        | Some c \<Rightarrow> if old_text old f = c then map_of (nnFiles s) f else Some c)" for f
    using last(1) d three(1) r w two by (simp split: option.split)
  have old: "map_of old f = (if ours f then map_option (\<lambda>t. if noUnreadable E f then [] else t) (map_of (nnFiles s) f) else None)" for f
  proof -
    have "map_of (map (\<lambda>(f, t). (f, if noUnreadable E f then [] else t)) (filter (\<lambda>(f, t). ours f) xs)) f =
        (if ours f then map_option (\<lambda>t. if noUnreadable E f then [] else t) (map_of xs f) else None)" for xs :: "(string \<times> string) list"
      by (induction xs) auto
    then show ?thesis by (simp add: old_def old_files_def)
  qed
  have keep: "map_of (nnFiles s) f = Some c" if "old_text old f = c" "map_of (render next) f = Some c" for f c
  proof -
    have "c \<noteq> []" using render_ours map_of_SomeD [OF that(2)] by blast
    then show ?thesis using that(1) old [of f] by (auto simp: old_text_def split: option.splits if_splits)
  qed
  have "map_of (nnFiles s1) f = map_of (render next) f" if "ours f" for f
  proof (cases "map_of (render next) f")
    case None
    have "f \<in> fst ` set old \<or> map_of (nnFiles s) f = None"
    proof (cases "map_of (nnFiles s) f")
      case (Some t)
      then have "\<exists>u. map_of old f = Some u" using old [of f] that by simp
      then show ?thesis using map_of_SomeD [of old f] by force
    qed simp
    then show ?thesis using files [of f] None by (auto simp: has_key_def)
  next
    case (Some c)
    then show ?thesis using files [of f] keep [of f c] by (auto simp: has_key_def)
  qed
  moreover have "map_of (nnFiles s1) f = map_of (nnFiles s) f" if "\<not> ours f" for f
  proof -
    have "map_of (render next) f = None" using render_ours that by (auto simp: map_of_eq_None_iff)
    moreover have "f \<notin> fst ` set old" using old [of f] that by (simp add: map_of_eq_None_iff)
    ultimately show ?thesis using files [of f] by simp
  qed
  moreover have "nnState s1 = next" "nnPending s1 = nnPending s" "distinct (map fst (nnFiles s1))"
    using last d three r w two assms(4) by simp_all
  moreover have "resolver_text s1 = render_dns (neDNS next)"
    using last d by (simp add: resolver_text_def)
  ultimately show ?thesis by (simp add: installed_def)
qed

text \<open>
  C24. An application that reports no error leaves exactly the files of the new state, and no other file of the
  daemon: files of earlier versions and of the state before are gone, the files of the distribution are untouched.
\<close>

theorem apply_installs:
  assumes "apply_state E prev next s = ([], s1)" and "ValidateNet next = None" and "unique_names next"
    and "distinct (map fst (nnFiles s))"
  shows "installed next s1 \<and> nnState s1 = next \<and> nnPending s1 = nnPending s \<and> distinct (map fst (nnFiles s1)) \<and>
    (\<forall>f. \<not> ours f \<longrightarrow> map_of (nnFiles s1) f = map_of (nnFiles s) f)"
  by (rule apply_state_installs [OF assms])

section \<open>Changes that wait for confirmation\<close>

text \<open>
  C25. When a change waiting for confirmation was applied and then taken back, both without failure, the state is
  the one from before, and the directory and the resolver settings are the rendering of that state, whatever stood
  there; where they were that rendering already, every file and the resolver settings are what they were. Files that
  are not the daemon's are never touched.
\<close>

theorem revert_restores:
  assumes "ApplyPending E next t s = (None, s1)" and "RevertPending E s1 = (None, s2)"
    and "ValidateNet (nnState s) = None" and "unique_names (nnState s)" and "unique_names next"
    and "distinct (map fst (nnFiles s))"
  shows "nnState s2 = nnState s \<and> installed (nnState s) s2 \<and> (\<forall>f. \<not> ours f \<longrightarrow> map_of (nnFiles s2) f = map_of (nnFiles s) f) \<and>
         (installed (nnState s) s \<longrightarrow> map_of (nnFiles s2) = map_of (nnFiles s) \<and> resolver_text s2 = resolver_text s)"
proof -
  have valid: "ValidateNet next = None" using assms(1) by (simp add: ApplyPending_def split: option.splits)
  obtain s3 where written: "try_call E (WritePending (nnState s) t) (\<lambda>s'. s'\<lparr>nnPending := Pending (nnState s) t\<rparr>) ([], called StatPending s) = ([], s3)"
      and app: "apply_state E (nnState s) next s3 = ([], s1)"
    using assms(1) valid by (auto simp: ApplyPending_def Let_def split: if_splits prod.splits list.splits)
  have s3: "nnFiles s3 = nnFiles s" "nnPending s3 = Pending (nnState s) t"
    using attempt_Nil [OF written] by simp_all
  note one = apply_state_installs [OF app valid assms(5)]
  have pend: "nnPending s1 = Pending (nnState s) t" and files: "distinct (map fst (nnFiles s1))"
      "\<forall>f. \<not> ours f \<longrightarrow> map_of (nnFiles s1) f = map_of (nnFiles s) f"
    using one s3 assms(6) by simp_all
  obtain s4 where rev: "apply_state E (nnState s1) (nnState s) (called ReadPending s1) = ([], s4)" and s2: "s2 = drop_pending E s4"
    using assms(2) pend by (auto simp: RevertPending_def Let_def failure_of_def split: if_splits prod.splits)
  have same: "nnFiles s2 = nnFiles s4" "nnState s2 = nnState s4" "nnResolved s2 = nnResolved s4"
    unfolding s2 drop_pending_def try_call_def by simp_all
  note two = apply_state_installs [OF rev assms(3,4)]
  have left: "nnState s2 = nnState s" "installed (nnState s) s2" "\<forall>f. \<not> ours f \<longrightarrow> map_of (nnFiles s2) f = map_of (nnFiles s) f"
    using two files same by (simp_all add: installed_def resolver_text_def)
  moreover have "map_of (nnFiles s2) = map_of (nnFiles s) \<and> resolver_text s2 = resolver_text s" if "installed (nnState s) s"
  proof (intro conjI ext)
    show "map_of (nnFiles s2) f = map_of (nnFiles s) f" for f
      using left that by (cases "ours f") (simp_all add: installed_def)
    show "resolver_text s2 = resolver_text s" using left that by (simp add: installed_def)
  qed
  ultimately show ?thesis by blast
qed

text \<open>
  While a change waits no other one is applied: the second request is refused and changes nothing.
\<close>

theorem one_pending_change:
  assumes "nnPending s \<noteq> NoPending" and "noOK E (nnTrace s) StatPending"
  shows "fst (ApplyPending E next t s) \<noteq> None \<and> nnFiles (snd (ApplyPending E next t s)) = nnFiles s \<and>
    nnState (snd (ApplyPending E next t s)) = nnState s \<and> nnPending (snd (ApplyPending E next t s)) = nnPending s"
  using assms by (auto simp: ApplyPending_def Let_def net_ok_def split: option.split)


section \<open>When nothing fails\<close>

lemma try_call_ok: "\<forall>tr c. noOK E tr c \<Longrightarrow> try_call E c f (errs, s) = (errs, f (called c s))"
  by (simp add: try_call_def net_ok_def)

lemma keeps_errors:
  assumes "\<forall>tr c. noOK E tr c"
  shows "fst (delete_links E ds r) = fst r" "fst (write_files E old fs r) = fst r" "fst (remove_files E new fs r) = fst r"
proof -
  show "fst (delete_links E ds r) = fst r"
    using assms by (induction E ds r rule: delete_links.induct) (simp_all add: try_call_ok Let_def net_ok_def)
  show "fst (write_files E old fs r) = fst r"
    using assms by (induction fs arbitrary: r) (auto simp: try_call_ok)
  show "fst (remove_files E new fs r) = fst r"
    using assms by (induction fs arbitrary: r) (auto simp: try_call_ok)
qed

text \<open>
  An application reports a failure only when one of its steps failed: with every call succeeding it ends without one.
\<close>

theorem apply_succeeds:
  assumes "\<forall>tr c. noOK E tr c"
  shows "fst (apply_state E prev next s) = []"
proof -
  have "fst (applyDNS E d r) = fst r" for d r
    using assms by (cases r) (simp add: applyDNS_def then_attempt_def net_ok_def Let_def)
  moreover have "fst (reload_networkd E aff again next r) = fst r" for aff again r
    using assms by (cases r) (simp add: reload_networkd_def try_call_ok net_ok_def Let_def split: prod.split)
  moreover have "fst (saveState E next r) = fst r" for r
    using assms by (cases r) (simp add: saveState_def try_call_ok)
  ultimately show ?thesis
    using assms keeps_errors [OF assms] by (simp add: apply_state_def net_ok_def Let_def case_prod_beta)
qed

section \<open>A sample node\<close>

definition calm_network :: net_env where
  "calm_network = \<lparr>noOK = (\<lambda>tr c. True), noUnreadable = (\<lambda>f. False), noNetworkd = True\<rparr>"

definition fresh_network :: net_node where
  "fresh_network =
     \<lparr>nnFiles = [(''50-dplane-eth0.network'', ''old''), (''99-default.network'', ''dist'')], nnState = no_network, nnSaved = None,
      nnResolved = None, nnPending = NoPending, nnTrace = []\<rparr>"

lemma calm_network_ok: "\<forall>tr c. noOK calm_network tr c"
  by (simp add: calm_network_def)

lemma sample_unique: "unique_names sample_network" "unique_names no_network" "ValidateNet no_network = None"
  by (simp_all add: unique_names_def sample_network_def no_network_def ValidateNet_def)

lemma apply_succeeds_witness: "fst (apply_state calm_network no_network sample_network fresh_network) = []"
  by (rule apply_succeeds [OF calm_network_ok])

lemma apply_installs_witness:
  "map_of (nnFiles (snd (apply_state calm_network no_network sample_network fresh_network))) ''50-dplane-eth0.network'' = None \<and>
   map_of (nnFiles (snd (apply_state calm_network no_network sample_network fresh_network))) ''99-default.network'' = Some ''dist''"
proof -
  have "fst (apply_state calm_network no_network sample_network fresh_network) = []"
    using calm_network_ok by (simp add: apply_succeeds)
  then have "apply_state calm_network no_network sample_network fresh_network =
      ([], snd (apply_state calm_network no_network sample_network fresh_network))"
    by (metis prod.collapse)
  from apply_installs [OF this sample_network_valid sample_unique(1)]
  have "map_of (nnFiles (snd (apply_state calm_network no_network sample_network fresh_network))) ''50-dplane-eth0.network'' =
      map_of (render sample_network) ''50-dplane-eth0.network''"
    "map_of (nnFiles (snd (apply_state calm_network no_network sample_network fresh_network))) ''99-default.network'' = Some ''dist''"
    by (simp_all add: fresh_network_def installed_def ours_def has_prefix_def FilePrefix_def legacyPrefix_def)
  moreover have "map_of (render sample_network) ''50-dplane-eth0.network'' = None"
    unfolding map_of_eq_None_iff by (auto simp: render_def netdev_file_def network_file_def FilePrefix_def)
  ultimately show ?thesis by simp
qed

lemma calm_ApplyPending: "ValidateNet next = None \<Longrightarrow> nnPending s = NoPending \<Longrightarrow> fst (ApplyPending calm_network next t s) = None"
  by (simp add: ApplyPending_def Let_def try_call_ok [OF calm_network_ok])
     (smt (verit) apply_succeeds calm_network_ok case_prod_conv fst_conv list.simps(4) surj_pair)


lemma calm_RevertPending: "nnPending s = Pending prev t \<Longrightarrow> fst (RevertPending calm_network s) = None"
  using apply_succeeds [OF calm_network_ok, of "nnState s" prev "called ReadPending s"] calm_network_ok
  by (auto simp: RevertPending_def Let_def failure_of_def net_ok_def split: prod.split)

lemma revert_restores_witness:
  "\<exists>s1 s2. ApplyPending calm_network sample_network 60 fresh_network = (None, s1) \<and> RevertPending calm_network s1 = (None, s2) \<and>
     nnState s1 = sample_network \<and> installed no_network s2 \<and> nnState s2 = no_network"
proof -
  obtain s1 where one: "ApplyPending calm_network sample_network 60 fresh_network = (None, s1)"
    using calm_ApplyPending [OF sample_network_valid, of fresh_network 60] by (cases "ApplyPending calm_network sample_network 60 fresh_network")
      (auto simp: fresh_network_def)
  then obtain s3 where "try_call calm_network (WritePending no_network 60) (\<lambda>s'. s'\<lparr>nnPending := Pending no_network 60\<rparr>)
        ([], called StatPending fresh_network) = ([], s3)" "apply_state calm_network no_network sample_network s3 = ([], s1)"
    using sample_network_valid
    by (auto simp: ApplyPending_def Let_def fresh_network_def split: if_splits prod.splits list.splits)
  then have "nnPending s1 = Pending no_network 60" "nnState s1 = sample_network"
    using apply_state_installs [OF _ sample_network_valid sample_unique(1)] attempt_Nil [of calm_network]
    by (fastforce simp: fresh_network_def)+
  then obtain s2 where "RevertPending calm_network s1 = (None, s2)"
    using calm_RevertPending [of s1] by (cases "RevertPending calm_network s1") auto
  moreover from this have "installed (nnState fresh_network) s2 \<and> nnState s2 = nnState fresh_network"
    using revert_restores [OF one, of s2] sample_unique by (simp add: fresh_network_def)
  ultimately show ?thesis using one \<open>nnState s1 = sample_network\<close> by (auto simp: fresh_network_def)
qed

lemma one_pending_change_witness:
  "nnPending (snd (ApplyPending calm_network sample_network 60 (fresh_network\<lparr>nnPending := Pending sample_network 30\<rparr>))) = Pending sample_network 30"
  using one_pending_change [of "fresh_network\<lparr>nnPending := Pending sample_network 30\<rparr>" calm_network sample_network 60]
  by (simp add: calm_network_def)

end
