(* ===== verification/GitNetwork.thy ===== *)
theory GitNetwork
  imports GitDiff NetWriter
begin

text \<open>
  Network settings of GitOps (\<open>gitops/network.go\<close>): the declared system laid over the current network state, and
  the network state as the live system shows it.
\<close>

definition isDevice :: "net_state \<Rightarrow> string \<Rightarrow> bool" where
  "isDevice s n \<longleftrightarrow> has_key (neBonds s) n \<or> has_key (neVLANs s) n"

text \<open>A static address that is no longer declared goes; an interface with nothing else left goes with it.\<close>

definition undeclare_static :: "net_state \<Rightarrow> (string \<times> net_static) list \<Rightarrow> string \<times> iface_conf \<Rightarrow> (string \<times> iface_conf) list" where
  "undeclare_static s statics = (\<lambda>(n, c).
     if has_key statics n \<or> ifAddresses c = [] then [(n, c)]
     else if ifDHCP c \<or> ifRoutes c \<noteq> [] \<or> isDevice s n then [(n, c\<lparr>ifAddresses := [], ifGateway := []\<rparr>)]
     else [])"

definition set_static :: "string \<times> net_static \<Rightarrow> (string \<times> iface_conf) list \<Rightarrow> (string \<times> iface_conf) list" where
  "set_static = (\<lambda>(n, st) is.
     let c = (case map_of is n of None \<Rightarrow> no_iface | Some c \<Rightarrow> c) in
     AList.update n (c\<lparr>ifDHCP := False, ifAddresses := [stCIDR st], ifGateway := stGateway st\<rparr>) is)"

definition set_bond :: "string \<times> net_bond \<Rightarrow> net_state \<Rightarrow> net_state" where
  "set_bond = (\<lambda>(n, b) s.
     s\<lparr>neBonds := AList.update n \<lparr>boMode = bdMode b, boSlaves = bdSlaves b\<rparr> (neBonds s),
       neInterfaces := fold AList.delete (bdSlaves b) (neInterfaces s)\<rparr>)"

definition set_vlan :: "string \<times> net_vlan \<Rightarrow> net_state \<Rightarrow> net_state" where
  "set_vlan = (\<lambda>(n, v) s. s\<lparr>neVLANs := AList.update n \<lparr>vaParent = vlParent v, vaID = vlVID v\<rparr> (neVLANs s)\<rparr>)"

text \<open>No statics declared stands for the map being absent: then no address is removed.\<close>

definition desiredNetworkState :: "net_state \<Rightarrow> desired_system \<Rightarrow> net_state" where
  "desiredNetworkState cur ds =
     (let kept = (if dyStatics ds = [] then neInterfaces cur
                  else concat (map (undeclare_static cur (dyStatics ds)) (neInterfaces cur)));
          s1 = cur\<lparr>neInterfaces := fold set_static (dyStatics ds) kept\<rparr>;
          s2 = fold set_vlan (dyVLANs ds) (fold set_bond (dyBonds ds) s1) in
      if dyDNS ds \<noteq> [] then s2\<lparr>neDNS := (neDNS s2)\<lparr>nsServers := dyDNS ds\<rparr>\<rparr> else s2)"

definition live_static :: "string \<times> iface_conf \<Rightarrow> (string \<times> net_static) list" where
  "live_static = (\<lambda>(n, c). case ifAddresses c of [] \<Rightarrow> [] | a # _ \<Rightarrow> [(n, \<lparr>stCIDR = a, stGateway = ifGateway c\<rparr>)])"

definition overlayLiveNetwork :: "net_state \<Rightarrow> live_system \<Rightarrow> live_system" where
  "overlayLiveNetwork s l =
     l\<lparr>lyDNS := nsServers (neDNS s), lyStatics := concat (map live_static (neInterfaces s)),
       lyBonds := map (\<lambda>(n, b). (n, \<lparr>bdSlaves = boSlaves b, bdMode = boMode b\<rparr>)) (neBonds s),
       lyVLANs := map (\<lambda>(n, v). (n, \<lparr>vlParent = vaParent v, vlVID = vaID v\<rparr>)) (neVLANs s)\<rparr>"

section \<open>What is declared is what is shown\<close>

lemma fold_set_static:
  "distinct (map fst sts) \<Longrightarrow>
   map_of (fold set_static sts is) n =
     (case map_of sts n of
        None \<Rightarrow> map_of is n
      | Some st \<Rightarrow> Some ((case map_of is n of None \<Rightarrow> no_iface | Some c \<Rightarrow> c)
          \<lparr>ifDHCP := False, ifAddresses := [stCIDR st], ifGateway := stGateway st\<rparr>))"
proof (induction sts arbitrary: "is")
  case (Cons x sts)
  obtain m st where x: "x = (m, st)" by fastforce
  have "map_of sts m = None" using Cons.prems x by (simp add: map_of_eq_None_iff)
  then show ?case using Cons.IH [of "set_static x is"] Cons.prems x
    by (auto simp: set_static_def Let_def update_conv' split: option.split)
qed simp

lemma map_of_fold_delete: "map_of (fold AList.delete ks is) n = (if n \<in> set ks then None else map_of is n)"
  by (induction ks arbitrary: "is") (auto simp: delete_conv')

lemma fold_set_bond:
  "distinct (map fst bs) \<Longrightarrow>
   map_of (neBonds (fold set_bond bs s)) n =
     (case map_of bs n of None \<Rightarrow> map_of (neBonds s) n | Some b \<Rightarrow> Some \<lparr>boMode = bdMode b, boSlaves = bdSlaves b\<rparr>) \<and>
   map_of (neInterfaces (fold set_bond bs s)) n =
     (if \<exists>b \<in> snd ` set bs. n \<in> set (bdSlaves b) then None else map_of (neInterfaces s) n) \<and>
   neVLANs (fold set_bond bs s) = neVLANs s \<and> neDNS (fold set_bond bs s) = neDNS s"
proof (induction bs arbitrary: s)
  case (Cons x bs)
  obtain m b where x: "x = (m, b)" by fastforce
  have "map_of bs m = None" using Cons.prems x by (simp add: map_of_eq_None_iff)
  then show ?case using Cons.IH [of "set_bond x s"] Cons.prems x
    by (auto simp: set_bond_def update_conv' map_of_fold_delete split: option.split)
qed simp

lemma fold_set_vlan:
  "distinct (map fst vs) \<Longrightarrow>
   map_of (neVLANs (fold set_vlan vs s)) n =
     (case map_of vs n of None \<Rightarrow> map_of (neVLANs s) n | Some v \<Rightarrow> Some \<lparr>vaParent = vlParent v, vaID = vlVID v\<rparr>) \<and>
   neInterfaces (fold set_vlan vs s) = neInterfaces s \<and> neBonds (fold set_vlan vs s) = neBonds s \<and>
   neDNS (fold set_vlan vs s) = neDNS s"
proof (induction vs arbitrary: s)
  case (Cons x vs)
  obtain m v where x: "x = (m, v)" by fastforce
  have "map_of vs m = None" using Cons.prems x by (simp add: map_of_eq_None_iff)
  then show ?case using Cons.IH [of "set_vlan x s"] Cons.prems x
    by (auto simp: set_vlan_def update_conv' split: option.split)
qed simp

lemma map_of_static:
  "distinct (map fst is) \<Longrightarrow>
   map_of (concat (map live_static is)) n =
     (case map_of is n of None \<Rightarrow> None
      | Some c \<Rightarrow> (case ifAddresses c of [] \<Rightarrow> None | a # _ \<Rightarrow> Some \<lparr>stCIDR = a, stGateway = ifGateway c\<rparr>))"
proof (induction "is")
  case (Cons x "is")
  obtain m c where x: "x = (m, c)" by fastforce
  have "map_of is m = None" using Cons.prems x by (simp add: map_of_eq_None_iff)
  then show ?case using Cons x by (auto simp: live_static_def map_add_def split: list.splits option.splits)
qed simp

lemma map_of_undeclare:
  "distinct (map fst is) \<Longrightarrow>
   map_of (concat (map (undeclare_static s sts) is)) n = Option.bind (map_of is n) (\<lambda>c. map_of (undeclare_static s sts (n, c)) n)"
proof (induction "is")
  case (Cons x "is")
  obtain m c where x: "x = (m, c)" by fastforce
  have "map_of is m = None" using Cons.prems x by (simp add: map_of_eq_None_iff)
  then show ?case using Cons x by (auto simp: undeclare_static_def map_add_def split: option.splits)
qed simp

lemma undeclare_one: "fst ` set (undeclare_static s sts x) \<subseteq> {fst x} \<and> distinct (map fst (undeclare_static s sts x))"
  by (cases x) (simp add: undeclare_static_def)

lemma keys_undeclare: "fst ` set (concat (map (undeclare_static s sts) is)) \<subseteq> fst ` set is"
proof
  fix k assume "k \<in> fst ` set (concat (map (undeclare_static s sts) is))"
  then obtain x y where "x \<in> set is" "y \<in> set (undeclare_static s sts x)" "k = fst y" by auto
  then show "k \<in> fst ` set is" using undeclare_one [of s sts x] by blast
qed

lemma distinct_undeclare: "distinct (map fst is) \<Longrightarrow> distinct (map fst (concat (map (undeclare_static s sts) is)))"
proof (induction "is")
  case (Cons x "is")
  have "fst x \<notin> fst ` set is" using Cons.prems by simp
  then have new: "fst x \<notin> fst ` set (concat (map (undeclare_static s sts) is))" by (rule contra_subsetD [OF keys_undeclare])
  have disj: "fst ` set (undeclare_static s sts x) \<inter> fst ` set (concat (map (undeclare_static s sts) is)) = {}"
  proof (rule equals0I)
    fix k assume k: "k \<in> fst ` set (undeclare_static s sts x) \<inter> fst ` set (concat (map (undeclare_static s sts) is))"
    have "k = fst x" using subsetD [OF conjunct1 [OF undeclare_one] IntD1 [OF k]] by (rule singletonD)
    then show False using IntD2 [OF k] new by (simp only:)
  qed
  have rest: "distinct (map fst (concat (map (undeclare_static s sts) is)))" using Cons by simp
  have one: "distinct (map fst (undeclare_static s sts x))" using undeclare_one by blast
  show ?case
    by (simp only: list.map concat.simps map_append distinct_append set_map disj rest one simp_thms)
qed simp

lemma distinct_fold_static: "distinct (map fst is) \<Longrightarrow> distinct (map fst (fold set_static sts is))"
  by (induction sts arbitrary: "is") (auto simp: set_static_def Let_def distinct_update)

lemma distinct_fold_delete: "distinct (map fst is) \<Longrightarrow> distinct (map fst (fold AList.delete ks is))"
  by (induction ks arbitrary: "is") (auto simp: distinct_delete)

lemma distinct_fold_bond: "distinct (map fst (neInterfaces s)) \<Longrightarrow> distinct (map fst (neInterfaces (fold set_bond bs s)))"
  by (induction bs arbitrary: s) (auto simp: set_bond_def distinct_fold_delete)

definition kept_interfaces :: "net_state \<Rightarrow> desired_system \<Rightarrow> (string \<times> iface_conf) list" where
  "kept_interfaces cur ds =
     (if dyStatics ds = [] then neInterfaces cur
      else concat (map (undeclare_static cur (dyStatics ds)) (neInterfaces cur)))"

definition unique_settings :: "desired_system \<Rightarrow> bool" where
  "unique_settings ds \<longleftrightarrow> distinct (map fst (dyStatics ds)) \<and> distinct (map fst (dyBonds ds)) \<and> distinct (map fst (dyVLANs ds))"

lemma desired_state_maps:
  assumes "unique_settings ds" and "unique_names cur"
  shows "map_of (neInterfaces (desiredNetworkState cur ds)) n =
      (if \<exists>b \<in> snd ` set (dyBonds ds). n \<in> set (bdSlaves b) then None
       else case map_of (dyStatics ds) n of
         None \<Rightarrow> map_of (kept_interfaces cur ds) n
       | Some st \<Rightarrow> Some ((case map_of (kept_interfaces cur ds) n of None \<Rightarrow> no_iface | Some c \<Rightarrow> c)
           \<lparr>ifDHCP := False, ifAddresses := [stCIDR st], ifGateway := stGateway st\<rparr>))"
    and "map_of (neBonds (desiredNetworkState cur ds)) n =
      (case map_of (dyBonds ds) n of None \<Rightarrow> map_of (neBonds cur) n | Some b \<Rightarrow> Some \<lparr>boMode = bdMode b, boSlaves = bdSlaves b\<rparr>)"
    and "map_of (neVLANs (desiredNetworkState cur ds)) n =
      (case map_of (dyVLANs ds) n of None \<Rightarrow> map_of (neVLANs cur) n | Some v \<Rightarrow> Some \<lparr>vaParent = vlParent v, vaID = vlVID v\<rparr>)"
    and "nsServers (neDNS (desiredNetworkState cur ds)) = (if dyDNS ds = [] then nsServers (neDNS cur) else dyDNS ds)"
    and "distinct (map fst (neInterfaces (desiredNetworkState cur ds)))"
proof -
  have u: "distinct (map fst (dyStatics ds))" "distinct (map fst (dyBonds ds))" "distinct (map fst (dyVLANs ds))"
    "distinct (map fst (neInterfaces cur))"
    using assms by (simp_all add: unique_settings_def unique_names_def)
  let ?s1 = "cur\<lparr>neInterfaces := fold set_static (dyStatics ds) (kept_interfaces cur ds)\<rparr>"
  let ?s2 = "fold set_vlan (dyVLANs ds) (fold set_bond (dyBonds ds) ?s1)"
  have fin: "neInterfaces (desiredNetworkState cur ds) = neInterfaces ?s2" "neBonds (desiredNetworkState cur ds) = neBonds ?s2"
    "neVLANs (desiredNetworkState cur ds) = neVLANs ?s2"
    "nsServers (neDNS (desiredNetworkState cur ds)) = (if dyDNS ds = [] then nsServers (neDNS ?s2) else dyDNS ds)"
    by (simp_all add: desiredNetworkState_def kept_interfaces_def Let_def)
  note v = fold_set_vlan [OF u(3), of "fold set_bond (dyBonds ds) ?s1"] and b = fold_set_bond [OF u(2), of ?s1]
  show "map_of (neInterfaces (desiredNetworkState cur ds)) n =
      (if \<exists>b \<in> snd ` set (dyBonds ds). n \<in> set (bdSlaves b) then None
       else case map_of (dyStatics ds) n of
         None \<Rightarrow> map_of (kept_interfaces cur ds) n
       | Some st \<Rightarrow> Some ((case map_of (kept_interfaces cur ds) n of None \<Rightarrow> no_iface | Some c \<Rightarrow> c)
           \<lparr>ifDHCP := False, ifAddresses := [stCIDR st], ifGateway := stGateway st\<rparr>))"
    unfolding fin using v [of n] b [of n] fold_set_static [OF u(1), of "kept_interfaces cur ds" n] by simp
  show "map_of (neBonds (desiredNetworkState cur ds)) n =
      (case map_of (dyBonds ds) n of None \<Rightarrow> map_of (neBonds cur) n | Some b \<Rightarrow> Some \<lparr>boMode = bdMode b, boSlaves = bdSlaves b\<rparr>)"
    unfolding fin using v [of n] b [of n] by (simp split: option.split)
  show "map_of (neVLANs (desiredNetworkState cur ds)) n =
      (case map_of (dyVLANs ds) n of None \<Rightarrow> map_of (neVLANs cur) n | Some v \<Rightarrow> Some \<lparr>vaParent = vlParent v, vaID = vlVID v\<rparr>)"
    unfolding fin using v [of n] b [of n] by (simp split: option.split)
  show "nsServers (neDNS (desiredNetworkState cur ds)) = (if dyDNS ds = [] then nsServers (neDNS cur) else dyDNS ds)"
    unfolding fin using v [of n] b [of n] by (simp split: option.split)
  have "distinct (map fst (kept_interfaces cur ds))"
    using u(4) distinct_undeclare by (simp add: kept_interfaces_def)
  then show "distinct (map fst (neInterfaces (desiredNetworkState cur ds)))"
    unfolding fin using v [of n] by (simp add: distinct_fold_bond distinct_fold_static)
qed

definition network_change :: "string \<Rightarrow> bool" where
  "network_change c \<longleftrightarrow> has_prefix c ''network-'' \<or> c = ''dns_servers changed''"

lemma network_change_hd: "network_change c \<Longrightarrow> take 2 c = ''ne'' \<or> take 2 c = ''dn''"
proof -
  assume "network_change c"
  then have "c = ''network-'' @ drop (length ''network-'') c \<or> c = ''dns_servers changed''"
    using has_prefixD [of c "''network-''"] by (auto simp only: network_change_def)
  then show ?thesis by (elim disjE) (metis append_Cons take_Suc_Cons take0 numeral_2_eq_2, simp)
qed

lemma noted_in: "c \<in> set (noted b x) \<Longrightarrow> c = x"
  by (cases b) (simp_all add: noted_def)

lemma other_changes:
  "c \<in> set (noted b (change ''hostname'' x y)) \<Longrightarrow> \<not> network_change c"
  "c \<in> set (noted b (change ''timezone'' x y)) \<Longrightarrow> \<not> network_change c"
  "c \<in> set (noted b ''ntp_servers changed'') \<Longrightarrow> \<not> network_change c"
  by (auto dest!: noted_in network_change_hd simp: change_def)

lemma port_no_network: "c \<in> set (port_changes proto ps qs) \<Longrightarrow> \<not> network_change c"
  by (auto dest!: network_change_hd simp: port_changes_def diffIntSlices_def)

lemma ssh_no_network: "c \<in> set (ssh_changes ds l) \<Longrightarrow> \<not> network_change c"
  by (cases "dySSHPassword ds")
     (auto dest!: noted_in network_change_hd simp: ssh_changes_def int_change_def change_def split: if_splits)

text \<open>
  C35. Declared network settings settle: once they are applied, the comparison shows no network change any more. This
  holds when static addresses are declared or no interface has one configured, when name servers are declared or none is
  configured, and when no declared address stands on a member of a declared bond (names are declared once each).
\<close>

theorem declared_network_settles:
  assumes "unique_settings ds" and "unique_names cur"
    and "\<forall>x \<in> set (dyBonds ds). set (bdSlaves (snd x)) \<inter> fst ` set (dyStatics ds) = {}"
    and "dyStatics ds = [] \<longrightarrow> (\<forall>x \<in> set (neInterfaces cur). ifAddresses (snd x) = [])"
    and "dyDNS ds = [] \<longrightarrow> nsServers (neDNS cur) = []"
  shows "list_all (\<lambda>c. \<not> network_change c) (diffSystem ds (overlayLiveNetwork (desiredNetworkState cur ds) l))"
proof -
  let ?l = "overlayLiveNetwork (desiredNetworkState cur ds) l"
  note maps = desired_state_maps [OF assms(1,2)]
  have statics: "map_of (lyStatics ?l) n = (case map_of (neInterfaces (desiredNetworkState cur ds)) n of None \<Rightarrow> None
      | Some c \<Rightarrow> (case ifAddresses c of [] \<Rightarrow> None | a # _ \<Rightarrow> Some \<lparr>stCIDR = a, stGateway = ifGateway c\<rparr>))" for n
    using map_of_static [OF maps(5)] by (simp add: overlayLiveNetwork_def)
  have declared: "static_changes (lyStatics ?l) (n, st) = []" if "(n, st) \<in> set (dyStatics ds)" for n st
  proof -
    have "map_of (dyStatics ds) n = Some st" using assms(1) that by (simp add: unique_settings_def)
    moreover have "\<not> (\<exists>b \<in> snd ` set (dyBonds ds). n \<in> set (bdSlaves b))" using assms(3) that by force
    ultimately have "map_of (lyStatics ?l) n = Some st" using statics [of n] maps(1) [of n] by simp
    then show ?thesis by (simp add: static_changes_def text_change_def noted_def)
  qed
  have removed: "n \<in> fst ` set (dyStatics ds)" if "n \<in> set (map fst (lyStatics ?l))" for n
  proof (rule ccontr)
    assume "n \<notin> fst ` set (dyStatics ds)"
    then have no: "map_of (dyStatics ds) n = None" by (simp add: map_of_eq_None_iff)
    obtain st where "map_of (lyStatics ?l) n = Some st" using \<open>n \<in> set (map fst (lyStatics ?l))\<close> map_of_eq_None_iff [of "lyStatics ?l" n] by auto
    then obtain c where c: "map_of (neInterfaces (desiredNetworkState cur ds)) n = Some c" "ifAddresses c \<noteq> []"
      using statics [of n] by (auto split: option.splits list.splits)
    then have kept: "map_of (kept_interfaces cur ds) n = Some c" using maps(1) [of n] no by (auto split: if_splits)
    show False
    proof (cases "dyStatics ds = []")
      case True
      then show False using kept c(2) assms(4) map_of_SomeD [of "neInterfaces cur" n c] by (auto simp: kept_interfaces_def)
    next
      case False
      then obtain d where "map_of (undeclare_static cur (dyStatics ds) (n, d)) n = Some c"
        using kept map_of_undeclare assms(2) by (auto simp: kept_interfaces_def unique_names_def split: Option.bind_splits)
      then show False using c(2) no by (auto simp: undeclare_static_def has_key_def split: if_splits)
    qed
  qed
  have bonds: "bond_changes (lyBonds ?l) (n, b) = []" if "(n, b) \<in> set (dyBonds ds)" for n b
  proof -
    have "map_of (dyBonds ds) n = Some b" using assms(1) that by (simp add: unique_settings_def)
    then have "map_of (lyBonds ?l) n = Some b"
      using maps(2) [of n] by (simp add: overlayLiveNetwork_def map_of_map)
    then show ?thesis by (simp add: bond_changes_def noted_def)
  qed
  have vlans: "vlan_changes (lyVLANs ?l) (n, v) = []" if "(n, v) \<in> set (dyVLANs ds)" for n v
  proof -
    have "map_of (dyVLANs ds) n = Some v" using assms(1) that by (simp add: unique_settings_def)
    then have "map_of (lyVLANs ?l) n = Some v"
      using maps(3) [of n] by (simp add: overlayLiveNetwork_def map_of_map)
    then show ?thesis by (simp add: vlan_changes_def noted_def)
  qed
  have dns: "equalSlicesSorted (dyDNS ds) (lyDNS ?l)"
    using maps(4) assms(5) by (simp add: overlayLiveNetwork_def equalSlicesSorted_def)
  have "filter (\<lambda>i. i \<notin> fst ` set (dyStatics ds)) (map fst (lyStatics ?l)) = []"
    using removed unfolding filter_empty_conv by blast
  moreover have "concat (map (static_changes (lyStatics ?l)) (dyStatics ds)) = []" using declared by auto
  moreover have "concat (map (bond_changes (lyBonds ?l)) (dyBonds ds)) = []" using bonds by auto
  moreover have "concat (map (vlan_changes (lyVLANs ?l)) (dyVLANs ds)) = []" using vlans by auto
  moreover have "noted (\<not> equalSlicesSorted (dyDNS ds) (lyDNS ?l)) ''dns_servers changed'' = []" using dns by (simp add: noted_def)
  ultimately have "\<not> network_change c" if "c \<in> set (diffSystem ds ?l)" for c
    using that unfolding diffSystem_def set_append Un_iff
    by (auto simp only: list.map list.set(1) empty_iff dest: other_changes port_no_network ssh_no_network)
  then show ?thesis by (simp add: list_all_iff)
qed

text \<open>
  What is configured but not declared never settles: with no static address declared every configured one is
  shown as a change after the application too, and with no name server declared the configured ones are.
\<close>

theorem undeclared_network_never_settles:
  assumes "unique_settings ds" and "unique_names cur" and "dyStatics ds = []" and "(n, c) \<in> set (neInterfaces cur)"
    and "ifAddresses c \<noteq> []" and "\<forall>x \<in> set (dyBonds ds). n \<notin> set (bdSlaves (snd x))"
    and "dyDNS ds = []" and "nsServers (neDNS cur) \<noteq> []"
  shows "{''network-remove: '' @ n, ''dns_servers changed''} \<subseteq> set (diffSystem ds (overlayLiveNetwork (desiredNetworkState cur ds) l))"
proof -
  let ?l = "overlayLiveNetwork (desiredNetworkState cur ds) l"
  note maps = desired_state_maps [OF assms(1,2)]
  have "map_of (neInterfaces cur) n = Some c" using assms(2,4) by (simp add: unique_names_def)
  then have "map_of (neInterfaces (desiredNetworkState cur ds)) n = Some c"
    using maps(1) [of n] assms(3,6) by (force simp: kept_interfaces_def)
  then have "map_of (lyStatics ?l) n \<noteq> None"
    using map_of_static [OF maps(5), of n] assms(5) by (auto simp: overlayLiveNetwork_def split: list.splits)
  then have "n \<in> set (map fst (lyStatics ?l))" by (simp add: map_of_eq_None_iff)
  moreover have "\<not> equalSlicesSorted (dyDNS ds) (lyDNS ?l)"
  proof -
    have "sort (nsServers (neDNS cur)) \<noteq> []" using assms(8) by (metis length_0_conv length_sort)
    then show ?thesis using maps(4) assms(7) by (simp add: overlayLiveNetwork_def equalSlicesSorted_def)
  qed
  then have "''dns_servers changed'' \<in> set (noted (\<not> equalSlicesSorted (dyDNS ds) (lyDNS ?l)) ''dns_servers changed'')"
    by (simp add: noted_def)
  moreover have "''network-remove: '' @ n \<in>
      set (map (\<lambda>i. ''network-remove: '' @ i) (filter (\<lambda>i. i \<notin> fst ` set (dyStatics ds)) (map fst (lyStatics ?l))))"
    unfolding set_map [of "\<lambda>i. ''network-remove: '' @ i"] set_filter
    by (rule imageI) (use \<open>n \<in> set (map fst (lyStatics ?l))\<close> assms(3) in simp)
  ultimately show ?thesis unfolding diffSystem_def set_append by blast
qed
section \<open>Samples\<close>

definition sample_declared :: desired_system where
  "sample_declared =
     \<lparr>dyHostname = [], dyTimezone = [], dyDNS = [''9.9.9.9''], dyNTP = [], dyTCP = [], dyUDP = [],
      dyStatics = [(''eth0'', \<lparr>stCIDR = ''10.0.0.5/24'', stGateway = ''10.0.0.1''\<rparr>)], dyBonds = [], dyVLANs = [],
      dySamba = \<lparr>sgWorkgroup = [], sgServerString = [], sgTimeMachine = False, sgAllowGuest = False, sgExtra = []\<rparr>,
      dySSHPort = 0, dySSHPassword = None, dySSHRoot = []\<rparr>"

definition quiet_system :: live_system where
  "quiet_system =
     \<lparr>lyHostname = [], lyTimezone = [], lyDNS = [], lyNTP = [], lyTCP = [], lyUDP = [], lyStatics = [], lyBonds = [], lyVLANs = [],
      lySSHPort = 22, lySSHPassword = None, lySSHRoot = []\<rparr>"

lemma declared_network_settles_witness:
  "list_all (\<lambda>c. \<not> network_change c)
     (diffSystem sample_declared (overlayLiveNetwork (desiredNetworkState sample_network sample_declared) quiet_system))"
  by (rule declared_network_settles) (simp_all add: unique_settings_def sample_declared_def sample_unique)

lemma undeclared_network_never_settles_witness:
  "''network-remove: eth0'' \<in>
     set (diffSystem (sample_declared\<lparr>dyStatics := [], dyDNS := []\<rparr>)
       (overlayLiveNetwork (desiredNetworkState sample_network (sample_declared\<lparr>dyStatics := [], dyDNS := []\<rparr>)) quiet_system))"
proof -
  have "(''eth0'', \<lparr>ifDHCP = False, ifAddresses = [''192.168.1.10/24''], ifGateway = [],
            ifRoutes = [\<lparr>rtDestination = ''10.20.0.0/16'', rtGateway = ''192.168.1.1''\<rparr>]\<rparr>) \<in> set (neInterfaces sample_network)"
    by (simp add: sample_network_def)
  from undeclared_network_never_settles [OF _ sample_unique(1) _ this, of "sample_declared\<lparr>dyStatics := [], dyDNS := []\<rparr>" quiet_system]
  show ?thesis by (simp add: unique_settings_def sample_declared_def) (simp add: sample_network_def)
qed

end
