(* ===== verification/GitStore.thy ===== *)
theory GitStore
  imports GitPlan GitNetwork
begin

text \<open>
  The tables GitOps writes (\<open>gitops/apply.go\<close>): the effect of every SQL statement, the options of a share, the
  checks of an export (with \<open>internal/nfsconf\<close>, \<open>internal/smbconf\<close>), and \<open>SyncDB\<close>, which writes the declared
  resources in one transaction.
\<close>

section \<open>Checks of values\<close>

definition escaped_char :: "char \<Rightarrow> string" where
  "escaped_char c =
     (if c = CHR '' '' then [CHR 0x5C] @ ''040''
      else if c = CHR 0x09 then [CHR 0x5C] @ ''011''
      else if c = CHR 0x0A then [CHR 0x5C] @ ''012''
      else if c = CHR 0x5C then [CHR 0x5C] @ ''134''
      else [c])"

definition EscapePath :: "string \<Rightarrow> string" where
  "EscapePath p = concat (map escaped_char p)"

definition DefaultOptions :: string where
  "DefaultOptions = ''rw,sync,no_subtree_check,root_squash,crossmnt''"

definition flagOptions :: "string list" where
  "flagOptions =
     [''rw'', ''ro'', ''sync'', ''async'', ''wdelay'', ''no_wdelay'', ''hide'', ''nohide'', ''crossmnt'', ''nocrossmnt'',
      ''subtree_check'', ''no_subtree_check'', ''secure'', ''insecure'', ''secure_locks'', ''insecure_locks'',
      ''auth_nlm'', ''no_auth_nlm'', ''root_squash'', ''no_root_squash'', ''all_squash'', ''no_all_squash'',
      ''nordirplus'', ''pnfs'', ''no_pnfs'', ''security_label'', ''acl'', ''no_acl'', ''mountpoint'', ''mp'']"

definition id_value :: "string \<Rightarrow> bool" where
  "id_value v = match_class is_digit 1 10 (trim_prefix v ''-'')"

definition is_hex :: "char \<Rightarrow> bool" where
  "is_hex c \<longleftrightarrow> hex_val c \<noteq> None"

definition path_char :: "char \<Rightarrow> bool" where
  "path_char c \<longleftrightarrow> is_alnum c \<or> c \<in> set ''._/-''"

definition path_value :: "string \<Rightarrow> bool" where
  "path_value v \<longleftrightarrow> has_prefix v ''/'' \<and> list_all path_char v"

definition host_char :: "char \<Rightarrow> bool" where
  "host_char c \<longleftrightarrow> is_alnum c \<or> c \<in> set ''.:+-''"

text \<open>\<open>/path@host\<close>: neither part can hold the sign between them.\<close>

definition path_at_host :: "string \<Rightarrow> bool" where
  "path_at_host v \<longleftrightarrow>
     (case split_at CHR ''@'' v of [p, h] \<Rightarrow> path_value p \<and> h \<noteq> [] \<and> list_all host_char h | _ \<Rightarrow> False)"

definition one_of_all :: "string list \<Rightarrow> string \<Rightarrow> bool" where
  "one_of_all ws v = list_all (\<lambda>w. w \<in> set ws) (split_at CHR '':'' v)"

definition valueOptions :: "string \<Rightarrow> (string \<Rightarrow> bool) option" where
  "valueOptions k =
     (if k = ''anonuid'' \<or> k = ''anongid'' then Some id_value
      else if k = ''fsid'' then
        Some (\<lambda>v. v = ''root'' \<or> match_class is_digit 1 10 v \<or> match_class (\<lambda>c. is_hex c \<or> c = CHR ''-'') 32 36 v)
      else if k = ''sec'' then Some (one_of_all [''sys'', ''krb5'', ''krb5i'', ''krb5p''])
      else if k = ''mountpoint'' \<or> k = ''mp'' then Some path_value
      else if k = ''refer'' \<or> k = ''replicas'' then Some path_at_host
      else if k = ''xprtsec'' then Some (one_of_all [''none'', ''tls'', ''mtls''])
      else None)"

definition option_ok :: "string \<Rightarrow> bool" where
  "option_ok opt =
     (let o' = trim_space opt in
      case split_at CHR ''='' o' of
        [k] \<Rightarrow> k \<noteq> [] \<and> k \<in> set flagOptions
      | k # rest \<Rightarrow> (case valueOptions k of None \<Rightarrow> False | Some f \<Rightarrow> f (drop (length k + 1) o'))
      | [] \<Rightarrow> False)"

definition ValidateOptions :: "string \<Rightarrow> bool" where
  "ValidateOptions opts \<longleftrightarrow> trim_space opts \<noteq> [] \<and> list_all option_ok (split_at CHR '','' opts)"

definition client_char :: "char \<Rightarrow> bool" where
  "client_char c \<longleftrightarrow> is_alnum c \<or> c \<in> set ''*?._-''"

definition address_char :: "char \<Rightarrow> bool" where
  "address_char c \<longleftrightarrow> is_hex c \<or> c \<in> set ''.:''"

definition client_ok :: "string \<Rightarrow> bool" where
  "client_ok c \<longleftrightarrow>
     length c \<le> 253 \<and>
     (c = ''*'' \<or>
      (let n = trim_prefix c ''@'' in n \<noteq> [] \<and> list_all client_char n) \<or>
      (case split_at CHR ''/'' c of
         [a] \<Rightarrow> a \<noteq> [] \<and> list_all address_char a
       | [a, m] \<Rightarrow> a \<noteq> [] \<and> list_all address_char a \<and> m \<noteq> [] \<and> list_all address_char m
       | _ \<Rightarrow> False))"

definition ValidateClients :: "string \<Rightarrow> bool" where
  "ValidateClients cs \<longleftrightarrow> words_of cs \<noteq> [] \<and> list_all client_ok (words_of cs)"

text \<open>The lines of one export: one per client.\<close>

definition export_line :: "string \<Rightarrow> string \<Rightarrow> string \<Rightarrow> string" where
  "export_line path client opts = EscapePath path @ CHR 0x09 # client @ ''('' @ opts @ '')'' @ [newline]"

definition Lines :: "string \<Rightarrow> string \<Rightarrow> string \<Rightarrow> string" where
  "Lines path clients opts =
     (if \<not> ValidateClients clients \<or> \<not> ValidateOptions opts then []
      else concat (map (\<lambda>c. export_line path c opts) (words_of clients)))"

definition host_token :: "string \<Rightarrow> bool" where
  "host_token t \<longleftrightarrow> match_class (\<lambda>c. is_alnum c \<or> c \<in> set ''.:/*_-'') 1 253 t"

definition ValidateHostList :: "string \<Rightarrow> bool" where
  "ValidateHostList l \<longleftrightarrow>
     list_all (\<lambda>t. t = ''EXCEPT'' \<or> host_token t) (words_of (map (\<lambda>c. if c = CHR '','' then CHR '' '' else c) l))"

definition ValidateTimeMachineQuota :: "string \<Rightarrow> bool" where
  "ValidateTimeMachineQuota q \<longleftrightarrow>
     q = [] \<or>
     (last q \<in> set ''KMGT'' \<and> match_class is_digit 1 9 (butlast q) \<and> hd q \<noteq> CHR ''0'')"

section \<open>The tables\<close>

record group_row =
  grName :: string
  grDescription :: string
  grGID :: int

record gitdb =
  gbUsers :: "live_user list"
  gbGroups :: "group_row list"
  gbMembers :: "(string \<times> string) list"
  gbShares :: "live_share list"
  gbNFS :: "live_nfs list"
  gbLDAP :: "ldap_config option"
  gbACME :: "acme_config option"
  gbCerts :: "certificate list"
  gbSMART :: "smart_task list"

datatype share_option =
    OptTimeMachine bool | OptTMQuota string | OptShadowCopy bool | OptRecycleBin bool | OptHostsAllow string | OptHostsDeny string

text \<open>The statements, each with its arguments.\<close>

datatype statement =
    PruneGitUsers "string list" | UpsertGitUser desired_user
  | PruneMembers "string list" | PruneGroups "string list" | UpsertGroup string string int
  | ClearMembers string | AddMember string string
  | PruneShares "string list" | UpsertShare desired_share | SetShareOption string share_option
  | PruneNFS "string list" | DeleteNFSPath string | InsertNFS desired_nfs
  | UpdateLDAP ldap_config
  | UpsertUser desired_user | DeleteUser string | DeleteGroup string
  | UpsertNFS desired_nfs | DeleteShareRow string
  | UpdateACME acme_config | DisableACME | UpsertCertificate certificate | DeleteCertificate string
  | UpsertSMART smart_task | DeleteSMARTRow string string

text \<open>\<open>INSERT ... ON CONFLICT DO UPDATE\<close>: the row of the key is changed, or a new one is added.\<close>

definition insert_or_update :: "('r \<Rightarrow> 'k::linorder) \<Rightarrow> 'k \<Rightarrow> 'r \<Rightarrow> ('r \<Rightarrow> 'r) \<Rightarrow> 'r list \<Rightarrow> 'r list" where
  "insert_or_update key k new upd rows =
     (case row key rows k of None \<Rightarrow> upsert key new rows | Some r \<Rightarrow> upsert key (upd r) rows)"

definition new_user :: "string \<Rightarrow> string \<Rightarrow> desired_user \<Rightarrow> live_user" where
  "new_user source hash u =
     \<lparr>luName = duName u, luHash = hash, luEmail = duEmail u, luRole = duRole u, luActive = duActive u, luSource = source\<rparr>"

definition declared_user :: "desired_user \<Rightarrow> live_user \<Rightarrow> live_user" where
  "declared_user u r = r\<lparr>luEmail := duEmail u, luRole := duRole u, luActive := duActive u\<rparr>"

definition new_share :: "desired_share \<Rightarrow> live_share" where
  "new_share d =
     \<lparr>lsName = dsName d, lsPath = dsPath d, lsReadOnly = dsReadOnly d, lsValidUsers = dsValidUsers d,
      lsComment = dsComment d, lsGuestOK = dsGuestOK d, lsEnabled = True, lsTimeMachine = False,
      lsTimeMachineQuota = [], lsShadowCopy = False, lsRecycleBin = False, lsHostsAllow = [], lsHostsDeny = []\<rparr>"

definition declared_share :: "desired_share \<Rightarrow> live_share \<Rightarrow> live_share" where
  "declared_share d r =
     r\<lparr>lsPath := dsPath d, lsReadOnly := dsReadOnly d, lsValidUsers := dsValidUsers d, lsComment := dsComment d,
       lsGuestOK := dsGuestOK d\<rparr>"

fun put_option :: "share_option \<Rightarrow> live_share \<Rightarrow> live_share" where
  "put_option (OptTimeMachine b) r = r\<lparr>lsTimeMachine := b\<rparr>"
| "put_option (OptTMQuota q) r = r\<lparr>lsTimeMachineQuota := q\<rparr>"
| "put_option (OptShadowCopy b) r = r\<lparr>lsShadowCopy := b\<rparr>"
| "put_option (OptRecycleBin b) r = r\<lparr>lsRecycleBin := b\<rparr>"
| "put_option (OptHostsAllow l) r = r\<lparr>lsHostsAllow := l\<rparr>"
| "put_option (OptHostsDeny l) r = r\<lparr>lsHostsDeny := l\<rparr>"

definition nfs_row :: "desired_nfs \<Rightarrow> live_nfs" where
  "nfs_row d = \<lparr>lnPath = dnPath d, lnClients = dnClients d, lnOptions = dnOptions d, lnEnabled = dnEnabled d\<rparr>"

text \<open>Deleting a user or a group deletes its memberships (\<open>ON DELETE CASCADE\<close>).\<close>

definition drop_users :: "(live_user \<Rightarrow> bool) \<Rightarrow> gitdb \<Rightarrow> gitdb" where
  "drop_users P db =
     db\<lparr>gbUsers := filter (\<lambda>u. \<not> P u) (gbUsers db),
        gbMembers := filter (\<lambda>(g, m). m \<notin> luName ` set (filter P (gbUsers db))) (gbMembers db)\<rparr>"

definition drop_groups :: "(string \<Rightarrow> bool) \<Rightarrow> gitdb \<Rightarrow> gitdb" where
  "drop_groups P db =
     db\<lparr>gbGroups := filter (\<lambda>g. \<not> P (grName g)) (gbGroups db),
        gbMembers := filter (\<lambda>(g, m). g \<notin> grName ` set (filter (\<lambda>r. P (grName r)) (gbGroups db))) (gbMembers db)\<rparr>"

definition smart_key :: "smart_task \<Rightarrow> string \<times> string" where
  "smart_key t = (dtDevice t, dtType t)"

text \<open>
  The effect of a statement; \<open>None\<close> is a violated constraint. \<open>nfs_exports\<close> has no unique index on its path, so
  \<open>ON CONFLICT(path)\<close> is an error whatever the rows are.
\<close>

fun effect :: "statement \<Rightarrow> gitdb \<Rightarrow> gitdb option" where
  "effect (PruneGitUsers ns) db = Some (drop_users (\<lambda>u. luSource u = ''git'' \<and> luName u \<notin> set ns) db)"
| "effect (UpsertGitUser u) db =
     Some (db\<lparr>gbUsers := insert_or_update luName (duName u) (new_user ''git'' [] u) (declared_user u) (gbUsers db)\<rparr>)"
| "effect (PruneMembers ns) db = Some (db\<lparr>gbMembers := filter (\<lambda>(g, m). g \<in> set ns) (gbMembers db)\<rparr>)"
| "effect (PruneGroups ns) db = Some (drop_groups (\<lambda>g. g \<notin> set ns) db)"
| "effect (UpsertGroup n desc gid) db =
     Some (db\<lparr>gbGroups := insert_or_update grName n \<lparr>grName = n, grDescription = desc, grGID = gid\<rparr>
       (\<lambda>r. r\<lparr>grDescription := desc, grGID := (if gid = 0 then grGID r else gid)\<rparr>) (gbGroups db)\<rparr>)"
| "effect (ClearMembers g) db = Some (db\<lparr>gbMembers := filter (\<lambda>(h, m). h \<noteq> g) (gbMembers db)\<rparr>)"
| "effect (AddMember g m) db =
     (if row grName (gbGroups db) g = None \<or> row luName (gbUsers db) m = None \<or> (g, m) \<in> set (gbMembers db) then None
      else Some (db\<lparr>gbMembers := gbMembers db @ [(g, m)]\<rparr>))"
| "effect (PruneShares ns) db = Some (db\<lparr>gbShares := filter (\<lambda>s. lsName s \<in> set ns) (gbShares db)\<rparr>)"
| "effect (UpsertShare d) db =
     Some (db\<lparr>gbShares := insert_or_update lsName (dsName d) (new_share d) (declared_share d) (gbShares db)\<rparr>)"
| "effect (SetShareOption n opt) db =
     Some (db\<lparr>gbShares := map (\<lambda>s. if lsName s = n then put_option opt s else s) (gbShares db)\<rparr>)"
| "effect (PruneNFS ps) db = Some (db\<lparr>gbNFS := filter (\<lambda>e. lnPath e \<in> set ps) (gbNFS db)\<rparr>)"
| "effect (DeleteNFSPath p) db = Some (db\<lparr>gbNFS := filter (\<lambda>e. lnPath e \<noteq> p) (gbNFS db)\<rparr>)"
| "effect (InsertNFS d) db = Some (db\<lparr>gbNFS := gbNFS db @ [nfs_row d]\<rparr>)"
| "effect (UpdateLDAP c) db =
     Some (db\<lparr>gbLDAP := map_option
       (\<lambda>r. if IsSecretRef (dlBindPassword c) then c\<lparr>dlBindPassword := dlBindPassword r\<rparr> else c) (gbLDAP db)\<rparr>)"
| "effect (UpsertUser u) db =
     (if duHash u \<noteq> [] \<and> \<not> IsSecretRef (duHash u) then
        Some (db\<lparr>gbUsers := insert_or_update luName (duName u) (new_user ''local'' (duHash u) u)
          (\<lambda>r. (declared_user u r)\<lparr>luHash := duHash u\<rparr>) (gbUsers db)\<rparr>)
      else Some (db\<lparr>gbUsers := insert_or_update luName (duName u) (new_user ''local'' [] u) (declared_user u) (gbUsers db)\<rparr>))"
| "effect (DeleteUser n) db = Some (drop_users (\<lambda>u. luName u = n) db)"
| "effect (DeleteGroup n) db = Some (drop_groups (\<lambda>g. g = n) db)"
| "effect (UpsertNFS d) db = None"
| "effect (DeleteShareRow n) db = Some (db\<lparr>gbShares := filter (\<lambda>s. lsName s \<noteq> n) (gbShares db)\<rparr>)"
| "effect (UpdateACME c) db = Some (db\<lparr>gbACME := map_option (\<lambda>r. c) (gbACME db)\<rparr>)"
| "effect DisableACME db = Some (db\<lparr>gbACME := map_option (\<lambda>r. r\<lparr>daEnabled := False\<rparr>) (gbACME db)\<rparr>)"
| "effect (UpsertCertificate c) db =
     Some (db\<lparr>gbCerts := insert_or_update dcName (dcName c) c (\<lambda>r. c) (gbCerts db)\<rparr>)"
| "effect (DeleteCertificate n) db = Some (db\<lparr>gbCerts := filter (\<lambda>c. dcName c \<noteq> n) (gbCerts db)\<rparr>)"
| "effect (UpsertSMART t) db = Some (db\<lparr>gbSMART := insert_or_update smart_key (smart_key t) t (\<lambda>r. t) (gbSMART db)\<rparr>)"
| "effect (DeleteSMARTRow d t) db = Some (db\<lparr>gbSMART := filter (\<lambda>r. smart_key r \<noteq> (d, t)) (gbSMART db)\<rparr>)"

section \<open>The node\<close>

datatype gcall =
    Tx | TxCommit | SQL statement | SyncAccounts | ReloadSamba | WriteExports string | Exportfs
  | ZpoolCreate "string list" | ZpoolDestroy string | ZpoolAdd "string list" | ZpoolSet string string string
  | ZfsExists string | ZfsReceive string string string | ZfsCreate string | ZfsSet string string string | ZfsDestroy string
  | ZfsMounted string | ZfsMountpoint string | AskEmpty string | AskConnections string
  | CheckCompose string | WriteStack string string | ComposeUp string | StatStack string | ComposeDown string | RemoveStack string
  | ReadSchedules | ReadPeers | WriteSchedules
  | SetHostname string | SetTimezone string | SetNTP "string list" | SetFirewall "int list" "int list"
  | SetSambaGlobals samba_globals | SetSSH int "bool option" string | NetApply net_state
  | SaveTargets "nvme_export list" | ApplyTargets "nvme_export list" | RegenerateTimers | ProbePort int | ReadLive | AskGuard
  | QueryExports

record gnode =
  gnDB :: gitdb
  gnNetwork :: net_state
  gnSchedules :: "replication list"
  gnTargets :: "nvme_export list"
  gnTrace :: "gcall list"

text \<open>
  The environment answers a call from the calls made before: whether it succeeds, its output, the listing of a
  dataset and the number of entries of a directory, the output of \<open>smbstatus\<close>, whether this node may own pools, the
  peers by id and name, and the live state apart from what the node's own tables hold. \<open>geOrder\<close> is the order
  in which the entries of a map are visited.
\<close>

record genv =
  geOk :: "gcall list \<Rightarrow> gcall \<Rightarrow> bool"
  geText :: "gcall list \<Rightarrow> gcall \<Rightarrow> string"
  geListing :: "gcall list \<Rightarrow> string \<Rightarrow> string option"
  geEntries :: "gcall list \<Rightarrow> string \<Rightarrow> nat option"
  geSmbstatus :: "gcall list \<Rightarrow> string option"
  geGuard :: "(gcall list \<Rightarrow> bool) option"
  gePeers :: "gcall list \<Rightarrow> (string \<times> string) list"
  geLive :: "gcall list \<Rightarrow> live_state"
  geAttached :: "gcall list \<Rightarrow> attach_db"
  geOrder :: "(string \<times> string) list \<Rightarrow> (string \<times> string) list"
  geSamba :: bool
  geExports :: bool
  geNetworkd :: bool

datatype git_error =
    CallFailed gcall | BadOption string | BadNFS string | MissingSpec string | UnknownKind diff_kind
  | CannotVerify string empty_error | NotEmpty string holding | InUse string | Protected string | BadReplication string
  | UnknownPeer string | BadDatasetName string | BadPoolName string | BadSource string | NoNetworkd
  | BadNetwork net_error | PoolArgs vdev_error | ReshapeFailed reshape_error
  | BadSMARTName string | BadCompose string | Unapproved diff_kind string | IsAmbiguous diff_kind string | NotReady string

type_synonym 'a gresult = "'a \<times> gnode"

definition traced :: "gcall \<Rightarrow> gnode \<Rightarrow> gnode" where
  "traced c s = s\<lparr>gnTrace := gnTrace s @ [c]\<rparr>"

definition gdo :: "genv \<Rightarrow> gcall \<Rightarrow> gnode \<Rightarrow> git_error option gresult" where
  "gdo E c s = (if geOk E (gnTrace s) c then None else Some (CallFailed c), traced c s)"

text \<open>A step after another one, skipped when that one failed.\<close>

definition gseq :: "git_error option gresult \<Rightarrow> (gnode \<Rightarrow> git_error option gresult) \<Rightarrow> git_error option gresult" where
  "gseq r f = (case r of (Some e, s) \<Rightarrow> (Some e, s) | (None, s) \<Rightarrow> f s)"

definition run_sql :: "genv \<Rightarrow> statement \<Rightarrow> gnode \<Rightarrow> git_error option gresult" where
  "run_sql E q s =
     (case (if geOk E (gnTrace s) (SQL q) then effect q (gnDB s) else None) of
        None \<Rightarrow> (Some (CallFailed (SQL q)), traced (SQL q) s)
      | Some db \<Rightarrow> (None, (traced (SQL q) s)\<lparr>gnDB := db\<rparr>))"

text \<open>Statements and failed checks in a row.\<close>

fun run_steps :: "genv \<Rightarrow> (git_error + statement) list \<Rightarrow> gnode \<Rightarrow> git_error option gresult" where
  "run_steps E [] s = (None, s)"
| "run_steps E (Inl e # qs) s = (Some e, s)"
| "run_steps E (Inr q # qs) s = gseq (run_sql E q s) (run_steps E qs)"

section \<open>Shares and exports\<close>

definition option_list :: "('a \<Rightarrow> share_option) \<Rightarrow> 'a option \<Rightarrow> share_option list" where
  "option_list f x = (case x of None \<Rightarrow> [] | Some v \<Rightarrow> [f v])"

definition share_options :: "desired_share \<Rightarrow> share_option list" where
  "share_options d =
     option_list OptTimeMachine (dsTimeMachine d) @ option_list OptTMQuota (dsTimeMachineQuota d) @
     option_list OptShadowCopy (dsShadowCopy d) @ option_list OptRecycleBin (dsRecycleBin d) @
     option_list OptHostsAllow (dsHostsAllow d) @ option_list OptHostsDeny (dsHostsDeny d)"

definition share_options_ok :: "desired_share \<Rightarrow> bool" where
  "share_options_ok d \<longleftrightarrow>
     (case dsTimeMachineQuota d of None \<Rightarrow> True | Some q \<Rightarrow> ValidateTimeMachineQuota q) \<and>
     (case dsHostsAllow d of None \<Rightarrow> True | Some l \<Rightarrow> ValidateHostList l) \<and>
     (case dsHostsDeny d of None \<Rightarrow> True | Some l \<Rightarrow> ValidateHostList l)"

definition applyShareOptions :: "desired_share \<Rightarrow> (git_error + statement) list" where
  "applyShareOptions d =
     (if \<not> share_options_ok d then [Inl (BadOption (dsName d))]
      else map (\<lambda>opt. Inr (SetShareOption (dsName d) opt)) (share_options d))"

text \<open>The checked export with its defaults.\<close>

definition checkNFS :: "desired_nfs \<Rightarrow> git_error + desired_nfs" where
  "checkNFS d =
     (let c = (if trim_space (dnClients d) = [] then ''*'' else dnClients d);
          opts = (if trim_space (dnOptions d) = [] then DefaultOptions else dnOptions d) in
      if \<not> has_prefix (dnPath d) ''/'' \<or> contains_any (dnPath d) [CHR 0x0A, CHR 0x0D, CHR 0x00] \<or>
         \<not> ValidateClients c \<or> \<not> ValidateOptions opts then Inl (BadNFS (dnPath d))
      else Inr (d\<lparr>dnClients := c, dnOptions := opts\<rparr>))"

section \<open>SyncDB\<close>

definition user_steps :: "desired_state \<Rightarrow> (git_error + statement) list" where
  "user_steps D =
     (if deIgnore D then [] else [Inr (PruneGitUsers (map duName (deUsers D)))]) @
     map (\<lambda>u. Inr (UpsertGitUser u)) (deUsers D)"

definition group_steps :: "desired_group \<Rightarrow> (git_error + statement) list" where
  "group_steps g =
     Inr (UpsertGroup (dgName g) (dgDescription g) (dgGID g)) # Inr (ClearMembers (dgName g)) #
     map (\<lambda>m. Inr (AddMember (dgName g) m)) (dgMembers g)"

definition groups_steps :: "desired_state \<Rightarrow> (git_error + statement) list" where
  "groups_steps D =
     (if deIgnore D then []
      else [Inr (PruneMembers (map dgName (deGroups D))), Inr (PruneGroups (map dgName (deGroups D)))]) @
     concat (map group_steps (deGroups D))"

definition share_steps :: "desired_state \<Rightarrow> (git_error + statement) list" where
  "share_steps D =
     (if deIgnore D then [] else [Inr (PruneShares (map dsName (deShares D)))]) @
     concat (map (\<lambda>d. Inr (UpsertShare d) # applyShareOptions d) (deShares D))"

definition nfs_steps :: "desired_state \<Rightarrow> (git_error + statement) list" where
  "nfs_steps D =
     (if deIgnore D then [] else [Inr (PruneNFS (map dnPath (deNFS D)))]) @
     concat (map (\<lambda>d. case checkNFS d of
         Inl e \<Rightarrow> [Inl e]
       | Inr d' \<Rightarrow> [Inr (DeleteNFSPath (dnPath d)), Inr (InsertNFS d')]) (deNFS D))"

definition sync_steps :: "desired_state \<Rightarrow> (git_error + statement) list" where
  "sync_steps D = user_steps D @ groups_steps D @ share_steps D @ nfs_steps D"

definition reconcileLDAP :: "genv \<Rightarrow> ldap_config option \<Rightarrow> gnode \<Rightarrow> git_error option gresult" where
  "reconcileLDAP E c s = (case c of None \<Rightarrow> (None, s) | Some l \<Rightarrow> run_sql E (UpdateLDAP l) s)"

text \<open>An error before the commit rolls everything back; the LDAP settings are written after it.\<close>

definition SyncDB :: "genv \<Rightarrow> desired_state \<Rightarrow> gnode \<Rightarrow> git_error option gresult" where
  "SyncDB E D s =
     gseq (gdo E Tx s)
       (\<lambda>s1. case gseq (run_steps E (sync_steps D) s1) (gdo E TxCommit) of
          (Some e, s2) \<Rightarrow> (Some e, s2\<lparr>gnDB := gnDB s\<rparr>)
        | (None, s2) \<Rightarrow> reconcileLDAP E (deLDAP D) (traced SyncAccounts s2))"

section \<open>What the tables hold\<close>

abbreviation stm :: "statement \<Rightarrow> git_error + statement" where
  "stm \<equiv> Inr"

fun effects :: "statement list \<Rightarrow> gitdb \<Rightarrow> gitdb option" where
  "effects [] db = Some db"
| "effects (q # qs) db = (case effect q db of None \<Rightarrow> None | Some db1 \<Rightarrow> effects qs db1)"

lemma traced_fields [simp]:
  "gnDB (traced c s) = gnDB s" "gnTrace (traced c s) = gnTrace s @ [c]" "gnSchedules (traced c s) = gnSchedules s"
  "gnTargets (traced c s) = gnTargets s" "gnNetwork (traced c s) = gnNetwork s"
  by (simp_all add: traced_def)

lemma run_sql_None:
  "run_sql E q s = (None, s1) \<Longrightarrow> effect q (gnDB s) = Some (gnDB s1) \<and> gnTrace s1 = gnTrace s @ [SQL q]"
  by (auto simp: run_sql_def split: option.splits if_splits)

lemma run_steps_None:
  "run_steps E qs s = (None, s1) \<Longrightarrow> \<exists>sts. qs = map Inr sts \<and> effects sts (gnDB s) = Some (gnDB s1)"
proof (induction E qs s rule: run_steps.induct)
  case (3 E q qs s)
  then obtain s2 where q: "run_sql E q s = (None, s2)" and qs: "run_steps E qs s2 = (None, s1)"
    by (auto simp: gseq_def split: prod.splits option.splits)
  then obtain sts where "qs = map Inr sts" "effects sts (gnDB s2) = Some (gnDB s1)" using "3.IH" by blast
  then show ?case using run_sql_None [OF q] by (intro exI [of _ "q # sts"]) simp
qed (auto intro: exI [of _ "[]"])

lemma effects_append: "effects (xs @ ys) db = (case effects xs db of None \<Rightarrow> None | Some db1 \<Rightarrow> effects ys db1)"
  by (induction xs arbitrary: db) (auto split: option.split)

text \<open>Which statements touch the shares and the exports.\<close>

fun touches_shares :: "statement \<Rightarrow> bool" where
  "touches_shares (PruneShares ns) = True"
| "touches_shares (UpsertShare d) = True"
| "touches_shares (SetShareOption n opt) = True"
| "touches_shares (DeleteShareRow n) = True"
| "touches_shares q = False"

fun touches_nfs :: "statement \<Rightarrow> bool" where
  "touches_nfs (PruneNFS ns) = True"
| "touches_nfs (DeleteNFSPath p) = True"
| "touches_nfs (InsertNFS d) = True"
| "touches_nfs (UpsertNFS d) = True"
| "touches_nfs q = False"

lemma effect_frame:
  "effect q db = Some db1 \<Longrightarrow> \<not> touches_shares q \<Longrightarrow> gbShares db1 = gbShares db"
  "effect q db = Some db1 \<Longrightarrow> \<not> touches_nfs q \<Longrightarrow> gbNFS db1 = gbNFS db"
  by (cases q; auto simp: drop_users_def drop_groups_def split: if_splits)+

lemma effects_frame:
  "effects qs db = Some db1 \<Longrightarrow> \<forall>q \<in> set qs. \<not> touches_shares q \<Longrightarrow> gbShares db1 = gbShares db"
  "effects qs db = Some db1 \<Longrightarrow> \<forall>q \<in> set qs. \<not> touches_nfs q \<Longrightarrow> gbNFS db1 = gbNFS db"
  by (induction qs arbitrary: db) (auto simp: effect_frame split: option.splits)

lemma row_insert_or_update:
  assumes "key new = k" and "\<And>r. key (upd r) = key r"
  shows "row key (insert_or_update key k new upd rows) j =
         (if j = k then Some (case row key rows k of None \<Rightarrow> new | Some r \<Rightarrow> upd r) else row key rows j)"
  using assms row_key [of key rows k] by (auto simp: insert_or_update_def row_upsert split: option.split)

lemma key_options: "lsName (fold put_option opts r) = lsName r"
proof -
  have "lsName (put_option opt r) = lsName r" for opt r by (cases opt) simp_all
  then show ?thesis by (induction opts arbitrary: r) simp_all
qed

lemma effects_options:
  "effects (map (SetShareOption n) opts) db =
   Some (db\<lparr>gbShares := map (\<lambda>s. if lsName s = n then fold put_option opts s else s) (gbShares db)\<rparr>)"
proof (induction opts arbitrary: db)
  case (Cons opt opts)
  have "lsName (put_option opt r) = lsName r" for r using key_options [of "[opt]" r] by simp
  then show ?case using Cons by (simp add: comp_def if_distrib cong: if_cong)
qed (simp cong: if_cong)

lemma row_map:
  "(\<And>r. key (f r) = key r) \<Longrightarrow> row key (map f t) k = map_option f (row key t k)"
  by (induction t) (simp_all add: row_Cons)

lemma declared_settled: "lsName r = dsName d \<Longrightarrow> diffShare d (fold put_option (share_options d) (declared_share d r)) = []"
  by (cases "dsTimeMachine d"; cases "dsTimeMachineQuota d"; cases "dsShadowCopy d"; cases "dsRecycleBin d";
      cases "dsHostsAllow d"; cases "dsHostsDeny d")
     (simp_all add: share_options_def option_list_def declared_share_def diffShare_def diffOptBool_def diffOptStr_def
      text_change_def quoted_change_def bool_change_def noted_def)

lemma new_share_declared: "new_share d = declared_share d (new_share d)"
  by (simp add: new_share_def declared_share_def)

text \<open>One declared share: its row no longer differs, the other rows are as they were.\<close>

lemma share_block:
  assumes "effects (UpsertShare d # map (SetShareOption (dsName d)) (share_options d)) db = Some db1"
  shows "\<exists>r. row lsName (gbShares db1) (dsName d) = Some r \<and> diffShare d r = []"
    and "j \<noteq> dsName d \<Longrightarrow> row lsName (gbShares db1) j = row lsName (gbShares db) j"
    and "lsName ` set (gbShares db1) \<subseteq> insert (dsName d) (lsName ` set (gbShares db))"
proof -
  let ?f = "\<lambda>s. if lsName s = dsName d then fold put_option (share_options d) s else s"
  let ?t = "insert_or_update lsName (dsName d) (new_share d) (declared_share d) (gbShares db)"
  have shares: "gbShares db1 = map ?f ?t" using assms by (simp add: effects_options) auto
  have key: "lsName (?f s) = lsName s" for s by (simp add: key_options)
  have row: "row lsName (gbShares db1) j = map_option ?f (row lsName ?t j)" for j
    unfolding shares by (rule row_map) (rule key)
  have upsert: "row lsName ?t j = (if j = dsName d then
      Some (case row lsName (gbShares db) (dsName d) of None \<Rightarrow> new_share d | Some r \<Rightarrow> declared_share d r)
      else row lsName (gbShares db) j)" for j
    by (rule row_insert_or_update) (simp_all add: new_share_def declared_share_def)
  obtain r where r: "row lsName ?t (dsName d) = Some (declared_share d r)" "lsName r = dsName d"
    unfolding upsert using new_share_declared [of d] row_key [of lsName "gbShares db" "dsName d"]
    by (cases "row lsName (gbShares db) (dsName d)") (auto simp: new_share_def)
  have "lsName (declared_share d r) = dsName d" using r(2) by (simp add: declared_share_def)
  then show "\<exists>r. row lsName (gbShares db1) (dsName d) = Some r \<and> diffShare d r = []"
    using row [of "dsName d"] r declared_settled by simp
  show "j \<noteq> dsName d \<Longrightarrow> row lsName (gbShares db1) j = row lsName (gbShares db) j"
    using row [of j] upsert [of j] row_key [of lsName "gbShares db" j] by (cases "row lsName (gbShares db) j") auto
  have "set ?t \<subseteq> insert (case row lsName (gbShares db) (dsName d) of None \<Rightarrow> new_share d | Some r \<Rightarrow> declared_share d r) (set (gbShares db))"
    by (simp add: insert_or_update_def set_upsert split: option.split)
  moreover have "lsName (case row lsName (gbShares db) (dsName d) of None \<Rightarrow> new_share d | Some r \<Rightarrow> declared_share d r) = dsName d"
    using row_key [of lsName "gbShares db" "dsName d"] by (simp add: new_share_def declared_share_def split: option.split)
  ultimately have "lsName ` set ?t \<subseteq> insert (dsName d) (lsName ` set (gbShares db))" by blast
  moreover have "lsName ` set (gbShares db1) = lsName ` set ?t"
    unfolding shares set_map image_image by (rule image_cong) (simp_all only: key)
  ultimately show "lsName ` set (gbShares db1) \<subseteq> insert (dsName d) (lsName ` set (gbShares db))" by simp
qed

lemma map_InrD: "map stm sts = map stm qs \<Longrightarrow> sts = qs"
  by (simp add: inj_map_eq_map [OF inj_Inr])

text \<open>The checked statements of the declared shares.\<close>

definition share_statements :: "desired_share \<Rightarrow> statement list" where
  "share_statements d = UpsertShare d # map (SetShareOption (dsName d)) (share_options d)"

lemma share_steps_Inr:
  "map stm sts = concat (map (\<lambda>d. Inr (UpsertShare d) # applyShareOptions d) ds) \<Longrightarrow>
   sts = concat (map share_statements ds)"
proof (induction ds arbitrary: sts)
  case (Cons d ds)
  then obtain xs ys where sts: "sts = xs @ ys" and xs: "map stm xs = Inr (UpsertShare d) # applyShareOptions d"
      and ys: "map stm ys = concat (map (\<lambda>d. Inr (UpsertShare d) # applyShareOptions d) ds)"
    by (auto simp: map_eq_append_conv append_eq_map_conv simp del: append_Cons)
  have "share_options_ok d" using xs by (cases "share_options_ok d") (auto simp: applyShareOptions_def map_eq_Cons_conv)
  then have "map stm xs = map stm (share_statements d)"
    using xs by (simp add: applyShareOptions_def share_statements_def comp_def)
  then show ?case using sts Cons.IH [OF ys] map_InrD [of xs "share_statements d"] by simp
qed simp

lemma shares_settled:
  assumes "effects (concat (map share_statements ds)) db = Some db1" and "distinct (map dsName ds)"
  shows "\<forall>d \<in> set ds. \<exists>r. row lsName (gbShares db1) (dsName d) = Some r \<and> diffShare d r = []"
    and "\<forall>j. j \<notin> dsName ` set ds \<longrightarrow> row lsName (gbShares db1) j = row lsName (gbShares db) j"
    and "lsName ` set (gbShares db1) \<subseteq> dsName ` set ds \<union> lsName ` set (gbShares db)"
  using assms
proof (induction ds arbitrary: db)
  case (Cons d ds)
  {
    case 1
    then obtain db2 where d: "effects (share_statements d) db = Some db2"
        and rest: "effects (concat (map share_statements ds)) db2 = Some db1" "distinct (map dsName ds)"
        and new: "dsName d \<notin> dsName ` set ds"
      by (auto simp: effects_append split: option.splits)
    note block = share_block [OF d [unfolded share_statements_def]]
    show ?case using block(1) Cons.IH(1) [OF rest] Cons.IH(2) [OF rest] new by simp
  next
    case 2
    then obtain db2 where d: "effects (share_statements d) db = Some db2"
        and rest: "effects (concat (map share_statements ds)) db2 = Some db1" "distinct (map dsName ds)"
      by (auto simp: effects_append split: option.splits)
    show ?case using share_block(2) [OF d [unfolded share_statements_def]] Cons.IH(2) [OF rest] by simp
  next
    case 3
    then obtain db2 where d: "effects (share_statements d) db = Some db2"
        and rest: "effects (concat (map share_statements ds)) db2 = Some db1" "distinct (map dsName ds)"
      by (auto simp: effects_append split: option.splits)
    show ?case
      using share_block(3) [OF d [unfolded share_statements_def]] Cons.IH(3) [OF rest] unfolding list.set image_insert by blast
  }
qed simp_all

lemma SyncDB_None:
  assumes "SyncDB E D s = (None, s1)"
  obtains us gs ss ns db where "map stm us = user_steps D" "map stm gs = groups_steps D" "map stm ss = share_steps D"
    "map stm ns = nfs_steps D" "effects (us @ gs @ ss @ ns) (gnDB s) = Some db"
    "gbShares (gnDB s1) = gbShares db" "gbNFS (gnDB s1) = gbNFS db"
proof -
  from assms obtain s2 where run: "run_steps E (sync_steps D) (traced Tx s) = (None, s2)"
      and ldap: "reconcileLDAP E (deLDAP D) (traced SyncAccounts (traced TxCommit s2)) = (None, s1)"
    unfolding SyncDB_def gseq_def gdo_def by (auto split: prod.splits option.splits if_splits)
  from run_steps_None [OF run] obtain sts where sts: "sync_steps D = map stm sts" "effects sts (gnDB s) = Some (gnDB s2)"
    by auto
  then obtain us gs ss ns where parts: "sts = us @ gs @ ss @ ns" "map stm us = user_steps D" "map stm gs = groups_steps D"
      "map stm ss = share_steps D" "map stm ns = nfs_steps D"
    unfolding sync_steps_def by (auto simp: append_eq_map_conv)
  have "gbShares (gnDB s1) = gbShares (gnDB s2)" "gbNFS (gnDB s1) = gbNFS (gnDB s2)"
    using ldap effect_frame [of "UpdateLDAP _"] by (auto simp: reconcileLDAP_def dest!: run_sql_None split: option.splits simp del: effect.simps)
  then show ?thesis using that parts sts(2) by metis
qed

lemma step_touches:
  "map stm us = user_steps D \<Longrightarrow> q \<in> set us \<Longrightarrow> \<not> touches_shares q \<and> \<not> touches_nfs q"
  "map stm gs = groups_steps D \<Longrightarrow> q \<in> set gs \<Longrightarrow> \<not> touches_shares q \<and> \<not> touches_nfs q"
  "map stm ss = share_steps D \<Longrightarrow> q \<in> set ss \<Longrightarrow> \<not> touches_nfs q"
  "map stm ns = nfs_steps D \<Longrightarrow> q \<in> set ns \<Longrightarrow> \<not> touches_shares q"
proof -
  have in_steps: "map stm xs = ys \<Longrightarrow> x \<in> set xs \<Longrightarrow> stm x \<in> set ys" for xs and x :: statement and ys :: "(git_error + statement) list"
    by force
  have export: "stm q \<in> set (case checkNFS d of
      Inl e \<Rightarrow> [Inl e] | Inr d' \<Rightarrow> [Inr (DeleteNFSPath (dnPath d)), Inr (InsertNFS d')]) \<Longrightarrow> \<not> touches_shares q" for d
    by (cases "checkNFS d") auto
  show "map stm us = user_steps D \<Longrightarrow> q \<in> set us \<Longrightarrow> \<not> touches_shares q \<and> \<not> touches_nfs q"
    by (drule (1) in_steps) (auto simp: user_steps_def split: if_splits)
  show "map stm gs = groups_steps D \<Longrightarrow> q \<in> set gs \<Longrightarrow> \<not> touches_shares q \<and> \<not> touches_nfs q"
    by (drule (1) in_steps) (auto simp: groups_steps_def group_steps_def split: if_splits)
  show "map stm ss = share_steps D \<Longrightarrow> q \<in> set ss \<Longrightarrow> \<not> touches_nfs q"
    by (drule (1) in_steps) (auto simp: share_steps_def applyShareOptions_def split: if_splits)
  show "map stm ns = nfs_steps D \<Longrightarrow> q \<in> set ns \<Longrightarrow> \<not> touches_shares q"
    by (drule (1) in_steps) (auto simp: nfs_steps_def dest: export split: if_splits)
qed

lemma SyncDB_share_rows:
  assumes "SyncDB E D s = (None, s1)" and "distinct (map dsName (deShares D))"
  shows "(\<forall>d \<in> set (deShares D). \<exists>r. row lsName (gbShares (gnDB s1)) (dsName d) = Some r \<and> diffShare d r = []) \<and>
         (deIgnore D \<or> lsName ` set (gbShares (gnDB s1)) \<subseteq> dsName ` set (deShares D))"
  using assms(1)
proof (rule SyncDB_None)
  fix us gs ss ns db
  assume parts: "map stm us = user_steps D" "map stm gs = groups_steps D" "map stm ss = share_steps D" "map stm ns = nfs_steps D"
    and run: "effects (us @ gs @ ss @ ns) (gnDB s) = Some db" and shares: "gbShares (gnDB s1) = gbShares db"
  from run obtain db1 db2 where pre: "effects (us @ gs) (gnDB s) = Some db1" and ss: "effects ss db1 = Some db2"
      and ns: "effects ns db2 = Some db"
    by (auto simp: effects_append split: option.splits)
  obtain ps qs where split: "ss = ps @ qs" "(if deIgnore D then [] else [Inr (PruneShares (map dsName (deShares D)))]) = map stm ps"
      and all: "concat (map (\<lambda>d. Inr (UpsertShare d) # applyShareOptions d) (deShares D)) = map stm qs"
    using parts(3) unfolding share_steps_def map_eq_append_conv by blast
  have qs: "qs = concat (map share_statements (deShares D))" using share_steps_Inr [OF all [symmetric]] .
  have ps: "ps = (if deIgnore D then [] else [PruneShares (map dsName (deShares D))])"
    using split(2) by (auto split: if_splits)
  obtain db3 where prune: "effects ps db1 = Some db3" and rest: "effects qs db3 = Some db2"
    using ss split(1) by (auto simp: effects_append split: option.splits)
  note settled = shares_settled [OF rest [unfolded qs] assms(2)]
  have "\<forall>q \<in> set ns. \<not> touches_shares q" using step_touches(4) parts(4) by blast
  then have db: "gbShares (gnDB s1) = gbShares db2" using effects_frame(1) [OF ns] shares by simp
  have "lsName ` set (gbShares db3) \<subseteq> dsName ` set (deShares D)" if "\<not> deIgnore D"
  proof -
    have "effects [PruneShares (map dsName (deShares D))] db1 = Some db3" using prune ps that by simp
    then have "gbShares db3 = filter (\<lambda>s. lsName s \<in> set (map dsName (deShares D))) (gbShares db1)" by auto
    then show ?thesis by auto
  qed
  then have "deIgnore D \<or> lsName ` set (gbShares db2) \<subseteq> dsName ` set (deShares D)" using settled(3) by blast
  then show ?thesis using settled(1) unfolding db by simp
qed

text \<open>
  C21. After a successful synchronisation of the tables no declared share differs from its row, whatever options
  it declares, and with a complete desired state no other share is left.
\<close>

theorem SyncDB_shares:
  assumes "SyncDB E D s = (None, s1)" and "distinct (map dsName (deShares D))"
  shows "(\<forall>d \<in> set (deShares D). \<exists>r. row lsName (gbShares (gnDB s1)) (dsName d) = Some r \<and> diffShare d r = []) \<and>
         (deIgnore D \<or> lsName ` set (gbShares (gnDB s1)) \<subseteq> dsName ` set (deShares D))"
  by (rule SyncDB_share_rows [OF assms])

text \<open>
  The synchronisation is all or nothing: when it fails the tables are as they were, unless only the LDAP
  settings, which are written after the commit, could not be stored.
\<close>

theorem SyncDB_atomic:
  "\<exists>r s1. SyncDB E D s = (r, s1) \<and>
     (r = None \<or> gnDB s1 = gnDB s \<or> (\<exists>l. deLDAP D = Some l \<and> r = Some (CallFailed (SQL (UpdateLDAP l)))))"
proof -
  obtain r s1 where sync: "SyncDB E D s = (r, s1)" by fastforce
  then consider "r \<noteq> None" "gnDB s1 = gnDB s" | s2 where "reconcileLDAP E (deLDAP D) s2 = (r, s1)"
    unfolding SyncDB_def gseq_def gdo_def by (auto split: prod.splits option.splits if_splits)
  then show ?thesis
  proof cases
    case 2
    then have "r = None \<or> (\<exists>l. deLDAP D = Some l \<and> r = Some (CallFailed (SQL (UpdateLDAP l))))"
      by (auto simp: reconcileLDAP_def run_sql_def split: option.splits)
    then show ?thesis using sync by blast
  qed (use sync in blast)
qed

lemma checkNFS_Inr: "checkNFS d = Inr d' \<Longrightarrow> dnPath d' = dnPath d \<and> dnEnabled d' = dnEnabled d \<and> trim_space (dnOptions d') \<noteq> []"
proof -
  have "trim_space DefaultOptions = DefaultOptions" "DefaultOptions \<noteq> []" by (code_simp, simp add: DefaultOptions_def)
  then show "checkNFS d = Inr d' \<Longrightarrow> dnPath d' = dnPath d \<and> dnEnabled d' = dnEnabled d \<and> trim_space (dnOptions d') \<noteq> []"
    by (auto simp: checkNFS_def Let_def split: if_splits)
qed

definition nfs_statements :: "desired_nfs \<Rightarrow> desired_nfs \<Rightarrow> statement list" where
  "nfs_statements d d' = [DeleteNFSPath (dnPath d), InsertNFS d']"

lemma nfs_steps_Inr:
  "map stm sts = concat (map (\<lambda>d. case checkNFS d of
       Inl e \<Rightarrow> [Inl e] | Inr d' \<Rightarrow> [Inr (DeleteNFSPath (dnPath d)), Inr (InsertNFS d')]) ds) \<Longrightarrow>
   \<exists>cs. list_all2 (\<lambda>d d'. checkNFS d = Inr d') ds cs \<and> sts = concat (map (\<lambda>(d, d'). nfs_statements d d') (zip ds cs))"
proof (induction ds arbitrary: sts)
  case (Cons d ds)
  let ?f = "\<lambda>d. case checkNFS d of Inl e \<Rightarrow> [Inl e] | Inr d' \<Rightarrow> [stm (DeleteNFSPath (dnPath d)), stm (InsertNFS d')]"
  have "?f d @ concat (map ?f ds) = map stm sts" using Cons.prems by simp
  then obtain xs ys where sts: "sts = xs @ ys" and xs: "?f d = map stm xs" and ys: "concat (map ?f ds) = map stm ys"
    unfolding append_eq_map_conv by blast
  from xs obtain d' where d': "checkNFS d = Inr d'" by (cases "checkNFS d") auto
  have "map stm xs = map stm (nfs_statements d d')" using xs d' by (simp add: nfs_statements_def)
  then have "xs = nfs_statements d d'" by (rule map_InrD)
  moreover obtain cs where "list_all2 (\<lambda>d d'. checkNFS d = Inr d') ds cs"
      "ys = concat (map (\<lambda>(d, d'). nfs_statements d d') (zip ds cs))"
    using Cons.IH [OF ys [symmetric]] by blast
  ultimately show ?case using sts d' by (intro exI [of _ "d' # cs"]) simp
qed simp

lemma nfs_settled:
  assumes "effects (concat (map (\<lambda>(d, d'). nfs_statements d d') (zip ds cs))) db = Some db1"
    and "list_all2 (\<lambda>d d'. checkNFS d = Inr d') ds cs" and "distinct (map dnPath ds)"
  shows "\<forall>d \<in> set ds. \<exists>d'. checkNFS d = Inr d' \<and> filter (\<lambda>e. lnPath e = dnPath d) (gbNFS db1) = [nfs_row d']"
    and "\<forall>p. p \<notin> dnPath ` set ds \<longrightarrow> filter (\<lambda>e. lnPath e = p) (gbNFS db1) = filter (\<lambda>e. lnPath e = p) (gbNFS db)"
  using assms
proof (induction ds arbitrary: cs db)
  case (Cons d ds)
  have step: "\<exists>cs' d'. checkNFS d = Inr d' \<and> list_all2 (\<lambda>d d'. checkNFS d = Inr d') ds cs' \<and>
      effects (concat (map (\<lambda>(d, d'). nfs_statements d d') (zip ds cs')))
        (db\<lparr>gbNFS := filter (\<lambda>e. lnPath e \<noteq> dnPath d) (gbNFS db) @ [nfs_row d']\<rparr>) = Some db1"
    if "effects (concat (map (\<lambda>(d, d'). nfs_statements d d') (zip (d # ds) cs))) db = Some db1"
      "list_all2 (\<lambda>d d'. checkNFS d = Inr d') (d # ds) cs" for cs db
    using that by (cases cs) (auto simp: nfs_statements_def)
  {
    case 1
    then obtain cs' d' where d': "checkNFS d = Inr d'" and cs': "list_all2 (\<lambda>d d'. checkNFS d = Inr d') ds cs'"
        and run': "effects (concat (map (\<lambda>(d, d'). nfs_statements d d') (zip ds cs')))
          (db\<lparr>gbNFS := filter (\<lambda>e. lnPath e \<noteq> dnPath d) (gbNFS db) @ [nfs_row d']\<rparr>) = Some db1"
      using step [OF 1(1,2)] by blast
    obtain db2 where db2: "gbNFS db2 = filter (\<lambda>e. lnPath e \<noteq> dnPath d) (gbNFS db) @ [nfs_row d']"
        and run: "effects (concat (map (\<lambda>(d, d'). nfs_statements d d') (zip ds cs'))) db2 = Some db1"
      by (rule that [OF _ run']) simp
    have dist: "distinct (map dnPath ds)" "dnPath d \<notin> dnPath ` set ds" using 1(3) by auto
    have "filter (\<lambda>e. lnPath e = dnPath d) (gbNFS db2) = [nfs_row d']"
      using db2 checkNFS_Inr [OF d'] by (auto simp: nfs_row_def filter_empty_conv)
    then have "filter (\<lambda>e. lnPath e = dnPath d) (gbNFS db1) = [nfs_row d']"
      using Cons.IH(2) [OF run cs' dist(1)] dist(2) by simp
    then show ?case using Cons.IH(1) [OF run cs' dist(1)] d' by simp
  next
    case 2
    then obtain cs' d' where d': "checkNFS d = Inr d'" and cs': "list_all2 (\<lambda>d d'. checkNFS d = Inr d') ds cs'"
        and run': "effects (concat (map (\<lambda>(d, d'). nfs_statements d d') (zip ds cs')))
          (db\<lparr>gbNFS := filter (\<lambda>e. lnPath e \<noteq> dnPath d) (gbNFS db) @ [nfs_row d']\<rparr>) = Some db1"
      using step [OF 2(1,2)] by blast
    obtain db2 where db2: "gbNFS db2 = filter (\<lambda>e. lnPath e \<noteq> dnPath d) (gbNFS db) @ [nfs_row d']"
        and run: "effects (concat (map (\<lambda>(d, d'). nfs_statements d d') (zip ds cs'))) db2 = Some db1"
      by (rule that [OF _ run']) simp
    have dist: "distinct (map dnPath ds)" using 2(3) by auto
    have "filter (\<lambda>e. lnPath e = p) (gbNFS db2) = filter (\<lambda>e. lnPath e = p) (gbNFS db)" if "p \<noteq> dnPath d" for p
    proof -
      have "filter (\<lambda>e. lnPath e = p) (gbNFS db2) = filter (\<lambda>e. lnPath e = p \<and> lnPath e \<noteq> dnPath d) (gbNFS db)"
        using db2 checkNFS_Inr [OF d'] that by (simp add: nfs_row_def conj_commute)
      also have "\<dots> = filter (\<lambda>e. lnPath e = p) (gbNFS db)" by (rule filter_cong) (use that in auto)
      finally show ?thesis .
    qed
    then show ?case using Cons.IH(2) [OF run cs' dist] by simp
  }
qed simp_all

lemma SyncDB_nfs:
  assumes "SyncDB E D s = (None, s1)" and "distinct (map dnPath (deNFS D))" and "d \<in> set (deNFS D)"
  shows "\<exists>d'. checkNFS d = Inr d' \<and> filter (\<lambda>e. lnPath e = dnPath d) (gbNFS (gnDB s1)) = [nfs_row d']"
  using assms(1)
proof (rule SyncDB_None)
  fix us gs ss ns db
  assume ns: "map stm ns = nfs_steps D" and run: "effects (us @ gs @ ss @ ns) (gnDB s) = Some db"
    and nfs: "gbNFS (gnDB s1) = gbNFS db"
  let ?f = "\<lambda>d. case checkNFS d of Inl e \<Rightarrow> [Inl e] | Inr d' \<Rightarrow> [stm (DeleteNFSPath (dnPath d)), stm (InsertNFS d')]"
  from ns obtain ps qs where split: "ns = ps @ qs" and all: "concat (map ?f (deNFS D)) = map stm qs"
    unfolding nfs_steps_def map_eq_append_conv by blast
  obtain db2 where rest: "effects qs db2 = Some db"
    using run split by (auto simp: effects_append split: option.splits)
  obtain cs where cs: "list_all2 (\<lambda>d d'. checkNFS d = Inr d') (deNFS D) cs"
      "qs = concat (map (\<lambda>(d, d'). nfs_statements d d') (zip (deNFS D) cs))"
    using nfs_steps_Inr [OF all [symmetric]] by blast
  then show ?thesis using nfs_settled(1) [OF rest [unfolded cs(2)] cs(1) assms(2)] assms(3) nfs by simp
qed

text \<open>
  An export declared without options never settles: the table gets the default options, the plan compares
  them with the empty text of the declaration and modifies the export again.
\<close>

theorem nfs_defaults_never_settle:
  assumes "SyncDB E D s = (None, s1)" and "distinct (map dnPath (deNFS D))" and "d \<in> set (deNFS D)"
    and "trim_space (dnOptions d) = []"
  shows "\<exists>r. filter (\<lambda>e. lnPath e = dnPath d) (gbNFS (gnDB s1)) = [r] \<and> diffNFS d r \<noteq> []"
proof -
  obtain d' where d': "checkNFS d = Inr d'" and r: "filter (\<lambda>e. lnPath e = dnPath d) (gbNFS (gnDB s1)) = [nfs_row d']"
    using SyncDB_nfs [OF assms(1-3)] by blast
  have "dnOptions d \<noteq> lnOptions (nfs_row d')" using checkNFS_Inr [OF d'] assms(4) by (auto simp: nfs_row_def)
  then have "diffNFS d (nfs_row d') \<noteq> []" by (simp add: diffNFS_def quoted_change_def noted_def)
  with r show ?thesis by blast
qed

section \<open>Samples\<close>

definition calm_genv :: genv where
  "calm_genv =
     \<lparr>geOk = (\<lambda>tr c. True), geText = (\<lambda>tr c. []), geListing = (\<lambda>tr n. None), geEntries = (\<lambda>tr d. None),
      geSmbstatus = (\<lambda>tr. None), geGuard = None, gePeers = (\<lambda>tr. []), geLive = (\<lambda>tr. nothing_live),
      geAttached = (\<lambda>tr. \<lparr>atShares = None, atNFS = None, atISCSI = None, atStacks = None\<rparr>), geOrder = (\<lambda>ps. ps),
      geSamba = True, geExports = True, geNetworkd = True\<rparr>"

definition empty_gitdb :: gitdb where
  "empty_gitdb =
     \<lparr>gbUsers = [], gbGroups = [], gbMembers = [], gbShares = [], gbNFS = [], gbLDAP = None, gbACME = None,
      gbCerts = [], gbSMART = []\<rparr>"

definition sample_gnode :: gnode where
  "sample_gnode = \<lparr>gnDB = empty_gitdb, gnNetwork = no_network, gnSchedules = [], gnTargets = [], gnTrace = []\<rparr>"

definition sample_share :: desired_share where
  "sample_share =
     \<lparr>dsName = ''media'', dsPath = ''/tank/media'', dsReadOnly = True, dsValidUsers = [], dsComment = [],
      dsGuestOK = False, dsTimeMachine = Some True, dsTimeMachineQuota = Some ''500G'', dsShadowCopy = None,
      dsRecycleBin = None, dsHostsAllow = None, dsHostsDeny = None\<rparr>"

definition sample_nfs :: desired_nfs where
  "sample_nfs = \<lparr>dnPath = ''/tank/media'', dnClients = [], dnOptions = [], dnEnabled = True\<rparr>"

definition sharing :: desired_state where
  "sharing = nothing_desired\<lparr>deShares := [sample_share], deNFS := [sample_nfs]\<rparr>"

fun never_fails :: "statement \<Rightarrow> bool" where
  "never_fails (AddMember g m) = False"
| "never_fails (UpsertNFS d) = False"
| "never_fails q = True"

lemma effect_total: "never_fails q \<Longrightarrow> \<exists>db1. effect q db = Some db1"
  by (cases q) auto

lemma calm_ok [simp]: "geOk calm_genv tr c"
  by (simp add: calm_genv_def)

lemma calm_gdo: "gdo calm_genv c s = (None, traced c s)"
  by (simp add: gdo_def)

lemma calm_run: "\<forall>x \<in> set qs. \<exists>q. x = Inr q \<and> never_fails q \<Longrightarrow> fst (run_steps calm_genv qs s) = None"
proof (induction qs arbitrary: s)
  case (Cons x qs)
  then obtain q db1 where x: "x = Inr q" and "effect q (gnDB s) = Some db1" using effect_total by fastforce
  then have "run_sql calm_genv q s = (None, (traced (SQL q) s)\<lparr>gnDB := db1\<rparr>)" by (simp add: run_sql_def)
  then show ?case using Cons x by (simp add: gseq_def)
qed simp

lemma calm_SyncDB:
  assumes "\<forall>x \<in> set (sync_steps D). \<exists>q. x = Inr q \<and> never_fails q"
  shows "fst (SyncDB calm_genv D s) = None"
proof -
  obtain s2 where "run_steps calm_genv (sync_steps D) (traced Tx s) = (None, s2)"
    using calm_run [OF assms, of "traced Tx s"] by (metis prod.collapse)
  moreover have "fst (reconcileLDAP calm_genv l s1) = None" for l s1
    by (auto simp: reconcileLDAP_def run_sql_def split: option.split)
  ultimately show ?thesis by (simp add: SyncDB_def gseq_def calm_gdo)
qed

lemma sample_share_ok: "share_options_ok sample_share"
  by code_simp

lemma sample_nfs_ok: "checkNFS sample_nfs = Inr (sample_nfs\<lparr>dnClients := ''*'', dnOptions := DefaultOptions\<rparr>)"
  by code_simp

lemma sharing_syncs: "fst (SyncDB calm_genv sharing sample_gnode) = None"
  by (rule calm_SyncDB)
     (auto simp: sync_steps_def user_steps_def groups_steps_def share_steps_def nfs_steps_def sharing_def nothing_desired_def
       applyShareOptions_def sample_share_ok sample_nfs_ok)

lemma SyncDB_shares_witness:
  "\<exists>r. row lsName (gbShares (gnDB (snd (SyncDB calm_genv sharing sample_gnode)))) ''media'' = Some r \<and>
       diffShare sample_share r = []"
proof -
  have "SyncDB calm_genv sharing sample_gnode = (None, snd (SyncDB calm_genv sharing sample_gnode))"
    using sharing_syncs by (metis prod.collapse)
  from SyncDB_shares [OF this] show ?thesis by (simp add: sharing_def sample_share_def)
qed

lemma nfs_defaults_never_settle_witness:
  "\<exists>r. filter (\<lambda>e. lnPath e = ''/tank/media'') (gbNFS (gnDB (snd (SyncDB calm_genv sharing sample_gnode)))) = [r] \<and>
       diffNFS sample_nfs r \<noteq> []"
proof -
  have "SyncDB calm_genv sharing sample_gnode = (None, snd (SyncDB calm_genv sharing sample_gnode))"
    using sharing_syncs by (metis prod.collapse)
  from nfs_defaults_never_settle [OF this, of sample_nfs] show ?thesis
    by (simp add: sharing_def sample_nfs_def trim_space_def)
qed

end
