(* ===== verification/GitApply.thy ===== *)
theory GitApply
  imports GitStore
begin

text \<open>
  The apply engine (\<open>gitops/apply.go\<close>): the operation behind every kind of item, the checks repeated when an item
  is executed, the loop over the plan, and the checks after it. Every call that reaches the system is in the trace
  of the node.
\<close>

section \<open>Change texts\<close>

text \<open>\<open>strings.Cut\<close>\<close>

fun cut_text :: "string \<Rightarrow> string \<Rightarrow> (string \<times> string) option" where
  "cut_text [] p = (if p = [] then Some ([], []) else None)"
| "cut_text (c # cs) p =
     (if has_prefix (c # cs) p then Some ([], drop (length p) (c # cs))
      else map_option (\<lambda>(a, b). (c # a, b)) (cut_text cs p))"

definition parseChangeString :: "string \<Rightarrow> (string \<times> string) option" where
  "parseChangeString c =
     (case cut_text c arrow of
        None \<Rightarrow> None
      | Some (before, aft) \<Rightarrow>
          (case cut_text before '': '' of None \<Rightarrow> None | Some (p, _) \<Rightarrow> Some (trim_space p, trim_space aft)))"

definition datasetProperties :: "string list" where
  "datasetProperties =
     [''compression'', ''atime'', ''mountpoint'', ''quota'', ''sync'', ''recordsize'', ''xattr'', ''secondarycache'']"

definition datasetPropName :: "string \<Rightarrow> string" where
  "datasetPropName n = (if n \<in> set datasetProperties then n else [])"

section \<open>Pools\<close>

definition createPool :: "genv \<Rightarrow> desired_pool \<Rightarrow> gnode \<Rightarrow> git_error option gresult" where
  "createPool E dp s = (case ZpoolCreateFullArgs dp True of Inl e \<Rightarrow> (Some (PoolArgs e), s) | Inr args \<Rightarrow> gdo E (ZpoolCreate args) s)"

text \<open>The property a change sets; other changes of a pool are left to the operator.\<close>

definition pool_property :: "string \<Rightarrow> (string \<times> string) option" where
  "pool_property c =
     (if \<not> has_prefix c ''zpool-set:'' then None
      else case cut_at CHR ''='' (trim_space (drop (length ''zpool-set:'') c)) of
        None \<Rightarrow> None
      | Some (k, v) \<Rightarrow> if k = [] \<or> v = [] \<or> trim_space k = [] then None else Some (trim_space k, trim_space v))"

definition PoolSetProperty :: "genv \<Rightarrow> string \<Rightarrow> string \<Rightarrow> string \<Rightarrow> gnode \<Rightarrow> git_error option gresult" where
  "PoolSetProperty E n k v s = (if \<not> ValidatePoolName n then (Some (BadPoolName n), s) else gdo E (ZpoolSet n k v) s)"

fun modifyPool :: "genv \<Rightarrow> string \<Rightarrow> string list \<Rightarrow> gnode \<Rightarrow> git_error option gresult" where
  "modifyPool E n [] s = (None, s)"
| "modifyPool E n (c # cs) s =
     (case pool_property c of
        None \<Rightarrow> modifyPool E n cs s
      | Some (k, v) \<Rightarrow> gseq (PoolSetProperty E n k v s) (modifyPool E n cs))"

fun executeReshape :: "genv \<Rightarrow> string \<Rightarrow> string list \<Rightarrow> gnode \<Rightarrow> git_error option gresult" where
  "executeReshape E n [] s = (None, s)"
| "executeReshape E n (c # cs) s =
     (if \<not> classifyTopologyChange c then executeReshape E n cs s
      else case reshape_command n c of
        Inl e \<Rightarrow> (Some (ReshapeFailed e), s)
      | Inr args \<Rightarrow> gseq (gdo E (ZpoolAdd args) s) (executeReshape E n cs))"

text \<open>Whether a dataset is empty, asked when its item is executed.\<close>

definition empty_answer :: "genv \<Rightarrow> gcall list \<Rightarrow> string \<Rightarrow> empty_error + bool \<times> holding" where
  "empty_answer E tr n = datasetEmptyImpl (geListing E tr n) (geEntries E tr) n"

definition when_empty :: "genv \<Rightarrow> string \<Rightarrow> (gnode \<Rightarrow> git_error option gresult) \<Rightarrow> gnode \<Rightarrow> git_error option gresult" where
  "when_empty E n f s =
     (case empty_answer E (gnTrace s) n of
        Inl e \<Rightarrow> (Some (CannotVerify n e), traced (AskEmpty n) s)
      | Inr (nothing, h) \<Rightarrow>
          if nothing then f (traced (AskEmpty n) s) else (Some (NotEmpty n h), traced (AskEmpty n) s))"

definition PoolDestroy :: "genv \<Rightarrow> string \<Rightarrow> gnode \<Rightarrow> git_error option gresult" where
  "PoolDestroy E n s = (if \<not> ValidatePoolName n then (Some (BadPoolName n), s) else gdo E (ZpoolDestroy n) s)"

definition destroyPool :: "genv \<Rightarrow> string \<Rightarrow> gnode \<Rightarrow> git_error option gresult" where
  "destroyPool E n = when_empty E n (PoolDestroy E n)"

section \<open>Datasets\<close>

definition on_dataset :: "genv \<Rightarrow> string \<Rightarrow> gcall \<Rightarrow> gnode \<Rightarrow> git_error option gresult" where
  "on_dataset E n c s = (if \<not> ValidateDatasetName n then (Some (BadDatasetName n), s) else gdo E c s)"

definition DatasetCreate :: "genv \<Rightarrow> string \<Rightarrow> gnode \<Rightarrow> git_error option gresult" where
  "DatasetCreate E n = on_dataset E n (ZfsCreate n)"

definition DatasetSet :: "genv \<Rightarrow> string \<Rightarrow> string \<Rightarrow> string \<Rightarrow> gnode \<Rightarrow> git_error option gresult" where
  "DatasetSet E n p v = on_dataset E n (ZfsSet n p v)"

definition DatasetDestroy :: "genv \<Rightarrow> string \<Rightarrow> gnode \<Rightarrow> git_error option gresult" where
  "DatasetDestroy E n = on_dataset E n (ZfsDestroy n)"

text \<open>A property that cannot be set takes the new dataset away again.\<close>

fun set_new_props :: "genv \<Rightarrow> string \<Rightarrow> (string \<times> string) list \<Rightarrow> gnode \<Rightarrow> git_error option gresult" where
  "set_new_props E n [] s = (None, s)"
| "set_new_props E n ((p, v) # ps) s =
     (case DatasetSet E n p v s of
        (None, s1) \<Rightarrow> set_new_props E n ps s1
      | (Some e, s1) \<Rightarrow> (Some e, snd (DatasetDestroy E n s1)))"

definition DatasetCreateWithProps :: "genv \<Rightarrow> string \<Rightarrow> (string \<times> string) list \<Rightarrow> gnode \<Rightarrow> git_error option gresult" where
  "DatasetCreateWithProps E n props s = gseq (DatasetCreate E n s) (set_new_props E n (geOrder E props))"

definition desired_props :: "desired_dataset \<Rightarrow> (string \<times> string) list" where
  "desired_props d =
     filter (\<lambda>(p, v). v \<noteq> [])
       [(''mountpoint'', ddMountpoint d), (''compression'', ddCompression d),
        (''quota'', if ddQuota d = ''none'' then [] else ddQuota d), (''atime'', ddAtime d), (''sync'', ddSync d),
        (''recordsize'', ddRecordsize d), (''xattr'', ddXattr d), (''secondarycache'', ddSecondarycache d)]"

definition restore_source :: "desired_dataset option \<Rightarrow> string option" where
  "restore_source d =
     (case d of
        None \<Rightarrow> None
      | Some d \<Rightarrow>
          (case ddRestore d of
             None \<Rightarrow> None
           | Some r \<Rightarrow> if rsType r = ''zfs-send'' \<and> rsSource r \<noteq> [] then Some (rsSource r) else None))"

definition shell_chars :: string where
  "shell_chars = '';|&$'' @ [CHR 0x60, CHR 0x5C, CHR 0x22, CHR 0x27, CHR '' '', CHR 0x09, CHR 0x0A]"

definition createDataset :: "genv \<Rightarrow> string \<Rightarrow> desired_dataset option \<Rightarrow> gnode \<Rightarrow> git_error option gresult" where
  "createDataset E n d s =
     (let s1 = traced (ZfsExists n) s in
      if geOk E (gnTrace s) (ZfsExists n) \<and> trim_space (geText E (gnTrace s) (ZfsExists n)) = n then (None, s1)
      else case restore_source d of
        Some src \<Rightarrow>
          (if contains_any src shell_chars then (Some (BadSource src), s1)
           else case cut_at CHR '':'' src of
             None \<Rightarrow> (Some (BadSource src), s1)
           | Some (host, remote) \<Rightarrow> gdo E (ZfsReceive host remote n) s1)
      | None \<Rightarrow> DatasetCreateWithProps E n (case d of None \<Rightarrow> [] | Some d \<Rightarrow> desired_props d) s1)"

fun modifyDataset :: "genv \<Rightarrow> string \<Rightarrow> string list \<Rightarrow> gnode \<Rightarrow> git_error option gresult" where
  "modifyDataset E n [] s = (None, s)"
| "modifyDataset E n (c # cs) s =
     (case parseChangeString c of
        None \<Rightarrow> modifyDataset E n cs s
      | Some (p, v) \<Rightarrow>
          if datasetPropName p = [] then modifyDataset E n cs s
          else gseq (DatasetSet E n (datasetPropName p) v s) (modifyDataset E n cs))"

definition deleteDataset :: "genv \<Rightarrow> string \<Rightarrow> gnode \<Rightarrow> git_error option gresult" where
  "deleteDataset E n = when_empty E n (DatasetDestroy E n)"

section \<open>Shares and exports\<close>

definition reloadSamba :: "genv \<Rightarrow> gnode \<Rightarrow> git_error option gresult" where
  "reloadSamba E s = (None, if geSamba E then traced ReloadSamba s else s)"

definition createShare :: "genv \<Rightarrow> string \<Rightarrow> desired_share option \<Rightarrow> gnode \<Rightarrow> git_error option gresult" where
  "createShare E n d s =
     (case d of
        None \<Rightarrow> (Some (MissingSpec n), s)
      | Some d \<Rightarrow>
          (let d = d\<lparr>dsName := n\<rparr> in
           gseq (run_steps E (Inr (UpsertShare d) # applyShareOptions d) s) (reloadSamba E)))"

definition modifyShare :: "genv \<Rightarrow> string \<Rightarrow> desired_share option \<Rightarrow> gnode \<Rightarrow> git_error option gresult" where
  "modifyShare E n d = createShare E n d"

definition active_now :: "genv \<Rightarrow> gcall list \<Rightarrow> string \<Rightarrow> bool" where
  "active_now E tr n = HasActiveSMBConnections (geSmbstatus E tr) n"

definition deleteShare :: "genv \<Rightarrow> string \<Rightarrow> gnode \<Rightarrow> git_error option gresult" where
  "deleteShare E n s =
     (if active_now E (gnTrace s) n then (Some (InUse n), traced (AskConnections n) s)
      else gseq (run_sql E (DeleteShareRow n) (traced (AskConnections n) s)) (reloadSamba E))"

definition exports_text :: "gitdb \<Rightarrow> string" where
  "exports_text db = concat (map (\<lambda>e. Lines (lnPath e) (lnClients e) (lnOptions e)) (filter lnEnabled (gbNFS db)))"

text \<open>Failures of the reload are only logged.\<close>

definition reloadNFS :: "genv \<Rightarrow> gnode \<Rightarrow> git_error option gresult" where
  "reloadNFS E s =
     (None,
      if \<not> geExports E then s
      else snd (gseq (gdo E QueryExports s) (\<lambda>s1. gseq (gdo E (WriteExports (exports_text (gnDB s1))) s1) (gdo E Exportfs))))"

definition createNFS :: "genv \<Rightarrow> string \<Rightarrow> desired_nfs option \<Rightarrow> gnode \<Rightarrow> git_error option gresult" where
  "createNFS E p d s =
     (case d of
        None \<Rightarrow> (Some (MissingSpec p), s)
      | Some d \<Rightarrow>
          (case checkNFS (d\<lparr>dnPath := p\<rparr>) of
             Inl e \<Rightarrow> (Some e, s)
           | Inr d' \<Rightarrow> gseq (run_sql E (UpsertNFS d') s) (reloadNFS E)))"

definition modifyNFS :: "genv \<Rightarrow> string \<Rightarrow> desired_nfs option \<Rightarrow> gnode \<Rightarrow> git_error option gresult" where
  "modifyNFS E p d = createNFS E p d"

definition deleteNFS :: "genv \<Rightarrow> string \<Rightarrow> gnode \<Rightarrow> git_error option gresult" where
  "deleteNFS E p s = gseq (run_sql E (DeleteNFSPath p) s) (reloadNFS E)"

section \<open>Stacks\<close>

definition createStack :: "genv \<Rightarrow> string \<Rightarrow> desired_stack option \<Rightarrow> gnode \<Rightarrow> git_error option gresult" where
  "createStack E n d s =
     (case d of
        None \<Rightarrow> (Some (MissingSpec n), s)
      | Some d \<Rightarrow>
          gseq (gdo E (CheckCompose (dkYAML d)) s) (\<lambda>s1.
          gseq (gdo E (WriteStack n (dkYAML d)) s1) (gdo E (ComposeUp n))))"

definition modifyStack :: "genv \<Rightarrow> string \<Rightarrow> desired_stack option \<Rightarrow> gnode \<Rightarrow> git_error option gresult" where
  "modifyStack E n d = createStack E n d"

definition deleteStack :: "genv \<Rightarrow> string \<Rightarrow> gnode \<Rightarrow> git_error option gresult" where
  "deleteStack E n s =
     (let s1 = traced (StatStack n) s in
      gdo E (RemoveStack n) (if geOk E (gnTrace s) (StatStack n) then traced (ComposeDown n) s1 else s1))"

section \<open>Users and groups\<close>

definition sync_accounts :: "gnode \<Rightarrow> git_error option gresult" where
  "sync_accounts s = (None, traced SyncAccounts s)"

definition reconcileUser :: "genv \<Rightarrow> string \<Rightarrow> desired_user option \<Rightarrow> gnode \<Rightarrow> git_error option gresult" where
  "reconcileUser E n d s =
     (case d of None \<Rightarrow> (Some (MissingSpec n), s) | Some d \<Rightarrow> gseq (run_sql E (UpsertUser (d\<lparr>duName := n\<rparr>)) s) sync_accounts)"

definition deleteUser :: "genv \<Rightarrow> string \<Rightarrow> gnode \<Rightarrow> git_error option gresult" where
  "deleteUser E n s =
     (if n = ''admin'' \<or> n = ''root'' then (Some (Protected n), s) else gseq (run_sql E (DeleteUser n) s) sync_accounts)"

definition reconcileGroup :: "genv \<Rightarrow> string \<Rightarrow> desired_group option \<Rightarrow> gnode \<Rightarrow> git_error option gresult" where
  "reconcileGroup E n d s =
     (case d of None \<Rightarrow> (Some (MissingSpec n), s) | Some d \<Rightarrow> gseq (run_steps E (group_steps (d\<lparr>dgName := n\<rparr>)) s) sync_accounts)"

text \<open>Members that cannot be cleared do not stop the deletion.\<close>

definition deleteGroup :: "genv \<Rightarrow> string \<Rightarrow> gnode \<Rightarrow> git_error option gresult" where
  "deleteGroup E n s = gseq (run_sql E (DeleteGroup n) (snd (run_sql E (ClearMembers n) s))) sync_accounts"

section \<open>Replication schedules\<close>

text \<open>A stored schedule keeps the id of its peer where \<open>state.yaml\<close> has the name.\<close>

definition validReplIntervals :: "string list" where
  "validReplIntervals = [''hourly'', ''daily'', ''weekly'', ''manual'']"

text \<open>The last schedule of the name is replaced, or the new one is added at the end.\<close>

fun replace_first :: "('a \<Rightarrow> bool) \<Rightarrow> 'a \<Rightarrow> 'a list \<Rightarrow> 'a list" where
  "replace_first P x [] = []"
| "replace_first P x (y # ys) = (if P y then x # ys else y # replace_first P x ys)"

definition put_schedule :: "replication \<Rightarrow> replication list \<Rightarrow> replication list" where
  "put_schedule r rs =
     (if \<exists>q \<in> set rs. drName q = drName r then rev (replace_first (\<lambda>q. drName q = drName r) r (rev rs)) else rs @ [r])"

definition writeScheduleRecords :: "genv \<Rightarrow> replication list \<Rightarrow> gnode \<Rightarrow> git_error option gresult" where
  "writeScheduleRecords E rs s =
     (case gdo E WriteSchedules s of (None, s1) \<Rightarrow> (None, s1\<lparr>gnSchedules := rs\<rparr>) | (Some e, s1) \<Rightarrow> (Some e, s1))"

definition reconcileReplication :: "genv \<Rightarrow> string \<Rightarrow> replication option \<Rightarrow> gnode \<Rightarrow> git_error option gresult" where
  "reconcileReplication E n d s =
     (case d of
        None \<Rightarrow> (Some (MissingSpec n), s)
      | Some d \<Rightarrow>
          if drInterval d \<notin> set validReplIntervals \<or> \<not> ValidateDatasetName (drSource d) \<or> \<not> ValidateDatasetName (drRemotePool d) then
            (Some (BadReplication n), s)
          else gseq (gdo E ReadPeers s) (\<lambda>s1.
            case last_with snd (drRemote d) (gePeers E (gnTrace s)) of
              None \<Rightarrow> (Some (UnknownPeer n), s1)
            | Some (pid, _) \<Rightarrow>
                gseq (gdo E ReadSchedules s1) (\<lambda>s2.
                  writeScheduleRecords E (put_schedule (d\<lparr>drName := n, drRemote := pid\<rparr>) (gnSchedules s2)) s2)))"

definition deleteReplication :: "genv \<Rightarrow> string \<Rightarrow> gnode \<Rightarrow> git_error option gresult" where
  "deleteReplication E n s =
     gseq (gdo E ReadSchedules s) (\<lambda>s1. writeScheduleRecords E (filter (\<lambda>q. drName q \<noteq> n) (gnSchedules s1)) s1)"

definition readLiveReplication :: "(string \<times> string) list \<Rightarrow> replication list \<Rightarrow> replication list" where
  "readLiveReplication peers rs =
     map (\<lambda>q. case last_with fst (drRemote q) peers of
         None \<Rightarrow> q
       | Some (pid, name) \<Rightarrow> if name = [] then q else q\<lparr>drRemote := name\<rparr>) rs"

section \<open>The system\<close>

text \<open>What the Nix writer is told; its answers are not looked at.\<close>

definition system_calls :: "desired_system \<Rightarrow> gcall list" where
  "system_calls d =
     (if dyHostname d \<noteq> [] then [SetHostname (dyHostname d)] else []) @
     (if dyTimezone d \<noteq> [] then [SetTimezone (dyTimezone d)] else []) @
     (if dyNTP d \<noteq> [] then [SetNTP (dyNTP d)] else []) @
     [SetFirewall (dyTCP d) (dyUDP d), SetSambaGlobals (dySamba d)]"

definition apply_network :: "genv \<Rightarrow> desired_system \<Rightarrow> gnode \<Rightarrow> git_error option gresult" where
  "apply_network E d s =
     (if geNetworkd E then
        let next = desiredNetworkState (gnNetwork s) d in
        (case ValidateNet next of
           Some e \<Rightarrow> (Some (BadNetwork e), s)
         | None \<Rightarrow> (case gdo E (NetApply next) s of (r, s1) \<Rightarrow> (r, s1\<lparr>gnNetwork := next\<rparr>)))
      else if dyStatics d \<noteq> [] \<or> dyBonds d \<noteq> [] \<or> dyVLANs d \<noteq> [] \<or> dyDNS d \<noteq> [] then (Some NoNetworkd, s)
      else (None, s))"

definition reconcileSystem :: "genv \<Rightarrow> desired_system option \<Rightarrow> gnode \<Rightarrow> git_error option gresult" where
  "reconcileSystem E d s =
     (case d of
        None \<Rightarrow> (None, s)
      | Some d \<Rightarrow>
          gseq (apply_network E d (fold traced (system_calls d) s)) (\<lambda>s1.
            (None, if dySSHPort d \<noteq> 0 \<or> dySSHPassword d \<noteq> None \<or> dySSHRoot d \<noteq> []
                   then traced (SetSSH (dySSHPort d) (dySSHPassword d) (dySSHRoot d)) s1 else s1)))"

section \<open>ACME, certificates and SMART tasks\<close>

definition run_spec :: "genv \<Rightarrow> ('d \<Rightarrow> statement) \<Rightarrow> 'd option \<Rightarrow> gnode \<Rightarrow> git_error option gresult" where
  "run_spec E q d s = (case d of None \<Rightarrow> (None, s) | Some d \<Rightarrow> run_sql E (q d) s)"

definition reconcileACME :: "genv \<Rightarrow> acme_config option \<Rightarrow> gnode \<Rightarrow> git_error option gresult" where
  "reconcileACME E = run_spec E UpdateACME"

definition disableACME :: "genv \<Rightarrow> gnode \<Rightarrow> git_error option gresult" where
  "disableACME E = run_sql E DisableACME"

definition reconcileCertificate :: "genv \<Rightarrow> certificate option \<Rightarrow> gnode \<Rightarrow> git_error option gresult" where
  "reconcileCertificate E = run_spec E UpsertCertificate"

definition deleteCertificate :: "genv \<Rightarrow> string \<Rightarrow> gnode \<Rightarrow> git_error option gresult" where
  "deleteCertificate E n = run_sql E (DeleteCertificate n)"

definition reconcileSMART :: "genv \<Rightarrow> smart_task option \<Rightarrow> gnode \<Rightarrow> git_error option gresult" where
  "reconcileSMART E = run_spec E UpsertSMART"

text \<open>The name of a task is \<open>device-type\<close>; it is cut at its first hyphen.\<close>

definition deleteSMART :: "genv \<Rightarrow> string \<Rightarrow> gnode \<Rightarrow> git_error option gresult" where
  "deleteSMART E n s =
     (case cut_at CHR ''-'' n of None \<Rightarrow> (Some (BadSMARTName n), s) | Some (d, t) \<Rightarrow> run_sql E (DeleteSMARTRow d t) s)"

section \<open>Executing an item\<close>

definition spec_dataset :: "diff_item \<Rightarrow> desired_dataset option" where
  "spec_dataset i = (case diSpec i of DatasetSpec d \<Rightarrow> Some d | _ \<Rightarrow> None)"

definition spec_share :: "diff_item \<Rightarrow> desired_share option" where
  "spec_share i = (case diSpec i of ShareSpec d \<Rightarrow> Some d | _ \<Rightarrow> None)"

definition spec_stack :: "diff_item \<Rightarrow> desired_stack option" where
  "spec_stack i = (case diSpec i of StackSpec d \<Rightarrow> Some d | _ \<Rightarrow> None)"

definition spec_nfs :: "diff_item \<Rightarrow> desired_nfs option" where
  "spec_nfs i = (case diSpec i of NFSSpec d \<Rightarrow> Some d | _ \<Rightarrow> None)"

definition spec_user :: "diff_item \<Rightarrow> desired_user option" where
  "spec_user i = (case diSpec i of UserSpec d \<Rightarrow> Some d | _ \<Rightarrow> None)"

definition spec_group :: "diff_item \<Rightarrow> desired_group option" where
  "spec_group i = (case diSpec i of GroupSpec d \<Rightarrow> Some d | _ \<Rightarrow> None)"

definition spec_replication :: "diff_item \<Rightarrow> replication option" where
  "spec_replication i = (case diSpec i of ReplicationSpec d \<Rightarrow> Some d | _ \<Rightarrow> None)"

definition spec_ldap :: "diff_item \<Rightarrow> ldap_config option" where
  "spec_ldap i = (case diSpec i of LDAPSpec d \<Rightarrow> Some d | _ \<Rightarrow> None)"

definition spec_acme :: "diff_item \<Rightarrow> acme_config option" where
  "spec_acme i = (case diSpec i of ACMESpec d \<Rightarrow> Some d | _ \<Rightarrow> None)"

definition spec_certificate :: "diff_item \<Rightarrow> certificate option" where
  "spec_certificate i = (case diSpec i of CertificateSpec d \<Rightarrow> Some d | _ \<Rightarrow> None)"

definition spec_smart :: "diff_item \<Rightarrow> smart_task option" where
  "spec_smart i = (case diSpec i of SMARTSpec d \<Rightarrow> Some d | _ \<Rightarrow> None)"

definition spec_system :: "diff_item \<Rightarrow> desired_system option" where
  "spec_system i = (case diSpec i of SystemSpec d \<Rightarrow> Some d | _ \<Rightarrow> None)"

text \<open>The kinds that are created and modified by the same operation.\<close>

definition reconcile_item :: "genv \<Rightarrow> diff_item \<Rightarrow> gnode \<Rightarrow> git_error option gresult" where
  "reconcile_item E i s =
     (case diKind i of
        KindUser \<Rightarrow> reconcileUser E (diName i) (spec_user i) s
      | KindGroup \<Rightarrow> reconcileGroup E (diName i) (spec_group i) s
      | KindReplication \<Rightarrow> reconcileReplication E (diName i) (spec_replication i) s
      | KindLDAP \<Rightarrow> reconcileLDAP E (spec_ldap i) s
      | KindACME \<Rightarrow> reconcileACME E (spec_acme i) s
      | KindCertificate \<Rightarrow> reconcileCertificate E (spec_certificate i) s
      | KindSMART \<Rightarrow> reconcileSMART E (spec_smart i) s
      | KindNVMeFabric \<Rightarrow> (None, s)
      | k \<Rightarrow> (Some (UnknownKind k), s))"

definition executeCreate :: "genv \<Rightarrow> diff_item \<Rightarrow> gnode \<Rightarrow> git_error option gresult" where
  "executeCreate E i s =
     (case diKind i of
        KindDataset \<Rightarrow> createDataset E (diName i) (spec_dataset i) s
      | KindShare \<Rightarrow> createShare E (diName i) (spec_share i) s
      | KindPool \<Rightarrow> (case diSpec i of PoolSpec dp \<Rightarrow> createPool E dp s | _ \<Rightarrow> (Some (MissingSpec (diName i)), s))
      | KindStack \<Rightarrow> createStack E (diName i) (spec_stack i) s
      | KindNFS \<Rightarrow> createNFS E (diName i) (spec_nfs i) s
      | _ \<Rightarrow> reconcile_item E i s)"

definition executeModify :: "genv \<Rightarrow> diff_item \<Rightarrow> gnode \<Rightarrow> git_error option gresult" where
  "executeModify E i s =
     (case diKind i of
        KindDataset \<Rightarrow> modifyDataset E (diName i) (diChanges i) s
      | KindShare \<Rightarrow> modifyShare E (diName i) (spec_share i) s
      | KindPool \<Rightarrow> modifyPool E (diName i) (diChanges i) s
      | KindStack \<Rightarrow> modifyStack E (diName i) (spec_stack i) s
      | KindNFS \<Rightarrow> modifyNFS E (diName i) (spec_nfs i) s
      | KindSystem \<Rightarrow> reconcileSystem E (spec_system i) s
      | _ \<Rightarrow> reconcile_item E i s)"

definition executeDelete :: "genv \<Rightarrow> diff_item \<Rightarrow> gnode \<Rightarrow> git_error option gresult" where
  "executeDelete E i s =
     (case diKind i of
        KindDataset \<Rightarrow> deleteDataset E (diName i) s
      | KindShare \<Rightarrow> deleteShare E (diName i) s
      | KindPool \<Rightarrow> destroyPool E (diName i) s
      | KindStack \<Rightarrow> deleteStack E (diName i) s
      | KindNFS \<Rightarrow> deleteNFS E (diName i) s
      | KindUser \<Rightarrow> deleteUser E (diName i) s
      | KindGroup \<Rightarrow> deleteGroup E (diName i) s
      | KindReplication \<Rightarrow> deleteReplication E (diName i) s
      | KindACME \<Rightarrow> disableACME E s
      | KindCertificate \<Rightarrow> deleteCertificate E (diName i) s
      | KindSMART \<Rightarrow> deleteSMART E (diName i) s
      | KindNVMeFabric \<Rightarrow> (None, s)
      | k \<Rightarrow> (Some (UnknownKind k), s))"

section \<open>The plan\<close>

text \<open>Datasets a stack may use are mounted where they are declared to be.\<close>

fun check_mounts :: "genv \<Rightarrow> desired_dataset list \<Rightarrow> gnode \<Rightarrow> git_error option gresult" where
  "check_mounts E [] s = (None, s)"
| "check_mounts E (d # ds) s =
     (if ddMountpoint d = ''none'' \<or> ddMountpoint d = ''legacy'' then check_mounts E ds s
      else gseq (gdo E (ZfsMounted (ddName d)) s) (\<lambda>s1.
        if trim_space (geText E (gnTrace s) (ZfsMounted (ddName d))) \<noteq> ''yes'' then (Some (NotReady (ddName d)), s1)
        else if ddMountpoint d = [] then check_mounts E ds s1
        else gseq (gdo E (ZfsMountpoint (ddName d)) s1) (\<lambda>s2.
          if trim_space (geText E (gnTrace s1) (ZfsMountpoint (ddName d))) \<noteq> ddMountpoint d then (Some (NotReady (ddName d)), s2)
          else check_mounts E ds s2)))"

definition checkDataReadiness :: "genv \<Rightarrow> desired_state option \<Rightarrow> gnode \<Rightarrow> git_error option gresult" where
  "checkDataReadiness E D s = (case D of None \<Rightarrow> (None, s) | Some D \<Rightarrow> check_mounts E (deDatasets D) s)"

datatype apply_status = StatusOK | StatusDegraded | StatusFailed
datatype halt_reason =
    NoHalt | DBSyncFailure | DataNotReady | BlockedUnapproved | ExecuteFailure | AmbiguousState | NVMeFabricFailure
datatype convergence = NotChecked | Skipped | CheckError | Converged | Degraded | NotConverged | CheckFailed

datatype applied =
    Deferred diff_action string | ApprovedDelete diff_kind string | ManualRequired diff_kind string
  | Reshaped string | Created diff_kind string | Modified diff_kind string | Deleted diff_kind string | SyncedFabric

record apply_result =
  arApplied :: "applied list"
  arFailed :: string
  arError :: "git_error option"
  arStatus :: apply_status
  arHalt :: halt_reason
  arConvergence :: convergence
  arFunctional :: "bool option"

definition no_result :: apply_result where
  "no_result =
     \<lparr>arApplied = [], arFailed = [], arError = None, arStatus = StatusOK, arHalt = NoHalt, arConvergence = NotChecked,
      arFunctional = None\<rparr>"

definition halted :: "string \<Rightarrow> apply_status \<Rightarrow> halt_reason \<Rightarrow> git_error \<Rightarrow> applied list \<Rightarrow> apply_result" where
  "halted n st h e done =
     no_result\<lparr>arApplied := done, arFailed := n, arStatus := st, arHalt := h, arError := Some e\<rparr>"

text \<open>Creating, reshaping and destroying a pool needs the right to own it; the answer is asked for every item.\<close>

definition owns_pools :: "genv \<Rightarrow> gnode \<Rightarrow> bool \<times> gnode" where
  "owns_pools E s = (case geGuard E of None \<Rightarrow> (True, s) | Some g \<Rightarrow> (g (gnTrace s), traced AskGuard s))"

definition needs_ownership :: "diff_item \<Rightarrow> bool" where
  "needs_ownership i \<longleftrightarrow> diKind i = KindPool \<and> diAction i \<noteq> ActionNOP \<and> diAction i \<noteq> ActionModify"

text \<open>What the action of an item runs, and how it is recorded.\<close>

definition executed :: "genv \<Rightarrow> diff_item \<Rightarrow> gnode \<Rightarrow> (git_error option gresult) \<times> applied" where
  "executed E i s =
     (case diAction i of
        ActionReshape \<Rightarrow> (executeReshape E (diName i) (diChanges i) s, Reshaped (diName i))
      | ActionCreate \<Rightarrow> (executeCreate E i s, Created (diKind i) (diName i))
      | ActionModify \<Rightarrow> (executeModify E i s, Modified (diKind i) (diName i))
      | ActionDelete \<Rightarrow> (executeDelete E i s, Deleted (diKind i) (diName i))
      | _ \<Rightarrow> (executeDelete E i s, ApprovedDelete (diKind i) (diName i)))"

definition apply_item :: "genv \<Rightarrow> diff_item \<Rightarrow> applied list \<Rightarrow> gnode \<Rightarrow> (apply_result + applied list) \<times> gnode" where
  "apply_item E i done s =
     (if diAction i = ActionNOP then (Inr done, s)
      else if diAction i = ActionBlocked \<and> \<not> diApproved i then
        (Inl (halted (diName i) StatusDegraded BlockedUnapproved (Unapproved (diKind i) (diName i)) done), s)
      else if diAction i = ActionAmbiguous then
        (Inl (halted (diName i) StatusFailed AmbiguousState (IsAmbiguous (diKind i) (diName i)) done), s)
      else if diAction i = ActionManual then (Inr (done @ [ManualRequired (diKind i) (diName i)]), s)
      else case executed E i s of
        ((Some e, s1), _) \<Rightarrow> (Inl (halted (diName i) StatusFailed ExecuteFailure e done), s1)
      | ((None, s1), a) \<Rightarrow> (Inr (done @ [a]), s1))"

text \<open>The loop: whether the data was found ready, and what has been applied so far.\<close>

fun apply_items ::
    "genv \<Rightarrow> desired_state option \<Rightarrow> diff_item list \<Rightarrow> bool \<Rightarrow> applied list \<Rightarrow> gnode \<Rightarrow> (apply_result + applied list) \<times> gnode" where
  "apply_items E D [] ready done s = (Inr done, s)"
| "apply_items E D (i # is) ready done s =
     (case (if diKind i = KindStack \<and> \<not> ready then checkDataReadiness E D s else (None, s)) of
        (Some e, s1) \<Rightarrow> (Inl (halted ''data-readiness-check'' StatusFailed DataNotReady e done), s1)
      | (None, s1) \<Rightarrow>
          let ready1 = (ready \<or> diKind i = KindStack);
              (own, s2) = (if needs_ownership i then owns_pools E s1 else (True, s1)) in
          if \<not> own then apply_items E D is ready1 (done @ [Deferred (diAction i) (diName i)]) s2
          else case apply_item E i done s2 of
            (Inl r, s3) \<Rightarrow> (Inl r, s3)
          | (Inr done1, s3) \<Rightarrow> apply_items E D is ready1 done1 s3)"

definition fabricNVMeNeedsApply :: "diff_item list \<Rightarrow> bool" where
  "fabricNVMeNeedsApply is \<longleftrightarrow>
     list_ex (\<lambda>i. diKind i = KindNVMeFabric \<and> diAction i \<in> {ActionCreate, ActionModify, ActionDelete}) is"

definition reconcileNVMeFabrics :: "genv \<Rightarrow> nvme_export list \<Rightarrow> gnode \<Rightarrow> git_error option gresult" where
  "reconcileNVMeFabrics E xs s =
     gseq (case gdo E (SaveTargets xs) s of (None, s1) \<Rightarrow> (None, s1\<lparr>gnTargets := xs\<rparr>) | (Some e, s1) \<Rightarrow> (Some e, s1))
       (gdo E (ApplyTargets xs))"

section \<open>After the plan\<close>

fun probeWithRetry :: "genv \<Rightarrow> int \<Rightarrow> nat \<Rightarrow> gnode \<Rightarrow> bool \<times> gnode" where
  "probeWithRetry E p 0 s = (False, s)"
| "probeWithRetry E p (Suc n) s =
     (if geOk E (gnTrace s) (ProbePort p) then (True, traced (ProbePort p) s) else probeWithRetry E p n (traced (ProbePort p) s))"

definition probed_ports :: "desired_state \<Rightarrow> int list" where
  "probed_ports D = (if deShares D \<noteq> [] then [445] else []) @ (if deNFS D \<noteq> [] then [2049] else []) @ [80, 22]"

fun probe_all :: "genv \<Rightarrow> int list \<Rightarrow> gnode \<Rightarrow> bool \<times> gnode" where
  "probe_all E [] s = (True, s)"
| "probe_all E (p # ps) s =
     (case probeWithRetry E p 3 s of (up, s1) \<Rightarrow> case probe_all E ps s1 of (rest, s2) \<Rightarrow> (up \<and> rest, s2))"

definition VerifyAppliedServices :: "genv \<Rightarrow> desired_state \<Rightarrow> gnode \<Rightarrow> bool \<times> gnode" where
  "VerifyAppliedServices E D = probe_all E (probed_ports D)"

definition live_groups :: "gitdb \<Rightarrow> live_group list" where
  "live_groups db =
     map (\<lambda>g. \<lparr>lgName = grName g, lgDescription = grDescription g, lgGID = grGID g,
        lgMembers = map snd (filter (\<lambda>(h, m). h = grName g) (gbMembers db))\<rparr>) (gbGroups db)"

text \<open>The live state: what the system says, with the tables, the schedules and the network settings of the node.\<close>

definition ReadLiveState :: "genv \<Rightarrow> gnode \<Rightarrow> live_state option \<times> gnode" where
  "ReadLiveState E s =
     (let L = geLive E (gnTrace s); db = gnDB s in
      (if geOk E (gnTrace s) ReadLive then
         Some (L\<lparr>veShares := gbShares db, veNFS := gbNFS db, veUsers := gbUsers db, veGroups := live_groups db,
           veReplication := readLiveReplication (gePeers E (gnTrace s)) (gnSchedules s), veLDAP := gbLDAP db,
           veACME := gbACME db, veCertificates := gbCerts db, veSMART := gbSMART db, veNVMe := gnTargets s,
           veSystem := map_option (overlayLiveNetwork (gnNetwork s)) (veSystem L)\<rparr>)
       else None,
       traced ReadLive s))"

definition probe_now :: "genv \<Rightarrow> gcall list \<Rightarrow> probe" where
  "probe_now E tr = \<lparr>pbDB = Some (geAttached E tr), pbEmpty = empty_answer E tr, pbActive = active_now E tr\<rparr>"

definition drifting :: "diff_item \<Rightarrow> bool" where
  "drifting i \<longleftrightarrow> diAction i \<in> {ActionCreate, ActionModify, ActionDelete, ActionAmbiguous}"

definition ConvergenceCheck :: "genv \<Rightarrow> desired_state \<Rightarrow> gnode \<Rightarrow> convergence \<times> gnode" where
  "ConvergenceCheck E D s =
     (case ReadLiveState E s of
        (None, s1) \<Rightarrow> (CheckError, s1)
      | (Some L, s1) \<Rightarrow>
          (let p = ComputeDiff (probe_now E (gnTrace s1)) D L in
           if list_ex drifting (plItems p) then (NotConverged, s1)
           else if 0 < plBlocked p then (Degraded, s1)
           else if 0 < plAmbiguous p then (CheckFailed, s1)
           else (Converged, s1)))"

definition finish :: "genv \<Rightarrow> desired_state option \<Rightarrow> applied list \<Rightarrow> gnode \<Rightarrow> apply_result \<times> gnode" where
  "finish E D done s =
     (case D of
        None \<Rightarrow> (no_result\<lparr>arApplied := done, arConvergence := Skipped\<rparr>, s)
      | Some D \<Rightarrow>
          (case VerifyAppliedServices E D s of
             (up, s1) \<Rightarrow>
               (case ConvergenceCheck E D s1 of
                  (c, s2) \<Rightarrow>
                    (no_result\<lparr>arApplied := done, arStatus := (if up then StatusOK else StatusDegraded),
                       arConvergence := c, arFunctional := Some up\<rparr>, s2))))"

definition ApplyPlan :: "genv \<Rightarrow> plan \<Rightarrow> desired_state option \<Rightarrow> gnode \<Rightarrow> apply_result \<times> gnode" where
  "ApplyPlan E p D s =
     (case (case D of None \<Rightarrow> (None, s) | Some D \<Rightarrow> SyncDB E D s) of
        (Some e, s1) \<Rightarrow> (halted ''sync-db'' StatusFailed DBSyncFailure e [], s1)
      | (None, s1) \<Rightarrow>
          (case apply_items E D (plItems p) False [] s1 of
             (Inl r, s2) \<Rightarrow> (r, s2)
           | (Inr done, s2) \<Rightarrow>
               let fabric = (D \<noteq> None \<and> fabricNVMeNeedsApply (plItems p));
                   xs = (case D of None \<Rightarrow> [] | Some D \<Rightarrow> fabric_exports D) in
               case (if fabric then reconcileNVMeFabrics E xs s2 else (None, s2)) of
                 (Some e, s3) \<Rightarrow> (halted ''nvme-fabric'' StatusFailed NVMeFabricFailure e done, s3)
               | (None, s3) \<Rightarrow>
                   finish E D (if fabric then done @ [SyncedFabric] else done)
                     (if list_ex (\<lambda>i. diKind i = KindSMART \<and> diAction i \<noteq> ActionNOP) (plItems p)
                      then traced RegenerateTimers s3 else s3)))"

end
