(* ===== verification/GitSafety.thy ===== *)
theory GitSafety
  imports GitApply
begin

text \<open>
  What the apply engine may destroy: every call of \<open>ApplyPlan\<close> that loses data or takes a pool over comes
  after the check that allows it. Each operation leads from a node to a node by justified calls only, and such
  steps compose.
\<close>

section \<open>What may be destroyed\<close>

definition found_empty :: "genv \<Rightarrow> gcall list \<Rightarrow> string \<Rightarrow> bool" where
  "found_empty E tr n \<longleftrightarrow> (\<exists>us h. tr = us @ [AskEmpty n] \<and> empty_answer E us n = Inr (True, h))"

text \<open>The dataset was created by the same item, and since then only its properties were set.\<close>

definition just_created :: "genv \<Rightarrow> gcall list \<Rightarrow> string \<Rightarrow> bool" where
  "just_created E tr n \<longleftrightarrow>
     (\<exists>us vs. tr = us @ ZfsCreate n # vs \<and> geOk E us (ZfsCreate n) \<and> set vs \<subseteq> {ZfsSet n p v | p v. True})"

text \<open>The last answer of the ownership guard was yes.\<close>

definition guard_held :: "genv \<Rightarrow> gcall list \<Rightarrow> bool" where
  "guard_held E tr \<longleftrightarrow>
     (case geGuard E of None \<Rightarrow> True | Some g \<Rightarrow> (\<exists>us vs. tr = us @ AskGuard # vs \<and> AskGuard \<notin> set vs \<and> g us))"

definition no_connections :: "genv \<Rightarrow> gcall list \<Rightarrow> string \<Rightarrow> bool" where
  "no_connections E tr n \<longleftrightarrow> (\<exists>us. tr = us @ [AskConnections n] \<and> \<not> active_now E us n)"

text \<open>What has to be known before a call that can lose data or take a pool over.\<close>

fun justified :: "genv \<Rightarrow> gcall list \<Rightarrow> gcall \<Rightarrow> bool" where
  "justified E tr (ZfsDestroy n) \<longleftrightarrow> found_empty E tr n \<or> just_created E tr n"
| "justified E tr (ZpoolDestroy n) \<longleftrightarrow> found_empty E tr n \<and> guard_held E tr"
| "justified E tr (ZpoolCreate args) \<longleftrightarrow> guard_held E tr"
| "justified E tr (ZpoolAdd args) \<longleftrightarrow> guard_held E tr"
| "justified E tr (SQL (DeleteShareRow n)) \<longleftrightarrow> no_connections E tr n"
| "justified E tr (SQL (DeleteUser n)) \<longleftrightarrow> n \<noteq> ''admin'' \<and> n \<noteq> ''root''"
| "justified E tr c \<longleftrightarrow> True"

fun justified_calls :: "genv \<Rightarrow> gcall list \<Rightarrow> gcall list \<Rightarrow> bool" where
  "justified_calls E tr [] = True"
| "justified_calls E tr (c # cs) \<longleftrightarrow> justified E tr c \<and> justified_calls E (tr @ [c]) cs"

text \<open>From one node to another by justified calls only.\<close>

definition leads_to :: "genv \<Rightarrow> gnode \<Rightarrow> gnode \<Rightarrow> bool" where
  "leads_to E s s1 \<longleftrightarrow> (\<exists>cs. gnTrace s1 = gnTrace s @ cs \<and> justified_calls E (gnTrace s) cs)"

lemma justified_append:
  "justified_calls E tr (cs @ ds) \<longleftrightarrow> justified_calls E tr cs \<and> justified_calls E (tr @ cs) ds"
  by (induction cs arbitrary: tr) auto

lemma justified_each:
  "justified_calls E tr cs \<longleftrightarrow> (\<forall>i < length cs. justified E (tr @ take i cs) (cs ! i))"
proof (induction cs arbitrary: tr)
  case (Cons c cs)
  show ?case by (simp add: Cons.IH All_less_Suc2)
qed simp

lemma leads_refl [simp]: "leads_to E s s"
  by (auto simp: leads_to_def intro: exI [of _ "[]"])

lemma leads_trans: "leads_to E s s1 \<Longrightarrow> leads_to E s1 s2 \<Longrightarrow> leads_to E s s2"
  unfolding leads_to_def by (metis append_assoc justified_append)

lemma leads_same: "gnTrace s1 = gnTrace s2 \<Longrightarrow> leads_to E s s1 \<Longrightarrow> leads_to E s s2"
  by (simp add: leads_to_def)

lemma leads_call: "justified E (gnTrace s) c \<Longrightarrow> gnTrace s1 = gnTrace s @ [c] \<Longrightarrow> leads_to E s s1"
  by (auto simp: leads_to_def intro: exI [of _ "[c]"])

lemma leads_gdo: "justified E (gnTrace s) c \<Longrightarrow> leads_to E s (snd (gdo E c s))"
  by (rule leads_call [of E s c]) (simp_all add: gdo_def)

lemma leads_sql: "justified E (gnTrace s) (SQL q) \<Longrightarrow> leads_to E s (snd (run_sql E q s))"
  by (rule leads_call [of E s "SQL q"]) (auto simp: run_sql_def split: option.split)

lemma leads_gseq:
  "leads_to E s (snd r) \<Longrightarrow> (\<And>s1. r = (None, s1) \<Longrightarrow> leads_to E s1 (snd (f s1))) \<Longrightarrow> leads_to E s (snd (gseq r f))"
  by (cases r) (auto simp: gseq_def split: option.split intro: leads_trans)

text \<open>Calls that need no justification.\<close>

definition harmless :: "gcall \<Rightarrow> bool" where
  "harmless c \<longleftrightarrow> (\<forall>E tr. justified E tr c)"

lemma leads_harmless: "harmless c \<Longrightarrow> leads_to E s (snd (gdo E c s))"
  by (rule leads_gdo) (simp add: harmless_def)

lemma leads_traced: "harmless c \<Longrightarrow> leads_to E s (traced c s)"
  by (rule leads_call [of E s c]) (simp_all add: harmless_def)

definition harmless_sql :: "statement \<Rightarrow> bool" where
  "harmless_sql q \<longleftrightarrow> (\<forall>n. q \<noteq> DeleteShareRow n \<and> q \<noteq> DeleteUser n)"

lemma harmless_SQL: "harmless_sql q \<Longrightarrow> harmless (SQL q)"
  by (cases q) (auto simp: harmless_sql_def harmless_def)

lemma leads_statement: "harmless_sql q \<Longrightarrow> leads_to E s (snd (run_sql E q s))"
  using harmless_SQL by (intro leads_sql) (simp add: harmless_def)

lemma leads_steps: "\<forall>q. Inr q \<in> set qs \<longrightarrow> harmless_sql q \<Longrightarrow> leads_to E s (snd (run_steps E qs s))"
proof (induction qs arbitrary: s)
  case (Cons x qs)
  show ?case
  proof (cases x)
    case (Inr q)
    then have "leads_to E s (snd (run_sql E q s))" using Cons.prems by (intro leads_statement) simp
    then show ?thesis using Inr Cons by (simp add: leads_gseq)
  qed simp
qed simp

lemma harmless_options: "Inr q \<in> set (applyShareOptions d) \<Longrightarrow> harmless_sql q"
  by (auto simp: applyShareOptions_def harmless_sql_def split: if_splits)

lemma harmless_group: "Inr q \<in> set (group_steps g) \<Longrightarrow> harmless_sql q"
  by (auto simp: group_steps_def harmless_sql_def)

lemma harmless_sync: "Inr q \<in> set (sync_steps D) \<Longrightarrow> harmless_sql q"
proof -
  have nfs: "Inr q \<in> set (case checkNFS d of Inl e \<Rightarrow> [Inl e] | Inr d' \<Rightarrow> [Inr (DeleteNFSPath (dnPath d)), Inr (InsertNFS d')]) \<Longrightarrow>
      harmless_sql q" for d
    by (cases "checkNFS d") (auto simp: harmless_sql_def)
  assume "Inr q \<in> set (sync_steps D)"
  then consider "Inr q \<in> set (user_steps D)" | "Inr q \<in> set (groups_steps D)" | "Inr q \<in> set (share_steps D)" | "Inr q \<in> set (nfs_steps D)"
    unfolding sync_steps_def by auto
  then show ?thesis
  proof cases
    case 1 then show ?thesis by (auto simp: user_steps_def harmless_sql_def split: if_splits)
  next
    case 2 then show ?thesis using harmless_group by (auto simp: groups_steps_def harmless_sql_def split: if_splits)
  next
    case 3 then show ?thesis using harmless_options by (auto simp: share_steps_def harmless_sql_def split: if_splits)
  next
    case 4 then show ?thesis using nfs by (auto simp: nfs_steps_def harmless_sql_def split: if_splits)
  qed
qed

lemma leads_SyncDB: "leads_to E s (snd (SyncDB E D s))"
proof -
  have txs: "harmless Tx" "harmless TxCommit" "harmless SyncAccounts" by (simp_all add: harmless_def)
  have steps: "leads_to E s1 (snd (gseq (run_steps E (sync_steps D) s1) (gdo E TxCommit)))" for s1
    using harmless_sync txs by (intro leads_gseq leads_steps leads_harmless) blast
  have ldap: "leads_to E s1 (snd (reconcileLDAP E l (traced SyncAccounts s1)))" for s1 l
    using leads_traced [OF txs(3), of E s1] leads_statement [of "UpdateLDAP _"]
    by (auto simp: reconcileLDAP_def harmless_sql_def split: option.split intro: leads_trans)
  have "leads_to E s1 (snd (case gseq (run_steps E (sync_steps D) s1) (gdo E TxCommit) of
          (Some e, s2) \<Rightarrow> (Some e, s2\<lparr>gnDB := gnDB s\<rparr>) | (None, s2) \<Rightarrow> reconcileLDAP E (deLDAP D) (traced SyncAccounts s2)))" for s1
  proof (cases "gseq (run_steps E (sync_steps D) s1) (gdo E TxCommit)")
    case (Pair r s2)
    have "leads_to E s1 s2" using steps [of s1] Pair by simp
    then show ?thesis
      using Pair ldap leads_trans leads_same [of s2 "s2\<lparr>gnDB := gnDB s\<rparr>"] by (auto split: option.split)
  qed
  then show ?thesis unfolding SyncDB_def by (intro leads_gseq leads_harmless txs)
qed

section \<open>Every operation is justified\<close>

lemma leads_when_empty:
  assumes "\<And>h. empty_answer E (gnTrace s) n = Inr (True, h) \<Longrightarrow> leads_to E (traced (AskEmpty n) s) (snd (f (traced (AskEmpty n) s)))"
  shows "leads_to E s (snd (when_empty E n f s))"
proof -
  have ask: "leads_to E s (traced (AskEmpty n) s)" by (rule leads_traced) (simp add: harmless_def)
  show ?thesis
  proof (cases "empty_answer E (gnTrace s) n")
    case (Inr a)
    then show ?thesis using ask assms leads_trans by (cases a) (auto simp: when_empty_def)
  qed (use ask in \<open>simp add: when_empty_def\<close>)
qed

lemma leads_deleteDataset: "leads_to E s (snd (deleteDataset E n s))"
  unfolding deleteDataset_def
proof (rule leads_when_empty)
  fix h assume "empty_answer E (gnTrace s) n = Inr (True, h)"
  then have "justified E (gnTrace (traced (AskEmpty n) s)) (ZfsDestroy n)" by (auto simp: found_empty_def)
  then show "leads_to E (traced (AskEmpty n) s) (snd (DatasetDestroy E n (traced (AskEmpty n) s)))"
    by (auto simp: DatasetDestroy_def on_dataset_def intro: leads_gdo)
qed

lemma guard_keeps: "guard_held E tr \<Longrightarrow> AskGuard \<notin> set cs \<Longrightarrow> guard_held E (tr @ cs)"
  unfolding guard_held_def by (auto split: option.splits) (metis Un_iff append.assoc append_Cons set_append)

lemma leads_destroyPool: "guard_held E (gnTrace s) \<Longrightarrow> leads_to E s (snd (destroyPool E n s))"
  unfolding destroyPool_def
proof (rule leads_when_empty)
  fix h assume "guard_held E (gnTrace s)" and "empty_answer E (gnTrace s) n = Inr (True, h)"
  then have "justified E (gnTrace (traced (AskEmpty n) s)) (ZpoolDestroy n)"
    using guard_keeps [of E "gnTrace s" "[AskEmpty n]"] by (auto simp: found_empty_def)
  then show "leads_to E (traced (AskEmpty n) s) (snd (PoolDestroy E n (traced (AskEmpty n) s)))"
    by (auto simp: PoolDestroy_def intro: leads_gdo)
qed

lemma leads_createPool: "guard_held E (gnTrace s) \<Longrightarrow> leads_to E s (snd (createPool E dp s))"
  by (auto simp: createPool_def intro: leads_gdo split: sum.split)

lemma leads_modifyPool: "leads_to E s (snd (modifyPool E n cs s))"
proof (induction E n cs s rule: modifyPool.induct)
  case (2 E n c cs s)
  have "leads_to E s (snd (PoolSetProperty E n k v s))" for k v
    by (auto simp: PoolSetProperty_def harmless_def intro: leads_harmless)
  then show ?case using 2 by (auto split: option.split intro: leads_gseq)
qed simp

lemma leads_executeReshape: "guard_held E (gnTrace s) \<Longrightarrow> leads_to E s (snd (executeReshape E n cs s))"
proof (induction E n cs s rule: executeReshape.induct)
  case (2 E n c cs s)
  have "guard_held E (gnTrace s1)" if "gdo E (ZpoolAdd args) s = (None, s1)" for args s1
    using that guard_keeps [OF "2.prems", of "[ZpoolAdd args]"] by (auto simp: gdo_def)
  then show ?case using 2 by (auto split: sum.split intro!: leads_gseq leads_gdo)
qed simp

lemma just_created_more:
  "just_created E tr n \<Longrightarrow> just_created E (tr @ [ZfsSet n p v]) n"
proof -
  assume "just_created E tr n"
  then obtain us vs where tr: "tr = us @ ZfsCreate n # vs" and ok: "geOk E us (ZfsCreate n)"
      and vs: "set vs \<subseteq> {ZfsSet n p v | p v. True}"
    unfolding just_created_def by blast
  have "tr @ [ZfsSet n p v] = us @ ZfsCreate n # (vs @ [ZfsSet n p v])" using tr by simp
  moreover have "set (vs @ [ZfsSet n p v]) \<subseteq> {ZfsSet n p v | p v. True}" using vs by auto
  ultimately show ?thesis using ok unfolding just_created_def by blast
qed

lemma leads_DatasetSet: "leads_to E s (snd (DatasetSet E n p v s))"
  by (auto simp: DatasetSet_def on_dataset_def harmless_def intro: leads_harmless)

lemma leads_new_props:
  "just_created E (gnTrace s) n \<Longrightarrow> leads_to E s (snd (set_new_props E n ps s))"
proof (induction ps arbitrary: s)
  case (Cons x ps)
  obtain p v where x: "x = (p, v)" by fastforce
  obtain r s1 where set: "DatasetSet E n p v s = (r, s1)" by fastforce
  have s1: "leads_to E s s1" using leads_DatasetSet [of E s n p v] set by simp
  have "gnTrace s1 = gnTrace s \<or> gnTrace s1 = gnTrace s @ [ZfsSet n p v]"
    using set by (auto simp: DatasetSet_def on_dataset_def gdo_def split: if_splits)
  then have just: "just_created E (gnTrace s1) n" using Cons.prems just_created_more by auto
  show ?case
  proof (cases r)
    case None
    have "leads_to E s (snd (set_new_props E n ps s1))" by (rule leads_trans [OF s1 Cons.IH [OF just]])
    then show ?thesis using set x None by simp
  next
    case (Some e)
    have "leads_to E s1 (snd (DatasetDestroy E n s1))"
      using just by (auto simp: DatasetDestroy_def on_dataset_def intro: leads_gdo)
    then have "leads_to E s (snd (DatasetDestroy E n s1))" by (rule leads_trans [OF s1])
    then show ?thesis using set x Some by simp
  qed
qed simp

lemma leads_createDataset: "leads_to E s (snd (createDataset E n d s))"
proof -
  have ask: "leads_to E s (traced (ZfsExists n) s)" by (rule leads_traced) (simp add: harmless_def)
  have create: "leads_to E s1 (snd (DatasetCreateWithProps E n ps s1))" for s1 ps
    unfolding DatasetCreateWithProps_def
  proof (rule leads_gseq)
    show "leads_to E s1 (snd (DatasetCreate E n s1))"
      by (auto simp: DatasetCreate_def on_dataset_def harmless_def intro: leads_harmless)
    fix s2 assume "DatasetCreate E n s1 = (None, s2)"
    then have "gnTrace s2 = gnTrace s1 @ ZfsCreate n # []" "geOk E (gnTrace s1) (ZfsCreate n)"
      by (auto simp: DatasetCreate_def on_dataset_def gdo_def split: if_splits)
    then have "just_created E (gnTrace s2) n" unfolding just_created_def
      by (intro exI [of _ "gnTrace s1"] exI [of _ "[]"]) simp
    then show "leads_to E s2 (snd (set_new_props E n (geOrder E ps) s2))" by (rule leads_new_props)
  qed
  have receive: "leads_to E s1 (snd (gdo E (ZfsReceive h r n) s1))" for s1 h r
    by (rule leads_harmless) (simp add: harmless_def)
  show ?thesis
    using leads_trans [OF ask create] leads_trans [OF ask receive] ask
    by (auto simp: createDataset_def Let_def split: option.split)
qed

lemma leads_modifyDataset: "leads_to E s (snd (modifyDataset E n cs s))"
proof (induction E n cs s rule: modifyDataset.induct)
  case (2 E n c cs s)
  show ?case using 2 leads_DatasetSet by (auto split: option.split intro: leads_gseq)
qed simp

lemma leads_reloadSamba: "leads_to E s (snd (reloadSamba E s))"
  by (auto simp: reloadSamba_def harmless_def intro: leads_traced)

lemma leads_reloadNFS: "leads_to E s (snd (reloadNFS E s))"
proof -
  have "leads_to E s (snd (gseq (gdo E QueryExports s) (\<lambda>s1. gseq (gdo E (WriteExports (exports_text (gnDB s1))) s1) (gdo E Exportfs))))"
    by (intro leads_gseq leads_harmless) (simp_all add: harmless_def)
  then show ?thesis by (simp add: reloadNFS_def)
qed

lemma leads_createShare: "leads_to E s (snd (createShare E n d s))"
proof (cases d)
  case (Some d0)
  define d1 where "d1 = d0\<lparr>dsName := n\<rparr>"
  have "\<forall>q. Inr q \<in> set (Inr (UpsertShare d1) # applyShareOptions d1) \<longrightarrow> harmless_sql q"
    using harmless_options by (auto simp: harmless_sql_def)
  then have "leads_to E s (snd (gseq (run_steps E (Inr (UpsertShare d1) # applyShareOptions d1) s) (reloadSamba E)))"
    by (intro leads_gseq leads_steps leads_reloadSamba)
  then show ?thesis using Some by (simp only: createShare_def Let_def option.case d1_def)
qed (simp add: createShare_def)

lemma leads_deleteShare: "leads_to E s (snd (deleteShare E n s))"
proof -
  have ask: "leads_to E s (traced (AskConnections n) s)" by (rule leads_traced) (simp add: harmless_def)
  have "leads_to E (traced (AskConnections n) s) (snd (gseq (run_sql E (DeleteShareRow n) (traced (AskConnections n) s)) (reloadSamba E)))"
    if "\<not> active_now E (gnTrace s) n"
    using that by (intro leads_gseq leads_sql leads_reloadSamba) (auto simp: no_connections_def)
  then show ?thesis using ask leads_trans by (auto simp: deleteShare_def)
qed

lemma leads_createNFS: "leads_to E s (snd (createNFS E p d s))"
  by (auto simp: createNFS_def harmless_sql_def split: option.split sum.split intro!: leads_gseq leads_statement leads_reloadNFS)

lemma leads_deleteNFS: "leads_to E s (snd (deleteNFS E p s))"
  by (auto simp: deleteNFS_def harmless_sql_def intro!: leads_gseq leads_statement leads_reloadNFS)

lemma leads_createStack: "leads_to E s (snd (createStack E n d s))"
  by (auto simp: createStack_def harmless_def split: option.split intro!: leads_gseq leads_harmless)

lemma leads_deleteStack: "leads_to E s (snd (deleteStack E n s))"
proof -
  have rm: "leads_to E s1 (snd (gdo E (RemoveStack n) s1))" for s1 by (rule leads_harmless) (simp add: harmless_def)
  have st: "leads_to E s (traced (StatStack n) s)" and down: "leads_to E s1 (traced (ComposeDown n) s1)" for s1
    by (rule leads_traced, simp add: harmless_def)+
  show ?thesis
    using leads_trans [OF st rm] leads_trans [OF leads_trans [OF st down] rm] by (simp add: deleteStack_def Let_def)
qed

lemma leads_accounts: "leads_to E s (snd (sync_accounts s))"
  by (auto simp: sync_accounts_def harmless_def intro: leads_traced)

lemma leads_users:
  "leads_to E s (snd (reconcileUser E n d s))" "leads_to E s (snd (deleteUser E n s))"
proof -
  show "leads_to E s (snd (reconcileUser E n d s))"
    by (auto simp: reconcileUser_def harmless_sql_def split: option.split intro!: leads_gseq leads_statement leads_accounts)
  show "leads_to E s (snd (deleteUser E n s))"
    by (auto simp: deleteUser_def intro!: leads_gseq leads_sql leads_accounts)
qed

lemma leads_groups:
  "leads_to E s (snd (reconcileGroup E n g s))" "leads_to E s (snd (deleteGroup E n s))"
proof -
  show "leads_to E s (snd (reconcileGroup E n g s))"
    using harmless_group by (auto simp: reconcileGroup_def split: option.split intro!: leads_gseq [OF leads_steps] leads_accounts)
  have "leads_to E s (snd (run_sql E (ClearMembers n) s))" by (rule leads_statement) (simp add: harmless_sql_def)
  moreover have "leads_to E s1 (snd (gseq (run_sql E (DeleteGroup n) s1) sync_accounts))" for s1
    by (intro leads_gseq leads_statement leads_accounts) (simp add: harmless_sql_def)
  ultimately show "leads_to E s (snd (deleteGroup E n s))" unfolding deleteGroup_def by (rule leads_trans)
qed

lemma leads_schedules: "leads_to E s (snd (writeScheduleRecords E rs s))"
proof -
  obtain r s1 where w: "gdo E WriteSchedules s = (r, s1)" by fastforce
  have "leads_to E s s1" using leads_harmless [of WriteSchedules E s] w by (simp add: harmless_def)
  then have "leads_to E s (s1\<lparr>gnSchedules := rs\<rparr>)" by (simp add: leads_to_def)
  with \<open>leads_to E s s1\<close> show ?thesis using w by (auto simp: writeScheduleRecords_def split: option.split)
qed

lemma leads_replication:
  "leads_to E s (snd (reconcileReplication E n d s))" "leads_to E s (snd (deleteReplication E n s))"
proof -
  have quiet: "harmless ReadPeers" "harmless ReadSchedules" by (simp_all add: harmless_def)
  show "leads_to E s (snd (reconcileReplication E n d s))"
    by (auto simp: reconcileReplication_def split: option.split
        intro!: leads_gseq [OF leads_harmless [OF quiet(1)]] leads_gseq [OF leads_harmless [OF quiet(2)]] leads_schedules)
  show "leads_to E s (snd (deleteReplication E n s))"
    unfolding deleteReplication_def by (rule leads_gseq [OF leads_harmless [OF quiet(2)]]) (rule leads_schedules)
qed

lemma leads_fold: "\<forall>c \<in> set cs. harmless c \<Longrightarrow> leads_to E s (fold traced cs s)"
proof (induction cs arbitrary: s)
  case (Cons c cs)
  have "leads_to E s (traced c s)" by (rule leads_traced) (use Cons.prems in simp)
  moreover have "leads_to E (traced c s) (fold traced cs (traced c s))" using Cons by simp
  ultimately show ?case using leads_trans by simp
qed simp

lemma leads_network: "leads_to E s (snd (apply_network E d s))"
proof -
  define next' where "next' = desiredNetworkState (gnNetwork s) d"
  obtain r s1 where w: "gdo E (NetApply next') s = (r, s1)" by fastforce
  have "leads_to E s s1" using leads_harmless [of "NetApply next'" E s] w by (simp add: harmless_def)
  then have "leads_to E s (s1\<lparr>gnNetwork := next'\<rparr>)" by (simp add: leads_to_def)
  then show ?thesis using w by (auto simp: apply_network_def Let_def next'_def [symmetric] split: option.split)
qed

lemma leads_reconcileSystem: "leads_to E s (snd (reconcileSystem E d s))"
proof (cases d)
  case (Some d)
  have fold: "leads_to E s (fold traced (system_calls d) s)"
    by (rule leads_fold) (auto simp: system_calls_def harmless_def split: if_splits)
  have ssh: "leads_to E s1 (traced (SetSSH a b c) s1)" for s1 a b c by (rule leads_traced) (simp add: harmless_def)
  have "leads_to E s (snd (apply_network E d (fold traced (system_calls d) s)))"
    by (rule leads_trans [OF fold leads_network])
  then have "leads_to E s (snd (gseq (apply_network E d (fold traced (system_calls d) s)) (\<lambda>s1.
      (None, if dySSHPort d \<noteq> 0 \<or> dySSHPassword d \<noteq> None \<or> dySSHRoot d \<noteq> []
             then traced (SetSSH (dySSHPort d) (dySSHPassword d) (dySSHRoot d)) s1 else s1))))"
    by (rule leads_gseq) (use ssh in simp)
  then show ?thesis using Some by (simp only: reconcileSystem_def option.case)
qed (simp add: reconcileSystem_def)

lemma leads_run_spec: "(\<And>d. harmless_sql (q d)) \<Longrightarrow> leads_to E s (snd (run_spec E q d s))"
  by (auto simp: run_spec_def split: option.split intro: leads_statement)

lemma leads_settings:
  "leads_to E s (snd (reconcileLDAP E l s))" "leads_to E s (snd (reconcileACME E a s))"
  "leads_to E s (snd (disableACME E s))" "leads_to E s (snd (reconcileCertificate E c s))"
  "leads_to E s (snd (deleteCertificate E n s))" "leads_to E s (snd (reconcileSMART E t s))"
  "leads_to E s (snd (deleteSMART E n s))"
proof -
  show "leads_to E s (snd (reconcileACME E a s))" "leads_to E s (snd (reconcileCertificate E c s))"
    "leads_to E s (snd (reconcileSMART E t s))"
    unfolding reconcileACME_def reconcileCertificate_def reconcileSMART_def
    by (rule leads_run_spec, simp add: harmless_sql_def)+
  show "leads_to E s (snd (disableACME E s))" "leads_to E s (snd (deleteCertificate E n s))"
    unfolding disableACME_def deleteCertificate_def by (rule leads_statement, simp add: harmless_sql_def)+
  show "leads_to E s (snd (deleteSMART E n s))"
    by (auto simp: deleteSMART_def harmless_sql_def split: option.split intro: leads_statement)
  show "leads_to E s (snd (reconcileLDAP E l s))"
    by (auto simp: reconcileLDAP_def harmless_sql_def split: option.split intro: leads_statement)
qed

lemmas leads_operations =
  leads_createDataset leads_modifyDataset leads_deleteDataset leads_createShare leads_deleteShare leads_createNFS
  leads_deleteNFS leads_createStack leads_deleteStack leads_modifyPool leads_users leads_groups leads_replication
  leads_settings leads_reconcileSystem

lemma leads_reconcile_item: "leads_to E s (snd (reconcile_item E i s))"
  by (cases "diKind i") (simp_all add: reconcile_item_def leads_operations)

lemma leads_executeCreate: "diKind i = KindPool \<longrightarrow> guard_held E (gnTrace s) \<Longrightarrow> leads_to E s (snd (executeCreate E i s))"
  using leads_createPool
  by (cases "diKind i") (auto simp: executeCreate_def leads_operations leads_reconcile_item split: diff_spec.split)

lemma leads_executeModify: "leads_to E s (snd (executeModify E i s))"
  by (cases "diKind i")
     (auto simp: executeModify_def modifyShare_def modifyNFS_def modifyStack_def leads_operations leads_reconcile_item)

lemma leads_executeDelete: "diKind i = KindPool \<longrightarrow> guard_held E (gnTrace s) \<Longrightarrow> leads_to E s (snd (executeDelete E i s))"
  using leads_destroyPool by (cases "diKind i") (auto simp: executeDelete_def leads_operations)


definition reshapes_pools :: "diff_item \<Rightarrow> bool" where
  "reshapes_pools i \<longleftrightarrow> (diAction i = ActionReshape \<longrightarrow> diKind i = KindPool)"

lemma leads_executed:
  assumes "needs_ownership i \<longrightarrow> guard_held E (gnTrace s)" and "reshapes_pools i"
    and "diAction i \<notin> {ActionNOP, ActionAmbiguous, ActionManual}"
  shows "leads_to E s (snd (fst (executed E i s)))"
proof -
  have "diAction i = ActionModify \<or> (diKind i = KindPool \<longrightarrow> guard_held E (gnTrace s))"
    using assms by (auto simp: needs_ownership_def)
  then show ?thesis
    using assms(2,3) leads_executeReshape leads_executeCreate leads_executeModify leads_executeDelete
    by (cases "diAction i") (auto simp: executed_def reshapes_pools_def)
qed

lemma leads_apply_item:
  assumes "needs_ownership i \<longrightarrow> guard_held E (gnTrace s)" and "reshapes_pools i"
  shows "leads_to E s (snd (apply_item E i done s))"
proof (cases "diAction i \<in> {ActionNOP, ActionAmbiguous, ActionManual}")
  case False
  obtain r s1 a where e: "executed E i s = ((r, s1), a)" by (metis prod.collapse)
  have "leads_to E s s1" using leads_executed [OF assms False] e by simp
  then show ?thesis using False e by (auto simp: apply_item_def split: option.split)
qed (auto simp: apply_item_def)

lemma leads_owns:
  assumes "owns_pools E s = (b, s1)"
  shows "leads_to E s s1 \<and> (b \<longrightarrow> guard_held E (gnTrace s1))"
proof (cases "geGuard E")
  case (Some g)
  then have s1: "s1 = traced AskGuard s" and b: "b = g (gnTrace s)" using assms by (auto simp: owns_pools_def)
  have "leads_to E s s1" unfolding s1 by (rule leads_traced) (simp add: harmless_def)
  moreover have "guard_held E (gnTrace s1)" if b
  proof -
    have "gnTrace s1 = gnTrace s @ AskGuard # [] \<and> AskGuard \<notin> set [] \<and> g (gnTrace s)" using s1 b that by simp
    then show ?thesis unfolding guard_held_def using Some by (simp only: option.case) blast
  qed
  ultimately show ?thesis by blast
qed (use assms in \<open>simp add: owns_pools_def guard_held_def\<close>)

lemma leads_mounts: "leads_to E s (snd (check_mounts E ds s))"
proof (induction E ds s rule: check_mounts.induct)
  case (2 E d ds s)
  have "leads_to E s1 (snd (gdo E (ZfsMounted n) s1))" "leads_to E s1 (snd (gdo E (ZfsMountpoint n) s1))" for s1 n
    by (rule leads_harmless, simp add: harmless_def)+
  then show ?case using 2 by (auto intro!: leads_gseq)
qed simp

lemma leads_ready: "leads_to E s (snd (checkDataReadiness E D s))"
  using leads_mounts by (auto simp: checkDataReadiness_def split: option.split)

lemma leads_items:
  "\<forall>i \<in> set is. reshapes_pools i \<Longrightarrow> leads_to E s (snd (apply_items E D is ready done s))"
proof (induction "is" arbitrary: ready "done" s)
  case (Cons i "is")
  obtain r s1 where ready: "(if diKind i = KindStack \<and> \<not> ready then checkDataReadiness E D s else (None, s)) = (r, s1)"
    by fastforce
  have s1: "leads_to E s s1" using ready leads_ready [of E s D] by (auto split: if_splits)
  obtain own s2 where own: "(if needs_ownership i then owns_pools E s1 else (True, s1)) = (own, s2)" by fastforce
  have s2: "leads_to E s s2" and held: "own \<Longrightarrow> needs_ownership i \<longrightarrow> guard_held E (gnTrace s2)"
    using own leads_owns [of E s1 own s2] s1 by (auto split: if_splits intro: leads_trans)
  obtain x s3 where item: "apply_item E i done s2 = (x, s3)" by fastforce
  have s3: "leads_to E s s3" if own
    using leads_apply_item [OF held [OF that], of "done"] Cons.prems item leads_trans [OF s2] by simp
  have rest: "leads_to E s s' \<Longrightarrow> leads_to E s (snd (apply_items E D is ready' done' s'))" for ready' done' s'
    using Cons leads_trans by simp
  show ?case using ready own item s1 s2 s3 rest by (cases r) (auto simp: Let_def split: sum.split)
qed simp

lemma leads_fabrics: "leads_to E s (snd (reconcileNVMeFabrics E xs s))"
proof -
  obtain r s1 where w: "gdo E (SaveTargets xs) s = (r, s1)" by fastforce
  have s1: "leads_to E s s1" using leads_harmless [of "SaveTargets xs" E s] w by (simp add: harmless_def)
  then have "leads_to E s (s1\<lparr>gnTargets := xs\<rparr>)" by (simp add: leads_to_def)
  moreover have "leads_to E s2 (snd (gdo E (ApplyTargets xs) s2))" for s2
    by (rule leads_harmless) (simp add: harmless_def)
  ultimately show ?thesis using w s1 unfolding reconcileNVMeFabrics_def
    by (intro leads_gseq) (auto split: option.split)
qed

lemma leads_retry: "leads_to E s (snd (probeWithRetry E p n s))"
proof (induction n arbitrary: s)
  case (Suc n)
  have "leads_to E s (traced (ProbePort p) s)" by (rule leads_traced) (simp add: harmless_def)
  then show ?case using Suc leads_trans by auto
qed simp

lemma leads_probes: "leads_to E s (snd (probe_all E ps s))"
proof (induction ps arbitrary: s)
  case (Cons p ps)
  obtain up s1 where up: "probeWithRetry E p 3 s = (up, s1)" by fastforce
  have "leads_to E s s1" using leads_retry [of E s p 3] up by simp
  then have "leads_to E s (snd (probe_all E ps s1))" using Cons.IH leads_trans by blast
  then show ?case using up by (cases "probe_all E ps s1") simp
qed simp

lemma leads_convergence: "leads_to E s (snd (ConvergenceCheck E D s))"
proof -
  have "leads_to E s (traced ReadLive s)" by (rule leads_traced) (simp add: harmless_def)
  then show ?thesis by (auto simp: ConvergenceCheck_def ReadLiveState_def Let_def)
qed

lemma leads_finish: "leads_to E s (snd (finish E D done s))"
proof (cases D)
  case (Some D)
  obtain up s1 where up: "VerifyAppliedServices E D s = (up, s1)" by fastforce
  obtain c s2 where c: "ConvergenceCheck E D s1 = (c, s2)" by fastforce
  have "leads_to E s s1" using leads_probes [of E s "probed_ports D"] up by (simp add: VerifyAppliedServices_def)
  moreover have "leads_to E s1 s2" using leads_convergence [of E s1 D] c by simp
  ultimately have "leads_to E s s2" by (rule leads_trans)
  then show ?thesis using Some up c by (simp add: finish_def)
qed (simp add: finish_def)

lemma leads_ApplyPlan:
  assumes "\<forall>i \<in> set (plItems p). reshapes_pools i"
  shows "leads_to E s (snd (ApplyPlan E p D s))"
proof -
  obtain r s1 where sync: "(case D of None \<Rightarrow> (None, s) | Some D \<Rightarrow> SyncDB E D s) = (r, s1)" by fastforce
  have s1: "leads_to E s s1" using sync leads_SyncDB by (cases D) (auto, metis snd_conv)
  obtain x s2 where items: "apply_items E D (plItems p) False [] s1 = (x, s2)" by fastforce
  have s2: "leads_to E s s2" using leads_trans [OF s1 leads_items [OF assms]] items by (metis snd_conv)
  define fabric where "fabric \<longleftrightarrow> D \<noteq> None \<and> fabricNVMeNeedsApply (plItems p)"
  define xs where "xs = (case D of None \<Rightarrow> [] | Some D \<Rightarrow> fabric_exports D)"
  obtain r3 s3 where nvme: "(if fabric then reconcileNVMeFabrics E xs s2 else (None, s2)) = (r3, s3)" by fastforce
  have s3: "leads_to E s s3"
    using nvme s2 leads_trans [OF s2 leads_fabrics [of E s2 xs]] by (auto split: if_splits)
  define s4 where "s4 = (if list_ex (\<lambda>i. diKind i = KindSMART \<and> diAction i \<noteq> ActionNOP) (plItems p)
                         then traced RegenerateTimers s3 else s3)"
  have "leads_to E s3 s4" using leads_traced [of RegenerateTimers E s3] by (simp add: s4_def harmless_def)
  then have fin: "leads_to E s (snd (finish E D done s4))" for "done"
    using leads_trans [OF leads_trans [OF s3] leads_finish] by blast
  note run = ApplyPlan_def sync items nvme [unfolded fabric_def xs_def] Let_def prod.case option.case sum.case s4_def [symmetric]
  show ?thesis
  proof (cases r)
    case None
    note None = this
    show ?thesis
    proof (cases x)
      case (Inl a)
      then have "ApplyPlan E p D s = (a, s2)" using None by (simp only: run)
      then show ?thesis using s2 by simp
    next
      case (Inr d)
      note Inr = this
      show ?thesis
      proof (cases r3)
        case None
        with Inr \<open>r = None\<close> have "\<exists>d'. ApplyPlan E p D s = finish E D d' s4" by (simp only: run) blast
        then show ?thesis using fin by auto
      next
        case (Some e)
        with Inr \<open>r = None\<close> have "snd (ApplyPlan E p D s) = s3" by (simp only: run snd_conv)
        then show ?thesis using s3 by simp
      qed
    qed
  next
    case (Some e)
    then have "snd (ApplyPlan E p D s) = s1" by (simp only: run snd_conv)
    then show ?thesis using s1 by simp
  qed
qed

text \<open>
  C20. Whatever the plan says, and whatever happened before: when the engine destroys a dataset or a pool, the call
  just before the destruction found it empty, or it had just created the dataset and done nothing but set properties of
  datasets of that name since; pools are created, extended and destroyed only when the last answer of the ownership guard was yes
  (properties of a pool are set without asking); an item deletes the row of a share only right after \<open>smbstatus\<close> showed
  no connection, and no item deletes the accounts of \<open>admin\<close> and \<open>root\<close>. The rows \<open>SyncDB\<close> removes because nothing
  declares them are not items and not covered.
\<close>

theorem ApplyPlan_justified:
  assumes "\<forall>i \<in> set (plItems p). reshapes_pools i"
  shows "\<exists>cs. gnTrace (snd (ApplyPlan E p D s)) = gnTrace s @ cs \<and>
           (\<forall>i < length cs. justified E (gnTrace s @ take i cs) (cs ! i))"
  using leads_ApplyPlan [OF assms] by (simp add: leads_to_def justified_each)

section \<open>A plan that destroys a dataset\<close>

definition removal :: plan where
  "removal =
     \<lparr>plItems = [item KindDataset ''p/d'' ActionDelete High NoSpec []], plHasBlocked = False, plSafe = True, plCreate = 0,
      plModify = 0, plDelete = 1, plBlocked = 0, plAmbiguous = 0, plManual = 0, plNop = 0, plHasAmbiguous = False\<rparr>"

definition bare_genv :: genv where
  "bare_genv = calm_genv\<lparr>geListing := (\<lambda>tr n. Some (printed [sample_row ''p/d'' ''filesystem''])), geEntries := (\<lambda>tr d. Some 0)\<rparr>"

lemma removal_calls: "gnTrace (snd (ApplyPlan bare_genv removal None sample_gnode)) = [AskEmpty ''p/d'', ZfsDestroy ''p/d'']"
proof -
  have "empty_answer bare_genv tr ''p/d'' = Inr (True, HoldsNothing)" for tr
    unfolding empty_answer_def bare_genv_def by code_simp
  moreover have "ValidateDatasetName ''p/d''" by code_simp
  ultimately show ?thesis
    by (simp add: ApplyPlan_def removal_def Let_def needs_ownership_def apply_item_def executed_def executeDelete_def
        deleteDataset_def when_empty_def DatasetDestroy_def on_dataset_def gdo_def fabricNVMeNeedsApply_def finish_def
        sample_gnode_def bare_genv_def traced_def calm_genv_def)
qed

lemma ApplyPlan_justified_witness:
  "justified bare_genv [AskEmpty ''p/d''] (ZfsDestroy ''p/d'')"
proof -
  have "\<forall>i \<in> set (plItems removal). reshapes_pools i" by (simp add: removal_def reshapes_pools_def)
  moreover have "gnTrace sample_gnode = []" by (simp add: sample_gnode_def)
  ultimately obtain cs where cs: "cs = [AskEmpty ''p/d'', ZfsDestroy ''p/d'']" "\<forall>i < length cs. justified bare_genv (take i cs) (cs ! i)"
    using ApplyPlan_justified [of removal bare_genv None sample_gnode] removal_calls by (metis append_Nil)
  from cs(2) have "justified bare_genv (take 1 cs) (cs ! 1)" by (rule allE [of _ 1]) (simp add: cs(1))
  then show ?thesis by (simp add: cs(1) del: justified.simps)
qed

end
