(* ===== verification/GitOutcome.thy ===== *)
theory GitOutcome
  imports GitSafety
begin

text \<open>
  What an apply ends with (\<open>gitops/apply.go\<close>, \<open>verify.go\<close>): the values the changes of a dataset set, what a
  blocked item stops, what is recorded, and when a node counts as converged.
\<close>

section \<open>Reading a change back\<close>

lemma has_prefix_Cons [simp]: "has_prefix (c # s) (d # p) \<longleftrightarrow> c = d \<and> has_prefix s p"
  by (simp add: has_prefix_def)

lemma has_prefix_Nil [simp]: "has_prefix s []"
  by (simp add: has_prefix_def)

lemma has_prefix_itself [simp]: "has_prefix (p @ s) p"
  by (simp add: has_prefix_def)

definition without_arrow :: "string \<Rightarrow> bool" where
  "without_arrow s \<longleftrightarrow> CHR 0xE2 \<notin> set s"

lemma cut_arrow: "without_arrow s \<Longrightarrow> cut_text (s @ arrow @ t) arrow = Some (s, t)"
proof (induction s)
  case Nil
  show ?case by (simp add: arrow_def has_prefix_def)
next
  case (Cons c s)
  have "\<not> has_prefix ((c # s) @ arrow @ t) arrow"
    using Cons.prems by (cases s) (auto simp: arrow_def without_arrow_def)
  then show ?case using Cons by (simp add: without_arrow_def)
qed

lemma cut_colon: "CHR '':'' \<notin> set p \<Longrightarrow> cut_text (p @ '': '' @ s) '': '' = Some (p, s)"
proof (induction p)
  case (Cons c p)
  then have "\<not> has_prefix ((c # p) @ '': '' @ s) '': ''" by auto
  then show ?case using Cons by simp
qed (simp add: has_prefix_def)

lemma parse_change:
  assumes "CHR '':'' \<notin> set p" and "without_arrow p" and "without_arrow old"
  shows "parseChangeString (change p old new) = Some (trim_space p, trim_space new)"
proof -
  have "without_arrow (p @ '': '' @ old)" using assms by (auto simp: without_arrow_def)
  from cut_arrow [OF this] have "cut_text (change p old new) arrow = Some (p @ '': '' @ old, new)"
    by (simp add: change_def)
  then show ?thesis using cut_colon [OF assms(1), of old] by (simp add: parseChangeString_def)
qed

section \<open>The values set on a dataset\<close>

definition value_if :: "bool \<Rightarrow> string \<Rightarrow> string \<Rightarrow> (string \<times> string) list" where
  "value_if b p v = (if b then [(p, trim_space v)] else [])"

text \<open>What has to be set so that a dataset is as declared.\<close>

definition declared_values :: "desired_dataset \<Rightarrow> live_dataset \<Rightarrow> (string \<times> string) list" where
  "declared_values d l =
     value_if (ddCompression d \<notin> {[], ldCompression l}) ''compression'' (ddCompression d) @
     value_if (ddAtime d \<notin> {[], ldAtime l}) ''atime'' (ddAtime d) @
     value_if (ddMountpoint d \<notin> {[], ldMountpoint l}) ''mountpoint'' (ddMountpoint d) @
     value_if (ddQuota d \<noteq> [] \<and> parseQuota (ddQuota d) \<noteq> parseQuota (ldQuota l)) ''quota'' (ddQuota d) @
     value_if (ddSync d \<noteq> [] \<and> \<not> EqualFold (ddSync d) (ldSync l)) ''sync'' (ddSync d) @
     value_if (ddRecordsize d \<noteq> [] \<and> \<not> EqualFold (ddRecordsize d) (ldRecordsize l)) ''recordsize'' (ddRecordsize d) @
     value_if (ddXattr d \<noteq> [] \<and> \<not> EqualFold (ddXattr d) (ldXattr l)) ''xattr'' (ddXattr d) @
     value_if (ddSecondarycache d \<noteq> [] \<and> \<not> EqualFold (ddSecondarycache d) (ldSecondarycache l))
       ''secondarycache'' (ddSecondarycache d)"

definition reads_as :: "string \<Rightarrow> string \<times> string \<Rightarrow> bool" where
  "reads_as c pv \<longleftrightarrow> parseChangeString c = Some pv \<and> fst pv \<in> set datasetProperties"

definition plain_live :: "live_dataset \<Rightarrow> bool" where
  "plain_live l \<longleftrightarrow>
     list_all without_arrow
       [ldCompression l, ldAtime l, ldMountpoint l, ldQuota l, ldSync l, ldRecordsize l, ldXattr l, ldSecondarycache l]"

lemma property_names:
  "p \<in> set datasetProperties \<Longrightarrow> CHR '':'' \<notin> set p \<and> without_arrow p \<and> trim_space p = p \<and> p \<noteq> []"
proof -
  have "list_all (\<lambda>p. CHR '':'' \<notin> set p \<and> without_arrow p \<and> trim_space p = p \<and> p \<noteq> []) datasetProperties" by code_simp
  then show "p \<in> set datasetProperties \<Longrightarrow> CHR '':'' \<notin> set p \<and> without_arrow p \<and> trim_space p = p \<and> p \<noteq> []"
    by (simp add: list_all_iff)
qed

lemma reads_noted:
  "p \<in> set datasetProperties \<Longrightarrow> without_arrow old \<Longrightarrow> b = b' \<Longrightarrow> list_all2 reads_as (noted b (change p old new)) (value_if b' p new)"
  using parse_change property_names by (simp add: noted_def value_if_def reads_as_def)

lemma changes_read_back: "plain_live l \<Longrightarrow> list_all2 reads_as (diffDataset d l) (declared_values d l)"
  unfolding diffDataset_def declared_values_def declared_change_def folded_change_def
  by (intro list_all2_appendI reads_noted) (auto simp: plain_live_def datasetProperties_def)

lemma modify_reads:
  assumes "list_all2 reads_as cs pvs" and "ValidateDatasetName n" and "\<forall>tr p v. geOk E tr (ZfsSet n p v)"
  shows "modifyDataset E n cs s = (None, fold traced (map (\<lambda>(p, v). ZfsSet n p v) pvs) s)"
  using assms(1)
proof (induction arbitrary: s rule: list_all2_induct)
  case (Cons c cs pv pvs)
  obtain p v where pv: "pv = (p, v)" by fastforce
  with Cons.hyps have p: "parseChangeString c = Some (p, v)" "datasetPropName p = p" "p \<noteq> []"
    using property_names by (auto simp: reads_as_def datasetPropName_def)
  then show ?case
    using Cons.IH [of "traced (ZfsSet n p v) s"] assms(2,3) pv
    by (simp add: DatasetSet_def on_dataset_def gdo_def gseq_def)
qed simp

text \<open>
  C23. The texts of a plan carry what has to be done: modifying a dataset by the changes found against a live
  dataset sets the declared value of every property that differs, in order, and nothing else.
\<close>

theorem modify_sets_declared:
  assumes "plain_live l" and "ValidateDatasetName n" and "\<forall>tr p v. geOk E tr (ZfsSet n p v)"
  shows "modifyDataset E n (diffDataset d l) s = (None, fold traced (map (\<lambda>(p, v). ZfsSet n p v) (declared_values d l)) s)"
  by (rule modify_reads [OF changes_read_back [OF assms(1)] assms(2,3)])

section \<open>The loop\<close>

text \<open>One turn of the loop, and what follows it.\<close>

lemma apply_items_Cons:
  "apply_items E D (i # is) ready done s =
     (case apply_items E D [i] ready done s of
        (Inl r, s1) \<Rightarrow> (Inl r, s1)
      | (Inr done1, s1) \<Rightarrow> apply_items E D is (ready \<or> diKind i = KindStack) done1 s1)"
proof -
  obtain r s1 where ready: "(if diKind i = KindStack \<and> \<not> ready then checkDataReadiness E D s else (None, s)) = (r, s1)"
    by fastforce
  obtain own s2 where own: "(if needs_ownership i then owns_pools E s1 else (True, s1)) = (own, s2)" by fastforce
  obtain x s3 where item: "apply_item E i done s2 = (x, s3)" by fastforce
  note turn = apply_items.simps ready own item Let_def prod.case
  show ?thesis
  proof (cases r)
    case None
    note r = None
    show ?thesis
    proof (cases own)
      case True
      then show ?thesis using r by (cases x) (simp_all only: turn option.case sum.case if_False simp_thms)
    next
      case False
      then show ?thesis using r by (simp only: turn option.case sum.case if_True simp_thms)
    qed
  next
    case (Some e)
    then show ?thesis by (simp only: turn option.case sum.case)
  qed
qed

definition stops :: "genv \<Rightarrow> desired_state option \<Rightarrow> diff_item \<Rightarrow> bool" where
  "stops E D i \<longleftrightarrow> (\<forall>ready done s. isl (fst (apply_items E D [i] ready done s)))"

text \<open>An item that ends the loop ends it whatever comes after.\<close>

lemma items_stop:
  assumes "stops E D i"
  shows "apply_items E D (pre @ i # post) ready done s = apply_items E D (pre @ [i]) ready done s"
proof (induction pre arbitrary: ready "done" s)
  case Nil
  obtain x s1 where one: "apply_items E D [i] ready done s = (x, s1)" by fastforce
  moreover have "isl x" using assms one unfolding stops_def by (metis fst_conv)
  ultimately show ?case
    using apply_items_Cons [of E D i post ready "done" s] by (cases x) (simp_all del: apply_items.simps)
next
  case (Cons j pre)
  show ?case
    unfolding append_Cons apply_items_Cons [of E D j "pre @ i # post"] apply_items_Cons [of E D j "pre @ [i]"] Cons.IH ..
qed

lemma items_never_done:
  assumes "stops E D i" and "i \<in> set is"
  shows "isl (fst (apply_items E D is ready done s))"
proof -
  obtain pre post where split: "is = pre @ i # post" using assms(2) by (meson split_list)
  have "isl (fst (apply_items E D (pre @ [i]) ready done s))" for ready "done" s
  proof (induction pre arbitrary: ready "done" s)
    case Nil
    then show ?case using assms(1) by (simp add: stops_def del: apply_items.simps)
  next
    case (Cons j pre)
    then show ?case
      using apply_items_Cons [of E D j "pre @ [i]" ready "done" s]
      by (simp del: apply_items.simps split: prod.split sum.split)
  qed
  then show ?thesis unfolding split items_stop [OF assms(1), of pre post ready "done" s] .
qed

lemma item_halts:
  "apply_items E D is ready done s = (Inl r, s1) \<Longrightarrow> arHalt r \<noteq> NoHalt \<and> arStatus r \<noteq> StatusOK"
proof (induction "is" arbitrary: ready "done" s)
  case (Cons i "is")
  have turn: "apply_item E i done s' = (Inl r, s1) \<Longrightarrow> arHalt r \<noteq> NoHalt \<and> arStatus r \<noteq> StatusOK" for s'
    by (auto simp: apply_item_def halted_def no_result_def split: if_splits prod.splits option.splits)
  have "apply_items E D [i] ready done s = (Inl r, s1) \<Longrightarrow> arHalt r \<noteq> NoHalt \<and> arStatus r \<noteq> StatusOK"
    using turn by (auto simp: Let_def halted_def no_result_def split: prod.splits option.splits sum.splits if_splits)
  then show ?case using Cons by (auto simp: apply_items_Cons [of E D i "is"] simp del: apply_items.simps split: prod.splits sum.splits)
qed simp

lemma stops_ApplyPlan:
  assumes "stops E D i" and "i \<in> set (plItems p)"
  shows "arHalt (fst (ApplyPlan E p D s)) \<noteq> NoHalt \<and> arStatus (fst (ApplyPlan E p D s)) \<noteq> StatusOK"
proof -
  obtain r s1 where sync: "(case D of None \<Rightarrow> (None, s) | Some D \<Rightarrow> SyncDB E D s) = (r, s1)" by fastforce
  obtain x s2 where items: "apply_items E D (plItems p) False [] s1 = (x, s2)" by fastforce
  with items_never_done [OF assms, of False "[]" s1] obtain q where x: "x = Inl q" by (cases x) auto
  from item_halts [OF items [unfolded x]] show ?thesis
    using sync items x by (auto simp: ApplyPlan_def halted_def no_result_def split: option.split)
qed

section \<open>Blocked items\<close>

lemma stops_unowned:
  assumes "\<And>done s. isl (fst (apply_item E i done s))" and "needs_ownership i \<longrightarrow> geGuard E = None"
  shows "stops E D i"
  unfolding stops_def
proof (intro allI)
  fix ready "done" s
  have own: "(if needs_ownership i then owns_pools E s1 else (True, s1)) = (True, s1)" for s1
    using assms(2) by (simp add: owns_pools_def)
  obtain r s1 where ready: "(if diKind i = KindStack \<and> \<not> ready then checkDataReadiness E D s else (None, s)) = (r, s1)"
    by fastforce
  obtain x s3 where item: "apply_item E i done s1 = (x, s3)" by fastforce
  then have "isl x" using assms(1) by (metis fst_conv)
  then show "isl (fst (apply_items E D [i] ready done s))"
    by (cases r; cases x) (simp_all only: apply_items.simps ready own item Let_def prod.case option.case sum.case
        if_False simp_thms fst_conv sum.disc)
qed

text \<open>
  A blocked item without approval ends the apply: it never ends well, and nothing that comes after the item
  is looked at. (A pool is passed over instead while the ownership guard says no.)
\<close>

theorem unapproved_ends_apply:
  assumes "diAction i = ActionBlocked" and "\<not> diApproved i" and "diKind i = KindPool \<longrightarrow> geGuard E = None"
  shows "ApplyPlan E (p\<lparr>plItems := pre @ i # post\<rparr>) D s = ApplyPlan E (p\<lparr>plItems := pre @ [i]\<rparr>) D s \<and>
         arHalt (fst (ApplyPlan E (p\<lparr>plItems := pre @ i # post\<rparr>) D s)) \<noteq> NoHalt \<and>
         arStatus (fst (ApplyPlan E (p\<lparr>plItems := pre @ i # post\<rparr>) D s)) \<noteq> StatusOK"
proof -
  have stop: "stops E D i"
    by (rule stops_unowned) (use assms in \<open>auto simp: apply_item_def needs_ownership_def\<close>)
  have same: "apply_items E D (pre @ i # post) False [] s1 = apply_items E D (pre @ [i]) False [] s1" for s1
    by (rule items_stop [OF stop])
  obtain r s1 where sync: "(case D of None \<Rightarrow> (None, s) | Some D \<Rightarrow> SyncDB E D s) = (r, s1)" by fastforce
  obtain x s2 where items: "apply_items E D (pre @ [i]) False [] s1 = (x, s2)" by fastforce
  with items_never_done [OF stop, of "pre @ [i]" False "[]" s1] obtain q where x: "x = Inl q" by (cases x) auto
  have "ApplyPlan E (p\<lparr>plItems := pre @ i # post\<rparr>) D s = ApplyPlan E (p\<lparr>plItems := pre @ [i]\<rparr>) D s"
    using same [of s1] items x sync by (cases r) (simp_all add: ApplyPlan_def)
  then show ?thesis using stops_ApplyPlan [OF stop, of "p\<lparr>plItems := pre @ i # post\<rparr>" s] by simp
qed

text \<open>
  The tables are written before the plan is looked at: a share that is not declared loses its row although its
  item is blocked (its clients are connected), and the apply then ends at that item.
\<close>

theorem blocked_share_loses_row:
  assumes "fst (SyncDB E D s) = None" and "\<not> deIgnore D" and "n \<notin> dsName ` set (deShares D)"
    and "distinct (map dsName (deShares D))"
    and "plItems p = refused_item KindShare n ActionBlocked High ActiveConnections # post"
  shows "arHalt (fst (ApplyPlan E p (Some D) s)) = BlockedUnapproved \<and>
         row lsName (gbShares (gnDB (snd (ApplyPlan E p (Some D) s)))) n = None"
proof -
  obtain s1 where sync: "SyncDB E D s = (None, s1)" using assms(1) by (metis prod.collapse)
  have "apply_items E (Some D) (plItems p) False [] s1 =
      (Inl (halted n StatusDegraded BlockedUnapproved (Unapproved KindShare n) []), s1)"
    by (simp add: assms(5) needs_ownership_def apply_item_def)
  then have run: "ApplyPlan E p (Some D) s = (halted n StatusDegraded BlockedUnapproved (Unapproved KindShare n) [], s1)"
    by (simp add: ApplyPlan_def sync)
  have "lsName ` set (gbShares (gnDB s1)) \<subseteq> dsName ` set (deShares D)"
    using SyncDB_share_rows [OF sync assms(4)] assms(2) by blast
  moreover have "n \<in> lsName ` set (gbShares (gnDB s1))" if "row lsName (gbShares (gnDB s1)) n = Some r" for r
    using row_in_set [OF that] row_key [OF that] by blast
  ultimately have "row lsName (gbShares (gnDB s1)) n = None" using assms(3) by (metis not_None_eq subsetD)
  then show ?thesis by (simp add: run halted_def)
qed

section \<open>Exports\<close>

lemma createNFS_fails: "fst (createNFS E p d s) \<noteq> None"
  by (auto simp: createNFS_def gseq_def run_sql_def split: option.split sum.split)

text \<open>
  C40. A plan that creates or modifies an export never ends well: the statement names a unique index of
  \<open>nfs_exports\<close> that the schema does not have.
\<close>

theorem exports_never_applied:
  assumes "i \<in> set (plItems p)" and "diKind i = KindNFS" and "diAction i \<in> {ActionCreate, ActionModify}"
  shows "arHalt (fst (ApplyPlan E p D s)) \<noteq> NoHalt \<and> arStatus (fst (ApplyPlan E p D s)) \<noteq> StatusOK"
proof (rule stops_ApplyPlan [OF _ assms(1)])
  have "fst (fst (executed E i s)) \<noteq> None" for s
    using assms(2,3) createNFS_fails [of E "diName i" "spec_nfs i" s]
    by (auto simp: executed_def executeCreate_def executeModify_def modifyNFS_def)
  then have "isl (fst (apply_item E i done s))" for "done" s
    using assms(3) by (auto simp: apply_item_def split: prod.split option.split) (metis fst_conv option.distinct(1))+
  then show "stops E D i" by (rule stops_unowned) (use assms in \<open>auto simp: needs_ownership_def\<close>)
qed

section \<open>What has been applied\<close>

definition has_effect :: "diff_item \<Rightarrow> bool" where
  "has_effect i \<longleftrightarrow> diAction i \<noteq> ActionNOP"

definition recorded :: "diff_item \<Rightarrow> applied set" where
  "recorded i =
     {Deferred (diAction i) (diName i), ApprovedDelete (diKind i) (diName i), ManualRequired (diKind i) (diName i),
      Reshaped (diName i), Created (diKind i) (diName i), Modified (diKind i) (diName i), Deleted (diKind i) (diName i)}"

lemma one_item_done:
  assumes "apply_items E D [i] ready done s = (Inr done1, s1)"
  shows "\<exists>as. done1 = done @ as \<and> list_all2 (\<lambda>i a. a \<in> recorded i) (filter has_effect [i]) as"
proof -
  obtain r s1' where ready: "(if diKind i = KindStack \<and> \<not> ready then checkDataReadiness E D s else (None, s)) = (r, s1')"
    by fastforce
  obtain own s2 where own: "(if needs_ownership i then owns_pools E s1' else (True, s1')) = (own, s2)" by fastforce
  have item: "apply_item E i done s2 = (Inr done1, s1) \<Longrightarrow>
      \<exists>as. done1 = done @ as \<and> list_all2 (\<lambda>i a. a \<in> recorded i) (filter has_effect [i]) as"
    by (auto simp: apply_item_def executed_def recorded_def has_effect_def split: if_splits prod.splits option.splits diff_action.splits)
  have "own \<or> has_effect i" using own by (auto simp: needs_ownership_def has_effect_def split: if_splits)
  then show ?thesis
    using assms item by (auto simp: ready own Let_def recorded_def split: option.splits prod.splits sum.splits if_splits)
qed

lemma items_done:
  "apply_items E D is ready done s = (Inr done1, s1) \<Longrightarrow>
   \<exists>as. done1 = done @ as \<and> list_all2 (\<lambda>i a. a \<in> recorded i) (filter has_effect is) as"
proof (induction "is" arbitrary: ready "done" s)
  case (Cons i "is")
  from Cons.prems obtain done2 s2 where one: "apply_items E D [i] ready done s = (Inr done2, s2)"
      and rest: "apply_items E D is (ready \<or> diKind i = KindStack) done2 s2 = (Inr done1, s1)"
    by (auto simp: apply_items_Cons [of E D i "is"] simp del: apply_items.simps split: prod.splits sum.splits)
  from one_item_done [OF one] obtain as where as: "done2 = done @ as"
      "list_all2 (\<lambda>i a. a \<in> recorded i) (filter has_effect [i]) as" by blast
  from Cons.IH [OF rest] obtain bs where bs: "done1 = done2 @ bs"
      "list_all2 (\<lambda>i a. a \<in> recorded i) (filter has_effect is) bs" by blast
  have "list_all2 (\<lambda>i a. a \<in> recorded i) (filter has_effect [i] @ filter has_effect is) (as @ bs)"
    using as(2) bs(2) by (rule list_all2_appendI)
  moreover have "filter has_effect [i] @ filter has_effect is = filter has_effect (i # is)" by simp
  ultimately show ?case using as(1) bs(1) by auto
qed simp

text \<open>
  C22. An apply that is not halted has gone through the whole plan: every item that is not a no-op is recorded, in
  the order of the plan, as done, deferred to the owner of the pools or left to the operator.
\<close>

theorem nothing_skipped:
  assumes "arHalt (fst (ApplyPlan E p D s)) = NoHalt"
  shows "\<exists>as. (arApplied (fst (ApplyPlan E p D s)) = as \<or> arApplied (fst (ApplyPlan E p D s)) = as @ [SyncedFabric]) \<and>
           list_all2 (\<lambda>i a. a \<in> recorded i) (filter has_effect (plItems p)) as"
proof -
  obtain r s1 where sync: "(case D of None \<Rightarrow> (None, s) | Some D \<Rightarrow> SyncDB E D s) = (r, s1)" by fastforce
  obtain x s2 where items: "apply_items E D (plItems p) False [] s1 = (x, s2)" by fastforce
  note run = ApplyPlan_def sync items Let_def prod.case
  have "r = None" using assms by (cases r) (simp_all add: run halted_def)
  moreover have "x \<noteq> Inl q" for q
    using assms calculation item_halts [of E D "plItems p" False "[]" s1 q s2] items by (auto simp: run)
  then obtain d where x: "x = Inr d" by (cases x) auto
  moreover have "arApplied (fst (finish E D d' s')) = d'" for d' s'
    by (auto simp: finish_def no_result_def split: option.split prod.split)
  moreover have "arHalt (halted n st h e dn) = h" for n st h e dn by (simp add: halted_def)
  ultimately have "arApplied (fst (ApplyPlan E p D s)) = d \<or> arApplied (fst (ApplyPlan E p D s)) = d @ [SyncedFabric]"
    using assms x by (auto simp: run split: prod.splits option.splits if_splits)
  then show ?thesis using items_done [of E D "plItems p" False "[]" s1 d s2] items x by simp blast
qed

section \<open>Convergence\<close>

lemma blocked_counted: "0 < plBlocked (ComputeDiff P D L) \<longleftrightarrow> (\<exists>i \<in> set (plItems (ComputeDiff P D L)). diAction i = ActionBlocked)"
  by (auto simp: ComputeDiff_def Let_def count_action_def filter_empty_conv ambiguous_items_def)

lemma ambiguous_counted:
  assumes "0 < plAmbiguous (ComputeDiff P D L)"
  shows "\<exists>i \<in> set (plItems (ComputeDiff P D L)). diAction i = ActionAmbiguous"
proof (cases "ambiguous_items L")
  case Nil
  then show ?thesis using assms by (auto simp: ComputeDiff_def Let_def count_action_def filter_empty_conv)
next
  case (Cons i is')
  have "\<forall>j \<in> set (ambiguous_items L). diAction j = ActionAmbiguous" by (auto simp: ambiguous_items_def)
  then show ?thesis using Cons by (simp add: ComputeDiff_def)
qed

text \<open>
  A node counts as converged exactly when its live state can be read and a new plan against it has nothing but
  no-ops, changes left to the operator and reshapes: such pending work does not show.
\<close>

theorem converged_exactly:
  "fst (ConvergenceCheck E D s) = Converged \<longleftrightarrow>
     (\<exists>L s1. ReadLiveState E s = (Some L, s1) \<and>
        (\<forall>i \<in> set (plItems (ComputeDiff (probe_now E (gnTrace s1)) D L)).
           diAction i \<in> {ActionNOP, ActionManual, ActionReshape}))"
proof -
  have one: "diAction i \<in> {ActionNOP, ActionManual, ActionReshape} \<longleftrightarrow>
      \<not> drifting i \<and> diAction i \<noteq> ActionBlocked" for i
    by (cases "diAction i") (simp_all add: drifting_def)
  obtain l s1 where read: "ReadLiveState E s = (l, s1)" by fastforce
  show ?thesis
  proof (cases l)
    case (Some L)
    let ?p = "ComputeDiff (probe_now E (gnTrace s1)) D L"
    have amb: "0 < plAmbiguous ?p \<Longrightarrow> list_ex drifting (plItems ?p)"
      by (auto dest!: ambiguous_counted simp: list_ex_iff drifting_def)
    have "fst (ConvergenceCheck E D s) = Converged \<longleftrightarrow> \<not> list_ex drifting (plItems ?p) \<and> \<not> 0 < plBlocked ?p"
      using amb by (auto simp: ConvergenceCheck_def read Some Let_def)
    also have "\<dots> \<longleftrightarrow> (\<forall>i \<in> set (plItems ?p). \<not> drifting i \<and> diAction i \<noteq> ActionBlocked)"
      unfolding blocked_counted by (auto simp: list_ex_iff)
    finally show ?thesis unfolding one by (simp add: read Some)
  qed (simp add: ConvergenceCheck_def read)
qed

section \<open>The NVMe fabric\<close>

text \<open>
  Whenever one export of the fabric is applied all of them are replaced by the declared ones, also when
  extraneous resources are to be left alone.
\<close>

theorem fabric_replaced:
  assumes "arHalt (fst (ApplyPlan E p (Some D) s)) = NoHalt" and "fabricNVMeNeedsApply (plItems p)"
  shows "gnTargets (snd (ApplyPlan E p (Some D) s)) = fabric_exports D"
proof -
  obtain r s1 where sync: "SyncDB E D s = (r, s1)" by fastforce
  obtain x s2 where items: "apply_items E (Some D) (plItems p) False [] s1 = (x, s2)" by fastforce
  obtain r3 s3 where nvme: "reconcileNVMeFabrics E (fabric_exports D) s2 = (r3, s3)" by fastforce
  note run = ApplyPlan_def sync items nvme Let_def prod.case option.case
  have "r = None" using assms by (cases r) (simp_all add: run halted_def)
  moreover have "x \<noteq> Inl q" for q
    using assms calculation item_halts [of E "Some D" "plItems p" False "[]" s1 q s2] items by (auto simp: run)
  then obtain d where "x = Inr d" by (cases x) auto
  moreover have retry: "gnTargets (snd (probeWithRetry E q n s')) = gnTargets s'" for q n s'
    by (induction n arbitrary: s') auto
  have "gnTargets (snd (probe_all E qs s')) = gnTargets s'" for qs s'
  proof (induction qs arbitrary: s')
    case (Cons q qs)
    show ?case using Cons retry [of q 3 s'] by (auto split: prod.split) (metis snd_conv)
  qed simp
  then have fin: "gnTargets (snd (finish E (Some D) d' s')) = gnTargets s'" for d' s'
    unfolding finish_def VerifyAppliedServices_def ConvergenceCheck_def ReadLiveState_def Let_def
    by (auto split: prod.split) (metis snd_conv)+
  moreover have "r3 = None" using assms calculation(1,2) by (cases r3) (simp_all add: run halted_def)
  moreover have "gnTargets s3 = fabric_exports D"
    using nvme \<open>r3 = None\<close> by (auto simp: reconcileNVMeFabrics_def gseq_def gdo_def traced_def split: if_splits)
  ultimately show ?thesis using assms by (simp add: run)
qed

section \<open>SMART tasks\<close>

lemma cut_at_first: "c \<in> set s \<Longrightarrow> \<exists>a b. cut_at c (s @ t) = Some (a, b) \<and> c \<notin> set a"
  by (induction s) auto

text \<open>
  Deleting a task of a device with a hyphen in its name reports success and leaves the row: the item's name is
  cut at the first hyphen.
\<close>

theorem smart_deletion_misses:
  assumes "CHR ''-'' \<in> set (dtDevice t)" and "\<forall>tr q. geOk E tr (SQL q)" and "t \<in> set (gbSMART (gnDB s))"
  shows "fst (deleteSMART E (smart_name t) s) = None \<and> t \<in> set (gbSMART (gnDB (snd (deleteSMART E (smart_name t) s))))"
proof -
  obtain a b where cut: "cut_at CHR ''-'' (smart_name t) = Some (a, b)" and a: "CHR ''-'' \<notin> set a"
    using cut_at_first [OF assms(1), of "''-'' @ dtType t"] unfolding smart_name_def by blast
  with assms(1) have "smart_key t \<noteq> (a, b)" by (auto simp: smart_key_def)
  then show ?thesis using assms(2,3) cut by (simp add: deleteSMART_def run_sql_def)
qed

section \<open>Samples\<close>

definition plan_of :: "diff_item list \<Rightarrow> plan" where
  "plan_of is = removal\<lparr>plItems := is\<rparr>"

lemma plan_of_items [simp]: "plItems (plan_of is) = is"
  by (simp add: plan_of_def)

lemma modify_sets_declared_witness:
  "modifyDataset calm_genv ''p/d''
     (diffDataset ((plain_dataset ''p/d'')\<lparr>ddCompression := ''zstd'', ddAtime := ''on''\<rparr>)
       ((plain_live_dataset ''p/d'')\<lparr>ldRecordsize := ''128K''\<rparr>)) sample_gnode =
   (None, sample_gnode\<lparr>gnTrace := [ZfsSet ''p/d'' ''compression'' ''zstd'', ZfsSet ''p/d'' ''atime'' ''on'']\<rparr>)"
proof -
  let ?d = "(plain_dataset ''p/d'')\<lparr>ddCompression := ''zstd'', ddAtime := ''on''\<rparr>" 
    and ?l = "(plain_live_dataset ''p/d'')\<lparr>ldRecordsize := ''128K''\<rparr>"
  have "trim_space ''zstd'' = ''zstd''" "trim_space ''on'' = ''on''" by code_simp+
  then have "declared_values ?d ?l = [(''compression'', ''zstd''), (''atime'', ''on'')]"
    by (simp add: declared_values_def value_if_def plain_dataset_def plain_live_dataset_def)
  moreover have "ValidateDatasetName ''p/d''" by code_simp
  moreover have "plain_live ?l" by (simp add: plain_live_def plain_live_dataset_def without_arrow_def)
  ultimately show ?thesis
    using modify_sets_declared [of ?l "''p/d''" calm_genv ?d sample_gnode] by (simp add: traced_def sample_gnode_def)
qed

lemma unapproved_ends_apply_witness:
  "arHalt (fst (ApplyPlan calm_genv
     (plan_of [refused_item KindDataset ''p/d'' ActionBlocked High HoldsData, item KindUser ''eve'' ActionDelete High NoSpec []])
     None sample_gnode)) \<noteq> NoHalt"
proof -
  have "arHalt (fst (ApplyPlan calm_genv ((plan_of [])\<lparr>plItems := [] @ refused_item KindDataset ''p/d'' ActionBlocked High HoldsData #
      [item KindUser ''eve'' ActionDelete High NoSpec []]\<rparr>) None sample_gnode)) \<noteq> NoHalt"
    by (rule unapproved_ends_apply [THEN conjunct2, THEN conjunct1]) simp_all
  then show ?thesis by (simp add: plan_of_def)
qed

lemma blocked_share_loses_row_witness:
  "row lsName (gbShares (gnDB (snd (ApplyPlan calm_genv
     (plan_of [refused_item KindShare ''old'' ActionBlocked High ActiveConnections]) (Some sharing)
     (sample_gnode\<lparr>gnDB := empty_gitdb\<lparr>gbShares := [(new_share sample_share)\<lparr>lsName := ''old''\<rparr>]\<rparr>\<rparr>))))) ''old'' = None"
proof -
  let ?s = "sample_gnode\<lparr>gnDB := empty_gitdb\<lparr>gbShares := [(new_share sample_share)\<lparr>lsName := ''old''\<rparr>]\<rparr>\<rparr>"
  have "fst (SyncDB calm_genv sharing ?s) = None" 
    by (rule calm_SyncDB)
       (auto simp: sync_steps_def user_steps_def groups_steps_def share_steps_def nfs_steps_def sharing_def nothing_desired_def
         applyShareOptions_def sample_share_ok sample_nfs_ok)
  moreover have "\<not> deIgnore sharing" "''old'' \<notin> dsName ` set (deShares sharing)" "distinct (map dsName (deShares sharing))"
    by (simp_all add: sharing_def nothing_desired_def sample_share_def)
  ultimately show ?thesis
    using blocked_share_loses_row [of calm_genv sharing ?s "''old''"
        "plan_of [refused_item KindShare ''old'' ActionBlocked High ActiveConnections]" "[]"] by simp
qed

lemma exports_never_applied_witness:
  "arStatus (fst (ApplyPlan calm_genv (plan_of [item KindNFS ''/tank/media'' ActionCreate Low (NFSSpec sample_nfs) []])
     (Some sharing) sample_gnode)) \<noteq> StatusOK"
  using exports_never_applied [of "item KindNFS ''/tank/media'' ActionCreate Low (NFSSpec sample_nfs) []"
      "plan_of [item KindNFS ''/tank/media'' ActionCreate Low (NFSSpec sample_nfs) []]" calm_genv "Some sharing" sample_gnode] by simp

lemma nothing_skipped_witness:
  "arApplied (fst (ApplyPlan bare_genv removal None sample_gnode)) \<noteq> []"
proof -
  have "empty_answer bare_genv tr ''p/d'' = Inr (True, HoldsNothing)" for tr
    unfolding empty_answer_def bare_genv_def by code_simp
  moreover have "ValidateDatasetName ''p/d''" by code_simp
  ultimately have "arHalt (fst (ApplyPlan bare_genv removal None sample_gnode)) = NoHalt"
    by (simp add: ApplyPlan_def removal_def Let_def needs_ownership_def apply_item_def executed_def executeDelete_def
        deleteDataset_def when_empty_def DatasetDestroy_def on_dataset_def gdo_def fabricNVMeNeedsApply_def finish_def
        no_result_def bare_genv_def traced_def calm_genv_def)
  from nothing_skipped [OF this] show ?thesis by (auto simp: removal_def has_effect_def)
qed

lemma converged_exactly_witness:
  "fst (ConvergenceCheck calm_genv nothing_desired sample_gnode) = Converged"
proof -
  have "plItems (ComputeDiff P nothing_desired nothing_live) = []" for P
    by (simp add: ComputeDiff_def ambiguous_items_def repeated_def all_items_def system_items_def create_phase_def
        create_items_def create_shares_def create_nfs_def modify_phase_defs modify_pools_def modify_items_def
        modify_shares_def modify_fabric_def acme_items_def paired_items_def delete_phase_defs delete_items_def
        fabric_exports_def nothing_desired_def nothing_live_def)
  moreover have "ReadLiveState calm_genv sample_gnode = (Some nothing_live, traced ReadLive sample_gnode)"
    by (simp add: ReadLiveState_def Let_def sample_gnode_def empty_gitdb_def calm_genv_def live_groups_def
        readLiveReplication_def nothing_live_def)
  ultimately show ?thesis unfolding converged_exactly by simp
qed

definition sample_export :: nvme_export where
  "sample_export =
     \<lparr>dxNQN = ''nqn.a'', dxZvol = ''p/v'', dxTransport = ''tcp'', dxAddr = ''10.0.0.1'', dxPort = 4420, dxNamespace = 1,
      dxAllowAny = True, dxHosts = []\<rparr>"

lemma fabric_replaced_witness:
  "gnTargets (snd (ApplyPlan calm_genv (plan_of [item KindNVMeFabric ''nqn.a'' ActionCreate Medium (NVMeSpec sample_export) []])
     (Some (nothing_desired\<lparr>deIgnore := True, deFabrics := Some [sample_export]\<rparr>))
     (sample_gnode\<lparr>gnTargets := [sample_export\<lparr>dxNQN := ''nqn.b''\<rparr>]\<rparr>))) = [sample_export]"
proof -
  let ?D = "nothing_desired\<lparr>deIgnore := True, deFabrics := Some [sample_export]\<rparr>"
    and ?p = "plan_of [item KindNVMeFabric ''nqn.a'' ActionCreate Medium (NVMeSpec sample_export) []]"
    and ?s = "sample_gnode\<lparr>gnTargets := [sample_export\<lparr>dxNQN := ''nqn.b''\<rparr>]\<rparr>"
  have "fst (SyncDB calm_genv ?D ?s) = None"
    by (rule calm_SyncDB) (simp add: sync_steps_def user_steps_def groups_steps_def share_steps_def nfs_steps_def nothing_desired_def)
  then obtain s1 where sync: "SyncDB calm_genv ?D ?s = (None, s1)" by (metis prod.collapse)
  have "arHalt (fst (ApplyPlan calm_genv ?p (Some ?D) ?s)) = NoHalt"
    by (simp add: ApplyPlan_def sync Let_def needs_ownership_def apply_item_def executed_def executeCreate_def
        reconcile_item_def fabricNVMeNeedsApply_def reconcileNVMeFabrics_def calm_gdo gseq_def finish_def no_result_def
        split: prod.split)
  moreover have "fabricNVMeNeedsApply (plItems ?p)" by (simp add: fabricNVMeNeedsApply_def)
  ultimately show ?thesis using fabric_replaced [of calm_genv ?p ?D ?s] by (simp add: fabric_exports_def)
qed

definition sample_task :: smart_task where
  "sample_task = \<lparr>dtDevice = ''/dev/disk/by-id/ata-A'', dtType = ''short'', dtSchedule = ''daily'', dtEnabled = True\<rparr>"

lemma smart_deletion_misses_witness:
  "sample_task \<in> set (gbSMART (gnDB (snd (deleteSMART calm_genv (smart_name sample_task)
     (sample_gnode\<lparr>gnDB := empty_gitdb\<lparr>gbSMART := [sample_task]\<rparr>\<rparr>)))))"
  using smart_deletion_misses [of sample_task calm_genv "sample_gnode\<lparr>gnDB := empty_gitdb\<lparr>gbSMART := [sample_task]\<rparr>\<rparr>"]
  by (simp add: sample_task_def)

end
