(* ===== verification/GoRegexp.thy ===== *)
theory GoRegexp
  imports GoText
begin

text \<open>
  Regular expressions as the daemon uses them: anchored at both ends and matched against a whole text (\<open>regexp\<close>,
  \<open>MatchString\<close>). The language of an expression is the definition of a match; the derivatives compute it.
\<close>

section \<open>Expressions\<close>

datatype rx =
    Never
  | Empty
  | Class string
  | NotClass string
  | Seq rx rx
  | Alt rx rx
  | Star rx
  | Upto nat rx

definition letter_chars :: string where
  "letter_chars = lower_chars @ upper_chars"

definition alnum_chars :: string where
  "alnum_chars = lower_chars @ upper_chars @ digit_chars"

definition space_chars :: string where
  "space_chars = [CHR 0x09, CHR 0x0A, CHR 0x0C, CHR 0x0D, CHR '' '']"

fun lit :: "string \<Rightarrow> rx" where
  "lit [] = Empty"
| "lit (c # cs) = Seq (Class [c]) (lit cs)"

fun seqs :: "rx list \<Rightarrow> rx" where
  "seqs [] = Empty"
| "seqs (r # rs) = Seq r (seqs rs)"

fun alts :: "rx list \<Rightarrow> rx" where
  "alts [] = Never"
| "alts (r # rs) = Alt r (alts rs)"

definition opt :: "rx \<Rightarrow> rx" where
  "opt r = Alt r Empty"

definition plus_of :: "rx \<Rightarrow> rx" where
  "plus_of r = Seq r (Star r)"

definition between :: "nat \<Rightarrow> nat \<Rightarrow> rx \<Rightarrow> rx" where
  "between lo hi r = Seq (seqs (replicate lo r)) (Upto (hi - lo) r)"

section \<open>Languages\<close>

definition conc :: "string set \<Rightarrow> string set \<Rightarrow> string set" where
  "conc A B = {x @ y | x y. x \<in> A \<and> y \<in> B}"

inductive_set star :: "string set \<Rightarrow> string set" for A where
  star_Nil: "[] \<in> star A"
| star_append: "x \<in> A \<Longrightarrow> y \<in> star A \<Longrightarrow> x @ y \<in> star A"

primrec at_most :: "nat \<Rightarrow> string set \<Rightarrow> string set" where
  "at_most 0 A = {[]}"
| "at_most (Suc n) A = {[]} \<union> conc A (at_most n A)"

primrec lang :: "rx \<Rightarrow> string set" where
  "lang Never = {}"
| "lang Empty = {[]}"
| "lang (Class cs) = {[c] | c. c \<in> set cs}"
| "lang (NotClass cs) = {[c] | c. c \<notin> set cs}"
| "lang (Seq r s) = conc (lang r) (lang s)"
| "lang (Alt r s) = lang r \<union> lang s"
| "lang (Star r) = star (lang r)"
| "lang (Upto n r) = at_most n (lang r)"

section \<open>Derivatives\<close>

primrec nullable :: "rx \<Rightarrow> bool" where
  "nullable Never = False"
| "nullable Empty = True"
| "nullable (Class cs) = False"
| "nullable (NotClass cs) = False"
| "nullable (Seq r s) = (nullable r \<and> nullable s)"
| "nullable (Alt r s) = (nullable r \<or> nullable s)"
| "nullable (Star r) = True"
| "nullable (Upto n r) = True"

text \<open>Expressions that match nothing are left out, so that the derivatives stay small.\<close>

definition seq_rx :: "rx \<Rightarrow> rx \<Rightarrow> rx" where
  "seq_rx r s = (if r = Never then Never else if r = Empty then s else Seq r s)"

definition alt_rx :: "rx \<Rightarrow> rx \<Rightarrow> rx" where
  "alt_rx r s = (if r = Never then s else if s = Never then r else Alt r s)"

primrec deriv :: "char \<Rightarrow> rx \<Rightarrow> rx" where
  "deriv c Never = Never"
| "deriv c Empty = Never"
| "deriv c (Class cs) = (if c \<in> set cs then Empty else Never)"
| "deriv c (NotClass cs) = (if c \<in> set cs then Never else Empty)"
| "deriv c (Seq r s) = (if nullable r then alt_rx (seq_rx (deriv c r) s) (deriv c s) else seq_rx (deriv c r) s)"
| "deriv c (Alt r s) = alt_rx (deriv c r) (deriv c s)"
| "deriv c (Star r) = seq_rx (deriv c r) (Star r)"
| "deriv c (Upto n r) = (if n = 0 then Never else seq_rx (deriv c r) (Upto (n - 1) r))"

primrec MatchString :: "rx \<Rightarrow> string \<Rightarrow> bool" where
  "MatchString r [] = nullable r"
| "MatchString r (c # cs) = MatchString (deriv c r) cs"

lemma conc_Nil [simp]: "[] \<in> conc A B \<longleftrightarrow> [] \<in> A \<and> [] \<in> B"
  by (auto simp: conc_def)

lemma concI [intro]: "x \<in> A \<Longrightarrow> y \<in> B \<Longrightarrow> x @ y \<in> conc A B"
  by (auto simp: conc_def)

lemma conc_cases:
  assumes "s \<in> conc A B"
  obtains x y where "s = x @ y" and "x \<in> A" and "y \<in> B"
  using assms by (auto simp: conc_def)

lemma conc_Cons:
  "c # s \<in> conc A B \<longleftrightarrow> ([] \<in> A \<and> c # s \<in> B) \<or> (\<exists>x y. s = x @ y \<and> c # x \<in> A \<and> y \<in> B)"
proof
  assume "c # s \<in> conc A B"
  then obtain x y where "c # s = x @ y" "x \<in> A" "y \<in> B" by (rule conc_cases)
  then show "([] \<in> A \<and> c # s \<in> B) \<or> (\<exists>x y. s = x @ y \<and> c # x \<in> A \<and> y \<in> B)" by (cases x) auto
next
  assume "([] \<in> A \<and> c # s \<in> B) \<or> (\<exists>x y. s = x @ y \<and> c # x \<in> A \<and> y \<in> B)"
  then show "c # s \<in> conc A B"
    using concI [of "[]" A "c # s" B] concI [of "c # _" A _ B] by fastforce
qed

lemma at_most_Nil [simp]: "[] \<in> at_most n A"
  by (cases n) auto

lemma at_most_mono: "m \<le> n \<Longrightarrow> at_most m A \<subseteq> at_most n A"
proof (induction m arbitrary: n)
  case (Suc m)
  then obtain k where n: "n = Suc k" by (cases n) auto
  then have "at_most m A \<subseteq> at_most k A" using Suc by simp
  then show ?case unfolding n by (auto simp: conc_def)
qed simp

lemma star_Cons: "c # s \<in> star A \<longleftrightarrow> (\<exists>x y. s = x @ y \<and> c # x \<in> A \<and> y \<in> star A)"
proof
  show "c # s \<in> star A \<Longrightarrow> \<exists>x y. s = x @ y \<and> c # x \<in> A \<and> y \<in> star A"
  proof (induction "c # s" rule: star.induct)
    case (star_append x y)
    then show ?case by (cases x) auto
  qed
  show "\<exists>x y. s = x @ y \<and> c # x \<in> A \<and> y \<in> star A \<Longrightarrow> c # s \<in> star A"
    using star_append by fastforce
qed

lemma at_most_Cons:
  "c # s \<in> at_most (Suc n) A \<longleftrightarrow> (\<exists>x y. s = x @ y \<and> c # x \<in> A \<and> y \<in> at_most n A)"
proof (induction n)
  case (Suc n)
  have "c # s \<in> at_most (Suc (Suc n)) A \<longleftrightarrow>
      ([] \<in> A \<and> c # s \<in> at_most (Suc n) A) \<or> (\<exists>x y. s = x @ y \<and> c # x \<in> A \<and> y \<in> at_most (Suc n) A)"
    by (simp add: conc_Cons)
  moreover have "y \<in> at_most (Suc n) A" if "y \<in> at_most n A" for y using that at_most_mono [of n "Suc n" A] by auto
  ultimately show ?case using Suc by blast
qed (auto simp: conc_Cons)

lemma nullable_iff: "nullable r \<longleftrightarrow> [] \<in> lang r"
  by (induction r) (auto intro: star_Nil)

lemma lang_seq_rx [simp]: "lang (seq_rx r s) = conc (lang r) (lang s)"
  by (auto simp: seq_rx_def conc_def)

lemma lang_alt_rx [simp]: "lang (alt_rx r s) = lang r \<union> lang s"
  by (auto simp: alt_rx_def)

lemma deriv_iff: "s \<in> lang (deriv c r) \<longleftrightarrow> c # s \<in> lang r"
proof (induction r arbitrary: s)
  case (Seq r1 r2)
  have "s \<in> conc (lang (deriv c r1)) (lang r2) \<longleftrightarrow> (\<exists>x y. s = x @ y \<and> c # x \<in> lang r1 \<and> y \<in> lang r2)"
    using Seq.IH by (auto simp: conc_def)
  then show ?case using Seq.IH by (auto simp: conc_Cons nullable_iff)
next
  case (Star r)
  then show ?case by (auto simp: conc_def star_Cons)
next
  case (Upto n r)
  then show ?case by (cases n) (auto simp: conc_def at_most_Cons simp del: at_most.simps(2))
qed auto

text \<open>The matcher decides the language.\<close>

lemma MatchString_iff: "MatchString r s \<longleftrightarrow> s \<in> lang r"
  by (induction s arbitrary: r) (simp_all add: nullable_iff deriv_iff)

section \<open>The shapes that occur\<close>

lemma lang_lit [simp]: "lang (lit t) = {t}"
  by (induction t) (auto simp: conc_def)

lemma star_Class: "s \<in> star {[c] | c. c \<in> A} \<longleftrightarrow> set s \<subseteq> A"
proof
  show "s \<in> star {[c] | c. c \<in> A} \<Longrightarrow> set s \<subseteq> A" by (induction rule: star.induct) auto
  show "set s \<subseteq> A \<Longrightarrow> s \<in> star {[c] | c. c \<in> A}"
  proof (induction s)
    case (Cons c s)
    then show ?case using star_append [of "[c]"] by simp
  qed (rule star_Nil)
qed

lemma lang_any [simp]: "s \<in> lang (Star (Class cs)) \<longleftrightarrow> set s \<subseteq> set cs"
  by (simp add: star_Class)

lemma lang_any_not [simp]: "s \<in> lang (Star (NotClass cs)) \<longleftrightarrow> set s \<inter> set cs = {}"
  using star_Class [of s "- set cs"] by auto

lemma lang_some: "s \<in> lang (plus_of (Class cs)) \<longleftrightarrow> s \<noteq> [] \<and> set s \<subseteq> set cs"
proof (cases s)
  case (Cons c t)
  have "s \<in> lang (plus_of (Class cs)) \<longleftrightarrow> c \<in> set cs \<and> t \<in> star {[c] | c. c \<in> set cs}"
    by (auto simp: plus_of_def conc_Cons Cons)
  then show ?thesis by (simp add: star_Class Cons)
qed (simp add: plus_of_def)

lemma lang_upto: "s \<in> lang (Upto n (Class cs)) \<longleftrightarrow> length s \<le> n \<and> set s \<subseteq> set cs"
proof (induction n arbitrary: s)
  case (Suc n)
  show ?case
  proof (cases s)
    case (Cons c t)
    then show ?thesis using Suc at_most_Cons [of c t n "lang (Class cs)"] by auto
  qed simp
qed (auto simp: conc_def)

lemma lang_opt [simp]: "s \<in> lang (opt r) \<longleftrightarrow> s = [] \<or> s \<in> lang r"
  by (auto simp: opt_def)

lemma lang_seq: "s \<in> lang (Seq r t) \<longleftrightarrow> (\<exists>x y. s = x @ y \<and> x \<in> lang r \<and> y \<in> lang t)"
  by (auto simp: conc_def)

lemma lang_alts [simp]: "s \<in> lang (alts rs) \<longleftrightarrow> (\<exists>r \<in> set rs. s \<in> lang r)"
  by (induction rs) auto

text \<open>A sequence, by its first expression, and by its pieces.\<close>

lemma lang_seqs_Nil [simp]: "lang (seqs []) = {[]}"
  by simp

lemma lang_seqs_Cons: "s \<in> lang (seqs (r # rs)) \<longleftrightarrow> (\<exists>x y. s = x @ y \<and> x \<in> lang r \<and> y \<in> lang (seqs rs))"
  by (simp add: lang_seq del: lang.simps)

lemma seqs_lit: "s \<in> lang (seqs (lit w # rs)) \<longleftrightarrow> (\<exists>t. s = w @ t \<and> t \<in> lang (seqs rs))"
  unfolding lang_seqs_Cons by simp

lemma seqs_class: "s \<in> lang (seqs (Class cs # rs)) \<longleftrightarrow> (\<exists>c t. s = c # t \<and> c \<in> set cs \<and> t \<in> lang (seqs rs))"
  by (cases s) (auto simp: conc_Cons)

lemma seqs_one [simp]: "s \<in> lang (seqs [r]) \<longleftrightarrow> s \<in> lang r"
  unfolding lang_seqs_Cons by simp

lemma seqs_alts_lit:
  "s \<in> lang (seqs (alts (map lit ws) # rs)) \<longleftrightarrow> (\<exists>w \<in> set ws. \<exists>t. s = w @ t \<and> t \<in> lang (seqs rs))"
  unfolding lang_seqs_Cons by auto

lemma seqs_pieces: "list_all2 (\<lambda>w r. w \<in> lang r) ws rs \<Longrightarrow> concat ws \<in> lang (seqs rs)"
proof (induction rule: list_all2_induct)
  case (Cons w ws r rs)
  then show ?case unfolding lang_seqs_Cons by auto
qed simp

lemma replicate_class: "s \<in> lang (seqs (replicate n (Class cs))) \<longleftrightarrow> length s = n \<and> set s \<subseteq> set cs"
proof (induction n arbitrary: s)
  case (Suc n)
  then show ?case by (cases s) (auto simp: conc_Cons)
qed auto

lemma lang_between:
  "lo \<le> hi \<Longrightarrow> s \<in> lang (between lo hi (Class cs)) \<longleftrightarrow> lo \<le> length s \<and> length s \<le> hi \<and> set s \<subseteq> set cs"
proof
  assume "lo \<le> hi" "lo \<le> length s \<and> length s \<le> hi \<and> set s \<subseteq> set cs"
  then have "take lo s \<in> lang (seqs (replicate lo (Class cs)))" "drop lo s \<in> lang (Upto (hi - lo) (Class cs))"
    unfolding replicate_class lang_upto by (auto dest: in_set_takeD in_set_dropD)
  then show "s \<in> lang (between lo hi (Class cs))"
    unfolding between_def lang_seq by (metis append_take_drop_id)
qed (auto simp: between_def lang_seq replicate_class lang_upto simp del: lang.simps)

declare lit.simps [simp del] alts.simps [simp del] seqs.simps [simp del]

text \<open>The characters a text can have.\<close>

primrec chars_of :: "rx \<Rightarrow> char set" where
  "chars_of Never = {}"
| "chars_of Empty = {}"
| "chars_of (Class cs) = set cs"
| "chars_of (NotClass cs) = - set cs"
| "chars_of (Seq r s) = chars_of r \<union> chars_of s"
| "chars_of (Alt r s) = chars_of r \<union> chars_of s"
| "chars_of (Star r) = chars_of r"
| "chars_of (Upto n r) = chars_of r"

lemma star_chars: "s \<in> star A \<Longrightarrow> \<forall>x \<in> A. set x \<subseteq> C \<Longrightarrow> set s \<subseteq> C"
  by (induction rule: star.induct) auto

lemma at_most_chars: "s \<in> at_most n A \<Longrightarrow> \<forall>x \<in> A. set x \<subseteq> C \<Longrightarrow> set s \<subseteq> C"
  by (induction n arbitrary: s) (auto simp: conc_def, blast+)

lemma lang_chars: "s \<in> lang r \<Longrightarrow> set s \<subseteq> chars_of r"
proof (induction r arbitrary: s)
  case (Seq r1 r2)
  then show ?case by (fastforce simp: conc_def)
next
  case (Star r)
  then show ?case using star_chars [of s "lang r" "chars_of r"] by simp
next
  case (Upto n r)
  then show ?case using at_most_chars [of s n "lang r" "chars_of r"] by simp
qed auto

text \<open>The first character of a text.\<close>

primrec first_of :: "rx \<Rightarrow> char set" where
  "first_of Never = {}"
| "first_of Empty = {}"
| "first_of (Class cs) = set cs"
| "first_of (NotClass cs) = - set cs"
| "first_of (Seq r s) = first_of r \<union> (if nullable r then first_of s else {})"
| "first_of (Alt r s) = first_of r \<union> first_of s"
| "first_of (Star r) = first_of r"
| "first_of (Upto n r) = first_of r"

lemma lang_first: "c # s \<in> lang r \<Longrightarrow> c \<in> first_of r"
proof (induction r arbitrary: s)
  case (Seq r1 r2)
  then show ?case by (auto simp: conc_Cons nullable_iff)
next
  case (Star r)
  then show ?case by (auto simp: star_Cons)
next
  case (Upto n r)
  then show ?case by (cases n) (auto simp: at_most_Cons simp del: at_most.simps(2))
qed auto

end
