(* ===== verification/Whitelist.thy ===== *)
theory Whitelist
  imports GoRegexp
begin

text \<open>
  The table of the commands the daemon may run (\<open>security/whitelist.go\<close>): for every key the program, the arguments that
  are always allowed and the patterns the other arguments have to match. Patterns are expressions of \<open>GoRegexp\<close>, all
  anchored at both ends; those used more than once have a name here.
\<close>

section \<open>Patterns\<close>

definition word_re :: rx where
  "word_re = plus_of (Class (alnum_chars @ ''-_''))"

definition dotted_re :: rx where
  "dotted_re = plus_of (Class (alnum_chars @ ''-._''))"

definition number_re :: rx where
  "number_re = plus_of (Class digit_chars)"

definition pool_re :: rx where
  "pool_re = seqs [Class letter_chars, Upto 254 (Class (alnum_chars @ ''-.:_''))]"

definition dataset_re :: rx where
  "dataset_re = seqs [pool_re, Star (seqs [lit ''/'', plus_of (Class (alnum_chars @ ''-.:_''))])]"

definition snapshot_re :: rx where
  "snapshot_re = seqs [dataset_re, lit ''@'', plus_of (Class (alnum_chars @ ''-.:_''))]"

definition tree_re :: rx where
  "tree_re = seqs [plus_of (Class (alnum_chars @ ''-_'')), opt (seqs [lit ''/'', plus_of (Class (alnum_chars @ ''-/_''))])]"

definition kept_copy_re :: rx where
  "kept_copy_re =
     seqs [pool_re, lit ''/dplane-split-'', between 8 8 (Class digit_chars), lit ''-'', between 6 6 (Class digit_chars), lit
       ''-from-'', between 1 32 (Class (lower_chars @ digit_chars @ ''-''))]"

definition reserve_re :: rx where
  "reserve_re = seqs [pool_re, lit ''/dplane-reserved'']"

definition mounted_re :: rx where
  "mounted_re = seqs [Class letter_chars, Upto 254 (Class (alnum_chars @ ''-./:_''))]"

definition child_re :: rx where
  "child_re = seqs [plus_of (Class (alnum_chars @ ''-_'')), lit ''/'', plus_of (Class (alnum_chars @ ''-/_''))]"

definition path_word_re :: rx where
  "path_word_re = plus_of (Class (alnum_chars @ ''-/_''))"

definition sent_snapshot_re :: rx where
  "sent_snapshot_re = seqs [tree_re, lit ''@'', word_re]"

definition repl_snapshot_re :: rx where
  "repl_snapshot_re = seqs [pool_re, lit ''@dplane-'', plus_of (Class digit_chars), lit ''-'', plus_of (Class digit_chars)]"

definition iface_re :: rx where
  "iface_re = alts [lit ''dev'', plus_of (Class alnum_chars)]"

definition account_re :: rx where
  "account_re = plus_of (Class (alnum_chars @ ''-.'' @ [CHR 0x5C] @ ''_''))"

definition base_path_re :: rx where
  "base_path_re =
     seqs [lit ''/'', alts [lit ''mnt'', lit ''home'', lit ''tmp'', lit ''var/lib/dplaneos'', lit ''tank'', lit ''data'', lit
       ''opt'', lit ''srv''], opt (seqs [lit ''/'', Star (NotClass [CHR 0x0A])])]"

definition plain_device_re :: rx where
  "plain_device_re = seqs [lit ''/dev/'', plus_of (Class (lower_chars @ digit_chars))]"

definition host_re :: rx where
  "host_re = plus_of (Class (alnum_chars @ ''-.''))"

definition nfs_path_re :: rx where
  "nfs_path_re =
     seqs [lit ''/'', alts [lit ''mnt'', lit ''tank'', lit ''data'', lit ''home'', lit ''srv'', lit ''opt''], plus_of (seqs
       [lit ''/'', plus_of (Class (alnum_chars @ ''-._''))])]"

definition property_re :: rx where
  "property_re = seqs [Class lower_chars, Upto 127 (Class (lower_chars @ digit_chars @ ''-.:_''))]"

definition name_re :: rx where
  "name_re = plus_of (Class (alnum_chars @ ''-./:@_''))"

definition flushed_device_re :: rx where
  "flushed_device_re =
     seqs [lit ''/dev/'', alts [seqs [lit ''sd'', plus_of (Class lower_chars)], seqs [lit ''vd'', plus_of (Class lower_chars)],
       seqs [lit ''nvme'', plus_of (Class digit_chars), lit ''n'', plus_of (Class digit_chars)], seqs [lit ''dm-'', plus_of
       (Class digit_chars)], seqs [lit ''xvd'', plus_of (Class lower_chars)]], opt (seqs [opt (lit ''p''), plus_of (Class
       digit_chars)])]"

definition whole_device_re :: rx where
  "whole_device_re =
     seqs [lit ''/dev/'', alts [seqs [lit ''sd'', plus_of (Class lower_chars)], seqs [lit ''vd'', plus_of (Class lower_chars)],
       seqs [lit ''xvd'', plus_of (Class lower_chars)], seqs [lit ''nvme'', plus_of (Class digit_chars), lit ''n'', plus_of
       (Class digit_chars)], seqs [lit ''dm-'', plus_of (Class digit_chars)]]]"

definition kept_part_re :: rx where
  "kept_part_re = seqs [kept_copy_re, Star (seqs [lit ''/'', plus_of (Class (alnum_chars @ ''-.:_''))])]"

definition split_snapshot_re :: rx where
  "split_snapshot_re =
     seqs [pool_re, lit ''@split-'', between 8 8 (Class digit_chars), lit ''-'', between 6 6 (Class digit_chars)]"

definition acl_entry_re :: rx where
  "acl_entry_re =
     plus_of (alts [seqs [opt (seqs [alts [lit ''d'', lit ''default''], lit '':'']), Class ''ugom'', opt (seqs [lit '':'', Star
       (Class (alnum_chars @ ''_.-''))]), lit '':'', Upto 3 (Class ''rwx-'')], seqs [lit ''#'', Star (NotClass [CHR 0x0A])],
       opt (lit '','')])"

definition ace_re :: rx where
  "ace_re =
     plus_of (seqs [Class ''ADLU'', lit '':'', Star (Class ''FGSdfginp''), lit '':'', between 1 64 (NotClass '',:''), lit
       '':'', Star (Class ''CDNTacdnortwxy''), opt (lit '','')])"

definition qdevice_arg_re :: rx where
  "qdevice_arg_re =
     alts [seqs [lit ''/var/lib/dplaneos/corosync/'', plus_of (Class (alnum_chars @ ''-./_''))], seqs [Class alnum_chars, Upto
       31 (Class (alnum_chars @ ''-_''))]]"

definition principal_re :: rx where
  "principal_re =
     seqs [plus_of (Class (alnum_chars @ ''-./_'')), lit ''@'', plus_of (Class (upper_chars @ digit_chars @ ''-._''))]"

definition assignment_re :: rx where
  "assignment_re =
     seqs [plus_of (Class (lower_chars @ digit_chars @ '':_'')), lit ''='', plus_of (Class (alnum_chars @ ''-./:_''))]"

text \<open>The named expressions of the package.\<close>

definition validDatasetRe :: rx where
  "validDatasetRe = plus_of (Class (alnum_chars @ ''_-./:''))"

definition validSnapshotRe :: rx where
  "validSnapshotRe =
     seqs [Class alnum_chars, Star (Class (alnum_chars @ ''_-./:'')), lit ''@'', plus_of (Class (alnum_chars @ ''_-.:''))]"

definition disk_letters_re :: rx where
  "disk_letters_re = seqs [alts [lit ''sd'', lit ''vd'', lit ''xvd''], between 1 3 (Class lower_chars), Star (Class digit_chars)]"

definition nvme_re :: rx where
  "nvme_re =
     seqs [lit ''nvme'', plus_of (Class digit_chars), lit ''n'', plus_of (Class digit_chars),
           opt (seqs [lit ''p'', plus_of (Class digit_chars)])]"

definition mapper_re :: rx where
  "mapper_re = seqs [lit ''mapper/'', Class alnum_chars, Star (Class (alnum_chars @ ''_.-''))]"

definition disk_link_re :: rx where
  "disk_link_re =
     seqs [lit ''disk/by-'', alts [lit ''id'', lit ''path'', lit ''uuid'', lit ''partuuid''], lit ''/'', Class alnum_chars,
           Star (Class (alnum_chars @ ''_.:+-''))]"

definition validDevicePath :: rx where
  "validDevicePath =
     seqs [lit ''/dev/'', alts [disk_letters_re, nvme_re, seqs [lit ''sr'', plus_of (Class digit_chars)], mapper_re, disk_link_re]]"

definition RsyncSSH :: string where
  "RsyncSSH = ''ssh -o BatchMode=yes -o StrictHostKeyChecking=accept-new''"

section \<open>The table\<close>

record command =
  cmPath :: string
  cmAllowed :: "string list"
  cmPatterns :: "rx list"

definition entry :: "string \<Rightarrow> string \<Rightarrow> string list \<Rightarrow> rx list \<Rightarrow> string \<times> command" where
  "entry key path allowed patterns = (key, \<lparr>cmPath = path, cmAllowed = allowed, cmPatterns = patterns\<rparr>)"

definition monitor_commands :: "(string \<times> command) list" where
  "monitor_commands =
     [entry ''zfs_list'' ''zfs'' [''list'', ''-H'', ''-o'', ''name,used,avail,refer,mountpoint'', ''-t'', ''filesystem''] [],
      entry ''zfs_list_names'' ''zfs'' [''list'', ''-H'', ''-o'', ''name''] [],
      entry ''zfs_get'' ''zfs'' [''get'', ''-H'', ''-o'', ''value''] [property_re, name_re],
      entry ''blockdev_flushbufs'' ''blockdev'' [''--flushbufs''] [flushed_device_re],
      entry ''blockdev_rereadpt'' ''blockdev'' [''--rereadpt''] [whole_device_re],
      entry ''udevadm_settle'' ''udevadm'' [''settle'', ''--timeout=15''] [],
      entry ''zpool_list_names'' ''zpool'' [''list'', ''-H'', ''-o'', ''name''] [],
      entry ''modprobe_softdog'' ''modprobe'' [''softdog''] [],
      entry ''group_address'' ''ip'' [] [],
      entry ''group_arping'' ''arping'' [] [],
      entry ''zpool_set_cachefile_none'' ''zpool'' [''set'', ''cachefile=none''] [pool_re],
      entry ''zpool_get_multihost'' ''zpool'' [''get'', ''-H'', ''-o'', ''value'', ''multihost''] [pool_re],
      entry ''systemctl_fenced_active'' ''systemctl'' [''is-active'', ''dplane-fenced''] [],
      entry ''systemctl_firewall_active'' ''systemctl'' [''is-active'', ''--quiet'', ''firewall.service''] [],
      entry ''systemctl_reload_nginx'' ''systemctl'' [''reload'', ''nginx.service''] [],
      entry ''zfs_repl_snapshot'' ''zfs'' [''snapshot'', ''-r''] [repl_snapshot_re],
      entry ''zfs_repl_destroy_snapshot'' ''zfs'' [''destroy'', ''-r''] [repl_snapshot_re],
      entry ''cap_zpool_list'' ''zpool'' [''list'', ''-Hp'', ''-o'', ''name,size,alloc,free,capacity''] [],
      entry ''cap_zpool_list_capacity'' ''zpool'' [''list'', ''-Hp'', ''-o'', ''name,capacity''] [],
      entry ''cap_zpool_size'' ''zpool'' [''list'', ''-Hp'', ''-o'', ''size''] [pool_re],
      entry ''cap_zfs_get_reservation'' ''zfs'' [''get'', ''-Hp'', ''-o'', ''value'', ''reservation''] [reserve_re]]"

definition replica_commands :: "(string \<times> command) list" where
  "replica_commands =
     [entry ''cap_zfs_list_reserve'' ''zfs'' [''list'', ''-H''] [reserve_re],
      entry ''cap_zfs_create_reserve'' ''zfs'' [''create''] [reserve_re],
      entry ''cap_zfs_set_reservation'' ''zfs'' [''set''] [seqs [lit ''reservation='', alts [plus_of (Class digit_chars), lit
        ''none'']], reserve_re],
      entry ''cap_zfs_destroy_reserve'' ''zfs'' [''destroy''] [reserve_re],
      entry ''zpool_status_one'' ''zpool'' [''status''] [pool_re],
      entry ''sched_zfs_list_snapshots'' ''zfs'' [''list'', ''-t'', ''snapshot'', ''-H'', ''-p'', ''-o'', ''name'',
        ''name,guid'', ''-s'', ''creation'', ''-r'', ''-d'', ''1''] [dataset_re],
      entry ''sched_zfs_snapshot_exists'' ''zfs'' [''list'', ''-t'', ''snapshot'', ''-H'', ''-o'', ''name''] [snapshot_re],
      entry ''repl_zfs_get_encryption'' ''zfs'' [''get'', ''-H'', ''-o'', ''value'', ''encryption''] [dataset_re],
      entry ''ret_zfs_list_snapshots'' ''zfs'' [''list'', ''-H'', ''-p'', ''-t'', ''snapshot'', ''-o'', ''name,creation'',
        ''-r'', ''-s'', ''creation''] [dataset_re],
      entry ''ret_zfs_destroy_snapshot'' ''zfs'' [''destroy''] [snapshot_re],
      entry ''prom_zfs_list'' ''zfs'' [''list'', ''-Hp'', ''-o'', ''name,used,avail,quota'', ''-t'', ''filesystem,volume'']
        [],
      entry ''zfs_split_snapshot'' ''zfs'' [''snapshot'', ''-r''] [split_snapshot_re],
      entry ''zfs_split_changed'' ''zfs'' [''list'', ''-H'', ''-p'', ''-o''] [seqs [lit ''name,written@dplane-'', plus_of
        (Class digit_chars), lit ''-'', plus_of (Class digit_chars)], lit ''-r'', pool_re],
      entry ''zfs_split_create'' ''zfs'' [''create'', ''-p''] [kept_part_re],
      entry ''zfs_split_list'' ''zfs'' [''list'', ''-H'', ''-p'', ''-o'', ''name,used,creation'', ''-d'', ''1''] [pool_re],
      entry ''zfs_split_destroy'' ''zfs'' [''destroy'', ''-r''] [kept_copy_re],
      entry ''zfs_repl_list_snapshots'' ''zfs'' [''list'', ''-H'', ''-t'', ''snapshot'', ''-o'', ''name'', ''-s'',
        ''createtxg'', ''-d'', ''1''] [pool_re],
      entry ''zfs_repl_list_datasets'' ''zfs'' [''list'', ''-H'', ''-o'', ''name'', ''-r''] [pool_re],
      entry ''zfs_repl_written'' ''zfs'' [''get'', ''-r'', ''-H'', ''-p'', ''-o'', ''value''] [seqs [lit ''written@dplane-'',
        plus_of (Class digit_chars), lit ''-'', plus_of (Class digit_chars)], pool_re],
      entry ''zfs_repl_remount'' ''zfs'' [''mount'', ''-o''] [seqs [lit ''remount,'', alts [lit ''rw'', lit ''ro'']],
        mounted_re]]"

definition pool_commands :: "(string \<times> command) list" where
  "pool_commands =
     [entry ''zfs_repl_unmount'' ''zfs'' [''unmount''] [mounted_re],
      entry ''zfs_repl_mount'' ''zfs'' [''mount''] [mounted_re],
      entry ''zfs_repl_readonly'' ''zfs'' [] [lit ''set'', seqs [lit ''readonly='', alts [lit ''on'', lit ''off'']], pool_re],
      entry ''docker_compose'' ''docker'' [] [],
      entry ''docker_cli'' ''docker'' [] [],
      entry ''zpool_list_guid'' ''zpool'' [''list'', ''-H'', ''-o'', ''name,guid''] [],
      entry ''zpool_list'' ''zpool'' [''list'', ''-H'', ''-o'', ''name,size,alloc,free,cap,health''] [],
      entry ''zpool_status'' ''zpool'' [''status'', ''-P'', ''-x''] [word_re],
      entry ''zpool_clear'' ''zpool'' [''clear''] [word_re],
      entry ''zpool_online'' ''zpool'' [''online''] [word_re, validDevicePath],
      entry ''zfs_create_opts'' ''zfs'' [''create''] [],
      entry ''zfs_create'' ''zfs'' [''create''] [child_re],
      entry ''zfs_destroy'' ''zfs'' [''destroy'', ''-r''] [child_re],
      entry ''zfs_snapshot'' ''zfs'' [''snapshot''] [validSnapshotRe],
      entry ''zfs_destroy_snapshot'' ''zfs'' [''destroy''] [validSnapshotRe],
      entry ''zfs_clone'' ''zfs'' [''clone''] [validSnapshotRe, child_re],
      entry ''zfs_list_snapshots'' ''zfs'' [''list'', ''-t'', ''snapshot'', ''-r''] [tree_re],
      entry ''zpool_create'' ''zpool'' [''create''] [],
      entry ''zpool_destroy'' ''zpool'' [''destroy''] [word_re],
      entry ''zpool_scrub'' ''zpool'' [''scrub''] [word_re]]"

definition device_commands :: "(string \<times> command) list" where
  "device_commands =
     [entry ''zpool_add_cache'' ''zpool'' [''add''] [word_re, lit ''cache'', path_word_re],
      entry ''zpool_add_log'' ''zpool'' [''add''] [word_re, alts [lit ''log'', lit ''mirror''], path_word_re],
      entry ''zpool_remove_device'' ''zpool'' [''remove''] [word_re, path_word_re],
      entry ''zpool_replace'' ''zpool'' [''replace''] [],
      entry ''zpool_attach'' ''zpool'' [''attach''] [],
      entry ''zpool_detach'' ''zpool'' [''detach''] [],
      entry ''zpool_add_special'' ''zpool'' [''add''] [],
      entry ''zpool_import_scan'' ''zpool'' [''import'', ''-d'', ''/dev/disk/by-id''] [],
      entry ''zpool_import'' ''zpool'' [''import''] [],
      entry ''zpool_import_all'' ''zpool'' [''import'', ''-a'', ''-f'', ''-d'', ''/dev/disk/by-id''] [],
      entry ''zfs_set_property'' ''zfs'' [''set''] [assignment_re, validDatasetRe],
      entry ''zfs_rename'' ''zfs'' [''rename''] [],
      entry ''zpool_offline'' ''zpool'' [''offline''] [],
      entry ''zfs_promote'' ''zfs'' [''promote''] [],
      entry ''zpool_export'' ''zpool'' [''export''] [],
      entry ''zfs_hold'' ''zfs'' [''hold''] [dotted_re, validSnapshotRe],
      entry ''zfs_release'' ''zfs'' [''release''] [dotted_re, validSnapshotRe],
      entry ''zfs_holds'' ''zfs'' [''holds'', ''-H''] [validDatasetRe],
      entry ''zpool_split'' ''zpool'' [''split''] [word_re, word_re]]"

definition link_commands :: "(string \<times> command) list" where
  "link_commands =
     [entry ''zpool_add'' ''zpool'' [''add''] [],
      entry ''zpool_set_property'' ''zpool'' [''set''] [],
      entry ''ip_addr_show'' ''ip'' [''addr'', ''show''] [plus_of (Class alnum_chars)],
      entry ''ip_link_up'' ''ip'' [''link'', ''set'', ''up''] [iface_re],
      entry ''ip_link_down'' ''ip'' [''link'', ''set'', ''down''] [iface_re],
      entry ''ip_route_show'' ''ip'' [''route'', ''show''] [],
      entry ''ip_route_modify'' ''ip'' [] [],
      entry ''network_apply'' ''netplan'' [''apply''] [],
      entry ''zfs_send'' ''zfs'' [''send'', ''-R''] [sent_snapshot_re],
      entry ''zfs_send_incremental'' ''zfs'' [''send'', ''-R'', ''-i''] [sent_snapshot_re, sent_snapshot_re],
      entry ''zfs_receive'' ''zfs'' [''receive'', ''-F''] [tree_re],
      entry ''systemctl_ha_smbd'' ''systemctl'' [''reload-or-restart'', ''samba-smbd''] [],
      entry ''systemctl_restart_winbindd'' ''systemctl'' [''restart'', ''samba-winbindd.service''] [],
      entry ''systemctl_ha_nmbd'' ''systemctl'' [''reload-or-restart'', ''samba-nmbd''] [],
      entry ''systemctl_ha_ctdb_enabled'' ''systemctl'' [''is-enabled'', ''ctdb''] [],
      entry ''systemctl_ha_ctdb_start'' ''systemctl'' [''start'', ''ctdb''] [],
      entry ''systemctl_ha_nfs'' ''systemctl'' [''reload-or-restart'', ''nfs-server''] [],
      entry ''systemctl_restart_docker'' ''systemctl'' [''restart'', ''docker''] [],
      entry ''testparm'' ''testparm'' [''-s''] [],
      entry ''net_ads_join'' ''net'' [''ads'', ''join''] [lit ''-U'', account_re, lit ''-W'', dotted_re, lit ''-S'',
        dotted_re],
      entry ''net_ads_info'' ''net'' [''ads'', ''info''] []]"

definition domain_commands :: "(string \<times> command) list" where
  "domain_commands =
     [entry ''wbinfo_test'' ''wbinfo'' [''-t''] [],
      entry ''wbinfo_users'' ''wbinfo'' [''-u''] [],
      entry ''wbinfo_groups'' ''wbinfo'' [''-g''] [],
      entry ''wbinfo_online'' ''wbinfo'' [''--online-status''] [],
      entry ''wbinfo_ping'' ''wbinfo'' [''-p''] [],
      entry ''timedatectl_show'' ''timedatectl'' [''show'', ''--property=NTPSynchronized''] [],
      entry ''exportfs_reload'' ''exportfs'' [''-ra''] [],
      entry ''exportfs_list'' ''exportfs'' [''-v''] [],
      entry ''mkdir'' ''mkdir'' [''-p''] [base_path_re],
      entry ''rm_recursive'' ''rm'' [''-rf''] [base_path_re],
      entry ''chown'' ''chown'' [''-R''] [seqs [plus_of (Class (lower_chars @ digit_chars @ ''-_'')), opt (seqs [lit '':'',
        plus_of (Class (lower_chars @ digit_chars @ ''-_''))])]],
      entry ''chmod'' ''chmod'' [''-R''] [between 3 4 (Class ''01234567'')],
      entry ''rsync'' ''rsync'' [''-avz'', ''--delete'', ''--progress'', ''--partial'', ''--inplace'', ''--append'',
        ''--compress'', ''-e'', RsyncSSH] [],
      entry ''lsblk_list'' ''lsblk'' [''-d'', ''-n'', ''-o'', ''NAME,TYPE''] [],
      entry ''hdparm_check'' ''hdparm'' [''-C''] [plain_device_re],
      entry ''hdparm_spindown'' ''hdparm'' [''-y''] [plain_device_re],
      entry ''docker_ps'' ''docker'' [''ps'', ''-a'', ''--format'', ''{{json .}}''] [],
      entry ''docker_inspect'' ''docker'' [''inspect''] [word_re],
      entry ''docker_start'' ''docker'' [''start''] [word_re],
      entry ''docker_stop'' ''docker'' [''stop''] [word_re]]"

definition system_commands :: "(string \<times> command) list" where
  "system_commands =
     [entry ''ip_addr'' ''ip'' [''-j'', ''addr'', ''show''] [],
      entry ''ip_route'' ''ip'' [''-j'', ''route'', ''show''] [],
      entry ''upsc_list'' ''upsc'' [''-l''] [],
      entry ''upsc_query'' ''upsc'' [] [dotted_re],
      entry ''systemctl_status'' ''systemctl'' [''status'', ''--no-pager''] [dotted_re],
      entry ''journalctl'' ''journalctl'' [''-n'', ''--no-pager'', ''-o'', ''json''] [number_re],
      entry ''systemctl_daemon_reload'' ''systemctl'' [''daemon-reload''] [],
      entry ''getfacl'' ''getfacl'' [''-p''] [],
      entry ''setfacl'' ''setfacl'' [''-m'', ''-x'', ''-R'', ''--set''] [acl_entry_re],
      entry ''getent'' ''getent'' [] [alts [lit ''passwd'', lit ''group''], dotted_re],
      entry ''ping'' ''ping'' [''-c''] [number_re, host_re],
      entry ''dig'' ''dig'' [''+short'', ''-x''] [plus_of (Class (alnum_chars @ ''-.:''))],
      entry ''traceroute'' ''traceroute'' [''-m'', ''20'', ''-w'', ''2''] [host_re],
      entry ''chronyc_tracking'' ''chronyc'' [''tracking''] [],
      entry ''smartctl_test'' ''smartctl'' [''-t''] [alts [lit ''short'', lit ''long'', lit ''conveyance'', lit ''offline''],
        validDevicePath],
      entry ''apt_update'' ''apt-get'' [''update'', ''-qq''] [],
      entry ''apt_list'' ''apt'' [''list'', ''--upgradable''] [],
      entry ''apt_upgrade'' ''apt-get'' [''upgrade'', ''-y'', ''-q''] [],
      entry ''unattended_upgrades'' ''unattended-upgrades'' [''--minimal-upgrade-steps'', ''-v''] [],
      entry ''apt_security_upgrade'' ''apt-get'' [''upgrade'', ''-y'', ''-q'', ''--only-upgrade''] [plus_of (Class
        (alnum_chars @ ''+-._''))]]"

definition cluster_commands :: "(string \<times> command) list" where
  "cluster_commands =
     [entry ''ufw'' ''ufw'' [] [],
      entry ''nginx'' ''nginx'' [] [alts [lit ''-t'', lit ''-s'', lit ''reload''], opt (lit ''reload'')],
      entry ''openssl'' ''openssl'' [] [alts [lit ''req'', lit ''x509'', lit ''genrsa''], Star (NotClass [])],
      entry ''stat'' ''stat'' [''-c''] [plus_of (NotClass '';'')],
      entry ''hdparm_status'' ''hdparm'' [''-C'', ''-B'', ''-S'', ''-y''] [seqs [lit ''/dev/sd'', plus_of (Class
        lower_chars)], number_re],
      entry ''lsblk_power'' ''lsblk'' [''-dpno'', ''NAME,SIZE,MODEL,ROTA,TRAN,STATE''] [],
      entry ''wipefs'' ''wipefs'' [''-a''] [],
      entry ''zpool_labelclear'' ''zpool'' [''labelclear'', ''-f''] [],
      entry ''systemctl_reboot'' ''systemctl'' [''reboot''] [],
      entry ''systemctl_poweroff'' ''systemctl'' [''poweroff''] [],
      entry ''systemctl_cluster'' ''systemctl'' [] [alts [lit ''start'', lit ''stop'', lit ''restart'', lit ''is-active''],
        seqs [lit ''dplaneos-'', alts [lit ''corosync'', lit ''qdevice'', lit ''qnetd'']]],
      entry ''corosync_quorumtool'' ''corosync-quorumtool'' [''-s''] [],
      entry ''corosync_cfgtool_reload'' ''corosync-cfgtool'' [''-R''] [],
      entry ''qdevice_certutil'' ''corosync-qdevice-net-certutil'' [''-i'', ''-r'', ''-M'', ''-m'', ''-c'', ''-n'']
        [qdevice_arg_re],
      entry ''qnetd_certutil'' ''corosync-qnetd-certutil'' [''-i'', ''-s'', ''-c'', ''-n''] [seqs [lit
        ''/var/lib/dplaneos/corosync/'', plus_of (Class (alnum_chars @ ''-./_''))], seqs [Class alnum_chars, Upto 31 (Class
        (alnum_chars @ ''-_''))]],
      entry ''ipmitool_power_off'' ''ipmitool'' [] [],
      entry ''ipmitool_power_status'' ''ipmitool'' [] [],
      entry ''nixos_rebuild'' ''nixos-rebuild'' [''switch''] [],
      entry ''nft_list_json'' ''nft'' [''-j'', ''list'', ''ruleset''] [],
      entry ''nfs4_getfacl'' ''nfs4_getfacl'' [] [nfs_path_re]]"

definition kerberos_commands :: "(string \<times> command) list" where
  "kerberos_commands =
     [entry ''nfs4_setfacl'' ''nfs4_setfacl'' [''-s''] [ace_re, nfs_path_re],
      entry ''sg_ses_status'' ''sg_ses'' [''--page=es''] [seqs [lit ''/dev/sg'', plus_of (Class digit_chars)]],
      entry ''net_ads_leave'' ''net'' [''ads'', ''leave''] [lit ''-U'', account_re],
      entry ''net_ads_testjoin'' ''net'' [''ads'', ''testjoin''] [],
      entry ''kinit_keytab'' ''kinit'' [''-k'', ''-t''] [lit ''/etc/krb5.keytab'', principal_re],
      entry ''kinit_renew'' ''kinit'' [''-R''] [],
      entry ''klist_check'' ''klist'' [''-s''] []]"

definition CommandTable :: "(string \<times> command) list" where
  "CommandTable =
     monitor_commands @ replica_commands @ pool_commands @
     device_commands @ link_commands @ domain_commands @
     system_commands @ cluster_commands @ kerberos_commands"

definition CommandWhitelist :: "string \<Rightarrow> command option" where
  "CommandWhitelist = map_of CommandTable"

end
