(* ===== verification/WhitelistCheck.thy ===== *)
theory WhitelistCheck
  imports GitPools Whitelist
begin

text \<open>
  The checks of \<open>security/whitelist.go\<close>, \<open>docker.go\<close> and \<open>group_address.go\<close>: names and paths, the validators of
  single commands, and \<open>ValidateCommand\<close>, which every command of the daemon passes. A validator is a predicate on the
  arguments; it holds where the code returns no error.
\<close>

section \<open>Paths\<close>

text \<open>
  \<open>path.Clean\<close> (and \<open>filepath.Clean\<close>, which is the same on Linux): empty and \<open>.\<close> components go, \<open>..\<close> takes the
  component before it away.
\<close>

fun clean_parts :: "bool \<Rightarrow> string list \<Rightarrow> string list \<Rightarrow> string list" where
  "clean_parts rooted out [] = rev out"
| "clean_parts rooted out (p # ps) =
     (if p = [] \<or> p = ''.'' then clean_parts rooted out ps
      else if p \<noteq> ''..'' then clean_parts rooted (p # out) ps
      else (case out of
              [] \<Rightarrow> clean_parts rooted (if rooted then [] else [''..'']) ps
            | q # qs \<Rightarrow> clean_parts rooted (if q = ''..'' then ''..'' # out else qs) ps))"

definition Clean :: "string \<Rightarrow> string" where
  "Clean p =
     (let rooted = has_prefix p ''/'';
          body = join_with ''/'' (clean_parts rooted [] (split_at CHR ''/'' p)) in
      if rooted then ''/'' @ body else if body = [] then ''.'' else body)"

definition SystemDirs :: "string list" where
  "SystemDirs =
     [''bin'', ''boot'', ''dev'', ''etc'', ''home'', ''lib'', ''lib64'', ''nix'', ''opt'', ''proc'', ''root'', ''run'',
      ''sbin'', ''sys'', ''tmp'', ''usr'', ''var'']"

definition line_breaks :: string where
  "line_breaks = [CHR 0x00, CHR 0x0A, CHR 0x0D]"

definition IsDataPath :: "string \<Rightarrow> bool" where
  "IsDataPath p \<longleftrightarrow>
     2 \<le> length p \<and> p ! 0 = CHR ''/'' \<and> \<not> contains_any p line_breaks \<and> Clean p = p \<and>
     (let top = hd (split_at CHR ''/'' (drop 1 p)) in top \<noteq> [] \<and> top \<noteq> ''..'' \<and> top \<notin> set SystemDirs)"

definition AllowedBasePaths :: "string list" where
  "AllowedBasePaths = [''/mnt'', ''/home'', ''/tmp'', ''/var/lib/dplaneos'', ''/tank'', ''/data'', ''/opt'', ''/srv'']"

definition drive_letter :: "string \<Rightarrow> bool" where
  "drive_letter p \<longleftrightarrow> (case p of c # d # e # _ \<Rightarrow> is_alpha c \<and> d = CHR '':'' \<and> e = CHR ''/'' | _ \<Rightarrow> False)"

definition IsValidPath :: "string \<Rightarrow> bool" where
  "IsValidPath p \<longleftrightarrow>
     p \<noteq> [] \<and> \<not> contains_any p line_breaks \<and>
     (let c0 = Clean p;
          c = (if \<not> has_prefix c0 ''/'' \<and> \<not> drive_letter c0 then ''/'' @ c0 else c0) in
      \<not> (has_prefix c ''..'' \<or> contains_text c ''/../'') \<and> \<not> (contains_text p ''..'' \<or> contains_text p ''./'') \<and>
      list_ex (\<lambda>base. has_prefix c (base @ ''/'') \<or> c = base) AllowedBasePaths)"

definition IsSafeFilename :: "string \<Rightarrow> bool" where
  "IsSafeFilename f \<longleftrightarrow>
     f \<noteq> [] \<and> CHR 0x00 \<notin> set f \<and> \<not> contains_text f ''..'' \<and> CHR ''/'' \<notin> set f \<and> CHR 0x5C \<notin> set f"

definition validMountPoint :: rx where
  "validMountPoint =
     seqs [lit ''/'', alts [lit ''mnt'', lit ''media''], lit ''/'', plus_of (Class (alnum_chars @ ''_-.'')),
           Star (seqs [lit ''/'', plus_of (Class (alnum_chars @ ''_-.''))])]"

definition ValidateMountPoint :: "string \<Rightarrow> bool" where
  "ValidateMountPoint p \<longleftrightarrow> MatchString validMountPoint p"

definition ValidateAbsolutePath :: "string \<Rightarrow> bool" where
  "ValidateAbsolutePath p \<longleftrightarrow>
     has_prefix p ''/'' \<and> \<not> contains_text p ''..'' \<and> MatchString (seqs [lit ''/'', plus_of (Class (alnum_chars @ ''_-./''))]) p"

section \<open>Names\<close>

definition ValidateSnapshotName :: "string \<Rightarrow> bool" where
  "ValidateSnapshotName n \<longleftrightarrow>
     (case cut_at CHR ''@'' n of
        None \<Rightarrow> False
      | Some (ds, snap) \<Rightarrow> ValidateDatasetName ds \<and> MatchString (plus_of (Class (alnum_chars @ ''_-.''))) snap)"

definition ValidatePoolGUID :: "string \<Rightarrow> bool" where
  "ValidatePoolGUID g \<longleftrightarrow> MatchString (between 1 20 (Class digit_chars)) g"

definition validHostnameLabel :: rx where
  "validHostnameLabel =
     seqs [Class alnum_chars, opt (seqs [Upto 61 (Class (alnum_chars @ ''-'')), Class alnum_chars])]"

definition ValidateHostname :: "string \<Rightarrow> bool" where
  "ValidateHostname h \<longleftrightarrow>
     h \<noteq> [] \<and> length h \<le> 253 \<and>
     (parse_ip h \<noteq> None \<or> list_all (MatchString validHostnameLabel) (split_at CHR ''.'' h))"

definition ValidateUnixUsername :: "string \<Rightarrow> bool" where
  "ValidateUnixUsername u \<longleftrightarrow>
     MatchString (seqs [Class (lower_chars @ ''_''), Upto 30 (Class (lower_chars @ digit_chars @ ''_-''))]) u"

definition IsValidSessionToken :: "string \<Rightarrow> bool" where
  "IsValidSessionToken t \<longleftrightarrow> 20 \<le> length t \<and> length t \<le> 100 \<and> MatchString (plus_of (Class alnum_chars)) t"

text \<open>\<open>SanitizeOutput\<close>: the text after \<open>key\<close> up to the next space is replaced.\<close>

function masked :: "string \<Rightarrow> string \<Rightarrow> string" where
  "masked key [] = []"
| "masked key (c # s) =
     (let rest = drop (length key) (c # s); secret = takeWhile (\<lambda>x. x \<notin> set space_chars) rest in
      if key \<noteq> [] \<and> has_prefix (c # s) key \<and> secret \<noteq> []
      then key @ ''***'' @ masked key (drop (length secret) rest)
      else c # masked key s)"
  by pat_completeness auto

termination
  by (relation "measure (length \<circ> snd)") auto

definition SanitizeOutput :: "string \<Rightarrow> string" where
  "SanitizeOutput out = masked ''key='' (masked ''token='' (masked ''password='' out))"

section \<open>Pools\<close>

definition loop_or_link :: "string \<Rightarrow> bool" where
  "loop_or_link d \<longleftrightarrow> has_prefix d ''/dev/loop'' \<or> has_prefix d ''/dev/disk/by-id/''"

definition create_pool_opts :: "string list" where
  "create_pool_opts =
     [''ashift'', ''autoreplace'', ''autoexpand'', ''autotrim'', ''failmode'', ''listsnapshots'', ''readonly'', ''comment'',
      ''dedupditto'']"

definition create_dataset_opts :: "string list" where
  "create_dataset_opts =
     [''compression'', ''quota'', ''refquota'', ''mountpoint'', ''atime'', ''dedup'', ''recordsize'', ''sync'', ''copies'',
      ''encryption'', ''keylocation'', ''keyformat'', ''readonly'', ''xattr'', ''secondarycache'']"

definition create_vdev_types :: "string list" where
  "create_vdev_types =
     [''mirror'', ''raidz'', ''raidz1'', ''raidz2'', ''raidz3'', ''draid'', ''cache'', ''log'', ''special'', ''spare'', ''dedup'']"

definition create_value_re :: rx where
  "create_value_re = plus_of (Class (alnum_chars @ ''_-.:/=''))"

text \<open>\<open>key=value\<close> with a key of the list and a value of the expression\<close>

definition assigns :: "string list \<Rightarrow> rx \<Rightarrow> string \<Rightarrow> bool" where
  "assigns keys re kv \<longleftrightarrow>
     (case cut_at CHR ''='' kv of None \<Rightarrow> False | Some (k, v) \<Rightarrow> k \<in> set keys \<and> MatchString re v)"

text \<open>The loop over the flags: what follows them, nothing where a flag is refused.\<close>

fun create_flags :: "string list \<Rightarrow> string list option" where
  "create_flags [] = Some []"
| "create_flags (a # as) =
     (if a = ''-f'' then create_flags as
      else if a = ''-o'' then
        (case as of [] \<Rightarrow> None | kv # rest \<Rightarrow> if assigns create_pool_opts create_value_re kv then create_flags rest else None)
      else if a = ''-O'' then
        (case as of [] \<Rightarrow> None | kv # rest \<Rightarrow> if assigns create_dataset_opts create_value_re kv then create_flags rest else None)
      else Some (a # as))"

definition create_token :: "string \<Rightarrow> bool" where
  "create_token a \<longleftrightarrow>
     a \<in> set create_vdev_types \<or> has_prefix a ''draid'' \<or> ValidateDevicePath a \<or> loop_or_link a"

definition validateZpoolCreate :: "string list \<Rightarrow> bool" where
  "validateZpoolCreate args \<longleftrightarrow>
     3 \<le> length args \<and> args ! 0 = ''create'' \<and>
     (case create_flags (drop 1 args) of
        None \<Rightarrow> False
      | Some [] \<Rightarrow> False
      | Some (pool # vdevs) \<Rightarrow> ValidatePoolName pool \<and> list_all create_token vdevs)"

definition settable_pool_props :: "string list" where
  "settable_pool_props =
     [''ashift'', ''autoreplace'', ''autoexpand'', ''autotrim'', ''failmode'', ''listsnapshots'', ''comment'', ''dedupditto'',
      ''version'']"

definition validateZpoolSetProperty :: "string list \<Rightarrow> bool" where
  "validateZpoolSetProperty args \<longleftrightarrow>
     length args = 3 \<and> args ! 0 = ''set'' \<and>
     assigns settable_pool_props (plus_of (Class (alnum_chars @ ''_-.''))) (args ! 1) \<and> ValidatePoolName (args ! 2)"

definition validateZpoolReplace :: "string list \<Rightarrow> bool" where
  "validateZpoolReplace args \<longleftrightarrow>
     4 \<le> length args \<and> args ! 0 = ''replace'' \<and>
     (let i = (if args ! 1 = ''-f'' then 2 else 1) in
      i + 3 \<le> length args \<and> ValidatePoolName (args ! i) \<and> ValidateDevicePath (args ! (i + 1)) \<and>
      ValidateDevicePath (args ! (i + 2)))"

definition validateZpoolAttach :: "string list \<Rightarrow> bool" where
  "validateZpoolAttach args \<longleftrightarrow>
     length args = 4 \<and> args ! 0 = ''attach'' \<and> ValidatePoolName (args ! 1) \<and> ValidateDevicePath (args ! 2) \<and>
     ValidateDevicePath (args ! 3)"

definition validateZpoolDetach :: "string list \<Rightarrow> bool" where
  "validateZpoolDetach args \<longleftrightarrow>
     length args = 3 \<and> args ! 0 = ''detach'' \<and> ValidatePoolName (args ! 1) \<and> ValidateDevicePath (args ! 2)"

definition validateZpoolAddSpecial :: "string list \<Rightarrow> bool" where
  "validateZpoolAddSpecial args \<longleftrightarrow>
     4 \<le> length args \<and> args ! 0 = ''add'' \<and> args ! 2 = ''special'' \<and> ValidatePoolName (args ! 1) \<and>
     (let disks = drop (if args ! 3 = ''mirror'' then 4 else 3) args in disks \<noteq> [] \<and> list_all ValidateDevicePath disks)"

definition validateZpoolOffline :: "string list \<Rightarrow> bool" where
  "validateZpoolOffline args \<longleftrightarrow>
     3 \<le> length args \<and> args ! 0 = ''offline'' \<and>
     (let i = (if args ! 1 = ''-t'' then 2 else 1) in
      i + 2 \<le> length args \<and> ValidatePoolName (args ! i) \<and> ValidateDevicePath (args ! (i + 1)))"

definition validateZpoolExport :: "string list \<Rightarrow> bool" where
  "validateZpoolExport args \<longleftrightarrow>
     2 \<le> length args \<and> args ! 0 = ''export'' \<and>
     (let i = (if args ! 1 = ''-f'' then 2 else 1) in i + 1 \<le> length args \<and> ValidatePoolName (args ! i))"

text \<open>\<open>rest\<close> after the directory, the cache file option and the force flag\<close>

definition validateZpoolImport :: "string list \<Rightarrow> bool" where
  "validateZpoolImport args \<longleftrightarrow>
     4 \<le> length args \<and> args ! 0 = ''import'' \<and> args ! 1 = ''-d'' \<and> args ! 2 = ''/dev/disk/by-id'' \<and>
     (let r0 = drop 3 args;
          r1 = (if 2 \<le> length r0 \<and> r0 ! 0 = ''-o'' \<and> r0 ! 1 = ''cachefile=none'' then drop 2 r0 else r0);
          r2 = (if r1 \<noteq> [] \<and> r1 ! 0 = ''-f'' then drop 1 r1 else r1) in
      r1 \<noteq> [] \<and> 1 \<le> length r2 \<and> length r2 \<le> 2 \<and> ValidatePoolGUID (r2 ! 0) \<and>
      (length r2 = 2 \<longrightarrow> ValidatePoolName (r2 ! 1)))"

section \<open>Datasets\<close>

definition linuxACLTypes :: "string list" where
  "linuxACLTypes = [''posix'', ''posixacl'', ''off'', ''noacl'']"

definition settable_props :: "string list" where
  "settable_props =
     [''compression'', ''quota'', ''refquota'', ''refreservation'', ''reservation'', ''mountpoint'', ''atime'', ''dedup'',
      ''recordsize'', ''sync'', ''copies'', ''encryption'', ''keylocation'', ''keyformat'', ''readonly'', ''xattr'',
      ''secondarycache'', ''acltype'']"

definition quota_value_re :: rx where
  "quota_value_re = seqs [plus_of (Class digit_chars), opt (Class ''KMGTP'')]"

text \<open>The value of a property of the list\<close>

definition value_allowed :: "string \<Rightarrow> string \<Rightarrow> bool" where
  "value_allowed prop val \<longleftrightarrow>
     (if prop = ''acltype'' then val \<in> set linuxACLTypes
      else if prop = ''mountpoint'' then val = ''none'' \<or> val = ''legacy'' \<or> ValidateMountPoint val
      else if prop \<in> {''quota'', ''refquota''} then val = ''none'' \<or> MatchString quota_value_re val
      else MatchString (plus_of (Class (alnum_chars @ ''_-.:/''))) val)"

definition validateZfsSetProperty :: "string list \<Rightarrow> bool" where
  "validateZfsSetProperty args \<longleftrightarrow>
     length args = 3 \<and> args ! 0 = ''set'' \<and> ValidateDatasetName (args ! 2) \<and>
     (case cut_at CHR ''='' (args ! 1) of
        None \<Rightarrow> False
      | Some (prop, val) \<Rightarrow>
          if has_prefix prop ''userquota@'' \<or> has_prefix prop ''groupquota@'' then
            (case cut_at CHR ''@'' prop of
               None \<Rightarrow> False
             | Some (_, who) \<Rightarrow>
                 MatchString (seqs [Class (letter_chars @ ''_''), Star (Class (alnum_chars @ ''._-''))]) who \<and>
                 (val = ''none'' \<or> MatchString quota_value_re val))
          else prop \<in> set settable_props \<and> value_allowed prop val)"

text \<open>\<open>CreateTimeProps\<close> has the values of the one property that is set when a dataset is created.\<close>

definition CreateTimeProps :: "string \<Rightarrow> string list option" where
  "CreateTimeProps k = (if k = ''casesensitivity'' then Some [''sensitive'', ''insensitive'', ''mixed''] else None)"

fun create_assignments :: "string \<Rightarrow> string list \<Rightarrow> bool" where
  "create_assignments name (flag # kv # rest) \<longleftrightarrow>
     flag = ''-o'' \<and>
     (case cut_at CHR ''='' kv of
        None \<Rightarrow> False
      | Some (k, v) \<Rightarrow>
          (case CreateTimeProps k of
             Some allowed \<Rightarrow> v \<in> set allowed
           | None \<Rightarrow> validateZfsSetProperty [''set'', kv, name])) \<and>
     create_assignments name rest"
| "create_assignments name _ \<longleftrightarrow> True"

definition validateZfsCreateOpts :: "string list \<Rightarrow> bool" where
  "validateZfsCreateOpts args \<longleftrightarrow>
     4 \<le> length args \<and> args ! 0 = ''create'' \<and> even (length args) \<and>
     create_assignments (last args) (drop 1 args) \<and> CHR ''/'' \<in> set (last args) \<and> ValidateDatasetName (last args)"

definition validateZfsRename :: "string list \<Rightarrow> bool" where
  "validateZfsRename args \<longleftrightarrow>
     length args = 3 \<and> args ! 0 = ''rename'' \<and> ValidateDatasetName (args ! 1) \<and> ValidateDatasetName (args ! 2) \<and>
     hd (split_at CHR ''/'' (args ! 1)) = hd (split_at CHR ''/'' (args ! 2))"

definition validateZfsPromote :: "string list \<Rightarrow> bool" where
  "validateZfsPromote args \<longleftrightarrow> length args = 2 \<and> args ! 0 = ''promote'' \<and> ValidateDatasetName (args ! 1)"

section \<open>Firewall, routes, addresses and certificates\<close>

definition spaces_re :: rx where
  "spaces_re = plus_of (Class space_chars)"

definition force_re :: rx where
  "force_re = opt (seqs [lit ''--force'', spaces_re])"

definition proto_re :: rx where
  "proto_re = alts [lit ''tcp'', lit ''udp'']"

definition ufw_port_re :: rx where
  "ufw_port_re =
     seqs [force_re, alts [lit ''allow'', lit ''deny''], spaces_re, plus_of (Class digit_chars), opt (seqs [lit ''/'', proto_re])]"

definition ufw_from_re :: rx where
  "ufw_from_re =
     seqs [force_re, alts [lit ''allow'', lit ''deny''], spaces_re, lit ''from'', spaces_re,
           plus_of (Class (digit_chars @ ''abcdefABCDEF./:'')), spaces_re, lit ''to'', spaces_re, lit ''any'', spaces_re,
           lit ''port'', spaces_re, plus_of (Class digit_chars), opt (seqs [spaces_re, lit ''proto'', spaces_re, proto_re])]"

definition validateUfw :: "string list \<Rightarrow> bool" where
  "validateUfw args \<longleftrightarrow>
     args \<noteq> [] \<and>
     (let cmd = args ! 0; line = join_with '' '' args in
      if cmd = ''status'' then length args = 1 \<or> length args = 2 \<and> args ! 1 = ''numbered''
      else if cmd = ''allow'' \<or> cmd = ''deny'' then MatchString ufw_port_re line \<or> MatchString ufw_from_re line
      else if cmd = ''delete'' then length args = 2 \<and> \<not> snd (Atoi (args ! 1))
      else if cmd = ''enable'' \<or> cmd = ''disable'' then
        length args = 1 \<or> length args = 2 \<and> args ! 0 = ''--force'' \<and> (args ! 1 = ''enable'' \<or> args ! 1 = ''disable'')
      else False)"

definition destination_re :: rx where
  "destination_re = alts [plus_of (Class (digit_chars @ ''./'')), lit ''default'']"

definition route_add_re :: rx where
  "route_add_re =
     seqs [lit ''route'', spaces_re, lit ''add'', spaces_re, destination_re, spaces_re, lit ''via'', spaces_re,
           plus_of (Class (digit_chars @ ''.'')), spaces_re, lit ''dev'', spaces_re,
           plus_of (Class (lower_chars @ digit_chars @ ''.'')), opt (seqs [spaces_re, lit ''metric'', spaces_re, plus_of (Class digit_chars)])]"

definition route_del_re :: rx where
  "route_del_re = seqs [lit ''route'', spaces_re, lit ''del'', spaces_re, destination_re]"

definition validateIpRoute :: "string list \<Rightarrow> bool" where
  "validateIpRoute args \<longleftrightarrow>
     args \<noteq> [] \<and> args ! 0 = ''route'' \<and>
     (let line = join_with '' '' args in
      MatchString route_add_re line \<or> MatchString route_del_re line \<or>
      line = ''route show'' \<or> line = ''route show -j'' \<or> line = ''-j route show'')"

definition openssl_args :: "string list" where
  "openssl_args =
     [''req'', ''x509'', ''-x509'', ''-newkey'', ''rsa:2048'', ''-keyout'', ''-out'', ''-days'', ''-nodes'', ''-subj'', ''-noout'',
      ''-subject'', ''-enddate'', ''-issuer'', ''-in'', ''-addext'', ''v3_req'', ''extensions'']"

definition subject_re :: rx where
  "subject_re = seqs [lit ''/CN='', plus_of (Class (alnum_chars @ ''.-''))]"

definition alt_name_re :: rx where
  "alt_name_re =
     seqs [lit ''subjectAltName=DNS:'', plus_of (Class (alnum_chars @ ''.-'')),
           Star (seqs [lit '',DNS:'', plus_of (Class (alnum_chars @ ''.-''))])]"

definition path_or_file :: "string \<Rightarrow> bool" where
  "path_or_file a \<longleftrightarrow> IsValidPath a \<or> IsSafeFilename a"

fun validateOpenssl :: "string list \<Rightarrow> bool" where
  "validateOpenssl [] \<longleftrightarrow> True"
| "validateOpenssl (a # as) \<longleftrightarrow>
     (if a = ''-subj'' then (case as of [] \<Rightarrow> False | v # rest \<Rightarrow> MatchString subject_re v \<and> validateOpenssl rest)
      else if a \<in> set openssl_args then validateOpenssl as
      else if a \<in> {''-keyout'', ''-out'', ''-in''} \<and> as \<noteq> [] then
        (case as of [] \<Rightarrow> False | v # rest \<Rightarrow> path_or_file v \<and> validateOpenssl rest)
      else if \<not> has_prefix a ''-'' \<and> (path_or_file a \<or> MatchString (plus_of (Class (alnum_chars @ ''_-.*''))) a) then
        validateOpenssl as
      else
        (case as of
           [] \<Rightarrow> False
         | v # rest \<Rightarrow>
             (a = ''-days'' \<and> \<not> snd (Atoi v) \<or> a = ''-addext'' \<and> MatchString alt_name_re v) \<and> validateOpenssl rest))"

definition groupIfaceRe :: rx where
  "groupIfaceRe = between 1 15 (Class (alnum_chars @ ''_.@-''))"

definition validateGroupAddress :: "string list \<Rightarrow> bool" where
  "validateGroupAddress args \<longleftrightarrow>
     length args = 5 \<and> args ! 0 = ''addr'' \<and> (args ! 1 = ''add'' \<or> args ! 1 = ''del'') \<and> args ! 3 = ''dev'' \<and>
     parse_cidr (args ! 2) \<noteq> None \<and> MatchString groupIfaceRe (args ! 4)"

definition validateGroupArping :: "string list \<Rightarrow> bool" where
  "validateGroupArping args \<longleftrightarrow>
     length args = 6 \<and> take 4 args = [''-U'', ''-c'', ''3'', ''-I''] \<and> MatchString groupIfaceRe (args ! 4) \<and>
     (case parse_ip (args ! 5) of None \<Rightarrow> False | Some ip \<Rightarrow> is_v4 ip)"

text \<open>The fencing commands, \<open>off\<close> and \<open>status\<close>\<close>

definition validateIpmitoolPower :: "string \<Rightarrow> string list \<Rightarrow> bool" where
  "validateIpmitoolPower name args \<longleftrightarrow>
     length args = 10 \<and> args ! 0 = ''-I'' \<and> args ! 1 = ''lanplus'' \<and> args ! 2 = ''-H'' \<and>
     MatchString (plus_of (Class (alnum_chars @ ''.-:''))) (args ! 3) \<and> args ! 4 = ''-U'' \<and>
     MatchString (plus_of (Class (alnum_chars @ ''_-''))) (args ! 5) \<and> args ! 6 = ''-E'' \<and>
     args ! 7 = ''chassis'' \<and> args ! 8 = ''power'' \<and>
     (name = ''ipmitool_power_off'' \<longrightarrow> args ! 9 = ''off'') \<and> (name = ''ipmitool_power_status'' \<longrightarrow> args ! 9 = ''status'')"

section \<open>Files and devices\<close>

definition allowed_of :: "string \<Rightarrow> string list" where
  "allowed_of name = (case CommandWhitelist name of None \<Rightarrow> [] | Some c \<Rightarrow> cmAllowed c)"

definition patterns_of :: "string \<Rightarrow> rx list" where
  "patterns_of name = (case CommandWhitelist name of None \<Rightarrow> [] | Some c \<Rightarrow> cmPatterns c)"

definition matches_any :: "rx list \<Rightarrow> string \<Rightarrow> bool" where
  "matches_any ps a \<longleftrightarrow> list_ex (\<lambda>p. MatchString p a) ps"

definition validatePathBasedCommand :: "string list \<Rightarrow> bool" where
  "validatePathBasedCommand args \<longleftrightarrow>
     args \<noteq> [] \<and> list_all (\<lambda>a. has_prefix a ''-'' \<or> IsValidPath a \<or> IsDataPath a) args"

definition validateDeviceBasedCommand :: "string \<Rightarrow> string list \<Rightarrow> bool" where
  "validateDeviceBasedCommand name args \<longleftrightarrow>
     list_all (\<lambda>a.
       a \<in> set (allowed_of name) \<or>
       (if has_prefix a ''/dev/'' then ValidateDevicePath a
        else \<not> has_prefix a ''-'' \<and> matches_any (patterns_of name) a)) args"

definition is_path_arg :: "string \<Rightarrow> string \<Rightarrow> bool" where
  "is_path_arg name a \<longleftrightarrow> a \<notin> set (allowed_of name) \<and> has_prefix a ''/''"

definition validateDataPathCommand :: "string \<Rightarrow> string list \<Rightarrow> bool" where
  "validateDataPathCommand name args \<longleftrightarrow>
     list_all (\<lambda>a.
       a \<in> set (allowed_of name) \<or>
       (if has_prefix a ''/'' then IsDataPath a \<or> IsValidPath a else matches_any (patterns_of name) a)) args \<and>
     length (filter (is_path_arg name) args) = 1"

definition rsyncRemoteRe :: rx where
  "rsyncRemoteRe =
     seqs [plus_of (Class (alnum_chars @ ''._-'')), lit ''@'', plus_of (Class (alnum_chars @ ''.-'')), lit '':/'',
           Star (NotClass space_chars)]"

definition rsyncExcludeRe :: rx where
  "rsyncExcludeRe = seqs [lit ''--exclude='', between 1 128 (Class (alnum_chars @ ''._*?@+/-''))]"

text \<open>The loop over the arguments: the paths, nothing where an option is refused.\<close>

fun rsync_operands :: "string list \<Rightarrow> string list option" where
  "rsync_operands [] = Some []"
| "rsync_operands (a # as) =
     (if a = ''-e'' then (case as of [] \<Rightarrow> None | sh # rest \<Rightarrow> if sh = RsyncSSH then rsync_operands rest else None)
      else if has_prefix a ''-'' then
        (if a \<in> set (allowed_of ''rsync'') \<or> MatchString rsyncExcludeRe a then rsync_operands as else None)
      else map_option (\<lambda>ps. a # ps) (rsync_operands as))"

definition trim_slash :: "string \<Rightarrow> string" where
  "trim_slash p = (if 1 < length p \<and> has_suffix p ''/'' then butlast p else p)"

definition rsync_path :: "string \<Rightarrow> bool" where
  "rsync_path p \<longleftrightarrow> \<not> contains_text p ''..'' \<and> (MatchString rsyncRemoteRe p \<or> IsDataPath (trim_slash p))"

definition validateRsync :: "string list \<Rightarrow> bool" where
  "validateRsync args \<longleftrightarrow>
     (case rsync_operands args of None \<Rightarrow> False | Some ps \<Rightarrow> length ps = 2 \<and> list_all rsync_path ps)"

section \<open>Docker\<close>

definition ComposeRoots :: "string list" where
  "ComposeRoots =
     [''/opt/'', ''/srv/'', ''/home/'', ''/var/lib/dplaneos/'', ''/mnt/'', ''/data/'', ''/tank/'', ''/pool/'']"

definition composeSubcommands :: "string list" where
  "composeSubcommands = [''up'', ''down'', ''ps'', ''start'', ''stop'', ''restart'', ''pull'', ''config'', ''images'']"

definition composeFlags :: "string list" where
  "composeFlags = [''-d'', ''--remove-orphans'', ''-v'', ''--format'', ''json'', ''--all'', ''-q'', ''--quiet'']"

definition serviceNameRe :: rx where
  "serviceNameRe = seqs [Class alnum_chars, Upto 127 (Class (alnum_chars @ ''_.-''))]"

definition composeProjectRe :: rx where
  "composeProjectRe = seqs [Class (lower_chars @ digit_chars), Upto 127 (Class (lower_chars @ digit_chars @ ''_-''))]"

definition compose_location :: "string \<Rightarrow> bool" where
  "compose_location p \<longleftrightarrow>
     p \<noteq> [] \<and> \<not> contains_any p [CHR 0x00, CHR 0x0A] \<and> has_prefix p ''/'' \<and> Clean p = p \<and> \<not> contains_text p ''..''"

definition validComposePath :: "string \<Rightarrow> bool \<Rightarrow> bool" where
  "validComposePath p file \<longleftrightarrow>
     compose_location p \<and> (file \<longrightarrow> has_suffix p ''.yml'' \<or> has_suffix p ''.yaml'') \<and>
     list_ex (\<lambda>root. has_prefix (p @ ''/'') root) ComposeRoots"

definition validEnvFilePath :: "string \<Rightarrow> bool" where
  "validEnvFilePath p \<longleftrightarrow> compose_location p \<and> list_ex (has_prefix p) ComposeRoots"

definition compose_option :: "string \<Rightarrow> string \<Rightarrow> bool" where
  "compose_option opt_name v \<longleftrightarrow>
     (if opt_name = ''--project-directory'' then validComposePath v False
      else if opt_name = ''-f'' then validComposePath v True
      else if opt_name = ''-p'' then MatchString composeProjectRe v
      else opt_name = ''--env-file'' \<and> validEnvFilePath v)"

fun compose_rest :: "string list \<Rightarrow> bool" where
  "compose_rest [] \<longleftrightarrow> False"
| "compose_rest (a # as) \<longleftrightarrow>
     (if has_prefix a ''-'' then (case as of [] \<Rightarrow> False | v # rest \<Rightarrow> compose_option a v \<and> compose_rest rest)
      else a \<in> set composeSubcommands \<and> list_all (\<lambda>x. x \<in> set composeFlags \<or> MatchString serviceNameRe x) as)"

definition validateDockerCompose :: "string list \<Rightarrow> bool" where
  "validateDockerCompose args \<longleftrightarrow> 2 \<le> length args \<and> args ! 0 = ''compose'' \<and> compose_rest (drop 1 args)"

definition dockerCLISubs :: "string list" where
  "dockerCLISubs = [''ps'', ''stats'', ''inspect'']"

definition dockerCLIFlags :: "string list" where
  "dockerCLIFlags = [''--no-stream'', ''--no-trunc'', ''-a'', ''--all'']"

definition dockerCLIValFlags :: "string list" where
  "dockerCLIValFlags = [''--format'', ''--filter'']"

fun docker_display :: "string list \<Rightarrow> bool" where
  "docker_display [] \<longleftrightarrow> True"
| "docker_display (a # as) \<longleftrightarrow>
     (if a \<in> set dockerCLIFlags then docker_display as
      else if a \<in> set dockerCLIValFlags then
        (case as of [] \<Rightarrow> False | v # rest \<Rightarrow> \<not> contains_any v [CHR 0x00, CHR 0x0A] \<and> docker_display rest)
      else MatchString serviceNameRe a \<and> docker_display as)"

definition validateDockerCLI :: "string list \<Rightarrow> bool" where
  "validateDockerCLI args \<longleftrightarrow> args \<noteq> [] \<and> args ! 0 \<in> set dockerCLISubs \<and> docker_display (drop 1 args)"

section \<open>Every command\<close>

datatype command_refusal =
    NotWhitelisted
  | Unauthorized
  | TooManyArguments
  | InvalidArgument nat string
  | MissingArguments

text \<open>The loop over the arguments after the fixed ones: each matches the next pattern or is a fixed one again.\<close>

fun match_patterns :: "string list \<Rightarrow> nat \<Rightarrow> rx list \<Rightarrow> string list \<Rightarrow> command_refusal option" where
  "match_patterns allowed pos ps [] = None"
| "match_patterns allowed pos ps (a # as) =
     (if a \<in> set allowed then match_patterns allowed pos ps as
      else case ps of
        [] \<Rightarrow> Some TooManyArguments
      | p # ps' \<Rightarrow>
          if \<not> MatchString p a then Some (InvalidArgument pos a) else match_patterns allowed (pos + 1) ps' as)"

fun match_count :: "string list \<Rightarrow> string list \<Rightarrow> nat" where
  "match_count (a # as) (b # bs) = (if a = b then Suc (match_count as bs) else 0)"
| "match_count _ _ = 0"

definition default_check :: "command \<Rightarrow> string list \<Rightarrow> command_refusal option" where
  "default_check c args =
     (let n = match_count args (cmAllowed c) in
      case match_patterns (cmAllowed c) n (cmPatterns c) (drop n args) of
        Some e \<Rightarrow> Some e
      | None \<Rightarrow>
          if cmPatterns c = [] \<and> cmAllowed c \<noteq> [] \<and> length args < length (cmAllowed c) then Some MissingArguments
          else None)"

text \<open>The validator of a command, for the commands that have one of their own.\<close>

definition validator_of :: "string \<Rightarrow> (string list \<Rightarrow> bool) option" where
  "validator_of name =
     (if name = ''zpool_create'' then Some validateZpoolCreate
      else if name = ''zfs_set_property'' then Some validateZfsSetProperty
      else if name = ''ufw'' then Some validateUfw
      else if name = ''ip_route_modify'' then Some validateIpRoute
      else if name = ''zpool_replace'' then Some validateZpoolReplace
      else if name = ''zpool_attach'' then Some validateZpoolAttach
      else if name = ''zpool_detach'' then Some validateZpoolDetach
      else if name = ''zpool_add_special'' then Some validateZpoolAddSpecial
      else if name = ''openssl'' then Some validateOpenssl
      else if name \<in> set [''mkdir'', ''rm_recursive''] then Some validatePathBasedCommand
      else if name \<in> set [''chown'', ''chmod'', ''stat'', ''getfacl'', ''setfacl''] then Some (validateDataPathCommand name)
      else if name = ''rsync'' then Some validateRsync
      else if name \<in> set [''zpool_online'', ''zpool_add_cache'', ''zpool_add_log'', ''zpool_remove_device'', ''hdparm_check'',
                        ''hdparm_spindown'', ''hdparm_status'', ''wipefs'', ''zpool_labelclear''] then
        Some (validateDeviceBasedCommand name)
      else if name = ''group_address'' then Some validateGroupAddress
      else if name = ''group_arping'' then Some validateGroupArping
      else if name = ''docker_compose'' then Some validateDockerCompose
      else if name = ''docker_cli'' then Some validateDockerCLI
      else if name = ''zfs_rename'' then Some validateZfsRename
      else if name = ''zpool_offline'' then Some validateZpoolOffline
      else if name = ''zfs_promote'' then Some validateZfsPromote
      else if name = ''zpool_export'' then Some validateZpoolExport
      else if name = ''zpool_import'' then Some validateZpoolImport
      else if name = ''zfs_create_opts'' then Some validateZfsCreateOpts
      else if name \<in> set [''ipmitool_power_off'', ''ipmitool_power_status''] then Some (validateIpmitoolPower name)
      else if name = ''zpool_add'' then Some validateZpoolAdd
      else if name = ''zpool_set_property'' then Some validateZpoolSetProperty
      else None)"

text \<open>The checks that precede the default one for some commands.\<close>

definition extra_check :: "string \<Rightarrow> string list \<Rightarrow> bool" where
  "extra_check name args \<longleftrightarrow>
     (if name \<in> set [''qdevice_certutil'', ''qnetd_certutil''] then list_all (\<lambda>a. \<not> contains_text a ''..'') args
      else if name \<in> set [''zfs_hold'', ''zfs_release'', ''zpool_split''] then length args = 3
      else if name = ''zfs_holds'' then length args = 2
      else True)"

definition ValidateCommand :: "string \<Rightarrow> string list \<Rightarrow> command_refusal option" where
  "ValidateCommand name args =
     (case CommandWhitelist name of
        None \<Rightarrow> Some NotWhitelisted
      | Some c \<Rightarrow>
          (case validator_of name of
             Some ok \<Rightarrow> if ok args then None else Some Unauthorized
           | None \<Rightarrow> if \<not> extra_check name args then Some Unauthorized else default_check c args))"

text \<open>
  \<open>runInternal\<close> (\<open>cmdutil/cmdutil.go\<close>): a key of the table is checked and run with its program, any other name is run
  as it is.
\<close>

definition runInternal :: "string \<Rightarrow> string list \<Rightarrow> command_refusal + string \<times> string list" where
  "runInternal name args =
     (case CommandWhitelist name of
        None \<Rightarrow> Inr (name, args)
      | Some c \<Rightarrow> (case ValidateCommand name args of Some e \<Rightarrow> Inl e | None \<Rightarrow> Inr (cmPath c, args)))"

text \<open>
  \<open>ZFSHandler.HandleCommand\<close> (\<open>handlers/zfs.go\<close>), the route \<open>/api/zfs/command\<close>: the answer to a request that was
  decoded, or the program and the arguments that are run and whether the state is committed after.
\<close>

record command_request =
  crCommand :: string
  crArgs :: "string list"
  crSession :: string

text \<open>The flag of a command that is run: whether the state is committed to git once it has succeeded.\<close>

datatype command_answer = NoSession | RefusedCommand command_refusal | Executes string "string list" bool

definition mutating :: "string list" where
  "mutating = [''zfs_create'', ''zfs_destroy'', ''zfs_set_property'', ''zpool_create'', ''zpool_destroy'', ''zpool_add'']"

definition HandleCommand :: "command_request \<Rightarrow> command_answer" where
  "HandleCommand r =
     (if \<not> IsValidSessionToken (crSession r) then NoSession
      else case ValidateCommand (crCommand r) (crArgs r) of
        Some e \<Rightarrow> RefusedCommand e
      | None \<Rightarrow>
          (case CommandWhitelist (crCommand r) of
             None \<Rightarrow> RefusedCommand NotWhitelisted
           | Some c \<Rightarrow> Executes (cmPath c) (crArgs r) (crCommand r \<in> set mutating)))"

end
