(* ===== verification/CommandSafety.thy ===== *)
theory CommandSafety
  imports WhitelistCheck
begin

text \<open>
  What the whitelist lets through: the default check in closed form, the paths and devices it takes for data, copies
  with \<open>rsync\<close>, the firewall handler (\<open>handlers/system_extended.go\<close>) whose commands it decides, and what the route
  \<open>/api/zfs/command\<close> can run.
\<close>

lemmas table_defs =
  CommandTable_def monitor_commands_def replica_commands_def pool_commands_def device_commands_def link_commands_def
  domain_commands_def system_commands_def cluster_commands_def kerberos_commands_def entry_def

section \<open>The default check\<close>

lemma match_patterns_None:
  "match_patterns allowed pos ps as = None \<longleftrightarrow>
   (\<exists>k \<le> length ps. list_all2 MatchString (take k ps) (filter (\<lambda>a. a \<notin> set allowed) as))"
proof (induction allowed pos ps as rule: match_patterns.induct)
  case (2 allowed pos ps a as)
  show ?case
  proof (cases "a \<in> set allowed \<or> ps = []")
    case False
    then obtain p ps' where ps: "ps = p # ps'" "a \<notin> set allowed" by (cases ps) auto
    have *: "(\<exists>k \<le> Suc n. list_all2 P (take k (q # qs)) (x # xs)) \<longleftrightarrow> P q x \<and> (\<exists>k \<le> n. list_all2 P (take k qs) xs)" for n P q qs x xs
      by (auto simp: take_Cons' gr0_conv_Suc intro: exI [of _ "Suc k" for k])
    have keep: "filter (\<lambda>a. a \<notin> set allowed) (a # as) = a # filter (\<lambda>a. a \<notin> set allowed) as" "length (p # ps') = Suc (length ps')"
      using ps by simp_all
    show ?thesis unfolding ps(1) keep * using 2 ps by simp
  qed (use 2 in auto)
qed (auto intro: exI [of _ 0])

lemma match_count_allowed: "set (take (match_count as bs) as) \<subseteq> set bs"
  by (induction as bs rule: match_count.induct) auto

lemma filter_after_count: "filter (\<lambda>a. a \<notin> set bs) (drop (match_count as bs) as) = filter (\<lambda>a. a \<notin> set bs) as"
proof -
  have "filter (\<lambda>a. a \<notin> set bs) (take (match_count as bs) as) = []"
    using match_count_allowed [of as bs] by (auto simp: filter_empty_conv)
  then show ?thesis by (metis append_Nil append_take_drop_id filter_append)
qed

text \<open>
  C27. A command without a validator of its own, whose arguments pass the extra check some commands have, is accepted
  exactly when the arguments that are not fixed ones match the patterns in their order, as many as there are, and, for a
  command without patterns, when it has at least as many arguments as fixed ones. In which order the fixed arguments come,
  how often each occurs, and with patterns whether they occur at all, plays no role.
\<close>

theorem default_accepts_iff:
  assumes "CommandWhitelist name = Some c" "validator_of name = None" "extra_check name args"
  shows "ValidateCommand name args = None \<longleftrightarrow>
         (\<exists>k \<le> length (cmPatterns c).
            list_all2 MatchString (take k (cmPatterns c)) (filter (\<lambda>a. a \<notin> set (cmAllowed c)) args)) \<and>
         (cmPatterns c = [] \<longrightarrow> length (cmAllowed c) \<le> length args)"
proof -
  have "default_check c args = None \<longleftrightarrow>
      (\<exists>k \<le> length (cmPatterns c).
            list_all2 MatchString (take k (cmPatterns c)) (filter (\<lambda>a. a \<notin> set (cmAllowed c)) args)) \<and>
      (cmPatterns c = [] \<longrightarrow> length (cmAllowed c) \<le> length args)"
    using match_patterns_None [of "cmAllowed c" "match_count args (cmAllowed c)" "cmPatterns c" "drop (match_count args (cmAllowed c)) args"]
    by (auto simp: default_check_def Let_def filter_after_count not_less split: option.splits)
  then show ?thesis using assms by (simp add: ValidateCommand_def)
qed

lemma after_iff: "after s p P \<longleftrightarrow> (\<exists>t. s = p @ t \<and> P t)"
  by (auto simp: after_def has_prefix_def) (metis append_eq_conv_conj)

lemma is_lower_set: "is_lower c \<longleftrightarrow> c \<in> set lower_chars"
  by (simp add: is_lower_def)
lemma is_digit_set: "is_digit c \<longleftrightarrow> c \<in> set digit_chars"
  by (simp add: is_digit_def)
lemma is_alnum_set: "is_alnum c \<longleftrightarrow> c \<in> set alnum_chars"
  by (auto simp: char_class_defs alnum_chars_def)


lemma scsi_disk_iff:
  "scsi_disk t \<longleftrightarrow> (\<exists>x y. t = x @ y \<and> x \<in> lang (between 1 3 (Class lower_chars)) \<and> y \<in> lang (Star (Class digit_chars)))"
proof
  assume "scsi_disk t"
  then show "\<exists>x y. t = x @ y \<and> x \<in> lang (between 1 3 (Class lower_chars)) \<and> y \<in> lang (Star (Class digit_chars))"
    by (intro exI [of _ "takeWhile is_lower t"] exI [of _ "dropWhile is_lower t"])
      (auto simp: scsi_disk_def lang_between list_all_iff is_lower_set is_digit_set dest: set_takeWhileD simp del: lang.simps)
next
  assume "\<exists>x y. t = x @ y \<and> x \<in> lang (between 1 3 (Class lower_chars)) \<and> y \<in> lang (Star (Class digit_chars))"
  then obtain x y where t: "t = x @ y" "1 \<le> length x" "length x \<le> 3" "\<forall>c \<in> set x. is_lower c" "\<forall>c \<in> set y. is_digit c"
    by (auto simp: lang_between is_lower_set is_digit_set simp del: lang.simps)
  have "\<not> is_lower c" if "is_digit c" for c using that by (auto simp: char_class_defs)
  then have "takeWhile is_lower y = []" using t(5) by (cases y) auto
  then have "takeWhile is_lower t = x" "dropWhile is_lower t = y" using t by (auto simp: takeWhile_eq_Nil_iff dropWhile_eq_self_iff)
  then show "scsi_disk t" using t by (auto simp: scsi_disk_def list_all_iff)
qed

lemma digits_iff: "t \<noteq> [] \<and> list_all is_digit t \<longleftrightarrow> t \<in> lang (plus_of (Class digit_chars))"
  by (auto simp: lang_some list_all_iff is_digit_set)

lemma digits_then_iff:
  assumes "\<not> is_digit c"
  shows "digits_then c s = Some t \<longleftrightarrow> (\<exists>ds. s = ds @ c # t \<and> ds \<in> lang (plus_of (Class digit_chars)))"
proof
  assume "digits_then c s = Some t"
  then have "dropWhile is_digit s = c # t" "takeWhile is_digit s \<noteq> []"
    by (auto simp: digits_then_def split: list.splits if_splits)
  then show "\<exists>ds. s = ds @ c # t \<and> ds \<in> lang (plus_of (Class digit_chars))"
    by (intro exI [of _ "takeWhile is_digit s"])
      (metis digits_iff list_all_iff set_takeWhileD takeWhile_dropWhile_id)
next
  assume "\<exists>ds. s = ds @ c # t \<and> ds \<in> lang (plus_of (Class digit_chars))"
  then obtain ds where ds: "s = ds @ c # t" "ds \<noteq> []" "\<forall>d \<in> set ds. is_digit d" by (auto simp: digits_iff [symmetric] list_all_iff)
  then have "dropWhile is_digit s = c # t" "takeWhile is_digit s = ds" using assms by auto
  then show "digits_then c s = Some t" using ds by (simp add: digits_then_def)
qed

lemma separators_no_digit: "\<not> is_digit CHR ''n''" "\<not> is_digit CHR ''p''" by (simp_all add: char_class_defs)

lemma nvme_disk_iff: "after s ''nvme'' nvme_disk \<longleftrightarrow> s \<in> lang nvme_re"
proof -
  have *: "nvme_disk t \<longleftrightarrow>
      (\<exists>x y. t = x @ CHR ''n'' # y \<and> x \<in> lang (plus_of (Class digit_chars)) \<and>
         (y \<in> lang (plus_of (Class digit_chars)) \<or>
          (\<exists>u v. y = u @ CHR ''p'' # v \<and> u \<in> lang (plus_of (Class digit_chars)) \<and> v \<in> lang (plus_of (Class digit_chars)))))" for t
  proof -
    have "nvme_disk t \<longleftrightarrow>
        (\<exists>y. digits_then CHR ''n'' t = Some y \<and>
           (y \<in> lang (plus_of (Class digit_chars)) \<or>
            (\<exists>v. digits_then CHR ''p'' y = Some v \<and> v \<in> lang (plus_of (Class digit_chars)))))"
      unfolding nvme_disk_def digits_iff by (auto split: option.splits)
    then show ?thesis unfolding digits_then_iff [OF separators_no_digit(1)] digits_then_iff [OF separators_no_digit(2)] by blast
  qed
  have "s \<in> lang nvme_re \<longleftrightarrow> (\<exists>t. s = ''nvme'' @ t \<and> (\<exists>x y. t = x @ CHR ''n'' # y \<and> x \<in> lang (plus_of (Class digit_chars)) \<and>
         (\<exists>u w. y = u @ w \<and> u \<in> lang (plus_of (Class digit_chars)) \<and>
            (w = [] \<or> (\<exists>v. w = CHR ''p'' # v \<and> v \<in> lang (plus_of (Class digit_chars)))))))"
    unfolding nvme_re_def by (simp only: seqs_lit seqs_one lang_opt lang_seqs_Cons [of _ "plus_of r" for r] append_Cons append_Nil) blast
  then show ?thesis unfolding after_iff * by blast
qed

lemma head_tail_iff:
  "match_head_tail p q (length t) t \<longleftrightarrow> (\<exists>c cs. t = c # cs \<and> p c \<and> list_all q cs)"
  by (cases t) auto

lemma named_node_iff:
  "match_head_tail is_alnum (name_char extra) (length t) t \<longleftrightarrow>
   t \<in> lang (seqs [Class alnum_chars, Star (Class (alnum_chars @ extra))])"
  unfolding head_tail_iff seqs_class seqs_one lang_any by (auto simp: name_char_def list_all_iff is_alnum_set)

text \<open>
  The check of a device path, read by its parts, is the expression of the code.
\<close>

lemma ValidateDevicePath_regexp:
  "ValidateDevicePath p \<longleftrightarrow> MatchString validDevicePath p \<and> \<not> contains_text p ''..''"
proof -
  have scsi: "after s ''sd'' scsi_disk \<or> after s ''vd'' scsi_disk \<or> after s ''xvd'' scsi_disk \<longleftrightarrow> s \<in> lang disk_letters_re" for s
  proof -
    have tail: "t \<in> lang (seqs [between 1 3 (Class lower_chars), Star (Class digit_chars)]) \<longleftrightarrow> scsi_disk t" for t
      unfolding scsi_disk_iff lang_seqs_Cons [of _ "between 1 3 (Class lower_chars)"] seqs_one ..
    show ?thesis
      using seqs_alts_lit [of s "[''sd'', ''vd'', ''xvd'']" "[between 1 3 (Class lower_chars), Star (Class digit_chars)]", unfolded tail]
      unfolding after_iff disk_letters_re_def by (simp del: lang.simps)
  qed
  have optical: "after s ''sr'' (\<lambda>t. t \<noteq> [] \<and> list_all is_digit t) \<longleftrightarrow> s \<in> lang (seqs [lit ''sr'', plus_of (Class digit_chars)])" for s
    unfolding after_iff digits_iff seqs_lit seqs_one by simp
  have mapper: "after s ''mapper/'' (\<lambda>t. match_head_tail is_alnum (name_char ''_.-'') (length t) t) \<longleftrightarrow> s \<in> lang mapper_re" for s
    unfolding after_iff named_node_iff mapper_re_def seqs_lit by simp
  have link: "list_ex (\<lambda>by. after s (''disk/by-'' @ by @ ''/'') (\<lambda>t. match_head_tail is_alnum (name_char ''_.:+-'') (length t) t))
         [''id'', ''path'', ''uuid'', ''partuuid''] \<longleftrightarrow> s \<in> lang disk_link_re" for s
    using seqs_alts_lit [of "drop 8 s" "[''id'', ''path'', ''uuid'', ''partuuid'']" "[lit ''/'', Class alnum_chars, Star (Class (alnum_chars @ ''_.:+-''))]"]
    unfolding after_iff named_node_iff disk_link_re_def seqs_lit by (auto simp del: lang.simps)
  have "MatchString validDevicePath p \<longleftrightarrow>
      (\<exists>s. p = ''/dev/'' @ s \<and> (s \<in> lang disk_letters_re \<or> s \<in> lang nvme_re \<or>
         s \<in> lang (seqs [lit ''sr'', plus_of (Class digit_chars)]) \<or> s \<in> lang mapper_re \<or> s \<in> lang disk_link_re))"
    unfolding MatchString_iff validDevicePath_def seqs_lit [of _ "''/dev/''"] seqs_one [of _ "alts rs" for rs]
    by (simp del: lang.simps)
  then show ?thesis unfolding ValidateDevicePath_def after_iff [of p] nvme_disk_iff optical mapper link scsi [symmetric] by blast
qed

section \<open>Data paths\<close>

definition proper :: "string \<Rightarrow> bool" where
  "proper x \<longleftrightarrow> x \<noteq> [] \<and> x \<noteq> ''.'' \<and> x \<noteq> ''..'' \<and> CHR ''/'' \<notin> set x"

definition rooted_path :: "string list \<Rightarrow> string" where
  "rooted_path parts = concat (map (\<lambda>x. CHR ''/'' # x) parts)"

lemma split_rooted: "list_all proper parts \<Longrightarrow> parts \<noteq> [] \<Longrightarrow> split_at CHR ''/'' (rooted_path parts) = [] # parts"
proof (induction parts)
  case (Cons x parts)
  show ?case
  proof (cases "parts = []")
    case True
    then show ?thesis using Cons by (simp add: rooted_path_def split_at_whole proper_def)
  next
    case False
    then have "rooted_path parts = CHR ''/'' # tl (rooted_path parts)" by (cases parts) (simp_all add: rooted_path_def)
    then have "split_at CHR ''/'' (x @ rooted_path parts) = x # split_at CHR ''/'' (tl (rooted_path parts))"
      using Cons.prems split_at_piece [of "CHR ''/''" x "tl (rooted_path parts)"] by (simp add: proper_def)
    moreover have "split_at CHR ''/'' (rooted_path parts) = [] # split_at CHR ''/'' (tl (rooted_path parts))"
      by (subst \<open>rooted_path parts = CHR ''/'' # tl (rooted_path parts)\<close>) simp
    ultimately show ?thesis using Cons False by (simp add: rooted_path_def)
  qed
qed simp

lemma clean_proper: "list_all proper ps \<Longrightarrow> clean_parts True out ps = rev out @ ps"
  by (induction ps arbitrary: out) (auto simp: proper_def)

lemma clean_parts_proper:
  "\<forall>x \<in> set ps. CHR ''/'' \<notin> set x \<Longrightarrow> list_all proper out \<Longrightarrow> list_all proper (clean_parts True out ps)"
proof (induction ps arbitrary: out)
  case (Cons p ps)
  then show ?case by (cases out) (auto simp: proper_def)
qed (simp add: list_all_iff)

lemma join_rooted: "parts \<noteq> [] \<Longrightarrow> ''/'' @ join_with ''/'' parts = rooted_path parts"
proof (induction parts)
  case (Cons x parts)
  then show ?case by (cases parts) (simp_all add: rooted_path_def)
qed simp

lemma split_no_sep: "x \<in> set (split_at d s) \<Longrightarrow> d \<notin> set x"
  by (induction s arbitrary: x) (auto split: if_splits list.splits)

lemma Clean_rooted: "list_all proper parts \<Longrightarrow> parts \<noteq> [] \<Longrightarrow> Clean (rooted_path parts) = rooted_path parts"
proof -
  assume p: "list_all proper parts" "parts \<noteq> []"
  have "has_prefix (rooted_path parts) ''/''" using p(2) by (cases parts) (simp_all add: rooted_path_def has_prefix_def)
  moreover have "clean_parts True [] (split_at CHR ''/'' (rooted_path parts)) = parts"
    using split_rooted [OF p] clean_proper [OF p(1), of "[]"] by simp
  ultimately show ?thesis using join_rooted [OF p(2)] by (simp add: Clean_def)
qed

lemma Clean_fixpoint:
  assumes "Clean p = p" "has_prefix p ''/''" "2 \<le> length p"
  obtains parts where "list_all proper parts" "parts \<noteq> []" "p = rooted_path parts"
proof -
  let ?parts = "clean_parts True [] (split_at CHR ''/'' p)"
  have proper: "list_all proper ?parts" by (rule clean_parts_proper) (auto simp: split_no_sep)
  have p: "p = ''/'' @ join_with ''/'' ?parts" using assms(1,2) by (simp add: Clean_def)
  have "?parts \<noteq> []"
  proof
    assume "?parts = []"
    then have "length p = 1" using p by simp
    then show False using assms(3) by simp
  qed
  then show thesis using that proper p join_rooted by metis
qed

text \<open>
  A data path is exactly a path of one or more proper components (not empty, not a dot or two, without a slash)
  behind a slash each, whose first is no system directory, without line breaks.
\<close>

lemma IsDataPath_iff:
  "IsDataPath p \<longleftrightarrow>
   (\<exists>parts. p = rooted_path parts \<and> parts \<noteq> [] \<and> list_all proper parts \<and> hd parts \<notin> set SystemDirs \<and> set p \<inter> set line_breaks = {})"
proof
  assume a: "IsDataPath p"
  then have "has_prefix p ''/''" "2 \<le> length p" "Clean p = p" by (cases p; simp add: IsDataPath_def has_prefix_def)+
  then obtain parts where parts: "list_all proper parts" "parts \<noteq> []" "p = rooted_path parts" using Clean_fixpoint by metis
  have "drop 1 p = join_with ''/'' parts" using join_rooted [OF parts(2)] parts(3) by (metis append_Cons append_Nil drop0 drop_Suc_Cons One_nat_def)
  moreover have "split_at CHR ''/'' (drop 1 p) = parts"
    using split_rooted [OF parts(1,2)] parts(2,3) by (cases parts) (auto simp: rooted_path_def)
  ultimately show "\<exists>parts. p = rooted_path parts \<and> parts \<noteq> [] \<and> list_all proper parts \<and> hd parts \<notin> set SystemDirs \<and> set p \<inter> set line_breaks = {}"
    using a parts by (auto simp: IsDataPath_def Let_def contains_any_def)
next
  assume "\<exists>parts. p = rooted_path parts \<and> parts \<noteq> [] \<and> list_all proper parts \<and> hd parts \<notin> set SystemDirs \<and> set p \<inter> set line_breaks = {}"
  then obtain x xs where parts: "p = rooted_path (x # xs)" "list_all proper (x # xs)" "x \<notin> set SystemDirs" "set p \<inter> set line_breaks = {}"
    by (metis list.exhaust_sel)
  have "split_at CHR ''/'' (drop 1 p) = x # xs"
    using split_rooted [OF parts(2)] parts(1) by (simp add: rooted_path_def)
  moreover have "2 \<le> length p" using parts(1,2) by (cases x) (simp_all add: rooted_path_def proper_def)
  moreover have "\<not> contains_any p line_breaks" using parts(4) by (auto simp: contains_any_def)
  moreover have "p ! 0 = CHR ''/''" "Clean p = p" using parts(1) Clean_rooted [OF parts(2)] by (simp_all add: rooted_path_def)
  ultimately show "IsDataPath p" using parts(2,3) by (simp add: IsDataPath_def proper_def)
qed

section \<open>Copies\<close>

lemma rsync_entry: "allowed_of ''rsync'' = [''-avz'', ''--delete'', ''--progress'', ''--partial'', ''--inplace'', ''--append'', ''--compress'', ''-e'', RsyncSSH]"
  by (simp add: allowed_of_def CommandWhitelist_def table_defs)

lemma shell_not_path: "\<not> rsync_path RsyncSSH"
proof -
  have "\<not> MatchString rsyncRemoteRe RsyncSSH"
  proof -
    have "CHR '' '' \<notin> chars_of rsyncRemoteRe"
      by (simp add: rsyncRemoteRe_def plus_of_def alnum_chars_def space_chars_def char_class_defs seqs.simps lit.simps)
    moreover have "CHR '' '' \<in> set RsyncSSH" by (simp add: RsyncSSH_def)
    ultimately show ?thesis using lang_chars [of RsyncSSH rsyncRemoteRe] unfolding MatchString_iff by blast
  qed
  moreover have "\<not> IsDataPath (trim_slash RsyncSSH)" by (simp add: IsDataPath_def trim_slash_def RsyncSSH_def)
  ultimately show ?thesis by (simp add: rsync_path_def)
qed

definition rsync_option :: "string \<Rightarrow> bool" where
  "rsync_option a \<longleftrightarrow> a \<in> set [''-avz'', ''--delete'', ''--progress'', ''--partial'', ''--inplace'', ''--append'', ''--compress'']
     \<or> MatchString rsyncExcludeRe a"

lemma rsync_operands_safe:
  "rsync_operands as = Some ps \<Longrightarrow> list_all rsync_path ps \<Longrightarrow>
   filter (\<lambda>a. \<not> has_prefix a ''-'' \<and> a \<noteq> RsyncSSH) as = ps \<and>
   (\<forall>a \<in> set as. has_prefix a ''-'' \<longrightarrow> a = ''-e'' \<or> rsync_option a) \<and>
   (\<forall>i < length as. as ! i = ''-e'' \<longrightarrow> Suc i < length as \<and> as ! Suc i = RsyncSSH)"
proof (induction as arbitrary: ps rule: rsync_operands.induct)
  case (2 a as)
  have e: "has_prefix ''-e'' ''-''" "\<not> has_prefix RsyncSSH ''-''" by (simp_all add: has_prefix_def RsyncSSH_def)
  consider (shell) rest where "a = ''-e''" "as = RsyncSSH # rest" "rsync_operands rest = Some ps"
    | (opt) "a \<noteq> ''-e''" "has_prefix a ''-''" "a \<in> set (allowed_of ''rsync'') \<or> MatchString rsyncExcludeRe a" "rsync_operands as = Some ps"
    | (path) qs where "a \<noteq> ''-e''" "\<not> has_prefix a ''-''" "rsync_operands as = Some qs" "ps = a # qs"
    using 2(4) by (auto split: if_splits list.splits)
  then show ?case
  proof cases
    case shell
    have "\<not> i = 0 \<longrightarrow> (a # as) ! i = ''-e'' \<longrightarrow> i \<noteq> 1" for i using shell e by (auto simp: RsyncSSH_def)
    then show ?thesis using 2(1) [of RsyncSSH rest ps] 2(5) shell e
      by (auto simp: nth_Cons less_Suc_eq_0_disj RsyncSSH_def split: nat.splits)
  next
    case opt
    then show ?thesis using 2(2) [of ps] 2(5) e
      by (auto simp: nth_Cons rsync_option_def rsync_entry split: nat.splits)
  next
    case path
    then have "a \<noteq> RsyncSSH" using 2(5) shell_not_path by auto
    then show ?thesis using 2(3) [of qs] 2(5) path by (auto simp: nth_Cons split: nat.splits)
  qed
qed simp

lemma default_accepts_iff_witness:
  "ValidateCommand ''zpool_set_cachefile_none'' [''cachefile=none'', ''set'', ''tank''] = None"
proof -
  let ?c = "\<lparr>cmPath = ''zpool'', cmAllowed = [''set'', ''cachefile=none''], cmPatterns = [pool_re]\<rparr>"
  have c: "CommandWhitelist ''zpool_set_cachefile_none'' = Some ?c" by (simp add: CommandWhitelist_def table_defs)
  have "CHR ''t'' # ''ank'' \<in> lang pool_re"
    unfolding pool_re_def seqs_class seqs_one lang_upto by (simp add: letter_chars_def alnum_chars_def char_class_defs)
  then have "\<exists>k \<le> 1. list_all2 MatchString (take k [pool_re]) [''tank'']"
    by (intro exI [of _ 1]) (simp add: MatchString_iff)
  then show ?thesis
    using default_accepts_iff [OF c, of "[''cachefile=none'', ''set'', ''tank'']"]
    by (simp add: validator_of_def extra_check_def del: MatchString.simps)
qed

lemma rsync_validator: "ValidateCommand ''rsync'' args = None \<longleftrightarrow> validateRsync args"
proof -
  have "CommandWhitelist ''rsync'' \<noteq> None" by (simp add: CommandWhitelist_def table_defs)
  then show ?thesis by (auto simp: ValidateCommand_def validator_of_def split: if_splits)
qed

text \<open>
  C28. An accepted copy has exactly two operands, each a data path or a remote one without dots that lead up, no options
  but those of the list and exclusions, and no remote shell but the fixed one.
\<close>

theorem rsync_safe:
  assumes "ValidateCommand ''rsync'' args = None"
  shows "(\<exists>source target. filter (\<lambda>a. \<not> has_prefix a ''-'' \<and> a \<noteq> RsyncSSH) args = [source, target] \<and>
            rsync_path source \<and> rsync_path target) \<and>
         list_all (\<lambda>a. \<not> has_prefix a ''-'' \<or> a = ''-e'' \<or> rsync_option a) args \<and>
         (\<forall>i < length args. args ! i = ''-e'' \<longrightarrow> Suc i < length args \<and> args ! Suc i = RsyncSSH)"
proof -
  obtain ps where ps: "rsync_operands args = Some ps" "length ps = 2" "list_all rsync_path ps"
    using assms by (auto simp: rsync_validator validateRsync_def split: option.splits)
  obtain source target where "ps = [source, target]" using ps(2) by (auto simp: length_Suc_conv numeral_2_eq_2)
  then show ?thesis using rsync_operands_safe [OF ps(1,3)] ps(3) by (auto simp: list_all_iff)
qed

lemma rsync_safe_witness:
  "filter (\<lambda>a. \<not> has_prefix a ''-'' \<and> a \<noteq> RsyncSSH) [''-e'', RsyncSSH, ''/tank/a/'', ''/tank/b''] = [''/tank/a/'', ''/tank/b''] \<and>
   rsync_path ''/tank/a/'' \<and> rsync_path ''/tank/b''"
proof -
  have "rsync_path ''/tank/a/''" "rsync_path ''/tank/b''"
    by (simp_all add: rsync_path_def IsDataPath_def Clean_def has_prefix_def has_suffix_def contains_any_def line_breaks_def
        trim_slash_def SystemDirs_def Let_def del: MatchString.simps)
  then have "ValidateCommand ''rsync'' [''-e'', RsyncSSH, ''/tank/a/'', ''/tank/b''] = None"
    by (simp add: rsync_validator validateRsync_def has_prefix_def)
  from rsync_safe [OF this] show ?thesis by (auto simp: has_prefix_def RsyncSSH_def)
qed

section \<open>The command route\<close>

lemma zfs_get_entry:
  "CommandWhitelist ''zfs_get'' = Some \<lparr>cmPath = ''zfs'', cmAllowed = [''get'', ''-H'', ''-o'', ''value''], cmPatterns = [property_re, name_re]\<rparr>"
  by (simp add: CommandWhitelist_def table_defs)

lemma zpool_destroy_entry:
  "CommandWhitelist ''zpool_destroy'' = Some \<lparr>cmPath = ''zpool'', cmAllowed = [''destroy''], cmPatterns = [word_re]\<rparr>"
  by (simp add: CommandWhitelist_def table_defs)

lemma ufw_entry: "CommandWhitelist ''ufw'' = Some \<lparr>cmPath = ''ufw'', cmAllowed = [], cmPatterns = []\<rparr>"
  by (simp add: CommandWhitelist_def table_defs)

lemma destroy_property: "MatchString property_re ''destroy''"
proof -
  have "CHR ''d'' # ''estroy'' \<in> lang (seqs [Class lower_chars, Upto 127 (Class (lower_chars @ digit_chars @ ''-.:_''))])"
    unfolding lang_seqs_Cons [of _ "Class lower_chars"] seqs_one lang_upto
    by (intro exI [of _ "''d''"] exI [of _ "''estroy''"]) (simp add: char_class_defs)
  then show ?thesis by (simp add: MatchString_iff property_re_def del: lang.simps seqs.simps)
qed

text \<open>
  C26. The command route destroys a dataset through the key that reads properties, and a pool without the confirmation
  and the second factor its own route asks for: a well-formed session token and well-formed names are enough.
\<close>

theorem command_route_destroys:
  assumes "IsValidSessionToken t" "MatchString name_re ds" "MatchString word_re pool"
  shows "HandleCommand \<lparr>crCommand = ''zfs_get'', crArgs = [''destroy'', ds], crSession = t\<rparr> =
           Executes ''zfs'' [''destroy'', ds] False \<and>
         HandleCommand \<lparr>crCommand = ''zpool_destroy'', crArgs = [''destroy'', pool], crSession = t\<rparr> =
           Executes ''zpool'' [''destroy'', pool] True"
proof
  have "default_check \<lparr>cmPath = ''zfs'', cmAllowed = [''get'', ''-H'', ''-o'', ''value''], cmPatterns = [property_re, name_re]\<rparr>
      [''destroy'', ds] = None"
    using assms(2) destroy_property by (simp add: default_check_def del: MatchString.simps)
  then show "HandleCommand \<lparr>crCommand = ''zfs_get'', crArgs = [''destroy'', ds], crSession = t\<rparr> =
           Executes ''zfs'' [''destroy'', ds] False"
    using assms(1) by (simp add: HandleCommand_def ValidateCommand_def zfs_get_entry validator_of_def extra_check_def mutating_def)
  have "default_check \<lparr>cmPath = ''zpool'', cmAllowed = [''destroy''], cmPatterns = [word_re]\<rparr> [''destroy'', pool] = None"
    using assms(3) by (simp add: default_check_def del: MatchString.simps)
  then show "HandleCommand \<lparr>crCommand = ''zpool_destroy'', crArgs = [''destroy'', pool], crSession = t\<rparr> =
           Executes ''zpool'' [''destroy'', pool] True"
    using assms(1) by (simp add: HandleCommand_def ValidateCommand_def zpool_destroy_entry validator_of_def extra_check_def mutating_def)
qed

lemma command_route_destroys_witness:
  "HandleCommand \<lparr>crCommand = ''zfs_get'', crArgs = [''destroy'', ''tank/data''], crSession = replicate 32 CHR ''a''\<rparr> =
     Executes ''zfs'' [''destroy'', ''tank/data''] False"
proof -
  have "IsValidSessionToken (replicate 32 CHR ''a'')"
    by (simp add: IsValidSessionToken_def MatchString_iff lang_some alnum_chars_def char_class_defs del: replicate.simps)
  moreover have "MatchString name_re ''tank/data''" "MatchString word_re ''tank''"
    by (simp_all add: MatchString_iff name_re_def word_re_def lang_some alnum_chars_def char_class_defs)
  ultimately show ?thesis using command_route_destroys by blast
qed

section \<open>The firewall\<close>

text \<open>
  \<open>FirewallHandler.SetRule\<close>. On NixOS the request goes to the rules of the daemon's own firewall table, and \<open>ufw\<close> is
  not run; elsewhere these are the arguments of \<open>ufw\<close>, nothing for a bad request.
\<close>

record firewall_request =
  frAction :: string
  frPort :: string
  frProto :: string
  frFrom :: string
  frRule :: int

definition port_re :: rx where
  "port_re = seqs [plus_of (Class digit_chars), opt (alts [lit ''/tcp'', lit ''/udp''])]"

definition source_re :: rx where
  "source_re = plus_of (Class (digit_chars @ ''abcdefABCDEF./:''))"

definition asked_port :: "firewall_request \<Rightarrow> string" where
  "asked_port r =
     (if frProto r \<noteq> [] \<and> frProto r \<noteq> ''both'' \<and> frPort r \<noteq> [] \<and> CHR ''/'' \<notin> set (frPort r) then frPort r @ ''/'' @ frProto r
      else frPort r)"

definition firewall_args :: "firewall_request \<Rightarrow> string list option" where
  "firewall_args r =
     (let port = asked_port r in
      if frAction r = ''enable'' then Some [''--force'', ''enable'']
      else if frAction r = ''disable'' then Some [''disable'']
      else if frAction r = ''allow'' \<or> frAction r = ''deny'' then
        (if port = [] \<or> \<not> MatchString port_re port then None
         else if frFrom r \<noteq> [] then
           (if \<not> MatchString source_re (frFrom r) then None
            else Some ([frAction r, ''from'', frFrom r, ''to'', ''any'', ''port'', hd (split_at CHR ''/'' port)] @
                       (case cut_at CHR ''/'' port of None \<Rightarrow> [] | Some _ \<Rightarrow> [''proto'', split_at CHR ''/'' port ! 1])))
         else Some [frAction r, port])
      else if frAction r = ''delete'' then (if frRule r < 1 then None else Some [''--force'', ''delete'', show_int (frRule r)])
      else None)"

datatype firewall_answer =
    BadRequest
  | FirewallTable firewall_request
  | Ufw "command_refusal + string \<times> string list"

definition SetRule :: "bool \<Rightarrow> firewall_request \<Rightarrow> firewall_answer" where
  "SetRule nixos r =
     (if nixos then FirewallTable r
      else case firewall_args r of None \<Rightarrow> BadRequest | Some args \<Rightarrow> Ufw (runInternal ''ufw'' args))"

lemma runInternal_ufw: "runInternal ''ufw'' args = (if validateUfw args then Inr (''ufw'', args) else Inl Unauthorized)"
  by (simp add: runInternal_def ufw_entry ValidateCommand_def validator_of_def)

lemma digits_no_slash: "ds \<in> lang (plus_of (Class digit_chars)) \<Longrightarrow> CHR ''/'' \<notin> set ds \<and> ds \<noteq> []"
  by (auto simp: lang_some char_class_defs)

text \<open>The text of a port: its number and what follows it.\<close>

lemma port_text:
  assumes "MatchString port_re p"
  obtains ds t where "p = ds @ t" "ds \<in> lang (plus_of (Class digit_chars))" "t = [] \<or> (\<exists>pr. t = ''/'' @ pr \<and> pr \<in> lang proto_re)"
proof -
  obtain ds t where p: "p = ds @ t" "ds \<in> lang (plus_of (Class digit_chars))" "t = [] \<or> t = ''/tcp'' \<or> t = ''/udp''"
    using assms unfolding MatchString_iff port_re_def lang_seqs_Cons [of _ "plus_of r" for r] seqs_one lang_opt lang_alts by auto
  have "t = [] \<or> (\<exists>pr. t = ''/'' @ pr \<and> pr \<in> lang proto_re)" using p(3) by (auto simp: proto_re_def simp del: lang.simps)
  then show thesis using that p(1,2) by blast
qed

lemma space_in: "'' '' \<in> lang spaces_re"
  by (simp add: spaces_re_def lang_some space_chars_def del: lang.simps)

lemma action_in: "a = ''allow'' \<or> a = ''deny'' \<Longrightarrow> a \<in> lang (alts [lit ''allow'', lit ''deny''])"
  by (auto simp del: lang.simps)

lemma ufw_port_line:
  assumes "ds \<in> lang (plus_of (Class digit_chars))" "t = [] \<or> (\<exists>pr. t = ''/'' @ pr \<and> pr \<in> lang proto_re)"
    "a = ''allow'' \<or> a = ''deny''"
  shows "MatchString ufw_port_re (a @ '' '' @ ds @ t)"
proof -
  have "t \<in> lang (opt (seqs [lit ''/'', proto_re]))" using assms(2) unfolding lang_opt seqs_lit seqs_one by blast
  then have "concat [[], a, '' '', ds, t] \<in> lang ufw_port_re"
    unfolding ufw_port_re_def
    by (intro seqs_pieces) (use assms(1) action_in [OF assms(3)] space_in in \<open>simp add: force_re_def del: lang.simps\<close>)
  then show ?thesis by (simp add: MatchString_iff)
qed

lemma ufw_from_line:
  assumes "ds \<in> lang (plus_of (Class digit_chars))" "src \<in> lang source_re" "t = [] \<or> (\<exists>pr. t = '' proto '' @ pr \<and> pr \<in> lang proto_re)"
    "a = ''allow'' \<or> a = ''deny''"
  shows "MatchString ufw_from_re (a @ '' from '' @ src @ '' to any port '' @ ds @ t)"
proof -
  have "t \<in> lang (opt (seqs [spaces_re, lit ''proto'', spaces_re, proto_re]))"
  proof (cases "t = []")
    case False
    then obtain pr where t: "t = concat ['' '', ''proto'', '' '', pr]" "pr \<in> lang proto_re" using assms(3) by auto
    have "concat ['' '', ''proto'', '' '', pr] \<in> lang (seqs [spaces_re, lit ''proto'', spaces_re, proto_re])"
      by (intro seqs_pieces) (use t(2) space_in in \<open>simp del: lang.simps\<close>)
    then show ?thesis using t(1) by (simp del: lang.simps)
  qed (simp del: lang.simps)
  then have "concat [[], a, '' '', ''from'', '' '', src, '' '', ''to'', '' '', ''any'', '' '', ''port'', '' '', ds, t] \<in> lang ufw_from_re"
    unfolding ufw_from_re_def
    by (intro seqs_pieces)
      (use assms(1,2) action_in [OF assms(4)] space_in in \<open>simp add: force_re_def source_re_def del: lang.simps\<close>)
  then show ?thesis by (simp add: MatchString_iff)
qed

lemma cut_at_append: "d \<notin> set w \<Longrightarrow> cut_at d (w @ d # s) = Some (w, s)"
  by (induction w) auto

lemma cut_at_absent: "d \<notin> set w \<Longrightarrow> cut_at d w = None"
  by (induction w) auto

lemma proto_no_slash: "pr \<in> lang proto_re \<Longrightarrow> CHR ''/'' \<notin> set pr"
  by (auto simp: proto_re_def simp del: lang.simps)

lemma rule_args_accepted:
  assumes "firewall_args r = Some args" "frAction r \<in> {''disable'', ''allow'', ''deny''}"
  shows "validateUfw args"
proof (cases "frAction r = ''disable''")
  case True
  then show ?thesis using assms by (auto simp: firewall_args_def validateUfw_def Let_def)
next
  case False
  then have act: "frAction r = ''allow'' \<or> frAction r = ''deny''" using assms(2) by simp
  define p where "p = asked_port r"
  have port: "MatchString port_re p" using assms(1) act by (auto simp: firewall_args_def p_def Let_def split: if_splits)
  then obtain ds t where p: "p = ds @ t" "ds \<in> lang (plus_of (Class digit_chars))" "t = [] \<or> (\<exists>pr. t = ''/'' @ pr \<and> pr \<in> lang proto_re)"
    by (rule port_text)
  note ds = digits_no_slash [OF p(2)]
  show ?thesis
  proof (cases "frFrom r = []")
    case True
    then have "args = [frAction r, p]" using assms(1) act by (auto simp: firewall_args_def p_def Let_def split: if_splits)
    then show ?thesis using ufw_port_line [OF p(2,3) act] act p(1) by (auto simp: validateUfw_def simp del: MatchString.simps)
  next
    case False
    then have src: "frFrom r \<in> lang source_re" using assms(1) act by (auto simp: firewall_args_def MatchString_iff Let_def split: if_splits)
    have args: "args = [frAction r, ''from'', frFrom r, ''to'', ''any'', ''port'', hd (split_at CHR ''/'' p)] @
                       (case cut_at CHR ''/'' p of None \<Rightarrow> [] | Some _ \<Rightarrow> [''proto'', split_at CHR ''/'' p ! 1])"
      unfolding p_def using assms(1) act False by (auto simp: firewall_args_def Let_def split: if_splits)
    obtain u where u: "join_with '' '' args = frAction r @ '' from '' @ frFrom r @ '' to any port '' @ ds @ u"
        "u = [] \<or> (\<exists>pr. u = '' proto '' @ pr \<and> pr \<in> lang proto_re)"
      using p(3)
    proof
      assume "t = []"
      then have "cut_at CHR ''/'' p = None" "split_at CHR ''/'' p = [ds]" using p(1) ds by (simp_all add: cut_at_absent split_at_whole)
      then show thesis using that [of "[]"] args by simp
    next
      assume "\<exists>pr. t = ''/'' @ pr \<and> pr \<in> lang proto_re"
      then obtain pr where pr: "p = ds @ CHR ''/'' # pr" "pr \<in> lang proto_re" using p(1) by auto
      then have "cut_at CHR ''/'' p \<noteq> None" "split_at CHR ''/'' p = [ds, pr]"
        using ds proto_no_slash by (simp_all add: cut_at_append split_at_piece split_at_whole)
      then show thesis using that [of "'' proto '' @ pr"] args pr(2) by auto
    qed
    have "args ! 0 = frAction r" "args \<noteq> []" using args by simp_all
    then show ?thesis using ufw_from_line [OF p(2) src u(2) act] act u(1) by (auto simp: validateUfw_def simp del: MatchString.simps)
  qed
qed

text \<open>
  C29. Where the firewall handler runs \<open>ufw\<close> (not on NixOS, where it changes a table of its own and runs nothing), the
  commands to enable the firewall and to delete a rule are always refused by the whitelist; those that allow, deny and
  disable are run as they are.
\<close>

theorem firewall_outcome:
  assumes "firewall_args r = Some args"
  shows "SetRule False r = Ufw (if frAction r \<in> {''enable'', ''delete''} then Inl Unauthorized else Inr (''ufw'', args))"
proof (cases "frAction r \<in> {''enable'', ''delete''}")
  case True
  then have "args ! 0 = ''--force''" using assms by (auto simp: firewall_args_def Let_def split: if_splits)
  then show ?thesis using True assms by (simp add: SetRule_def runInternal_ufw validateUfw_def Let_def)
next
  case False
  then have "frAction r \<in> {''disable'', ''allow'', ''deny''}" using assms by (auto simp: firewall_args_def Let_def split: if_splits)
  then show ?thesis using rule_args_accepted [OF assms] False assms by (simp add: SetRule_def runInternal_ufw)
qed


lemma firewall_outcome_witness:
  "SetRule False \<lparr>frAction = ''enable'', frPort = [], frProto = [], frFrom = [], frRule = 0\<rparr> = Ufw (Inl Unauthorized)"
proof -
  have "firewall_args \<lparr>frAction = ''enable'', frPort = [], frProto = [], frFrom = [], frRule = 0\<rparr> = Some [''--force'', ''enable'']"
    by (simp add: firewall_args_def)
  from firewall_outcome [OF this] show ?thesis by simp
qed

text \<open>The values of \<open>-addext\<close> are not checked: the flag itself is a fixed argument.\<close>

lemma any_extension_accepted:
  "ValidateCommand ''openssl'' [''req'', ''-addext'', ''basicConstraints=CA:TRUE''] = None"
proof -
  have "IsSafeFilename ''basicConstraints=CA:TRUE''" by (simp add: IsSafeFilename_def has_prefix_def)
  then show ?thesis
    by (simp add: ValidateCommand_def CommandWhitelist_def table_defs validator_of_def openssl_args_def path_or_file_def has_prefix_def del: MatchString.simps)
qed

text \<open>A relative path passes for a path below an allowed directory.\<close>

lemma relative_path_removed: "ValidateCommand ''rm_recursive'' [''-rf'', ''tmp/x''] = None"
proof -
  have "IsValidPath ''tmp/x''"
    by (simp add: IsValidPath_def Clean_def has_prefix_def contains_any_def line_breaks_def drive_letter_def AllowedBasePaths_def Let_def)
  then show ?thesis
    by (simp add: ValidateCommand_def CommandWhitelist_def table_defs validator_of_def validatePathBasedCommand_def has_prefix_def)
qed

end
