(* ===== verification/OneTime.thy ===== *)
theory OneTime
  imports GoText
begin

text \<open>
  Stores of one-time tokens: the contract of the confirmation tokens (\<open>security/confirm.go\<close>) and of the tickets of
  event streams (\<open>handlers/sse_ticket.go\<close>). A token is issued for a request and presented for a use; its entry has a
  deadline and is spent by the first use that is accepted.
\<close>

datatype ('q, 'p) token_event = Issue time string 'q | Present time string 'p

text \<open>What a sequence of events lets through: the token, the time, the use and the entry it was accepted with.\<close>

primrec passes ::
  "(time \<Rightarrow> string \<Rightarrow> 'q \<Rightarrow> (string \<Rightarrow> 'e option) \<Rightarrow> string \<Rightarrow> 'e option) \<Rightarrow>
   (time \<Rightarrow> string \<Rightarrow> 'p \<Rightarrow> (string \<Rightarrow> 'e option) \<Rightarrow> 'e option \<times> (string \<Rightarrow> 'e option)) \<Rightarrow>
   (string \<Rightarrow> 'e option) \<Rightarrow> ('q, 'p) token_event list \<Rightarrow> (string \<times> time \<times> 'p \<times> 'e) list" where
  "passes issue present m [] = []"
| "passes issue present m (ev # evs) =
     (case ev of
        Issue now t q \<Rightarrow> passes issue present (issue now t q m) evs
      | Present now t p \<Rightarrow>
          (case present now t p m of
             (None, m') \<Rightarrow> passes issue present m' evs
           | (Some e, m') \<Rightarrow> (t, now, p, e) # passes issue present m' evs))"

text \<open>The requests a token was issued for, with their times.\<close>

fun issues :: "string \<Rightarrow> ('q, 'p) token_event list \<Rightarrow> (time \<times> 'q) list" where
  "issues t [] = []"
| "issues t (Issue now u q # evs) = (if u = t then (now, q) # issues t evs else issues t evs)"
| "issues t (Present now u p # evs) = issues t evs"

locale one_time =
  fixes issue :: "time \<Rightarrow> string \<Rightarrow> 'q \<Rightarrow> (string \<Rightarrow> 'e option) \<Rightarrow> string \<Rightarrow> 'e option"
    and present :: "time \<Rightarrow> string \<Rightarrow> 'p \<Rightarrow> (string \<Rightarrow> 'e option) \<Rightarrow> 'e option \<times> (string \<Rightarrow> 'e option)"
    and entry_of :: "time \<Rightarrow> 'q \<Rightarrow> 'e"
    and fits :: "time \<Rightarrow> 'p \<Rightarrow> 'e \<Rightarrow> bool"
  assumes issue_new: "issue now t q m u = Some f \<Longrightarrow> m u = Some f \<or> u = t \<and> f = entry_of now q"
    and present_keeps: "snd (present now t p m) u = Some f \<Longrightarrow> m u = Some f"
    and present_spent: "fst (present now t p m) = Some e \<Longrightarrow> m t = Some e \<and> fits now p e \<and> snd (present now t p m) t = None"
begin

text \<open>Every accepted token carries the entry of a request it was issued for, or one of the store at the start.\<close>

lemma passes_issued:
  "(t, now, p, e) \<in> set (passes issue present m evs) \<Longrightarrow>
   fits now p e \<and> (m t = Some e \<or> (\<exists>(at, q) \<in> set (issues t evs). e = entry_of at q))"
proof (induction evs arbitrary: m)
  case (Cons ev evs)
  show ?case
  proof (cases ev)
    case (Issue n u q)
    then have "fits now p e \<and> (issue n u q m t = Some e \<or> (\<exists>(at, q) \<in> set (issues t evs). e = entry_of at q))"
      using Cons.IH [of "issue n u q m"] Cons.prems by simp
    then show ?thesis using issue_new [of n u q m t e] Issue by auto
  next
    case (Present n u x)
    obtain r m' where r: "present n u x m = (r, m')" by fastforce
    have "(t, now, p, e) \<in> set (passes issue present m' evs) \<or> (r = Some e \<and> t = u \<and> now = n \<and> p = x)"
      using Cons.prems Present r by (auto split: option.splits)
    then show ?thesis
      using Cons.IH [of m'] present_keeps [of n u x m t e] present_spent [of n u x m e] Present r by auto
  qed
qed simp

text \<open>A token is accepted at most as often as it was issued.\<close>

lemma passes_count:
  "length (filter (\<lambda>a. fst a = t) (passes issue present m evs)) \<le> length (issues t evs) + (if m t = None then 0 else 1)"
proof (induction evs arbitrary: m)
  case (Cons ev evs)
  show ?case
  proof (cases ev)
    case (Issue n u q)
    have "t \<noteq> u \<Longrightarrow> issue n u q m t \<noteq> None \<Longrightarrow> m t \<noteq> None" using issue_new [of n u q m t] by auto
    then show ?thesis using Cons.IH [of "issue n u q m"] Issue by (cases "t = u") (auto split: if_splits)
  next
    case (Present n u x)
    obtain r m' where r: "present n u x m = (r, m')" by fastforce
    have "m' t \<noteq> None \<Longrightarrow> m t \<noteq> None" using present_keeps [of n u x m t] r by auto
    moreover have "r \<noteq> None \<Longrightarrow> m u \<noteq> None \<and> m' u = None" using present_spent [of n u x m] r by auto
    ultimately show ?thesis using Cons.IH [of m'] Present r
      by (cases "t = u") (auto split: option.splits if_splits)
  qed
qed simp

end

end
