(* ===== verification/Access.thy ===== *)
theory Access
  imports OneTime
begin

text \<open>
  Who may do what: the tables of users, sessions, API tokens, roles and permissions, the permission cache and the
  operations on roles (\<open>security/rbac.go\<close>, \<open>rbac_roles.go\<close>, and the role assignments of \<open>handlers/ldap.go\<close> and
  \<open>handlers/oidc.go\<close>).
  The tables are lists of rows; a statement that may fail has a flag among the arguments that tells whether it does.
  Hashing (\<open>HashToken\<close>, SHA-256) is a parameter. The order of the rows of a query plays no role and is left out, and
  so are display names.
\<close>

section \<open>Tables and caches\<close>

record account =
  uaID :: int
  uaName :: string
  uaActive :: int
  uaMustChange :: int

record session_row =
  swKey :: string
  swName :: string
  swExpires :: "int option"
  swActivity :: int
  swStatus :: string
  swAAL :: "int option"
  swCSRF :: string

record api_token =
  atHash :: string
  atUser :: int
  atScopes :: string
  atRules :: string
  atExpires :: "time option"

record permission =
  pmID :: int
  pmResource :: string
  pmAction :: string

record role_row =
  rlID :: int
  rlName :: string
  rlSystem :: bool

record user_role =
  urUser :: int
  urRole :: int
  urBy :: string
  urExpires :: "time option"

record access_db =
  adUsers :: "account list"
  adSessions :: "session_row list"
  adTokens :: "api_token list"
  adPermissions :: "permission list"
  adRoles :: "role_row list"
  adRolePermissions :: "(int \<times> int) list"
  adUserRoles :: "user_role list"

text \<open>\<open>PermissionCache\<close>: both maps share the time of the last update.\<close>

record perm_cache =
  pcPermissions :: "int \<Rightarrow> permission list option"
  pcRoles :: "int \<Rightarrow> role_row list option"
  pcLast :: "int \<Rightarrow> time option"

record access =
  acDB :: access_db
  acCache :: perm_cache

definition cache_ttl :: duration where
  "cache_ttl = 300000000000"

definition GetPermissions :: "perm_cache \<Rightarrow> time \<Rightarrow> int \<Rightarrow> permission list option" where
  "GetPermissions c now u =
     (case pcLast c u of
        None \<Rightarrow> None
      | Some t \<Rightarrow> if cache_ttl < now - t then None else pcPermissions c u)"

definition SetPermissions :: "time \<Rightarrow> int \<Rightarrow> permission list \<Rightarrow> perm_cache \<Rightarrow> perm_cache" where
  "SetPermissions now u ps c = c\<lparr>pcPermissions := (pcPermissions c)(u \<mapsto> ps), pcLast := (pcLast c)(u \<mapsto> now)\<rparr>"

definition GetRoles :: "perm_cache \<Rightarrow> time \<Rightarrow> int \<Rightarrow> role_row list option" where
  "GetRoles c now u =
     (case pcLast c u of
        None \<Rightarrow> None
      | Some t \<Rightarrow> if cache_ttl < now - t then None else pcRoles c u)"

definition SetRoles :: "time \<Rightarrow> int \<Rightarrow> role_row list \<Rightarrow> perm_cache \<Rightarrow> perm_cache" where
  "SetRoles now u rs c = c\<lparr>pcRoles := (pcRoles c)(u \<mapsto> rs), pcLast := (pcLast c)(u \<mapsto> now)\<rparr>"

definition Invalidate :: "int \<Rightarrow> perm_cache \<Rightarrow> perm_cache" where
  "Invalidate u c =
     c\<lparr>pcPermissions := (pcPermissions c)(u := None), pcRoles := (pcRoles c)(u := None), pcLast := (pcLast c)(u := None)\<rparr>"

definition InvalidateAll :: "perm_cache \<Rightarrow> perm_cache" where
  "InvalidateAll c = \<lparr>pcPermissions = (\<lambda>_. None), pcRoles = (\<lambda>_. None), pcLast = (\<lambda>_. None)\<rparr>"

section \<open>Permissions of a user\<close>

text \<open>\<open>ur.expires_at IS NULL OR ur.expires_at > NOW()\<close>\<close>

definition in_force :: "time \<Rightarrow> user_role \<Rightarrow> bool" where
  "in_force now r \<longleftrightarrow> (case urExpires r of None \<Rightarrow> True | Some e \<Rightarrow> now < e)"

definition holds_role :: "access_db \<Rightarrow> time \<Rightarrow> int \<Rightarrow> int \<Rightarrow> bool" where
  "holds_role db now u r \<longleftrightarrow> list_ex (\<lambda>x. urUser x = u \<and> urRole x = r \<and> in_force now x) (adUserRoles db)"

definition loadUserPermissions :: "access_db \<Rightarrow> time \<Rightarrow> int \<Rightarrow> permission list" where
  "loadUserPermissions db now u =
     filter (\<lambda>p. list_ex (\<lambda>(r, q). q = pmID p \<and> holds_role db now u r) (adRolePermissions db)) (adPermissions db)"

definition grants :: "permission list \<Rightarrow> string \<Rightarrow> string \<Rightarrow> bool" where
  "grants ps res act \<longleftrightarrow>
     list_ex (\<lambda>p. pmResource p = res \<and> pmAction p = act \<or> pmResource p = res \<and> pmAction p = ''*'' \<or>
                  pmResource p = ''*'' \<and> pmAction p = ''*'') ps"

text \<open>The answer, nothing for an error, and the state after it. User 1 has every permission.\<close>

definition UserHasPermission :: "bool \<Rightarrow> time \<Rightarrow> int \<Rightarrow> string \<Rightarrow> string \<Rightarrow> access \<Rightarrow> bool option \<times> access" where
  "UserHasPermission ok now u res act s =
     (if u = 1 then (Some True, s)
      else case GetPermissions (acCache s) now u of
        Some ps \<Rightarrow> (Some (grants ps res act), s)
      | None \<Rightarrow>
          if \<not> ok then (None, s)
          else let ps = loadUserPermissions (acDB s) now u in
               (Some (grants ps res act), s\<lparr>acCache := SetPermissions now u ps (acCache s)\<rparr>))"

fun UserHasAnyPermission :: "bool \<Rightarrow> time \<Rightarrow> int \<Rightarrow> (string \<times> string) list \<Rightarrow> access \<Rightarrow> bool option \<times> access" where
  "UserHasAnyPermission ok now u [] s = (Some False, s)"
| "UserHasAnyPermission ok now u ((res, act) # ps) s =
     (case UserHasPermission ok now u res act s of
        (None, s1) \<Rightarrow> (None, s1)
      | (Some True, s1) \<Rightarrow> (Some True, s1)
      | (Some False, s1) \<Rightarrow> UserHasAnyPermission ok now u ps s1)"

fun UserHasAllPermissions :: "bool \<Rightarrow> time \<Rightarrow> int \<Rightarrow> (string \<times> string) list \<Rightarrow> access \<Rightarrow> bool option \<times> access" where
  "UserHasAllPermissions ok now u [] s = (Some True, s)"
| "UserHasAllPermissions ok now u ((res, act) # ps) s =
     (case UserHasPermission ok now u res act s of
        (None, s1) \<Rightarrow> (None, s1)
      | (Some True, s1) \<Rightarrow> UserHasAllPermissions ok now u ps s1
      | (Some False, s1) \<Rightarrow> (Some False, s1))"

definition role_named :: "access_db \<Rightarrow> string \<Rightarrow> role_row option" where
  "role_named db n = List.find (\<lambda>r. rlName r = n) (adRoles db)"

definition GetRoleByID :: "access_db \<Rightarrow> int \<Rightarrow> role_row option" where
  "GetRoleByID db r = List.find (\<lambda>x. rlID x = r) (adRoles db)"

definition UserHasRole :: "access_db \<Rightarrow> time \<Rightarrow> int \<Rightarrow> string \<Rightarrow> bool" where
  "UserHasRole db now u n \<longleftrightarrow> list_ex (\<lambda>r. rlName r = n \<and> holds_role db now u (rlID r)) (adRoles db)"

definition GetUserRoles :: "bool \<Rightarrow> time \<Rightarrow> int \<Rightarrow> access \<Rightarrow> role_row list option \<times> access" where
  "GetUserRoles ok now u s =
     (case GetRoles (acCache s) now u of
        Some rs \<Rightarrow> (Some rs, s)
      | None \<Rightarrow>
          if \<not> ok then (None, s)
          else let rs = filter (\<lambda>r. holds_role (acDB s) now u (rlID r)) (adRoles (acDB s)) in
               (Some rs, s\<lparr>acCache := SetRoles now u rs (acCache s)\<rparr>))"

section \<open>Changing roles\<close>

text \<open>The first component tells whether the operation succeeded; \<open>ok n\<close> whether its statement \<open>n\<close> does.\<close>

definition CreateRole :: "(nat \<Rightarrow> bool) \<Rightarrow> int \<Rightarrow> string \<Rightarrow> access \<Rightarrow> bool \<times> access" where
  "CreateRole ok new n s =
     (if \<not> ok 0 \<or> role_named (acDB s) n \<noteq> None then (False, s)
      else (ok 1, s\<lparr>acDB := (acDB s)\<lparr>adRoles := adRoles (acDB s) @ [\<lparr>rlID = new, rlName = n, rlSystem = False\<rparr>]\<rparr>\<rparr>))"

text \<open>A deleted role takes its permissions and its holders along (\<open>ON DELETE CASCADE\<close>).\<close>

definition drop_role :: "int \<Rightarrow> access_db \<Rightarrow> access_db" where
  "drop_role r db =
     db\<lparr>adRoles := filter (\<lambda>x. rlID x \<noteq> r) (adRoles db),
        adRolePermissions := filter (\<lambda>x. fst x \<noteq> r) (adRolePermissions db),
        adUserRoles := filter (\<lambda>x. urRole x \<noteq> r) (adUserRoles db)\<rparr>"

definition DeleteRole :: "(nat \<Rightarrow> bool) \<Rightarrow> int \<Rightarrow> access \<Rightarrow> bool \<times> access" where
  "DeleteRole ok r s =
     (case GetRoleByID (acDB s) r of
        None \<Rightarrow> (False, s)
      | Some x \<Rightarrow>
          if \<not> ok 0 \<or> rlSystem x \<or> \<not> ok 1 then (False, s) else (True, s\<lparr>acDB := drop_role r (acDB s)\<rparr>))"

definition may_edit :: "(nat \<Rightarrow> bool) \<Rightarrow> int \<Rightarrow> access \<Rightarrow> bool" where
  "may_edit ok r s \<longleftrightarrow> ok 0 \<and> (case GetRoleByID (acDB s) r of None \<Rightarrow> False | Some x \<Rightarrow> rlName x \<noteq> ''admin'')"

definition with_role_permissions :: "((int \<times> int) list \<Rightarrow> (int \<times> int) list) \<Rightarrow> access \<Rightarrow> access" where
  "with_role_permissions f s =
     s\<lparr>acDB := (acDB s)\<lparr>adRolePermissions := f (adRolePermissions (acDB s))\<rparr>, acCache := InvalidateAll (acCache s)\<rparr>"

definition AssignPermissionToRole :: "(nat \<Rightarrow> bool) \<Rightarrow> int \<Rightarrow> int \<Rightarrow> access \<Rightarrow> bool \<times> access" where
  "AssignPermissionToRole ok r p s =
     (if \<not> may_edit ok r s \<or> \<not> ok 1 \<or> p \<notin> pmID ` set (adPermissions (acDB s)) then (False, s)
      else (True, with_role_permissions (List.insert (r, p)) s))"

definition RemovePermissionFromRole :: "(nat \<Rightarrow> bool) \<Rightarrow> int \<Rightarrow> int \<Rightarrow> access \<Rightarrow> bool \<times> access" where
  "RemovePermissionFromRole ok r p s =
     (if \<not> may_edit ok r s \<or> \<not> ok 1 then (False, s) else (True, with_role_permissions (filter (\<lambda>x. x \<noteq> (r, p))) s))"

text \<open>The permissions a role is given, as texts \<open>resource:action\<close>: all of them exist or nothing is changed.\<close>

definition permission_id :: "access_db \<Rightarrow> string \<Rightarrow> int option" where
  "permission_id db p =
     (case cut_at CHR '':'' (trim_space p) of
        None \<Rightarrow> None
      | Some (res, act) \<Rightarrow> map_option pmID (List.find (\<lambda>x. pmResource x = res \<and> pmAction x = act) (adPermissions db)))"

definition SetRolePermissions :: "(nat \<Rightarrow> bool) \<Rightarrow> int \<Rightarrow> string list \<Rightarrow> access \<Rightarrow> bool \<times> access" where
  "SetRolePermissions ok r perms s =
     (let ids = map (permission_id (acDB s)) perms in
      if \<not> may_edit ok r s \<or> \<not> ok 1 \<or> None \<in> set ids then (False, s)
      else (True, with_role_permissions (\<lambda>rp. filter (\<lambda>x. fst x \<noteq> r) rp @ map (\<lambda>i. (r, the i)) (remdups ids)) s))"

definition put_user_role :: "user_role \<Rightarrow> user_role list \<Rightarrow> user_role list" where
  "put_user_role x xs = filter (\<lambda>y. \<not> (urUser y = urUser x \<and> urRole y = urRole x)) xs @ [x]"

definition with_user_roles :: "int \<Rightarrow> (user_role list \<Rightarrow> user_role list) \<Rightarrow> access \<Rightarrow> access" where
  "with_user_roles u f s =
     s\<lparr>acDB := (acDB s)\<lparr>adUserRoles := f (adUserRoles (acDB s))\<rparr>, acCache := Invalidate u (acCache s)\<rparr>"

definition AssignRoleToUser :: "(nat \<Rightarrow> bool) \<Rightarrow> int \<Rightarrow> int \<Rightarrow> int option \<Rightarrow> time option \<Rightarrow> access \<Rightarrow> bool \<times> access" where
  "AssignRoleToUser ok u r by_user expires s =
     (if \<not> ok 0 \<or> u \<notin> uaID ` set (adUsers (acDB s)) \<or> GetRoleByID (acDB s) r = None then (False, s)
      else (True, with_user_roles u (put_user_role
              \<lparr>urUser = u, urRole = r, urBy = (case by_user of None \<Rightarrow> ''system'' | Some g \<Rightarrow> show_int g), urExpires = expires\<rparr>) s))"

definition RemoveRoleFromUser :: "(nat \<Rightarrow> bool) \<Rightarrow> int \<Rightarrow> int \<Rightarrow> access \<Rightarrow> bool \<times> access" where
  "RemoveRoleFromUser ok u r s =
     (if \<not> ok 0 then (False, s) else (True, with_user_roles u (filter (\<lambda>x. \<not> (urUser x = u \<and> urRole x = r))) s))"

definition rbacName :: "string \<Rightarrow> string" where
  "rbacName r = (if r = ''readonly'' then ''viewer'' else r)"

text \<open>The role chosen on the page of users: the previous one goes, a role already held stays as it is.\<close>

definition without_primary :: "access_db \<Rightarrow> int \<Rightarrow> string \<Rightarrow> string \<Rightarrow> user_role list" where
  "without_primary db u old new =
     (if old \<noteq> [] \<and> rbacName old \<noteq> rbacName new then
        filter (\<lambda>x. \<not> (urUser x = u \<and> Some (urRole x) = map_option rlID (role_named db (rbacName old)))) (adUserRoles db)
      else adUserRoles db)"

definition SetPrimaryRole :: "(nat \<Rightarrow> bool) \<Rightarrow> int \<Rightarrow> string \<Rightarrow> string \<Rightarrow> access \<Rightarrow> bool \<times> access" where
  "SetPrimaryRole ok u old new s =
     (let db = acDB s; left = without_primary db u old new in
      case role_named db (rbacName new) of
        None \<Rightarrow> (False, s)
      | Some r \<Rightarrow>
          (if \<not> ok 0 \<or> u \<notin> uaID ` set (adUsers db) then (False, s)
           else (True, with_user_roles u (\<lambda>_.
             if list_ex (\<lambda>x. urUser x = u \<and> urRole x = rlID r) left then left
             else left @ [\<lparr>urUser = u, urRole = rlID r, urBy = ''users-page'', urExpires = None\<rparr>]) s)))"

text \<open>\<open>ON CONFLICT DO NOTHING\<close>\<close>

definition add_user_role :: "user_role \<Rightarrow> user_role list \<Rightarrow> user_role list" where
  "add_user_role x xs = (if list_ex (\<lambda>y. urUser y = urUser x \<and> urRole y = urRole x) xs then xs else xs @ [x])"

text \<open>
  The roles a directory grants. \<open>applyLDAPRoles\<close> works in one transaction and drops the cached permissions; \<open>who\<close> is the
  directory's user with that name, if there is one.
\<close>

definition ldap_roles :: "int \<Rightarrow> int list \<Rightarrow> user_role list \<Rightarrow> user_role list" where
  "ldap_roles u ids xs =
     fold (\<lambda>i. add_user_role \<lparr>urUser = u, urRole = i, urBy = ''ldap'', urExpires = None\<rparr>) ids
       (filter (\<lambda>x. \<not> (urUser x = u \<and> urBy x = ''ldap'' \<and> urRole x \<notin> set ids)) xs)"

definition applyLDAPRoles :: "(nat \<Rightarrow> bool) \<Rightarrow> int option \<Rightarrow> string list \<Rightarrow> access \<Rightarrow> bool \<times> access" where
  "applyLDAPRoles ok who names s =
     (case who of
        None \<Rightarrow> (False, s)
      | Some u \<Rightarrow>
          (let found = map (role_named (acDB s)) names in
           if \<not> ok 0 \<or> None \<in> set found then (False, s)
           else (True, with_user_roles u (ldap_roles u (map (rlID \<circ> the) found)) s)))"

text \<open>
  \<open>assignRoles\<close> of a login with OpenID Connect: a statement for each group, and a last one that revokes what the
  provider granted before. Nothing here touches the cache. A statement that adds a role may fail unnoticed.
\<close>

definition put_roles :: "(user_role list \<Rightarrow> user_role list) \<Rightarrow> access \<Rightarrow> access" where
  "put_roles f s = s\<lparr>acDB := (acDB s)\<lparr>adUserRoles := f (adUserRoles (acDB s))\<rparr>\<rparr>"

fun grant_groups :: "(nat \<Rightarrow> bool) \<Rightarrow> nat \<Rightarrow> int \<Rightarrow> string list \<Rightarrow> int list \<Rightarrow> access \<Rightarrow> int list option \<times> access" where
  "grant_groups ok i u [] want s = (Some want, s)"
| "grant_groups ok i u (g # gs) want s =
     (if \<not> ok (2 * i) then (None, s)
      else case role_named (acDB s) g of
        None \<Rightarrow> grant_groups ok (Suc i) u gs want s
      | Some r \<Rightarrow>
          grant_groups ok (Suc i) u gs (want @ [rlID r])
            (if ok (2 * i + 1) \<and> u \<in> uaID ` set (adUsers (acDB s))
             then put_roles (add_user_role \<lparr>urUser = u, urRole = rlID r, urBy = ''oidc-provider'', urExpires = None\<rparr>) s else s))"

definition assignRoles :: "(nat \<Rightarrow> bool) \<Rightarrow> int \<Rightarrow> string list \<Rightarrow> access \<Rightarrow> bool \<times> access" where
  "assignRoles ok u groups s =
     (case grant_groups ok 0 u groups [] s of
        (None, s1) \<Rightarrow> (False, s1)
      | (Some want, s1) \<Rightarrow>
          if \<not> ok (2 * length groups) then (False, s1)
          else (True, put_roles (filter (\<lambda>x. \<not> (urUser x = u \<and> urBy x = ''oidc-provider'' \<and> urRole x \<notin> set want))) s1))"

definition InvalidateUserPermissions :: "int \<Rightarrow> access \<Rightarrow> access" where
  "InvalidateUserPermissions u s = s\<lparr>acCache := Invalidate u (acCache s)\<rparr>"

text \<open>The defaults of the built-in roles.\<close>

definition BuiltinRolePermissions :: "(string \<times> (string \<Rightarrow> string \<Rightarrow> bool)) list" where
  "BuiltinRolePermissions =
     [(''operator'', \<lambda>res act. res \<noteq> ''users'' \<and> res \<noteq> ''roles'' \<and> \<not> (res = ''system'' \<and> act = ''admin'')),
      (''user'', \<lambda>res act.
         if res = ''files'' then act = ''read'' \<or> act = ''write''
         else res \<in> set [''storage'', ''shares'', ''snapshots'', ''docker'', ''monitoring''] \<and> act = ''read''),
      (''viewer'', \<lambda>res act. act = ''read'' \<and> res \<noteq> ''audit'')]"

end
