(* ===== verification/AccessGate.thy ===== *)
theory AccessGate
  imports Access
begin

text \<open>
  The checks every request passes (\<open>security/session.go\<close>, \<open>middleware/\<close>, \<open>cmd/dplaned/main.go\<close> and
  \<open>confirm_middleware.go\<close>): sessions, API tokens, tickets, the CSRF token, permissions, the second factor, the
  confirmation of destructive operations, and the limit of requests per client.
\<close>

section \<open>Sessions\<close>

definition unix :: "time \<Rightarrow> int" where
  "unix now = now div 1000000000"

definition idle_timeout :: int where
  "idle_timeout = 30 * 60"

definition not_expired :: "time \<Rightarrow> session_row \<Rightarrow> bool" where
  "not_expired now r \<longleftrightarrow> (case swExpires r of None \<Rightarrow> True | Some e \<Rightarrow> unix now < e)"

definition session_valid :: "time \<Rightarrow> string \<Rightarrow> string \<Rightarrow> session_row \<Rightarrow> bool" where
  "session_valid now key name r \<longleftrightarrow>
     swKey r = key \<and> swName r = name \<and> not_expired now r \<and>
     (swActivity r = 0 \<or> unix now - swActivity r < idle_timeout) \<and> swStatus r = ''active''"

text \<open>A valid session is touched.\<close>

definition ValidateSession :: "(string \<Rightarrow> string) \<Rightarrow> bool \<Rightarrow> time \<Rightarrow> string \<Rightarrow> string \<Rightarrow> access \<Rightarrow> bool option \<times> access" where
  "ValidateSession H ok now token name s =
     (if \<not> ok then (None, s)
      else if list_ex (session_valid now (H token) name) (adSessions (acDB s)) then
        (Some True, s\<lparr>acDB := (acDB s)\<lparr>adSessions :=
           map (\<lambda>r. if swKey r = H token then r\<lparr>swActivity := unix now\<rparr> else r) (adSessions (acDB s))\<rparr>\<rparr>)
      else (Some False, s))"

definition GetUserFromSession :: "(string \<Rightarrow> string) \<Rightarrow> time \<Rightarrow> string \<Rightarrow> access_db \<Rightarrow> string option" where
  "GetUserFromSession H now token db =
     map_option swName (List.find (\<lambda>r. swKey r = H token \<and> not_expired now r) (adSessions db))"

definition ValidateUser :: "access_db \<Rightarrow> string \<Rightarrow> bool" where
  "ValidateUser db n \<longleftrightarrow> list_ex (\<lambda>u. uaName u = n \<and> uaActive u = 1) (adUsers db)"

record session_user =
  suID :: int
  suName :: string
  suRules :: string
  suScopes :: string
  suMustChange :: bool
  suAAL :: int

datatype lookup = InvalidSession | LookupFailed | SessionOf session_user

definition live_session :: "time \<Rightarrow> string \<Rightarrow> session_row \<Rightarrow> bool" where
  "live_session now key r \<longleftrightarrow>
     swKey r = key \<and> not_expired now r \<and> swStatus r \<in> {''active'', ''must_change_password''}"

text \<open>The join of a session with its user.\<close>

definition session_join :: "time \<Rightarrow> string \<Rightarrow> access_db \<Rightarrow> (session_row \<times> account) option" where
  "session_join now key db =
     List.find (\<lambda>(r, u). live_session now key r \<and> swName r = uaName u \<and> uaActive u = 1)
       (List.product (adSessions db) (adUsers db))"

definition ValidateSessionAndGetUser :: "(string \<Rightarrow> string) \<Rightarrow> bool \<Rightarrow> time \<Rightarrow> string \<Rightarrow> access_db \<Rightarrow> lookup" where
  "ValidateSessionAndGetUser H ok now token db =
     (if \<not> ok then LookupFailed
      else case session_join now (H token) db of
        None \<Rightarrow> InvalidSession
      | Some (r, u) \<Rightarrow>
          SessionOf \<lparr>suID = uaID u, suName = uaName u, suRules = [], suScopes = [],
            suMustChange = (swStatus r = ''must_change_password''),
            suAAL = max 1 (case swAAL r of None \<Rightarrow> 1 | Some a \<Rightarrow> a)\<rparr>)"

definition token_join :: "string \<Rightarrow> access_db \<Rightarrow> (api_token \<times> account) option" where
  "token_join hash db =
     List.find (\<lambda>(t, u). atHash t = hash \<and> uaID u = atUser t \<and> uaActive u = 1) (List.product (adTokens db) (adUsers db))"

definition ValidateAPITokenAndGetUser :: "(string \<Rightarrow> string) \<Rightarrow> bool \<Rightarrow> time \<Rightarrow> string \<Rightarrow> access_db \<Rightarrow> session_user option" where
  "ValidateAPITokenAndGetUser H ok now token db =
     (if \<not> has_prefix token ''dpl_'' \<or> \<not> ok then None
      else case token_join (H token) db of
        None \<Rightarrow> None
      | Some (t, u) \<Rightarrow>
          if (case atExpires t of None \<Rightarrow> False | Some e \<Rightarrow> e \<le> now) then None
          else Some \<lparr>suID = uaID u, suName = uaName u, suRules = atRules t,
                 suScopes = (if atScopes t = [] then ''read'' else atScopes t), suMustChange = False, suAAL = 0\<rparr>)"

definition GetUserSessions :: "time \<Rightarrow> string \<Rightarrow> access_db \<Rightarrow> session_row list" where
  "GetUserSessions now name db =
     filter (\<lambda>r. swName r = name \<and> swStatus r = ''active'' \<and> not_expired now r) (adSessions db)"

definition RevokeSession :: "string \<Rightarrow> access \<Rightarrow> access" where
  "RevokeSession key s =
     s\<lparr>acDB := (acDB s)\<lparr>adSessions := map (\<lambda>r. if swKey r = key then r\<lparr>swStatus := ''revoked''\<rparr> else r) (adSessions (acDB s))\<rparr>\<rparr>"

section \<open>Scopes and permissions\<close>

definition scopeRank :: "string \<Rightarrow> nat option" where
  "scopeRank a =
     (if a = ''read'' \<or> a = ''list'' then Some 1 else if a = ''write'' then Some 2 else if a = ''admin'' then Some 3 else None)"

definition rank_of :: "string \<Rightarrow> nat" where
  "rank_of s = (case scopeRank s of None \<Rightarrow> 0 | Some r \<Rightarrow> r)"

definition TokenScopeAllows :: "string \<Rightarrow> string \<Rightarrow> bool" where
  "TokenScopeAllows scopes act \<longleftrightarrow>
     (let top = foldl max 0 (map (\<lambda>s. rank_of (trim_space s)) (split_at CHR '','' scopes)) in
      (case scopeRank act of None \<Rightarrow> 3 | Some r \<Rightarrow> r) \<le> top)"

definition TokenReadOnly :: "string \<Rightarrow> bool" where
  "TokenReadOnly scopes \<longleftrightarrow> \<not> TokenScopeAllows scopes ''write''"

text \<open>The user of a request, as the session check leaves it\<close>

record request_user =
  ruID :: int
  ruName :: string
  ruScopes :: string

datatype gate = Through | Status int | Panics

definition RequirePermission :: "bool \<Rightarrow> time \<Rightarrow> request_user option \<Rightarrow> string \<Rightarrow> string \<Rightarrow> access \<Rightarrow> gate \<times> access" where
  "RequirePermission ok now who res act s =
     (case who of
        None \<Rightarrow> (Status 401, s)
      | Some u \<Rightarrow>
          if ruID u = 0 then (Status 401, s)
          else if ruScopes u \<noteq> [] \<and> \<not> TokenScopeAllows (ruScopes u) act then (Status 403, s)
          else case UserHasPermission ok now (ruID u) res act s of
            (None, s1) \<Rightarrow> (Status 500, s1)
          | (Some True, s1) \<Rightarrow> (Through, s1)
          | (Some False, s1) \<Rightarrow> (Status 403, s1))"

text \<open>These three read the user with an assertion that panics where a request has none.\<close>

definition answer_gate :: "bool option \<Rightarrow> gate" where
  "answer_gate x = (case x of None \<Rightarrow> Status 500 | Some True \<Rightarrow> Through | Some False \<Rightarrow> Status 403)"

definition RequireAnyPermission :: "bool \<Rightarrow> time \<Rightarrow> request_user option \<Rightarrow> (string \<times> string) list \<Rightarrow> access \<Rightarrow> gate \<times> access" where
  "RequireAnyPermission ok now who ps s =
     (case who of
        None \<Rightarrow> (Panics, s)
      | Some u \<Rightarrow> map_prod answer_gate id (UserHasAnyPermission ok now (ruID u) ps s))"

definition RequireAllPermissions :: "bool \<Rightarrow> time \<Rightarrow> request_user option \<Rightarrow> (string \<times> string) list \<Rightarrow> access \<Rightarrow> gate \<times> access" where
  "RequireAllPermissions ok now who ps s =
     (case who of
        None \<Rightarrow> (Panics, s)
      | Some u \<Rightarrow> map_prod answer_gate id (UserHasAllPermissions ok now (ruID u) ps s))"

definition RequireRole :: "bool \<Rightarrow> time \<Rightarrow> request_user option \<Rightarrow> string \<Rightarrow> access_db \<Rightarrow> gate" where
  "RequireRole ok now who n db =
     (case who of
        None \<Rightarrow> Panics
      | Some u \<Rightarrow> answer_gate (if ok then Some (UserHasRole db now (ruID u) n) else None))"

text \<open>The token comes from the header or, without one, from the cookie. A request that passes has the user in its context.\<close>

definition RequireAuth :: "(string \<Rightarrow> string) \<Rightarrow> bool \<Rightarrow> time \<Rightarrow> string \<Rightarrow> string \<Rightarrow> access_db \<Rightarrow> gate \<times> request_user option" where
  "RequireAuth H ok now token path db =
     (if token = [] then (Status 401, None)
      else case ValidateSessionAndGetUser H ok now token db of
        SessionOf u \<Rightarrow>
          (if suMustChange u \<and> path \<noteq> ''/api/auth/change-password'' then (Status 403, None)
           else (Through, Some \<lparr>ruID = suID u, ruName = suName u, ruScopes = []\<rparr>))
      | _ \<Rightarrow> (Status 401, None))"

definition RequireAAL2 :: "(string \<Rightarrow> string) \<Rightarrow> bool \<Rightarrow> time \<Rightarrow> string \<Rightarrow> access_db \<Rightarrow> gate" where
  "RequireAAL2 H ok now token db =
     (if token = [] then Status 401
      else case ValidateSessionAndGetUser H ok now token db of
        SessionOf u \<Rightarrow> (if suAAL u < 2 then Status 403 else Through)
      | _ \<Rightarrow> Status 401)"

section \<open>Confirmation tokens and tickets\<close>

record confirm_entry =
  ceOperation :: string
  ceTarget :: string
  ceUser :: int
  ceExpires :: time

type_synonym confirm_store = "string \<Rightarrow> confirm_entry option"

definition confirmTTL :: duration where
  "confirmTTL = 60 * 1000000000"

definition validConfirmOps :: "string list" where
  "validConfirmOps = [''pool_destroy'', ''pool_export'', ''docker_remove'', ''docker_prune'', ''docker_rmi'', ''zvol_destroy'']"

definition unexpired_entries :: "time \<Rightarrow> confirm_store \<Rightarrow> confirm_store" where
  "unexpired_entries now m = (\<lambda>t. case m t of None \<Rightarrow> None | Some e \<Rightarrow> if ceExpires e < now then None else Some e)"

text \<open>The random token is an argument.\<close>

definition IssueConfirmToken :: "time \<Rightarrow> string \<Rightarrow> string \<Rightarrow> string \<Rightarrow> int \<Rightarrow> confirm_store \<Rightarrow> confirm_store" where
  "IssueConfirmToken now token op target user m =
     (unexpired_entries now m)(token \<mapsto> \<lparr>ceOperation = op, ceTarget = target, ceUser = user, ceExpires = now + confirmTTL\<rparr>)"

definition ConsumeConfirmToken :: "time \<Rightarrow> string \<Rightarrow> string \<Rightarrow> string \<Rightarrow> int \<Rightarrow> confirm_store \<Rightarrow> bool \<times> confirm_store" where
  "ConsumeConfirmToken now token op target user m =
     ((case m token of
         None \<Rightarrow> False
       | Some e \<Rightarrow> \<not> ceExpires e < now \<and> ceOperation e = op \<and> ceTarget e = target \<and> ceUser e = user),
      m(token := None))"

text \<open>\<open>req\<close> is the operation and the target of the request, \<open>token\<close> the random text, where they can be read.\<close>

definition HandleIssueConfirmToken ::
  "time \<Rightarrow> string option \<Rightarrow> (string \<times> string) option \<Rightarrow> request_user option \<Rightarrow> confirm_store \<Rightarrow> gate \<times> confirm_store" where
  "HandleIssueConfirmToken now token req who m =
     (case req of
        None \<Rightarrow> (Status 400, m)
      | Some (op, target) \<Rightarrow>
          if op \<notin> set validConfirmOps then (Status 400, m)
          else if target = [] then (Status 400, m)
          else case who of
            None \<Rightarrow> (Status 401, m)
          | Some u \<Rightarrow>
              (case token of
                 None \<Rightarrow> (Status 500, m)
               | Some t \<Rightarrow> (Through, IssueConfirmToken now t op target (ruID u) m)))"

definition confirmRoute :: "bool \<Rightarrow> time \<Rightarrow> string \<Rightarrow> string \<Rightarrow> string \<Rightarrow> request_user option \<Rightarrow> confirm_store \<Rightarrow> gate \<times> confirm_store" where
  "confirmRoute readable now token op target who m =
     (if token = [] then (Status 403, m)
      else case who of
        None \<Rightarrow> (Status 401, m)
      | Some u \<Rightarrow>
          if \<not> readable then (Status 400, m)
          else (case ConsumeConfirmToken now token op target (ruID u) m of
             (True, m') \<Rightarrow> (Through, m')
           | (False, m') \<Rightarrow> (Status 403, m')))"

record ticket_entry =
  teUser :: request_user
  teExpires :: time

type_synonym ticket_store = "string \<Rightarrow> ticket_entry option"

definition sseTicketTTL :: duration where
  "sseTicketTTL = 30 * 1000000000"

definition MintSSETicket :: "time \<Rightarrow> string option \<Rightarrow> request_user option \<Rightarrow> ticket_store \<Rightarrow> gate \<times> ticket_store" where
  "MintSSETicket now ticket who m =
     (case (who, ticket) of
        (None, _) \<Rightarrow> (Status 401, m)
      | (_, None) \<Rightarrow> (Status 500, m)
      | (Some u, Some t) \<Rightarrow>
          (Through, (\<lambda>k. case m k of None \<Rightarrow> None | Some e \<Rightarrow> if teExpires e < now then None else Some e)
             (t \<mapsto> \<lparr>teUser = u, teExpires = now + sseTicketTTL\<rparr>)))"

definition ConsumeSSETicket :: "time \<Rightarrow> string \<Rightarrow> ticket_store \<Rightarrow> request_user option \<times> ticket_store" where
  "ConsumeSSETicket now ticket m =
     (if ticket = [] then (None, m)
      else case m ticket of
        None \<Rightarrow> (None, m)
      | Some e \<Rightarrow> (if teExpires e < now then None else Some (teUser e), m(ticket := None)))"

section \<open>The session check of a request\<close>

text \<open>
  A request: its cleaned path, its method and its headers. \<open>rqRaw\<close> is the path as it came, \<open>rqRemote\<close> the address of
  the connection.
\<close>

record http_request =
  rqPath :: string
  rqRaw :: string
  rqMethod :: string
  rqRemote :: string
  rqInternal :: string
  rqAuthorization :: string
  rqTicket :: string
  rqSession :: string
  rqUser :: string
  rqCSRF :: string

definition internal_hooks :: "string list" where
  "internal_hooks =
     [''/api/zfs/snapshots/cron-hook'', ''/api/hardware/smart/cron-hook'', ''/api/backup/rsync/cron-hook'',
      ''/api/internal/disk-event'']"

definition isInternalCronHook :: "http_request \<Rightarrow> string \<Rightarrow> bool" where
  "isInternalCronHook r token \<longleftrightarrow>
     rqRaw r \<in> set internal_hooks \<and>
     (rqRemote r = [] \<or> rqRemote r = ''@'' \<or> has_prefix (rqRemote r) ''127.0.0.1:'' \<or> has_prefix (rqRemote r) ''[::1]:'') \<and>
     token \<noteq> [] \<and> rqInternal r = token"

definition public_paths :: "string list" where
  "public_paths =
     [''/health'', ''/api/auth/login'', ''/api/auth/logout'', ''/api/auth/check'', ''/api/auth/totp/verify'', ''/api/csrf'',
      ''/api/auth/oidc/info'', ''/api/auth/oidc/start'', ''/api/auth/oidc/callback'', ''/api/auth/oidc/exchange'',
      ''/api/system/setup-admin'', ''/api/system/status'', ''/api/system/health'', ''/api/gitops/webhook'',
      ''/api/quorum/witness-setup.sh'', ''/metrics'']"

definition public_prefixes :: "string list" where
  "public_prefixes =
     [''/api/s/'', ''/api/config/sync/peer/'', ''/api/git-sync/repos/webhook/'', ''/api/quorum/enroll/'', ''/api/quorum/voter/'']"

definition is_public :: "http_request \<Rightarrow> string \<Rightarrow> bool" where
  "is_public r cron \<longleftrightarrow>
     rqPath r \<in> set public_paths \<or> list_ex (has_prefix (rqPath r)) public_prefixes \<or> isInternalCronHook r cron"

text \<open>What is decided outside: the hash, the parse of the rules of a token and the match of a path with one.\<close>

record gate_env =
  geHash :: "string \<Rightarrow> string"
  geRules :: "string \<Rightarrow> (string \<times> string) list option"
  geMatch :: "string \<Rightarrow> string \<Rightarrow> bool"
  geOK :: "nat \<Rightarrow> bool"

definition same_fold :: "string \<Rightarrow> string \<Rightarrow> bool" where
  "same_fold s t \<longleftrightarrow> map to_lower s = map to_lower t"

definition TokenAllows :: "gate_env \<Rightarrow> (string \<times> string) list \<Rightarrow> string \<Rightarrow> string \<Rightarrow> bool" where
  "TokenAllows E rules method path \<longleftrightarrow>
     rules = [] \<or> list_ex (\<lambda>(m, res). (m = ''*'' \<or> same_fold m method) \<and> geMatch E res path) rules"

datatype admission = Public | As request_user | Denied int

text \<open>The answer to a request with a valid API token.\<close>

definition admit_token :: "gate_env \<Rightarrow> http_request \<Rightarrow> session_user \<Rightarrow> admission" where
  "admit_token E r u =
     (if suRules u \<noteq> [] \<and> suRules u \<noteq> ''[]'' \<and>
         (case geRules E (suRules u) of
            None \<Rightarrow> True
          | Some rules \<Rightarrow> rules = [] \<or> \<not> TokenAllows E rules (rqMethod r) (rqPath r)) then Denied 403
      else if TokenReadOnly (suScopes u) \<and> rqMethod r \<notin> {''GET'', ''HEAD''} then Denied 403
      else As \<lparr>ruID = suID u, ruName = suName u, ruScopes = suScopes u\<rparr>)"

definition change_paths :: "string list" where
  "change_paths = [''/api/auth/change-password'', ''/api/auth/logout'', ''/api/auth/session'']"

definition must_change :: "gate_env \<Rightarrow> access_db \<Rightarrow> string \<Rightarrow> bool" where
  "must_change E db n \<longleftrightarrow> geOK E 2 \<and> list_ex (\<lambda>u. uaName u = n \<and> uaMustChange u = 1) (adUsers db)"

definition csrf_of :: "access_db \<Rightarrow> string \<Rightarrow> string option" where
  "csrf_of db key = map_option swCSRF (List.find (\<lambda>r. swKey r = key) (adSessions db))"

text \<open>The answer to a request with a session.\<close>

definition admit_session :: "gate_env \<Rightarrow> time \<Rightarrow> http_request \<Rightarrow> access_db \<Rightarrow> admission" where
  "admit_session E now r db =
     (if rqSession r = [] \<or> rqUser r = [] then Denied 401
      else case ValidateSessionAndGetUser (geHash E) (geOK E 1) now (rqSession r) db of
        InvalidSession \<Rightarrow> Denied 401
      | LookupFailed \<Rightarrow> Denied 503
      | SessionOf u \<Rightarrow>
          if suName u \<noteq> rqUser r then Denied 401
          else if must_change E db (suName u) \<and> rqPath r \<notin> set change_paths then Denied 403
          else if rqMethod r \<notin> {''GET'', ''HEAD'', ''OPTIONS''} then
            (if \<not> geOK E 3 then Denied 503
             else case csrf_of db (geHash E (rqSession r)) of
               None \<Rightarrow> Denied 503
             | Some c \<Rightarrow> if c = [] \<or> c \<noteq> rqCSRF r then Denied 403 else As \<lparr>ruID = suID u, ruName = suName u, ruScopes = []\<rparr>)
          else As \<lparr>ruID = suID u, ruName = suName u, ruScopes = []\<rparr>)"

definition bearer :: "http_request \<Rightarrow> string option" where
  "bearer r = (if has_prefix (rqAuthorization r) ''Bearer '' then Some (drop 7 (rqAuthorization r)) else None)"

definition stream_paths :: "string list" where
  "stream_paths = [''/api/system/logs/stream'', ''/api/docker/stacks/logs/stream'']"

definition sessionMiddleware :: "gate_env \<Rightarrow> string \<Rightarrow> time \<Rightarrow> http_request \<Rightarrow> access_db \<Rightarrow> ticket_store \<Rightarrow> admission \<times> ticket_store" where
  "sessionMiddleware E cron now r db m =
     (if is_public r cron then (Public, m)
      else case (case bearer r of None \<Rightarrow> None | Some t \<Rightarrow> ValidateAPITokenAndGetUser (geHash E) (geOK E 0) now t db) of
        Some u \<Rightarrow> (admit_token E r u, m)
      | None \<Rightarrow>
          if rqTicket r \<noteq> [] \<and> rqPath r \<in> set stream_paths then
            (case ConsumeSSETicket now (rqTicket r) m of
               (Some u, m') \<Rightarrow> (As u, m')
             | (None, m') \<Rightarrow> (Denied 401, m'))
          else (admit_session E now r db, m))"

section \<open>The address of a client\<close>

text \<open>The host of \<open>net.SplitHostPort\<close>: the text before the last colon, in brackets when it has colons itself.\<close>

definition split_host :: "string \<Rightarrow> string option" where
  "split_host s =
     (case cut_at CHR '':'' (rev s) of
        None \<Rightarrow> None
      | Some (port, before) \<Rightarrow>
          (let pre = rev before; brackets = (\<lambda>t. CHR ''['' \<in> set t \<or> CHR '']'' \<in> set t) in
           if has_prefix s ''['' then
             (if 2 \<le> length pre \<and> last pre = CHR '']'' \<and> \<not> brackets (butlast (tl pre)) \<and> \<not> brackets port
              then Some (butlast (tl pre)) else None)
           else if CHR '':'' \<in> set pre \<or> brackets s then None else Some pre))"

definition isTrustedProxy :: "ip \<Rightarrow> bool" where
  "isTrustedProxy a \<longleftrightarrow>
     (if is_v4 a then
        a ! 12 = 127 \<or> a ! 12 = 10 \<or> a ! 12 = 172 \<and> a ! 13 div 16 = 1 \<or> a ! 12 = 192 \<and> a ! 13 = 168
      else a = replicate 15 0 @ [1] \<or> a ! 0 div 2 = 126)"

text \<open>The headers are \<open>X-Real-IP\<close> and \<open>X-Forwarded-For\<close>.\<close>

definition RealIP :: "string \<Rightarrow> string \<Rightarrow> string \<Rightarrow> string" where
  "RealIP remote real forwarded =
     (let host = (case split_host remote of None \<Rightarrow> remote | Some h \<Rightarrow> h) in
      case parse_ip host of
        None \<Rightarrow> host
      | Some a \<Rightarrow>
          if \<not> isTrustedProxy a then host
          else if real \<noteq> [] then real
          else if forwarded \<noteq> [] then trim_space (case cut_at CHR '','' forwarded of None \<Rightarrow> forwarded | Some (f, _) \<Rightarrow> f)
          else host)"

section \<open>The limit of requests\<close>

definition maxRequests :: nat where
  "maxRequests = 100"

definition timeWindow :: duration where
  "timeWindow = 60 * 1000000000"

record limiter =
  liCounts :: "string \<Rightarrow> time list option"
  liSweep :: "time option"

definition swept :: "time \<Rightarrow> (string \<Rightarrow> time list option) \<Rightarrow> string \<Rightarrow> time list option" where
  "swept now m = (\<lambda>k. case m k of
     None \<Rightarrow> None
   | Some ts \<Rightarrow> if ts = [] \<or> timeWindow \<le> now - last ts then None else Some ts)"

text \<open>Whether a request is let through, and the state after it. Before the first sweep the time of the sweep is zero.\<close>

definition countRequest :: "time \<Rightarrow> string \<Rightarrow> limiter \<Rightarrow> bool \<times> limiter" where
  "countRequest now ip s =
     (let sweep = (case liSweep s of None \<Rightarrow> True | Some t \<Rightarrow> timeWindow < now - t);
          m = (if sweep then swept now (liCounts s) else liCounts s);
          at = (if sweep then Some now else liSweep s) in
      case m ip of
        None \<Rightarrow> (True, \<lparr>liCounts = m(ip \<mapsto> [now]), liSweep = at\<rparr>)
      | Some ts \<Rightarrow>
          (let recent = filter (\<lambda>t. now - t < timeWindow) ts in
           if maxRequests \<le> length recent then (False, \<lparr>liCounts = m(ip \<mapsto> recent), liSweep = at\<rparr>)
           else (True, \<lparr>liCounts = m(ip \<mapsto> recent @ [now]), liSweep = at\<rparr>)))"

text \<open>The chunks of an upload by a signed-in user are not counted.\<close>

definition rateLimitExempt :: "http_request \<Rightarrow> request_user option \<Rightarrow> bool" where
  "rateLimitExempt r who \<longleftrightarrow> rqMethod r = ''POST'' \<and> rqPath r = ''/api/files/upload'' \<and> who \<noteq> None"

definition rateLimitMiddleware :: "time \<Rightarrow> string \<Rightarrow> bool \<Rightarrow> limiter \<Rightarrow> bool \<times> limiter" where
  "rateLimitMiddleware now ip exempt s = (if exempt then (True, s) else countRequest now ip s)"

end
