(* ===== verification/AccessSafety.thy ===== *)
theory AccessSafety
  imports AccessGate
begin

text \<open>
  What the checks of \<open>AccessGate\<close> guarantee: one-time tokens, the limit of requests, what a request that passes the
  session check has shown, and what the cache of permissions answers.
\<close>

section \<open>One-time tokens\<close>

text \<open>Issuing and using a confirmation token by its routes.\<close>

definition confirm_issue :: "time \<Rightarrow> string \<Rightarrow> string \<times> string \<times> request_user \<Rightarrow> confirm_store \<Rightarrow> confirm_store" where
  "confirm_issue now token q m =
     (case q of (op, target, u) \<Rightarrow> snd (HandleIssueConfirmToken now (Some token) (Some (op, target)) (Some u) m))"

definition confirm_use :: "time \<Rightarrow> string \<Rightarrow> string \<times> string \<times> request_user \<Rightarrow> confirm_store \<Rightarrow> confirm_entry option \<times> confirm_store" where
  "confirm_use now token p m =
     (case p of (op, target, u) \<Rightarrow>
        (case confirmRoute True now token op target (Some u) m of
           (Through, m') \<Rightarrow> (m token, m')
         | (Status n, m') \<Rightarrow> (None, m')))"

definition confirm_entry_of :: "time \<Rightarrow> string \<times> string \<times> request_user \<Rightarrow> confirm_entry" where
  "confirm_entry_of now q =
     (case q of (op, target, u) \<Rightarrow> \<lparr>ceOperation = op, ceTarget = target, ceUser = ruID u, ceExpires = now + confirmTTL\<rparr>)"

definition confirm_fits :: "time \<Rightarrow> string \<times> string \<times> request_user \<Rightarrow> confirm_entry \<Rightarrow> bool" where
  "confirm_fits now p e \<longleftrightarrow>
     (case p of (op, target, u) \<Rightarrow> ceOperation e = op \<and> ceTarget e = target \<and> ceUser e = ruID u \<and> now \<le> ceExpires e)"

interpretation confirm: one_time confirm_issue confirm_use confirm_entry_of confirm_fits
proof
  show "confirm_issue now t q m u = Some f \<Longrightarrow> m u = Some f \<or> u = t \<and> f = confirm_entry_of now q" for now t q m u f
    by (cases q) (auto simp: confirm_issue_def confirm_entry_of_def HandleIssueConfirmToken_def IssueConfirmToken_def
        unexpired_entries_def split: if_splits option.splits)
  show "snd (confirm_use now t p m) u = Some f \<Longrightarrow> m u = Some f" for now t p m u f
    by (cases p) (auto simp: confirm_use_def confirmRoute_def ConsumeConfirmToken_def split: if_splits option.splits bool.splits)
  show "fst (confirm_use now t p m) = Some e \<Longrightarrow> m t = Some e \<and> confirm_fits now p e \<and> snd (confirm_use now t p m) t = None"
    for now t p m e
    by (cases p) (auto simp: confirm_use_def confirm_fits_def confirmRoute_def ConsumeConfirmToken_def split: if_splits option.splits bool.splits)
qed

definition ticket_issue :: "time \<Rightarrow> string \<Rightarrow> request_user \<Rightarrow> ticket_store \<Rightarrow> ticket_store" where
  "ticket_issue now ticket u m = snd (MintSSETicket now (Some ticket) (Some u) m)"

definition ticket_use :: "time \<Rightarrow> string \<Rightarrow> unit \<Rightarrow> ticket_store \<Rightarrow> ticket_entry option \<times> ticket_store" where
  "ticket_use now ticket p m =
     (case ConsumeSSETicket now ticket m of
        (None, m') \<Rightarrow> (None, m')
      | (Some u, m') \<Rightarrow> (m ticket, m'))"

definition ticket_entry_of :: "time \<Rightarrow> request_user \<Rightarrow> ticket_entry" where
  "ticket_entry_of now u = \<lparr>teUser = u, teExpires = now + sseTicketTTL\<rparr>"

definition ticket_fits :: "time \<Rightarrow> unit \<Rightarrow> ticket_entry \<Rightarrow> bool" where
  "ticket_fits now p e \<longleftrightarrow> now \<le> teExpires e"

interpretation ticket: one_time ticket_issue ticket_use ticket_entry_of ticket_fits
proof
  show "ticket_issue now t q m u = Some f \<Longrightarrow> m u = Some f \<or> u = t \<and> f = ticket_entry_of now q" for now t q m u f
    by (auto simp: ticket_issue_def ticket_entry_of_def MintSSETicket_def split: if_splits option.splits)
  show "snd (ticket_use now t p m) u = Some f \<Longrightarrow> m u = Some f" for now t p m u f
    by (auto simp: ticket_use_def ConsumeSSETicket_def split: if_splits option.splits)
  show "fst (ticket_use now t p m) = Some e \<Longrightarrow> m t = Some e \<and> ticket_fits now p e \<and> snd (ticket_use now t p m) t = None"
    for now t p m e
    by (auto simp: ticket_use_def ticket_fits_def ConsumeSSETicket_def split: if_splits option.splits)
qed

definition no_tokens :: "string \<Rightarrow> 'e option" where
  "no_tokens = (\<lambda>_. None)"

text \<open>
  C31. Whatever confirmation tokens are issued and presented in any order: a destructive request is let through only with a
  token issued for the same operation, target and user at most a minute before, and a token lets no more requests through
  than it was issued for.
\<close>

theorem confirmed_once:
  "length (filter (\<lambda>a. fst a = t) (passes confirm_issue confirm_use no_tokens evs)) \<le> length (issues t evs) \<and>
   list_all (\<lambda>(t, now, (op, target, u), e).
      \<exists>at v. (at, (op, target, v)) \<in> set (issues t evs) \<and> ruID v = ruID u \<and> now \<le> at + confirmTTL)
     (passes confirm_issue confirm_use no_tokens evs)"
proof
  show "length (filter (\<lambda>a. fst a = t) (passes confirm_issue confirm_use no_tokens evs)) \<le> length (issues t evs)"
    using confirm.passes_count [of t no_tokens evs] by (simp add: no_tokens_def)
  have "\<exists>at v. (at, (op, target, v)) \<in> set (issues t evs) \<and> ruID v = ruID u \<and> now \<le> at + confirmTTL"
    if "(t, now, (op, target, u), e) \<in> set (passes confirm_issue confirm_use no_tokens evs)" for t now op target u e
    using confirm.passes_issued [OF that]
    by (fastforce simp: no_tokens_def confirm_fits_def confirm_entry_of_def)
  then show "list_all (\<lambda>(t, now, (op, target, u), e).
      \<exists>at v. (at, (op, target, v)) \<in> set (issues t evs) \<and> ruID v = ruID u \<and> now \<le> at + confirmTTL)
     (passes confirm_issue confirm_use no_tokens evs)"
    by (auto simp: list_all_iff)
qed

lemma tickets_once:
  "length (filter (\<lambda>a. fst a = t) (passes ticket_issue ticket_use no_tokens evs)) \<le> length (issues t evs)"
  using ticket.passes_count [of t no_tokens evs] by (simp add: no_tokens_def)

section \<open>The cache of permissions\<close>

text \<open>
  C33. Asking for the roles of a user makes the permissions cached for them valid again, however old they are and whatever
  the tables say: both share the time of the last update.
\<close>

theorem stale_permissions_revived:
  assumes "u \<noteq> 1" "pcPermissions (acCache s) u = Some ps"
  shows "fst (UserHasPermission ok now u res act (snd (GetUserRoles True now u s))) = Some (grants ps res act)"
proof -
  have "GetPermissions (acCache (snd (GetUserRoles True now u s))) now u = Some ps"
    using assms(2) by (auto simp: GetUserRoles_def GetRoles_def SetRoles_def GetPermissions_def cache_ttl_def Let_def split: option.splits)
  then show ?thesis using assms(1) by (simp add: UserHasPermission_def)
qed

definition sample_access :: access where
  "sample_access =
     \<lparr>acDB = \<lparr>adUsers = [], adSessions = [], adTokens = [], adPermissions = [\<lparr>pmID = 1, pmResource = ''storage'', pmAction = ''write''\<rparr>],
        adRoles = [\<lparr>rlID = 7, rlName = ''helper'', rlSystem = False\<rparr>], adRolePermissions = [(7, 1)],
        adUserRoles = [\<lparr>urUser = 2, urRole = 7, urBy = ''1'', urExpires = Some 100\<rparr>]\<rparr>,
      acCache = \<lparr>pcPermissions = (\<lambda>_. None), pcRoles = (\<lambda>_. None), pcLast = (\<lambda>_. None)\<rparr>\<rparr>"

text \<open>A role that ran out at 100 still gives its permission long after, to a user whose roles are asked for first.\<close>

lemma stale_permissions_revived_witness:
  "let s = snd (UserHasPermission True 50 2 ''storage'' ''write'' sample_access) in
   fst (UserHasPermission True 900000000000 2 ''storage'' ''write'' (snd (GetUserRoles True 900000000000 2 s))) = Some True \<and>
   loadUserPermissions (acDB s) 900000000000 2 = []"
proof -
  let ?s = "snd (UserHasPermission True 50 2 ''storage'' ''write'' sample_access)"
  have c: "pcPermissions (acCache ?s) 2 = Some [\<lparr>pmID = 1, pmResource = ''storage'', pmAction = ''write''\<rparr>]"
    by (simp add: sample_access_def UserHasPermission_def GetPermissions_def SetPermissions_def loadUserPermissions_def holds_role_def in_force_def Let_def)
  have "loadUserPermissions (acDB ?s) 900000000000 2 = []"
    by (simp add: sample_access_def UserHasPermission_def GetPermissions_def SetPermissions_def loadUserPermissions_def holds_role_def in_force_def Let_def)
  moreover have "grants [\<lparr>pmID = 1, pmResource = ''storage'', pmAction = ''write''\<rparr>] ''storage'' ''write''" by (simp add: grants_def)
  ultimately show ?thesis using stale_permissions_revived [of 2 ?s, OF _ c] by (simp add: Let_def)
qed

text \<open>Deleting a role does not touch the cache.\<close>

lemma deleted_role_keeps_permissions:
  assumes "DeleteRole del r s = (True, s')" "u \<noteq> 1" "pcPermissions (acCache s) u = Some ps"
  shows "fst (UserHasPermission ok now u res act (snd (GetUserRoles True now u s'))) = Some (grants ps res act)"
proof -
  have "acCache s' = acCache s" using assms(1) by (auto simp: DeleteRole_def split: option.splits if_splits)
  then have c: "pcPermissions (acCache s') u = Some ps" using assms(3) by simp
  have "GetPermissions (acCache (snd (GetUserRoles True now u s'))) now u = Some ps"
    using c by (auto simp: GetUserRoles_def GetRoles_def SetRoles_def GetPermissions_def cache_ttl_def Let_def split: option.splits)
  then show ?thesis using assms(2) by (simp add: UserHasPermission_def)
qed

text \<open>
  The operations on roles, those of the directories among them, and the questions to the cache. Assignments may have an
  end.
\<close>

datatype access_op =
    NewRole int string
  | DropRole int
  | GrantPermission int int
  | TakePermission int int
  | SetPermissionsOf int "string list"
  | GiveRole int int "int option" "time option"
  | TakeRole int int
  | PrimaryRole int string string
  | LDAPSync "int option" "string list"
  | OIDCLogin int "string list"
  | AskPermission time int string string
  | AskRoles time int
  | ForgetUser int

definition access_step :: "(nat \<Rightarrow> bool) \<Rightarrow> access_op \<Rightarrow> access \<Rightarrow> access" where
  "access_step ok op s =
     (case op of
        NewRole i n \<Rightarrow> snd (CreateRole ok i n s)
      | DropRole r \<Rightarrow> snd (DeleteRole ok r s)
      | GrantPermission r p \<Rightarrow> snd (AssignPermissionToRole ok r p s)
      | TakePermission r p \<Rightarrow> snd (RemovePermissionFromRole ok r p s)
      | SetPermissionsOf r ps \<Rightarrow> snd (SetRolePermissions ok r ps s)
      | GiveRole u r g e \<Rightarrow> snd (AssignRoleToUser ok u r g e s)
      | TakeRole u r \<Rightarrow> snd (RemoveRoleFromUser ok u r s)
      | PrimaryRole u old new \<Rightarrow> snd (SetPrimaryRole ok u old new s)
      | LDAPSync who names \<Rightarrow> snd (applyLDAPRoles ok who names s)
      | OIDCLogin u groups \<Rightarrow> snd (assignRoles ok u groups s)
      | AskPermission now u res act \<Rightarrow> snd (UserHasPermission (ok 0) now u res act s)
      | AskRoles now u \<Rightarrow> snd (GetUserRoles (ok 0) now u s)
      | ForgetUser u \<Rightarrow> InvalidateUserPermissions u s)"

text \<open>
  What may happen while the answers about a user stay current: no role is deleted, none is assigned to this user with an
  end, and this user does not log in with OpenID Connect. Each of the three leaves the cached permissions.
\<close>

fun settled :: "int \<Rightarrow> access_op \<Rightarrow> bool" where
  "settled u (DropRole r) = False"
| "settled u (GiveRole v r g e) = (v = u \<longrightarrow> e = None)"
| "settled u (OIDCLogin v gs) = (v \<noteq> u)"
| "settled u op = True"

definition endless :: "int \<Rightarrow> access_db \<Rightarrow> bool" where
  "endless u db \<longleftrightarrow> (\<forall>x \<in> set (adUserRoles db). urUser x = u \<longrightarrow> urExpires x = None)"

definition cache_true :: "int \<Rightarrow> access \<Rightarrow> bool" where
  "cache_true u s \<longleftrightarrow>
     endless u (acDB s) \<and>
     (\<forall>ps. pcPermissions (acCache s) u = Some ps \<longrightarrow> (\<forall>now. ps = loadUserPermissions (acDB s) now u))"

lemma endless_in_force: "endless u db \<Longrightarrow> x \<in> set (adUserRoles db) \<Longrightarrow> urUser x = u \<Longrightarrow> in_force now x"
  by (auto simp: endless_def in_force_def)

lemma endless_load: "endless u db \<Longrightarrow> loadUserPermissions db now u = loadUserPermissions db later u"
proof -
  assume "endless u db"
  then have "holds_role db now u r = holds_role db later u r" for r
    using endless_in_force [of u db _ now] endless_in_force [of u db _ later] by (auto simp: holds_role_def list_ex_iff)
  then show ?thesis by (simp add: loadUserPermissions_def)
qed

lemma load_put_roles:
  assumes "\<And>x. urUser x = u \<Longrightarrow> x \<in> set (f (adUserRoles db)) \<longleftrightarrow> x \<in> set (adUserRoles db)"
  shows "loadUserPermissions (db\<lparr>adUserRoles := f (adUserRoles db)\<rparr>) now u = loadUserPermissions db now u"
proof -
  have "holds_role (db\<lparr>adUserRoles := f (adUserRoles db)\<rparr>) now u r = holds_role db now u r" for r
    using assms by (auto simp: holds_role_def list_ex_iff)
  then show ?thesis by (simp add: loadUserPermissions_def)
qed

lemma true_all_invalid: "endless u (acDB s) \<Longrightarrow> cache_true u (with_role_permissions f s)"
  by (simp add: cache_true_def with_role_permissions_def InvalidateAll_def endless_def)

text \<open>The roles of other users change.\<close>

lemma true_put_roles:
  assumes "cache_true u s" "\<And>x. urUser x = u \<Longrightarrow> x \<in> set (f (adUserRoles (acDB s))) \<longleftrightarrow> x \<in> set (adUserRoles (acDB s))"
  shows "cache_true u (put_roles f s)"
  using assms load_put_roles [of u f "acDB s"] by (auto simp: cache_true_def endless_def put_roles_def)

text \<open>The roles of a user change and what is cached for it is dropped.\<close>

lemma true_user_invalid:
  assumes "cache_true u s" "\<forall>x \<in> set (f (adUserRoles (acDB s))). urUser x = u \<longrightarrow> urExpires x = None"
    "\<And>x. urUser x \<noteq> v \<Longrightarrow> x \<in> set (f (adUserRoles (acDB s))) \<longleftrightarrow> x \<in> set (adUserRoles (acDB s))"
  shows "cache_true u (with_user_roles v f s)"
proof (cases "v = u")
  case True
  then show ?thesis using assms(2) by (auto simp: cache_true_def endless_def with_user_roles_def Invalidate_def)
next
  case False
  then show ?thesis using assms(1,3) load_put_roles [of u f "acDB s"]
    by (auto simp: cache_true_def endless_def with_user_roles_def Invalidate_def)
qed

lemma set_add_user_role: "set (add_user_role x xs) \<subseteq> insert x (set xs)"
  and add_user_role_keeps: "set xs \<subseteq> set (add_user_role x xs)"
  by (auto simp: add_user_role_def)

lemma set_add_user_roles:
  "x \<in> set (fold (\<lambda>i. add_user_role (r i)) ids xs) \<Longrightarrow> x \<in> set xs \<or> (\<exists>i \<in> set ids. x = r i)"
proof (induction ids arbitrary: xs)
  case (Cons i ids)
  then show ?case using Cons.IH [of "add_user_role (r i) xs"] set_add_user_role [of "r i" xs] by auto
qed simp

lemma add_user_roles_keep: "x \<in> set xs \<Longrightarrow> x \<in> set (fold (\<lambda>i. add_user_role (r i)) ids xs)"
proof (induction ids arbitrary: xs)
  case (Cons i ids)
  then show ?case using add_user_role_keeps [of xs "r i"] by auto
qed simp

lemma true_cached:
  assumes "cache_true u s"
  shows "cache_true u (s\<lparr>acCache := SetPermissions now v (loadUserPermissions (acDB s) now v) (acCache s)\<rparr>)"
  using assms endless_load [of u "acDB s" now] by (auto simp: cache_true_def SetPermissions_def)

lemma true_grant_groups:
  assumes "cache_true u s" "v \<noteq> u" "grant_groups ok i v gs want s = (r, t)"
  shows "cache_true u t"
  using assms
proof (induction ok i v gs want s rule: grant_groups.induct)
  case (2 ok i v g gs want s)
  have added: "cache_true u (put_roles (add_user_role \<lparr>urUser = v, urRole = x, urBy = b, urExpires = None\<rparr>) s)" for x b
    by (rule true_put_roles [OF "2.prems"(1)]) (use "2.prems"(2) in \<open>auto simp: add_user_role_def\<close>)
  show ?case
    using "2.prems" "2.IH" added by (auto split: if_splits option.splits)
qed simp

lemma true_assignRoles: "cache_true u s \<Longrightarrow> v \<noteq> u \<Longrightarrow> cache_true u (snd (assignRoles ok v gs s))"
  unfolding assignRoles_def
  by (auto split: prod.split option.split intro!: true_put_roles dest: true_grant_groups)

lemma access_step_true: "cache_true u s \<Longrightarrow> settled u op \<Longrightarrow> cache_true u (access_step ok op s)"
proof -
  assume s: "cache_true u s" and op: "settled u op"
  then have e: "endless u (acDB s)" by (simp add: cache_true_def)
  show ?thesis
  proof (cases op)
    case (NewRole i n)
    have "cache_true u (s\<lparr>acDB := (acDB s)\<lparr>adRoles := rs\<rparr>\<rparr>)" for rs
      using s unfolding cache_true_def endless_def loadUserPermissions_def holds_role_def by simp
    then show ?thesis using s NewRole by (simp add: access_step_def CreateRole_def)
  next
    case (GiveRole v r g t)
    have "cache_true u (with_user_roles v (put_user_role \<lparr>urUser = v, urRole = r, urBy = b, urExpires = t\<rparr>) s)" for b
      by (rule true_user_invalid [OF s]) (use e op GiveRole in \<open>auto simp: put_user_role_def endless_def\<close>)
    then show ?thesis using s GiveRole by (simp add: access_step_def AssignRoleToUser_def)
  next
    case (TakeRole v r)
    have "cache_true u (with_user_roles v (filter (\<lambda>x. \<not> (urUser x = v \<and> urRole x = r))) s)"
      by (rule true_user_invalid [OF s]) (use e in \<open>auto simp: endless_def\<close>)
    then show ?thesis using s TakeRole by (simp add: access_step_def RemoveRoleFromUser_def)
  next
    case (PrimaryRole v old new)
    let ?left = "without_primary (acDB s) v old new"
    have "cache_true u (with_user_roles v (\<lambda>_. ?left) s)" and
      "cache_true u (with_user_roles v (\<lambda>_. ?left @ [\<lparr>urUser = v, urRole = r, urBy = ''users-page'', urExpires = None\<rparr>]) s)" for r
      by (rule true_user_invalid [OF s]; use e in \<open>auto simp: without_primary_def endless_def\<close>)+
    then show ?thesis using s PrimaryRole
      by (simp add: access_step_def SetPrimaryRole_def Let_def split: option.split)
  next
    case (LDAPSync who names)
    have "cache_true u (with_user_roles v (ldap_roles v ids) s)" for v ids
      by (rule true_user_invalid [OF s])
        (use e in \<open>auto simp: ldap_roles_def endless_def dest!: set_add_user_roles intro!: add_user_roles_keep\<close>)
    then show ?thesis using s LDAPSync by (simp add: access_step_def applyLDAPRoles_def Let_def split: option.split)
  next
    case (OIDCLogin v gs)
    then show ?thesis using true_assignRoles [OF s] op by (simp add: access_step_def)
  next
    case (AskPermission now v res act)
    then show ?thesis using s true_cached [OF s, of now v]
      by (simp add: access_step_def UserHasPermission_def Let_def split: option.split)
  next
    case (ForgetUser v)
    have "cache_true u (s\<lparr>acCache := Invalidate v (acCache s)\<rparr>)"
      using s unfolding cache_true_def Invalidate_def by simp
    then show ?thesis using ForgetUser by (simp add: access_step_def InvalidateUserPermissions_def)
  next
    case (AskRoles now v)
    have "cache_true u (s\<lparr>acCache := SetRoles now v rs (acCache s)\<rparr>)" for rs
      using s unfolding cache_true_def SetRoles_def by simp
    then show ?thesis using s AskRoles by (simp add: access_step_def GetUserRoles_def Let_def split: option.split)
  qed (use s op true_all_invalid [OF e] in \<open>simp_all add: access_step_def AssignPermissionToRole_def RemovePermissionFromRole_def
      SetRolePermissions_def Let_def\<close>)
qed

lemma access_steps_true:
  "cache_true u s \<Longrightarrow> list_all (settled u) (map snd ops) \<Longrightarrow> cache_true u (fold (\<lambda>(ok, op). access_step ok op) ops s)"
  by (induction ops arbitrary: s) (auto simp: access_step_true)

text \<open>
  C32. The cache starts empty, as with the daemon. Whatever the operations on roles, their permissions and their holders
  do afterwards (the roles and users pages, the LDAP sync, the role assignment of OpenID Connect), and whichever
  statements fail, the answer about a permission of a user is what the tables say at that moment, as long as no role is
  deleted, the user holds none with an end, and the user does not log in with OpenID Connect: these leave the cache. The
  first user has every permission. Deleting users, the first setup and the seeding at start are not among the operations.
\<close>

theorem answers_current:
  assumes "endless u (acDB s)" "acCache s = InvalidateAll c" "list_all (settled u) (map snd ops)"
    "t = fold (\<lambda>(ok, op). access_step ok op) ops s"
  shows "fst (UserHasPermission True now u res act t) = Some (u = 1 \<or> grants (loadUserPermissions (acDB t) now u) res act)"
proof -
  have "cache_true u s" using assms(1,2) by (simp add: cache_true_def InvalidateAll_def)
  then have "cache_true u t" using assms(3,4) access_steps_true by simp
  then have "GetPermissions (acCache t) now u = Some ps \<Longrightarrow> ps = loadUserPermissions (acDB t) now u" for ps
    by (auto simp: cache_true_def GetPermissions_def split: option.splits if_splits)
  then show ?thesis by (auto simp: UserHasPermission_def Let_def split: option.splits)
qed

lemma answers_current_witness:
  "let s = access_step (\<lambda>_. True) (GiveRole 2 7 (Some 1) None) (sample_access\<lparr>acDB := (acDB sample_access)\<lparr>adUserRoles := [],
         adUsers := [\<lparr>uaID = 2, uaName = ''ann'', uaActive = 1, uaMustChange = 0\<rparr>]\<rparr>\<rparr>) in
   fst (UserHasPermission True 5 2 ''storage'' ''write'' s) = Some True"
proof -
  let ?s = "sample_access\<lparr>acDB := (acDB sample_access)\<lparr>adUserRoles := [],
         adUsers := [\<lparr>uaID = 2, uaName = ''ann'', uaActive = 1, uaMustChange = 0\<rparr>]\<rparr>\<rparr>"
  let ?t = "access_step (\<lambda>_. True) (GiveRole 2 7 (Some 1) None) ?s"
  have "endless 2 (acDB ?s)" "acCache ?s = InvalidateAll (acCache ?s)"
    by (simp_all add: endless_def sample_access_def InvalidateAll_def)
  moreover have "grants (loadUserPermissions (acDB ?t) 5 2) ''storage'' ''write''"
    by (simp add: access_step_def AssignRoleToUser_def sample_access_def GetRoleByID_def with_user_roles_def put_user_role_def
        loadUserPermissions_def holds_role_def in_force_def grants_def)
  ultimately show ?thesis
    using answers_current [of 2 ?s "acCache ?s" "[(\<lambda>_. True, GiveRole 2 7 (Some 1) None)]" ?t 5 "''storage''" "''write''"]
    by (simp add: Let_def)
qed

text \<open>
  A login with OpenID Connect after which the provider no longer grants a role: the role is gone from the tables, and
  the answer is still yes.
\<close>

lemma revoked_by_provider_still_granted:
  assumes "pcPermissions (acCache s) u = Some ps" "pcLast (acCache s) u = Some at" "now - at \<le> cache_ttl"
    "grants ps res act" "fst (assignRoles okay u groups s)"
  shows "fst (UserHasPermission ok now u res act (snd (assignRoles okay u groups s))) = Some True"
proof -
  have groups: "acCache t = acCache s" if "grant_groups okay i u gs want s = (r, t)" for i gs want r s t
    using that by (induction okay i u gs want s rule: grant_groups.induct) (auto simp: put_roles_def split: if_splits option.splits)
  have "acCache (snd (assignRoles okay u groups s)) = acCache s"
    using groups by (auto simp: assignRoles_def put_roles_def split: prod.split option.split)
  then show ?thesis using assms by (auto simp: UserHasPermission_def GetPermissions_def)
qed

section \<open>The limit of requests\<close>

text \<open>Requests are a time, an address and whether they are exempt. The result has those that are tallied and let through.\<close>

primrec limited :: "limiter \<Rightarrow> ((time \<times> string) \<times> bool) list \<Rightarrow> (time \<times> string) list" where
  "limited s [] = []"
| "limited s (r # rs) =
     (case rateLimitMiddleware (fst (fst r)) (snd (fst r)) (snd r) s of
        (True, s') \<Rightarrow> (if snd r then [] else [fst r]) @ limited s' rs
      | (False, s') \<Rightarrow> limited s' rs)"

definition times_of :: "string \<Rightarrow> (time \<times> string) list \<Rightarrow> time list" where
  "times_of ip rs = map fst (filter (\<lambda>r. snd r = ip) rs)"

definition kept_times :: "limiter \<Rightarrow> string \<Rightarrow> time list" where
  "kept_times s ip = (case liCounts s ip of None \<Rightarrow> [] | Some ts \<Rightarrow> ts)"

definition young :: "time \<Rightarrow> time list \<Rightarrow> time list" where
  "young now ts = filter (\<lambda>t. now - t < timeWindow) ts"

definition in_window :: "time \<Rightarrow> time list \<Rightarrow> nat" where
  "in_window t ts = length (filter (\<lambda>u. t \<le> u \<and> u < t + timeWindow) ts)"

definition no_requests :: limiter where
  "no_requests = \<lparr>liCounts = (\<lambda>_. None), liSweep = None\<rparr>"

text \<open>What the limiter remembers of the requests it let through, at a time and after it\<close>

definition remembers :: "time \<Rightarrow> (time \<times> string) list \<Rightarrow> limiter \<Rightarrow> bool" where
  "remembers now past s \<longleftrightarrow>
     (\<forall>ip. sorted (kept_times s ip) \<and> (\<forall>u \<in> set (kept_times s ip). u \<le> now) \<and>
        (\<forall>later \<ge> now. young later (times_of ip past) = young later (kept_times s ip)))"

lemma young_empty [simp]: "young n [] = []"
  by (simp add: young_def)

lemma young_append [simp]: "young n (a @ b) = young n a @ young n b"
  by (simp add: young_def)

lemma young_young: "n \<le> later \<Longrightarrow> young later (young n ts) = young later ts"
  by (induction ts) (auto simp: young_def)

lemma times_of_append [simp]: "times_of ip (a @ b) = times_of ip a @ times_of ip b"
  by (simp add: times_of_def)

lemma old_last:
  assumes "sorted ts" "ts \<noteq> []" "timeWindow \<le> n - last ts" "n \<le> later"
  shows "young later ts = []"
proof -
  have split: "butlast ts @ [last ts] = ts" using assms(2) by simp
  have "sorted (butlast ts @ [last ts])" unfolding split by (rule assms(1))
  then have "\<forall>u \<in> set (butlast ts @ [last ts]). u \<le> last ts" by (auto simp: sorted_append)
  then have "u \<le> last ts" if "u \<in> set ts" for u using that unfolding split by blast
  then show ?thesis using assms(3,4) by (fastforce simp: young_def filter_empty_conv)
qed

lemma sweep_remembers:
  assumes "remembers now past s" "now \<le> n"
  shows "remembers n past (s\<lparr>liCounts := swept n (liCounts s)\<rparr>)"
proof -
  let ?s = "s\<lparr>liCounts := swept n (liCounts s)\<rparr>"
  have keep: "kept_times ?s ip = kept_times s ip \<or> kept_times ?s ip = [] \<and> (\<forall>later \<ge> n. young later (kept_times s ip) = [])" for ip
  proof (cases "liCounts s ip")
    case (Some ts)
    then have "sorted ts" using assms(1) unfolding remembers_def kept_times_def by (metis option.simps(5))
    then show ?thesis using old_last [of ts n] Some by (auto simp: kept_times_def swept_def young_def)
  qed (simp add: kept_times_def swept_def)
  show ?thesis unfolding remembers_def
  proof (intro allI conjI ballI impI)
    fix ip
    show "sorted (kept_times ?s ip)" using keep [of ip] assms(1) by (auto simp: remembers_def)
    show "u \<le> n" if "u \<in> set (kept_times ?s ip)" for u
      using keep [of ip] assms that by (fastforce simp: remembers_def)
    show "young later (times_of ip past) = young later (kept_times ?s ip)" if "n \<le> later" for later
    proof -
      have "young later (times_of ip past) = young later (kept_times s ip)"
        using assms that by (auto simp: remembers_def)
      then show ?thesis using keep [of ip] that by (auto simp: young_def)
    qed
  qed
qed

text \<open>One request, after the sweep\<close>

definition tallied :: "time \<Rightarrow> string \<Rightarrow> limiter \<Rightarrow> bool \<times> limiter" where
  "tallied now ip s =
     (case liCounts s ip of
        None \<Rightarrow> (True, s\<lparr>liCounts := (liCounts s)(ip \<mapsto> [now])\<rparr>)
      | Some ts \<Rightarrow>
          if maxRequests \<le> length (young now ts) then (False, s\<lparr>liCounts := (liCounts s)(ip \<mapsto> young now ts)\<rparr>)
          else (True, s\<lparr>liCounts := (liCounts s)(ip \<mapsto> young now ts @ [now])\<rparr>))"

lemma rateLimit_tallied:
  "\<exists>s0. countRequest now ip s = tallied now ip s0 \<and> (liCounts s0 = liCounts s \<or> liCounts s0 = swept now (liCounts s))"
  by (rule exI [of _ "if (case liSweep s of None \<Rightarrow> True | Some t \<Rightarrow> timeWindow < now - t)
      then \<lparr>liCounts = swept now (liCounts s), liSweep = Some now\<rparr> else \<lparr>liCounts = liCounts s, liSweep = liSweep s\<rparr>"])
    (auto simp: countRequest_def tallied_def young_def Let_def split: option.splits)

lemma remembers_counts: "liCounts s = liCounts s' \<Longrightarrow> remembers now past s \<longleftrightarrow> remembers now past s'"
  by (simp add: remembers_def kept_times_def)

lemma tallied_step:
  assumes "remembers now past s" "now \<le> n" "tallied n ip s = (ok, s')"
  shows "remembers n (if ok then past @ [(n, ip)] else past) s' \<and>
         (ok \<longrightarrow> length (young n (times_of ip past)) < maxRequests)"
proof -
  have mem: "young later (times_of k past) = young later (kept_times s k)" if "n \<le> later" for later k
    using assms(1,2) that by (auto simp: remembers_def)
  have srt: "sorted (kept_times s k)" "\<forall>u \<in> set (kept_times s k). u \<le> n" for k
    using assms(1,2) by (fastforce simp: remembers_def)+
  have st: "kept_times s' k = (if k = ip then young n (kept_times s ip) @ (if ok then [n] else []) else kept_times s k)" for k
    using assms(3) by (auto simp: tallied_def kept_times_def young_def split: option.splits if_splits)
  have lim: "ok \<longrightarrow> length (young n (kept_times s ip)) < maxRequests"
    using assms(3) by (auto simp: tallied_def kept_times_def young_def maxRequests_def split: option.splits if_splits)
  have "remembers n (if ok then past @ [(n, ip)] else past) s'"
    unfolding remembers_def
  proof (intro allI conjI ballI impI)
    fix k
    show "sorted (kept_times s' k)" using srt [of k] by (auto simp: st sorted_append young_def sorted_wrt_filter)
    show "u \<le> n" if "u \<in> set (kept_times s' k)" for u
      using that srt(2) [of k] by (auto simp: st young_def split: if_splits)
    show "young later (times_of k (if ok then past @ [(n, ip)] else past)) = young later (kept_times s' k)" if "n \<le> later" for later
      using mem [OF that, of k] young_young [OF that] by (auto simp: st times_of_def)
  qed
  then show ?thesis using lim mem [of n ip] by simp
qed

lemma rate_step:
  assumes "remembers now past s" "now \<le> n" "countRequest n ip s = (ok, s')"
  shows "remembers n (if ok then past @ [(n, ip)] else past) s' \<and>
         (ok \<longrightarrow> length (young n (times_of ip past)) < maxRequests)"
proof -
  obtain s0 where s0: "tallied n ip s0 = (ok, s')" "liCounts s0 = liCounts s \<or> liCounts s0 = swept n (liCounts s)"
    using rateLimit_tallied [of n ip s] assms(3) by auto
  from s0(2) have "\<exists>at. at \<le> n \<and> remembers at past s0"
  proof
    assume "liCounts s0 = liCounts s"
    then show ?thesis using assms(1,2) remembers_counts [of s0 s] by blast
  next
    assume "liCounts s0 = swept n (liCounts s)"
    then show ?thesis
      using sweep_remembers [OF assms(1,2)] remembers_counts [of s0 "s\<lparr>liCounts := swept n (liCounts s)\<rparr>" n past] by auto
  qed
  then show ?thesis using tallied_step s0(1) by blast
qed

lemma window_step:
  assumes "\<forall>t. in_window t (times_of k past) \<le> maxRequests" "k = ip \<longrightarrow> length (young n (times_of ip past)) < maxRequests"
  shows "in_window t (times_of k (past @ [(n, ip)])) \<le> maxRequests"
proof (cases "k = ip \<and> t \<le> n \<and> n < t + timeWindow")
  case True
  have "in_window t (times_of ip past) \<le> length (young n (times_of ip past))"
  proof -
    have "length (filter (\<lambda>u. t \<le> u \<and> u < t + timeWindow) ts) \<le> length (filter (\<lambda>u. n - u < timeWindow) ts)" for ts
      using True by (induction ts) auto
    then show ?thesis by (simp add: in_window_def young_def)
  qed
  then show ?thesis using True assms(2) by (simp add: in_window_def times_of_def)
next
  case False
  then show ?thesis using assms(1) by (auto simp: in_window_def times_of_def)
qed

lemma limited_windows:
  assumes "remembers now past s" "\<forall>t k. in_window t (times_of k past) \<le> maxRequests" "sorted (now # map (\<lambda>r. fst (fst r)) rs)"
  shows "in_window t (times_of k (past @ limited s rs)) \<le> maxRequests"
  using assms
proof (induction rs arbitrary: now past s)
  case (Cons r rs)
  show ?case
  proof (cases "snd r")
    case True
    then show ?thesis using Cons.IH [OF Cons.prems(1,2)] Cons.prems(3) by (simp add: rateLimitMiddleware_def)
  next
    case False
    obtain ok s' where r: "countRequest (fst (fst r)) (snd (fst r)) s = (ok, s')" by fastforce
    let ?past = "if ok then past @ [fst r] else past"
    have step: "remembers (fst (fst r)) ?past s' \<and> (ok \<longrightarrow> length (young (fst (fst r)) (times_of (snd (fst r)) past)) < maxRequests)"
      using rate_step [OF Cons.prems(1) _ r] Cons.prems(3) by (cases ok) simp_all
    have "\<forall>t k. in_window t (times_of k ?past) \<le> maxRequests"
      using Cons.prems(2) step window_step [of _ past "snd (fst r)" "fst (fst r)"] by (cases ok) auto
    from Cons.IH [OF conjunct1 [OF step] this] Cons.prems(3) show ?thesis
      using r False by (cases ok) (simp_all add: rateLimitMiddleware_def)
  qed
qed simp

lemma none_before: "remembers now [] no_requests"
  by (simp add: remembers_def kept_times_def no_requests_def times_of_def)

text \<open>Requests as they arrive: their time, the address of the connection, the two headers and whether they are exempt\<close>

definition arrivals :: "(time \<times> string \<times> string \<times> string \<times> bool) list \<Rightarrow> ((time \<times> string) \<times> bool) list" where
  "arrivals rs = map (\<lambda>(t, remote, real, forwarded, exempt). ((t, RealIP remote real forwarded), exempt)) rs"

lemma arrivals_times: "map (\<lambda>r. fst (fst r)) (arrivals rs) = map fst rs"
  by (simp add: arrivals_def case_prod_unfold comp_def)

lemma limited_within: "set (limited s rs) \<subseteq> fst ` set rs"
proof (induction rs arbitrary: s)
  case (Cons r rs)
  obtain ok s' where r: "rateLimitMiddleware (fst (fst r)) (snd (fst r)) (snd r) s = (ok, s')" by fastforce
  show ?case using Cons.IH [of s'] r by (cases ok) auto
qed simp

lemma limited_arrivals:
  assumes "sorted (map fst rs)"
  shows "in_window t (times_of ip (limited no_requests (arrivals rs))) \<le> maxRequests"
proof (cases rs)
  case (Cons r rest)
  show ?thesis
    using limited_windows [OF none_before [of "fst r"], of "arrivals rs" t ip] assms Cons
    by (simp add: in_window_def times_of_def arrivals_times)
qed (simp add: in_window_def times_of_def arrivals_def)

text \<open>A connection to the socket has no address to look for the headers of a proxy.\<close>

lemma socket_address: "RealIP ''@'' real forwarded = ''@''"
  by (simp add: RealIP_def split_host_def parse_ip_def Let_def)

text \<open>
  C34. In any minute at most a hundred counted requests of one address are let through, as long as the clock does not go
  back: every request is counted but the chunks of an upload. On the socket, where the daemon listens by default, they are
  a hundred of all clients together, whatever address the proxy forwards.
\<close>

theorem rate_limited:
  assumes "sorted (map fst rs)"
  shows "in_window t (times_of ip (limited no_requests (arrivals rs))) \<le> maxRequests \<and>
         (list_all (\<lambda>(_, remote, _). remote = ''@'') rs \<longrightarrow>
            in_window t (map fst (limited no_requests (arrivals rs))) \<le> maxRequests)"
proof -
  have "map fst (limited no_requests (arrivals rs)) = times_of ''@'' (limited no_requests (arrivals rs))"
    if socket: "list_all (\<lambda>(_, remote, _). remote = ''@'') rs"
  proof -
    have "snd (fst r) = ''@''" if "r \<in> set (arrivals rs)" for r
      using that socket by (auto simp: arrivals_def list_all_iff socket_address)
    then have "\<forall>r \<in> set (limited no_requests (arrivals rs)). snd r = ''@''"
      using limited_within [of no_requests "arrivals rs"] by fastforce
    then have "filter (\<lambda>r. snd r = ''@'') (limited no_requests (arrivals rs)) = limited no_requests (arrivals rs)" by (simp add: filter_id_conv)
    then show ?thesis by (simp add: times_of_def)
  qed
  then show ?thesis using limited_arrivals [OF assms, of t] by metis
qed

text \<open>Five hundred requests of one client leave none of the minute to another.\<close>

lemma rate_limited_witness:
  "in_window 0 (map fst (limited no_requests (arrivals
     (replicate 500 (7, ''@'', ''10.0.0.5'', [], False) @ replicate 9 (8, ''@'', ''10.0.0.6'', [], False))))) \<le> 100"
proof -
  let ?rs = "replicate 500 (7, ''@'', ''10.0.0.5'', [], False) @ replicate 9 (8 :: time, ''@'', ''10.0.0.6'', [], False)"
  have "sorted (map fst ?rs)" by (simp add: sorted_append)
  moreover have "list_all (\<lambda>(_, remote, _). remote = ''@'') ?rs" by (simp add: list_all_iff)
  ultimately have "in_window 0 (map fst (limited no_requests (arrivals ?rs))) \<le> maxRequests"
    using rate_limited [of ?rs 0 "[]"] by blast
  then show ?thesis unfolding maxRequests_def .
qed

section \<open>What a request has shown\<close>

lemma find_product: "List.find P (List.product xs ys) = Some z \<Longrightarrow> P z \<and> fst z \<in> set xs \<and> snd z \<in> set ys"
  by (auto dest!: find_SomeD)

text \<open>
  C30. A request that passes the session check as a user has a valid API token of an active user and makes only reading
  requests without the scope for more, or a ticket of an event stream, or a live session of an active user whose name it
  gives, with the token of that session where it changes something.
\<close>

theorem admitted_justified:
  assumes "sessionMiddleware E cron now r db m = (As u, m')"
  shows "(\<exists>t row a. bearer r = Some t \<and> row \<in> set (adTokens db) \<and> a \<in> set (adUsers db) \<and>
            atHash row = geHash E t \<and> atUser row = uaID a \<and> uaActive a = 1 \<and>
            (case atExpires row of None \<Rightarrow> True | Some e \<Rightarrow> now < e) \<and> ruID u = uaID a \<and> ruScopes u \<noteq> [] \<and>
            (rqMethod r = ''GET'' \<or> rqMethod r = ''HEAD'' \<or> TokenScopeAllows (ruScopes u) ''write'')) \<or>
         (\<exists>e. m (rqTicket r) = Some e \<and> teUser e = u \<and> now \<le> teExpires e \<and> rqPath r \<in> set stream_paths \<and> m' (rqTicket r) = None) \<or>
         (\<exists>row a. row \<in> set (adSessions db) \<and> a \<in> set (adUsers db) \<and> live_session now (geHash E (rqSession r)) row \<and>
            swName row = uaName a \<and> uaName a = rqUser r \<and> uaActive a = 1 \<and> ruID u = uaID a \<and>
            (rqMethod r = ''GET'' \<or> rqMethod r = ''HEAD'' \<or> rqMethod r = ''OPTIONS'' \<or>
             rqCSRF r \<noteq> [] \<and> csrf_of db (geHash E (rqSession r)) = Some (rqCSRF r)))"
proof -
  let ?tok = "case bearer r of None \<Rightarrow> None | Some t \<Rightarrow> ValidateAPITokenAndGetUser (geHash E) (geOK E 0) now t db"
  have closed: "\<not> is_public r cron" using assms by (auto simp: sessionMiddleware_def split: if_splits)
  consider (token) su where "?tok = Some su" "admit_token E r su = As u"
    | (ticket) "ConsumeSSETicket now (rqTicket r) m = (Some u, m')" "rqPath r \<in> set stream_paths"
    | (session) "admit_session E now r db = As u"
    using assms closed by (auto simp: sessionMiddleware_def split: option.splits if_splits prod.splits)
  then show ?thesis
  proof cases
    case token
    then obtain t where t: "bearer r = Some t" "ValidateAPITokenAndGetUser (geHash E) (geOK E 0) now t db = Some su"
      by (auto split: option.splits)
    then obtain row a where j: "token_join (geHash E t) db = Some (row, a)" "suID su = uaID a"
        "case atExpires row of None \<Rightarrow> True | Some e \<Rightarrow> now < e" "suScopes su \<noteq> []"
      by (auto simp: ValidateAPITokenAndGetUser_def split: option.splits if_splits)
    have "row \<in> set (adTokens db) \<and> a \<in> set (adUsers db) \<and> atHash row = geHash E t \<and> atUser row = uaID a \<and> uaActive a = 1"
      using find_product [OF j(1) [unfolded token_join_def]] by simp
    moreover have "u = \<lparr>ruID = suID su, ruName = suName su, ruScopes = suScopes su\<rparr>"
        "rqMethod r = ''GET'' \<or> rqMethod r = ''HEAD'' \<or> TokenScopeAllows (suScopes su) ''write''"
      using token(2) by (auto simp: admit_token_def TokenReadOnly_def split: if_splits)
    ultimately have "row \<in> set (adTokens db) \<and> a \<in> set (adUsers db) \<and> atHash row = geHash E t \<and> atUser row = uaID a \<and>
        uaActive a = 1 \<and> (case atExpires row of None \<Rightarrow> True | Some e \<Rightarrow> now < e) \<and> ruID u = uaID a \<and> ruScopes u \<noteq> [] \<and>
        (rqMethod r = ''GET'' \<or> rqMethod r = ''HEAD'' \<or> TokenScopeAllows (ruScopes u) ''write'')"
      using j by simp
    then show ?thesis using t(1) by blast
  next
    case ticket
    then show ?thesis by (auto simp: ConsumeSSETicket_def split: if_splits option.splits)
  next
    case session
    then obtain su where su: "ValidateSessionAndGetUser (geHash E) (geOK E 1) now (rqSession r) db = SessionOf su"
        "suName su = rqUser r" "ruID u = suID su"
        "rqMethod r = ''GET'' \<or> rqMethod r = ''HEAD'' \<or> rqMethod r = ''OPTIONS'' \<or>
         rqCSRF r \<noteq> [] \<and> csrf_of db (geHash E (rqSession r)) = Some (rqCSRF r)"
      by (auto simp: admit_session_def split: if_splits option.splits lookup.splits)
    then obtain row a where j: "session_join now (geHash E (rqSession r)) db = Some (row, a)" "suID su = uaID a" "suName su = uaName a"
      by (auto simp: ValidateSessionAndGetUser_def split: if_splits option.splits)
    have "row \<in> set (adSessions db) \<and> a \<in> set (adUsers db) \<and> live_session now (geHash E (rqSession r)) row \<and>
        swName row = uaName a \<and> uaActive a = 1"
      using find_product [OF j(1) [unfolded session_join_def]] by simp
    then have "row \<in> set (adSessions db) \<and> a \<in> set (adUsers db) \<and> live_session now (geHash E (rqSession r)) row \<and>
        swName row = uaName a \<and> uaName a = rqUser r \<and> uaActive a = 1 \<and> ruID u = uaID a"
      using su j by simp
    then show ?thesis using su(4) by blast
  qed
qed

text \<open>A read-only token lists pools, but it cannot delete one.\<close>

definition gate_sample :: gate_env where
  "gate_sample = \<lparr>geHash = rev, geRules = (\<lambda>_. None), geMatch = (\<lambda>_ _. False), geOK = (\<lambda>_. True)\<rparr>"

definition sample_request :: "string \<Rightarrow> http_request" where
  "sample_request method =
     \<lparr>rqPath = ''/api/zfs/pools'', rqRaw = ''/api/zfs/pools'', rqMethod = method, rqRemote = ''10.0.0.5:4000'', rqInternal = [],
      rqAuthorization = ''Bearer dpl_ab'', rqTicket = [], rqSession = [], rqUser = [], rqCSRF = []\<rparr>"

definition sample_accounts :: access_db where
  "sample_accounts =
     \<lparr>adUsers = [\<lparr>uaID = 2, uaName = ''ann'', uaActive = 1, uaMustChange = 0\<rparr>], adSessions = [],
      adTokens = [\<lparr>atHash = ''ba_lpd'', atUser = 2, atScopes = [], atRules = [], atExpires = None\<rparr>], adPermissions = [],
      adRoles = [], adRolePermissions = [], adUserRoles = []\<rparr>"

lemma admitted_justified_witness:
  "sessionMiddleware gate_sample ''k'' 5 (sample_request ''DELETE'') sample_accounts no_tokens = (Denied 403, no_tokens) \<and>
   (\<exists>row \<in> set (adTokens sample_accounts). atHash row = rev ''dpl_ab'')"
proof -
  note defs = sessionMiddleware_def gate_sample_def sample_request_def sample_accounts_def is_public_def public_paths_def
    public_prefixes_def isInternalCronHook_def internal_hooks_def bearer_def ValidateAPITokenAndGetUser_def token_join_def
    admit_token_def TokenReadOnly_def TokenScopeAllows_def scopeRank_def rank_of_def Let_def has_prefix_def
  have "sessionMiddleware gate_sample ''k'' 5 (sample_request ''GET'') sample_accounts no_tokens =
      (As \<lparr>ruID = 2, ruName = ''ann'', ruScopes = ''read''\<rparr>, no_tokens)"
    by (simp add: defs)
  from admitted_justified [OF this]
  have "\<exists>row \<in> set (adTokens sample_accounts). atHash row = rev ''dpl_ab''"
    by (auto simp: gate_sample_def sample_request_def sample_accounts_def bearer_def has_prefix_def no_tokens_def)
  moreover have "sessionMiddleware gate_sample ''k'' 5 (sample_request ''DELETE'') sample_accounts no_tokens = (Denied 403, no_tokens)"
    by (simp add: defs split_at_whole trim_space_def)
  ultimately show ?thesis by blast
qed

end
