(* ===== verification/Spec2Isabelle.thy ===== *)
theory Spec2Isabelle
  imports Manager QuorumOps Watchdog ConfigPeers AuditLog GitOutcome CommandSafety AccessSafety
begin

text \<open>
  DPlaneOS is a NAS operating system; its daemon (\<open>src/daemon\<close>, Go) turns several machines into
  one storage cluster. This library models the parts of the daemon in which a mistake loses data:
  who may write a pool, when a node takes over from another, what a cut-off node still does, and what
  happens to a setting that was changed on two nodes.

  \<^bold>\<open>Parts and how they interact.\<close>

  \<^item> \<open>internal/groups\<close>: storage groups. A group names pools, an owner and an epoch; only the owner writes.
    A node keeps its copy of the table of groups, sends updates to the members, pulls theirs, moves and
    takes over groups, replicates pools, keeps diverged copies and starts what runs only on the owner.
  \<^item> \<open>internal/quorum\<close>: the corosync cluster: its stored definition, the configuration file written from
    it, the votes, the answer to "is this node quorate and may it fail over by itself", and how members
    and voters join and leave. The group manager asks it before every write and every takeover.
  \<^item> \<open>internal/ha\<close> and \<open>internal/handlers/protection.go\<close>: the watchdog that resets a node which lost
    quorum, and power fencing. The time another node waits before a takeover is computed from them.
  \<^item> \<open>internal/configstore\<close>: every change of the configuration is a revision; paired nodes exchange
    revisions, merge histories, keep conflicts and offer overruled versions as proposals. The epoch of a
    group decides whose revision of a group's setting counts.
  \<^item> \<open>internal/audit\<close>: the chained log of what was done, written by all the parts.
  \<^item> \<open>internal/gitops\<close>: the desired state, its comparison with the live system, the plan made from it and the
    engine that applies a plan: to the tables, to ZFS, to the shares, to the network.
  \<^item> \<open>internal/networkdwriter\<close>: the network configuration, rendered into the files of systemd-networkd, with
    changes that are undone unless they are confirmed. GitOps and the network page both write it.
  \<^item> \<open>internal/security\<close> and \<open>internal/cmdutil\<close>: the whitelist. Every command the daemon runs by a key of its table
    is checked here; handlers and GitOps rely on it.
  \<^item> \<open>internal/security\<close>, \<open>internal/middleware\<close> and the wrappers of \<open>cmd/dplaned\<close>: who is asking and what they may
    do. Every request passes the session check and the limit of requests, then the permission of its route, and
    for some routes the second factor and a confirmation token.

  \<^bold>\<open>Theories.\<close> \<open>Prelude\<close>, \<open>NetAddr\<close> (Go's \<open>net\<close>, \<open>net/netip\<close>) and \<open>GoText\<close> (\<open>strings\<close>, \<open>strconv\<close>)
  hold what the components share. \<open>Samples\<close> holds the concrete values of the witnesses. Then, in the
  order of the code:

  \<^item> \<open>StorageGroups\<close> (\<open>groups.go\<close>): \<^typ>\<open>group\<close>, \<^const>\<open>Validate\<close>, \<^const>\<open>Newer\<close>, \<^const>\<open>Evaluate\<close>. A stamp
    is the pair (epoch, time of the update) by which a group is newer; it is given a linear order.
  \<^item> \<open>Node\<close> (\<open>groups.go\<close>, \<open>ops.go\<close>): the record \<^typ>\<open>node\<close> is \<open>type Manager struct\<close> with the rows of its
    tables. Everything outside (zpool, zfs, PostgreSQL, docker, ip, the other members) is a call:
    an operation is appended to the trace of the node and the environment \<^typ>\<open>env\<close>, a parameter of every
    operation, answers it from the trace so far. No law is assumed of the environment unless a theorem
    says so, so a theorem covers any failure at any point.
  \<^item> \<open>Replication\<close>, \<open>Copies\<close> (\<open>replicate.go\<close>, \<open>split.go\<close>), \<open>Activation\<close> (\<open>resources.go\<close>, \<open>address.go\<close>),
    \<open>Ownership\<close> (\<open>ops.go\<close>: create, remove, move, adopt, receive), \<open>OwnerImport\<close> (\<open>boot.go\<close>),
    \<open>Failover\<close> (\<open>failover.go\<close>), \<open>Maintenance\<close> (\<open>maintenance.go\<close>): one definition per function, its
    loops as recursive definitions of their own.
  \<^item> \<open>Register\<close>: the locales of a register that takes updates by stamp; \<open>Ownership\<close> interprets them on the
    table of groups, with \<^const>\<open>adopt\<close> as the update. \<open>Ordering\<close>: what may be called before what, read off the
    trace. \<open>Manager\<close>: everything a node is asked, as a step relation, with its invariants.
  \<^item> \<open>Quorum\<close> (\<open>conf.go\<close>, \<open>status.go\<close>, the reading half of \<open>manager.go\<close>) and \<open>QuorumOps\<close> (\<open>manager.go\<close>,
    \<open>members.go\<close>): \<^typ>\<open>cluster\<close> is \<open>Config\<close>, \<^typ>\<open>qnode\<close> the state with the saved row, the file, the enrollment
    codes and the certificates; the calls are answered by \<^typ>\<open>qenv\<close>.
  \<^item> \<open>Watchdog\<close> (\<open>internal/ha\<close>): the keeper as a record with the countdown of the device, one definition per
    method; time is an explicit argument.
  \<^item> \<open>ConfigMerge\<close> (\<open>merge.go\<close>), \<open>ConfigSync\<close> (\<open>store.go\<close>, \<open>policy.go\<close>, \<open>sync.go\<close>: capture, receive, evaluate),
    \<open>ConfigReview\<close> (resolve, proposals), \<open>ConfigPeers\<close> (pages, rounds, tokens, pairing, removal) and
    \<open>ConfigHistory\<close> (the proofs about \<open>evaluate\<close>): \<^typ>\<open>csync\<close> is the state of one node, \<^typ>\<open>cenv\<close> answers the calls.

  \<^item> \<open>AuditLog\<close> (\<open>internal/audit\<close>, \<open>audit_verify.go\<close>): the buffered logger with the rows of its table. HMAC is a
    parameter; the theorems that need it to be injective say so.
  \<^item> \<open>GitTypes\<close> (\<open>gitops/state.go\<close>, \<open>live.go\<close>): desired state, live state, plans. \<open>GitPools\<close> (\<open>zpool_create.go\<close>,
    \<open>diffPool\<close>, \<open>executeReshape\<close>): the devices of pools. \<open>GitLive\<close> (\<open>live.go\<close>, \<open>docker_state.go\<close>): what the
    outputs of the commands are read as. \<open>GitDiff\<close>, \<open>GitPlan\<close> (\<open>diff.go\<close>): the comparison of every kind of
    resource, the checks that block a deletion, and \<^const>\<open>ComputeDiff\<close>.
  \<^item> \<open>NetState\<close>, \<open>NetWriter\<close> (\<open>writer.go\<close>): \<^typ>\<open>net_state\<close> is \<open>State\<close>, \<^const>\<open>render\<close> its files,
    \<^typ>\<open>net_node\<close> the writer with the directory, and \<^typ>\<open>net_env\<close> answers the calls. \<open>GitNetwork\<close> (\<open>network.go\<close>)
    connects it with GitOps.
  \<^item> \<open>GitStore\<close> (\<open>SyncDB\<close>, \<open>nfsconf\<close>, \<open>smbconf\<close>): \<^typ>\<open>gitdb\<close> are the tables, \<^const>\<open>effect\<close> what a statement does to
    them. \<open>GitApply\<close> (\<open>apply.go\<close>, \<open>replication.go\<close>, \<open>verify.go\<close>): every operation behind an item and
    \<^const>\<open>ApplyPlan\<close>. \<^typ>\<open>gnode\<close> is a node with its tables, its network state and the trace of its calls,
    \<^typ>\<open>genv\<close> answers them. \<open>GitSafety\<close> proves what may be destroyed, \<open>GitOutcome\<close> what an apply ends with.
  \<^item> \<open>GoRegexp\<close> (Go's \<open>regexp\<close>, anchored): an expression has a language, and \<^const>\<open>MatchString\<close> decides it by
    derivatives. \<open>Whitelist\<close> (\<open>whitelist.go\<close>): the table, \<^const>\<open>CommandWhitelist\<close>. \<open>WhitelistCheck\<close> (\<open>whitelist.go\<close>,
    \<open>docker.go\<close>, \<open>group_address.go\<close>, \<open>cmdutil.go\<close>, \<open>handlers/zfs.go\<close>): names, paths, the validators and
    \<^const>\<open>ValidateCommand\<close>. \<open>CommandSafety\<close> (with the firewall of \<open>system_extended.go\<close>): what passes and what does not.
  \<^item> \<open>OneTime\<close>: the locale of a store of one-time tokens, interpreted for confirmation tokens and for tickets.
    \<open>Access\<close> (\<open>rbac.go\<close>, \<open>rbac_roles.go\<close>, the roles \<open>ldap.go\<close> and \<open>oidc.go\<close> assign): \<^typ>\<open>access\<close> is the tables with the permission cache. \<open>AccessGate\<close>
    (\<open>session.go\<close>, \<open>middleware/rbac.go\<close>, \<open>confirm.go\<close>, \<open>ip.go\<close>, \<open>main.go\<close>): one definition per check, its answer a
    \<^typ>\<open>gate\<close> or an \<^typ>\<open>admission\<close>. \<open>AccessSafety\<close>: what passing them shows, and where the cache and the limit
    are wrong.

  \<^bold>\<open>What the lemmas show.\<close> Pure decisions (\<open>planFailover\<close>, \<open>planOwnerImport\<close>, \<open>Evaluate\<close>, \<open>Classify\<close>) have a
  lemma that gives the exact condition of their answer, and the safety theorems are proved from those.
  Operations with effects have an outcome lemma (every way they can end and what is stored then), an
  invariant they keep, and ordering lemmas (\<open>guarded\<close>) where the order of the calls matters. The
  requests of a component are collected in a step relation or a sum of requests, and the invariants are
  proved for every sequence of them. Locales state the contracts several operations share: registers
  (\<open>Register\<close>), the gates of requests and the calls that never grow a table; every one is interpreted on
  the definitions of the code. For GitOps a call is justified by the calls before it, justified steps compose, and
  every operation of the apply engine is shown to be made of them.

  \<^bold>\<open>Bounds and termination.\<close> Loops over lists are structural recursion. The walks over an ancestry
  (\<^const>\<open>walk\<close>, \<^const>\<open>overruling\<close>) end by the number of revisions not seen yet, also on an ancestry with cycles. Fetching
  the pages of a peer may not end when the peer keeps answering, as in the code: it is a partial function
  into an option, and a theorem gives its end for a peer that serves its log. A probe is tried three times and
  the links of a reload are awaited fifty times, as in the code. Sequence numbers, epochs and
  sizes are signed 64-bit with the wrap-around of Go written out where the code computes with them;
  times and durations are integers in nanoseconds, seconds where the code only uses seconds.

  \<^bold>\<open>What is not modelled.\<close> The text of SQL statements (their effect on the rows is), the commands behind
  zpool, zfs, docker, nvmet, systemd and corosync (their answers are arbitrary), log lines and the texts
  shown to the operator, HTTP transport, pinning and JSON encoding, goroutines and tickers (each pass is one
  operation and passes interleave only between operations), the collation of ORDER BY (bytes are
  compared), text that is not ASCII (patterns count bytes), the limit of the line scanner. The witness side of the third vote
  and the notices of the configuration store are not modelled; of GitOps, the reader and the printer of
  \<open>state.yaml\<close> and the text of \<open>smb.conf\<close> are not. Maps are association lists in the order in which Go visits them,
  and theorems that need their keys to be distinct say so. Of the rest of the daemon, the HTTP handlers, the
  monitors, the container, network, directory and identity integrations, the system configuration writers and the web interface are left
  out: they are listed as not modelled, with the reason, in the list of components.
\<close>

section \<open>One writer\<close>

lemma CanWritePool_owner:
  assumes "fst (CanWritePool E pool s) = None" and "fst (ForPool E pool s) = Inr (Some g)"
  shows "gOwner g = eSelf E" and "gName g \<notin> set (moving s)"
proof -
  let ?s1 = "snd (ForPool E pool s)"
  obtain v where v: "fst (currentView E ?s1) = Inr v"
    using assms by (auto simp: CanWritePool_def split_beta split: sum.splits)
  then have c: "currentView E ?s1 = (Inr v, snd (currentView E ?s1))" by (simp add: prod_eq_iff)
  have "sCanWrite (Evaluate g v)"
    using assms v by (auto simp: CanWritePool_def split_beta Let_def split: if_splits)
  then show "gOwner g = eSelf E" "gName g \<notin> set (moving s)"
    using currentView_InrD [OF c] by (simp_all add: Evaluate_write)
qed

text \<open>
  C18. Two nodes that agree on the owner of a pool's group are never both allowed to write the pool,
  and a node is not allowed to while it moves the group.
\<close>

theorem one_writer:
  assumes "fst (CanWritePool E pool s) = None" and "fst (ForPool E pool s) = Inr (Some g)"
    and "fst (CanWritePool E' pool t) = None" and "fst (ForPool E' pool t) = Inr (Some h)"
    and "gOwner g = gOwner h"
  shows "eSelf E = eSelf E' \<and> gName g \<notin> set (moving s) \<and> gName h \<notin> set (moving t)"
  using CanWritePool_owner [OF assms(1,2)] CanWritePool_owner [OF assms(3,4)] assms(5) by simp

lemma one_writer_witness:
  "eSelf (sample_env ''a'' [(''tank'', ''7'')] [''a''] (\<lambda>a. None)) = ''a'' \<and>
   ''g'' \<notin> set (moving (sample_node [sample_group ''a'' 1]))"
  using one_writer [of "sample_env ''a'' [(''tank'', ''7'')] [''a''] (\<lambda>a. None)" "''tank''"
      "sample_node [sample_group ''a'' 1]" "sample_group ''a'' 1"
      "sample_env ''a'' [(''tank'', ''7'')] [''a''] (\<lambda>a. None)"
      "sample_node [sample_group ''a'' 1]" "sample_group ''a'' 1"]
  by (simp add: CanWritePool_def ForPool_def List_groups_def perform_def currentView_def importedPools_def
      viewWith_def Maintenances_def inMaintenance_def in_maintenance_at_def known_nodes_def Let_def Evaluate_write)

end
